(* ===== verification/Prelude.thy ===== *)
theory Prelude
  imports Main "HOL-Library.Word" "HOL-Library.List_Lexorder" "HOL-Library.Multiset"
begin

text \<open>
  Vocabulary shared by every component of the development.

  \<^item> Errors are values. A TypeScript function that may throw is a function into
    \<open>'a result\<close>; \<open>Inl\<close> carries the class of the thrown object together with the
    fixed part of its message, \<open>Inr\<close> the returned value. \<open>CodedError\<close> is an error class
    of the program's own, with its code. \<open>bindR\<close> sequences two such
    computations the way a throw inside a function body does, \<open>mapR\<close> is the loop
    \<open>xs.map(f)\<close> that stops at the first throw.
  \<^item> A JavaScript string is a list of UTF-16 code units, \<open>jsstring\<close>. The list order of
    \<open>HOL-Library.List_Lexorder\<close> on 16-bit words is the code-unit order of the
    operator \<open><\<close> on strings, which the source sorts by. \<open>js\<close> embeds an ASCII literal.
  \<^item> \<open>sort_key_by\<close>, decimal numerals (\<open>String(n)\<close> for non-negative integers) and their
    inverse \<open>parse_nat\<close> (\<open>BigInt(s)\<close> on canonical decimals).

  The collection \<open>result_simps\<close> and the rules \<open>bindRE\<close> and \<open>ifRE\<close> hold what the component proofs
  need in order to walk through a \<open>bindR\<close> chain, all at once or step by step.
\<close>

named_theorems result_simps \<open>rewriting of chains of fallible computations\<close>
named_theorems js_eval \<open>unfolding of literals and string predicates on concrete input\<close>


section \<open>Fallible computations\<close>

datatype error =
    TypeError string
  | RangeError string
  | PlainError string
  | ZodError
  | SyntaxError string
  | StackOverflow
  | CodedError string string

type_synonym 'a result = "error + 'a"

definition bindR :: "'a result \<Rightarrow> ('a \<Rightarrow> 'b result) \<Rightarrow> 'b result" where
  "bindR m f = (case m of Inl e \<Rightarrow> Inl e | Inr x \<Rightarrow> f x)"

definition assertR :: "bool \<Rightarrow> error \<Rightarrow> unit result" where
  "assertR b e = (if b then Inr () else Inl e)"

fun mapR :: "('a \<Rightarrow> 'b result) \<Rightarrow> 'a list \<Rightarrow> 'b list result" where
  "mapR f [] = Inr []"
| "mapR f (x # xs) = bindR (f x) (\<lambda>y. bindR (mapR f xs) (\<lambda>ys. Inr (y # ys)))"

fun foldR :: "('a \<Rightarrow> 's \<Rightarrow> 's result) \<Rightarrow> 'a list \<Rightarrow> 's \<Rightarrow> 's result" where
  "foldR f [] s = Inr s"
| "foldR f (x # xs) s = bindR (f x s) (foldR f xs)"

definition isOk :: "'a result \<Rightarrow> bool" where
  "isOk m = (case m of Inl _ \<Rightarrow> False | Inr _ \<Rightarrow> True)"

lemma bindR_simps [simp]:
  "bindR (Inl e) f = Inl e"
  "bindR (Inr x) f = f x"
  by (simp_all add: bindR_def)

lemma bindR_eq_Inr [result_simps]:
  "bindR m f = Inr z \<longleftrightarrow> (\<exists>y. m = Inr y \<and> f y = Inr z)"
  by (cases m) auto

lemma Inr_eq_bindR [result_simps]:
  "Inr z = bindR m f \<longleftrightarrow> (\<exists>y. m = Inr y \<and> f y = Inr z)"
  by (cases m) auto

lemma bindRE: "bindR m f = Inr z \<Longrightarrow> (\<And>y. m = Inr y \<Longrightarrow> f y = Inr z \<Longrightarrow> P) \<Longrightarrow> P"
  by (cases m) auto

lemma bindR_if: "(if b then Inl e else m) = Inr z \<longleftrightarrow> \<not> b \<and> m = Inr z"
  by auto

lemma ifRE: "(if b then Inl e else m) = Inr z \<Longrightarrow> (\<not> b \<Longrightarrow> m = Inr z \<Longrightarrow> P) \<Longrightarrow> P"
  by (auto split: if_splits)

lemma bindR_assoc: "bindR (bindR m f) g = bindR m (\<lambda>x. bindR (f x) g)"
  by (cases m) auto

lemma bindR_cong [fundef_cong]:
  "m = m' \<Longrightarrow> (\<And>x. m' = Inr x \<Longrightarrow> f x = g x) \<Longrightarrow> bindR m f = bindR m' g"
  by (cases m') auto

lemma assertR_eq_Inr [result_simps, simp]: "assertR b e = Inr u \<longleftrightarrow> b"
  by (simp add: assertR_def)

lemma assertR_True [simp]: "assertR True e = Inr ()"
  by (simp add: assertR_def)

lemma isOk_simps [simp]: "isOk (Inr x)" "\<not> isOk (Inl e)"
  by (simp_all add: isOk_def)

lemma isOk_iff: "isOk m \<longleftrightarrow> (\<exists>x. m = Inr x)"
  by (cases m) auto

lemma mapR_eq_Inr: "mapR f xs = Inr ys \<longleftrightarrow> list_all2 (\<lambda>x y. f x = Inr y) xs ys"
proof (induction xs arbitrary: ys)
  case Nil
  show ?case by (auto simp: list_all2_Nil)
next
  case (Cons x xs)
  show ?case
    by (cases ys) (auto simp: result_simps Cons.IH)
qed

lemma mapR_Inr: "(\<And>x. x \<in> set xs \<Longrightarrow> f x = Inr (g x)) \<Longrightarrow> mapR f xs = Inr (map g xs)"
  by (induction xs) auto

lemma mapR_cong [fundef_cong]:
  "xs = ys \<Longrightarrow> (\<And>x. x \<in> set ys \<Longrightarrow> f x = g x) \<Longrightarrow> mapR f xs = mapR g ys"
  by (induction ys arbitrary: xs) (auto intro: bindR_cong)

lemma foldR_append: "foldR f (xs @ ys) s = bindR (foldR f xs s) (foldR f ys)"
  by (induction xs arbitrary: s) (auto simp: bindR_assoc intro: bindR_cong)

lemma foldR_invariant:
  assumes "foldR f xs s = Inr t" and "P s"
    and "\<And>x s t. x \<in> set xs \<Longrightarrow> P s \<Longrightarrow> f x s = Inr t \<Longrightarrow> P t"
  shows "P t"
  using assms
proof (induction xs arbitrary: s)
  case Nil
  then show ?case by simp
next
  case (Cons x xs)
  from Cons.prems(1) obtain u where u: "f x s = Inr u" and rest: "foldR f xs u = Inr t"
    by (auto simp: result_simps)
  have "P u" by (rule Cons.prems(3) [OF _ Cons.prems(2) u]) simp
  with rest show ?case by (rule Cons.IH) (auto intro: Cons.prems(3))
qed


section \<open>JavaScript strings\<close>

type_synonym jsstring = "16 word list"

definition js :: "string \<Rightarrow> jsstring" where
  "js s = map of_char s"

lemma js_simps:
  "js [] = []"
  "js (c # s) = of_char c # js s"
  by (simp_all add: js_def)

lemma length_js [simp]: "length (js s) = length s"
  by (simp add: js_def)

lemma of_char_16_inj: "(of_char c :: 16 word) = of_char d \<longleftrightarrow> c = d"
proof
  assume eq: "(of_char c :: 16 word) = of_char d"
  have "unat (of_char x :: 16 word) = of_char x" for x :: char
  proof -
    have "(of_char x :: 16 word) = of_nat (of_char x)"
      by (metis of_nat_of_char)
    moreover have "(of_char x :: nat) mod 65536 = of_char x"
      by (rule mod_less, rule less_trans [OF nat_of_char_less_256]) simp
    ultimately show ?thesis by (simp add: unat_of_nat)
  qed
  with eq have "(of_char c :: nat) = of_char d" by metis
  then show "c = d" by simp
qed simp

lemma js_inj [simp]: "js s = js t \<longleftrightarrow> s = t"
proof
  assume "js s = js t"
  then show "s = t"
  proof (induction s arbitrary: t)
    case Nil
    then show ?case by (cases t) (auto simp: js_simps)
  next
    case (Cons c s)
    then show ?case by (cases t) (auto simp: js_simps of_char_16_inj)
  qed
qed simp


section \<open>Sorting by a key\<close>

text \<open>
  \<open>Array.prototype.sort\<close> with a comparator is stable; so is \<open>sort_key\<close>. The lemmas
  below are the ones every use of it in the source relies on.
\<close>

lemma distinct_sort_key_fst:
  "distinct (map fst (sort_key fst xs)) \<longleftrightarrow> distinct (map fst xs)"
  by (rule mset_eq_imp_distinct_iff) simp

lemma map_of_sort_key:
  "distinct (map fst xs) \<Longrightarrow> map_of (sort_key fst xs) = map_of xs"
  by (subst map_of_inject_set) (auto simp: distinct_sort_key_fst)

lemma sorted_assoc_unique:
  assumes "sorted (map fst xs)" "sorted (map fst ys)"
    and "distinct (map fst xs)" "distinct (map fst ys)" "map_of xs = map_of ys"
  shows "xs = ys"
proof -
  have "set xs = set ys"
    using assms(3-5) map_of_inject_set by blast
  moreover have "inj_on fst (set xs)" using assms(3) by (simp add: distinct_map)
  ultimately show ?thesis
    using assms by (intro map_sorted_distinct_set_unique [of fst]) auto
qed


section \<open>Decimal numerals\<close>

fun digits_of_nat :: "nat \<Rightarrow> nat list" where
  "digits_of_nat n = (if n < 10 then [n] else digits_of_nat (n div 10) @ [n mod 10])"

declare digits_of_nat.simps [simp del]

definition digit_unit :: "nat \<Rightarrow> 16 word" where
  "digit_unit d = of_nat (48 + d)"

definition dec :: "nat \<Rightarrow> jsstring" where
  "dec n = map digit_unit (digits_of_nat n)"

definition is_digit :: "16 word \<Rightarrow> bool" where
  "is_digit c \<longleftrightarrow> 48 \<le> c \<and> c \<le> 57"

definition digit_val :: "16 word \<Rightarrow> nat" where
  "digit_val c = unat c - 48"

definition nat_of_digits :: "nat list \<Rightarrow> nat" where
  "nat_of_digits ds = foldl (\<lambda>n d. 10 * n + d) 0 ds"

definition parse_nat :: "jsstring \<Rightarrow> nat" where
  "parse_nat s = nat_of_digits (map digit_val s)"

definition intString :: "int \<Rightarrow> jsstring" where
  "intString n = (if n < 0 then 45 # dec (nat (- n)) else dec (nat n))"

lemma digits_lt_10: "d \<in> set (digits_of_nat n) \<Longrightarrow> d < 10"
proof (induction n rule: digits_of_nat.induct)
  case (1 n)
  then show ?case
    by (subst (asm) digits_of_nat.simps) (auto split: if_splits)
qed

lemma digits_nonempty [simp]: "digits_of_nat n \<noteq> []"
  by (subst digits_of_nat.simps) simp

lemma nat_of_digits_snoc [simp]: "nat_of_digits (ds @ [d]) = 10 * nat_of_digits ds + d"
  by (simp add: nat_of_digits_def)

lemma nat_of_digits_digits [simp]: "nat_of_digits (digits_of_nat n) = n"
proof (induction n rule: digits_of_nat.induct)
  case (1 n)
  then show ?case
    by (subst digits_of_nat.simps) (auto simp: nat_of_digits_def)
qed

lemma unat_digit_unit: "d < 10 \<Longrightarrow> unat (digit_unit d) = 48 + d"
  by (simp add: digit_unit_def unat_of_nat del: of_nat_add)

lemma digit_val_unit [simp]: "d < 10 \<Longrightarrow> digit_val (digit_unit d) = d"
  by (simp add: digit_val_def unat_digit_unit)

lemma is_digit_unit [simp]: "d < 10 \<Longrightarrow> is_digit (digit_unit d)"
  by (simp add: is_digit_def word_le_nat_alt unat_digit_unit)

lemma dec_nonempty [simp]: "dec n \<noteq> []"
  by (simp add: dec_def)

lemma dec_digits: "c \<in> set (dec n) \<Longrightarrow> is_digit c"
  by (auto simp: dec_def dest: digits_lt_10)

lemma parse_dec [simp]: "parse_nat (dec n) = n"
proof -
  have "map digit_val (dec n) = digits_of_nat n"
    by (auto simp: dec_def digits_lt_10 intro!: map_idI)
  then show ?thesis by (simp add: parse_nat_def)
qed

lemma dec_inj [simp]: "dec m = dec n \<longleftrightarrow> m = n"
  by (metis parse_dec)

lemma digits_hd_pos: "0 < n \<Longrightarrow> hd (digits_of_nat n) \<noteq> 0"
proof (induction n rule: digits_of_nat.induct)
  case (1 n)
  show ?case
  proof (cases "n < 10")
    case True
    then show ?thesis using 1 by (subst digits_of_nat.simps) simp
  next
    case False
    then show ?thesis using 1 by (subst digits_of_nat.simps) simp
  qed
qed

end
