(* ===== verification/JsString.thy ===== *)
theory JsString
  imports Prelude
begin

text \<open>
  JavaScript strings as \<^verbatim>\<open>src/core/json.ts\<close> and \<^verbatim>\<open>src/core/hash.ts\<close> use them: the
  surrogate check \<open>assertUnicodeScalarString\<close>, the UTF-8 encoding of
  \<^verbatim>\<open>Buffer.from(s, "utf8")\<close> and \<^verbatim>\<open>Buffer.byteLength\<close>, and the quoting of a string by
  \<^verbatim>\<open>JSON.stringify\<close>.

  What is shown: the surrogate check accepts exactly the well-formed UTF-16 strings and, in
  addition, a well-formed string followed by one unpaired high surrogate at the very end
  (\<open>charCodeAt\<close> past the end is \<open>NaN\<close>, and both comparisons with it are false); UTF-8
  is injective on well-formed strings; a quoted string is always well-formed, whatever the
  string was, because the quoting escapes lone surrogates.
\<close>

declare js_simps [simp]

section \<open>Surrogates\<close>

definition is_high :: "16 word \<Rightarrow> bool" where
  "is_high c \<longleftrightarrow> 0xD800 \<le> c \<and> c \<le> 0xDBFF"

definition is_low :: "16 word \<Rightarrow> bool" where
  "is_low c \<longleftrightarrow> 0xDC00 \<le> c \<and> c \<le> 0xDFFF"

text \<open>
  The loop of \<open>assertUnicodeScalarString\<close>. At the last index \<open>charCodeAt(index + 1)\<close>
  is \<open>NaN\<close>: \<open>next < 0xdc00 || next > 0xdfff\<close> is false and nothing is thrown.
\<close>

fun assertUnicodeScalarString :: "jsstring \<Rightarrow> unit result" where
  "assertUnicodeScalarString [] = Inr ()"
| "assertUnicodeScalarString [c] =
     (if is_high c then Inr ()
      else if is_low c then Inl (TypeError ''unpaired low surrogate'')
      else Inr ())"
| "assertUnicodeScalarString (c # d # cs) =
     (if is_high c then
        (if d < 0xDC00 \<or> d > 0xDFFF then Inl (TypeError ''unpaired high surrogate'')
         else assertUnicodeScalarString cs)
      else if is_low c then Inl (TypeError ''unpaired low surrogate'')
      else assertUnicodeScalarString (d # cs))"

fun well_formed :: "jsstring \<Rightarrow> bool" where
  "well_formed [] \<longleftrightarrow> True"
| "well_formed [c] \<longleftrightarrow> \<not> is_high c \<and> \<not> is_low c"
| "well_formed (c # d # cs) \<longleftrightarrow>
     (if is_high c then is_low d \<and> well_formed cs
      else \<not> is_low c \<and> well_formed (d # cs))"

definition scalar :: "jsstring \<Rightarrow> bool" where
  "scalar s \<longleftrightarrow> isOk (assertUnicodeScalarString s)"

lemma high_not_low: "is_high c \<Longrightarrow> \<not> is_low c"
  by (auto simp: is_high_def is_low_def word_le_nat_alt)

lemma not_low_iff: "\<not> is_low d \<longleftrightarrow> d < 0xDC00 \<or> d > 0xDFFF"
  by (auto simp: is_low_def not_le)

lemma assert_scalar_iff:
  "assertUnicodeScalarString s = Inr () \<longleftrightarrow>
     well_formed s \<or> (\<exists>t h. s = t @ [h] \<and> well_formed t \<and> is_high h)"
proof (induction s rule: assertUnicodeScalarString.induct)
  case 1
  show ?case by simp
next
  case (2 c)
  show ?case by (auto simp: high_not_low Cons_eq_append_conv)
next
  case (3 c d cs)
  show ?case
  proof (cases "is_high c")
    case True
    show ?thesis
    proof (cases "is_low d")
      case low: True
      have "(\<exists>t h. c # d # cs = t @ [h] \<and> well_formed t \<and> is_high h) \<longleftrightarrow>
        (\<exists>t h. cs = t @ [h] \<and> well_formed t \<and> is_high h)"
      proof
        assume "\<exists>t h. c # d # cs = t @ [h] \<and> well_formed t \<and> is_high h"
        then obtain t h where eq: "c # d # cs = t @ [h]" and wf: "well_formed t" and h: "is_high h"
          by blast
        from eq low h obtain u where u: "t = c # d # u" "cs = u @ [h]"
          by (auto simp: Cons_eq_append_conv high_not_low)
        with wf True h show "\<exists>t h. cs = t @ [h] \<and> well_formed t \<and> is_high h" by auto
      next
        assume "\<exists>t h. cs = t @ [h] \<and> well_formed t \<and> is_high h"
        then obtain t h where "cs = t @ [h]" "well_formed t" "is_high h" by blast
        with True low show "\<exists>t h. c # d # cs = t @ [h] \<and> well_formed t \<and> is_high h"
          by (intro exI [of _ "c # d # t"] exI [of _ h]) simp
      qed
      moreover from low have "\<not> (d < 0xDC00 \<or> d > 0xDFFF)" by (simp flip: not_low_iff)
      ultimately show ?thesis using True low 3(1) by simp
    next
      case notlow: False
      then have "d < 0xDC00 \<or> d > 0xDFFF" by (simp add: not_low_iff)
      moreover have "\<not> (\<exists>t h. c # d # cs = t @ [h] \<and> well_formed t \<and> is_high h)"
        using True notlow by (auto simp: Cons_eq_append_conv)
      ultimately show ?thesis using True notlow by auto
    qed
  next
    case False
    have "(\<exists>t h. c # d # cs = t @ [h] \<and> well_formed t \<and> is_high h) \<longleftrightarrow>
      \<not> is_low c \<and> (\<exists>t h. d # cs = t @ [h] \<and> well_formed t \<and> is_high h)"
    proof
      assume "\<exists>t h. c # d # cs = t @ [h] \<and> well_formed t \<and> is_high h"
      then obtain t h where "c # d # cs = t @ [h]" "well_formed t" "is_high h" by blast
      moreover from this obtain u where "t = c # u" "d # cs = u @ [h]"
        by (auto simp: Cons_eq_append_conv)
      ultimately show "\<not> is_low c \<and> (\<exists>t h. d # cs = t @ [h] \<and> well_formed t \<and> is_high h)"
        using False by (cases u) auto
    next
      assume R: "\<not> is_low c \<and> (\<exists>t h. d # cs = t @ [h] \<and> well_formed t \<and> is_high h)"
      then obtain t h where *: "d # cs = t @ [h]" "well_formed t" "is_high h" by blast
      with R False have "well_formed (c # t)" by (cases t) auto
      with * show "\<exists>t h. c # d # cs = t @ [h] \<and> well_formed t \<and> is_high h"
        by (intro exI [of _ "c # t"] exI [of _ h]) simp
    qed
    then show ?thesis using False 3(2) by auto
  qed
qed

lemma scalar_iff:
  "scalar s \<longleftrightarrow> well_formed s \<or> (\<exists>t h. s = t @ [h] \<and> well_formed t \<and> is_high h)"
  by (simp add: scalar_def isOk_iff flip: assert_scalar_iff)

lemma well_formed_scalar: "well_formed s \<Longrightarrow> scalar s"
  by (simp add: scalar_iff)


section \<open>UTF-8\<close>

type_synonym byte = "8 word"

definition utf8_unit :: "16 word \<Rightarrow> byte list" where
  "utf8_unit c =
     (let n = unat c in
      if n < 0x80 then [of_nat n]
      else if n < 0x800 then [of_nat (0xC0 + n div 64), of_nat (0x80 + n mod 64)]
      else if is_high c \<or> is_low c then [0xEF, 0xBF, 0xBD]
      else [of_nat (0xE0 + n div 4096), of_nat (0x80 + n div 64 mod 64), of_nat (0x80 + n mod 64)])"

definition utf8_pair :: "16 word \<Rightarrow> 16 word \<Rightarrow> byte list" where
  "utf8_pair c d =
     (let n = 0x10000 + (unat c - 0xD800) * 1024 + (unat d - 0xDC00) in
      [of_nat (0xF0 + n div 262144), of_nat (0x80 + n div 4096 mod 64),
       of_nat (0x80 + n div 64 mod 64), of_nat (0x80 + n mod 64)])"

fun utf8 :: "jsstring \<Rightarrow> byte list" where
  "utf8 [] = []"
| "utf8 [c] = utf8_unit c"
| "utf8 (c # d # cs) =
     (if is_high c \<and> is_low d then utf8_pair c d @ utf8 cs
      else utf8_unit c @ utf8 (d # cs))"

definition byteLength :: "jsstring \<Rightarrow> nat" where
  "byteLength s = length (utf8 s)"

text \<open>
  A decoder of one character at a time, used to show that the encoding loses nothing on
  well-formed strings.
\<close>

definition cont :: "byte \<Rightarrow> nat" where
  "cont b = unat b - 0x80"

fun utf8_decode :: "byte list \<Rightarrow> jsstring" where
  "utf8_decode [] = []"
| "utf8_decode (a # bs) =
     (if unat a < 0x80 then of_nat (unat a) # utf8_decode bs
      else if unat a < 0xE0 then
        (case bs of b # rest \<Rightarrow> of_nat ((unat a - 0xC0) * 64 + cont b) # utf8_decode rest
         | _ \<Rightarrow> [])
      else if unat a < 0xF0 then
        (case bs of b # c # rest \<Rightarrow>
           of_nat ((unat a - 0xE0) * 4096 + cont b * 64 + cont c) # utf8_decode rest
         | _ \<Rightarrow> [])
      else
        (case bs of b # c # d # rest \<Rightarrow>
           (let n = (unat a - 0xF0) * 262144 + cont b * 4096 + cont c * 64 + cont d - 0x10000 in
            of_nat (0xD800 + n div 1024) # of_nat (0xDC00 + n mod 1024) # utf8_decode rest)
         | _ \<Rightarrow> []))"

lemma unat_byte: "n < 256 \<Longrightarrow> unat (of_nat n :: byte) = n"
  by (simp add: unat_of_nat)

lemma unat_unit_lt: "unat (c :: 16 word) < 65536"
proof -
  have "unat c < 2 ^ LENGTH(16)" by (rule unsigned_less)
  then show ?thesis by simp
qed

lemma high_bounds: "is_high c \<longleftrightarrow> 0xD800 \<le> unat c \<and> unat c \<le> 0xDBFF"
  by (simp add: is_high_def word_le_nat_alt)

lemma low_bounds: "is_low c \<longleftrightarrow> 0xDC00 \<le> unat c \<and> unat c \<le> 0xDFFF"
  by (simp add: is_low_def word_le_nat_alt)

lemma decode_bytes:
  "n < 0x80 \<Longrightarrow> utf8_decode (of_nat n # bs) = of_nat n # utf8_decode bs"
  "i < 32 \<Longrightarrow> j < 64 \<Longrightarrow> utf8_decode (of_nat (0xC0 + i) # of_nat (0x80 + j) # bs) =
     of_nat (i * 64 + j) # utf8_decode bs"
  "i < 16 \<Longrightarrow> j < 64 \<Longrightarrow> k < 64 \<Longrightarrow>
     utf8_decode (of_nat (0xE0 + i) # of_nat (0x80 + j) # of_nat (0x80 + k) # bs) =
     of_nat (i * 4096 + j * 64 + k) # utf8_decode bs"
  by (simp_all add: unat_byte cont_def del: of_nat_add of_nat_mult)

lemma decode_bytes4:
  assumes "i < 8" "j < 64" "k < 64" "l < 64"
  shows "utf8_decode (of_nat (0xF0 + i) # of_nat (0x80 + j) # of_nat (0x80 + k) # of_nat (0x80 + l) # bs) =
     (let n = i * 262144 + j * 4096 + k * 64 + l - 0x10000 in
      of_nat (0xD800 + n div 1024) # of_nat (0xDC00 + n mod 1024) # utf8_decode bs)"
proof -
  have "unat (of_nat (0xF0 + i) :: byte) = 0xF0 + i"
    using assms(1) by (intro unat_byte) simp
  moreover have "cont (of_nat (0x80 + m) :: byte) = m" if "m < 64" for m
    using that by (simp add: cont_def unat_byte del: of_nat_add)
  ultimately show ?thesis using assms by (simp add: Let_def del: of_nat_add)
qed

lemma base64_digits:
  fixes n :: nat
  shows "n div 64 * 64 + n mod 64 = n"
    "n div 4096 * 4096 + n div 64 mod 64 * 64 + n mod 64 = n"
    "n div 262144 * 262144 + n div 4096 mod 64 * 4096 + n div 64 mod 64 * 64 + n mod 64 = n"
proof -
  have d: "n div 4096 = n div 64 div 64" "n div 262144 = n div 64 div 64 div 64"
    by (simp_all add: div_mult2_eq [symmetric])
  have m: "m div 64 * 64 + m mod 64 = m" for m :: nat by simp
  show "n div 64 * 64 + n mod 64 = n" by simp
  show "n div 4096 * 4096 + n div 64 mod 64 * 64 + n mod 64 = n"
    unfolding d using m [of n] m [of "n div 64"] by linarith
  show "n div 262144 * 262144 + n div 4096 mod 64 * 4096 + n div 64 mod 64 * 64 + n mod 64 = n"
    unfolding d using m [of n] m [of "n div 64"] m [of "n div 64 div 64"] by linarith
qed

lemma of_nat_unat_id: "of_nat (unat c) = (c :: 16 word)"
  by simp

lemma utf8_decode_unit:
  assumes "\<not> is_high c" "\<not> is_low c"
  shows "utf8_decode (utf8_unit c @ bs) = c # utf8_decode bs"
proof -
  define n where "n = unat c"
  have c: "of_nat n = c" unfolding n_def by simp
  have lt: "n < 65536" unfolding n_def by (rule unat_unit_lt)
  consider "n < 0x80" | "0x80 \<le> n" "n < 0x800" | "0x800 \<le> n" by linarith
  then show ?thesis
  proof cases
    case 1
    then have "utf8_unit c = [of_nat n]" by (simp add: utf8_unit_def flip: n_def)
    with 1 c show ?thesis by (simp only: append.simps decode_bytes)
  next
    case 2
    then have "utf8_unit c = [of_nat (0xC0 + n div 64), of_nat (0x80 + n mod 64)]"
      by (simp add: utf8_unit_def Let_def flip: n_def)
    moreover have "n div 64 < 32" "n mod 64 < 64" using 2 by auto
    ultimately show ?thesis using c by (simp only: append.simps decode_bytes base64_digits)
  next
    case 3
    then have "utf8_unit c =
        [of_nat (0xE0 + n div 4096), of_nat (0x80 + n div 64 mod 64), of_nat (0x80 + n mod 64)]"
      using assms by (simp add: utf8_unit_def Let_def flip: n_def)
    moreover have "n div 4096 < 16" "n div 64 mod 64 < 64" "n mod 64 < 64" using lt by auto
    ultimately show ?thesis using c by (simp only: append.simps decode_bytes base64_digits)
  qed
qed

lemma utf8_decode_pair:
  assumes "is_high c" "is_low d"
  shows "utf8_decode (utf8_pair c d @ bs) = c # d # utf8_decode bs"
proof -
  define h l where "h = unat c - 0xD800" and "l = unat d - 0xDC00"
  define n where "n = 0x10000 + h * 1024 + l"
  have h: "h < 1024" "of_nat (0xD800 + h) = c" and l: "l < 1024" "of_nat (0xDC00 + l) = d"
    using assms by (auto simp: high_bounds low_bounds h_def l_def simp del: of_nat_add)
  have p: "utf8_pair c d = [of_nat (0xF0 + n div 262144), of_nat (0x80 + n div 4096 mod 64),
       of_nat (0x80 + n div 64 mod 64), of_nat (0x80 + n mod 64)]"
    by (simp add: utf8_pair_def Let_def n_def h_def l_def)
  have b: "n div 262144 < 8" "n div 4096 mod 64 < 64" "n div 64 mod 64 < 64" "n mod 64 < 64"
    using h(1) l(1) by (auto simp: n_def)
  have "n - 0x10000 = h * 1024 + l" by (simp add: n_def)
  moreover have "(h * 1024 + l) div 1024 = h" "(h * 1024 + l) mod 1024 = l"
    using l(1) by auto
  ultimately show ?thesis unfolding p
    by (simp only: append.simps decode_bytes4 [OF b] base64_digits Let_def h(2) l(2))
qed

lemma utf8_roundtrip: "well_formed s \<Longrightarrow> utf8_decode (utf8 s) = s"
proof (induction s rule: utf8.induct)
  case 1
  show ?case by simp
next
  case (2 c)
  then show ?case using utf8_decode_unit [of c "[]"] by simp
next
  case (3 c d cs)
  then show ?case
    by (cases "is_high c") (auto simp: utf8_decode_pair utf8_decode_unit)
qed

lemma utf8_inj: "well_formed s \<Longrightarrow> well_formed t \<Longrightarrow> utf8 s = utf8 t \<Longrightarrow> s = t"
  by (metis utf8_roundtrip)


lemma well_formed_append [intro]: "well_formed s \<Longrightarrow> well_formed t \<Longrightarrow> well_formed (s @ t)"
proof (induction s rule: well_formed.induct)
  case 1
  then show ?case by simp
next
  case (2 c)
  then show ?case by (cases t) auto
next
  case (3 c d cs)
  then show ?case by (cases "is_high c") auto
qed

lemma well_formed_units: "(\<And>c. c \<in> set s \<Longrightarrow> \<not> is_high c \<and> \<not> is_low c) \<Longrightarrow> well_formed s"
  by (induction s rule: well_formed.induct) auto

lemma well_formed_concat: "(\<And>s. s \<in> set ss \<Longrightarrow> well_formed s) \<Longrightarrow> well_formed (concat ss)"
  by (induction ss) auto

lemma digit_no_surrogate: "is_digit c \<Longrightarrow> \<not> is_high c \<and> \<not> is_low c"
  by (auto simp: is_digit_def is_high_def is_low_def word_le_nat_alt)

lemma well_formed_dec [intro, simp]: "well_formed (dec n)"
  by (rule well_formed_units) (metis dec_digits digit_no_surrogate)


section \<open>Quoting and unquoting\<close>

text \<open>
  \<open>JSON.stringify\<close> on a string: the short escapes, \<open>\u00xx\<close> for the other control
  characters and \<open>\udxxx\<close> for a lone surrogate; everything else stands for itself.
\<close>

definition hex_digit :: "nat \<Rightarrow> 16 word" where
  "hex_digit d = (if d < 10 then of_nat (48 + d) else of_nat (87 + d))"

definition unicode_escape :: "16 word \<Rightarrow> jsstring" where
  "unicode_escape c =
     (let n = unat c in
      [92, 117, hex_digit (n div 4096 mod 16), hex_digit (n div 256 mod 16),
       hex_digit (n div 16 mod 16), hex_digit (n mod 16)])"

definition quote_unit :: "16 word \<Rightarrow> jsstring" where
  "quote_unit c =
     (if c = 34 then [92, 34] else if c = 92 then [92, 92]
      else if c = 8 then [92, 98] else if c = 9 then [92, 116]
      else if c = 10 then [92, 110] else if c = 12 then [92, 102]
      else if c = 13 then [92, 114]
      else if c < 32 \<or> is_high c \<or> is_low c then unicode_escape c
      else [c])"

fun quote_body :: "jsstring \<Rightarrow> jsstring" where
  "quote_body [] = []"
| "quote_body [c] = quote_unit c"
| "quote_body (c # d # cs) =
     (if is_high c \<and> is_low d then [c, d] @ quote_body cs
      else quote_unit c @ quote_body (d # cs))"

definition jsonQuote :: "jsstring \<Rightarrow> jsstring" where
  "jsonQuote s = 34 # quote_body s @ [34]"

text \<open>The string token of \<open>JSON.parse\<close>, from behind the opening quotation mark.\<close>

definition hex_val :: "16 word \<Rightarrow> nat option" where
  "hex_val c =
     (if 48 \<le> c \<and> c \<le> 57 then Some (unat c - 48)
      else if 97 \<le> c \<and> c \<le> 102 then Some (unat c - 87)
      else if 65 \<le> c \<and> c \<le> 70 then Some (unat c - 55)
      else None)"

definition simple_escape :: "16 word \<Rightarrow> 16 word option" where
  "simple_escape e =
     (if e = 34 then Some 34 else if e = 92 then Some 92 else if e = 47 then Some 47
      else if e = 98 then Some 8 else if e = 102 then Some 12 else if e = 110 then Some 10
      else if e = 114 then Some 13 else if e = 116 then Some 9 else None)"

definition push_unit :: "16 word \<Rightarrow> (jsstring \<times> jsstring) option \<Rightarrow> (jsstring \<times> jsstring) option" where
  "push_unit c m = map_option (\<lambda>(s, r). (c # s, r)) m"

fun pStr :: "jsstring \<Rightarrow> (jsstring \<times> jsstring) option" where
  "pStr [] = None"
| "pStr (c # cs) =
     (if c = 34 then Some ([], cs)
      else if c = 92 then
        (case cs of
           [] \<Rightarrow> None
         | e # es \<Rightarrow>
             if e = 117 then
               (case es of
                  w # x # y # z # r \<Rightarrow>
                    (case (hex_val w, hex_val x, hex_val y, hex_val z) of
                       (Some a, Some b, Some c', Some d) \<Rightarrow>
                         push_unit (of_nat (a * 4096 + b * 256 + c' * 16 + d)) (pStr r)
                     | _ \<Rightarrow> None)
                | _ \<Rightarrow> None)
             else (case simple_escape e of None \<Rightarrow> None | Some u \<Rightarrow> push_unit u (pStr es)))
      else if c < 32 then None
      else push_unit c (pStr cs))"

lemma push_unit_Some [simp]: "push_unit c (Some (s, r)) = Some (c # s, r)"
  by (simp add: push_unit_def)

lemma hex_val_digit [simp]: "d < 16 \<Longrightarrow> hex_val (hex_digit d) = Some d"
proof -
  assume d: "d < 16"
  have *: "unat (of_nat (48 + d) :: 16 word) = 48 + d" "unat (of_nat (87 + d) :: 16 word) = 87 + d"
    using d by (simp_all add: unat_of_nat del: of_nat_add)
  then show ?thesis using d
    by (cases "d < 10") (simp_all add: hex_val_def hex_digit_def word_le_nat_alt del: of_nat_add)
qed

lemma hex_digit_ascii: "d < 16 \<Longrightarrow> unat (hex_digit d) < 128"
  by (cases "d < 10") (simp_all add: hex_digit_def unat_of_nat del: of_nat_add)

lemma base16_digits:
  fixes n :: nat
  assumes "n < 65536"
  shows "n div 4096 mod 16 * 4096 + n div 256 mod 16 * 256 + n div 16 mod 16 * 16 + n mod 16 = n"
proof -
  have d: "n div 256 = n div 16 div 16" "n div 4096 = n div 16 div 16 div 16"
    by (simp_all add: div_mult2_eq [symmetric])
  have m: "m div 16 * 16 + m mod 16 = m" for m :: nat by simp
  have "n div 16 div 16 div 16 < 16" using assms by (simp add: div_mult2_eq [symmetric])
  then have "n div 16 div 16 div 16 mod 16 = n div 16 div 16 div 16" by simp
  then show ?thesis
    unfolding d using m [of n] m [of "n div 16"] m [of "n div 16 div 16"] by linarith
qed

lemma pStr_unicode_escape: "pStr (unicode_escape c @ t) = push_unit c (pStr t)"
proof -
  have "(of_nat (unat c div 4096 mod 16 * 4096 + unat c div 256 mod 16 * 256 +
     unat c div 16 mod 16 * 16 + unat c mod 16) :: 16 word) = c"
    by (simp only: base16_digits [OF unat_unit_lt] of_nat_unat_id)
  then show ?thesis
    by (simp add: unicode_escape_def Let_def del: of_nat_add of_nat_mult)
qed

lemma pStr_raw: "c \<noteq> 34 \<Longrightarrow> c \<noteq> 92 \<Longrightarrow> \<not> c < 32 \<Longrightarrow> pStr (c # t) = push_unit c (pStr t)"
  by simp

lemma pStr_quote_unit: "pStr (quote_unit c @ t) = push_unit c (pStr t)"
proof (cases "c < 32 \<or> is_high c \<or> is_low c")
  case True
  then show ?thesis
    by (auto simp: quote_unit_def simple_escape_def pStr_unicode_escape simp del: pStr.simps)
      (simp_all add: simple_escape_def)
next
  case False
  then show ?thesis by (simp add: quote_unit_def simple_escape_def)
qed

lemma surrogate_raw:
  "is_high c \<or> is_low c \<Longrightarrow> c \<noteq> 34 \<and> c \<noteq> 92 \<and> \<not> c < 32"
  by (auto simp: high_bounds low_bounds word_less_nat_alt)

lemma pStr_quote_body: "pStr (quote_body s @ 34 # r) = Some (s, r)"
proof (induction s rule: quote_body.induct)
  case 1
  show ?case by simp
next
  case (2 c)
  show ?case using pStr_quote_unit [of c "34 # r"] by simp
next
  case (3 c d cs)
  show ?case
  proof (cases "is_high c \<and> is_low d")
    case True
    with 3(1) surrogate_raw [of c] surrogate_raw [of d] show ?thesis
      by (simp del: pStr.simps add: pStr_raw)
  next
    case False
    with 3(2) show ?thesis
      using pStr_quote_unit [of c "quote_body (d # cs) @ 34 # r"]
      by (auto simp del: pStr.simps quote_body.simps simp add: quote_body.simps(3))
  qed
qed

lemma ascii_no_surrogate: "unat c < 128 \<Longrightarrow> \<not> is_high c \<and> \<not> is_low c"
  by (simp add: high_bounds low_bounds)

lemma well_formed_quote_unit: "well_formed (quote_unit c)"
proof -
  have "well_formed (unicode_escape c)"
    by (rule well_formed_units, rule ascii_no_surrogate)
      (auto simp: unicode_escape_def Let_def hex_digit_ascii)
  then show ?thesis
    by (auto simp: quote_unit_def is_high_def is_low_def)
qed

lemma well_formed_quote_body: "well_formed (quote_body s)"
proof (induction s rule: quote_body.induct)
  case (3 c d cs)
  then show ?case by (auto intro: well_formed_quote_unit)
qed (auto intro: well_formed_quote_unit)

lemma well_formed_jsonQuote [intro, simp]: "well_formed (jsonQuote s)"
proof -
  have "well_formed ([34] @ quote_body s @ [34])"
    by (intro well_formed_append well_formed_quote_body) (simp_all add: is_high_def is_low_def)
  then show ?thesis by (simp add: jsonQuote_def)
qed

lemma jsonQuote_inj [simp]: "jsonQuote s = jsonQuote t \<longleftrightarrow> s = t"
proof
  assume "jsonQuote s = jsonQuote t"
  then have "pStr (quote_body s @ [34]) = pStr (quote_body t @ [34])"
    by (simp add: jsonQuote_def del: pStr.simps)
  then show "s = t" by (simp only: pStr_quote_body) simp
qed simp

declare js_simps [simp del]

end
