(* ===== verification/Json.thy ===== *)
theory Json
  imports JsString
begin

text \<open>
  JSON values as finite trees, and the canonical text of \<^verbatim>\<open>canonicalJson\<close>
  (\<^verbatim>\<open>src/core/json.ts\<close>). A tree is what is left of a JavaScript value once it is known
  to be inert data: \<^verbatim>\<open>JsHeap.thy\<close> shows that the code accepts exactly the heap values
  that represent such a tree and treats them as the functions of this theory do.

  An object is an association list in no particular order; \<open>norm\<close> sorts every object by
  its keys. \<open>canon\<close> is the canonical text of a tree, \<open>canonicalJson\<close> the fallible
  function that refuses what \<open>encode\<close> refuses. \<open>jnodes\<close>, \<open>jdepth\<close> and
  \<open>jbytes\<close> are the three counters of \<open>assertJsonWithinLimits\<close>.

  What is shown: the canonical text is the same for two presentations of an object that
  differ in key order only, it is well-formed UTF-16 whatever the strings inside, and the
  byte counter \<open>jbytes\<close> is exactly the UTF-8 length of the canonical text.
\<close>

declare js_simps [simp]

section \<open>Values\<close>

text \<open>
  A Number is a mathematical integer, negative zero, or anything else (a fraction, an
  infinity, NaN). Only the first kind is in the JSON domain of the code.
\<close>

datatype jsnum = NInt int | NNegZero | NOther

datatype json =
    JNull
  | JBool bool
  | JNum jsnum
  | JStr jsstring
  | JArr "json list"
  | JObj "(jsstring \<times> json) list"

definition MAX_SAFE_INTEGER :: int where
  "MAX_SAFE_INTEGER = 9007199254740991"

definition isSafeInteger :: "int \<Rightarrow> bool" where
  "isSafeInteger n \<longleftrightarrow> - MAX_SAFE_INTEGER \<le> n \<and> n \<le> MAX_SAFE_INTEGER"

fun num_safe :: "jsnum \<Rightarrow> bool" where
  "num_safe (NInt n) = isSafeInteger n"
| "num_safe NNegZero = False"
| "num_safe NOther = False"

definition proto_key :: jsstring where
  "proto_key = js ''__proto__''"

definition supported_key :: "jsstring \<Rightarrow> bool" where
  "supported_key k \<longleftrightarrow> scalar k \<and> k \<noteq> proto_key"

fun valid_json :: "json \<Rightarrow> bool" where
  "valid_json JNull = True"
| "valid_json (JBool b) = True"
| "valid_json (JNum n) = num_safe n"
| "valid_json (JStr s) = scalar s"
| "valid_json (JArr vs) = list_all valid_json vs"
| "valid_json (JObj kvs) =
     (distinct (map fst kvs) \<and> list_all (\<lambda>(k, v). supported_key k \<and> valid_json v) kvs)"

fun norm :: "json \<Rightarrow> json" where
  "norm (JArr vs) = JArr (map norm vs)"
| "norm (JObj kvs) = JObj (sort_key fst (map (\<lambda>(k, v). (k, norm v)) kvs))"
| "norm v = v"

definition jget :: "json \<Rightarrow> jsstring \<Rightarrow> json option" where
  "jget v k = (case v of JObj kvs \<Rightarrow> map_of kvs k | _ \<Rightarrow> None)"


section \<open>Canonical text\<close>

fun joinComma :: "jsstring list \<Rightarrow> jsstring" where
  "joinComma [] = []"
| "joinComma [x] = x"
| "joinComma (x # y # ys) = x @ 44 # joinComma (y # ys)"

fun num_text :: "jsnum \<Rightarrow> jsstring" where
  "num_text (NInt n) = intString n"
| "num_text NNegZero = js ''0''"
| "num_text NOther = js ''null''"

definition entry_text :: "jsstring \<times> jsstring \<Rightarrow> jsstring" where
  "entry_text e = jsonQuote (fst e) @ 58 # snd e"

fun canon :: "json \<Rightarrow> jsstring" where
  "canon JNull = js ''null''"
| "canon (JBool b) = (if b then js ''true'' else js ''false'')"
| "canon (JNum n) = num_text n"
| "canon (JStr s) = jsonQuote s"
| "canon (JArr vs) = 91 # joinComma (map canon vs) @ [93]"
| "canon (JObj kvs) =
     123 # joinComma (map entry_text (sort_key fst (map (\<lambda>(k, v). (k, canon v)) kvs))) @ [125]"

definition canonicalJson :: "json \<Rightarrow> jsstring result" where
  "canonicalJson v = (if valid_json v then Inr (canon v) else Inl (TypeError ''not PEAS JSON''))"

lemma canonicalJson_Inr [simp]: "canonicalJson v = Inr s \<longleftrightarrow> valid_json v \<and> s = canon v"
  by (auto simp: canonicalJson_def)

lemma canonicalJson_valid [simp]: "valid_json v \<Longrightarrow> canonicalJson v = Inr (canon v)"
  by (simp add: canonicalJson_def)


section \<open>Counters and limits\<close>

fun jnodes :: "json \<Rightarrow> nat" where
  "jnodes (JArr vs) = Suc (sum_list (map jnodes vs))"
| "jnodes (JObj kvs) = Suc (sum_list (map (\<lambda>(k, v). jnodes v) kvs))"
| "jnodes v = 1"

fun jdepth :: "json \<Rightarrow> nat" where
  "jdepth (JArr vs) = Suc (fold max (map jdepth vs) 0)"
| "jdepth (JObj kvs) = Suc (fold max (map (\<lambda>(k, v). jdepth v) kvs) 0)"
| "jdepth v = 1"

fun jbytes :: "json \<Rightarrow> nat" where
  "jbytes JNull = 4"
| "jbytes (JBool b) = (if b then 4 else 5)"
| "jbytes (JNum n) = byteLength (num_text n)"
| "jbytes (JStr s) = byteLength (jsonQuote s)"
| "jbytes (JArr vs) = 2 + (length vs - 1) + sum_list (map jbytes vs)"
| "jbytes (JObj kvs) =
     2 + (length kvs - 1) + sum_list (map (\<lambda>(k, v). byteLength (jsonQuote k) + 1 + jbytes v) kvs)"

record JsonLimits =
  maxDepth :: int
  maxNodes :: int
  maxArrayLength :: int
  maxObjectKeys :: int
  maxStringBytes :: int
  maxCanonicalBytes :: int

record JsonMetrics =
  m_nodes :: int
  m_maxDepth :: int
  m_canonicalBytes :: int

definition assertJsonLimits :: "JsonLimits \<Rightarrow> bool" where
  "assertJsonLimits L \<longleftrightarrow>
     list_all (\<lambda>n. isSafeInteger n \<and> 1 \<le> n)
       [maxDepth L, maxNodes L, maxArrayLength L, maxObjectKeys L, maxStringBytes L,
        maxCanonicalBytes L]"

fun sizes_ok :: "JsonLimits \<Rightarrow> json \<Rightarrow> bool" where
  "sizes_ok L (JStr s) = (int (byteLength s) \<le> maxStringBytes L)"
| "sizes_ok L (JArr vs) = (int (length vs) \<le> maxArrayLength L \<and> list_all (sizes_ok L) vs)"
| "sizes_ok L (JObj kvs) =
     (int (length kvs) \<le> maxObjectKeys L \<and>
      list_all (\<lambda>(k, v). int (byteLength k) \<le> maxStringBytes L \<and> sizes_ok L v) kvs)"
| "sizes_ok L v = True"

definition within_limits :: "JsonLimits \<Rightarrow> json \<Rightarrow> bool" where
  "within_limits L v \<longleftrightarrow>
     valid_json v \<and> sizes_ok L v \<and> int (jnodes v) \<le> maxNodes L \<and>
     int (jdepth v) \<le> maxDepth L \<and> int (jbytes v) \<le> maxCanonicalBytes L"

definition metrics :: "json \<Rightarrow> JsonMetrics" where
  "metrics v = \<lparr>m_nodes = int (jnodes v), m_maxDepth = int (jdepth v),
     m_canonicalBytes = int (jbytes v)\<rparr>"

text \<open>
  The effect of \<open>assertJsonWithinLimits\<close> on a tree. The order of the individual checks,
  which decides only which of several errors is reported, is modelled in
  \<^verbatim>\<open>JsHeap.thy\<close>; callers see a value or a throw.
\<close>

definition checkJson :: "JsonLimits \<Rightarrow> json \<Rightarrow> JsonMetrics result" where
  "checkJson L v =
     (if \<not> assertJsonLimits L then Inl (RangeError ''JSON limit must be a positive safe integer'')
      else if within_limits L v then Inr (metrics v)
      else Inl (RangeError ''JSON limits''))"

lemma checkJson_Inr:
  "checkJson L v = Inr m \<longleftrightarrow> assertJsonLimits L \<and> within_limits L v \<and> m = metrics v"
  by (auto simp: checkJson_def)

lemma checkJson_valid: "checkJson L v = Inr m \<Longrightarrow> valid_json v"
  by (simp add: checkJson_Inr within_limits_def)


section \<open>Laws of normal forms and canonical text\<close>

lemma split_apsnd: "(\<lambda>(k, v). (k, f v)) = apsnd f"
  by auto

lemma map_fst_apsnd [simp]: "map fst (map (apsnd f) kvs) = map fst kvs" "fst \<circ> apsnd f = fst"
  by auto

lemma sort_key_apsnd:
  "sort_key fst (map (apsnd f) kvs) = map (apsnd f) (sort_key fst kvs)"
proof (induction kvs)
  case (Cons x kvs)
  have "insort_key fst (apsnd f x) (map (apsnd f) ys) = map (apsnd f) (insort_key fst x ys)" for ys
    by (induction ys) auto
  with Cons show ?case by simp
qed simp

lemma sort_key_sort_key [simp]: "sort_key fst (sort_key fst kvs) = sort_key fst kvs"
  by (rule sort_key_id_if_sorted) simp

lemma norm_JObj: "norm (JObj kvs) = JObj (map (apsnd norm) (sort_key fst kvs))"
  by (simp add: split_apsnd sort_key_apsnd)

lemma canon_JObj:
  "canon (JObj kvs) =
     123 # joinComma (map entry_text (map (apsnd canon) (sort_key fst kvs))) @ [125]"
  by (simp add: split_apsnd sort_key_apsnd)

lemma valid_norm [simp]: "valid_json (norm v) = valid_json v"
proof (induction v rule: norm.induct)
  case (2 kvs)
  have "distinct (map fst (map (apsnd norm) (sort_key fst kvs))) = distinct (map fst kvs)"
    by (simp only: map_fst_apsnd distinct_sort_key_fst)
  with 2 show ?case by (fastforce simp: norm_JObj list_all_iff simp del: norm.simps(2))
qed (auto simp: list_all_iff)

lemma norm_idem [simp]: "norm (norm v) = norm v"
proof (induction v rule: norm.induct)
  case (2 kvs)
  then show ?case
    by (auto simp: norm_JObj sort_key_apsnd simp del: norm.simps(2))
qed auto

lemma canon_norm [simp]: "canon (norm v) = canon v"
proof (induction v rule: norm.induct)
  case (2 kvs)
  have "map entry_text (map (apsnd canon) (map (apsnd norm) (sort_key fst kvs))) =
      map entry_text (map (apsnd canon) (sort_key fst kvs))"
    using 2 by auto
  then show ?case
    by (simp only: norm_JObj canon_JObj sort_key_apsnd sort_key_sort_key)
qed (auto cong: map_cong)

lemma norm_obj_eqI:
  assumes "distinct (map fst kvs)" "distinct (map fst kvs')" "set kvs = set kvs'"
  shows "norm (JObj kvs) = norm (JObj kvs')"
proof -
  have "sort_key fst kvs = sort_key fst kvs'"
  proof (rule sorted_assoc_unique)
    show "map_of (sort_key fst kvs) = map_of (sort_key fst kvs')"
      using assms by (simp add: map_of_sort_key map_of_inject_set)
  qed (use assms in \<open>simp_all add: distinct_sort_key_fst\<close>)
  then show ?thesis by (simp only: norm_JObj)
qed

lemma map_of_apsnd: "map_of (map (apsnd f) kvs) k = map_option f (map_of kvs k)"
  by (induction kvs) auto

lemma jget_norm: "valid_json v \<Longrightarrow> jget (norm v) k = map_option norm (jget v k)"
  by (cases v) (simp_all add: jget_def norm_JObj map_of_apsnd map_of_sort_key del: norm.simps(2))


section \<open>Well-formedness and exact byte accounting\<close>

lemma well_formed_joinComma:
  "(\<And>x. x \<in> set xs \<Longrightarrow> well_formed x) \<Longrightarrow> well_formed (joinComma xs)"
proof (induction xs rule: joinComma.induct)
  case (3 x y ys)
  have "well_formed (x @ [44] @ joinComma (y # ys))"
    by (intro well_formed_append) (use 3 in \<open>auto simp: is_high_def is_low_def\<close>)
  then show ?case by simp
qed auto

lemma well_formed_num_text: "well_formed (num_text n)"
proof (cases n)
  case (NInt i)
  have "well_formed ([45] @ dec m)" for m
    by (intro well_formed_append) (simp_all add: is_high_def is_low_def)
  with NInt show ?thesis by (simp add: intString_def)
qed (simp_all add: is_high_def is_low_def)

lemma well_formed_bracket:
  "well_formed x \<Longrightarrow> unat a < 128 \<Longrightarrow> unat b < 128 \<Longrightarrow> well_formed (a # x @ [b])"
proof -
  assume "well_formed x" "unat a < 128" "unat b < 128"
  then have "well_formed ([a] @ x @ [b])"
    by (intro well_formed_append) (simp_all add: ascii_no_surrogate)
  then show ?thesis by simp
qed

lemma well_formed_entry: "well_formed (snd e) \<Longrightarrow> well_formed (entry_text e)"
proof -
  assume "well_formed (snd e)"
  then have "well_formed (jsonQuote (fst e) @ [58] @ snd e)"
    by (intro well_formed_append) (simp_all add: is_high_def is_low_def)
  then show ?thesis by (simp add: entry_text_def)
qed

lemma well_formed_canon [intro, simp]: "well_formed (canon v)"
proof (induction v rule: canon.induct)
  case (5 vs)
  then show ?case by (auto intro!: well_formed_bracket well_formed_joinComma)
next
  case (6 kvs)
  then show ?case
    by (auto intro!: well_formed_bracket well_formed_joinComma well_formed_entry)
qed (auto simp: well_formed_num_text is_high_def is_low_def)

lemma utf8_append: "well_formed s \<Longrightarrow> utf8 (s @ t) = utf8 s @ utf8 t"
proof (induction s rule: well_formed.induct)
  case (2 c)
  then show ?case by (cases t) auto
qed auto

lemma byteLength_append: "well_formed s \<Longrightarrow> byteLength (s @ t) = byteLength s + byteLength t"
  by (simp add: byteLength_def utf8_append)

lemma byteLength_Cons_ascii: "unat c < 128 \<Longrightarrow> byteLength (c # s) = Suc (byteLength s)"
  using byteLength_append [of "[c]" s] ascii_no_surrogate [of c]
  by (simp add: byteLength_def utf8_unit_def Let_def)

lemma byteLength_Nil [simp]: "byteLength [] = 0"
  by (simp add: byteLength_def)

lemma byteLength_joinComma:
  "(\<And>x. x \<in> set xs \<Longrightarrow> well_formed x) \<Longrightarrow>
   byteLength (joinComma xs) = (length xs - 1) + sum_list (map byteLength xs)"
proof (induction xs rule: joinComma.induct)
  case (3 x y ys)
  then show ?case by (simp add: byteLength_append byteLength_Cons_ascii)
qed simp_all

lemma byteLength_bracket:
  "well_formed x \<Longrightarrow> unat a < 128 \<Longrightarrow> unat b < 128 \<Longrightarrow> byteLength (a # x @ [b]) = 2 + byteLength x"
  by (simp add: byteLength_append byteLength_Cons_ascii)

lemma sum_list_sort_key: "sum_list (map f (sort_key g xs)) = sum_list (map f (xs :: 'a list) :: nat list)"
  by (metis mset_map mset_sort sum_mset_sum_list)

lemma jbytes_exact: "jbytes v = byteLength (canon v)"
proof (induction v rule: jbytes.induct)
  case (5 vs)
  have wf: "\<And>x. x \<in> set (map canon vs) \<Longrightarrow> well_formed x" by auto
  have "byteLength (canon (JArr vs)) = 2 + byteLength (joinComma (map canon vs))"
    by (simp only: canon.simps) (intro byteLength_bracket well_formed_joinComma wf, auto)
  also have "\<dots> = 2 + ((length vs - 1) + sum_list (map (byteLength \<circ> canon) vs))"
    by (simp only: byteLength_joinComma [OF wf]) simp
  finally show ?case using 5 by (simp add: comp_def cong: map_cong)
next
  case (6 kvs)
  let ?es = "map (apsnd canon) (sort_key fst kvs)"
  have wf: "\<And>x. x \<in> set (map entry_text ?es) \<Longrightarrow> well_formed x"
    by (auto intro: well_formed_entry)
  have "byteLength (canon (JObj kvs)) = 2 + byteLength (joinComma (map entry_text ?es))"
    by (simp only: canon_JObj) (intro byteLength_bracket well_formed_joinComma wf, auto)
  also have "\<dots> = 2 + ((length kvs - 1) + sum_list (map byteLength (map entry_text ?es)))"
    by (simp only: byteLength_joinComma [OF wf]) simp
  also have "sum_list (map byteLength (map entry_text ?es)) =
      sum_list (map (\<lambda>e. byteLength (entry_text (apsnd canon e))) (sort_key fst kvs))"
    by (simp add: comp_def)
  also have "\<dots> = sum_list (map (\<lambda>e. byteLength (entry_text (apsnd canon e))) kvs)"
    by (rule sum_list_sort_key)
  also have "\<dots> = sum_list (map (\<lambda>(k, v). byteLength (jsonQuote k) + 1 + jbytes v) kvs)"
    using 6 by (auto simp: entry_text_def byteLength_append byteLength_Cons_ascii
        intro!: arg_cong [of _ _ sum_list])
  finally show ?case by simp
qed (auto simp: byteLength_def utf8_unit_def Let_def is_high_def is_low_def)


section \<open>Counters of a normal form\<close>

text \<open>Sorting the keys of an object changes none of the quantities that the limits bound.\<close>

lemma fold_max_Max: "fold max xs (0 :: nat) = Max (insert 0 (set xs))"
  using Max.set_eq_fold [of 0 xs] by simp

lemma norm_counters: "jnodes (norm v) = jnodes v \<and> jdepth (norm v) = jdepth v \<and> sizes_ok L (norm v) = sizes_ok L v"
proof (induction v rule: norm.induct)
  case (1 vs)
  then show ?case by (simp add: comp_def list_all_iff cong: map_cong)
next
  case (2 kvs)
  let ?es = "sort_key fst kvs"
  have IH: "jnodes (norm (snd e)) = jnodes (snd e)" "jdepth (norm (snd e)) = jdepth (snd e)"
    "sizes_ok L (norm (snd e)) = sizes_ok L (snd e)" if "e \<in> set kvs" for e
    using 2 [of e "fst e" "snd e"] that by simp_all
  have e: "norm (JObj kvs) = JObj (map (apsnd norm) ?es)" by (rule norm_JObj)
  have "sum_list (map (\<lambda>(k, v). jnodes v) (map (apsnd norm) ?es)) = sum_list (map (\<lambda>e. jnodes (snd e)) ?es)"
    using IH(1) by (intro arg_cong [of _ _ sum_list]) (auto simp: split_def)
  then have n: "jnodes (norm (JObj kvs)) = jnodes (JObj kvs)"
    by (simp add: e split_def sum_list_sort_key del: norm.simps)
  have "set (map (\<lambda>(k, v). jdepth v) (map (apsnd norm) ?es)) = set (map (\<lambda>(k, v). jdepth v) kvs)"
    using IH(2) by (force simp: split_def)
  then have d: "jdepth (norm (JObj kvs)) = jdepth (JObj kvs)"
    by (simp add: e fold_max_Max del: norm.simps)
  have "sizes_ok L (norm (JObj kvs)) = sizes_ok L (JObj kvs)"
    using IH(3) by (auto simp: e list_all_iff simp del: norm.simps)
  with n d show ?case by blast
qed auto

lemma within_limits_norm [simp]: "within_limits L (norm v) = within_limits L v"
  using norm_counters [of v L] by (simp add: within_limits_def jbytes_exact)

lemma within_limits_cong: "norm v = norm w \<Longrightarrow> within_limits L v = within_limits L w"
  by (metis within_limits_norm)

lemma checkJson_norm [simp]: "checkJson L (norm v) = checkJson L v"
  using norm_counters [of v L] by (simp add: checkJson_def metrics_def jbytes_exact)

lemma checkJson_ok: "assertJsonLimits L \<Longrightarrow> checkJson L v = Inr m \<longleftrightarrow> within_limits L v \<and> m = metrics v"
  by (simp add: checkJson_Inr)

lemma within_limits_valid: "within_limits L v \<Longrightarrow> valid_json v"
  by (simp add: within_limits_def)

declare js_simps [simp del]

end
