(* ===== verification/JsonParse.thy ===== *)
theory JsonParse
  imports Json
begin

text \<open>
  \<^verbatim>\<open>JSON.parse\<close>, and the functions of \<^verbatim>\<open>src/core/json.ts\<close> built on it: \<open>cloneJson\<close>,
  \<open>inertJsonSnapshot\<close>, \<open>assertSerializedJsonWithinLimit\<close> and \<open>parseJsonWithinLimits\<close>.
  The parser covers the whole JSON grammar: white space, every escape, repeated keys (the
  last value wins at the place of the first), and numbers with fraction and exponent, whose
  value is the nearest double, ties to even. It carries fuel, one unit per nested call; more
  than twice the length of the text is always enough (\<open>pVal_fuel\<close>): more fuel never
  changes the outcome, so running out of it is never the reason for a rejection.

  What is shown: parsing the canonical text of a valid value returns its normal form, so a
  clone is the value itself up to key order, and the canonical text determines the value.
\<close>

declare js_simps [simp]

section \<open>Numbers\<close>

fun bits :: "nat \<Rightarrow> nat" where
  "bits n = (if n = 0 then 0 else Suc (bits (n div 2)))"

declare bits.simps [simp del]

definition round_div :: "nat \<Rightarrow> nat \<Rightarrow> nat" where
  "round_div p q =
     (let d = p div q; r = p mod q in
      if 2 * r < q \<or> (2 * r = q \<and> even d) then d else d + 1)"

text \<open>The nearest double of \<open>p / q\<close> as a mantissa and a binary exponent.\<close>

definition nearest_double :: "nat \<Rightarrow> nat \<Rightarrow> nat \<times> int" where
  "nearest_double p q =
     (let e0 = int (bits p) - int (bits q);
          ge = (if 0 \<le> e0 then q * 2 ^ nat e0 \<le> p else q \<le> p * 2 ^ nat (- e0));
          k = max ((if ge then e0 else e0 - 1) - 52) (- 1074)
      in (if 0 \<le> k then round_div p (q * 2 ^ nat k) else round_div (p * 2 ^ nat (- k)) q, k))"

definition signed :: "bool \<Rightarrow> nat \<Rightarrow> jsnum" where
  "signed neg v = (if v = 0 then (if neg then NNegZero else NInt 0)
     else NInt (if neg then - int v else int v))"

definition number_value :: "bool \<Rightarrow> nat \<Rightarrow> int \<Rightarrow> jsnum" where
  "number_value neg m e =
     (case (if 0 \<le> e then nearest_double (m * 10 ^ nat e) 1 else nearest_double m (10 ^ nat (- e))) of
        (d, k) \<Rightarrow>
          if 0 \<le> k then (if 2 ^ 1024 \<le> d * 2 ^ nat k then NOther else signed neg (d * 2 ^ nat k))
          else if d mod 2 ^ nat (- k) \<noteq> 0 then NOther
          else signed neg (d div 2 ^ nat (- k)))"

definition take_sign :: "jsstring \<Rightarrow> bool \<times> jsstring" where
  "take_sign s = (case s of [] \<Rightarrow> (False, []) | c # cs \<Rightarrow> if c = 45 then (True, cs) else (False, s))"

definition take_frac :: "jsstring \<Rightarrow> (jsstring \<times> jsstring) option" where
  "take_frac s =
     (case s of
        [] \<Rightarrow> Some ([], [])
      | c # cs \<Rightarrow>
          if c = 46 then
            (if takeWhile is_digit cs = [] then None
             else Some (takeWhile is_digit cs, dropWhile is_digit cs))
          else Some ([], s))"

definition take_exp :: "jsstring \<Rightarrow> (int \<times> jsstring) option" where
  "take_exp s =
     (case s of
        [] \<Rightarrow> Some (0, [])
      | c # cs \<Rightarrow>
          if c = 101 \<or> c = 69 then
            (let neg = (case cs of d # _ \<Rightarrow> d = 45 | [] \<Rightarrow> False);
                 cs' = (case cs of d # ds \<Rightarrow> if d = 45 \<or> d = 43 then ds else cs | [] \<Rightarrow> []);
                 ds = takeWhile is_digit cs'
             in if ds = [] then None
                else Some (if neg then - int (parse_nat ds) else int (parse_nat ds),
                           dropWhile is_digit cs'))
          else Some (0, s))"

definition pNum :: "jsstring \<Rightarrow> (json \<times> jsstring) option" where
  "pNum s =
     (let (neg, s1) = take_sign s;
          ip = takeWhile is_digit s1;
          s2 = dropWhile is_digit s1
      in if ip = [] \<or> (hd ip = 48 \<and> 1 < length ip) then None
         else (case take_frac s2 of
             None \<Rightarrow> None
           | Some (fp, s3) \<Rightarrow>
               (case take_exp s3 of
                  None \<Rightarrow> None
                | Some (e, s4) \<Rightarrow>
                    Some (JNum (number_value neg (parse_nat (ip @ fp)) (e - int (length fp))), s4))))"


section \<open>Values\<close>

definition is_ws :: "16 word \<Rightarrow> bool" where
  "is_ws c \<longleftrightarrow> c = 32 \<or> c = 9 \<or> c = 10 \<or> c = 13"

definition skip_ws :: "jsstring \<Rightarrow> jsstring" where
  "skip_ws s = dropWhile is_ws s"

definition stripPrefix :: "jsstring \<Rightarrow> jsstring \<Rightarrow> jsstring option" where
  "stripPrefix p s = (if take (length p) s = p then Some (drop (length p) s) else None)"

definition putKey :: "(jsstring \<times> json) list \<Rightarrow> jsstring \<times> json \<Rightarrow> (jsstring \<times> json) list" where
  "putKey kvs e =
     (if fst e \<in> fst ` set kvs
      then map (\<lambda>x. if fst x = fst e then e else x) kvs
      else kvs @ [e])"

definition dedup :: "(jsstring \<times> json) list \<Rightarrow> (jsstring \<times> json) list" where
  "dedup ms = foldl putKey [] ms"

fun pVal :: "nat \<Rightarrow> jsstring \<Rightarrow> (json \<times> jsstring) option"
  and pElems :: "nat \<Rightarrow> jsstring \<Rightarrow> (json list \<times> jsstring) option"
  and pMembers :: "nat \<Rightarrow> jsstring \<Rightarrow> ((jsstring \<times> json) list \<times> jsstring) option" where
  "pVal 0 s = None"
| "pVal (Suc n) s =
     (case s of
        [] \<Rightarrow> None
      | c # cs \<Rightarrow>
          if c = 123 then
            (case skip_ws cs of
               [] \<Rightarrow> None
             | d # ds \<Rightarrow>
                 if d = 125 then Some (JObj [], ds)
                 else map_option (apfst (\<lambda>ms. JObj (dedup ms))) (pMembers n (d # ds)))
          else if c = 91 then
            (case skip_ws cs of
               [] \<Rightarrow> None
             | d # ds \<Rightarrow>
                 if d = 93 then Some (JArr [], ds)
                 else map_option (apfst JArr) (pElems n (d # ds)))
          else if c = 34 then map_option (apfst JStr) (pStr cs)
          else if c = 110 then map_option (Pair JNull) (stripPrefix (js ''null'') s)
          else if c = 116 then map_option (Pair (JBool True)) (stripPrefix (js ''true'') s)
          else if c = 102 then map_option (Pair (JBool False)) (stripPrefix (js ''false'') s)
          else pNum s)"
| "pElems 0 s = None"
| "pElems (Suc n) s =
     (case pVal n s of
        None \<Rightarrow> None
      | Some (v, r) \<Rightarrow>
          (case skip_ws r of
             [] \<Rightarrow> None
           | d # ds \<Rightarrow>
               if d = 44 then map_option (apfst ((#) v)) (pElems n (skip_ws ds))
               else if d = 93 then Some ([v], ds)
               else None))"
| "pMembers 0 s = None"
| "pMembers (Suc n) s =
     (case s of
        [] \<Rightarrow> None
      | q # qs \<Rightarrow>
          if q \<noteq> 34 then None
          else (case pStr qs of
              None \<Rightarrow> None
            | Some (k, r) \<Rightarrow>
                (case skip_ws r of
                   [] \<Rightarrow> None
                 | d # ds \<Rightarrow>
                     if d \<noteq> 58 then None
                     else (case pVal n (skip_ws ds) of
                         None \<Rightarrow> None
                       | Some (v, r') \<Rightarrow>
                           (case skip_ws r' of
                              [] \<Rightarrow> None
                            | e # es \<Rightarrow>
                                if e = 44 then map_option (apfst ((#) (k, v))) (pMembers n (skip_ws es))
                                else if e = 125 then Some ([(k, v)], es)
                                else None)))))"

definition jsonParse :: "jsstring \<Rightarrow> json result" where
  "jsonParse s =
     (case pVal (Suc (2 * length s)) (skip_ws s) of
        None \<Rightarrow> Inl (SyntaxError ''JSON.parse'')
      | Some (v, r) \<Rightarrow> if skip_ws r = [] then Inr v else Inl (SyntaxError ''JSON.parse''))"


section \<open>Functions of the source built on the parser\<close>

definition cloneJson :: "json \<Rightarrow> json result" where
  "cloneJson v = bindR (canonicalJson v) jsonParse"

text \<open>
  \<open>inertJsonSnapshot\<close> clones and then replaces the prototype of every container by null;
  a tree has no prototypes, so on trees it is the clone.
\<close>

definition inertJsonSnapshot :: "json \<Rightarrow> json result" where
  "inertJsonSnapshot v = bindR (canonicalJson v) jsonParse"

definition assertSerializedJsonWithinLimit :: "jsstring \<Rightarrow> int \<Rightarrow> unit result" where
  "assertSerializedJsonWithinLimit serialized maxBytes =
     (if \<not> isSafeInteger maxBytes \<or> maxBytes < 1
      then Inl (RangeError ''Serialized JSON byte limit must be a positive safe integer'')
      else if int (byteLength serialized) > maxBytes
      then Inl (RangeError ''serialized JSON limit'')
      else Inr ())"

definition parseJsonWithinLimits :: "jsstring \<Rightarrow> JsonLimits \<Rightarrow> json result" where
  "parseJsonWithinLimits serialized L =
     (if \<not> assertJsonLimits L then Inl (RangeError ''JSON limit must be a positive safe integer'')
      else bindR (assertSerializedJsonWithinLimit serialized (maxCanonicalBytes L)) (\<lambda>_.
           bindR (jsonParse serialized) (\<lambda>value.
           bindR (checkJson L value) (\<lambda>_. Inr value))))"


section \<open>Enough fuel\<close>

lemma pStr_shrinks: "pStr s = Some (x, r) \<Longrightarrow> length r < length s"
proof (induction s arbitrary: x r rule: pStr.induct)
  case (2 c cs)
  then show ?case
    by (fastforce simp: push_unit_def split: if_splits list.splits option.splits)
qed simp

lemma take_frac_shrinks: "take_frac s = Some (fp, r) \<Longrightarrow> length r \<le> length s"
  by (auto simp: take_frac_def split: list.splits if_splits
      intro: le_SucI [OF length_dropWhile_le])

lemma take_exp_shrinks: "take_exp s = Some (e, r) \<Longrightarrow> length r \<le> length s"
  by (auto simp: take_exp_def Let_def split: list.splits if_splits
      intro: le_SucI [OF length_dropWhile_le] le_SucI [OF le_SucI [OF length_dropWhile_le]])

lemma pNum_shrinks: "pNum s = Some (v, r) \<Longrightarrow> length r < length s"
proof -
  assume "pNum s = Some (v, r)"
  then obtain fp s3 e where ip: "takeWhile is_digit (snd (take_sign s)) \<noteq> []"
    and f: "take_frac (dropWhile is_digit (snd (take_sign s))) = Some (fp, s3)"
    and x: "take_exp s3 = Some (e, r)"
    by (auto simp: pNum_def Let_def split: prod.splits if_splits option.splits)
  let ?s1 = "snd (take_sign s)"
  have "length (takeWhile is_digit ?s1) + length (dropWhile is_digit ?s1) = length ?s1"
    by (metis length_append takeWhile_dropWhile_id)
  then have "length (dropWhile is_digit ?s1) < length ?s1" using ip by (cases "takeWhile is_digit ?s1") auto
  moreover have "length ?s1 \<le> length s"
    by (auto simp: take_sign_def split: list.splits)
  moreover have "length s3 \<le> length (dropWhile is_digit ?s1)"
    using f by (rule take_frac_shrinks)
  moreover have "length r \<le> length s3"
    using x by (rule take_exp_shrinks)
  ultimately show ?thesis by linarith
qed

lemma skip_ws_shrinks: "length (skip_ws s) \<le> length s"
  by (simp add: skip_ws_def length_dropWhile_le)

lemma skip_ws_ConsD: "skip_ws s = d # ds \<Longrightarrow> length ds < length s"
  using skip_ws_shrinks [of s] by simp

lemma parser_shrinks:
  "pVal n s = Some (v, r) \<Longrightarrow> length r < length s"
  "pElems n s = Some (vs, r) \<Longrightarrow> length r < length s"
  "pMembers n s = Some (ms, r) \<Longrightarrow> length r < length s"
proof (induction n s and n s and n s arbitrary: v r and vs r and ms r
    rule: pVal_pElems_pMembers.induct)
  case (2 n s)
  then show ?case
    by (auto simp: stripPrefix_def split: list.splits if_splits
        dest!: skip_ws_ConsD pStr_shrinks pNum_shrinks) fastforce+
next
  case (4 n s)
  then show ?case
    using skip_ws_shrinks
    by (auto split: list.splits if_splits option.splits dest!: skip_ws_ConsD)
      (meson less_trans order_less_le_trans)+
next
  case (6 n s)
  then show ?case
    using skip_ws_shrinks
    by (auto split: list.splits if_splits option.splits dest!: skip_ws_ConsD pStr_shrinks)
      (metis less_SucI less_trans order_less_le_trans)+
qed simp_all

text \<open>
  Two amounts of fuel that both exceed twice the length of the text give the same outcome.
\<close>

lemma parser_fuel:
  "2 * length s < n \<Longrightarrow> 2 * length s < m \<Longrightarrow> pVal n s = pVal m s"
  "2 * length s + 1 < n \<Longrightarrow> 2 * length s + 1 < m \<Longrightarrow> pElems n s = pElems m s"
  "2 * length s + 1 < n \<Longrightarrow> 2 * length s + 1 < m \<Longrightarrow> pMembers n s = pMembers m s"
proof (induction n s and n s and n s arbitrary: m and m and m rule: pVal_pElems_pMembers.induct)
  case (2 n s)
  from 2(4) obtain k where m: "m = Suc k" by (cases m) auto
  show ?case
  proof (cases s)
    case (Cons c cs)
    have "pMembers n (d # ds) = pMembers k (d # ds)"
      if "skip_ws cs = d # ds" "d \<noteq> 125" "c = 123" for d ds
      using 2(3,4) m Cons that skip_ws_ConsD [OF that(1)] by (intro 2(1)) auto
    moreover have "pElems n (d # ds) = pElems k (d # ds)"
      if "skip_ws cs = d # ds" "d \<noteq> 93" "c = 91" for d ds
      using 2(3,4) m Cons that skip_ws_ConsD [OF that(1)] by (intro 2(2)) auto
    ultimately show ?thesis using Cons m by (auto split: list.splits)
  qed (simp add: m)
next
  case (4 n s)
  from 4(4) obtain k where m: "m = Suc k" by (cases m) auto
  have v: "pVal n s = pVal k s" using 4(3,4) m by (intro 4(1)) auto
  have "pElems n (skip_ws ds) = pElems k (skip_ws ds)"
    if "pVal n s = Some (w, r)" "skip_ws r = 44 # ds" for w r ds
    using 4(3,4) m that parser_shrinks(1) [OF that(1)] skip_ws_ConsD [OF that(2)] skip_ws_shrinks [of ds]
    by (intro 4(2)) auto
  then show ?case using m v by (auto split: option.splits list.splits)
next
  case (6 n s)
  from 6(4) obtain k where m: "m = Suc k" by (cases m) auto
  show ?case
  proof (cases s)
    case (Cons q qs)
    have v: "pVal n (skip_ws ds) = pVal k (skip_ws ds)"
      if "q = 34" "pStr qs = Some (x, r)" "skip_ws r = 58 # ds" for x r ds
      using 6(3,4) m Cons that pStr_shrinks [OF that(2)] skip_ws_ConsD [OF that(3)] skip_ws_shrinks [of ds]
      by (intro 6(1)) auto
    have "pMembers n (skip_ws es) = pMembers k (skip_ws es)"
      if "q = 34" "pStr qs = Some (x, r)" "skip_ws r = 58 # ds"
        "pVal n (skip_ws ds) = Some (w, r')" "skip_ws r' = 44 # es" for x r ds w r' es
      using 6(3,4) m Cons that pStr_shrinks [OF that(2)] skip_ws_ConsD [OF that(3)] skip_ws_shrinks [of ds]
        parser_shrinks(1) [OF that(4)] skip_ws_ConsD [OF that(5)] skip_ws_shrinks [of es]
      by (intro 6(2)) auto
    with v show ?thesis using Cons m by (auto split: option.splits list.splits)
  qed (simp add: m)
qed simp_all

lemma pVal_fuel:
  "2 * length s < n \<Longrightarrow> pVal n (skip_ws s) = pVal (Suc (2 * length s)) (skip_ws s)"
  using skip_ws_shrinks [of s] by (intro parser_fuel(1)) auto

section \<open>Numbers read back\<close>

lemma bits_le: "n < 2 ^ k \<Longrightarrow> bits n \<le> k"
proof (induction n arbitrary: k rule: bits.induct)
  case (1 n)
  show ?case
  proof (cases "n = 0")
    case True
    then show ?thesis by (simp add: bits.simps)
  next
    case False
    with 1(2) obtain j where k: "k = Suc j" by (cases k) auto
    with 1(2) have "n div 2 < 2 ^ j" by auto
    with 1(1) False have "bits (n div 2) \<le> j" by simp
    with k False show ?thesis by (subst bits.simps) simp
  qed
qed

lemma round_div_1 [simp]: "round_div p 1 = p" "round_div p (Suc 0) = p"
  by (simp_all add: round_div_def Let_def)

lemma number_value_int:
  assumes "m < 2 ^ 53"
  shows "number_value neg m 0 = signed neg m"
proof -
  obtain d k where dk: "nearest_double m 1 = (d, k)" by (metis surj_pair)
  have "bits 1 = 1" by (simp add: bits.simps)
  then have "k \<le> 0" using bits_le [OF assms] dk
    by (auto simp: nearest_double_def Let_def split: if_splits)
  moreover have "d = (if 0 \<le> k then round_div m (1 * 2 ^ nat k) else round_div (m * 2 ^ nat (- k)) 1)"
    using dk by (auto simp: nearest_double_def Let_def)
  ultimately have "(k = 0 \<and> d = m) \<or> (k < 0 \<and> d = m * 2 ^ nat (- k))" by auto
  moreover have "\<not> (2 ^ 1024 \<le> m)"
    using less_trans [OF assms, of "2 ^ 1024"] power_strict_increasing [of 53 1024 "2 :: nat"]
    by simp
  ultimately show ?thesis using dk
    by (auto simp: number_value_def)
qed

definition stops :: "jsstring \<Rightarrow> bool" where
  "stops r \<longleftrightarrow> (case r of [] \<Rightarrow> True | c # _ \<Rightarrow> c = 44 \<or> c = 93 \<or> c = 125)"

lemma takeWhile_dec: "stops r \<Longrightarrow> takeWhile is_digit (dec n @ r) = dec n"
  and dropWhile_dec: "stops r \<Longrightarrow> dropWhile is_digit (dec n @ r) = r"
proof -
  assume r: "stops r"
  have d: "\<And>c. c \<in> set (dec n) \<Longrightarrow> is_digit c" by (rule dec_digits)
  have "takeWhile is_digit r = []" "dropWhile is_digit r = r"
    using r by (auto simp: stops_def is_digit_def split: list.splits)
  with d show "takeWhile is_digit (dec n @ r) = dec n" "dropWhile is_digit (dec n @ r) = r"
    by (simp_all add: takeWhile_append2 dropWhile_append2)
qed

lemma dec_no_leading_zero: "\<not> (hd (dec n) = 48 \<and> 1 < length (dec n))"
proof (cases "n = 0")
  case True
  then show ?thesis by (simp add: dec_def digits_of_nat.simps)
next
  case False
  then have "hd (digits_of_nat n) \<noteq> 0" "hd (digits_of_nat n) < 10"
    by (simp_all add: digits_hd_pos digits_lt_10 [OF hd_in_set])
  then have "unat (digit_unit (hd (digits_of_nat n))) \<noteq> 48" by (simp add: unat_digit_unit)
  then show ?thesis by (auto simp: dec_def hd_map)
qed

lemma hd_dec_not_minus: "hd (dec n) \<noteq> 45"
proof -
  have "is_digit (hd (dec n))" by (rule dec_digits [of _ n]) simp
  then show ?thesis by (auto simp: is_digit_def)
qed

lemma take_sign_dec: "take_sign (dec n @ r) = (False, dec n @ r)"
proof -
  obtain c cs where "dec n = c # cs" by (cases "dec n") auto
  with hd_dec_not_minus [of n] show ?thesis by (simp add: take_sign_def)
qed

lemma stops_frac_exp: "stops r \<Longrightarrow> take_frac r = Some ([], r) \<and> take_exp r = Some (0, r)"
  by (auto simp: stops_def take_frac_def take_exp_def split: list.splits)

lemma pNum_intString:
  assumes "isSafeInteger n" "stops r"
  shows "pNum (intString n @ r) = Some (JNum (NInt n), r)"
proof -
  have lt: "nat (- n) < 2 ^ 53" "nat n < 2 ^ 53"
    using assms(1) by (auto simp: isSafeInteger_def MAX_SAFE_INTEGER_def)
  show ?thesis
  proof (cases "n < 0")
    case True
    then have "take_sign (intString n @ r) = (True, dec (nat (- n)) @ r)"
      by (simp add: intString_def take_sign_def)
    with True assms(2) lt show ?thesis
      using dec_no_leading_zero [of "nat (- n)"]
      by (auto simp: pNum_def takeWhile_dec dropWhile_dec stops_frac_exp number_value_int signed_def)
  next
    case False
    then have "take_sign (intString n @ r) = (False, dec (nat n) @ r)"
      by (simp add: intString_def take_sign_dec)
    with False assms(2) lt show ?thesis
      using dec_no_leading_zero [of "nat n"]
      by (auto simp: pNum_def takeWhile_dec dropWhile_dec stops_frac_exp number_value_int signed_def)
  qed
qed


section \<open>The canonical text read back\<close>

text \<open>
  The first code unit of a canonical text decides the branch of the parser; none of them is
  white space or closes a container.
\<close>

definition opener :: "16 word \<Rightarrow> bool" where
  "opener c \<longleftrightarrow> \<not> is_ws c \<and> c \<noteq> 93 \<and> c \<noteq> 125"

lemma intString_hd: "\<exists>c cs. intString n = c # cs \<and> (c = 45 \<or> is_digit c)"
proof (cases "n < 0")
  case False
  obtain c cs where c: "dec (nat n) = c # cs" by (cases "dec (nat n)") auto
  then have "is_digit c" by (metis dec_digits list.set_intros(1))
  with False c show ?thesis by (simp add: intString_def)
qed (simp add: intString_def)

lemma minus_or_digit:
  "c = 45 \<or> is_digit c \<Longrightarrow>
     opener c \<and> c \<noteq> 123 \<and> c \<noteq> 91 \<and> c \<noteq> 34 \<and> c \<noteq> 110 \<and> c \<noteq> 116 \<and> c \<noteq> 102"
  by (auto simp: is_digit_def opener_def is_ws_def)

lemma canon_hd: "valid_json v \<Longrightarrow> \<exists>c cs. canon v = c # cs \<and> opener c"
proof (cases v)
  case (JNum n)
  assume "valid_json v"
  with JNum obtain i where "n = NInt i" by (cases n) auto
  with JNum show ?thesis using intString_hd [of i] minus_or_digit by auto
qed (auto simp: jsonQuote_def opener_def is_ws_def)

lemma skip_ws_opener: "opener c \<Longrightarrow> skip_ws (c # cs) = c # cs"
  by (simp add: skip_ws_def opener_def)

lemma skip_ws_canon: "valid_json v \<Longrightarrow> skip_ws (canon v @ r) = canon v @ r"
  using canon_hd [of v] skip_ws_opener by auto

lemma skip_ws_stop [simp]:
  "skip_ws (44 # r) = 44 # r" "skip_ws (93 # r) = 93 # r" "skip_ws (125 # r) = 125 # r"
  "skip_ws (58 # r) = 58 # r" "skip_ws (34 # r) = 34 # r" "skip_ws [] = []"
  by (simp_all add: skip_ws_def is_ws_def)

lemma putKey_new: "fst e \<notin> fst ` set kvs \<Longrightarrow> putKey kvs e = kvs @ [e]"
  by (simp add: putKey_def)

lemma dedup_distinct: "distinct (map fst ms) \<Longrightarrow> dedup ms = ms"
proof -
  have "foldl putKey acc ms = acc @ ms" if "distinct (map fst (acc @ ms))" for acc
    using that by (induction ms arbitrary: acc) (auto simp: putKey_new)
  from this [of "[]"] show "distinct (map fst ms) \<Longrightarrow> dedup ms = ms" by (simp add: dedup_def)
qed

text \<open>Reading back one value, in a context that ends the value and with enough fuel.\<close>

definition reads_back :: "json \<Rightarrow> bool" where
  "reads_back v \<longleftrightarrow>
     (\<forall>n r. length (canon v) \<le> n \<longrightarrow> stops r \<longrightarrow> pVal n (canon v @ r) = Some (norm v, r))"

lemma reads_backD:
  "reads_back v \<Longrightarrow> length (canon v) \<le> n \<Longrightarrow> stops r \<Longrightarrow> pVal n (canon v @ r) = Some (norm v, r)"
  by (simp add: reads_back_def)

lemma stops_simps [simp]: "stops (44 # r)" "stops (93 # r)" "stops (125 # r)" "stops []"
  by (simp_all add: stops_def)

lemma pElems_canon:
  assumes "vs \<noteq> []" "\<And>v. v \<in> set vs \<Longrightarrow> valid_json v \<and> reads_back v"
    and "length (joinComma (map canon vs)) < n"
  shows "pElems n (joinComma (map canon vs) @ 93 # r) = Some (map norm vs, r)"
  using assms
proof (induction vs arbitrary: n rule: induct_list012)
  case (2 v)
  then obtain m where n: "n = Suc m" by (cases n) auto
  with 2 have "pVal m (canon v @ 93 # r) = Some (norm v, 93 # r)"
    by (intro reads_backD) auto
  with n show ?case by simp
next
  case (3 v w ws)
  then obtain m where n: "n = Suc m" by (cases n) auto
  let ?rest = "joinComma (map canon (w # ws)) @ 93 # r"
  have "pVal m (canon v @ 44 # ?rest) = Some (norm v, 44 # ?rest)"
    using 3(3-5) n by (intro reads_backD) auto
  moreover have "skip_ws ?rest = ?rest"
    using 3(4) [of w] by (cases ws) (auto simp: skip_ws_canon)
  moreover have "pElems m ?rest = Some (map norm (w # ws), r)"
    using 3(4,5) n by (intro 3(2)) auto
  ultimately show ?case using n by (simp add: apfst_def)
qed simp

lemma pMembers_canon:
  assumes "kvs \<noteq> []" "\<And>e. e \<in> set kvs \<Longrightarrow> valid_json (snd e) \<and> reads_back (snd e)"
    and "length (joinComma (map entry_text (map (apsnd canon) kvs))) < n"
  shows "pMembers n (joinComma (map entry_text (map (apsnd canon) kvs)) @ 125 # r) =
      Some (map (apsnd norm) kvs, r)"
  using assms
proof (induction kvs arbitrary: n rule: induct_list012)
  case (2 e)
  obtain k v where e: "e = (k, v)" by (cases e)
  from 2 obtain m where n: "n = Suc m" by (cases n) auto
  with 2 e have "pVal m (canon v @ 125 # r) = Some (norm v, 125 # r)"
    by (intro reads_backD) (auto simp: entry_text_def)
  with n e 2 show ?case
    using skip_ws_canon [of v "125 # r"]
    by (simp add: entry_text_def jsonQuote_def pStr_quote_body del: pStr.simps)
next
  case (3 e f fs)
  obtain k v where e: "e = (k, v)" by (cases e)
  from 3 obtain m where n: "n = Suc m" by (cases n) auto
  define rest where "rest = joinComma (map entry_text (map (apsnd canon) (f # fs))) @ 125 # r"
  have "pVal m (canon v @ 44 # rest) = Some (norm v, 44 # rest)"
    using 3(4) [of e] 3(5) n e by (intro reads_backD) (auto simp: entry_text_def)
  moreover have "skip_ws (canon v @ 44 # rest) = canon v @ 44 # rest"
    using 3(4) [of e] e by (intro skip_ws_canon) auto
  moreover have "skip_ws rest = rest"
    unfolding rest_def by (cases fs) (simp_all add: entry_text_def jsonQuote_def)
  moreover have "pMembers m rest = Some (map (apsnd norm) (f # fs), r)"
    unfolding rest_def using 3(4,5) n e by (intro 3(2)) auto
  moreover have "joinComma (map entry_text (map (apsnd canon) (e # f # fs))) @ 125 # r =
      34 # quote_body k @ 34 # 58 # canon v @ 44 # rest"
    by (simp add: e rest_def entry_text_def [of "(k, canon v)"] jsonQuote_def)
  ultimately show ?case unfolding n
    by (simp add: e pStr_quote_body apfst_def del: pStr.simps list.map joinComma.simps) simp
qed simp

lemma reads_backI:
  "canon v \<noteq> [] \<Longrightarrow> (\<And>m r. length (canon v) \<le> Suc m \<Longrightarrow> stops r \<Longrightarrow>
     pVal (Suc m) (canon v @ r) = Some (norm v, r)) \<Longrightarrow> reads_back v"
  unfolding reads_back_def by (metis Suc_le_D le_0_eq length_0_conv not0_implies_Suc)

lemma canon_reads_back: "valid_json v \<Longrightarrow> reads_back v"
proof (induction v rule: canon.induct)
  case 1
  show ?case by (rule reads_backI) (simp_all add: stripPrefix_def)
next
  case (2 b)
  show ?case by (rule reads_backI) (simp_all add: stripPrefix_def)
next
  case (3 num)
  then obtain i where i: "num = NInt i" "isSafeInteger i" by (cases num) auto
  obtain c cs where c: "intString i = c # cs" "c = 45 \<or> is_digit c"
    using intString_hd by blast
  note facts = minus_or_digit [OF c(2)]
  have "pVal n (intString i @ r) = Some (JNum (NInt i), r)"
    if "length (intString i) \<le> n" "stops r" for n r
  proof -
    from that(1) c(1) obtain m where "n = Suc m" by (cases n) auto
    then have "pVal n (intString i @ r) = pNum (intString i @ r)"
      using c facts by simp
    with i(2) that(2) show ?thesis by (simp add: pNum_intString)
  qed
  with i show ?case by (simp add: reads_back_def)
next
  case (4 s)
  have "pVal n (jsonQuote s @ r) = Some (JStr s, r)" if "length (jsonQuote s) \<le> n" for n r
    using that by (cases n) (simp_all add: jsonQuote_def pStr_quote_body del: pStr.simps)
  then show ?case by (simp add: reads_back_def)
next
  case (5 vs)
  have IH: "\<And>v. v \<in> set vs \<Longrightarrow> valid_json v \<and> reads_back v"
    using 5 by (auto simp: list_all_iff)
  show ?case unfolding reads_back_def
  proof (intro allI impI)
    fix n r
    assume len: "length (canon (JArr vs)) \<le> n" and "stops r"
    then obtain m where n: "n = Suc m" by (cases n) auto
    show "pVal n (canon (JArr vs) @ r) = Some (norm (JArr vs), r)"
    proof (cases vs)
      case Nil
      then show ?thesis using n by simp
    next
      case (Cons w ws)
      obtain c cs where c: "joinComma (map canon vs) = c # cs" "opener c"
        using canon_hd [of w] IH [of w] Cons by (cases ws) auto
      moreover have "pElems m (joinComma (map canon vs) @ 93 # r) = Some (map norm vs, r)"
        using Cons IH len n by (intro pElems_canon) auto
      ultimately show ?thesis using n
        by (simp add: skip_ws_opener) (simp add: opener_def apfst_def)
    qed
  qed
next
  case (6 kvs)
  let ?es = "sort_key fst kvs"
  have IH: "\<And>e. e \<in> set ?es \<Longrightarrow> valid_json (snd e) \<and> reads_back (snd e)"
    using 6 by (auto simp: list_all_iff)
  have d: "dedup (map (apsnd norm) ?es) = map (apsnd norm) ?es"
    using 6(2) by (intro dedup_distinct) (simp add: distinct_sort_key_fst del: map_map)
  show ?case unfolding reads_back_def canon_JObj norm_JObj
  proof (intro allI impI)
    fix n r
    let ?body = "joinComma (map entry_text (map (apsnd canon) ?es))"
    assume len: "length (123 # ?body @ [125]) \<le> n" and "stops r"
    then obtain m where n: "n = Suc m" by (cases n) auto
    show "pVal n ((123 # ?body @ [125]) @ r) = Some (JObj (map (apsnd norm) ?es), r)"
    proof (cases ?es)
      case Nil
      then show ?thesis using n by simp
    next
      case (Cons f fs)
      obtain cs where c: "?body = 34 # cs"
        unfolding Cons by (cases fs) (simp_all add: entry_text_def jsonQuote_def)
      have "pMembers m (?body @ 125 # r) = Some (map (apsnd norm) ?es, r)"
        using Cons IH len n by (intro pMembers_canon) auto
      with c d n show ?thesis by (simp add: apfst_def)
    qed
  qed
qed

theorem jsonParse_canon: "valid_json v \<Longrightarrow> jsonParse (canon v) = Inr (norm v)"
proof -
  assume v: "valid_json v"
  then have "pVal (Suc (2 * length (canon v))) (canon v @ []) = Some (norm v, [])"
    by (intro reads_backD canon_reads_back) auto
  with v show ?thesis using skip_ws_canon [of v "[]"] by (simp add: jsonParse_def)
qed

lemma cloneJson_eq [simp]: "valid_json v \<Longrightarrow> cloneJson v = Inr (norm v)"
  by (simp add: cloneJson_def jsonParse_canon)

lemma inertJsonSnapshot_eq [simp]: "valid_json v \<Longrightarrow> inertJsonSnapshot v = Inr (norm v)"
  by (simp add: inertJsonSnapshot_def jsonParse_canon)

lemma cloneJson_Inr: "cloneJson v = Inr w \<longleftrightarrow> valid_json v \<and> w = norm v"
  by (auto simp: cloneJson_def result_simps jsonParse_canon)

lemma inertJsonSnapshot_Inr: "inertJsonSnapshot v = Inr w \<longleftrightarrow> valid_json v \<and> w = norm v"
  by (auto simp: inertJsonSnapshot_def result_simps jsonParse_canon)

theorem canon_inj: "valid_json v \<Longrightarrow> valid_json w \<Longrightarrow> canon v = canon w \<longleftrightarrow> norm v = norm w"
  by (metis jsonParse_canon canon_norm sum.inject(2))

lemma canonicalJson_norm [simp]: "canonicalJson (norm v) = canonicalJson v"
  by (simp add: canonicalJson_def)

lemma cloneJson_norm [simp]: "cloneJson (norm v) = cloneJson v"
  by (simp add: cloneJson_def)

declare js_simps [simp del]

end
