(* ===== verification/JsHeap.thy ===== *)
theory JsHeap
  imports JsonParse
begin

text \<open>
  The boundary of \<^verbatim>\<open>src/core/json.ts\<close>: arbitrary JavaScript values, as an adapter may hand
  them over, and the checks that reduce them to inert JSON. Objects live in a heap, because
  the code distinguishes proxies, prototypes, symbol keys, accessors, non-enumerable
  properties, sparse arrays, shared and cyclic references.

  \<open>objectDataEntries\<close>, \<open>arrayDataValues\<close>, \<open>encode\<close> and \<open>assertJsonWithinLimits\<close>
  follow the source statement by statement; \<open>encode\<close> recurses once per nesting level and
  carries the available stack as fuel, \<open>assertJsonWithinLimits\<close> is the explicit-stack loop
  with its own termination proof.

  \<open>repr h v t\<close> says that the heap value \<open>v\<close> is inert data and denotes the tree
  \<open>t\<close>. What is shown: the limit check accepts a value if and only if it represents a
  valid tree within the limits, with exactly the tree's counters as result, and canonical
  encoding succeeds if and only if the value represents a valid tree, with its canonical text
  as result. \<open>repr\<close> is the description that follows the code; \<open>Inert\<close> shows that, on valid trees, it
  is the one by the shape of the objects. The prototype of an array is not looked at by the source.
\<close>

declare js_simps [simp]

section \<open>Objects and property reads\<close>

datatype propkey = PStr jsstring | PSym nat

datatype jsvalue =
    VUndefined
  | VNull
  | VBool bool
  | VNum jsnum
  | VStr jsstring
  | VSymbol nat
  | VBigInt int
  | VFunction nat
  | VRef nat

datatype descriptor = DataDesc jsvalue bool | AccessorDesc bool

datatype prototype = ProtoObject | ProtoNull | ProtoOther

text \<open>The property list is in the order of \<open>Reflect.ownKeys\<close>.\<close>

record jsobject =
  isProxy :: bool
  isArray :: bool
  getPrototype :: prototype
  props :: "(propkey \<times> descriptor) list"

type_synonym heap = "nat \<Rightarrow> jsobject"

definition wf_heap :: "heap \<Rightarrow> bool" where
  "wf_heap h \<longleftrightarrow> (\<forall>a. distinct (map fst (props (h a))))"

definition assertPlainDataContainer :: "jsobject \<Rightarrow> unit result" where
  "assertPlainDataContainer obj = assertR (\<not> isProxy obj) (TypeError ''cannot be a Proxy'')"

definition ownDataDescriptor :: "jsobject \<Rightarrow> propkey \<Rightarrow> (jsvalue \<times> bool) result" where
  "ownDataDescriptor obj key =
     (case map_of (props obj) key of
        None \<Rightarrow> Inl (TypeError ''must be an own JSON value'')
      | Some (AccessorDesc _) \<Rightarrow> Inl (TypeError ''cannot be an accessor property'')
      | Some (DataDesc v enumerable) \<Rightarrow> Inr (v, enumerable))"

fun is_symbol :: "propkey \<Rightarrow> bool" where
  "is_symbol (PSym _) = True"
| "is_symbol (PStr _) = False"

fun key_name :: "propkey \<Rightarrow> jsstring" where
  "key_name (PStr s) = s"
| "key_name (PSym _) = []"

definition assertNoSymbolProperties :: "propkey list \<Rightarrow> unit result" where
  "assertNoSymbolProperties keys =
     assertR (\<not> list_ex is_symbol keys) (TypeError ''cannot contain symbol properties'')"

definition assertSupportedJsonKey :: "jsstring \<Rightarrow> unit result" where
  "assertSupportedJsonKey key =
     bindR (assertUnicodeScalarString key) (\<lambda>_.
       assertR (key \<noteq> proto_key) (TypeError ''forbidden JSON key __proto__''))"

definition exceeds :: "int option \<Rightarrow> nat \<Rightarrow> bool" where
  "exceeds limit n \<longleftrightarrow> (case limit of None \<Rightarrow> False | Some m \<Rightarrow> int n > m)"

definition objectEntry :: "jsobject \<Rightarrow> int option \<Rightarrow> jsstring \<Rightarrow> (jsstring \<times> jsvalue) result" where
  "objectEntry obj maxStr key =
     bindR (assertSupportedJsonKey key) (\<lambda>_.
     if exceeds maxStr (byteLength key) then Inl (RangeError ''key string limit'')
     else bindR (ownDataDescriptor obj (PStr key)) (\<lambda>(v, enumerable).
     if \<not> enumerable then Inl (TypeError ''cannot be a non-enumerable property'')
     else Inr (key, v)))"

definition objectDataEntries ::
  "jsobject \<Rightarrow> int option \<Rightarrow> int option \<Rightarrow> (jsstring \<times> jsvalue) list result" where
  "objectDataEntries obj maxKeys maxStr =
     bindR (assertPlainDataContainer obj) (\<lambda>_.
     if getPrototype obj \<noteq> ProtoObject \<and> getPrototype obj \<noteq> ProtoNull
     then Inl (TypeError ''must be a plain JSON object'')
     else let ownKeys = map fst (props obj) in
     bindR (assertNoSymbolProperties ownKeys) (\<lambda>_.
     let keys = map key_name ownKeys in
     if exceeds maxKeys (length keys) then Inl (RangeError ''object key limit'')
     else bindR (mapR (objectEntry obj maxStr) keys) (\<lambda>entries.
     Inr (sort_key fst entries))))"

definition is_canonical_index :: "jsstring \<Rightarrow> bool" where
  "is_canonical_index key \<longleftrightarrow>
     key = js ''0'' \<or> (key \<noteq> [] \<and> list_all is_digit key \<and> hd key \<noteq> 48)"

definition arrayIndex :: "jsstring \<Rightarrow> nat \<Rightarrow> nat option" where
  "arrayIndex key len =
     (if \<not> is_canonical_index key then None
      else if isSafeInteger (int (parse_nat key)) \<and> parse_nat key < len
      then Some (parse_nat key) else None)"

definition arraySlot ::
  "jsobject \<Rightarrow> nat \<Rightarrow> propkey \<Rightarrow> (nat \<rightharpoonup> jsvalue) \<times> nat \<Rightarrow> ((nat \<rightharpoonup> jsvalue) \<times> nat) result" where
  "arraySlot obj len ownKey acc =
     (if ownKey = PStr (js ''length'') then Inr acc
      else bindR (assertSupportedJsonKey (key_name ownKey)) (\<lambda>_.
        case arrayIndex (key_name ownKey) len of
          None \<Rightarrow> Inl (TypeError ''unsupported array property'')
        | Some index \<Rightarrow>
            bindR (ownDataDescriptor obj ownKey) (\<lambda>(v, enumerable).
            if \<not> enumerable then Inl (TypeError ''cannot be a non-enumerable property'')
            else Inr ((fst acc)(index \<mapsto> v), Suc (snd acc)))))"

definition arrayDataValues :: "jsobject \<Rightarrow> int option \<Rightarrow> jsvalue list result" where
  "arrayDataValues obj maxLen =
     bindR (assertPlainDataContainer obj) (\<lambda>_.
     bindR (ownDataDescriptor obj (PStr (js ''length''))) (\<lambda>(lengthValue, _).
     case lengthValue of
       VNum (NInt n) \<Rightarrow>
         if \<not> isSafeInteger n \<or> n < 0 then Inl (TypeError ''length must be a non-negative safe integer'')
         else if exceeds maxLen (nat n) then Inl (RangeError ''array limit'')
         else let ownKeys = map fst (props obj) in
         bindR (assertNoSymbolProperties ownKeys) (\<lambda>_.
         bindR (foldR (arraySlot obj (nat n)) ownKeys (Map.empty, 0)) (\<lambda>(slots, observed).
         if observed \<noteq> nat n then Inl (TypeError ''cannot contain sparse array entries'')
         else Inr (map (\<lambda>i. case slots i of None \<Rightarrow> VUndefined | Some v \<Rightarrow> v) [0..<nat n])))
     | _ \<Rightarrow> Inl (TypeError ''length must be a non-negative safe integer'')))"


section \<open>Canonical encoding\<close>

fun encode :: "heap \<Rightarrow> nat \<Rightarrow> jsvalue \<Rightarrow> jsstring result" where
  "encode h 0 v = Inl StackOverflow"
| "encode h (Suc stack) v =
     (case v of
        VNull \<Rightarrow> Inr (js ''null'')
      | VStr s \<Rightarrow> bindR (assertUnicodeScalarString s) (\<lambda>_. Inr (jsonQuote s))
      | VBool b \<Rightarrow> Inr (if b then js ''true'' else js ''false'')
      | VNum n \<Rightarrow>
          if \<not> num_safe n then Inl (TypeError ''must be a safe integer and cannot be negative zero'')
          else Inr (num_text n)
      | VRef a \<Rightarrow>
          bindR (assertPlainDataContainer (h a)) (\<lambda>_.
          if isArray (h a) then
            bindR (arrayDataValues (h a) None) (\<lambda>values.
            bindR (mapR (encode h stack) values) (\<lambda>entries.
            Inr (91 # joinComma entries @ [93])))
          else
            bindR (objectDataEntries (h a) None None) (\<lambda>es.
            bindR (mapR (\<lambda>e. bindR (encode h stack (snd e)) (\<lambda>t. Inr (jsonQuote (fst e) @ 58 # t))) es)
              (\<lambda>entries. Inr (123 # joinComma entries @ [125]))))
      | _ \<Rightarrow> Inl (TypeError ''contains a non-JSON value''))"


section \<open>The limit check\<close>

datatype JsonTraversalFrame = Visit jsvalue int | Leave nat

definition addCanonicalBytes :: "JsonLimits \<Rightarrow> nat \<Rightarrow> int \<Rightarrow> int result" where
  "addCanonicalBytes L k b =
     (if b + int k > maxCanonicalBytes L then Inl (RangeError ''canonical JSON limit'')
      else Inr (b + int k))"

text \<open>
  One visit: the frames to push (top of the stack first), the active containers and the byte
  count afterwards. The children of an object are charged in reverse order, as the loop that
  pushes them runs.
\<close>

definition visitContainer ::
  "heap \<Rightarrow> JsonLimits \<Rightarrow> nat \<Rightarrow> int \<Rightarrow> nat set \<Rightarrow> int \<Rightarrow>
   (JsonTraversalFrame list \<times> nat set \<times> int) result" where
  "visitContainer h L a depth active bytes =
     bindR (assertPlainDataContainer (h a)) (\<lambda>_.
     if a \<in> active then Inl (TypeError ''contains a cyclic JSON reference'')
     else if isArray (h a) then
       bindR (arrayDataValues (h a) (Some (maxArrayLength L))) (\<lambda>values.
       bindR (addCanonicalBytes L (2 + (length values - 1)) bytes) (\<lambda>b.
       Inr (map (\<lambda>w. Visit w (depth + 1)) values @ [Leave a], insert a active, b)))
     else
       bindR (objectDataEntries (h a) (Some (maxObjectKeys L)) (Some (maxStringBytes L))) (\<lambda>entries.
       bindR (addCanonicalBytes L (2 + (length entries - 1)) bytes) (\<lambda>b.
       bindR (foldR (\<lambda>e. addCanonicalBytes L (byteLength (jsonQuote (fst e)) + 1)) (rev entries) b)
         (\<lambda>b'. Inr (map (\<lambda>e. Visit (snd e) (depth + 1)) entries @ [Leave a], insert a active, b')))))"

definition visitValue ::
  "heap \<Rightarrow> JsonLimits \<Rightarrow> jsvalue \<Rightarrow> int \<Rightarrow> nat set \<Rightarrow> int \<Rightarrow>
   (JsonTraversalFrame list \<times> nat set \<times> int) result" where
  "visitValue h L v depth active bytes =
     (case v of
        VNull \<Rightarrow> bindR (addCanonicalBytes L 4 bytes) (\<lambda>b. Inr ([], active, b))
      | VStr s \<Rightarrow>
          bindR (assertUnicodeScalarString s) (\<lambda>_.
          if int (byteLength s) > maxStringBytes L then Inl (RangeError ''string limit'')
          else bindR (addCanonicalBytes L (byteLength (jsonQuote s)) bytes) (\<lambda>b. Inr ([], active, b)))
      | VBool x \<Rightarrow> bindR (addCanonicalBytes L (if x then 4 else 5) bytes) (\<lambda>b. Inr ([], active, b))
      | VNum n \<Rightarrow>
          if \<not> num_safe n then Inl (TypeError ''must be a safe integer and cannot be negative zero'')
          else bindR (addCanonicalBytes L (byteLength (num_text n)) bytes) (\<lambda>b. Inr ([], active, b))
      | VRef a \<Rightarrow> visitContainer h L a depth active bytes
      | _ \<Rightarrow> Inl (TypeError ''contains a non-JSON value''))"

function walk ::
  "heap \<Rightarrow> JsonLimits \<Rightarrow> JsonTraversalFrame list \<Rightarrow> nat set \<Rightarrow> int \<Rightarrow> int \<Rightarrow> int \<Rightarrow> JsonMetrics result"
where
  "walk h L [] active nodes observed bytes =
     Inr \<lparr>m_nodes = nodes, m_maxDepth = observed, m_canonicalBytes = bytes\<rparr>"
| "walk h L (Leave a # frames) active nodes observed bytes =
     walk h L frames (active - {a}) nodes observed bytes"
| "walk h L (Visit v depth # frames) active nodes observed bytes =
     (if nodes + 1 > maxNodes L then Inl (RangeError ''node JSON limit'')
      else if depth > maxDepth L then Inl (RangeError ''JSON depth limit'')
      else bindR (visitValue h L v depth active bytes) (\<lambda>r.
        walk h L (fst r @ frames) (fst (snd r)) (nodes + 1) (max observed depth) (snd (snd r))))"
  by pat_completeness auto
termination
  by (relation "measures [\<lambda>(h, L, frames, active, nodes, observed, bytes). nat (maxNodes L - nodes),
      \<lambda>(h, L, frames, active, nodes, observed, bytes). length frames]") auto

definition assertJsonWithinLimits :: "heap \<Rightarrow> jsvalue \<Rightarrow> JsonLimits \<Rightarrow> JsonMetrics result" where
  "assertJsonWithinLimits h value L =
     (if \<not> assertJsonLimits L then Inl (RangeError ''JSON limit must be a positive safe integer'')
      else walk h L [Visit value 1] {} 0 0 0)"


section \<open>Inert data\<close>

inductive repr :: "heap \<Rightarrow> jsvalue \<Rightarrow> json \<Rightarrow> bool" for h :: heap where
  repr_null: "repr h VNull JNull"
| repr_bool: "repr h (VBool b) (JBool b)"
| repr_num: "repr h (VNum n) (JNum n)"
| repr_str: "repr h (VStr s) (JStr s)"
| repr_arr: "isArray (h a) \<Longrightarrow> arrayDataValues (h a) None = Inr vs \<Longrightarrow>
    list_all2 (repr h) vs ts \<Longrightarrow> repr h (VRef a) (JArr ts)"
| repr_obj: "\<not> isArray (h a) \<Longrightarrow> objectDataEntries (h a) None None = Inr es \<Longrightarrow>
    list_all2 (\<lambda>e kt. fst e = fst kt \<and> repr h (snd e) (snd kt)) es kts \<Longrightarrow>
    repr h (VRef a) (JObj kts)"

inductive_cases repr_refE: "repr h (VRef a) t"
inductive_cases repr_JArrE: "repr h v (JArr ts)"
inductive_cases repr_JObjE: "repr h v (JObj kts)"

inductive_simps repr_simps [simp]:
  "repr h VNull t" "repr h (VBool b) t" "repr h (VNum n) t" "repr h (VStr s) t"
  "repr h VUndefined t" "repr h (VSymbol i) t" "repr h (VBigInt j) t" "repr h (VFunction k) t"

lemma repr_deterministic: "repr h v t \<Longrightarrow> repr h v t' \<Longrightarrow> t = t'"
proof (induction arbitrary: t' rule: repr.induct)
  case (repr_arr a vs ts)
  from repr_arr.prems repr_arr.hyps(1,2) obtain ts' where t': "t' = JArr ts'"
    and "list_all2 (repr h) vs ts'" by (auto elim: repr_refE)
  with repr_arr.IH have "ts = ts'"
    by (auto simp: list_all2_conv_all_nth intro: nth_equalityI)
  with t' show ?case by simp
next
  case (repr_obj a es kts)
  from repr_obj.prems repr_obj.hyps(1,2) obtain kts' where t': "t' = JObj kts'"
    and "list_all2 (\<lambda>e kt. fst e = fst kt \<and> repr h (snd e) (snd kt)) es kts'"
    by (auto elim: repr_refE)
  with repr_obj.IH have "kts = kts'"
    by (auto simp: list_all2_conv_all_nth intro!: nth_equalityI prod_eqI)
  with t' show ?case by simp
qed auto


section \<open>Reading containers\<close>

lemma assertSupportedJsonKey_Inr [simp]:
  "assertSupportedJsonKey k = Inr u \<longleftrightarrow> supported_key k"
  by (auto simp: assertSupportedJsonKey_def supported_key_def scalar_def isOk_iff result_simps)

lemma objectEntry_Inr:
  "objectEntry obj m k = Inr e \<longleftrightarrow>
     supported_key k \<and> \<not> exceeds m (byteLength k) \<and>
     (\<exists>v. ownDataDescriptor obj (PStr k) = Inr (v, True) \<and> e = (k, v))"
  by (auto simp: objectEntry_def result_simps split: if_splits)

lemma exceeds_None [simp]: "\<not> exceeds None n"
  by (simp add: exceeds_def)

lemma exceeds_Some [simp]: "exceeds (Some m) n \<longleftrightarrow> m < int n"
  by (simp add: exceeds_def)

lemma mapR_objectEntry:
  "mapR (objectEntry obj m) ks = Inr es \<Longrightarrow> map fst es = ks \<and> (\<forall>e\<in>set es. supported_key (fst e))"
  by (induction ks arbitrary: es) (fastforce simp: result_simps objectEntry_Inr)+

lemma mapR_objectEntry_limit:
  "mapR (objectEntry obj (Some m)) ks = Inr es \<longleftrightarrow>
     mapR (objectEntry obj None) ks = Inr es \<and> (\<forall>e\<in>set es. int (byteLength (fst e)) \<le> m)"
proof (induction ks arbitrary: es)
  case (Cons k ks)
  show ?case
    by (cases es) (auto simp: result_simps objectEntry_Inr Cons.IH)
qed (auto simp: list_all2_Nil)

lemma objectDataEntries_limit:
  "objectDataEntries obj (Some mk) (Some ms) = Inr es \<longleftrightarrow>
     objectDataEntries obj None None = Inr es \<and> int (length es) \<le> mk \<and>
     (\<forall>e\<in>set es. int (byteLength (fst e)) \<le> ms)"
proof -
  have len: "mapR (objectEntry obj None) ks = Inr xs \<Longrightarrow> length xs = length ks" for ks xs
    using mapR_objectEntry [of obj None ks xs] by (metis length_map)
  show ?thesis
    by (auto simp: objectDataEntries_def result_simps Let_def mapR_objectEntry_limit not_less
        split: if_splits dest: len)
qed

lemma distinct_key_names:
  "distinct ks \<Longrightarrow> \<not> list_ex is_symbol ks \<Longrightarrow> distinct (map key_name ks)"
proof (induction ks)
  case (Cons k ks)
  have "key_name k \<notin> key_name ` set ks"
  proof
    assume "key_name k \<in> key_name ` set ks"
    then obtain k' where k': "k' \<in> set ks" "key_name k' = key_name k" by auto
    with Cons.prems(2) have "k' = k"
      by (cases k; cases k') (auto simp: list_ex_iff)
    with Cons.prems(1) k' show False by simp
  qed
  with Cons show ?case by simp
qed simp

lemma objectDataEntries_keys:
  assumes "wf_heap h" "objectDataEntries (h a) mk ms = Inr es"
  shows "distinct (map fst es) \<and> (\<forall>e\<in>set es. supported_key (fst e)) \<and> sorted (map fst es)"
proof -
  from assms(2) obtain xs where x: "mapR (objectEntry (h a) ms) (map key_name (map fst (props (h a)))) = Inr xs"
    and sym: "\<not> list_ex is_symbol (map fst (props (h a)))" and es: "es = sort_key fst xs"
    by (auto simp: objectDataEntries_def assertNoSymbolProperties_def result_simps Let_def split: if_splits)
  have "distinct (map key_name (map fst (props (h a))))"
    using assms(1) sym by (intro distinct_key_names) (auto simp: wf_heap_def)
  with mapR_objectEntry [OF x] have "distinct (map fst xs)" by simp
  with mapR_objectEntry [OF x] show ?thesis
    by (simp add: es distinct_sort_key_fst)
qed

definition arrayBody :: "jsobject \<Rightarrow> nat \<Rightarrow> jsvalue list result" where
  "arrayBody obj n =
     bindR (assertNoSymbolProperties (map fst (props obj))) (\<lambda>_.
     bindR (foldR (arraySlot obj n) (map fst (props obj)) (Map.empty, 0)) (\<lambda>(slots, observed).
     if observed \<noteq> n then Inl (TypeError ''cannot contain sparse array entries'')
     else Inr (map (\<lambda>i. case slots i of None \<Rightarrow> VUndefined | Some v \<Rightarrow> v) [0..<n])))"

lemma arrayBody_length: "arrayBody obj n = Inr vs \<Longrightarrow> length vs = n"
  by (auto simp: arrayBody_def result_simps split: if_splits)

lemma arrayDataValues_Inr:
  "arrayDataValues obj m = Inr vs \<longleftrightarrow>
     \<not> isProxy obj \<and> (\<exists>n e. ownDataDescriptor obj (PStr (js ''length'')) = Inr (VNum (NInt n), e) \<and>
       isSafeInteger n \<and> 0 \<le> n \<and> \<not> exceeds m (nat n) \<and> arrayBody obj (nat n) = Inr vs)"
proof -
  have "arrayDataValues obj m =
    bindR (assertPlainDataContainer obj) (\<lambda>_.
     bindR (ownDataDescriptor obj (PStr (js ''length''))) (\<lambda>(lengthValue, _).
     case lengthValue of
       VNum (NInt n) \<Rightarrow>
         if \<not> isSafeInteger n \<or> n < 0 then Inl (TypeError ''length must be a non-negative safe integer'')
         else if exceeds m (nat n) then Inl (RangeError ''array limit'')
         else arrayBody obj (nat n)
     | _ \<Rightarrow> Inl (TypeError ''length must be a non-negative safe integer'')))"
    by (simp only: arrayDataValues_def arrayBody_def Let_def)
  then show ?thesis
    by (cases "ownDataDescriptor obj (PStr (js ''length''))")
      (auto simp: assertPlainDataContainer_def result_simps not_less simp del: js_simps
        split: jsvalue.splits jsnum.splits if_splits)
qed

lemma arrayDataValues_limit:
  "arrayDataValues obj (Some m) = Inr vs \<longleftrightarrow>
     arrayDataValues obj None = Inr vs \<and> int (length vs) \<le> m"
proof -
  have "\<not> exceeds (Some m) (nat n) \<longleftrightarrow> int (length vs) \<le> m" if "arrayBody obj (nat n) = Inr vs" for n
    using arrayBody_length [OF that] by (simp add: not_less)
  with exceeds_None show ?thesis unfolding arrayDataValues_Inr by blast
qed

lemma containers_not_proxy:
  "arrayDataValues obj m = Inr vs \<Longrightarrow> \<not> isProxy obj"
  "objectDataEntries obj mk ms = Inr es \<Longrightarrow> \<not> isProxy obj"
  by (simp_all add: arrayDataValues_Inr objectDataEntries_def assertPlainDataContainer_def result_simps
      del: js_simps)

lemma addCanonicalBytes_Inr [simp]:
  "addCanonicalBytes L k b = Inr b' \<longleftrightarrow> b' = b + int k \<and> b + int k \<le> maxCanonicalBytes L"
  by (auto simp: addCanonicalBytes_def)

lemma foldR_addBytes:
  "b \<le> maxCanonicalBytes L \<Longrightarrow>
   foldR (\<lambda>e. addCanonicalBytes L (f e)) xs b = Inr b' \<longleftrightarrow>
     b' = b + int (sum_list (map f xs)) \<and> b' \<le> maxCanonicalBytes L"
  by (induction xs arbitrary: b) (auto simp: result_simps)

lemma visitContainer_array:
  "isArray (h a) \<Longrightarrow> visitContainer h L a depth active bytes = Inr r \<longleftrightarrow>
     (\<exists>vs. arrayDataValues (h a) None = Inr vs \<and> a \<notin> active \<and> int (length vs) \<le> maxArrayLength L \<and>
       bytes + int (2 + (length vs - 1)) \<le> maxCanonicalBytes L \<and>
       r = (map (\<lambda>w. Visit w (depth + 1)) vs @ [Leave a], insert a active,
            bytes + int (2 + (length vs - 1))))"
  by (auto simp: visitContainer_def assertPlainDataContainer_def result_simps arrayDataValues_limit
      split: if_splits dest: containers_not_proxy)

lemma visitContainer_object:
  "\<not> isArray (h a) \<Longrightarrow> visitContainer h L a depth active bytes = Inr r \<longleftrightarrow>
     (\<exists>es. objectDataEntries (h a) None None = Inr es \<and> a \<notin> active \<and>
       int (length es) \<le> maxObjectKeys L \<and> (\<forall>e\<in>set es. int (byteLength (fst e)) \<le> maxStringBytes L) \<and>
       bytes + int (2 + (length es - 1) + sum_list (map (\<lambda>e. byteLength (jsonQuote (fst e)) + 1) es))
         \<le> maxCanonicalBytes L \<and>
       r = (map (\<lambda>e. Visit (snd e) (depth + 1)) es @ [Leave a], insert a active,
            bytes + int (2 + (length es - 1) + sum_list (map (\<lambda>e. byteLength (jsonQuote (fst e)) + 1) es))))"
  (is "_ \<Longrightarrow> _ \<longleftrightarrow> ?R")
proof -
  assume obj: "\<not> isArray (h a)"
  have rev: "sum_list (map f (rev xs)) = sum_list (map f xs)" for f :: "jsstring \<times> jsvalue \<Rightarrow> nat" and xs
    by (metis mset_map mset_rev sum_mset_sum_list)
  have "visitContainer h L a depth active bytes = Inr r \<longleftrightarrow>
    (\<exists>es. objectDataEntries (h a) (Some (maxObjectKeys L)) (Some (maxStringBytes L)) = Inr es \<and>
       a \<notin> active \<and>
       (\<exists>b. addCanonicalBytes L (2 + (length es - 1)) bytes = Inr b \<and>
         (\<exists>b'. foldR (\<lambda>e. addCanonicalBytes L (byteLength (jsonQuote (fst e)) + 1)) (rev es) b = Inr b' \<and>
           r = (map (\<lambda>e. Visit (snd e) (depth + 1)) es @ [Leave a], insert a active, b'))))"
    using obj unfolding visitContainer_def assertPlainDataContainer_def
    by (auto simp only: result_simps assertR_eq_Inr if_False if_True sum.simps split: if_splits
        dest: containers_not_proxy)
  also have "\<dots> \<longleftrightarrow> ?R"
    unfolding objectDataEntries_limit addCanonicalBytes_Inr
    by (auto simp: foldR_addBytes rev)
  finally show ?thesis .
qed


section \<open>The limit check on inert data\<close>

definition fits :: "JsonLimits \<Rightarrow> int \<Rightarrow> int \<Rightarrow> int \<Rightarrow> json \<Rightarrow> bool" where
  "fits L n depth b t \<longleftrightarrow>
     valid_json t \<and> sizes_ok L t \<and> n + int (jnodes t) \<le> maxNodes L \<and>
     depth + int (jdepth t) \<le> maxDepth L + 1 \<and> b + int (jbytes t) \<le> maxCanonicalBytes L"

definition sumn :: "json list \<Rightarrow> int" where
  "sumn ts = int (sum_list (map jnodes ts))"

definition sumb :: "json list \<Rightarrow> int" where
  "sumb ts = int (sum_list (map jbytes ts))"

definition deepest :: "json list \<Rightarrow> int" where
  "deepest ts = int (fold max (map jdepth ts) 0)"

lemma fold_max_nat: "fold max xs (y :: nat) = max y (fold max xs 0)"
proof (induction xs arbitrary: y)
  case (Cons x xs)
  have "fold max xs (max x y) = max (max x y) (fold max xs 0)" by (rule Cons)
  moreover have "fold max xs x = max x (fold max xs 0)" by (rule Cons)
  ultimately show ?case by (simp add: max.assoc max.left_commute)
qed simp

lemma sums_simps [simp]:
  "sumn [] = 0" "sumn (t # ts) = int (jnodes t) + sumn ts"
  "sumb [] = 0" "sumb (t # ts) = int (jbytes t) + sumb ts"
  "deepest [] = 0" "deepest (t # ts) = max (int (jdepth t)) (deepest ts)"
proof -
  show "deepest (t # ts) = max (int (jdepth t)) (deepest ts)"
    using fold_max_nat [of "map jdepth ts" "jdepth t"] by (simp add: deepest_def)
qed (simp_all add: sumn_def sumb_def deepest_def)

lemma sums_nonneg: "0 \<le> sumn ts" "0 \<le> sumb ts" "0 \<le> deepest ts"
  by (simp_all add: sumn_def sumb_def deepest_def)

lemma jnodes_pos: "0 < jnodes t" and jdepth_pos: "0 < jdepth t"
  by (cases t; simp)+

definition fits_all :: "JsonLimits \<Rightarrow> int \<Rightarrow> int \<Rightarrow> int \<Rightarrow> json list \<Rightarrow> bool" where
  "fits_all L n depth b ts \<longleftrightarrow>
     (\<forall>t\<in>set ts. valid_json t \<and> sizes_ok L t) \<and> n + sumn ts \<le> maxNodes L \<and>
     depth + deepest ts \<le> maxDepth L + 1 \<and> b + sumb ts \<le> maxCanonicalBytes L"

lemma fits_all_Cons:
  "fits_all L n depth b (t # ts) \<longleftrightarrow>
     fits L n depth b t \<and> fits_all L (n + int (jnodes t)) depth (b + int (jbytes t)) ts"
  using sums_nonneg [of ts] jdepth_pos [of t]
  by (auto simp: fits_all_def fits_def)

text \<open>What the loop does after it has dealt with a value, in terms of the tree's counters.\<close>

definition resume ::
  "heap \<Rightarrow> JsonLimits \<Rightarrow> JsonTraversalFrame list \<Rightarrow> nat set \<Rightarrow> int \<Rightarrow> int \<Rightarrow> int \<Rightarrow> int \<Rightarrow> json list \<Rightarrow>
   JsonMetrics result" where
  "resume h L frames active n d b depth ts =
     walk h L frames active (n + sumn ts) (if ts = [] then d else max d (depth + deepest ts - 1))
       (b + sumb ts)"

lemma resume_Cons:
  "walk h L frames active (n + int (jnodes t) + sumn ts)
     (if ts = [] then max d (depth + int (jdepth t) - 1)
      else max (max d (depth + int (jdepth t) - 1)) (depth + deepest ts - 1))
     (b + int (jbytes t) + sumb ts) = resume h L frames active n d b depth (t # ts)"
proof (cases ts)
  case (Cons u us)
  have "max (max d (depth + int (jdepth t) - 1)) (depth + deepest ts - 1) =
      max d (depth + deepest (t # ts) - 1)" by (simp add: max_def)
  with Cons show ?thesis by (simp add: resume_def algebra_simps)
qed (simp add: resume_def jdepth_pos algebra_simps max_absorb1)

lemma walk_sound_list:
  assumes IH: "\<And>v n' frames d b m. n0 < n' \<Longrightarrow>
      walk h L (Visit v depth # frames) active n' d b = Inr m \<Longrightarrow>
      \<exists>t. repr h v t \<and> fits L n' depth b t \<and> resume h L frames active n' d b depth [t] = Inr m"
    and "n0 < n" "n \<le> maxNodes L" "b \<le> maxCanonicalBytes L" "depth \<le> maxDepth L + 1"
    and "walk h L (map (\<lambda>w. Visit w depth) vs @ frames) active n d b = Inr m"
  shows "\<exists>ts. list_all2 (repr h) vs ts \<and> fits_all L n depth b ts \<and>
      resume h L frames active n d b depth ts = Inr m"
  using assms(2-)
proof (induction vs arbitrary: n d b)
  case Nil
  then show ?case by (intro exI [of _ "[]"]) (simp add: fits_all_def resume_def)
next
  case (Cons v vs)
  from Cons.prems(5) have "walk h L (Visit v depth # map (\<lambda>w. Visit w depth) vs @ frames) active n d b = Inr m"
    by simp
  from IH [OF Cons.prems(1) this] obtain t where t: "repr h v t" "fits L n depth b t"
    and w: "walk h L (map (\<lambda>w. Visit w depth) vs @ frames) active (n + int (jnodes t))
       (max d (depth + int (jdepth t) - 1)) (b + int (jbytes t)) = Inr m"
    using jdepth_pos [of t] by (auto simp: resume_def)
  from t(2) have "n + int (jnodes t) \<le> maxNodes L" "b + int (jbytes t) \<le> maxCanonicalBytes L"
    by (auto simp: fits_def)
  from Cons.IH [OF _ this Cons.prems(4) w] Cons.prems(1)
  obtain ts where ts: "list_all2 (repr h) vs ts"
    "fits_all L (n + int (jnodes t)) depth (b + int (jbytes t)) ts"
    "resume h L frames active (n + int (jnodes t)) (max d (depth + int (jdepth t) - 1))
       (b + int (jbytes t)) depth ts = Inr m"
    by auto
  have "resume h L frames active n d b depth (t # ts) = Inr m"
    unfolding resume_Cons [symmetric] using ts(3) unfolding resume_def .
  with t ts show ?case by (intro exI [of _ "t # ts"]) (simp add: fits_all_Cons)
qed


text \<open>The counters and conditions of a container in terms of its children.\<close>

lemma fits_array:
  "fits L n depth b (JArr ts) \<longleftrightarrow>
     int (length ts) \<le> maxArrayLength L \<and>
     fits_all L (n + 1) (depth + 1) (b + int (2 + (length ts - 1))) ts"
  by (auto simp: fits_def fits_all_def list_all_iff sumn_def sumb_def deepest_def)

lemma split_snd: "(\<lambda>(k, v). f v) = (\<lambda>e. f (snd e))"
  by auto

lemma sumb_snd: "sumb (map snd kts) = int (sum_list (map (\<lambda>(k, v). jbytes v) kts))"
  by (simp add: sumb_def comp_def split_snd)

lemma object_bytes:
  "int (jbytes (JObj kts)) =
     int (2 + (length kts - 1) + sum_list (map (\<lambda>e. byteLength (jsonQuote (fst e)) + 1) kts)) +
     sumb (map snd kts)"
proof -
  have "sum_list (map (\<lambda>(k, v). byteLength (jsonQuote k) + 1 + jbytes v) kts) =
      sum_list (map (\<lambda>e. byteLength (jsonQuote (fst e)) + 1) kts) + sum_list (map (\<lambda>(k, v). jbytes v) kts)"
    by (induction kts) auto
  then show ?thesis by (simp add: sumb_snd)
qed

lemma object_sums:
  "int (jnodes (JObj kts)) = 1 + sumn (map snd kts)"
  "int (jdepth (JObj kts)) = 1 + deepest (map snd kts)"
  by (simp_all add: sumn_def deepest_def comp_def split_snd)

lemma fits_object:
  "distinct (map fst kts) \<Longrightarrow> (\<forall>e\<in>set kts. supported_key (fst e)) \<Longrightarrow>
   fits L n depth b (JObj kts) \<longleftrightarrow>
     int (length kts) \<le> maxObjectKeys L \<and> (\<forall>e\<in>set kts. int (byteLength (fst e)) \<le> maxStringBytes L) \<and>
     fits_all L (n + 1) (depth + 1)
       (b + int (2 + (length kts - 1) + sum_list (map (\<lambda>e. byteLength (jsonQuote (fst e)) + 1) kts)))
       (map snd kts)"
  unfolding fits_def fits_all_def object_bytes object_sums
  by (auto simp: list_all_iff case_prod_beta algebra_simps)

lemma resume_container:
  "resume h L (Leave a # frames) (insert a active) (n + 1) (max d depth) b (depth + 1) ts =
     walk h L frames (active - {a}) (n + 1 + sumn ts) (max d (depth + deepest ts)) (b + sumb ts)"
  using sums_nonneg(3) [of ts] by (auto simp: resume_def max_def)

lemma fits_leaf:
  "fits L n depth b JNull \<longleftrightarrow> n + 1 \<le> maxNodes L \<and> depth \<le> maxDepth L \<and> b + 4 \<le> maxCanonicalBytes L"
  "fits L n depth b (JBool x) \<longleftrightarrow>
     n + 1 \<le> maxNodes L \<and> depth \<le> maxDepth L \<and> b + (if x then 4 else 5) \<le> maxCanonicalBytes L"
  "fits L n depth b (JNum k) \<longleftrightarrow> num_safe k \<and>
     n + 1 \<le> maxNodes L \<and> depth \<le> maxDepth L \<and> b + int (byteLength (num_text k)) \<le> maxCanonicalBytes L"
  "fits L n depth b (JStr s) \<longleftrightarrow> scalar s \<and> int (byteLength s) \<le> maxStringBytes L \<and>
     n + 1 \<le> maxNodes L \<and> depth \<le> maxDepth L \<and> b + int (byteLength (jsonQuote s)) \<le> maxCanonicalBytes L"
  by (auto simp: fits_def)

lemma visit_leaf_sound:
  assumes "n + 1 \<le> maxNodes L" "depth \<le> maxDepth L" "\<And>a. v \<noteq> VRef a"
    and "visitValue h L v depth active b = Inr r"
  shows "\<exists>t. repr h v t \<and> fits L n depth b t \<and> jnodes t = 1 \<and> jdepth t = 1 \<and>
      r = ([], active, b + int (jbytes t))"
  using assms
  by (cases v) (auto simp: visitValue_def result_simps fits_leaf scalar_def isOk_iff split: if_splits)

lemma walk_sound:
  assumes wf: "wf_heap h"
  shows "walk h L (Visit v depth # frames) active n d b = Inr m \<Longrightarrow>
    \<exists>t. repr h v t \<and> fits L n depth b t \<and> resume h L frames active n d b depth [t] = Inr m"
proof (induction "nat (maxNodes L - n)" arbitrary: v depth frames active n d b m rule: less_induct)
  case less
  from less.prems obtain r where lim: "n + 1 \<le> maxNodes L" "depth \<le> maxDepth L"
    and r: "visitValue h L v depth active b = Inr r"
    and w: "walk h L (fst r @ frames) (fst (snd r)) (n + 1) (max d depth) (snd (snd r)) = Inr m"
    by (auto simp: result_simps not_less split: if_splits)
  have IH: "\<exists>t. repr h v' t \<and> fits L n' depth' b' t \<and> resume h L frames' active' n' d' b' depth' [t] = Inr m'"
    if "n < n'" "walk h L (Visit v' depth' # frames') active' n' d' b' = Inr m'"
    for v' depth' frames' active' n' d' b' m'
    using that lim(1) by (intro less.hyps) auto
  show ?case
  proof (cases "\<exists>a. v = VRef a")
    case False
    then obtain t where t: "repr h v t" "fits L n depth b t" "jnodes t = 1" "jdepth t = 1"
      "r = ([], active, b + int (jbytes t))"
      using visit_leaf_sound [OF lim _ r] by blast
    with w show ?thesis by (intro exI [of _ t]) (simp add: resume_def)
  next
    case True
    then obtain a where a: "v = VRef a" by blast
    with r have vc: "visitContainer h L a depth active b = Inr r" by (simp add: visitValue_def)
    show ?thesis
    proof (cases "isArray (h a)")
      case arr: True
      from vc [unfolded visitContainer_array [of h a, OF arr]] obtain vs where
        vs: "arrayDataValues (h a) None = Inr vs" "a \<notin> active" "int (length vs) \<le> maxArrayLength L"
          "b + int (2 + (length vs - 1)) \<le> maxCanonicalBytes L"
        and r': "r = (map (\<lambda>w. Visit w (depth + 1)) vs @ [Leave a], insert a active,
            b + int (2 + (length vs - 1)))" by blast
      from w r' have "walk h L (map (\<lambda>w. Visit w (depth + 1)) vs @ Leave a # frames) (insert a active)
          (n + 1) (max d depth) (b + int (2 + (length vs - 1))) = Inr m" by simp
      from walk_sound_list [of n h L "depth + 1" "insert a active", OF IH _ lim(1) vs(4) _ this] lim(2)
      obtain ts where ts: "list_all2 (repr h) vs ts"
          "fits_all L (n + 1) (depth + 1) (b + int (2 + (length vs - 1))) ts"
          "resume h L (Leave a # frames) (insert a active) (n + 1) (max d depth)
             (b + int (2 + (length vs - 1))) (depth + 1) ts = Inr m"
        by auto
      have len: "length vs = length ts" using ts(1) by (rule list_all2_lengthD)
      have "repr h v (JArr ts)" unfolding a using arr vs(1) ts(1) by (rule repr_arr)
      moreover have "fits L n depth b (JArr ts)" using vs(3) ts(2) by (simp add: fits_array len)
      moreover have "resume h L frames active n d b depth [JArr ts] = Inr m"
        using ts(3) vs(2) unfolding resume_container
        by (simp add: resume_def len sumn_def sumb_def deepest_def algebra_simps)
      ultimately show ?thesis by blast
    next
      case obj: False
      from vc [unfolded visitContainer_object [of h a, OF obj]] obtain es where
        es: "objectDataEntries (h a) None None = Inr es" "a \<notin> active" "int (length es) \<le> maxObjectKeys L"
          "\<forall>e\<in>set es. int (byteLength (fst e)) \<le> maxStringBytes L"
          "b + int (2 + (length es - 1) + sum_list (map (\<lambda>e. byteLength (jsonQuote (fst e)) + 1) es))
             \<le> maxCanonicalBytes L"
        and r': "r = (map (\<lambda>e. Visit (snd e) (depth + 1)) es @ [Leave a], insert a active,
            b + int (2 + (length es - 1) + sum_list (map (\<lambda>e. byteLength (jsonQuote (fst e)) + 1) es)))"
        by blast
      let ?b = "b + int (2 + (length es - 1) + sum_list (map (\<lambda>e. byteLength (jsonQuote (fst e)) + 1) es))"
      from w r' have "walk h L (map (\<lambda>w. Visit w (depth + 1)) (map snd es) @ Leave a # frames)
          (insert a active) (n + 1) (max d depth) ?b = Inr m" by (simp add: comp_def)
      from walk_sound_list [of n h L "depth + 1" "insert a active", OF IH _ lim(1) es(5) _ this] lim(2)
      obtain ts where ts: "list_all2 (repr h) (map snd es) ts" "fits_all L (n + 1) (depth + 1) ?b ts"
          "resume h L (Leave a # frames) (insert a active) (n + 1) (max d depth) ?b (depth + 1) ts = Inr m"
        by auto
      define kts where "kts = zip (map fst es) ts"
      have len: "length es = length ts" using list_all2_lengthD [OF ts(1)] by simp
      have k: "map fst kts = map fst es" "map snd kts = ts" by (simp_all add: kts_def len)
      have kb: "map (\<lambda>e. byteLength (jsonQuote (fst e)) + 1) kts =
          map (\<lambda>e. byteLength (jsonQuote (fst e)) + 1) es"
        using arg_cong [OF k(1), of "map (\<lambda>k. byteLength (jsonQuote k) + 1)"] by (simp add: comp_def)
      have fk: "fst ` set kts = fst ` set es" by (metis k(1) list.set_map)
      have allk: "(\<forall>e\<in>set kts. P (fst e)) \<longleftrightarrow> (\<forall>e\<in>set es. P (fst e))" for P
      proof -
        have "(\<forall>k\<in>fst ` set kts. P k) \<longleftrightarrow> (\<forall>k\<in>fst ` set es. P k)" by (simp only: fk)
        then show ?thesis by simp
      qed
      have lk: "length kts = length es" by (simp add: kts_def len)
      have "list_all2 (\<lambda>e kt. fst e = fst kt \<and> repr h (snd e) (snd kt)) es kts"
        using ts(1) len by (auto simp: list_all2_conv_all_nth kts_def)
      with obj es(1) have "repr h v (JObj kts)" unfolding a by (rule repr_obj)
      moreover have "fits L n depth b (JObj kts)"
      proof (subst fits_object)
        show "distinct (map fst kts)" "\<forall>e\<in>set kts. supported_key (fst e)"
          unfolding k(1) allk [of supported_key] using objectDataEntries_keys [of h a, OF wf es(1)] by blast+
        show "int (length kts) \<le> maxObjectKeys L \<and>
          (\<forall>e\<in>set kts. int (byteLength (fst e)) \<le> maxStringBytes L) \<and>
          fits_all L (n + 1) (depth + 1)
            (b + int (2 + (length kts - 1) + sum_list (map (\<lambda>e. byteLength (jsonQuote (fst e)) + 1) kts)))
            (map snd kts)"
          unfolding kb k(2) lk allk [of "\<lambda>k. int (byteLength k) \<le> maxStringBytes L"]
          using es(3,4) ts(2) by blast
      qed
      moreover have "resume h L frames active n d b depth [JObj kts] = Inr m"
        using ts(3) es(2) unfolding resume_container
        by (simp add: resume_def object_bytes object_sums k(2) kb [simplified] lk max_absorb1 sums_nonneg
            algebra_simps del: jbytes.simps jnodes.simps jdepth.simps)
      ultimately show ?thesis by blast
    qed
  qed
qed


lemma walk_complete_list:
  assumes IH: "\<And>v t frames n d b. v \<in> set vs \<Longrightarrow> t \<in> set ts \<Longrightarrow> repr h v t \<Longrightarrow> fits L n depth b t \<Longrightarrow>
      walk h L (Visit v depth # frames) active n d b = resume h L frames active n d b depth [t]"
    and "list_all2 (repr h) vs ts" "fits_all L n depth b ts"
  shows "walk h L (map (\<lambda>w. Visit w depth) vs @ frames) active n d b = resume h L frames active n d b depth ts"
  using assms(2,1,3)
proof (induction arbitrary: n d b rule: list_all2_induct)
  case Nil
  then show ?case by (simp add: resume_def)
next
  case (Cons v vs t ts)
  from Cons.prems(2) have f: "fits L n depth b t"
    "fits_all L (n + int (jnodes t)) depth (b + int (jbytes t)) ts"
    by (simp_all add: fits_all_Cons)
  have "walk h L (Visit v depth # map (\<lambda>w. Visit w depth) vs @ frames) active n d b =
      resume h L (map (\<lambda>w. Visit w depth) vs @ frames) active n d b depth [t]"
    using Cons.hyps(1) f(1) by (intro Cons.prems(1)) auto
  also have "\<dots> = walk h L (map (\<lambda>w. Visit w depth) vs @ frames) active (n + int (jnodes t))
       (max d (depth + int (jdepth t) - 1)) (b + int (jbytes t))"
    using jdepth_pos [of t] by (simp add: resume_def)
  also have "\<dots> = resume h L frames active (n + int (jnodes t)) (max d (depth + int (jdepth t) - 1))
       (b + int (jbytes t)) depth ts"
    using f(2) Cons.prems(1) by (intro Cons.IH) auto
  also have "\<dots> = resume h L frames active n d b depth (t # ts)"
    by (subst resume_Cons [symmetric]) (simp only: resume_def)
  finally show ?case by simp
qed

text \<open>An ancestor of a value denotes a larger tree, so it is never met again below itself.\<close>

definition ancestors_larger :: "heap \<Rightarrow> nat set \<Rightarrow> json \<Rightarrow> bool" where
  "ancestors_larger h active t \<longleftrightarrow> (\<forall>a\<in>active. \<forall>t'. repr h (VRef a) t' \<longrightarrow> jnodes t < jnodes t')"

lemma ancestors_larger_child:
  "ancestors_larger h active t \<Longrightarrow> repr h (VRef a) t \<Longrightarrow> jnodes c < jnodes t \<Longrightarrow>
     ancestors_larger h (insert a active) c"
  by (fastforce simp: ancestors_larger_def dest: repr_deterministic)

lemma ancestors_fresh: "ancestors_larger h active t \<Longrightarrow> repr h (VRef a) t \<Longrightarrow> a \<notin> active"
  by (auto simp: ancestors_larger_def)

lemma child_smaller: "c \<in> set ts \<Longrightarrow> jnodes c < jnodes (JArr ts)"
  "c \<in> set (map snd kts) \<Longrightarrow> jnodes c < jnodes (JObj kts)"
proof -
  show "c \<in> set ts \<Longrightarrow> jnodes c < jnodes (JArr ts)"
    using member_le_sum_list [of "jnodes c" "map jnodes ts"] by auto
  show "c \<in> set (map snd kts) \<Longrightarrow> jnodes c < jnodes (JObj kts)"
    using member_le_sum_list [of "jnodes c" "map (\<lambda>(k, v). jnodes v) kts"] by (force simp: split_snd)
qed

lemma list_all2_member: "list_all2 P xs ys \<Longrightarrow> x \<in> set xs \<Longrightarrow> \<exists>y\<in>set ys. P x y"
  by (induction rule: list_all2_induct) auto

lemma walk_complete:
  assumes wf: "wf_heap h"
  shows "repr h v t \<Longrightarrow> fits L n depth b t \<Longrightarrow> ancestors_larger h active t \<Longrightarrow>
    walk h L (Visit v depth # frames) active n d b = resume h L frames active n d b depth [t]"
proof (induction arbitrary: frames active n depth d b rule: repr.induct)
  case (repr_arr a vs ts)
  have "repr h (VRef a) (JArr ts)"
    using repr_arr.hyps repr_arr.IH by (intro repr.repr_arr) (auto elim: list_all2_mono)
  note child = ancestors_larger_child [OF repr_arr.prems(2) this child_smaller(1)]
  have len: "length vs = length ts" using repr_arr.IH by (rule list_all2_lengthD)
  from repr_arr.prems(1) have f: "int (length ts) \<le> maxArrayLength L"
    "fits_all L (n + 1) (depth + 1) (b + int (2 + (length ts - 1))) ts"
    by (simp_all add: fits_array)
  have lim: "n + 1 \<le> maxNodes L" "depth \<le> maxDepth L" "b + int (2 + (length ts - 1)) \<le> maxCanonicalBytes L"
    using f(2) sums_nonneg [of ts] by (auto simp: fits_all_def)
  have "a \<notin> active" using repr_arr.prems(2) \<open>repr h (VRef a) (JArr ts)\<close>
    by (rule ancestors_fresh)
  then have "visitValue h L (VRef a) depth active b =
      Inr (map (\<lambda>w. Visit w (depth + 1)) vs @ [Leave a], insert a active, b + int (2 + (length ts - 1)))"
    using visitContainer_array [of h a L depth active b] repr_arr.hyps f(1) lim(3)
    by (simp add: visitValue_def len)
  then have "walk h L (Visit (VRef a) depth # frames) active n d b =
      walk h L (map (\<lambda>w. Visit w (depth + 1)) vs @ Leave a # frames) (insert a active) (n + 1)
        (max d depth) (b + int (2 + (length ts - 1)))"
    using lim by simp
  also have "\<dots> = resume h L (Leave a # frames) (insert a active) (n + 1) (max d depth)
        (b + int (2 + (length ts - 1))) (depth + 1) ts"
  proof (rule walk_complete_list [OF _ _ f(2)])
    show "list_all2 (repr h) vs ts" using repr_arr.IH by (auto elim: list_all2_mono)
    fix v t frames n d b
    assume "v \<in> set vs" and t: "t \<in> set ts" "repr h v t" "fits L n (depth + 1) b t"
    obtain t' where t': "repr h v t'" and IH: "\<And>frames active n depth d b. fits L n depth b t' \<Longrightarrow>
        ancestors_larger h active t' \<Longrightarrow>
        walk h L (Visit v depth # frames) active n d b = resume h L frames active n d b depth [t']"
      using list_all2_member [OF repr_arr.IH \<open>v \<in> set vs\<close>] by metis
    have "t' = t" by (rule repr_deterministic [OF t' t(2)])
    show "walk h L (Visit v (depth + 1) # frames) (insert a active) n d b =
        resume h L frames (insert a active) n d b (depth + 1) [t]"
      using IH [unfolded \<open>t' = t\<close>, OF t(3) child [OF t(1)]] .
  qed
  also have "\<dots> = resume h L frames active n d b depth [JArr ts]"
    using \<open>a \<notin> active\<close> unfolding resume_container
    by (simp add: resume_def sumn_def sumb_def deepest_def algebra_simps)
  finally show ?case .
next
  case (repr_obj a es kts)
  let ?b = "b + int (2 + (length kts - 1) + sum_list (map (\<lambda>e. byteLength (jsonQuote (fst e)) + 1) kts))"
  have l2: "list_all2 (\<lambda>e kt. fst e = fst kt \<and> repr h (snd e) (snd kt)) es kts"
    using repr_obj.IH by (auto elim: list_all2_mono)
  have r: "repr h (VRef a) (JObj kts)" using repr_obj.hyps l2 by (intro repr.repr_obj) auto
  note child = ancestors_larger_child [OF repr_obj.prems(2) r child_smaller(2)]
  have len: "length es = length kts" using l2 by (rule list_all2_lengthD)
  have keys: "map fst kts = map fst es"
    using l2 by (auto simp: list_all2_conv_all_nth intro: nth_equalityI)
  have allk: "(\<forall>e\<in>set kts. P (fst e)) \<longleftrightarrow> (\<forall>e\<in>set es. P (fst e))" for P
    using arg_cong [OF keys, of "list_all P"] by (simp add: list_all_iff)
  have kb: "map (\<lambda>e. byteLength (jsonQuote (fst e)) + 1) es = map (\<lambda>e. byteLength (jsonQuote (fst e)) + 1) kts"
    using arg_cong [OF keys, of "map (\<lambda>k. byteLength (jsonQuote k) + 1)"] by (simp add: comp_def)
  have dk: "distinct (map fst kts)" "\<forall>e\<in>set kts. supported_key (fst e)"
    unfolding keys allk [of supported_key]
    using objectDataEntries_keys [of h a, OF wf repr_obj.hyps(2)] by blast+
  from repr_obj.prems(1) [unfolded fits_object [OF dk]]
  have f: "int (length kts) \<le> maxObjectKeys L" "\<forall>e\<in>set es. int (byteLength (fst e)) \<le> maxStringBytes L"
    "fits_all L (n + 1) (depth + 1) ?b (map snd kts)"
    unfolding allk [of "\<lambda>k. int (byteLength k) \<le> maxStringBytes L", symmetric] by blast+
  have lim: "n + 1 \<le> maxNodes L" "depth \<le> maxDepth L" "?b \<le> maxCanonicalBytes L"
    using f(3) sums_nonneg [of "map snd kts"] by (auto simp: fits_all_def)
  have "a \<notin> active" using repr_obj.prems(2) r by (rule ancestors_fresh)
  then have "visitContainer h L a depth active b =
      Inr (map (\<lambda>e. Visit (snd e) (depth + 1)) es @ [Leave a], insert a active, ?b)"
    unfolding visitContainer_object [of h a, OF repr_obj.hyps(1)] kb len
    using repr_obj.hyps(2) f(1,2) lim(3) len kb by auto
  then have "walk h L (Visit (VRef a) depth # frames) active n d b =
      walk h L (map (\<lambda>w. Visit w (depth + 1)) (map snd es) @ Leave a # frames) (insert a active) (n + 1)
        (max d depth) ?b"
    using lim by (simp add: visitValue_def comp_def)
  also have "\<dots> = resume h L (Leave a # frames) (insert a active) (n + 1) (max d depth) ?b
      (depth + 1) (map snd kts)"
  proof (rule walk_complete_list [OF _ _ f(3)])
    show "list_all2 (repr h) (map snd es) (map snd kts)"
      using l2 by (auto simp: list_all2_conv_all_nth)
    fix v t frames n d b
    assume "v \<in> set (map snd es)" and t: "t \<in> set (map snd kts)" "repr h v t" "fits L n (depth + 1) b t"
    then obtain e where e: "e \<in> set es" "v = snd e" by auto
    obtain t' where t': "repr h v t'" and IH: "\<And>frames active n depth d b. fits L n depth b t' \<Longrightarrow>
        ancestors_larger h active t' \<Longrightarrow>
        walk h L (Visit v depth # frames) active n d b = resume h L frames active n d b depth [t']"
      using list_all2_member [OF repr_obj.IH e(1)] unfolding e(2) by metis
    have "t' = t" by (rule repr_deterministic [OF t' t(2)])
    show "walk h L (Visit v (depth + 1) # frames) (insert a active) n d b =
        resume h L frames (insert a active) n d b (depth + 1) [t]"
      using IH [unfolded \<open>t' = t\<close>, OF t(3) child [OF t(1)]] .
  qed
  also have "\<dots> = resume h L frames active n d b depth [JObj kts]"
    using \<open>a \<notin> active\<close> unfolding resume_container
    by (simp add: resume_def object_bytes object_sums max_absorb1 sums_nonneg algebra_simps
        del: jbytes.simps jnodes.simps jdepth.simps)
  finally show ?case .
qed (auto simp: resume_def fits_leaf visitValue_def addCanonicalBytes_def scalar_def isOk_iff algebra_simps)


lemma fits_root: "fits L 0 1 0 t \<longleftrightarrow> within_limits L t"
  by (auto simp: fits_def within_limits_def)

lemma resume_root: "resume h L [] {} 0 0 0 1 [t] = Inr (metrics t)"
  using jdepth_pos [of t] by (simp add: resume_def metrics_def)

theorem assertJsonWithinLimits_iff:
  assumes "wf_heap h"
  shows "assertJsonWithinLimits h v L = Inr m \<longleftrightarrow>
    (\<exists>t. repr h v t \<and> checkJson L t = Inr m)"
proof
  assume "assertJsonWithinLimits h v L = Inr m"
  then have L: "assertJsonLimits L" and w: "walk h L [Visit v 1] {} 0 0 0 = Inr m"
    by (auto simp: assertJsonWithinLimits_def split: if_splits)
  from walk_sound [OF assms w] obtain t where "repr h v t" "fits L 0 1 0 t"
    "resume h L [] {} 0 0 0 1 [t] = Inr m" by blast
  with L show "\<exists>t. repr h v t \<and> checkJson L t = Inr m"
    by (auto simp: fits_root resume_root checkJson_Inr)
next
  assume "\<exists>t. repr h v t \<and> checkJson L t = Inr m"
  then obtain t where "repr h v t" "assertJsonLimits L" "fits L 0 1 0 t" "m = metrics t"
    by (auto simp: fits_root checkJson_Inr)
  moreover have "ancestors_larger h {} t" by (simp add: ancestors_larger_def)
  ultimately show "assertJsonWithinLimits h v L = Inr m"
    using walk_complete [OF assms, of v t L 0 1 0 "{}" "[]" 0]
    by (simp add: assertJsonWithinLimits_def resume_root)
qed


section \<open>Canonical encoding of inert data\<close>

text \<open>The encoding recurses once per nesting level: a stack of \<open>jdepth t\<close> frames is enough, and needed.\<close>

lemma list_all2_image:
  "list_all2 (\<lambda>x y. \<exists>z. P x z \<and> y = f z) xs ys \<longleftrightarrow> (\<exists>zs. list_all2 P xs zs \<and> ys = map f zs)"
proof (induction xs arbitrary: ys)
  case (Cons x xs)
  show ?case
    by (cases ys) (auto simp: Cons.IH list_all2_Cons1, (metis list.simps(9))+)
qed (auto simp: list_all2_Nil)

lemma jdepth_container: "jdepth (JArr ts) \<le> Suc n \<longleftrightarrow> (\<forall>t\<in>set ts. jdepth t \<le> n)"
  "jdepth (JObj kts) \<le> Suc n \<longleftrightarrow> (\<forall>e\<in>set kts. jdepth (snd e) \<le> n)"
proof -
  have max: "fold max xs (0::nat) \<le> n \<longleftrightarrow> (\<forall>x\<in>set xs. x \<le> n)" for xs
    using Max.set_eq_fold [of 0 xs] by (metis Max_le_iff List.finite_set empty_iff insert_iff le0 list.set(2) list.distinct(1) set_empty)
  show "jdepth (JArr ts) \<le> Suc n \<longleftrightarrow> (\<forall>t\<in>set ts. jdepth t \<le> n)"
    "jdepth (JObj kts) \<le> Suc n \<longleftrightarrow> (\<forall>e\<in>set kts. jdepth (snd e) \<le> n)"
    by (auto simp: max)
qed

lemma valid_json_JObj:
  "distinct (map fst kts) \<Longrightarrow> \<forall>e\<in>set kts. supported_key (fst e) \<Longrightarrow>
     valid_json (JObj kts) \<longleftrightarrow> (\<forall>e\<in>set kts. valid_json (snd e))"
  by (auto simp: list_all_iff)

lemma canon_sorted_object:
  "sorted (map fst kts) \<Longrightarrow>
     canon (JObj kts) = 123 # joinComma (map (\<lambda>e. jsonQuote (fst e) @ 58 # canon (snd e)) kts) @ [125]"
  by (simp add: canon_JObj sorted_sort_id [symmetric] sort_key_id_if_sorted entry_text_def comp_def split_def)

lemma encode_array_iff:
  assumes IH: "\<And>v s. encode h n v = Inr s \<longleftrightarrow> (\<exists>t. repr h v t \<and> valid_json t \<and> jdepth t \<le> n \<and> s = canon t)"
    and arr: "isArray (h a)"
  shows "encode h (Suc n) (VRef a) = Inr s \<longleftrightarrow>
    (\<exists>t. repr h (VRef a) t \<and> valid_json t \<and> jdepth t \<le> Suc n \<and> s = canon t)"
proof -
  let ?P = "\<lambda>v t. repr h v t \<and> valid_json t \<and> jdepth t \<le> n"
  have r: "repr h (VRef a) t \<longleftrightarrow> (\<exists>vs ts. t = JArr ts \<and> arrayDataValues (h a) None = Inr vs \<and>
      list_all2 (repr h) vs ts)" for t
    using arr by (auto elim: repr_refE intro: repr_arr)
  have all: "list_all2 ?P vs ts \<longleftrightarrow> list_all2 (repr h) vs ts \<and> valid_json (JArr ts) \<and> jdepth (JArr ts) \<le> Suc n"
    for vs ts
    unfolding jdepth_container by (auto simp: list_all2_conv_all_nth list_all_length all_set_conv_all_nth)
  have m: "mapR (encode h n) vs = Inr es \<longleftrightarrow> (\<exists>ts. list_all2 ?P vs ts \<and> es = map canon ts)" for vs es
    using list_all2_image [of ?P canon vs es] by (simp add: mapR_eq_Inr IH)
  have "encode h (Suc n) (VRef a) = Inr s \<longleftrightarrow>
    (\<exists>vs. arrayDataValues (h a) None = Inr vs \<and>
      (\<exists>es. mapR (encode h n) vs = Inr es \<and> s = 91 # joinComma es @ [93]))"
    using arr by (auto simp: assertPlainDataContainer_def result_simps dest: containers_not_proxy)
  also have "\<dots> \<longleftrightarrow> (\<exists>t. repr h (VRef a) t \<and> valid_json t \<and> jdepth t \<le> Suc n \<and> s = canon t)"
    unfolding m all r canon.simps(5) [symmetric] by (metis canon.simps(5))
  finally show ?thesis .
qed

lemma encode_object_iff:
  assumes wf: "wf_heap h"
    and IH: "\<And>v s. encode h n v = Inr s \<longleftrightarrow> (\<exists>t. repr h v t \<and> valid_json t \<and> jdepth t \<le> n \<and> s = canon t)"
    and obj: "\<not> isArray (h a)"
  shows "encode h (Suc n) (VRef a) = Inr s \<longleftrightarrow>
    (\<exists>t. repr h (VRef a) t \<and> valid_json t \<and> jdepth t \<le> Suc n \<and> s = canon t)"
proof -
  let ?R = "\<lambda>e kt. fst e = fst kt \<and> repr h (snd e) (snd kt)"
  let ?P = "\<lambda>e kt. fst e = fst kt \<and> repr h (snd e) (snd kt) \<and> valid_json (snd kt) \<and> jdepth (snd kt) \<le> n"
  let ?text = "\<lambda>kt. jsonQuote (fst kt) @ 58 # canon (snd kt)"
  let ?enc = "\<lambda>e. bindR (encode h n (snd e)) (\<lambda>t. Inr (jsonQuote (fst e) @ 58 # t))"
  have r: "repr h (VRef a) t \<longleftrightarrow> (\<exists>es kts. t = JObj kts \<and> objectDataEntries (h a) None None = Inr es \<and>
      list_all2 ?R es kts)" for t
    using obj by (auto elim: repr_refE intro: repr_obj)
  have e: "?enc e = Inr u \<longleftrightarrow> (\<exists>kt. ?P e kt \<and> u = ?text kt)" for e u
    by (auto simp: result_simps IH)
  have m: "mapR ?enc es = Inr us \<longleftrightarrow> (\<exists>kts. list_all2 ?P es kts \<and> us = map ?text kts)" for es us
    unfolding mapR_eq_Inr e by (rule list_all2_image)
  have all: "list_all2 ?P es kts \<longleftrightarrow>
      list_all2 ?R es kts \<and> valid_json (JObj kts) \<and> jdepth (JObj kts) \<le> Suc n"
    and canonical: "list_all2 ?P es kts \<Longrightarrow> canon (JObj kts) = 123 # joinComma (map ?text kts) @ [125]"
    if es: "objectDataEntries (h a) None None = Inr es" for es kts
  proof -
    note k = objectDataEntries_keys [OF wf es]
    have keys: "map fst kts = map fst es" if "list_all2 ?R es kts"
      using that by (auto simp: list_all2_conv_all_nth intro: nth_equalityI)
    have sup: "\<forall>e\<in>set kts. supported_key (fst e)" if "list_all2 ?R es kts"
      using k arg_cong [OF keys [OF that], of "list_all supported_key"] by (simp add: list_all_iff)
    have split: "list_all2 ?P es kts \<longleftrightarrow>
        list_all2 ?R es kts \<and> (\<forall>e\<in>set kts. valid_json (snd e)) \<and> jdepth (JObj kts) \<le> Suc n"
      unfolding jdepth_container by (auto simp: list_all2_conv_all_nth all_set_conv_all_nth)
    have "valid_json (JObj kts) \<longleftrightarrow> (\<forall>e\<in>set kts. valid_json (snd e))" if "list_all2 ?R es kts"
      using k keys [OF that] sup [OF that] by (intro valid_json_JObj) auto
    with split show "list_all2 ?P es kts \<longleftrightarrow>
      list_all2 ?R es kts \<and> valid_json (JObj kts) \<and> jdepth (JObj kts) \<le> Suc n" by blast
    show "canon (JObj kts) = 123 # joinComma (map ?text kts) @ [125]" if "list_all2 ?P es kts"
      using k keys split that by (intro canon_sorted_object) auto
  qed
  have "encode h (Suc n) (VRef a) = Inr s \<longleftrightarrow>
    (\<exists>es. objectDataEntries (h a) None None = Inr es \<and>
      (\<exists>us. mapR ?enc es = Inr us \<and> s = 123 # joinComma us @ [125]))"
    using obj by (auto simp: assertPlainDataContainer_def result_simps dest: containers_not_proxy)
  also have "\<dots> \<longleftrightarrow> (\<exists>es kts. objectDataEntries (h a) None None = Inr es \<and> list_all2 ?P es kts \<and>
      s = canon (JObj kts))"
    unfolding m using canonical by (metis (no_types, lifting))
  also have "\<dots> \<longleftrightarrow> (\<exists>t. repr h (VRef a) t \<and> valid_json t \<and> jdepth t \<le> Suc n \<and> s = canon t)"
    unfolding r using all by (metis (no_types, lifting))
  finally show ?thesis .
qed

lemma encode_iff:
  assumes wf: "wf_heap h"
  shows "encode h n v = Inr s \<longleftrightarrow> (\<exists>t. repr h v t \<and> valid_json t \<and> jdepth t \<le> n \<and> s = canon t)"
proof (induction n arbitrary: v s)
  case 0
  show ?case using jdepth_pos by (auto simp: not_le)
next
  case (Suc n)
  show ?case
  proof (cases v)
    case (VRef a)
    then show ?thesis
      using encode_array_iff [of h n a s, OF Suc.IH] encode_object_iff [of h n a s, OF wf Suc.IH] by blast
  qed (auto simp: scalar_def isOk_iff result_simps)
qed

declare js_simps [simp del]

end
