(* ===== verification/Schema.thy ===== *)
theory Schema
  imports JsonParse
begin

text \<open>
  The zod schemas the code declares, as data, and what zod documents about them.

  \<open>schema\<close> has one constructor per combinator the sources use. \<open>conforms\<close> is the
  documented meaning of a schema; it is not assumed of the zod package here but enters as the
  law of the environment in \<^verbatim>\<open>NodeEnv.thy\<close>. \<open>schema_fields\<close> collects the field names of
  a schema, which the guard \<open>assertSchemaPrototypeSafety\<close> has to cover.

  The second half is the bridge between a schema-checked tree and the typed record the code
  casts it to: field readers, field writers, and \<open>project\<close>, the object rebuilt from the
  fields of a schema. \<open>norm_project\<close> says that a strict schema loses nothing: rebuilding an
  accepted object gives the object back, up to key order.
\<close>

section \<open>Schemas\<close>

datatype schema =
    ZString "jsstring \<Rightarrow> bool"
  | ZInt "int \<Rightarrow> bool"
  | ZBoolean
  | ZNull
  | ZUnknown
  | ZLitStr jsstring
  | ZLitInt int
  | ZEnum "jsstring list"
  | ZNullable schema
  | ZJsonObject
  | ZArray nat schema
  | ZObject "(jsstring \<times> bool \<times> schema) list"
  | ZUnion "schema list"
  | ZRefine schema "(jsstring \<Rightarrow> jsstring) \<Rightarrow> bool"

definition strF :: "json \<Rightarrow> jsstring \<Rightarrow> jsstring" where
  "strF v k = (case jget v k of Some (JStr s) \<Rightarrow> s | _ \<Rightarrow> [])"

fun conforms :: "schema \<Rightarrow> json \<Rightarrow> bool" where
  "conforms (ZString p) v = (case v of JStr s \<Rightarrow> p s | _ \<Rightarrow> False)"
| "conforms (ZInt p) v = (case v of JNum (NInt n) \<Rightarrow> isSafeInteger n \<and> p n | _ \<Rightarrow> False)"
| "conforms ZBoolean v = (case v of JBool b \<Rightarrow> True | _ \<Rightarrow> False)"
| "conforms ZNull v = (v = JNull)"
| "conforms ZUnknown v = True"
| "conforms (ZLitStr s) v = (v = JStr s)"
| "conforms (ZLitInt n) v = (v = JNum (NInt n))"
| "conforms (ZEnum ss) v = (case v of JStr s \<Rightarrow> s \<in> set ss | _ \<Rightarrow> False)"
| "conforms (ZNullable z) v = (v = JNull \<or> conforms z v)"
| "conforms ZJsonObject v = (case v of JObj kvs \<Rightarrow> True | _ \<Rightarrow> False)"
| "conforms (ZArray m z) v = (case v of JArr vs \<Rightarrow> length vs \<le> m \<and> list_all (conforms z) vs | _ \<Rightarrow> False)"
| "conforms (ZObject fs) v =
     (case v of
        JObj kvs \<Rightarrow>
          list_all (\<lambda>kv. fst kv \<in> set (map fst fs)) kvs \<and>
          list_all (\<lambda>(k, required, z).
            case map_of kvs k of None \<Rightarrow> \<not> required | Some w \<Rightarrow> conforms z w) fs
      | _ \<Rightarrow> False)"
| "conforms (ZUnion zs) v = list_ex (\<lambda>z. conforms z v) zs"
| "conforms (ZRefine z p) v = (conforms z v \<and> p (strF v))"

fun schema_fields :: "schema \<Rightarrow> jsstring list" where
  "schema_fields (ZNullable z) = schema_fields z"
| "schema_fields (ZArray m z) = schema_fields z"
| "schema_fields (ZObject fs) = concat (map (\<lambda>(k, required, z). k # schema_fields z) fs)"
| "schema_fields (ZUnion zs) = concat (map schema_fields zs)"
| "schema_fields (ZRefine z p) = schema_fields z"
| "schema_fields z = []"

text \<open>
  Shorthands for declaring object shapes: a required field, and a field that may be absent. A field of
  type \<open>z.unknown()\<close> accepts \<open>undefined\<close>, hence an absent key.
\<close>

definition req :: "string \<Rightarrow> schema \<Rightarrow> jsstring \<times> bool \<times> schema" where
  "req k z = (js k, True, z)"

definition opt :: "string \<Rightarrow> schema \<Rightarrow> jsstring \<times> bool \<times> schema" where
  "opt k z = (js k, False, z)"

text \<open>String checks the schemas share.\<close>

definition is_hex :: "16 word \<Rightarrow> bool" where
  "is_hex c \<longleftrightarrow> is_digit c \<or> (97 \<le> c \<and> c \<le> 102)"

definition hash64 :: "jsstring \<Rightarrow> bool" where
  "hash64 s \<longleftrightarrow> length s = 64 \<and> list_all is_hex s"

definition bounded_id :: "jsstring \<Rightarrow> bool" where
  "bounded_id s \<longleftrightarrow> 1 \<le> length s \<and> length s \<le> 512"

definition positive_decimal :: "jsstring \<Rightarrow> bool" where
  "positive_decimal s \<longleftrightarrow> s \<noteq> [] \<and> hd s \<noteq> 48 \<and> list_all is_digit s"

definition nonnegative_decimal :: "jsstring \<Rightarrow> bool" where
  "nonnegative_decimal s \<longleftrightarrow> s = js ''0'' \<or> positive_decimal s"

definition zHash :: schema where "zHash = ZString hash64"
definition zId :: schema where "zId = ZString bounded_id"
definition zNat :: schema where "zNat = ZInt (\<lambda>n. 0 \<le> n)"
definition zPositiveDecimal :: schema where "zPositiveDecimal = ZString positive_decimal"
definition zNonnegativeDecimal :: schema where "zNonnegativeDecimal = ZString nonnegative_decimal"

lemmas schema_defs = req_def opt_def zHash_def zId_def zNat_def zPositiveDecimal_def zNonnegativeDecimal_def


section \<open>A schema does not see key order\<close>

lemma norm_leaf [simp]:
  "norm v = JNull \<longleftrightarrow> v = JNull"
  "norm v = JBool b \<longleftrightarrow> v = JBool b"
  "norm v = JNum n \<longleftrightarrow> v = JNum n"
  "norm v = JStr s \<longleftrightarrow> v = JStr s"
  by (cases v; auto)+

lemma strF_norm [simp]: "valid_json v \<Longrightarrow> strF (norm v) k = strF v k"
  by (auto simp: strF_def jget_norm split: option.splits json.splits)

lemma map_of_valid: "map_of kvs k = Some w \<Longrightarrow> valid_json (JObj kvs) \<Longrightarrow> valid_json w"
  by (auto simp: list_all_iff dest: map_of_SomeD)

lemma jget_valid: "jget v k = Some w \<Longrightarrow> valid_json v \<Longrightarrow> valid_json w"
  by (auto simp: jget_def map_of_valid simp del: valid_json.simps split: json.splits)

lemma conforms_ZObject:
  "conforms (ZObject fs) v \<longleftrightarrow>
     (\<exists>kvs. v = JObj kvs \<and> fst ` set kvs \<subseteq> set (map fst fs)) \<and>
     (\<forall>(k, required, z) \<in> set fs. case jget v k of None \<Rightarrow> \<not> required | Some w \<Rightarrow> conforms z w)"
  by (cases v) (auto simp: list_all_iff jget_def split: option.splits)

lemma conforms_norm: "valid_json v \<Longrightarrow> conforms z (norm v) = conforms z v"
proof (induction z v rule: conforms.induct)
  case (11 m z v)
  then show ?case by (cases v) (auto simp: list_all_iff)
next
  case (12 fs v)
  show ?case
  proof (cases v)
    case (JObj kvs)
    have IH: "conforms z (norm w) = conforms z w"
      if "(k, required, z) \<in> set fs" "jget v k = Some w" for k required z w
    proof -
      have w: "map_of kvs k = Some w" "valid_json w"
        using that(2) jget_valid [OF that(2) 12(2)] by (simp_all add: jget_def JObj)
      show ?thesis using 12(1) [OF JObj that(1) refl refl w(1)] w(2) by simp
    qed
    have keys: "fst ` set (sort_key fst (map (\<lambda>(k, v). (k, norm v)) kvs)) = fst ` set kvs"
      by force
    have "(case jget (norm v) k of None \<Rightarrow> \<not> required | Some w \<Rightarrow> conforms z w) =
        (case jget v k of None \<Rightarrow> \<not> required | Some w \<Rightarrow> conforms z w)"
      if "(k, required, z) \<in> set fs" for k required z
      using IH [OF that] 12(2) by (auto simp: jget_norm split: option.splits)
    then show ?thesis
      unfolding conforms_ZObject using keys JObj by auto
  qed auto
next
  case (14 z p v)
  then show ?case by (simp add: strF_norm [THEN ext])
qed (auto simp: list_ex_iff split: json.splits jsnum.splits)

lemma conforms_cong: "norm v = norm w \<Longrightarrow> valid_json v \<Longrightarrow> valid_json w \<Longrightarrow> conforms z v = conforms z w"
  by (metis conforms_norm)


section \<open>Reading and rebuilding objects\<close>

definition jint :: "int \<Rightarrow> json" where
  "jint n = JNum (NInt n)"

definition jnull :: "('a \<Rightarrow> json) \<Rightarrow> 'a option \<Rightarrow> json" where
  "jnull f x = (case x of None \<Rightarrow> JNull | Some y \<Rightarrow> f y)"

definition field :: "string \<Rightarrow> json \<Rightarrow> (jsstring \<times> json) list" where
  "field k v = [(js k, v)]"

definition optField :: "string \<Rightarrow> ('a \<Rightarrow> json) \<Rightarrow> 'a option \<Rightarrow> (jsstring \<times> json) list" where
  "optField k f x = (case x of None \<Rightarrow> [] | Some y \<Rightarrow> [(js k, f y)])"

definition getStr :: "json \<Rightarrow> string \<Rightarrow> jsstring" where
  "getStr v k = strF v (js k)"

definition getInt :: "json \<Rightarrow> string \<Rightarrow> int" where
  "getInt v k = (case jget v (js k) of Some (JNum (NInt n)) \<Rightarrow> n | _ \<Rightarrow> 0)"

definition getBool :: "json \<Rightarrow> string \<Rightarrow> bool" where
  "getBool v k = (jget v (js k) = Some (JBool True))"

definition getStrOpt :: "json \<Rightarrow> string \<Rightarrow> jsstring option" where
  "getStrOpt v k = (case jget v (js k) of Some (JStr s) \<Rightarrow> Some s | _ \<Rightarrow> None)"

definition getIntOpt :: "json \<Rightarrow> string \<Rightarrow> int option" where
  "getIntOpt v k = (case jget v (js k) of Some (JNum (NInt n)) \<Rightarrow> Some n | _ \<Rightarrow> None)"

text \<open>A property read; an absent key yields \<open>undefined\<close>, which every later check refuses.\<close>

definition getJson :: "json \<Rightarrow> string \<Rightarrow> json" where
  "getJson v k = (case jget v (js k) of Some w \<Rightarrow> w | None \<Rightarrow> JNum NOther)"

definition getArr :: "json \<Rightarrow> string \<Rightarrow> json list" where
  "getArr v k = (case jget v (js k) of Some (JArr vs) \<Rightarrow> vs | _ \<Rightarrow> [])"

definition project :: "jsstring list \<Rightarrow> json \<Rightarrow> (jsstring \<times> json) list" where
  "project ks v = concat (map (\<lambda>k. case jget v k of None \<Rightarrow> [] | Some w \<Rightarrow> [(k, w)]) ks)"

lemma project_simps [simp]:
  "project [] v = []"
  "project (k # ks) v = (case jget v k of None \<Rightarrow> [] | Some w \<Rightarrow> [(k, w)]) @ project ks v"
  by (simp_all add: project_def)

lemma set_project: "set (project ks v) = {(k, w). k \<in> set ks \<and> jget v k = Some w}"
  by (induction ks) (auto split: option.splits)

lemma distinct_project: "distinct ks \<Longrightarrow> distinct (map fst (project ks v))"
proof (induction ks)
  case (Cons k ks)
  have "fst ` set (project ks v) \<subseteq> set ks" by (auto simp: set_project)
  with Cons show ?case by (auto split: option.splits)
qed simp

lemma norm_project:
  assumes "valid_json v" "conforms (ZObject fs) v" "distinct ks" "set ks = set (map fst fs)"
  shows "norm (JObj (project ks v)) = norm v"
proof -
  from assms(2) obtain kvs where v: "v = JObj kvs" and keys: "fst ` set kvs \<subseteq> set ks"
    unfolding conforms_ZObject assms(4) by blast
  from assms(1) v have d: "distinct (map fst kvs)" by simp
  have "(k, w) \<in> set (project ks v) \<longleftrightarrow> (k, w) \<in> set kvs" for k w
    using subsetD [OF keys, of k] map_of_eq_Some_iff [OF d, of k w] imageI [of "(k, w)" "set kvs" fst]
    by (auto simp: set_project v jget_def)
  then have "set (project ks v) = set kvs" by auto
  then show ?thesis
    unfolding v by (intro norm_obj_eqI distinct_project d assms(3)) (simp_all add: v)
qed

lemma norm_obj_cong: "map (apsnd norm) kvs = map (apsnd norm) kvs' \<Longrightarrow> norm (JObj kvs) = norm (JObj kvs')"
  by (simp add: split_apsnd)

lemma norm_rebuild:
  assumes "valid_json v" "conforms (ZObject fs) v" "distinct ks" "set ks = set (map fst fs)"
    and "map (apsnd norm) kvs = map (apsnd norm) (project ks v)"
  shows "norm (JObj kvs) = norm v"
  using norm_project [OF assms(1-4)] norm_obj_cong [OF assms(5)] by simp

lemma getStr_norm [simp]: "valid_json v \<Longrightarrow> getStr (norm v) k = getStr v k"
  and getInt_norm [simp]: "valid_json v \<Longrightarrow> getInt (norm v) k = getInt v k"
  and getBool_norm [simp]: "valid_json v \<Longrightarrow> getBool (norm v) k = getBool v k"
  and getStrOpt_norm [simp]: "valid_json v \<Longrightarrow> getStrOpt (norm v) k = getStrOpt v k"
  and getIntOpt_norm [simp]: "valid_json v \<Longrightarrow> getIntOpt (norm v) k = getIntOpt v k"
  and getJson_norm [simp]: "valid_json v \<Longrightarrow> getJson (norm v) k = norm (getJson v k)"
  and getArr_norm [simp]: "valid_json v \<Longrightarrow> getArr (norm v) k = map norm (getArr v k)"
  by (auto simp: getStr_def getInt_def getBool_def getStrOpt_def getIntOpt_def getJson_def getArr_def
      jget_norm split: option.splits json.splits jsnum.splits)

lemma getJson_valid: "valid_json v \<Longrightarrow> jget v (js k) \<noteq> None \<Longrightarrow> valid_json (getJson v k)"
  by (auto simp: getJson_def dest: jget_valid)

text \<open>Looking up a field of a rendering.\<close>

lemma jget_field [simp]:
  "jget (JObj (field k v @ r)) (js k') = (if k = k' then Some v else jget (JObj r) (js k'))"
  "jget (JObj (field k v)) (js k') = (if k = k' then Some v else None)"
  "jget (JObj (optField k f x @ r)) (js k') =
     (if k = k' \<and> x \<noteq> None then map_option f x else jget (JObj r) (js k'))"
  "jget (JObj (optField k f x)) (js k') = (if k = k' then map_option f x else None)"
  "jget (JObj []) (js k') = None"
  by (auto simp: jget_def field_def optField_def split: option.splits)

lemma field_list_simps [simp]:
  "set (field k v) = {(js k, v)}" "map f (field k v) = [f (js k, v)]"
  "list_all P (field k v) = P (js k, v)" "sum_list (map g (field k v)) = (g (js k, v) :: nat)"
  "length (field k v) = 1"
  by (simp_all add: field_def)

lemma of_char_ascii: "unat (of_char c :: 16 word) < 256"
proof -
  have "(of_char c :: 16 word) = of_nat (of_char c)" by (metis of_nat_of_char)
  then have "unat (of_char c :: 16 word) = of_char c mod 65536" by (simp add: unat_of_nat)
  also have "\<dots> \<le> of_char c" by (rule mod_less_eq_dividend)
  also have "\<dots> < 256" by (rule nat_of_char_less_256)
  finally show ?thesis .
qed

lemma scalar_js [simp]: "scalar (js s)"
proof (rule well_formed_scalar, rule well_formed_units)
  fix u
  assume "u \<in> set (js s)"
  then obtain c where "u = of_char c" by (auto simp: js_def)
  with of_char_ascii [of c] show "\<not> is_high u \<and> \<not> is_low u"
    by (simp add: high_bounds low_bounds)
qed

lemma supported_key_js [simp]: "supported_key (js k) \<longleftrightarrow> k \<noteq> ''__proto__''"
  by (simp add: supported_key_def proto_key_def)

lemma valid_jint [simp]: "valid_json (jint n) = isSafeInteger n"
  by (simp add: jint_def)

lemma optField_simps [simp]: "optField k f None = []" "optField k f (Some y) = field k (f y)"
  by (simp_all add: optField_def field_def)

lemma jnull_simps [simp]: "jnull f None = JNull" "jnull f (Some y) = f y"
  by (simp_all add: jnull_def)

lemma getJson_valid_eq: "valid_json v \<Longrightarrow> strF (norm (getJson v k)) k' = strF (getJson v k) k'"
  by (cases "jget v (js k)") (auto simp: getJson_def dest: jget_valid)

lemmas reader_defs = getStr_def getInt_def getBool_def getStrOpt_def getIntOpt_def getJson_def getArr_def strF_def

text \<open>
  What a checked field reads as: for each kind of field, conformance says that the typed reader
  returns the field's value and that the value passes the field's own check.
\<close>

definition hasOnly :: "json \<Rightarrow> jsstring list \<Rightarrow> bool" where
  "hasOnly v ks \<longleftrightarrow> (\<exists>kvs. v = JObj kvs \<and> fst ` set kvs \<subseteq> set ks)"

definition fieldOk :: "json \<Rightarrow> jsstring \<times> bool \<times> schema \<Rightarrow> bool" where
  "fieldOk v f \<longleftrightarrow> (case jget v (fst f) of None \<Rightarrow> \<not> fst (snd f) | Some w \<Rightarrow> conforms (snd (snd f)) w)"

lemma conforms_shape: "conforms (ZObject fs) v \<longleftrightarrow> hasOnly v (map fst fs) \<and> list_all (fieldOk v) fs"
  unfolding conforms_ZObject hasOnly_def fieldOk_def by (simp add: list_all_iff split_def)

lemma hasOnly_JObj: "hasOnly (JObj kvs) ks \<longleftrightarrow> list_all (\<lambda>e. fst e \<in> set ks) kvs"
  by (auto simp: hasOnly_def list_all_iff)

lemma fieldOk_simps:
  "fieldOk v (req k (ZString p)) \<longleftrightarrow> jget v (js k) = Some (JStr (getStr v k)) \<and> p (getStr v k)"
  "fieldOk v (req k (ZInt q)) \<longleftrightarrow>
     jget v (js k) = Some (jint (getInt v k)) \<and> isSafeInteger (getInt v k) \<and> q (getInt v k)"
  "fieldOk v (req k ZBoolean) \<longleftrightarrow> jget v (js k) = Some (JBool (getBool v k))"
  "fieldOk v (req k ZNull) \<longleftrightarrow> jget v (js k) = Some JNull \<and> getStrOpt v k = None \<and> getIntOpt v k = None"
  "fieldOk v (req k (ZLitStr t)) \<longleftrightarrow> jget v (js k) = Some (JStr t) \<and> getStr v k = t"
  "fieldOk v (req k (ZLitInt n)) \<longleftrightarrow> jget v (js k) = Some (jint n) \<and> getInt v k = n"
  "fieldOk v (req k (ZEnum ss)) \<longleftrightarrow> jget v (js k) = Some (JStr (getStr v k)) \<and> getStr v k \<in> set ss"
  "fieldOk v (req k (ZNullable (ZString p))) \<longleftrightarrow>
     jget v (js k) = Some (jnull JStr (getStrOpt v k)) \<and> pred_option p (getStrOpt v k)"
  "fieldOk v (req k (ZNullable (ZInt q))) \<longleftrightarrow>
     jget v (js k) = Some (jnull jint (getIntOpt v k)) \<and>
     pred_option (\<lambda>n. isSafeInteger n \<and> q n) (getIntOpt v k)"
  "fieldOk v (req k ZJsonObject) \<longleftrightarrow> jget v (js k) = Some (getJson v k) \<and> conforms ZJsonObject (getJson v k)"
  "fieldOk v (req k (ZObject fs)) \<longleftrightarrow> jget v (js k) = Some (getJson v k) \<and> conforms (ZObject fs) (getJson v k)"
  "fieldOk v (req k (ZRefine z c)) \<longleftrightarrow> jget v (js k) = Some (getJson v k) \<and> conforms (ZRefine z c) (getJson v k)"
  "fieldOk v (req k (ZArray m z)) \<longleftrightarrow>
     jget v (js k) = Some (JArr (getArr v k)) \<and> length (getArr v k) \<le> m \<and> list_all (conforms z) (getArr v k)"
  "fieldOk v (opt k (ZString p)) \<longleftrightarrow>
     jget v (js k) = map_option JStr (getStrOpt v k) \<and> pred_option p (getStrOpt v k)"
  "fieldOk v (opt k ZUnknown) \<longleftrightarrow> True"
  by (auto simp: fieldOk_def req_def opt_def reader_defs jint_def jnull_def
      simp del: conforms.simps(10,12,14) split: option.splits json.splits jsnum.splits)

lemma present_reads:
  "jget v (js k) = Some (JStr s) \<Longrightarrow> getStrOpt v k = Some s"
  "jget v (js k) = Some (jint n) \<Longrightarrow> getIntOpt v k = Some n"
  by (simp_all add: getStrOpt_def getIntOpt_def jint_def)

lemmas check_simps = conforms_shape fieldOk_simps

lemma js_names: "fst (req k z) = js k" "fst (opt k z) = js k"
  by (simp_all add: req_def opt_def)

end
