(* ===== verification/BigInt.thy ===== *)
theory BigInt
  imports Schema
begin

text \<open>
  \<open>BigInt(s)\<close> on a string, the way positions, versions and sequence numbers are read back. The
  grammar is that of the language: surrounding white space, an optionally signed decimal literal,
  an unsigned hexadecimal, octal or binary literal, or nothing at all (zero).

  What is shown: on the canonical decimals the schemas admit, reading and \<open>toString\<close> are inverse
  to each other, so a canonical decimal string is the same thing as a natural number.
\<close>

definition is_js_space :: "16 word \<Rightarrow> bool" where
  "is_js_space c \<longleftrightarrow> (9 \<le> c \<and> c \<le> 13) \<or>
     c \<in> {0x20, 0xA0, 0x1680, 0x2028, 0x2029, 0x202F, 0x205F, 0x3000, 0xFEFF} \<or> (0x2000 \<le> c \<and> c \<le> 0x200A)"

definition js_trim :: "jsstring \<Rightarrow> jsstring" where
  "js_trim s = rev (dropWhile is_js_space (rev (dropWhile is_js_space s)))"

definition radix_digit :: "nat \<Rightarrow> 16 word \<Rightarrow> nat option" where
  "radix_digit b c =
     (let d = if is_digit c then unat c - 48
              else if 97 \<le> c \<and> c \<le> 122 then unat c - 87
              else if 65 \<le> c \<and> c \<le> 90 then unat c - 55 else 99
      in if d < b then Some d else None)"

definition radix_value :: "nat \<Rightarrow> jsstring \<Rightarrow> int option" where
  "radix_value b s =
     (if s = [] \<or> list_ex (\<lambda>c. radix_digit b c = None) s then None
      else Some (int (foldl (\<lambda>n c. b * n + the (radix_digit b c)) 0 s)))"

definition unsignedLiteral :: "jsstring \<Rightarrow> int option" where
  "unsignedLiteral s =
     (if take 2 s = js ''0x'' \<or> take 2 s = js ''0X'' then radix_value 16 (drop 2 s)
      else if take 2 s = js ''0o'' \<or> take 2 s = js ''0O'' then radix_value 8 (drop 2 s)
      else if take 2 s = js ''0b'' \<or> take 2 s = js ''0B'' then radix_value 2 (drop 2 s)
      else radix_value 10 s)"

definition bigIntLiteral :: "jsstring \<Rightarrow> int option" where
  "bigIntLiteral s =
     (case s of
        [] \<Rightarrow> Some 0
      | c # cs \<Rightarrow>
          if c = 45 then map_option uminus (radix_value 10 cs)
          else if c = 43 then radix_value 10 cs
          else unsignedLiteral s)"

definition bigInt :: "jsstring \<Rightarrow> int result" where
  "bigInt s = (case bigIntLiteral (js_trim s) of
     None \<Rightarrow> Inl (SyntaxError ''Cannot convert to a BigInt'') | Some n \<Rightarrow> Inr n)"


section \<open>Canonical decimals\<close>

lemma digit_bounds: "is_digit c \<longleftrightarrow> 48 \<le> unat c \<and> unat c \<le> 57"
  by (simp add: is_digit_def word_le_nat_alt)

lemma radix_digit_10: "is_digit c \<Longrightarrow> radix_digit 10 c = Some (digit_val c)"
  by (auto simp: radix_digit_def digit_val_def digit_bounds Let_def)

lemma radix_value_10: "list_all is_digit s \<Longrightarrow> s \<noteq> [] \<Longrightarrow> radix_value 10 s = Some (int (parse_nat s))"
proof -
  assume d: "list_all is_digit s" "s \<noteq> []"
  have "foldl (\<lambda>n c. 10 * n + the (radix_digit 10 c)) a s = foldl (\<lambda>n c. 10 * n + c) a (map digit_val s)" for a
    using d(1) by (induction s arbitrary: a) (simp_all add: radix_digit_10)
  moreover have "\<not> list_ex (\<lambda>c. radix_digit 10 c = None) s"
    using d(1) by (auto simp: list_all_iff list_ex_iff radix_digit_10)
  ultimately show ?thesis using d(2) by (simp add: radix_value_def parse_nat_def nat_of_digits_def)
qed

lemma digit_not_space: "is_digit c \<Longrightarrow> \<not> is_js_space c"
  by (auto simp: digit_bounds is_js_space_def word_le_nat_alt)

lemma js_trim_digits: "list_all is_digit s \<Longrightarrow> js_trim s = s"
proof -
  assume d: "list_all is_digit s"
  have "dropWhile is_js_space t = t" if "list_all is_digit t" for t
    using that by (cases t) (auto simp: digit_not_space)
  with d show ?thesis by (simp add: js_trim_def)
qed

lemma no_radix_prefix: "list_all is_digit s \<Longrightarrow> c \<in> {120, 88, 111, 79, 98, 66} \<Longrightarrow> take 2 s \<noteq> [48, c]"
  by (cases s; cases "tl s") (auto simp: digit_bounds)

lemma bigInt_digits: "list_all is_digit s \<Longrightarrow> s \<noteq> [] \<Longrightarrow> bigInt s = Inr (int (parse_nat s))"
proof -
  assume d: "list_all is_digit s" "s \<noteq> []"
  then obtain c cs where s: "s = c # cs" by (cases s) auto
  have "c \<noteq> 45" "c \<noteq> 43" using d(1) s by (auto simp: digit_bounds)
  then have "bigIntLiteral s = unsignedLiteral s" by (simp add: bigIntLiteral_def s)
  also have "\<dots> = radix_value 10 s"
    using no_radix_prefix [OF d(1)] by (simp add: unsignedLiteral_def js_simps)
  finally show ?thesis using d by (simp add: bigInt_def js_trim_digits radix_value_10)
qed

lemma list_all_dec [simp]: "list_all is_digit (dec n)"
  by (auto simp: list_all_iff dec_digits)

lemma bigInt_dec [simp]: "bigInt (dec n) = Inr (int n)"
  by (simp add: bigInt_digits)

lemma hd_dec_pos: "0 < n \<Longrightarrow> hd (dec n) \<noteq> 48"
proof -
  assume n: "0 < n"
  have "hd (dec n) = digit_unit (hd (digits_of_nat n))" by (simp add: dec_def hd_map)
  moreover have "hd (digits_of_nat n) < 10" by (rule digits_lt_10 [of _ n], rule hd_in_set) simp
  ultimately have "unat (hd (dec n)) = 48 + hd (digits_of_nat n)" by (simp add: unat_digit_unit)
  with digits_hd_pos [OF n] show ?thesis by auto
qed

lemma dec_0: "dec 0 = js ''0''"
  by (simp add: dec_def digits_of_nat.simps digit_unit_def js_simps)

lemma positive_decimal_dec [simp]: "positive_decimal (dec n) \<longleftrightarrow> 0 < n"
  by (cases "n = 0") (auto simp: positive_decimal_def hd_dec_pos dec_0 js_simps)

lemma nonnegative_decimal_dec [simp]: "nonnegative_decimal (dec n)"
  by (cases "n = 0") (auto simp: nonnegative_decimal_def dec_0)

lemma digits_snoc: "0 < n \<Longrightarrow> d < 10 \<Longrightarrow> digits_of_nat (10 * n + d) = digits_of_nat n @ [d]"
  by (subst digits_of_nat.simps) auto

lemma parse_nat_snoc: "parse_nat (s @ [c]) = 10 * parse_nat s + digit_val c"
  by (simp add: parse_nat_def)

lemma digit_unit_val: "is_digit c \<Longrightarrow> digit_unit (digit_val c) = c"
  by (auto simp: digit_unit_def digit_val_def digit_bounds simp flip: of_nat_diff)

lemma dec_parse_positive: "positive_decimal s \<Longrightarrow> dec (parse_nat s) = s \<and> 0 < parse_nat s"
proof (induction s rule: rev_induct)
  case (snoc c s)
  have c: "is_digit c" "digit_val c < 10" using snoc.prems by (auto simp: positive_decimal_def digit_val_def digit_bounds)
  show ?case
  proof (cases "s = []")
    case True
    then have "c \<noteq> 48" using snoc.prems by (auto simp: positive_decimal_def)
    then have "unat c \<noteq> unat (48 :: 16 word)" unfolding word_unat_eq_iff .
    then have "digit_val c \<noteq> 0" using c(1) by (auto simp: digit_val_def digit_bounds)
    with True c show ?thesis
      by (simp add: parse_nat_def nat_of_digits_def dec_def digits_of_nat.simps digit_unit_val)
  next
    case False
    then have "positive_decimal s" using snoc.prems by (auto simp: positive_decimal_def)
    with snoc.IH have IH: "dec (parse_nat s) = s" "0 < parse_nat s" by auto
    have "dec (10 * parse_nat s + digit_val c) = s @ [c]"
      using IH c by (simp add: dec_def digits_snoc digit_unit_val)
    with IH show ?thesis by (simp add: parse_nat_snoc)
  qed
qed (simp add: positive_decimal_def)

lemma dec_parse: "nonnegative_decimal s \<Longrightarrow> dec (parse_nat s) = s"
  unfolding nonnegative_decimal_def using dec_parse_positive dec_0 parse_dec by metis

lemma bigInt_nonneg: "nonnegative_decimal s \<Longrightarrow> bigInt s = Inr (int (parse_nat s))"
  using bigInt_dec [of "parse_nat s"] by (simp add: dec_parse)

lemma positive_nonnegative: "positive_decimal s \<Longrightarrow> nonnegative_decimal s"
  by (simp add: nonnegative_decimal_def)

lemma nonnegative_decimalE:
  assumes "nonnegative_decimal s" obtains n where "s = dec n"
  using dec_parse [OF assms] by metis

lemma positive_decimalE:
  assumes "positive_decimal s" obtains n where "s = dec n" "0 < n"
  using dec_parse_positive [OF assms] by metis

end
