(* ===== verification/Inert.thy ===== *)
theory Inert
  imports JsHeap BigInt
begin

text \<open>
  Inert data, defined by the shape of the objects alone. An array is inert if it is no proxy and has
  exactly the own properties \<open>length\<close> and the indexes below it, each an enumerable data property;
  any other object if it is no proxy, has the prototype \<open>Object.prototype\<close> or \<open>null\<close>, and its own
  properties are enumerable data properties under string keys. \<open>inert h v t\<close> says that a value is
  built from such containers, to a finite depth, and denotes the tree \<open>t\<close>.

  What is shown: what \<open>objectDataEntries\<close> and \<open>arrayDataValues\<close> of \<^verbatim>\<open>src/core/json.ts\<close>
  accept is exactly this, so that the limit check and the encoder accept exactly the inert data
  whose tree is valid.
\<close>

definition plainObject :: "jsobject \<Rightarrow> (jsstring \<times> jsvalue) list \<Rightarrow> bool" where
  "plainObject obj es \<longleftrightarrow> \<not> isArray obj \<and> \<not> isProxy obj \<and> getPrototype obj \<in> {ProtoObject, ProtoNull} \<and>
     sorted (map fst es) \<and> distinct (map fst es) \<and>
     set (props obj) = (\<lambda>e. (PStr (fst e), DataDesc (snd e) True)) ` set es"

definition plainArray :: "jsobject \<Rightarrow> jsvalue list \<Rightarrow> bool" where
  "plainArray obj vs \<longleftrightarrow> isArray obj \<and> \<not> isProxy obj \<and> isSafeInteger (int (length vs)) \<and>
     (\<exists>enumerable. set (props obj) =
        insert (PStr (js ''length''), DataDesc (VNum (NInt (int (length vs)))) enumerable)
          ((\<lambda>i. (PStr (dec i), DataDesc (vs ! i) True)) ` {..<length vs}))"

inductive inert :: "heap \<Rightarrow> jsvalue \<Rightarrow> json \<Rightarrow> bool" for h :: heap where
  inert_null: "inert h VNull JNull"
| inert_bool: "inert h (VBool b) (JBool b)"
| inert_num: "inert h (VNum n) (JNum n)"
| inert_str: "inert h (VStr s) (JStr s)"
| inert_arr: "plainArray (h a) vs \<Longrightarrow> list_all2 (inert h) vs ts \<Longrightarrow> inert h (VRef a) (JArr ts)"
| inert_obj: "plainObject (h a) es \<Longrightarrow> list_all2 (\<lambda>e kt. fst e = fst kt \<and> inert h (snd e) (snd kt)) es kts \<Longrightarrow>
    inert h (VRef a) (JObj kts)"

inductive_cases inert_refE: "inert h (VRef a) t"


section \<open>Objects\<close>

lemma ownDataDescriptor_Inr: "ownDataDescriptor obj k = Inr d \<longleftrightarrow> map_of (props obj) k = Some (DataDesc (fst d) (snd d))"
  by (cases d) (auto simp: ownDataDescriptor_def split: option.splits descriptor.splits)

lemma no_symbols: "\<not> list_ex is_symbol ks \<Longrightarrow> k \<in> set ks \<Longrightarrow> PStr (key_name k) = k"
  by (cases k) (auto simp: list_ex_iff)

lemma entries_iff:
  assumes "distinct (map fst (props obj))" "\<not> list_ex is_symbol (map fst (props obj))"
  shows "mapR (objectEntry obj None) (map key_name (map fst (props obj))) = Inr xs \<longleftrightarrow>
    list_all2 (\<lambda>p e. p = (PStr (fst e), DataDesc (snd e) True)) (props obj) xs \<and> (\<forall>e\<in>set xs. supported_key (fst e))"
proof -
  have entry: "objectEntry obj None (key_name (fst p)) = Inr e \<longleftrightarrow> p = (PStr (fst e), DataDesc (snd e) True) \<and> supported_key (fst e)"
    if p: "p \<in> set (props obj)" for p e
  proof -
    have k: "PStr (key_name (fst p)) = fst p" using no_symbols [OF assms(2)] p by auto
    have "map_of (props obj) (fst p) = Some (snd p)" using p assms(1) by simp
    then have "objectEntry obj None (key_name (fst p)) = Inr e \<longleftrightarrow>
        supported_key (key_name (fst p)) \<and> snd p = DataDesc (snd e) True \<and> fst e = key_name (fst p)"
      unfolding objectEntry_Inr ownDataDescriptor_Inr k by (cases e) auto
    then show ?thesis using k by (cases p) auto
  qed
  show ?thesis
    unfolding mapR_eq_Inr list_all2_map1 list_all2_conv_all_nth all_set_conv_all_nth using entry [OF nth_mem] by auto
qed

lemma objectDataEntries_plain:
  assumes "distinct (map fst (props obj))"
  shows "\<not> isArray obj \<and> objectDataEntries obj None None = Inr es \<longleftrightarrow>
    plainObject obj es \<and> (\<forall>e\<in>set es. supported_key (fst e))" (is "?l \<longleftrightarrow> ?r")
proof -
  let ?R = "\<lambda>p e. p = (PStr (fst e), DataDesc (snd e) True)"
  have l: "?l \<longleftrightarrow> \<not> isArray obj \<and> \<not> isProxy obj \<and> getPrototype obj \<in> {ProtoObject, ProtoNull} \<and>
      \<not> list_ex is_symbol (map fst (props obj)) \<and>
      (\<exists>xs. mapR (objectEntry obj None) (map key_name (map fst (props obj))) = Inr xs \<and> es = sort_key fst xs)"
    by (auto simp: objectDataEntries_def assertPlainDataContainer_def assertNoSymbolProperties_def Let_def result_simps
        split: if_splits)
  have sym: "\<not> list_ex is_symbol (map fst (props obj))" if "set (props obj) = (\<lambda>e. (PStr (fst e), d e)) ` A" for A and d :: "jsstring \<times> jsvalue \<Rightarrow> descriptor"
    using that by (auto simp: list_ex_iff)
  have list: "list_all2 ?R ps xs \<longleftrightarrow> ps = map (\<lambda>e. (PStr (fst e), DataDesc (snd e) True)) xs" for ps and xs :: "(jsstring \<times> jsvalue) list"
    by (auto simp: list_all2_conv_all_nth list_eq_iff_nth_eq)
  show ?thesis
  proof
    assume ?l
    then obtain xs where c: "\<not> isArray obj" "\<not> isProxy obj" "getPrototype obj \<in> {ProtoObject, ProtoNull}"
      "\<not> list_ex is_symbol (map fst (props obj))" and es: "es = sort_key fst xs"
      and xs: "props obj = map (\<lambda>e. (PStr (fst e), DataDesc (snd e) True)) xs" "\<forall>e\<in>set xs. supported_key (fst e)"
      unfolding l using entries_iff [OF assms] list by blast
    have "distinct (map PStr (map fst xs))" using assms xs(1) by (simp add: comp_def)
    then have "distinct (map fst xs)" by (simp only: distinct_map)
    with c xs show ?r by (simp add: plainObject_def es distinct_sort_key_fst)
  next
    assume r: ?r
    let ?v = "\<lambda>p. (key_name (fst p), case snd p of DataDesc v _ \<Rightarrow> v | AccessorDesc _ \<Rightarrow> VUndefined)"
    let ?xs = "map ?v (props obj)"
    have set: "set (props obj) = (\<lambda>e. (PStr (fst e), DataDesc (snd e) True)) ` set es" using r by (simp add: plainObject_def)
    note s = sym [OF set]
    have v: "p = (PStr (fst (?v p)), DataDesc (snd (?v p)) True)" "?v p \<in> set es" if "p \<in> set (props obj)" for p
      using that set by auto
    have "list_all2 ?R (props obj) ?xs" unfolding list using v(1) by (auto intro: map_idI [symmetric])
    moreover have eq: "set ?xs = set es" by (simp add: set image_image)
    then have "\<forall>e\<in>set ?xs. supported_key (fst e)" unfolding eq using r by blast
    ultimately have m: "mapR (objectEntry obj None) (map key_name (map fst (props obj))) = Inr ?xs" using entries_iff [OF assms s] by blast
    have "distinct (map fst ?xs)" using distinct_key_names [OF assms s] by (simp add: comp_def)
    moreover have "sorted (map fst es)" "distinct (map fst es)" using r by (simp_all add: plainObject_def)
    moreover from this(2) have "inj_on fst (set es)" by (simp only: distinct_map)
    ultimately have "sort_key fst ?xs = es"
      using eq by (intro map_sorted_distinct_set_unique [of fst]) (simp_all only: set_sort sorted_sort_key distinct_sort_key_fst Un_absorb)
    with m r s show ?l unfolding l by (auto simp: plainObject_def)
  qed
qed


section \<open>Arrays\<close>

lemma canonical_index_iff: "is_canonical_index k \<longleftrightarrow> (\<exists>i. k = dec i)"
proof
  assume "is_canonical_index k"
  then have "nonnegative_decimal k"
    by (auto simp: is_canonical_index_def nonnegative_decimal_def positive_decimal_def)
  then show "\<exists>i. k = dec i" by (auto elim: nonnegative_decimalE)
next
  assume "\<exists>i. k = dec i"
  then obtain i where k: "k = dec i" by blast
  then show "is_canonical_index k"
    by (cases "i = 0") (auto simp: is_canonical_index_def dec_0 hd_dec_pos)
qed

lemma arrayIndex_iff: "isSafeInteger (int n) \<Longrightarrow> arrayIndex k n = Some i \<longleftrightarrow> k = dec i \<and> i < n"
  by (auto simp: arrayIndex_def canonical_index_iff isSafeInteger_def)

lemma index_key: "supported_key (dec i)" "dec i \<noteq> js ''length''"
proof -
  have d: "is_digit c" if "c \<in> set (dec i)" for c using that by (rule dec_digits)
  have ne: "dec i \<noteq> k" if "hd k \<in> set k" "\<not> is_digit (hd k)" for k using d that by blast
  have "dec i \<noteq> proto_key" by (rule ne) (simp_all add: proto_key_def js_simps is_digit_def)
  then show "supported_key (dec i)" by (simp add: supported_key_def well_formed_scalar)
  show "dec i \<noteq> js ''length''" by (rule ne) (simp_all add: js_simps is_digit_def)
qed

lemma arraySlot_Inr:
  assumes "isSafeInteger (int n)" "\<not> is_symbol k"
  shows "arraySlot obj n k acc = Inr acc' \<longleftrightarrow> (if k = PStr (js ''length'') then acc' = acc else
    (\<exists>i v. k = PStr (dec i) \<and> i < n \<and> map_of (props obj) k = Some (DataDesc v True) \<and>
       acc' = ((fst acc)(i \<mapsto> v), Suc (snd acc))))"
proof (cases k)
  case (PStr s)
  have none: "arrayIndex s n = None \<longleftrightarrow> \<not> (\<exists>i<n. s = dec i)"
    using arrayIndex_iff [OF assms(1), of s] by (cases "arrayIndex s n") auto
  show ?thesis
    unfolding arraySlot_def PStr
    by (auto simp: result_simps index_key none arrayIndex_iff [OF assms(1)] ownDataDescriptor_Inr
        split: option.splits if_splits)
qed (use assms(2) in simp)

definition indexed :: "jsobject \<Rightarrow> nat \<Rightarrow> propkey \<Rightarrow> bool" where
  "indexed obj n k \<longleftrightarrow> k = PStr (js ''length'') \<or>
     (\<exists>i v. k = PStr (dec i) \<and> i < n \<and> map_of (props obj) k = Some (DataDesc v True))"

lemma arraySlots_ok:
  assumes "isSafeInteger (int n)" "\<not> list_ex is_symbol ks" "\<forall>k\<in>set ks. indexed obj n k"
  shows "\<exists>acc'. foldR (arraySlot obj n) ks acc = Inr acc'"
  using assms(2,3)
proof (induction ks arbitrary: acc)
  case (Cons k ks)
  then have k: "\<not> is_symbol k" "indexed obj n k" by simp_all
  have "\<exists>acc1. arraySlot obj n k acc = Inr acc1"
    unfolding arraySlot_Inr [OF assms(1) k(1)] using k(2) unfolding indexed_def by (cases "k = PStr (js ''length'')") auto
  with Cons show ?case by (auto simp: result_simps)
qed simp

lemma arraySlots_Inr:
  assumes "isSafeInteger (int n)" "\<not> list_ex is_symbol ks" "foldR (arraySlot obj n) ks acc = Inr acc'"
  shows "(\<forall>k\<in>set ks. indexed obj n k) \<and>
    snd acc' = snd acc + length (filter (\<lambda>k. k \<noteq> PStr (js ''length'')) ks) \<and>
    (\<forall>i v. PStr (dec i) \<in> set ks \<longrightarrow> map_of (props obj) (PStr (dec i)) = Some (DataDesc v True) \<longrightarrow> fst acc' i = Some v) \<and>
    (\<forall>i. PStr (dec i) \<notin> set ks \<longrightarrow> fst acc' i = fst acc i)"
  using assms(2,3)
proof (induction ks arbitrary: acc)
  case (Cons k ks)
  then obtain acc1 where step: "arraySlot obj n k acc = Inr acc1" and rest: "foldR (arraySlot obj n) ks acc1 = Inr acc'"
    by (auto simp: result_simps)
  have k: "\<not> is_symbol k" using Cons.prems(1) by simp
  note IH = Cons.IH [OF _ rest]
  show ?case
  proof (cases "k = PStr (js ''length'')")
    case True
    with step k have "acc1 = acc" by (simp add: arraySlot_Inr [OF assms(1)])
    with IH Cons.prems(1) True show ?thesis by (auto simp: indexed_def index_key(2))
  next
    case False
    with step k obtain i v where i: "k = PStr (dec i)" "i < n" "map_of (props obj) k = Some (DataDesc v True)"
      "acc1 = ((fst acc)(i \<mapsto> v), Suc (snd acc))" by (auto simp: arraySlot_Inr [OF assms(1)])
    have "fst acc' j = Some w" if "PStr (dec j) \<in> set (k # ks)" "map_of (props obj) (PStr (dec j)) = Some (DataDesc w True)" for j w
    proof (cases "PStr (dec j) \<in> set ks")
      case True
      with IH Cons.prems(1) that(2) show ?thesis by simp
    next
      case nin: False
      with that i(1) have "j = i" by simp
      with IH Cons.prems(1) nin i that(2) show ?thesis by simp
    qed
    moreover have "indexed obj n k" using i by (auto simp: indexed_def)
    ultimately show ?thesis using IH Cons.prems(1) i False by auto
  qed
qed simp

lemma arrayBody_Inr: "arrayBody obj n = Inr vs \<longleftrightarrow> \<not> list_ex is_symbol (map fst (props obj)) \<and>
    (\<exists>slots. foldR (arraySlot obj n) (map fst (props obj)) (Map.empty, 0) = Inr (slots, n) \<and>
      vs = map (\<lambda>i. case slots i of None \<Rightarrow> VUndefined | Some v \<Rightarrow> v) [0..<n])"
  by (auto simp: arrayBody_def assertNoSymbolProperties_def result_simps split: if_splits)

text \<open>The keys of an array apart from its length: if there are \<open>n\<close> of them, all indexes, then they are the indexes below \<open>n\<close>.\<close>

abbreviation otherKeys :: "jsobject \<Rightarrow> propkey list" where
  "otherKeys obj \<equiv> filter (\<lambda>k. k \<noteq> PStr (js ''length'')) (map fst (props obj))"

abbreviation indexKeys :: "nat \<Rightarrow> propkey set" where
  "indexKeys n \<equiv> (\<lambda>i. PStr (dec i)) ` {..<n}"

lemma card_indexKeys: "card (indexKeys n) = n"
  by (subst card_image) (auto simp: inj_on_def)

lemma card_otherKeys: "distinct (map fst (props obj)) \<Longrightarrow> card (set (otherKeys obj)) = length (otherKeys obj)"
  by (rule distinct_card [OF distinct_filter])

lemma all_indexes:
  assumes "distinct (map fst (props obj))" "\<forall>k\<in>set (map fst (props obj)). indexed obj n k" "length (otherKeys obj) = n"
  shows "set (otherKeys obj) = indexKeys n"
proof (rule card_subset_eq)
  show "set (otherKeys obj) \<subseteq> indexKeys n" using assms(2) by (auto simp: indexed_def)
  show "card (set (otherKeys obj)) = card (indexKeys n)" unfolding card_otherKeys [OF assms(1)] card_indexKeys by (rule assms(3))
qed simp

lemma arrayBody_values:
  assumes wf: "distinct (map fst (props obj))" and n: "isSafeInteger (int n)" and body: "arrayBody obj n = Inr vs"
  shows "length vs = n" "set (otherKeys obj) = indexKeys n"
    "i < n \<Longrightarrow> map_of (props obj) (PStr (dec i)) = Some (DataDesc (vs ! i) True)"
proof -
  from body obtain slots where sym: "\<not> list_ex is_symbol (map fst (props obj))"
    and f: "foldR (arraySlot obj n) (map fst (props obj)) (Map.empty, 0) = Inr (slots, n)"
    and vs: "vs = map (\<lambda>i. case slots i of None \<Rightarrow> VUndefined | Some v \<Rightarrow> v) [0..<n]" unfolding arrayBody_Inr by blast
  note a = arraySlots_Inr [OF n sym f]
  show "length vs = n" by (simp add: vs)
  have "length (otherKeys obj) = n" using a by (simp only: snd_conv add_0)
  with a show keys: "set (otherKeys obj) = indexKeys n" by (intro all_indexes [OF wf]) blast+
  show "map_of (props obj) (PStr (dec i)) = Some (DataDesc (vs ! i) True)" if i: "i < n"
  proof -
    have "PStr (dec i) \<in> set (otherKeys obj)" unfolding keys using i by blast
    then have k: "PStr (dec i) \<in> set (map fst (props obj))" by simp
    with a obtain v where v: "map_of (props obj) (PStr (dec i)) = Some (DataDesc v True)"
      using index_key(2) [of i] by (auto simp: indexed_def)
    with k a have "slots i = Some v" by simp
    with v i show ?thesis by (simp add: vs)
  qed
qed

lemma arrayBody_accepts:
  assumes wf: "distinct (map fst (props obj))" and n: "isSafeInteger (int n)" and len: "length vs = n"
    and keys: "set (map fst (props obj)) = insert (PStr (js ''length'')) (indexKeys n)"
    and vals: "\<And>i. i < n \<Longrightarrow> map_of (props obj) (PStr (dec i)) = Some (DataDesc (vs ! i) True)"
  shows "arrayBody obj n = Inr vs"
proof -
  have sym: "\<not> list_ex is_symbol (map fst (props obj))" using keys by (auto simp: list_ex_iff)
  have "\<forall>k\<in>set (map fst (props obj)). indexed obj n k" unfolding keys using vals by (auto simp: indexed_def)
  from arraySlots_ok [OF n sym this] obtain acc where f: "foldR (arraySlot obj n) (map fst (props obj)) (Map.empty, 0) = Inr acc" by blast
  note a = arraySlots_Inr [OF n sym f]
  have "set (otherKeys obj) = indexKeys n" using keys index_key(2) by auto
  then have "snd acc = n" using a card_otherKeys [OF wf] card_indexKeys by (simp only: snd_conv add_0)
  moreover have "fst acc i = Some (vs ! i)" if "i < n" for i
  proof -
    have "PStr (dec i) \<in> set (map fst (props obj))" unfolding keys using that by blast
    with a vals [OF that] show ?thesis by blast
  qed
  then have "vs = map (\<lambda>i. case fst acc i of None \<Rightarrow> VUndefined | Some v \<Rightarrow> v) [0..<n]"
    using len by (intro nth_equalityI) auto
  ultimately show ?thesis unfolding arrayBody_Inr using sym f by (metis prod.collapse)
qed

lemma arrayBody_plain:
  assumes wf: "distinct (map fst (props obj))" and n: "isSafeInteger (int n)"
    and len: "map_of (props obj) (PStr (js ''length'')) = Some l"
  shows "arrayBody obj n = Inr vs \<longleftrightarrow> length vs = n \<and>
    set (props obj) = insert (PStr (js ''length''), l) ((\<lambda>i. (PStr (dec i), DataDesc (vs ! i) True)) ` {..<n})" (is "?l \<longleftrightarrow> ?r")
proof
  have mem: "(k, d) \<in> set (props obj) \<longleftrightarrow> map_of (props obj) k = Some d" for k d
    using wf by (simp add: map_of_eq_Some_iff)
  {
    assume ?l
    note v = arrayBody_values [OF wf n this]
    have vals: "(PStr (dec i), DataDesc (vs ! i) True) \<in> set (props obj)" if "i < n" for i using v(3) [OF that] by (simp add: mem)
    have "p \<in> insert (PStr (js ''length''), l) ((\<lambda>i. (PStr (dec i), DataDesc (vs ! i) True)) ` {..<n})" if p: "p \<in> set (props obj)" for p
    proof (cases "fst p = PStr (js ''length'')")
      case True
      with p len mem show ?thesis by (metis insertI1 option.inject prod.collapse)
    next
      case False
      then have "fst p \<in> set (otherKeys obj)" using p by auto
      then obtain i where i: "fst p = PStr (dec i)" "i < n" unfolding v(2) by blast
      with p vals [OF i(2)] mem have "p = (PStr (dec i), DataDesc (vs ! i) True)" by (metis option.inject prod.collapse)
      with i(2) show ?thesis by blast
    qed
    moreover have "(PStr (js ''length''), l) \<in> set (props obj)" using len by (simp add: mem)
    ultimately show ?r using vals v(1) by auto
  next
    assume r: ?r
    then have "set (map fst (props obj)) = insert (PStr (js ''length'')) (indexKeys n)" by (simp add: image_image)
    moreover have "map_of (props obj) (PStr (dec i)) = Some (DataDesc (vs ! i) True)" if "i < n" for i
      unfolding mem [symmetric] using r that by auto
    ultimately show ?l using r by (intro arrayBody_accepts [OF wf n]) auto
  }
qed

lemma arrayDataValues_plain:
  assumes "distinct (map fst (props obj))"
  shows "isArray obj \<and> arrayDataValues obj None = Inr vs \<longleftrightarrow> plainArray obj vs" (is "?l \<longleftrightarrow> ?r")
proof
  assume ?l
  then obtain n e where n: "isArray obj" "\<not> isProxy obj" "isSafeInteger n" "0 \<le> n" "arrayBody obj (nat n) = Inr vs"
    "map_of (props obj) (PStr (js ''length'')) = Some (DataDesc (VNum (NInt n)) e)"
    unfolding arrayDataValues_Inr ownDataDescriptor_Inr by auto
  then have s: "isSafeInteger (int (nat n))" by simp
  from n arrayBody_plain [OF assms s n(6)] show ?r unfolding plainArray_def by auto
next
  assume ?r
  then obtain e where c: "isArray obj" "\<not> isProxy obj" and s: "isSafeInteger (int (length vs))" and
    ps: "set (props obj) = insert (PStr (js ''length''), DataDesc (VNum (NInt (int (length vs)))) e)
          ((\<lambda>i. (PStr (dec i), DataDesc (vs ! i) True)) ` {..<length vs})" unfolding plainArray_def by blast
  have len: "map_of (props obj) (PStr (js ''length'')) = Some (DataDesc (VNum (NInt (int (length vs)))) e)"
    using ps assms by (simp add: map_of_eq_Some_iff)
  from arrayBody_plain [OF assms s len, of vs] ps have "arrayBody obj (length vs) = Inr vs" by simp
  with c s len show ?l unfolding arrayDataValues_Inr ownDataDescriptor_Inr
    by (auto intro!: exI [of _ "int (length vs)"])
qed


section \<open>Values\<close>

lemma repr_inert:
  assumes wf: "wf_heap h" and "repr h v t"
  shows "inert h v t"
  using assms(2)
proof (induction rule: repr.induct)
  case (repr_arr a vs ts)
  have "plainArray (h a) vs" using arrayDataValues_plain [of "h a" vs] wf repr_arr.hyps by (auto simp: wf_heap_def)
  moreover have "list_all2 (inert h) vs ts" using repr_arr.IH by (auto elim: list_all2_mono)
  ultimately show ?case by (rule inert_arr)
next
  case (repr_obj a es kts)
  have "plainObject (h a) es" using objectDataEntries_plain [of "h a" es] wf repr_obj.hyps by (auto simp: wf_heap_def)
  moreover have "list_all2 (\<lambda>e kt. fst e = fst kt \<and> inert h (snd e) (snd kt)) es kts"
    using repr_obj.IH by (auto elim: list_all2_mono)
  ultimately show ?case by (rule inert_obj)
qed (auto intro: inert.intros)

lemma inert_repr:
  assumes wf: "wf_heap h" and "inert h v t" "valid_json t"
  shows "repr h v t"
  using assms(2,3)
proof (induction rule: inert.induct)
  case (inert_arr a vs ts)
  have "isArray (h a)" "arrayDataValues (h a) None = Inr vs"
    using arrayDataValues_plain [of "h a" vs] wf inert_arr.hyps by (auto simp: wf_heap_def)
  moreover have "list_all2 (repr h) vs ts"
    using inert_arr.IH inert_arr.prems by (auto simp: list_all2_conv_all_nth list_all_length)
  ultimately show ?case by (rule repr_arr)
next
  case (inert_obj a es kts)
  have keys: "map fst kts = map fst es"
    using inert_obj.IH by (auto simp: list_all2_conv_all_nth intro: nth_equalityI)
  have "\<forall>k\<in>set (map fst kts). supported_key k" using inert_obj.prems by (auto simp: list_all_iff)
  then have "\<forall>e\<in>set es. supported_key (fst e)" unfolding keys by simp
  then have "\<not> isArray (h a)" "objectDataEntries (h a) None None = Inr es"
    using objectDataEntries_plain [of "h a" es] wf inert_obj.hyps by (auto simp: wf_heap_def)
  moreover have "list_all2 (\<lambda>e kt. fst e = fst kt \<and> repr h (snd e) (snd kt)) es kts"
    using inert_obj.IH inert_obj.prems by (auto simp: list_all2_conv_all_nth list_all_length case_prod_beta)
  ultimately show ?case by (rule repr_obj)
qed auto

lemma repr_valid_iff: "wf_heap h \<Longrightarrow> valid_json t \<Longrightarrow> repr h v t \<longleftrightarrow> inert h v t"
  using repr_inert inert_repr by blast

end
