(* ===== verification/NodeEnv.thy ===== *)
theory NodeEnv
  imports Schema JsHeap
begin

text \<open>
  What the program takes from outside its own sources: the SHA-256 digest of \<^verbatim>\<open>node:crypto\<close>,
  the zod package, and the names that some other code may have put on \<open>Object.prototype\<close> and
  \<open>Array.prototype\<close> of the realm. They are the fields of one record \<open>externals\<close>, which the
  definitions of the development take as their first argument.

  The locale \<open>node_env\<close> states what the code relies on: a hexadecimal digest has 64 lower-case
  hexadecimal digits, and zod accepts a value exactly if it conforms to the schema and then
  returns it with at most its keys reordered. A string schema returns the string it is given. The other zod laws are only promised for a realm in which
  no field name of the schema is defined on \<open>Object.prototype\<close> and no index on
  \<open>Array.prototype\<close>; \<open>assertSchemaPrototypeSafety\<close> is the code's guard for that condition.
\<close>

record externals =
  sha256_hex :: "8 word list \<Rightarrow> jsstring"
  zodParse :: "schema \<Rightarrow> json \<Rightarrow> json result"
  objectPrototype :: "jsstring list"
  arrayPrototype :: "jsstring list"

definition assertSchemaPrototypeSafety :: "externals \<Rightarrow> string list \<Rightarrow> unit result" where
  "assertSchemaPrototypeSafety X fieldNames =
     (if list_ex (\<lambda>f. js f \<in> set (objectPrototype X)) fieldNames
      then Inl (TypeError ''Object.prototype contains schema field'')
      else if list_ex is_canonical_index (arrayPrototype X)
      then Inl (TypeError ''Array.prototype contains indexed schema property'')
      else Inr ())"

definition schema_safe :: "externals \<Rightarrow> schema \<Rightarrow> bool" where
  "schema_safe X z \<longleftrightarrow>
     set (schema_fields z) \<inter> set (objectPrototype X) = {} \<and>
     \<not> list_ex is_canonical_index (arrayPrototype X)"

locale node_env =
  fixes X :: externals
  assumes digest_hash64: "hash64 (sha256_hex X bs)"
    and zod_accepts: "schema_safe X z \<Longrightarrow> valid_json v \<Longrightarrow> conforms z v \<Longrightarrow>
      \<exists>w. zodParse X z v = Inr w \<and> valid_json w \<and> norm w = norm v"
    and zod_rejects: "schema_safe X z \<Longrightarrow> valid_json v \<Longrightarrow> \<not> conforms z v \<Longrightarrow>
      zodParse X z v = Inl ZodError"
    and zod_string: "zodParse X (ZString p) (JStr s) = (if p s then Inr (JStr s) else Inl ZodError)"

text \<open>The condition under which the guard lets a validation through.\<close>

definition protoSafe :: "externals \<Rightarrow> string list \<Rightarrow> bool" where
  "protoSafe X names \<longleftrightarrow> assertSchemaPrototypeSafety X names = Inr ()"

lemma assertSchemaPrototypeSafety_Inr [simp]:
  "assertSchemaPrototypeSafety X names = Inr u \<longleftrightarrow> protoSafe X names"
  by (simp add: protoSafe_def)

lemma protoSafe_schema_safe:
  "protoSafe X names \<Longrightarrow> set (schema_fields z) \<subseteq> js ` set names \<Longrightarrow> schema_safe X z"
  by (auto simp: protoSafe_def assertSchemaPrototypeSafety_def schema_safe_def list_ex_iff split: if_splits)

context node_env
begin

lemma zodParse_Inr:
  assumes "schema_safe X z" "valid_json v" "zodParse X z v = Inr w"
  shows "conforms z v" "valid_json w" "norm w = norm v"
proof -
  show "conforms z v" using zod_rejects [OF assms(1,2)] assms(3) by (cases "conforms z v") auto
  with zod_accepts [OF assms(1,2)] assms(3) show "valid_json w" "norm w = norm v" by auto
qed

text \<open>
  Every validation of the code has this shape: guard, snapshot, parse, and a continuation that
  depends on the parsed value only up to key order.
\<close>

lemma guarded_parse_eq:
  assumes "set (schema_fields z) \<subseteq> js ` set names" "\<And>w. valid_json w \<Longrightarrow> f (norm w) = f w"
    and "protoSafe X names" "valid_json v" "conforms z v"
  shows "bindR (assertSchemaPrototypeSafety X names) (\<lambda>_.
      bindR (inertJsonSnapshot v) (\<lambda>snapshot. bindR (zodParse X z snapshot) f)) = f v"
proof -
  have safe: "schema_safe X z" using assms(1,3) protoSafe_schema_safe by blast
  obtain w where w: "zodParse X z (norm v) = Inr w" "valid_json w" "norm w = norm v"
    using zod_accepts [OF safe, of "norm v"] assms(4,5) by (auto simp: conforms_norm)
  have "f w = f v"
    using trans [OF assms(2) [OF w(2), symmetric] arg_cong [OF w(3), of f]] assms(2) [OF assms(4)] by (rule trans)
  moreover have "assertSchemaPrototypeSafety X names = Inr ()" using assms(3) by simp
  ultimately show ?thesis using w(1) assms(4) by (simp only: bindR_simps inertJsonSnapshot_eq)
qed

lemma guarded_parse:
  assumes "set (schema_fields z) \<subseteq> js ` set names" "\<And>w. valid_json w \<Longrightarrow> f (norm w) = f w"
  shows "bindR (assertSchemaPrototypeSafety X names) (\<lambda>_.
      bindR (inertJsonSnapshot v) (\<lambda>snapshot. bindR (zodParse X z snapshot) f)) = Inr r \<longleftrightarrow>
    protoSafe X names \<and> valid_json v \<and> conforms z v \<and> f v = Inr r"
proof (cases "protoSafe X names \<and> valid_json v \<and> conforms z v")
  case True
  then have "bindR (assertSchemaPrototypeSafety X names) (\<lambda>_.
      bindR (inertJsonSnapshot v) (\<lambda>snapshot. bindR (zodParse X z snapshot) f)) = f v"
    by (intro guarded_parse_eq assms) auto
  with True show ?thesis by (simp only: simp_thms)
next
  case False
  have "\<not> conforms z v \<Longrightarrow> valid_json v \<Longrightarrow> protoSafe X names \<Longrightarrow> zodParse X z (norm v) = Inl ZodError"
    using zod_rejects [of z "norm v"] protoSafe_schema_safe [OF _ assms(1)] by (simp add: conforms_norm)
  with False show ?thesis by (auto simp: bindR_eq_Inr inertJsonSnapshot_Inr)
qed

end

text \<open>Zod's documented behaviour on a realm nobody has tampered with, with a digest of one's choice.\<close>

definition documentedZod :: "schema \<Rightarrow> json \<Rightarrow> json result" where
  "documentedZod z v = (if conforms z v then Inr v else Inl ZodError)"

definition cleanRealm :: "(8 word list \<Rightarrow> jsstring) \<Rightarrow> externals" where
  "cleanRealm digest = \<lparr>sha256_hex = digest, zodParse = documentedZod, objectPrototype = [], arrayPrototype = []\<rparr>"

lemma cleanRealm_env: "(\<And>bs. hash64 (digest bs)) \<Longrightarrow> node_env (cleanRealm digest)"
  by unfold_locales (auto simp: cleanRealm_def documentedZod_def)

lemma cleanRealm_safe [simp]: "protoSafe (cleanRealm digest) names"
  by (simp add: protoSafe_def assertSchemaPrototypeSafety_def cleanRealm_def list_ex_iff)

end
