(* ===== verification/Hash.thy ===== *)
theory Hash
  imports NodeEnv
begin

text \<open>
  \<^verbatim>\<open>src/core/hash.ts\<close>: every identity of the system is a SHA-256 digest of
  length-prefixed parts under a domain tag. \<open>preimage\<close> is the byte string fed to the digest.

  What is shown: the framing is unambiguous (\<open>preimage_inj\<close>), so two canonical hashes under
  possibly different domains have the same preimage only if the domains are equal and the values
  are the same JSON up to key order (\<open>canonical_preimage_inj\<close>). Consequences for digests are
  stated relative to the assumption that SHA-256 is injective on the preimages at hand.
\<close>

datatype part = PartString jsstring | PartBytes "8 word list"

fun bytes :: "part \<Rightarrow> 8 word list" where
  "bytes (PartString s) = utf8 s"
| "bytes (PartBytes bs) = bs"

definition lengthPrefix :: "nat \<Rightarrow> 8 word list" where
  "lengthPrefix n = map (\<lambda>i. ucast (drop_bit (56 - 8 * i) (of_nat n :: 64 word))) [0..<8]"

definition frame :: "8 word list \<Rightarrow> 8 word list" where
  "frame bs = lengthPrefix (length bs) @ bs"

definition preimage :: "jsstring \<Rightarrow> part list \<Rightarrow> 8 word list" where
  "preimage domain parts = concat (map (\<lambda>p. frame (bytes p)) (PartString domain # parts))"

definition hashParts :: "externals \<Rightarrow> jsstring \<Rightarrow> part list \<Rightarrow> jsstring" where
  "hashParts X domain parts = sha256_hex X (preimage domain parts)"

definition canonicalHash :: "externals \<Rightarrow> jsstring \<Rightarrow> json \<Rightarrow> jsstring result" where
  "canonicalHash X domain value =
     bindR (canonicalJson value) (\<lambda>encoded. Inr (hashParts X domain [PartString encoded]))"


section \<open>The digest of a valid value\<close>

definition canonPreimage :: "jsstring \<Rightarrow> json \<Rightarrow> 8 word list" where
  "canonPreimage domain v = preimage domain [PartString (canon v)]"

definition digest :: "externals \<Rightarrow> jsstring \<Rightarrow> json \<Rightarrow> jsstring" where
  "digest X domain v = sha256_hex X (canonPreimage domain v)"

lemma canonicalHash_Inr [simp]: "canonicalHash X domain v = Inr h \<longleftrightarrow> valid_json v \<and> h = digest X domain v"
  by (auto simp: canonicalHash_def result_simps digest_def canonPreimage_def hashParts_def)

lemma canonicalHash_valid [simp]: "valid_json v \<Longrightarrow> canonicalHash X domain v = Inr (digest X domain v)"
  by simp

lemma canonicalHash_norm [simp]: "canonicalHash X domain (norm v) = canonicalHash X domain v"
  by (simp add: canonicalHash_def)

lemma digest_norm [simp]: "digest X domain (norm v) = digest X domain v"
  by (simp add: digest_def canonPreimage_def)

lemma digest_cong: "norm v = norm w \<Longrightarrow> digest X domain v = digest X domain w"
  by (metis digest_norm)

context node_env
begin

lemma hash64_digest [simp, intro]: "hash64 (digest X domain v)"
  by (simp add: digest_def digest_hash64)

lemma hash64_hashParts [simp, intro]: "hash64 (hashParts X domain ps)"
  by (simp add: hashParts_def digest_hash64)

end


section \<open>Unambiguous framing\<close>

lemma length_lengthPrefix [simp]: "length (lengthPrefix n) = 8"
  by (simp add: lengthPrefix_def)

lemma prefix_byte_bit:
  assumes "b < 64"
  shows "bit (ucast (drop_bit (56 - 8 * (7 - b div 8)) w) :: 8 word) (b mod 8) = bit (w :: 64 word) b"
proof -
  have "56 - 8 * (7 - b div 8) + b mod 8 = b" using assms by presburger
  then show ?thesis by (simp add: bit_ucast_iff bit_drop_bit_eq)
qed

lemma lengthPrefix_inj:
  assumes "m < 2 ^ 64" "n < 2 ^ 64" "lengthPrefix m = lengthPrefix n"
  shows "m = n"
proof -
  let ?w = "of_nat m :: 64 word" and ?u = "of_nat n :: 64 word"
  have "bit ?w b = bit ?u b" if b: "b < 64" for b
  proof -
    have "lengthPrefix m ! (7 - b div 8) = lengthPrefix n ! (7 - b div 8)" using assms(3) by simp
    then have "(ucast (drop_bit (56 - 8 * (7 - b div 8)) ?w) :: 8 word) = ucast (drop_bit (56 - 8 * (7 - b div 8)) ?u)"
      using nth_upt [of 0 "7 - b div 8" 8] by (simp add: lengthPrefix_def nth_map del: nth_map_upt upt.simps)
    then show ?thesis using prefix_byte_bit [OF b, of ?w] prefix_byte_bit [OF b, of ?u] by simp
  qed
  then have "?w = ?u" by (intro bit_word_eqI) simp
  then have "unat ?w = unat ?u" by simp
  then show ?thesis using assms(1,2) by (simp add: unat_of_nat)
qed

lemma frame_inj:
  assumes "length a < 2 ^ 64" "length b < 2 ^ 64" "frame a @ x = frame b @ y"
  shows "a = b \<and> x = y"
proof -
  have "take 8 (frame a @ x) = lengthPrefix (length a)" "take 8 (frame b @ y) = lengthPrefix (length b)"
    by (simp_all add: frame_def)
  then have "length a = length b" using assms by (metis lengthPrefix_inj)
  with assms(3) show ?thesis by (simp add: frame_def)
qed

lemma frames_inj:
  "list_all (\<lambda>b. length b < 2 ^ 64) as \<Longrightarrow> list_all (\<lambda>b. length b < 2 ^ 64) bs \<Longrightarrow>
   concat (map frame as) = concat (map frame bs) \<Longrightarrow> as = bs"
proof (induction as arbitrary: bs)
  case Nil
  then show ?case by (cases bs) (auto simp: frame_def lengthPrefix_def)
next
  case (Cons a as)
  from Cons.prems(3) obtain b bs' where bs: "bs = b # bs'"
    by (cases bs) (auto simp: frame_def lengthPrefix_def)
  with Cons.prems have "a = b \<and> concat (map frame as) = concat (map frame bs')"
    by (intro frame_inj) simp_all
  with Cons.IH [of bs'] Cons.prems bs show ?case by simp
qed

definition sized :: "part \<Rightarrow> bool" where
  "sized p \<longleftrightarrow> length (bytes p) < 2 ^ 64"

lemma preimage_inj:
  assumes "list_all sized (PartString d # ps)" "list_all sized (PartString d' # ps')"
    and "preimage d ps = preimage d' ps'"
  shows "utf8 d = utf8 d' \<and> map bytes ps = map bytes ps'"
proof -
  have "map bytes (PartString d # ps) = map bytes (PartString d' # ps')"
  proof (rule frames_inj)
    show "concat (map frame (map bytes (PartString d # ps))) = concat (map frame (map bytes (PartString d' # ps')))"
      using assms(3) by (simp add: preimage_def comp_def)
  qed (use assms(1,2) in \<open>auto simp: list_all_iff sized_def\<close>)
  then show ?thesis by simp
qed

text \<open>A value whose canonical text fits the 64-bit prefix; every limit of the code is far below.\<close>

definition small :: "json \<Rightarrow> bool" where
  "small v \<longleftrightarrow> jbytes v < 2 ^ 64"

lemma small_norm [simp]: "small (norm v) = small v"
  by (simp add: small_def jbytes_exact)

lemma canonical_preimage_inj:
  assumes "valid_json v" "valid_json w" "small v" "small w"
    and "well_formed d" "well_formed d'" "byteLength d < 2 ^ 64" "byteLength d' < 2 ^ 64"
    and "canonPreimage d v = canonPreimage d' w"
  shows "d = d' \<and> norm v = norm w"
proof -
  have "utf8 d = utf8 d' \<and> map bytes [PartString (canon v)] = map bytes [PartString (canon w)]"
    using assms by (intro preimage_inj) (simp_all add: canonPreimage_def sized_def small_def jbytes_exact byteLength_def)
  then have "d = d'" "canon v = canon w"
    using assms by (auto intro: utf8_inj)
  with assms show ?thesis by (simp add: canon_inj)
qed

lemma digest_inj:
  assumes "digest X d v = digest X d' w" "inj_on (sha256_hex X) S"
    and "canonPreimage d v \<in> S" "canonPreimage d' w \<in> S"
    and "valid_json v" "valid_json w" "small v" "small w"
    and "well_formed d" "well_formed d'" "byteLength d < 2 ^ 64" "byteLength d' < 2 ^ 64"
  shows "d = d' \<and> norm v = norm w"
  using assms(1-4) inj_onD [OF assms(2)] canonical_preimage_inj [OF assms(5-12)]
  by (auto simp: digest_def)

text \<open>Domain tags are short literals.\<close>

lemma well_formed_js [simp]: "well_formed (js s)"
proof (rule well_formed_units)
  fix u
  assume "u \<in> set (js s)"
  then obtain c where "u = of_char c" by (auto simp: js_def)
  with of_char_ascii [of c] show "\<not> is_high u \<and> \<not> is_low u"
    by (simp add: high_bounds low_bounds)
qed

definition tag :: "jsstring \<Rightarrow> bool" where
  "tag d \<longleftrightarrow> well_formed d \<and> byteLength d < 2 ^ 64"

lemma length_utf8_le: "length (utf8 s) \<le> 4 * length s"
  by (induction s rule: utf8.induct) (auto simp: utf8_unit_def utf8_pair_def Let_def)

lemma tag_js: "length s < 1000 \<Longrightarrow> tag (js s)"
  using length_utf8_le [of "js s"] by (simp add: tag_def byteLength_def)

lemma digest_inj_tag:
  "digest X d v = digest X d' w \<Longrightarrow> inj_on (sha256_hex X) S \<Longrightarrow>
    canonPreimage d v \<in> S \<Longrightarrow> canonPreimage d' w \<in> S \<Longrightarrow>
    valid_json v \<Longrightarrow> valid_json w \<Longrightarrow> small v \<Longrightarrow> small w \<Longrightarrow> tag d \<Longrightarrow> tag d' \<Longrightarrow> d = d' \<and> norm v = norm w"
  by (rule digest_inj) (auto simp: tag_def)

lemma jbytes_prefix: "jbytes (JObj xs) \<le> jbytes (JObj (xs @ ys))" "jbytes (JObj ys) \<le> jbytes (JObj (xs @ ys))"
  by simp_all

lemma small_within: "within_limits L v \<Longrightarrow> maxCanonicalBytes L < 2 ^ 64 \<Longrightarrow> small v"
  by (simp add: within_limits_def small_def)

end
