(* ===== verification/Event.thy ===== *)
theory Event
  imports Hash
begin

text \<open>
  \<^verbatim>\<open>src/core/event.ts\<close>: drafts handed over by providers, captured and stored events, their
  schemas, the derived identities and the verification of a stored event and of a page of the
  hash chain.

  A draft, a captured and a stored event are records that extend one another, as the TypeScript
  types do. \<open>draftFields\<close>, \<open>capturedContent\<close> and \<open>stored_json\<close> are their JSON
  renderings, \<open>draft_of\<close> and \<open>stored_of\<close> the casts of a schema-checked tree. What an event
  is, as far as the code can tell, is its JSON up to key order inside the payload; \<open>canonE\<close>
  normalizes the payload.

  What is shown: the casts and the renderings are inverse to each other on values the schemas
  accept; validation accepts exactly the conforming values within the limits and loses nothing;
  the guard list \<open>EVENT_SCHEMA_FIELDS\<close> covers every field of the schemas; a verified event
  determines, and is determined by, its hash; a verified page is a hash chain, and two verified
  pages of equal length with the same end hash are the same page.
\<close>

section \<open>Events\<close>

record ProviderIdentity =
  provider :: jsstring
  recordId :: jsstring
  revisionId :: jsstring
  artifactHash :: jsstring

record EventDraft =
  envelopeVersion :: int
  eventType :: jsstring
  schemaVersion :: int
  source :: jsstring
  subject :: jsstring
  occurredAtMs :: "int option"
  correlationId :: jsstring
  causationId :: "jsstring option"
  eventProvider :: ProviderIdentity
  payload :: json

record CapturedEvent = EventDraft +
  eventId :: jsstring
  streamVersion :: jsstring
  receivedAtMs :: int
  logicalAtMs :: int

record StoredEvent = CapturedEvent +
  position :: jsstring
  contentHash :: jsstring
  previousEventHash :: jsstring
  eventHash :: jsstring

definition EVENT_PAYLOAD_LIMITS :: JsonLimits where
  "EVENT_PAYLOAD_LIMITS = \<lparr>maxDepth = 32, maxNodes = 50000, maxArrayLength = 10000,
     maxObjectKeys = 10000, maxStringBytes = 256 * 1024, maxCanonicalBytes = 1024 * 1024\<rparr>"

definition EVENT_ENVELOPE_LIMITS :: JsonLimits where
  "EVENT_ENVELOPE_LIMITS = \<lparr>maxDepth = maxDepth EVENT_PAYLOAD_LIMITS + 1,
     maxNodes = maxNodes EVENT_PAYLOAD_LIMITS + 32,
     maxArrayLength = maxArrayLength EVENT_PAYLOAD_LIMITS,
     maxObjectKeys = maxObjectKeys EVENT_PAYLOAD_LIMITS,
     maxStringBytes = maxStringBytes EVENT_PAYLOAD_LIMITS,
     maxCanonicalBytes = maxCanonicalBytes EVENT_PAYLOAD_LIMITS + 16384\<rparr>"


section \<open>Schemas\<close>

definition EVENT_SCHEMA_FIELDS :: "string list" where
  "EVENT_SCHEMA_FIELDS =
     [''envelopeVersion'', ''type'', ''schemaVersion'', ''source'', ''subject'', ''occurredAtMs'',
      ''correlationId'', ''causationId'', ''provider'', ''recordId'', ''revisionId'',
      ''artifactHash'', ''payload'', ''eventId'', ''streamVersion'', ''receivedAtMs'',
      ''logicalAtMs'', ''position'', ''contentHash'', ''previousEventHash'', ''eventHash'']"

definition providerIdentitySchema :: schema where
  "providerIdentitySchema = ZObject
     [req ''provider'' zId, req ''recordId'' zId, req ''revisionId'' zId, req ''artifactHash'' zHash]"

definition eventDraftShape :: "(jsstring \<times> bool \<times> schema) list" where
  "eventDraftShape =
     [req ''envelopeVersion'' (ZLitInt 2), req ''type'' zId, req ''schemaVersion'' (ZInt (\<lambda>n. 0 < n)),
      req ''source'' zId, req ''subject'' zId, req ''occurredAtMs'' (ZNullable zNat),
      req ''correlationId'' zId, opt ''causationId'' zId, req ''provider'' providerIdentitySchema,
      req ''payload'' ZJsonObject]"

definition capturedEventShape :: "(jsstring \<times> bool \<times> schema) list" where
  "capturedEventShape = eventDraftShape @
     [req ''eventId'' zHash, req ''streamVersion'' zPositiveDecimal, req ''receivedAtMs'' zNat,
      req ''logicalAtMs'' zNat]"

definition storedEventShape :: "(jsstring \<times> bool \<times> schema) list" where
  "storedEventShape = capturedEventShape @
     [req ''position'' zPositiveDecimal, req ''contentHash'' zHash, req ''previousEventHash'' zHash,
      req ''eventHash'' zHash]"

definition eventDraftSchema :: schema where "eventDraftSchema = ZObject eventDraftShape"
definition storedEventSchema :: schema where "storedEventSchema = ZObject storedEventShape"


section \<open>JSON renderings and casts\<close>

definition provider_json :: "ProviderIdentity \<Rightarrow> json" where
  "provider_json p = JObj (field ''provider'' (JStr (provider p)) @ field ''recordId'' (JStr (recordId p)) @
     field ''revisionId'' (JStr (revisionId p)) @ field ''artifactHash'' (JStr (artifactHash p)))"

definition provider_of :: "json \<Rightarrow> ProviderIdentity" where
  "provider_of v = \<lparr>provider = getStr v ''provider'', recordId = getStr v ''recordId'',
     revisionId = getStr v ''revisionId'', artifactHash = getStr v ''artifactHash''\<rparr>"

definition draftFields :: "'a EventDraft_scheme \<Rightarrow> (jsstring \<times> json) list" where
  "draftFields e =
     field ''envelopeVersion'' (jint (envelopeVersion e)) @ field ''type'' (JStr (eventType e)) @
     field ''schemaVersion'' (jint (schemaVersion e)) @ field ''source'' (JStr (source e)) @
     field ''subject'' (JStr (subject e)) @ field ''occurredAtMs'' (jnull jint (occurredAtMs e)) @
     field ''correlationId'' (JStr (correlationId e)) @ field ''provider'' (provider_json (eventProvider e)) @
     field ''payload'' (payload e) @ optField ''causationId'' JStr (causationId e)"

definition draft_json :: "EventDraft \<Rightarrow> json" where
  "draft_json d = JObj (draftFields d)"

definition draftFromStored :: "'a EventDraft_scheme \<Rightarrow> EventDraft" where
  "draftFromStored e = \<lparr>envelopeVersion = envelopeVersion e, eventType = eventType e,
     schemaVersion = schemaVersion e, source = source e, subject = subject e,
     occurredAtMs = occurredAtMs e, correlationId = correlationId e, causationId = causationId e,
     eventProvider = eventProvider e, payload = payload e\<rparr>"

definition capturedContent :: "'a CapturedEvent_scheme \<Rightarrow> json" where
  "capturedContent e = JObj (draftFields (draftFromStored e) @ field ''eventId'' (JStr (eventId e)) @
     field ''streamVersion'' (JStr (streamVersion e)) @ field ''receivedAtMs'' (jint (receivedAtMs e)) @
     field ''logicalAtMs'' (jint (logicalAtMs e)))"

definition stored_json :: "StoredEvent \<Rightarrow> json" where
  "stored_json e = JObj (draftFields e @ field ''eventId'' (JStr (eventId e)) @
     field ''streamVersion'' (JStr (streamVersion e)) @ field ''receivedAtMs'' (jint (receivedAtMs e)) @
     field ''logicalAtMs'' (jint (logicalAtMs e)) @ field ''position'' (JStr (position e)) @
     field ''contentHash'' (JStr (contentHash e)) @ field ''previousEventHash'' (JStr (previousEventHash e)) @
     field ''eventHash'' (JStr (eventHash e)))"

definition draft_of :: "json \<Rightarrow> EventDraft" where
  "draft_of v = \<lparr>envelopeVersion = getInt v ''envelopeVersion'', eventType = getStr v ''type'',
     schemaVersion = getInt v ''schemaVersion'', source = getStr v ''source'',
     subject = getStr v ''subject'', occurredAtMs = getIntOpt v ''occurredAtMs'',
     correlationId = getStr v ''correlationId'', causationId = getStrOpt v ''causationId'',
     eventProvider = provider_of (getJson v ''provider''), payload = getJson v ''payload''\<rparr>"

definition stored_of :: "json \<Rightarrow> StoredEvent" where
  "stored_of v = \<lparr>envelopeVersion = getInt v ''envelopeVersion'', eventType = getStr v ''type'',
     schemaVersion = getInt v ''schemaVersion'', source = getStr v ''source'',
     subject = getStr v ''subject'', occurredAtMs = getIntOpt v ''occurredAtMs'',
     correlationId = getStr v ''correlationId'', causationId = getStrOpt v ''causationId'',
     eventProvider = provider_of (getJson v ''provider''), payload = getJson v ''payload'',
     eventId = getStr v ''eventId'', streamVersion = getStr v ''streamVersion'',
     receivedAtMs = getInt v ''receivedAtMs'', logicalAtMs = getInt v ''logicalAtMs'',
     position = getStr v ''position'', contentHash = getStr v ''contentHash'',
     previousEventHash = getStr v ''previousEventHash'', eventHash = getStr v ''eventHash''\<rparr>"


section \<open>Validation\<close>

definition parseEventDraft :: "externals \<Rightarrow> json \<Rightarrow> EventDraft result" where
  "parseEventDraft X value =
     bindR (assertSchemaPrototypeSafety X EVENT_SCHEMA_FIELDS) (\<lambda>_.
     bindR (inertJsonSnapshot value) (\<lambda>snapshot.
     bindR (zodParse X eventDraftSchema snapshot) (\<lambda>parsed.
     bindR (checkJson EVENT_PAYLOAD_LIMITS (getJson parsed ''payload'')) (\<lambda>_.
     bindR (cloneJson parsed) (\<lambda>copy. Inr (draft_of copy))))))"

definition parseStoredEvent :: "externals \<Rightarrow> json \<Rightarrow> StoredEvent result" where
  "parseStoredEvent X value =
     bindR (assertSchemaPrototypeSafety X EVENT_SCHEMA_FIELDS) (\<lambda>_.
     bindR (inertJsonSnapshot value) (\<lambda>snapshot.
     bindR (zodParse X storedEventSchema snapshot) (\<lambda>parsed.
     bindR (checkJson EVENT_PAYLOAD_LIMITS (getJson parsed ''payload'')) (\<lambda>_.
     bindR (canonicalJson parsed) (\<lambda>_.
     bindR (cloneJson parsed) (\<lambda>copy. Inr (stored_of copy)))))))"

definition validateEventDraft :: "externals \<Rightarrow> json \<Rightarrow> EventDraft result" where
  "validateEventDraft X value = bindR (checkJson EVENT_ENVELOPE_LIMITS value) (\<lambda>_. parseEventDraft X value)"

definition validateEventDraftJson :: "externals \<Rightarrow> jsstring \<Rightarrow> EventDraft result" where
  "validateEventDraftJson X serialized =
     bindR (parseJsonWithinLimits serialized EVENT_ENVELOPE_LIMITS) (parseEventDraft X)"

definition validateStoredEvent :: "externals \<Rightarrow> json \<Rightarrow> StoredEvent result" where
  "validateStoredEvent X value = bindR (checkJson EVENT_ENVELOPE_LIMITS value) (\<lambda>_. parseStoredEvent X value)"

definition validateStoredEventJson :: "externals \<Rightarrow> jsstring \<Rightarrow> StoredEvent result" where
  "validateStoredEventJson X serialized =
     bindR (parseJsonWithinLimits serialized EVENT_ENVELOPE_LIMITS) (parseStoredEvent X)"


section \<open>Identities and the hash chain\<close>

definition providerKey :: "externals \<Rightarrow> ProviderIdentity \<Rightarrow> jsstring result" where
  "providerKey X p = canonicalHash X (js ''peas/provider-identity/v1'')
     (JObj (field ''provider'' (JStr (provider p)) @ field ''recordId'' (JStr (recordId p)) @
       field ''revisionId'' (JStr (revisionId p))))"

definition deriveEventId :: "externals \<Rightarrow> ProviderIdentity \<Rightarrow> jsstring result" where
  "deriveEventId X p = canonicalHash X (js ''peas/local-event-id/v2'')
     (JObj (field ''provider'' (JStr (provider p)) @ field ''recordId'' (JStr (recordId p)) @
       field ''revisionId'' (JStr (revisionId p)) @ field ''artifactHash'' (JStr (artifactHash p))))"

definition computeContentHash :: "externals \<Rightarrow> 'a CapturedEvent_scheme \<Rightarrow> jsstring result" where
  "computeContentHash X e = canonicalHash X (js ''peas/event-content/v2'') (capturedContent e)"

definition chainLink :: "jsstring \<Rightarrow> jsstring \<Rightarrow> jsstring \<Rightarrow> json" where
  "chainLink pos content previous = JObj (field ''position'' (JStr pos) @ field ''contentHash'' (JStr content) @
     field ''previousEventHash'' (JStr previous))"

definition computeEventHash :: "externals \<Rightarrow> jsstring \<Rightarrow> jsstring \<Rightarrow> jsstring \<Rightarrow> jsstring result" where
  "computeEventHash X pos content previous = canonicalHash X (js ''peas/event-chain/v2'') (chainLink pos content previous)"

definition verifyStoredEvent :: "externals \<Rightarrow> StoredEvent \<Rightarrow> jsstring option \<Rightarrow> unit result" where
  "verifyStoredEvent X event expectedPreviousHash =
     bindR (validateStoredEvent X (stored_json event)) (\<lambda>validated.
     if expectedPreviousHash \<noteq> None \<and> expectedPreviousHash \<noteq> Some (previousEventHash validated)
     then Inl (PlainError ''Event chain mismatch'')
     else bindR (deriveEventId X (eventProvider validated)) (\<lambda>expectedId.
     if eventId validated \<noteq> expectedId then Inl (PlainError ''Event ID mismatch'')
     else bindR (computeContentHash X validated) (\<lambda>expectedContent.
     if contentHash validated \<noteq> expectedContent then Inl (PlainError ''Content hash mismatch'')
     else bindR (computeEventHash X (position validated) (contentHash validated) (previousEventHash validated))
       (\<lambda>expectedHash.
     if eventHash validated \<noteq> expectedHash then Inl (PlainError ''Event hash mismatch'')
     else Inr ()))))"

fun verifyEventPage :: "externals \<Rightarrow> StoredEvent list \<Rightarrow> jsstring \<Rightarrow> jsstring result" where
  "verifyEventPage X [] expectedPreviousHash = Inr expectedPreviousHash"
| "verifyEventPage X (event # events) expectedPreviousHash =
     bindR (verifyStoredEvent X event (Some expectedPreviousHash)) (\<lambda>_.
     verifyEventPage X events (eventHash event))"

definition assertPageLimit :: "jsnum \<Rightarrow> unit result" where
  "assertPageLimit limit =
     (case limit of
        NInt n \<Rightarrow> assertR (1 \<le> n \<and> n \<le> 10000) (RangeError ''Page limit must be an integer between 1 and 10,000'')
      | _ \<Rightarrow> Inl (RangeError ''Page limit must be an integer between 1 and 10,000''))"


section \<open>Casts and renderings\<close>

lemma provider_of_json [simp]: "provider_of (provider_json p) = p"
  by (simp add: provider_of_def provider_json_def reader_defs)

lemma stored_of_json [simp]: "stored_of (stored_json e) = e"
  by (simp add: stored_of_def stored_json_def draftFields_def jnull_def jint_def reader_defs split: option.splits)

lemma draft_of_json [simp]: "draft_of (draft_json d) = d"
  by (simp add: draft_of_def draft_json_def draftFields_def jnull_def jint_def reader_defs split: option.splits)

lemmas z_defs = zHash_def zId_def zNat_def zPositiveDecimal_def zNonnegativeDecimal_def

lemma provider_rebuild:
  assumes "valid_json v" "conforms providerIdentitySchema v"
  shows "norm (provider_json (provider_of v)) = norm v"
  unfolding provider_json_def
proof (rule norm_rebuild [OF assms(1), of _ "map js [''provider'', ''recordId'', ''revisionId'', ''artifactHash'']"])
  show "conforms (ZObject [req ''provider'' zId, req ''recordId'' zId, req ''revisionId'' zId, req ''artifactHash'' zHash]) v"
    using assms(2) by (simp only: providerIdentitySchema_def)
  then show "map (apsnd norm)
      (field ''provider'' (JStr (provider (provider_of v))) @ field ''recordId'' (JStr (recordId (provider_of v))) @
       field ''revisionId'' (JStr (revisionId (provider_of v))) @ field ''artifactHash'' (JStr (artifactHash (provider_of v)))) =
    map (apsnd norm) (project (map js [''provider'', ''recordId'', ''revisionId'', ''artifactHash'']) v)"
    by (simp add: check_simps z_defs provider_of_def del: conforms.simps)
qed (simp_all add: js_names)

definition draftNames :: "string list" where
  "draftNames = [''envelopeVersion'', ''type'', ''schemaVersion'', ''source'', ''subject'', ''occurredAtMs'',
     ''correlationId'', ''provider'', ''payload'', ''causationId'']"

definition storedNames :: "string list" where
  "storedNames = draftNames @ [''eventId'', ''streamVersion'', ''receivedAtMs'', ''logicalAtMs'', ''position'',
     ''contentHash'', ''previousEventHash'', ''eventHash'']"

lemmas event_shapes = eventDraftSchema_def storedEventSchema_def eventDraftShape_def capturedEventShape_def
  storedEventShape_def

lemma draft_provider:
  assumes "valid_json v" "list_all (fieldOk v) eventDraftShape"
  shows "norm (provider_json (provider_of (getJson v ''provider''))) = norm (getJson v ''provider'')"
proof -
  have f: "conforms providerIdentitySchema (getJson v ''provider'')" "jget v (js ''provider'') = Some (getJson v ''provider'')"
    using assms(2)
    by (simp_all add: eventDraftShape_def check_simps z_defs providerIdentitySchema_def del: conforms.simps)
  show ?thesis using f(1) jget_valid [OF f(2) assms(1)] by (intro provider_rebuild)
qed

lemma draft_rebuild:
  assumes "valid_json v" "conforms eventDraftSchema v"
  shows "norm (draft_json (draft_of v)) = norm v"
  unfolding draft_json_def
proof (rule norm_rebuild [OF assms(1) assms(2) [unfolded eventDraftSchema_def], of "map js draftNames"])
  have f: "list_all (fieldOk v) eventDraftShape"
    using assms(2) by (simp add: eventDraftSchema_def conforms_shape del: conforms.simps)
  with draft_provider [OF assms(1) f]
  show "map (apsnd norm) (draftFields (draft_of v)) = map (apsnd norm) (project (map js draftNames) v)"
    by (simp add: eventDraftShape_def providerIdentitySchema_def check_simps z_defs draftFields_def draft_of_def
        optField_def draftNames_def del: conforms.simps split: option.splits)
qed (auto simp: js_names eventDraftShape_def draftNames_def)

lemma stored_rebuild:
  assumes "valid_json v" "conforms storedEventSchema v"
  shows "norm (stored_json (stored_of v)) = norm v"
  unfolding stored_json_def
proof (rule norm_rebuild [OF assms(1) assms(2) [unfolded storedEventSchema_def], of "map js storedNames"])
  have f: "list_all (fieldOk v) storedEventShape"
    using assms(2) by (simp add: storedEventSchema_def conforms_shape del: conforms.simps)
  then have "list_all (fieldOk v) eventDraftShape" by (simp add: storedEventShape_def capturedEventShape_def)
  from f draft_provider [OF assms(1) this]
  show "map (apsnd norm) (draftFields (stored_of v) @ field ''eventId'' (JStr (eventId (stored_of v))) @
     field ''streamVersion'' (JStr (streamVersion (stored_of v))) @
     field ''receivedAtMs'' (jint (receivedAtMs (stored_of v))) @
     field ''logicalAtMs'' (jint (logicalAtMs (stored_of v))) @ field ''position'' (JStr (position (stored_of v))) @
     field ''contentHash'' (JStr (contentHash (stored_of v))) @
     field ''previousEventHash'' (JStr (previousEventHash (stored_of v))) @
     field ''eventHash'' (JStr (eventHash (stored_of v)))) = map (apsnd norm) (project (map js storedNames) v)"
    by (simp add: event_shapes providerIdentitySchema_def check_simps z_defs draftFields_def stored_of_def
        optField_def draftNames_def storedNames_def del: conforms.simps split: option.splits)
qed (auto simp: js_names event_shapes draftNames_def storedNames_def)

lemma provider_of_norm: "valid_json v \<Longrightarrow> provider_of (norm (getJson v k)) = provider_of (getJson v k)"
  by (simp add: provider_of_def getStr_def getJson_valid_eq)

definition canonE :: "StoredEvent \<Rightarrow> StoredEvent" where
  "canonE e = e\<lparr>payload := norm (payload e)\<rparr>"

lemma stored_of_norm: "valid_json v \<Longrightarrow> stored_of (norm v) = canonE (stored_of v)"
  by (simp add: stored_of_def canonE_def provider_of_norm)

lemma draft_of_norm: "valid_json v \<Longrightarrow> draft_of (norm v) = (draft_of v)\<lparr>payload := norm (payload (draft_of v))\<rparr>"
  by (simp add: draft_of_def provider_of_norm)

lemma stored_json_canonE: "norm (stored_json (canonE e)) = norm (stored_json e)"
  unfolding stored_json_def by (rule norm_obj_cong) (simp add: draftFields_def canonE_def)

lemma stored_json_eq: "valid_json (stored_json e) \<Longrightarrow> valid_json (stored_json e') \<Longrightarrow>
    norm (stored_json e) = norm (stored_json e') \<longleftrightarrow> canonE e = canonE e'"
  by (metis stored_json_canonE stored_of_json stored_of_norm)


section \<open>What validation accepts\<close>

text \<open>The guard list names every field of the schemas.\<close>

lemma event_fields_covered:
  "set (schema_fields eventDraftSchema) \<subseteq> js ` set EVENT_SCHEMA_FIELDS"
  "set (schema_fields storedEventSchema) \<subseteq> js ` set EVENT_SCHEMA_FIELDS"
  by (simp_all add: event_shapes providerIdentitySchema_def schema_defs EVENT_SCHEMA_FIELDS_def)

definition wf_stored :: "StoredEvent \<Rightarrow> bool" where
  "wf_stored e \<longleftrightarrow> within_limits EVENT_ENVELOPE_LIMITS (stored_json e) \<and>
     conforms storedEventSchema (stored_json e) \<and> within_limits EVENT_PAYLOAD_LIMITS (payload e)"

definition wf_draft :: "EventDraft \<Rightarrow> bool" where
  "wf_draft d \<longleftrightarrow> within_limits EVENT_ENVELOPE_LIMITS (draft_json d) \<and>
     conforms eventDraftSchema (draft_json d) \<and> within_limits EVENT_PAYLOAD_LIMITS (payload d)"

lemma event_limits_ok [simp]: "assertJsonLimits EVENT_PAYLOAD_LIMITS" "assertJsonLimits EVENT_ENVELOPE_LIMITS"
  by (simp_all add: assertJsonLimits_def EVENT_PAYLOAD_LIMITS_def EVENT_ENVELOPE_LIMITS_def isSafeInteger_def
      MAX_SAFE_INTEGER_def)

context node_env
begin

lemma parseStoredEvent_Inr:
  "parseStoredEvent X v = Inr e \<longleftrightarrow>
     protoSafe X EVENT_SCHEMA_FIELDS \<and> valid_json v \<and> conforms storedEventSchema v \<and>
     within_limits EVENT_PAYLOAD_LIMITS (getJson v ''payload'') \<and> e = stored_of (norm v)"
  unfolding parseStoredEvent_def
  by (subst guarded_parse [OF event_fields_covered(2)]) (auto simp: result_simps checkJson_ok cloneJson_Inr)

lemma parseEventDraft_Inr:
  "parseEventDraft X v = Inr d \<longleftrightarrow>
     protoSafe X EVENT_SCHEMA_FIELDS \<and> valid_json v \<and> conforms eventDraftSchema v \<and>
     within_limits EVENT_PAYLOAD_LIMITS (getJson v ''payload'') \<and> d = draft_of (norm v)"
  unfolding parseEventDraft_def
  by (subst guarded_parse [OF event_fields_covered(1)]) (auto simp: result_simps checkJson_ok cloneJson_Inr)

lemma validateStoredEvent_Inr:
  "validateStoredEvent X v = Inr e \<longleftrightarrow>
     protoSafe X EVENT_SCHEMA_FIELDS \<and> within_limits EVENT_ENVELOPE_LIMITS v \<and> conforms storedEventSchema v \<and>
     within_limits EVENT_PAYLOAD_LIMITS (getJson v ''payload'') \<and> e = stored_of (norm v)"
  by (auto simp: validateStoredEvent_def result_simps checkJson_ok parseStoredEvent_Inr dest: within_limits_valid)

lemma validateEventDraft_Inr:
  "validateEventDraft X v = Inr d \<longleftrightarrow>
     protoSafe X EVENT_SCHEMA_FIELDS \<and> within_limits EVENT_ENVELOPE_LIMITS v \<and> conforms eventDraftSchema v \<and>
     within_limits EVENT_PAYLOAD_LIMITS (getJson v ''payload'') \<and> d = draft_of (norm v)"
  by (auto simp: validateEventDraft_def result_simps checkJson_ok parseEventDraft_Inr dest: within_limits_valid)

text \<open>On renderings of typed events.\<close>

lemma validateStoredEvent_json:
  "validateStoredEvent X (stored_json e) = Inr e' \<longleftrightarrow>
     protoSafe X EVENT_SCHEMA_FIELDS \<and> wf_stored e \<and> e' = canonE e"
proof -
  have "getJson (stored_json e) ''payload'' = payload e"
    by (simp add: stored_json_def draftFields_def reader_defs)
  then show ?thesis
    unfolding validateStoredEvent_Inr wf_stored_def
    using stored_of_norm [of "stored_json e"] within_limits_valid [of EVENT_ENVELOPE_LIMITS "stored_json e"] by auto
qed

lemma validateStoredEvent_wf:
  assumes "validateStoredEvent X v = Inr e"
  shows "wf_stored e \<and> canonE e = e \<and> norm (stored_json e) = norm v"
proof -
  from assms have v: "valid_json v" "conforms storedEventSchema v" "e = stored_of (norm v)"
    "within_limits EVENT_ENVELOPE_LIMITS v" "within_limits EVENT_PAYLOAD_LIMITS (getJson v ''payload'')"
    by (auto simp: validateStoredEvent_Inr dest: within_limits_valid)
  have n: "norm (stored_json e) = norm v"
    using stored_rebuild [of "norm v"] v(1,2) by (simp add: v(3) conforms_norm)
  then have "valid_json (stored_json e)" using v(1) by (metis valid_norm)
  with n v(1,2,4) have "within_limits EVENT_ENVELOPE_LIMITS (stored_json e)" "conforms storedEventSchema (stored_json e)"
    using within_limits_cong conforms_cong by blast+
  moreover have "payload e = norm (getJson v ''payload'')"
    unfolding v(3) stored_of_def using v(1) by simp
  ultimately show ?thesis using n v(5) by (simp add: wf_stored_def canonE_def)
qed

lemma validateEventDraft_wf:
  assumes "validateEventDraft X v = Inr d"
  shows "wf_draft d \<and> norm (payload d) = payload d \<and> norm (draft_json d) = norm v"
proof -
  from assms have v: "valid_json v" "conforms eventDraftSchema v" "d = draft_of (norm v)"
    "within_limits EVENT_ENVELOPE_LIMITS v" "within_limits EVENT_PAYLOAD_LIMITS (getJson v ''payload'')"
    by (auto simp: validateEventDraft_Inr dest: within_limits_valid)
  have n: "norm (draft_json d) = norm v"
    using draft_rebuild [of "norm v"] v(1,2) by (simp add: v(3) conforms_norm)
  then have "valid_json (draft_json d)" using v(1) by (metis valid_norm)
  with n v(1,2,4) have "within_limits EVENT_ENVELOPE_LIMITS (draft_json d)" "conforms eventDraftSchema (draft_json d)"
    using within_limits_cong conforms_cong by blast+
  moreover have "payload d = norm (getJson v ''payload'')"
    unfolding v(3) draft_of_def using v(1) by simp
  ultimately show ?thesis using n v(5) by (simp add: wf_draft_def)
qed

end


section \<open>Typed reading of well-formed events\<close>

text \<open>The schema checks of a rendering, field by field.\<close>

definition providerOk :: "ProviderIdentity \<Rightarrow> bool" where
  "providerOk p \<longleftrightarrow> bounded_id (provider p) \<and> bounded_id (recordId p) \<and> bounded_id (revisionId p) \<and>
     hash64 (artifactHash p)"

definition draftOk :: "'a EventDraft_scheme \<Rightarrow> bool" where
  "draftOk d \<longleftrightarrow> envelopeVersion d = 2 \<and> bounded_id (eventType d) \<and>
     isSafeInteger (schemaVersion d) \<and> 0 < schemaVersion d \<and>
     bounded_id (source d) \<and> bounded_id (subject d) \<and>
     pred_option (\<lambda>n. isSafeInteger n \<and> 0 \<le> n) (occurredAtMs d) \<and> bounded_id (correlationId d) \<and>
     pred_option bounded_id (causationId d) \<and> providerOk (eventProvider d) \<and>
     conforms ZJsonObject (payload d)"

definition storedOk :: "StoredEvent \<Rightarrow> bool" where
  "storedOk e \<longleftrightarrow> draftOk e \<and> hash64 (eventId e) \<and> positive_decimal (streamVersion e) \<and>
     isSafeInteger (receivedAtMs e) \<and> 0 \<le> receivedAtMs e \<and> isSafeInteger (logicalAtMs e) \<and> 0 \<le> logicalAtMs e \<and>
     positive_decimal (position e) \<and> hash64 (contentHash e) \<and> hash64 (previousEventHash e) \<and> hash64 (eventHash e)"

lemma conforms_provider: "conforms providerIdentitySchema (provider_json p) = providerOk p"
  by (simp add: providerIdentitySchema_def check_simps z_defs provider_json_def hasOnly_JObj js_names providerOk_def
      reader_defs del: conforms.simps)

lemma conforms_draft: "conforms eventDraftSchema (draft_json d) = draftOk d"
  by (cases "occurredAtMs d"; cases "causationId d")
    (use conforms_provider [unfolded providerIdentitySchema_def z_defs] in
     \<open>simp_all add: event_shapes providerIdentitySchema_def fieldOk_simps
      conforms_shape [of "_ # _ # _ # _ # _ # _"] z_defs draft_json_def draftFields_def hasOnly_JObj js_names draftOk_def
      reader_defs jint_def del: conforms.simps\<close>)

lemma conforms_stored: "conforms storedEventSchema (stored_json e) = storedOk e"
  by (cases "occurredAtMs e"; cases "causationId e")
    (use conforms_provider [unfolded providerIdentitySchema_def z_defs] in
     \<open>simp_all add: event_shapes providerIdentitySchema_def fieldOk_simps
      conforms_shape [of "_ # _ # _ # _ # _ # _"] z_defs stored_json_def draftFields_def hasOnly_JObj js_names draftOk_def
      storedOk_def reader_defs jint_def del: conforms.simps\<close>)

lemma draftFields_draftFromStored [simp]: "draftFields (draftFromStored e) = draftFields e"
  by (simp add: draftFields_def draftFromStored_def)

lemma valid_provider: "valid_json (provider_json p) \<longleftrightarrow>
    scalar (provider p) \<and> scalar (recordId p) \<and> scalar (revisionId p) \<and> scalar (artifactHash p)"
  by (simp add: provider_json_def)

lemma valid_captured: "valid_json (capturedContent e) \<longleftrightarrow>
    valid_json (draft_json (draftFromStored e)) \<and> scalar (eventId e) \<and> scalar (streamVersion e) \<and>
    isSafeInteger (receivedAtMs e) \<and> isSafeInteger (logicalAtMs e)"
  by (cases "causationId e")
    (auto simp: capturedContent_def draft_json_def draftFields_def draftFromStored_def)

lemma valid_stored: "valid_json (stored_json e) \<longleftrightarrow>
    valid_json (capturedContent e) \<and> valid_json (chainLink (position e) (contentHash e) (previousEventHash e)) \<and>
    scalar (eventHash e)"
  by (cases "causationId e")
    (auto simp: stored_json_def capturedContent_def draftFields_def draftFromStored_def chainLink_def)

lemma valid_draft_provider: "valid_json (draft_json d) \<Longrightarrow> valid_json (provider_json (eventProvider d))"
  by (auto simp: draft_json_def draftFields_def)

lemma capturedContent_canonE: "norm (capturedContent (canonE e)) = norm (capturedContent e)"
  unfolding capturedContent_def draftFields_draftFromStored
  by (rule norm_obj_cong) (simp add: draftFields_def canonE_def)

lemma wf_stored_valid:
  assumes "wf_stored e"
  shows "valid_json (stored_json e)" "valid_json (provider_json (eventProvider e))" "valid_json (capturedContent e)"
    "valid_json (chainLink (position e) (contentHash e) (previousEventHash e))"
proof -
  show v: "valid_json (stored_json e)" using assms by (auto simp: wf_stored_def within_limits_valid)
  then show c: "valid_json (capturedContent e)"
    "valid_json (chainLink (position e) (contentHash e) (previousEventHash e))" by (simp_all add: valid_stored)
  then show "valid_json (provider_json (eventProvider e))"
    using valid_draft_provider [of "draftFromStored e"] by (simp add: valid_captured draftFromStored_def)
qed


section \<open>Verified events and pages\<close>

text \<open>The hash conditions of a stored event, as equations between strings.\<close>

definition sealed :: "externals \<Rightarrow> StoredEvent \<Rightarrow> bool" where
  "sealed X e \<longleftrightarrow>
     eventId e = digest X (js ''peas/local-event-id/v2'') (provider_json (eventProvider e)) \<and>
     contentHash e = digest X (js ''peas/event-content/v2'') (capturedContent e) \<and>
     eventHash e = digest X (js ''peas/event-chain/v2'') (chainLink (position e) (contentHash e) (previousEventHash e))"

text \<open>The links between neighbours, and the hash at the end of a page.\<close>

fun linked :: "jsstring \<Rightarrow> StoredEvent list \<Rightarrow> bool" where
  "linked p [] \<longleftrightarrow> True"
| "linked p (e # es) \<longleftrightarrow> previousEventHash e = p \<and> linked (eventHash e) es"

definition endHash :: "jsstring \<Rightarrow> StoredEvent list \<Rightarrow> jsstring" where
  "endHash p es = (if es = [] then p else eventHash (last es))"

lemma endHash_Cons: "endHash p (e # es) = endHash (eventHash e) es"
  by (simp add: endHash_def)

lemma endHash_snoc [simp]: "endHash p (es @ [e]) = eventHash e"
  by (simp add: endHash_def)

lemma endHash_Nil [simp]: "endHash p [] = p"
  by (simp add: endHash_def)

lemma linked_append: "linked p (es @ fs) \<longleftrightarrow> linked p es \<and> linked (endHash p es) fs"
  by (induction es arbitrary: p) (auto simp: endHash_Cons)

lemma deriveEventId_eq: "deriveEventId X p = canonicalHash X (js ''peas/local-event-id/v2'') (provider_json p)"
  by (simp add: deriveEventId_def provider_json_def)

lemma sealed_canonE [simp]: "sealed X (canonE e) = sealed X e"
  using digest_cong [OF capturedContent_canonE, of X _ e] by (simp add: sealed_def) (simp add: canonE_def)

lemma canonE_fields [simp]:
  "position (canonE e) = position e" "contentHash (canonE e) = contentHash e"
  "previousEventHash (canonE e) = previousEventHash e" "eventHash (canonE e) = eventHash e"
  "eventId (canonE e) = eventId e" "logicalAtMs (canonE e) = logicalAtMs e" "eventProvider (canonE e) = eventProvider e"
  "subject (canonE e) = subject e" "streamVersion (canonE e) = streamVersion e" "receivedAtMs (canonE e) = receivedAtMs e"
  "payload (canonE e) = norm (payload e)"
  by (simp_all add: canonE_def)

lemma canonE_idem [simp]: "canonE (canonE e) = canonE e"
  by (simp add: canonE_def)

lemma wf_stored_canonE [simp]: "wf_stored (canonE e) = wf_stored e"
proof -
  have n: "norm (stored_json (canonE e)) = norm (stored_json e)" by (rule stored_json_canonE)
  then have "valid_json (stored_json (canonE e)) = valid_json (stored_json e)" by (metis valid_norm)
  then show ?thesis
    unfolding wf_stored_def canonE_fields within_limits_cong [OF n] within_limits_norm
    using conforms_cong [OF n] by (auto dest: within_limits_valid)
qed

context node_env
begin

lemma verifyStoredEvent_Inr:
  "verifyStoredEvent X e expected = Inr u \<longleftrightarrow>
     protoSafe X EVENT_SCHEMA_FIELDS \<and> wf_stored e \<and> sealed X e \<and>
     (expected = None \<or> expected = Some (previousEventHash e))"
proof (cases "protoSafe X EVENT_SCHEMA_FIELDS \<and> wf_stored e")
  case True
  then have v: "validateStoredEvent X (stored_json e) = Inr (canonE e)" by (simp add: validateStoredEvent_json)
  have "wf_stored (canonE e)" using True by simp
  note valid = wf_stored_valid [OF this]
  show ?thesis
    unfolding verifyStoredEvent_def v sealed_canonE [symmetric, of X e] sealed_def
    using True valid digest_cong [OF capturedContent_canonE, of X _ e]
    by (auto simp: deriveEventId_eq computeContentHash_def computeEventHash_def split: if_splits)
next
  case False
  then have "\<nexists>e'. validateStoredEvent X (stored_json e) = Inr e'" by (simp add: validateStoredEvent_json)
  with False show ?thesis unfolding verifyStoredEvent_def bindR_eq_Inr by blast
qed

lemma verifyEventPage_Inr:
  "verifyEventPage X es p = Inr q \<longleftrightarrow>
     (es \<noteq> [] \<longrightarrow> protoSafe X EVENT_SCHEMA_FIELDS) \<and> list_all (\<lambda>e. wf_stored e \<and> sealed X e) es \<and>
     linked p es \<and> q = endHash p es"
proof (induction es arbitrary: p)
  case (Cons e es)
  have "verifyEventPage X (e # es) p = Inr q \<longleftrightarrow>
      (\<exists>u. verifyStoredEvent X e (Some p) = Inr u) \<and> verifyEventPage X es (eventHash e) = Inr q"
    by (simp add: result_simps)
  then show ?case unfolding Cons.IH verifyStoredEvent_Inr by (auto simp: endHash_Cons)
qed (auto simp: endHash_def)

end


section \<open>Tamper evidence\<close>

text \<open>The byte strings that verifying one event feeds to SHA-256 for its content and its chain link.\<close>

definition eventPreimages :: "StoredEvent \<Rightarrow> 8 word list set" where
  "eventPreimages e =
     {canonPreimage (js ''peas/event-content/v2'') (capturedContent e),
      canonPreimage (js ''peas/event-chain/v2'') (chainLink (position e) (contentHash e) (previousEventHash e))}"

lemma chainLink_inj:
  assumes "norm (chainLink p c h) = norm (chainLink p' c' h')" "valid_json (chainLink p c h)" "valid_json (chainLink p' c' h')"
  shows "p = p' \<and> c = c' \<and> h = h'"
proof -
  have r: "getStr (chainLink a b d) ''position'' = a" "getStr (chainLink a b d) ''contentHash'' = b"
    "getStr (chainLink a b d) ''previousEventHash'' = d" for a b d
    by (simp_all add: chainLink_def reader_defs)
  show ?thesis using r [of p c h] r [of p' c' h'] assms by (metis getStr_norm)
qed

lemma stored_of_captured: "stored_of (capturedContent e) =
    e\<lparr>position := [], contentHash := [], previousEventHash := [], eventHash := []\<rparr>"
  by (simp add: stored_of_def capturedContent_def draftFields_def draftFromStored_def jnull_def jint_def reader_defs
      split: option.splits)

lemma captured_inj:
  assumes "norm (capturedContent e) = norm (capturedContent e')" "valid_json (capturedContent e)" "valid_json (capturedContent e')"
    and "position e = position e'" "contentHash e = contentHash e'" "previousEventHash e = previousEventHash e'"
      "eventHash e = eventHash e'"
  shows "canonE e = canonE (e' :: StoredEvent)"
proof -
  have "canonE (stored_of (capturedContent e)) = canonE (stored_of (capturedContent e'))"
    using assms(1-3) by (metis stored_of_norm)
  then show ?thesis using assms(4-7) by (cases e; cases e') (simp add: stored_of_captured canonE_def)
qed

lemma wf_stored_small:
  assumes "wf_stored e"
  shows "small (capturedContent e)" "small (chainLink (position e) (contentHash e) (previousEventHash e))"
proof -
  have s: "small (stored_json e)"
    using assms by (auto simp: wf_stored_def EVENT_ENVELOPE_LIMITS_def EVENT_PAYLOAD_LIMITS_def intro: small_within)
  let ?captured = "draftFields e @ field ''eventId'' (JStr (eventId e)) @
     field ''streamVersion'' (JStr (streamVersion e)) @ field ''receivedAtMs'' (jint (receivedAtMs e)) @
     field ''logicalAtMs'' (jint (logicalAtMs e))"
  let ?link = "field ''position'' (JStr (position e)) @ field ''contentHash'' (JStr (contentHash e)) @
     field ''previousEventHash'' (JStr (previousEventHash e))"
  have st: "stored_json e = JObj (?captured @ ?link @ field ''eventHash'' (JStr (eventHash e)))"
    by (simp add: stored_json_def)
  have "jbytes (JObj ?captured) \<le> jbytes (stored_json e)" unfolding st by (rule jbytes_prefix(1))
  moreover have "jbytes (JObj ?link) \<le> jbytes (stored_json e)"
    unfolding st by (rule le_trans [OF jbytes_prefix(1) jbytes_prefix(2)])
  ultimately have "jbytes (JObj ?captured) < 2 ^ 64" "jbytes (JObj ?link) < 2 ^ 64"
    using s unfolding small_def by (blast intro: le_less_trans)+
  then show "small (capturedContent e)" "small (chainLink (position e) (contentHash e) (previousEventHash e))"
    by (simp_all only: small_def capturedContent_def chainLink_def draftFields_draftFromStored)
qed

lemma sealed_inj:
  assumes "wf_stored e" "sealed X e" "wf_stored e'" "sealed X e'" "eventHash e = eventHash e'"
    and inj: "inj_on (sha256_hex X) S" "eventPreimages e \<subseteq> S" "eventPreimages e' \<subseteq> S"
  shows "canonE e = canonE e'"
proof -
  note v = wf_stored_valid [OF assms(1)] wf_stored_valid [OF assms(3)]
    and sm = wf_stored_small [OF assms(1)] wf_stored_small [OF assms(3)]
  have pre: "x \<in> S" if "x \<in> eventPreimages e \<union> eventPreimages e'" for x using that inj(2,3) by blast
  have "norm (chainLink (position e) (contentHash e) (previousEventHash e)) =
      norm (chainLink (position e') (contentHash e') (previousEventHash e'))"
    by (rule digest_inj_tag [of X "js ''peas/event-chain/v2''" _ "js ''peas/event-chain/v2''", THEN conjunct2, OF _ inj(1)])
      (use assms(2,4,5) v sm in \<open>auto simp: sealed_def tag_js intro!: pre, auto simp: eventPreimages_def sealed_def\<close>)
  then have l: "position e = position e'" "contentHash e = contentHash e'" "previousEventHash e = previousEventHash e'"
    using chainLink_inj v by blast+
  have "norm (capturedContent e) = norm (capturedContent e')"
    by (rule digest_inj_tag [of X "js ''peas/event-content/v2''" _ "js ''peas/event-content/v2''", THEN conjunct2, OF _ inj(1)])
      (use assms(2,4) l(2) v sm in \<open>auto simp: sealed_def tag_js intro!: pre, auto simp: eventPreimages_def\<close>)
  with v l assms(5) show ?thesis by (intro captured_inj)
qed

lemma pages_unique:
  assumes "length es = length fs" "list_all (\<lambda>e. wf_stored e \<and> sealed X e) es" "list_all (\<lambda>e. wf_stored e \<and> sealed X e) fs"
    and "linked p es" "linked q fs" "endHash p es = endHash q fs"
    and inj: "inj_on (sha256_hex X) S" "\<forall>e\<in>set es \<union> set fs. eventPreimages e \<subseteq> S"
  shows "map canonE es = map canonE fs \<and> p = q"
  using assms
proof (induction es arbitrary: fs rule: rev_induct)
  case (snoc e es)
  from snoc.prems(1) obtain f fs' where fs: "fs = fs' @ [f]" "length es = length fs'"
    by (cases fs rule: rev_cases) auto
  have "canonE e = canonE f"
    using snoc.prems fs by (intro sealed_inj [where S = S and X = X]) simp_all
  moreover from arg_cong [OF this, of previousEventHash] have "endHash p es = endHash q fs'"
    using snoc.prems fs by (simp add: linked_append)
  then have "map canonE es = map canonE fs' \<and> p = q"
    using snoc.prems fs by (intro snoc.IH) (simp_all add: linked_append)
  ultimately show ?case by (simp add: fs(1))
qed simp

end
