(* ===== verification/Clock.thy ===== *)
theory Clock
  imports Json
begin

text \<open>
  \<^verbatim>\<open>src/core/clock.ts\<close>. Time is a non-negative safe integer number of milliseconds. The
  manual clock keeps its initial and its current reading; its operations take an arbitrary
  JavaScript number and throw on anything that is not such an integer. \<open>clockStep\<close> is the
  transition relation of a clock under its public operations, a throw leaving it unchanged.

  What is shown: readings are always non-negative safe integers, and between two resets they
  never decrease.
\<close>

definition isEpochMs :: "jsnum \<Rightarrow> bool" where
  "isEpochMs n = (case n of NInt i \<Rightarrow> isSafeInteger i \<and> 0 \<le> i | NNegZero \<Rightarrow> True | NOther \<Rightarrow> False)"

definition numInt :: "jsnum \<Rightarrow> int" where
  "numInt n = (case n of NInt i \<Rightarrow> i | _ \<Rightarrow> 0)"

definition assertEpochMs :: "jsnum \<Rightarrow> unit result" where
  "assertEpochMs value =
     assertR (isEpochMs value) (RangeError ''Clock values must be non-negative safe integer milliseconds'')"

record ManualClock =
  initialMs :: int
  currentMs :: int

definition newManualClock :: "jsnum \<Rightarrow> ManualClock result" where
  "newManualClock initial =
     bindR (assertEpochMs initial) (\<lambda>_. Inr \<lparr>initialMs = numInt initial, currentMs = numInt initial\<rparr>)"

definition nowMs :: "ManualClock \<Rightarrow> int" where
  "nowMs c = currentMs c"

definition advanceTo :: "ManualClock \<Rightarrow> jsnum \<Rightarrow> ManualClock result" where
  "advanceTo c nextMs =
     bindR (assertEpochMs nextMs) (\<lambda>_.
     if numInt nextMs < currentMs c then Inl (RangeError ''A manual clock cannot move backwards'')
     else Inr (c\<lparr>currentMs := numInt nextMs\<rparr>))"

text \<open>
  The sum of two safe integers may exceed the safe range, where floating-point addition rounds; a
  rounded sum is still at least \<open>2^53\<close>, so \<open>advanceTo\<close> refuses it like the exact one.
\<close>

definition advanceBy :: "ManualClock \<Rightarrow> jsnum \<Rightarrow> ManualClock result" where
  "advanceBy c deltaMs =
     (if \<not> isEpochMs deltaMs then Inl (RangeError ''Clock deltas must be non-negative safe integers'')
      else advanceTo c (NInt (currentMs c + numInt deltaMs)))"

definition reset :: "ManualClock \<Rightarrow> ManualClock" where
  "reset c = c\<lparr>currentMs := initialMs c\<rparr>"

inductive clockStep :: "ManualClock \<Rightarrow> ManualClock \<Rightarrow> bool" where
  step_to: "advanceTo c n = Inr c' \<Longrightarrow> clockStep c c'"
| step_by: "advanceBy c n = Inr c' \<Longrightarrow> clockStep c c'"

inductive_cases clockStepE: "clockStep c c'"

definition wf_clock :: "ManualClock \<Rightarrow> bool" where
  "wf_clock c \<longleftrightarrow> 0 \<le> initialMs c \<and> isSafeInteger (initialMs c) \<and>
     initialMs c \<le> currentMs c \<and> isSafeInteger (currentMs c)"

lemma isEpochMs_numInt: "isEpochMs n \<Longrightarrow> 0 \<le> numInt n \<and> isSafeInteger (numInt n)"
  by (cases n) (auto simp: isEpochMs_def numInt_def isSafeInteger_def MAX_SAFE_INTEGER_def)

lemma advanceTo_Inr:
  "advanceTo c n = Inr c' \<longleftrightarrow> isEpochMs n \<and> currentMs c \<le> numInt n \<and> c' = c\<lparr>currentMs := numInt n\<rparr>"
  by (auto simp: advanceTo_def assertEpochMs_def result_simps not_less split: if_splits)

lemma advanceBy_Inr:
  "wf_clock c \<Longrightarrow> advanceBy c n = Inr c' \<longleftrightarrow>
     isEpochMs n \<and> isSafeInteger (currentMs c + numInt n) \<and> c' = c\<lparr>currentMs := currentMs c + numInt n\<rparr>"
  using isEpochMs_numInt [of n]
  by (auto simp: advanceBy_def advanceTo_Inr wf_clock_def isEpochMs_def [of "NInt _"] numInt_def [of "NInt _"])

lemma wf_newManualClock: "newManualClock n = Inr c \<Longrightarrow> wf_clock c"
  using isEpochMs_numInt [of n] by (auto simp: newManualClock_def assertEpochMs_def result_simps wf_clock_def)

lemma clockStep_mono:
  assumes "clockStep c c'" "wf_clock c"
  shows "wf_clock c' \<and> initialMs c' = initialMs c \<and> nowMs c \<le> nowMs c'"
  using assms(1)
proof cases
  case (step_to n)
  then show ?thesis using assms(2) isEpochMs_numInt [of n] by (auto simp: advanceTo_Inr wf_clock_def nowMs_def)
next
  case (step_by n)
  then show ?thesis using assms(2) isEpochMs_numInt [of n]
    by (auto simp: advanceBy_Inr [OF assms(2)] wf_clock_def nowMs_def)
qed

lemma clockSteps_mono:
  "clockStep\<^sup>*\<^sup>* c c' \<Longrightarrow> wf_clock c \<Longrightarrow> wf_clock c' \<and> initialMs c' = initialMs c \<and> nowMs c \<le> nowMs c'"
  by (induction rule: rtranclp_induct) (auto dest: clockStep_mono)

lemma wf_reset: "wf_clock c \<Longrightarrow> wf_clock (reset c) \<and> nowMs (reset c) = initialMs c"
  by (simp add: reset_def wf_clock_def nowMs_def)

end
