(* ===== verification/EventLog.thy ===== *)
theory EventLog
  imports Event BigInt Clock
begin

text \<open>
  \<^verbatim>\<open>src/adapters/memory/event-log.ts\<close> and \<^verbatim>\<open>src/adapters/memory/captured-event-log.ts\<close>,
  the two in-memory implementations of the interface \<open>EventLog\<close>: the capturing log, which
  assigns local identity, times, versions and the chain hash, and the read-only log that replays
  an already captured stream.

  The capturing log is a record of its three private fields; \<open>append\<close> takes the reading of
  the trusted clock and returns the new log with the result, or throws and leaves the log as it
  was. The read side of both logs is a pair of functions, \<open>EventLogReader\<close>, which is what
  the processor and the stores receive.

  \<open>wf_log\<close> is the invariant of the capturing log: contiguous positions, an unbroken hash chain,
  monotone logical time, per-subject version counters, one event per provider key. The locale
  \<open>event_log\<close> is the contract of the read side; both logs are instances.
\<close>

section \<open>The capturing log\<close>

datatype disposition = Appended | Redelivery

record AppendResult =
  resultEvent :: StoredEvent
  resultDisposition :: disposition

record EventPage =
  pageEvents :: "StoredEvent list"
  nextPosition :: jsstring
  hasMore :: bool

record InMemoryEventLog =
  logEvents :: "StoredEvent list"
  providerEvents :: "jsstring \<rightharpoonup> StoredEvent"
  streamVersions :: "jsstring \<rightharpoonup> nat"

definition emptyLog :: InMemoryEventLog where
  "emptyLog = \<lparr>logEvents = [], providerEvents = Map.empty, streamVersions = Map.empty\<rparr>"

definition zeroHash :: jsstring where
  "zeroHash = replicate 64 48"

definition copyEvent :: "StoredEvent \<Rightarrow> StoredEvent result" where
  "copyEvent event = bindR (cloneJson (stored_json event)) (\<lambda>copy. Inr (stored_of copy))"

definition assertTrustedTime :: "jsnum \<Rightarrow> unit result" where
  "assertTrustedTime value =
     assertR (isEpochMs value) (RangeError ''Trusted receipt time must be a non-negative safe integer'')"

definition lastEvent :: "InMemoryEventLog \<Rightarrow> StoredEvent option" where
  "lastEvent L = (if logEvents L = [] then None else Some (last (logEvents L)))"

definition redeliver ::
  "StoredEvent \<Rightarrow> EventDraft \<Rightarrow> InMemoryEventLog \<Rightarrow> (InMemoryEventLog \<times> AppendResult) result" where
  "redeliver existing input L =
     (if artifactHash (eventProvider existing) \<noteq> artifactHash (eventProvider input)
      then Inl (PlainError ''changed content without a new revision'')
      else bindR (canonicalJson (draft_json (draftFromStored existing))) (\<lambda>stored.
           bindR (canonicalJson (draft_json input)) (\<lambda>received.
           if stored \<noteq> received then Inl (PlainError ''Provider redelivery metadata conflicts'')
           else bindR (copyEvent existing) (\<lambda>copy.
           Inr (L, \<lparr>resultEvent = copy, resultDisposition = Redelivery\<rparr>)))))"

definition captureEvent ::
  "externals \<Rightarrow> jsnum \<Rightarrow> EventDraft \<Rightarrow> InMemoryEventLog \<Rightarrow> StoredEvent result" where
  "captureEvent X now input L =
     bindR (assertTrustedTime now) (\<lambda>_.
     bindR (deriveEventId X (eventProvider input)) (\<lambda>id.
     let received = numInt now;
         logical = max (case lastEvent L of None \<Rightarrow> 0 | Some e \<Rightarrow> logicalAtMs e) received;
         version = (case streamVersions L (subject input) of None \<Rightarrow> 0 | Some n \<Rightarrow> n) + 1;
         captured = EventDraft.extend input (CapturedEvent.fields id (dec version) received logical)
     in bindR (computeContentHash X captured) (\<lambda>content.
     let pos = dec (length (logEvents L) + 1);
         previous = (case lastEvent L of None \<Rightarrow> zeroHash | Some e \<Rightarrow> eventHash e)
     in bindR (computeEventHash X pos content previous) (\<lambda>hash.
     Inr (CapturedEvent.extend captured (StoredEvent.fields pos content previous hash))))))"

definition append ::
  "externals \<Rightarrow> jsnum \<Rightarrow> json \<Rightarrow> InMemoryEventLog \<Rightarrow> (InMemoryEventLog \<times> AppendResult) result" where
  "append X now value L =
     bindR (validateEventDraft X value) (\<lambda>input.
     bindR (providerKey X (eventProvider input)) (\<lambda>identityKey.
     case providerEvents L identityKey of
       Some existing \<Rightarrow> redeliver existing input L
     | None \<Rightarrow>
         bindR (captureEvent X now input L) (\<lambda>event.
         bindR (copyEvent event) (\<lambda>immutable.
         bindR (copyEvent immutable) (\<lambda>copy.
         Inr (\<lparr>logEvents = logEvents L @ [immutable],
               providerEvents = (providerEvents L)(identityKey \<mapsto> immutable),
               streamVersions = (streamVersions L)(subject input \<mapsto>
                 (case streamVersions L (subject input) of None \<Rightarrow> 0 | Some n \<Rightarrow> n) + 1)\<rparr>,
              \<lparr>resultEvent = copy, resultDisposition = Appended\<rparr>))))))"


section \<open>The read side\<close>

definition getAt :: "StoredEvent list \<Rightarrow> jsstring \<Rightarrow> StoredEvent option result" where
  "getAt events pos =
     bindR (bigInt pos) (\<lambda>numeric.
     if numeric < 1 \<or> numeric > int (length events) then Inr None
     else bindR (copyEvent (events ! nat (numeric - 1))) (\<lambda>copy. Inr (Some copy)))"

definition pageAfter :: "StoredEvent list \<Rightarrow> jsstring \<Rightarrow> jsnum \<Rightarrow> EventPage result" where
  "pageAfter events pos limit =
     bindR (assertPageLimit limit) (\<lambda>_.
     bindR (bigInt pos) (\<lambda>cursor.
     if cursor < 0 then Inl (RangeError ''Event cursor cannot be negative'')
     else bindR (mapR copyEvent (take (nat (numInt limit)) (drop (nat cursor) events))) (\<lambda>selected.
     let nextPos = (if selected = [] then pos else position (last selected))
     in bindR (bigInt nextPos) (\<lambda>n.
     Inr \<lparr>pageEvents = selected, nextPosition = nextPos, hasMore = (n < int (length events))\<rparr>))))"

record EventLogReader =
  getEvent :: "jsstring \<Rightarrow> StoredEvent option result"
  readAfter :: "jsstring \<Rightarrow> jsnum \<Rightarrow> EventPage result"

definition memoryReader :: "InMemoryEventLog \<Rightarrow> EventLogReader" where
  "memoryReader L = \<lparr>getEvent = getAt (logEvents L), readAfter = pageAfter (logEvents L)\<rparr>"

fun checkCaptured :: "externals \<Rightarrow> StoredEvent list \<Rightarrow> jsstring \<Rightarrow> nat \<Rightarrow> unit result" where
  "checkCaptured X [] previousHash expectedPosition = Inr ()"
| "checkCaptured X (event # events) previousHash expectedPosition =
     (if position event \<noteq> dec expectedPosition then Inl (PlainError ''Captured stream position gap'')
      else bindR (verifyStoredEvent X event (Some previousHash)) (\<lambda>_.
           checkCaptured X events (eventHash event) (expectedPosition + 1)))"

definition newCapturedEventLog :: "externals \<Rightarrow> StoredEvent list \<Rightarrow> StoredEvent list result" where
  "newCapturedEventLog X events =
     bindR (checkCaptured X events zeroHash 1) (\<lambda>_. mapR copyEvent events)"

definition capturedAppend :: "json \<Rightarrow> AppendResult result" where
  "capturedAppend draft = Inl (PlainError ''A captured replay log is read-only'')"

definition capturedReader :: "StoredEvent list \<Rightarrow> EventLogReader" where
  "capturedReader events = \<lparr>getEvent = getAt events, readAfter = pageAfter events\<rparr>"


section \<open>What a capture produces\<close>

lemma copyEvent_Inr: "copyEvent e = Inr c \<longleftrightarrow> valid_json (stored_json e) \<and> c = canonE e"
  by (auto simp: copyEvent_def result_simps cloneJson_Inr stored_of_norm)

lemma copyEvent_valid [simp]: "valid_json (stored_json e) \<Longrightarrow> copyEvent e = Inr (canonE e)"
  by (simp add: copyEvent_Inr)

lemma hash64_scalar: "hash64 s \<Longrightarrow> scalar s"
proof (rule well_formed_scalar, rule well_formed_units)
  fix c
  assume "hash64 s" "c \<in> set s"
  then have "is_hex c" by (simp add: hash64_def list_all_iff)
  then show "\<not> is_high c \<and> \<not> is_low c"
    by (auto simp: is_hex_def is_digit_def high_bounds low_bounds word_le_nat_alt)
qed

lemma scalar_dec [simp]: "scalar (dec n)"
  by (rule well_formed_scalar) (rule well_formed_dec)

lemma hash64_zeroHash [simp]: "hash64 zeroHash"
  by (simp add: zeroHash_def hash64_def list_all_iff is_hex_def is_digit_def)

definition identityJson :: "ProviderIdentity \<Rightarrow> json" where
  "identityJson p = JObj (field ''provider'' (JStr (provider p)) @ field ''recordId'' (JStr (recordId p)) @
     field ''revisionId'' (JStr (revisionId p)))"

definition keyOf :: "externals \<Rightarrow> ProviderIdentity \<Rightarrow> jsstring" where
  "keyOf X p = digest X (js ''peas/provider-identity/v1'') (identityJson p)"

lemma providerKey_Inr: "providerKey X p = Inr k \<longleftrightarrow> valid_json (identityJson p) \<and> k = keyOf X p"
  by (simp add: providerKey_def identityJson_def keyOf_def)

lemma valid_identity: "valid_json (provider_json p) \<Longrightarrow> valid_json (identityJson p)"
  by (simp add: valid_provider identityJson_def)

text \<open>What holds of every event a log has captured, whatever its size.\<close>

definition capturedOk :: "externals \<Rightarrow> StoredEvent \<Rightarrow> bool" where
  "capturedOk X e \<longleftrightarrow> valid_json (stored_json e) \<and> storedOk e \<and> sealed X e \<and> canonE e = e \<and>
     within_limits EVENT_PAYLOAD_LIMITS (payload e) \<and> receivedAtMs e \<le> logicalAtMs e"

lemma capturedOk_wf:
  "capturedOk X e \<Longrightarrow> wf_stored e \<longleftrightarrow> within_limits EVENT_ENVELOPE_LIMITS (stored_json e)"
  by (simp add: capturedOk_def wf_stored_def conforms_stored)

lemma capturedOk_provider: "capturedOk X e \<Longrightarrow> valid_json (provider_json (eventProvider e))"
  using valid_draft_provider [of "draftFromStored e"]
  by (simp add: capturedOk_def valid_stored valid_captured draftFromStored_def)

definition lastLogical :: "InMemoryEventLog \<Rightarrow> int" where
  "lastLogical L = (if logEvents L = [] then 0 else logicalAtMs (last (logEvents L)))"

definition versionOf :: "InMemoryEventLog \<Rightarrow> jsstring \<Rightarrow> nat" where
  "versionOf L s = (case streamVersions L s of None \<Rightarrow> 0 | Some n \<Rightarrow> n)"

lemma wf_draft_ok: "wf_draft d \<Longrightarrow> draftOk d \<and> valid_json (draft_json d) \<and> within_limits EVENT_PAYLOAD_LIMITS (payload d)"
  by (auto simp: wf_draft_def conforms_draft dest: within_limits_valid)

lemma draft_of_json_norm:
  "valid_json (draft_json d) \<Longrightarrow> norm (payload d) = payload d \<Longrightarrow> draft_of (norm (draft_json d)) = d"
  by (simp add: draft_of_norm)

lemma capturedContent_extend: "capturedContent (CapturedEvent.extend c m) = capturedContent (c :: CapturedEvent)"
  by (simp add: capturedContent_def draftFields_def draftFromStored_def CapturedEvent.defs)

context node_env
begin

lemma captureEvent_spec:
  assumes d: "wf_draft d" "norm (payload d) = payload d"
    and now: "isEpochMs now" and logical: "isSafeInteger (lastLogical L)"
    and prev: "hash64 (endHash zeroHash (logEvents L))"
  obtains e where "captureEvent X now d L = Inr e" "capturedOk X e" "draftFromStored e = d"
    "streamVersion e = dec (versionOf L (subject d) + 1)" "receivedAtMs e = numInt now"
    "logicalAtMs e = max (lastLogical L) (numInt now)" "position e = dec (length (logEvents L) + 1)"
    "previousEventHash e = endHash zeroHash (logEvents L)"
proof -
  let ?id = "digest X (js ''peas/local-event-id/v2'') (provider_json (eventProvider d))"
  let ?c = "EventDraft.extend d (CapturedEvent.fields ?id (dec (versionOf L (subject d) + 1)) (numInt now)
      (max (lastLogical L) (numInt now))) :: CapturedEvent"
  let ?content = "digest X (js ''peas/event-content/v2'') (capturedContent ?c)"
  let ?pos = "dec (length (logEvents L) + 1)" and ?prev = "endHash zeroHash (logEvents L)"
  let ?h = "digest X (js ''peas/event-chain/v2'') (chainLink ?pos ?content ?prev)"
  let ?e = "CapturedEvent.extend ?c (StoredEvent.fields ?pos ?content ?prev ?h)"
  note n = isEpochMs_numInt [OF now]
  have vd: "valid_json (draft_json d)" "draftOk d" "within_limits EVENT_PAYLOAD_LIMITS (payload d)"
    using wf_draft_ok [OF d(1)] by auto
  note vp = valid_draft_provider [OF vd(1)]
  have draft: "draftFromStored ?c = d" "draftFromStored ?e = d"
    by (simp_all add: draftFromStored_def EventDraft.defs CapturedEvent.defs StoredEvent.defs)
  have safe: "isSafeInteger (max (lastLogical L) (numInt now))" using n logical by (simp add: max_def)
  have vc: "valid_json (capturedContent ?c)"
    using vd(1) n safe hash64_scalar [OF hash64_digest]
    unfolding valid_captured draft by (simp add: EventDraft.defs CapturedEvent.defs)
  have vl: "valid_json (chainLink ?pos ?content ?prev)"
    using hash64_scalar [OF hash64_digest] hash64_scalar [OF prev] by (simp add: chainLink_def)
  have cap: "capturedContent ?e = capturedContent ?c"
    by (rule capturedContent_extend)
  have fold: "(case lastEvent L of None \<Rightarrow> 0 | Some e \<Rightarrow> logicalAtMs e) = lastLogical L"
    "(case streamVersions L (subject d) of None \<Rightarrow> 0 | Some n \<Rightarrow> n) = versionOf L (subject d)"
    "(case lastEvent L of None \<Rightarrow> zeroHash | Some e \<Rightarrow> eventHash e) = ?prev"
    by (simp_all add: lastEvent_def lastLogical_def versionOf_def endHash_def)
  have "captureEvent X now d L = Inr ?e"
    unfolding captureEvent_def Let_def fold assertTrustedTime_def deriveEventId_eq computeContentHash_def computeEventHash_def
      canonicalHash_valid [OF vp] bindR_simps canonicalHash_valid [OF vc] canonicalHash_valid [OF vl]
    using now by simp
  moreover have "capturedOk X ?e"
  proof -
    have "valid_json (stored_json ?e)"
      using vc vl hash64_scalar [OF hash64_digest] unfolding valid_stored cap
      by (simp add: CapturedEvent.defs StoredEvent.defs EventDraft.defs)
    moreover have "draftOk ?e" using vd(2) unfolding draftOk_def
      by (simp add: EventDraft.defs CapturedEvent.defs StoredEvent.defs)
    then have "storedOk ?e" using n safe prev unfolding storedOk_def
      by (simp add: le_max_iff_disj EventDraft.defs CapturedEvent.defs StoredEvent.defs)
    moreover have "sealed X ?e" unfolding sealed_def cap by (simp add: EventDraft.defs CapturedEvent.defs StoredEvent.defs)
    ultimately show ?thesis using d(2) vd(3) unfolding capturedOk_def
      by (simp add: canonE_def EventDraft.defs CapturedEvent.defs StoredEvent.defs)
  qed
  ultimately show ?thesis
    by (rule that [OF _ _ draft(2)]) (simp_all add: EventDraft.defs CapturedEvent.defs StoredEvent.defs)
qed

end


section \<open>The invariant of the capturing log\<close>

definition subjectCount :: "StoredEvent list \<Rightarrow> jsstring \<Rightarrow> nat" where
  "subjectCount es s = length (filter (\<lambda>e. subject e = s) es)"

text \<open>Per-subject versions count the events of the subject, first event 1.\<close>

fun versionsOk :: "(jsstring \<Rightarrow> nat) \<Rightarrow> StoredEvent list \<Rightarrow> bool" where
  "versionsOk c [] \<longleftrightarrow> True"
| "versionsOk c (e # es) \<longleftrightarrow>
     streamVersion e = dec (c (subject e) + 1) \<and> versionsOk (c(subject e := c (subject e) + 1)) es"

definition wf_log :: "externals \<Rightarrow> InMemoryEventLog \<Rightarrow> bool" where
  "wf_log X L \<longleftrightarrow>
     list_all (capturedOk X) (logEvents L) \<and>
     linked zeroHash (logEvents L) \<and>
     map position (logEvents L) = map (\<lambda>i. dec (i + 1)) [0..<length (logEvents L)] \<and>
     sorted (map logicalAtMs (logEvents L)) \<and>
     versionsOk (\<lambda>_. 0) (logEvents L) \<and>
     (\<forall>s. versionOf L s = subjectCount (logEvents L) s) \<and>
     (\<forall>k e. providerEvents L k = Some e \<longleftrightarrow> e \<in> set (logEvents L) \<and> keyOf X (eventProvider e) = k)"

lemma wf_log_facts:
  assumes "wf_log X L"
  shows "list_all (capturedOk X) (logEvents L)" "linked zeroHash (logEvents L)"
    "map position (logEvents L) = map (\<lambda>i. dec (i + 1)) [0..<length (logEvents L)]"
    "sorted (map logicalAtMs (logEvents L))" "versionsOk (\<lambda>_. 0) (logEvents L)"
    "versionOf L s = subjectCount (logEvents L) s"
    "providerEvents L k = Some e \<longleftrightarrow> e \<in> set (logEvents L) \<and> keyOf X (eventProvider e) = k"
  using assms by (simp_all add: wf_log_def)

lemma wf_emptyLog: "wf_log X emptyLog"
  by (simp add: wf_log_def emptyLog_def versionOf_def subjectCount_def)

lemma versionsOk_snoc:
  "versionsOk c (es @ [e]) \<longleftrightarrow> versionsOk c es \<and> streamVersion e = dec (c (subject e) + subjectCount es (subject e) + 1)"
  by (induction es arbitrary: c) (auto simp: subjectCount_def)

lemma last_logical_max: "sorted (map logicalAtMs es) \<Longrightarrow> es \<noteq> [] \<Longrightarrow> e \<in> set es \<Longrightarrow> logicalAtMs e \<le> logicalAtMs (last es)"
  by (induction es rule: rev_induct) (auto simp: sorted_append)

lemma wf_log_ready:
  assumes "wf_log X L"
  shows "isSafeInteger (lastLogical L)" "hash64 (endHash zeroHash (logEvents L))"
    "\<forall>e\<in>set (logEvents L). logicalAtMs e \<le> lastLogical L"
proof -
  have "capturedOk X (last (logEvents L))" if "logEvents L \<noteq> []"
    using wf_log_facts(1) [OF assms] that by (simp add: list_all_iff)
  then show "isSafeInteger (lastLogical L)" "hash64 (endHash zeroHash (logEvents L))"
    by (auto simp: lastLogical_def endHash_def capturedOk_def storedOk_def isSafeInteger_def MAX_SAFE_INTEGER_def)
  show "\<forall>e\<in>set (logEvents L). logicalAtMs e \<le> lastLogical L"
    using last_logical_max [OF wf_log_facts(4) [OF assms]] by (auto simp: lastLogical_def)
qed

definition pushEvent :: "externals \<Rightarrow> StoredEvent \<Rightarrow> InMemoryEventLog \<Rightarrow> InMemoryEventLog" where
  "pushEvent X e L = \<lparr>logEvents = logEvents L @ [e],
     providerEvents = (providerEvents L)(keyOf X (eventProvider e) \<mapsto> e),
     streamVersions = (streamVersions L)(subject e \<mapsto> versionOf L (subject e) + 1)\<rparr>"

lemma wf_pushEvent:
  assumes wf: "wf_log X L" and e: "capturedOk X e" "streamVersion e = dec (versionOf L (subject e) + 1)"
      "lastLogical L \<le> logicalAtMs e" "position e = dec (length (logEvents L) + 1)"
      "previousEventHash e = endHash zeroHash (logEvents L)"
    and fresh: "providerEvents L (keyOf X (eventProvider e)) = None"
  shows "wf_log X (pushEvent X e L)"
proof -
  note f = wf_log_facts [OF wf]
  have "sorted (map logicalAtMs (logEvents L @ [e]))"
    using f(4) e(3) wf_log_ready(3) [OF wf] by (auto simp: sorted_append)
  moreover have "versionOf (pushEvent X e L) s = subjectCount (logEvents L @ [e]) s" for s
    using f(6) [of s] by (auto simp: versionOf_def subjectCount_def pushEvent_def)
  moreover have "keyOf X (eventProvider e') \<noteq> keyOf X (eventProvider e)" if "e' \<in> set (logEvents L)" for e'
    using f(7) [of "keyOf X (eventProvider e')" e'] that fresh by auto
  then have "providerEvents (pushEvent X e L) k = Some e' \<longleftrightarrow>
      e' \<in> set (logEvents L @ [e]) \<and> keyOf X (eventProvider e') = k" for k e'
    using f(7) [of k e'] by (auto simp: pushEvent_def)
  ultimately show ?thesis
    using f(1-3,5,6) e unfolding wf_log_def
    by (simp add: pushEvent_def linked_append versionsOk_snoc)
qed

context node_env
begin

text \<open>The three outcomes of an append on a well-formed log.\<close>

lemma append_fresh:
  assumes wf: "wf_log X L" and v: "validateEventDraft X v = Inr d"
    and fresh: "providerEvents L (keyOf X (eventProvider d)) = None" and now: "isEpochMs now"
  obtains e where "append X now v L = Inr (pushEvent X e L, \<lparr>resultEvent = e, resultDisposition = Appended\<rparr>)"
    "wf_log X (pushEvent X e L)" "capturedOk X e" "draftFromStored e = d" "receivedAtMs e = numInt now"
    "logicalAtMs e = max (lastLogical L) (numInt now)"
proof -
  have d: "wf_draft d" "norm (payload d) = payload d" using validateEventDraft_wf [OF v] by auto
  obtain e where e: "captureEvent X now d L = Inr e" "capturedOk X e" "draftFromStored e = d"
    "streamVersion e = dec (versionOf L (subject d) + 1)" "receivedAtMs e = numInt now"
    "logicalAtMs e = max (lastLogical L) (numInt now)" "position e = dec (length (logEvents L) + 1)"
    "previousEventHash e = endHash zeroHash (logEvents L)"
    by (rule captureEvent_spec [OF d now wf_log_ready(1,2) [OF wf]])
  have s: "subject e = subject d" "eventProvider e = eventProvider d"
    using arg_cong [OF e(3), of subject] arg_cong [OF e(3), of eventProvider] by (simp_all add: draftFromStored_def)
  have k: "providerKey X (eventProvider d) = Inr (keyOf X (eventProvider d))"
    using valid_identity [OF capturedOk_provider [OF e(2)]] by (simp add: providerKey_Inr s)
  have copy: "copyEvent e = Inr e" using e(2) by (simp add: capturedOk_def)
  have "append X now v L = Inr (pushEvent X e L, \<lparr>resultEvent = e, resultDisposition = Appended\<rparr>)"
    unfolding append_def v k bindR_simps fresh option.case e(1) copy pushEvent_def s versionOf_def ..
  moreover have "wf_log X (pushEvent X e L)"
    using e fresh by (intro wf_pushEvent [OF wf]) (simp_all add: s)
  ultimately show ?thesis using e by (intro that)
qed

lemma append_redelivery:
  assumes wf: "wf_log X L" and v: "validateEventDraft X v = Inr d"
    and known: "providerEvents L (keyOf X (eventProvider d)) = Some e"
  shows "append X now v L =
    (if draftFromStored e = d then Inr (L, \<lparr>resultEvent = e, resultDisposition = Redelivery\<rparr>)
     else if artifactHash (eventProvider e) \<noteq> artifactHash (eventProvider d)
     then Inl (PlainError ''changed content without a new revision'')
     else Inl (PlainError ''Provider redelivery metadata conflicts''))"
proof -
  have d: "wf_draft d" "norm (payload d) = payload d" using validateEventDraft_wf [OF v] by auto
  note vd = wf_draft_ok [OF d(1)]
  have e: "capturedOk X e"
    using wf_log_facts(1,7) [OF wf] known by (auto simp: list_all_iff)
  have k: "providerKey X (eventProvider d) = Inr (keyOf X (eventProvider d))"
    using valid_identity [OF valid_draft_provider] vd by (simp add: providerKey_Inr)
  have ve: "valid_json (draft_json (draftFromStored e))" "norm (payload e) = payload e" "copyEvent e = Inr e"
    using e canonE_fields(11) [of e] by (simp_all add: capturedOk_def valid_stored valid_captured)
  have "norm (draft_json (draftFromStored e)) = norm (draft_json d) \<longleftrightarrow> draftFromStored e = d"
  proof
    assume eq: "norm (draft_json (draftFromStored e)) = norm (draft_json d)"
    have "payload (draftFromStored e) = payload e" by (simp add: draftFromStored_def)
    then have "draft_of (norm (draft_json (draftFromStored e))) = draftFromStored e"
      using ve(2) by (intro draft_of_json_norm [OF ve(1)]) (simp only:)
    moreover have "draft_of (norm (draft_json d)) = d" using vd d(2) by (intro draft_of_json_norm) blast+
    ultimately show "draftFromStored e = d" unfolding eq by (rule trans [OF sym])
  qed simp
  then have "canon (draft_json (draftFromStored e)) = canon (draft_json d) \<longleftrightarrow> draftFromStored e = d"
    using canon_inj [OF ve(1)] vd by simp
  moreover have "append X now v L = redeliver e d L"
    unfolding append_def v bindR_simps k known option.case ..
  moreover have "artifactHash (eventProvider e) = artifactHash (eventProvider d)" if "draftFromStored e = d"
    using that by (auto simp: draftFromStored_def)
  ultimately show ?thesis
    using ve vd by (auto simp: redeliver_def)
qed

lemma wf_append: "wf_log X L \<Longrightarrow> append X now v L = Inr (L', r) \<Longrightarrow> wf_log X L'"
proof -
  assume wf: "wf_log X L" and a: "append X now v L = Inr (L', r)"
  from a obtain d where v: "validateEventDraft X v = Inr d" by (auto simp: append_def result_simps)
  show "wf_log X L'"
  proof (cases "providerEvents L (keyOf X (eventProvider d))")
    case (Some e)
    with append_redelivery [OF wf v Some, of now] a wf show ?thesis by (auto split: if_splits)
  next
    case None
    have "isEpochMs now"
      using a v None by (auto simp: append_def result_simps providerKey_Inr captureEvent_def assertTrustedTime_def)
    from append_fresh [OF wf v None this] a show ?thesis by (metis Pair_inject sum.inject(2))
  qed
qed

end


section \<open>The contract of the read side\<close>

definition replayable :: "StoredEvent list \<Rightarrow> bool" where
  "replayable es \<longleftrightarrow> list_all (\<lambda>e. valid_json (stored_json e) \<and> canonE e = e) es \<and>
     map position es = map (\<lambda>i. dec (i + 1)) [0..<length es]"

definition pageOf :: "StoredEvent list \<Rightarrow> nat \<Rightarrow> nat \<Rightarrow> EventPage" where
  "pageOf es n k = \<lparr>pageEvents = take k (drop n es),
     nextPosition = dec (if n < length es then min (n + k) (length es) else n),
     hasMore = (n + k < length es)\<rparr>"

locale event_log =
  fixes reader :: "'l \<Rightarrow> EventLogReader"
    and contents :: "'l \<Rightarrow> StoredEvent list"
    and inv :: "'l \<Rightarrow> bool"
  assumes get_law: "inv l \<Longrightarrow> getEvent (reader l) (dec n) =
      Inr (if 1 \<le> n \<and> n \<le> length (contents l) then Some (contents l ! (n - 1)) else None)"
    and read_law: "inv l \<Longrightarrow> 1 \<le> k \<Longrightarrow> k \<le> 10000 \<Longrightarrow>
      readAfter (reader l) (dec n) (NInt (int k)) = Inr (pageOf (contents l) n k)"
    and replay_law: "inv l \<Longrightarrow> replayable (contents l)"

lemma replayable_nth:
  assumes "replayable es" "i < length es"
  shows "position (es ! i) = dec (i + 1)" "valid_json (stored_json (es ! i))" "canonE (es ! i) = es ! i"
    "copyEvent (es ! i) = Inr (es ! i)"
proof -
  have "map position es ! i = map (\<lambda>i. dec (i + 1)) [0..<length es] ! i" using assms by (simp add: replayable_def)
  then show "position (es ! i) = dec (i + 1)" using assms(2) by simp
  show "valid_json (stored_json (es ! i))" "canonE (es ! i) = es ! i"
    using assms by (simp_all add: replayable_def list_all_length)
  then show "copyEvent (es ! i) = Inr (es ! i)" by simp
qed

lemma replayable_copyEvent: "replayable es \<Longrightarrow> e \<in> set es \<Longrightarrow> copyEvent e = Inr e"
  by (simp add: replayable_def list_all_iff)

lemma replayable_copy: "replayable es \<Longrightarrow> mapR copyEvent (take k (drop n es)) = Inr (take k (drop n es))"
  using mapR_Inr [of "take k (drop n es)" copyEvent id] replayable_copyEvent [of es]
  by (metis id_apply in_set_dropD in_set_takeD list.map_id)

lemma getAt_dec:
  "replayable es \<Longrightarrow>
     getAt es (dec n) = Inr (if 1 \<le> n \<and> n \<le> length es then Some (es ! (n - 1)) else None)"
  using replayable_nth(4) [of es "n - 1"] by (auto simp: getAt_def nat_diff_distrib)

lemma last_page: "n < length es \<Longrightarrow> 1 \<le> k \<Longrightarrow> last (take k (drop n es)) = es ! (min (n + k) (length es) - 1)"
  by (subst last_conv_nth) (auto simp: min_def intro: arg_cong [of _ _ "(!) es"])

lemma pageAfter_dec:
  assumes "replayable es" "1 \<le> k" "k \<le> 10000"
  shows "pageAfter es (dec n) (NInt (int k)) = Inr (pageOf es n k)"
proof (cases "n < length es")
  case True
  then have "position (last (take k (drop n es))) = dec (min (n + k) (length es))" "take k (drop n es) \<noteq> []"
    using replayable_nth(1) [OF assms(1), of "min (n + k) (length es) - 1"] assms(2)
    by (auto simp: last_page min_def)
  with True show ?thesis using assms replayable_copy [OF assms(1)]
    by (simp add: pageAfter_def assertPageLimit_def numInt_def pageOf_def Let_def) linarith
next
  case False
  then show ?thesis using assms
    by (simp add: pageAfter_def assertPageLimit_def numInt_def pageOf_def)
qed

lemma wf_log_replayable: "wf_log X L \<Longrightarrow> replayable (logEvents L)"
  by (auto simp: wf_log_def replayable_def capturedOk_def list_all_iff)

interpretation memory_log: event_log memoryReader logEvents "wf_log X" for X
  by unfold_locales (simp_all add: memoryReader_def getAt_dec pageAfter_dec wf_log_replayable)

interpretation captured_log: event_log capturedReader "\<lambda>es. es" replayable
  by unfold_locales (simp_all add: capturedReader_def getAt_dec pageAfter_dec)

context node_env
begin

lemma checkCaptured_Inr:
  "checkCaptured X es p n = Inr u \<longleftrightarrow>
     (es \<noteq> [] \<longrightarrow> protoSafe X EVENT_SCHEMA_FIELDS) \<and> list_all (\<lambda>e. wf_stored e \<and> sealed X e) es \<and>
     linked p es \<and> map position es = map dec [n..<n + length es]"
proof (induction es arbitrary: p n)
  case (Cons e es)
  have "checkCaptured X (e # es) p n = Inr u \<longleftrightarrow>
      position e = dec n \<and> (\<exists>u. verifyStoredEvent X e (Some p) = Inr u) \<and> checkCaptured X es (eventHash e) (n + 1) = Inr u"
    by (simp add: result_simps)
  then show ?case unfolding Cons.IH verifyStoredEvent_Inr
    by (auto simp: upt_conv_Cons simp del: upt_Suc)
qed auto

lemma dec_positions: "map (\<lambda>i. dec (i + 1)) [0..<n] = map dec [1..<1 + n]"
  by (simp add: map_Suc_upt [symmetric] comp_def del: upt_Suc)

lemma newCapturedEventLog_Inr:
  "newCapturedEventLog X es = Inr fs \<longleftrightarrow>
     (es \<noteq> [] \<longrightarrow> protoSafe X EVENT_SCHEMA_FIELDS) \<and> list_all (\<lambda>e. wf_stored e \<and> sealed X e) es \<and>
     linked zeroHash es \<and> map position es = map (\<lambda>i. dec (i + 1)) [0..<length es] \<and> fs = map canonE es"
proof -
  have "mapR copyEvent es = Inr (map canonE es)" if "list_all (\<lambda>e. wf_stored e \<and> sealed X e) es"
    using that wf_stored_valid(1) by (intro mapR_Inr) (auto simp: list_all_iff)
  then show ?thesis
    unfolding newCapturedEventLog_def bindR_eq_Inr checkCaptured_Inr dec_positions by auto
qed

lemma captured_replayable: "newCapturedEventLog X es = Inr fs \<Longrightarrow> replayable fs"
proof -
  assume "newCapturedEventLog X es = Inr fs"
  then have l: "list_all (\<lambda>e. wf_stored e \<and> sealed X e) es" "fs = map canonE es"
    "map position es = map (\<lambda>i. dec (i + 1)) [0..<length es]"
    by (simp_all add: newCapturedEventLog_Inr)
  have "wf_stored (canonE e)" if "e \<in> set es" for e using l(1) that by (simp add: list_all_iff)
  then have "list_all (\<lambda>e. valid_json (stored_json e) \<and> canonE e = e) fs"
    using wf_stored_valid(1) by (auto simp: l(2) list_all_iff)
  moreover have "map position fs = map (\<lambda>i. dec (i + 1)) [0..<length fs]" using l(3) by (simp add: l(2) comp_def)
  ultimately show ?thesis by (simp add: replayable_def)
qed

end

end
