(* ===== verification/Sizes.thy ===== *)
theory Sizes
  imports Schema
begin

text \<open>
  Exact sizes of quoted ASCII strings and of object renderings, for the places where the code's
  byte budgets have to be compared with each other.
\<close>

definition quoteCost :: "16 word \<Rightarrow> nat" where
  "quoteCost c = (if c \<in> {34, 92, 8, 9, 10, 12, 13} then 2 else if c < 32 then 6 else 1)"

definition plain :: "jsstring \<Rightarrow> bool" where
  "plain s \<longleftrightarrow> list_all (\<lambda>c. 35 \<le> c \<and> c < 128 \<and> c \<noteq> 92) s"

lemma ascii_unit_cost: "unat c < 128 \<Longrightarrow> byteLength (quote_unit c @ r) = quoteCost c + byteLength r"
proof -
  assume c: "unat c < 128"
  have hex: "unat (hex_digit (n mod 16)) < 128" for n by (simp add: hex_digit_ascii)
  have "byteLength (unicode_escape c @ r) = 6 + byteLength r"
    using hex by (simp add: unicode_escape_def Let_def byteLength_Cons_ascii)
  with c show ?thesis
    using ascii_no_surrogate [OF c] by (auto simp: quote_unit_def quoteCost_def byteLength_Cons_ascii)
qed

lemma quote_body_ascii: "list_all (\<lambda>c. unat c < 128) (c # s) \<Longrightarrow> quote_body (c # s) = quote_unit c @ quote_body s"
  using ascii_no_surrogate [of c] by (cases s) auto

lemma byteLength_quote_body: "list_all (\<lambda>c. unat c < 128) s \<Longrightarrow> byteLength (quote_body s @ r) = sum_list (map quoteCost s) + byteLength r"
proof (induction s)
  case (Cons c s)
  then show ?case by (simp add: quote_body_ascii [of c s] ascii_unit_cost del: quote_body.simps)
qed simp

lemma byteLength_jsonQuote: "list_all (\<lambda>c. unat c < 128) s \<Longrightarrow> byteLength (jsonQuote s) = 2 + sum_list (map quoteCost s)"
  using byteLength_quote_body [of s "[34]"] by (simp add: jsonQuote_def byteLength_Cons_ascii)

lemma byteLength_ascii: "list_all (\<lambda>c. unat c < 128) s \<Longrightarrow> byteLength s = length s"
  by (induction s) (simp_all add: byteLength_Cons_ascii)

lemma plain_ascii: "plain s \<Longrightarrow> list_all (\<lambda>c. unat c < 128) s"
  by (auto simp: plain_def list_all_iff word_less_nat_alt)

lemma byteLength_quote_plain: "plain s \<Longrightarrow> byteLength (jsonQuote s) = 2 + length s"
proof -
  assume p: "plain s"
  have "quoteCost c = 1" if "c \<in> set s" for c
    using p that by (auto simp: plain_def list_all_iff quoteCost_def word_le_nat_alt word_less_nat_alt)
  then have "map quoteCost s = replicate (length s) 1" by (simp add: map_replicate_const [symmetric])
  then show ?thesis using byteLength_jsonQuote [OF plain_ascii [OF p]] by (simp add: sum_list_replicate)
qed

lemma byteLength_plain: "plain s \<Longrightarrow> byteLength s = length s"
  by (rule byteLength_ascii) (rule plain_ascii)

lemma plain_Cons: "plain (c # s) \<longleftrightarrow> 35 \<le> c \<and> c < 128 \<and> c \<noteq> 92 \<and> plain s"
  by (auto simp: plain_def)

lemma plain_Nil: "plain []"
  by (simp add: plain_def)

lemma hash64_plain: "hash64 s \<Longrightarrow> plain s \<and> length s = 64"
  by (auto simp: hash64_def plain_def list_all_iff is_hex_def is_digit_def word_le_nat_alt word_less_nat_alt)

lemma digits_plain: "list_all is_digit s \<Longrightarrow> plain s"
  by (auto simp: plain_def list_all_iff is_digit_def word_le_nat_alt word_less_nat_alt)

text \<open>The bytes of one member with a literal key.\<close>

lemmas literal_plain = plain_Cons plain_Nil js_simps

end
