(* ===== verification/Registration.thy ===== *)
theory Registration
  imports EventLog Sizes
begin

text \<open>
  Run manifests and registrations (\<^verbatim>\<open>src/core/processor.ts\<close>, the first part of the file): the
  immutable description of a run, its strict validation, the two identity hashes derived from it,
  and the policy that only a live run may dispatch external effects.

  What is shown: validation accepts exactly the conforming manifests within the limits and loses
  nothing; the guard list covers every field of every processor schema; a derived registration
  always passes the validation at the persistence boundary, whose limits are wide enough for every
  manifest; a registration that allows effects belongs to a live run.
\<close>

section \<open>Manifests\<close>

datatype RunKind = Live | Replay | Shadow | Research | Paper

fun kindName :: "RunKind \<Rightarrow> string" where
  "kindName Live = ''live''"
| "kindName Replay = ''replay''"
| "kindName Shadow = ''shadow''"
| "kindName Research = ''research''"
| "kindName Paper = ''paper''"

record RunIdentities =
  extractorVersion :: jsstring
  featureSetId :: "jsstring option"
  modelId :: "jsstring option"
  promptId :: "jsstring option"
  datasetId :: "jsstring option"

record RunBehavior =
  reducerName :: jsstring
  reducerVersion :: jsstring
  buildDigest :: jsstring
  schemaRegistryDigest :: jsstring
  configuration :: json
  identities :: RunIdentities

record RunManifest =
  manifestVersion :: int
  runId :: jsstring
  kind :: RunKind
  effectsAllowed :: bool
  canonicalizationVersion :: jsstring
  behavior :: RunBehavior

record RunRegistration =
  manifest :: RunManifest
  manifestHash :: jsstring
  behaviorHash :: jsstring

definition runIdentitiesSchema :: schema where
  "runIdentitiesSchema = ZObject
     [req ''extractorVersion'' zId, req ''featureSetId'' (ZNullable zId), req ''modelId'' (ZNullable zId),
      req ''promptId'' (ZNullable zId), req ''datasetId'' (ZNullable zId)]"

definition runBehaviorSchema :: schema where
  "runBehaviorSchema = ZObject
     [req ''reducerName'' zId, req ''reducerVersion'' zId, req ''buildDigest'' zHash,
      req ''schemaRegistryDigest'' zHash, req ''configuration'' ZJsonObject, req ''identities'' runIdentitiesSchema]"

definition runManifestV2Schema :: schema where
  "runManifestV2Schema = ZObject
     [req ''manifestVersion'' (ZLitInt 2), req ''runId'' zId,
      req ''kind'' (ZEnum (map js [''live'', ''replay'', ''shadow'', ''research'', ''paper''])),
      req ''effectsAllowed'' ZBoolean, req ''canonicalizationVersion'' (ZLitStr (js ''peas-json-v1'')),
      req ''behavior'' runBehaviorSchema]"

definition runRegistrationSchema :: schema where
  "runRegistrationSchema = ZObject
     [opt ''manifest'' ZUnknown, req ''manifestHash'' zHash, req ''behaviorHash'' zHash]"

definition PROCESSOR_SCHEMA_FIELDS :: "string list" where
  "PROCESSOR_SCHEMA_FIELDS =
     [''extractorVersion'', ''featureSetId'', ''modelId'', ''promptId'', ''datasetId'', ''reducerName'',
      ''reducerVersion'', ''buildDigest'', ''schemaRegistryDigest'', ''configuration'', ''identities'',
      ''manifestVersion'', ''runId'', ''kind'', ''effectsAllowed'', ''canonicalizationVersion'', ''behavior'',
      ''manifest'', ''manifestHash'', ''behaviorHash'', ''type'', ''payload'', ''jobId'', ''dedupeKey'',
      ''notBeforeLogicalMs'', ''inputBundleHash'', ''messageId'', ''topic'', ''outputId'', ''inputEventId'',
      ''inputPosition'', ''aggregateId'', ''ordinal'', ''bodyHash'', ''category'', ''body'', ''sequence'',
      ''processedPosition'', ''logicalAtMs'', ''lastEventHash'', ''stateHead'', ''decisionHead'',
      ''cursorHash'', ''version'', ''lastInputPosition'', ''state'', ''stateHash'', ''checkpointHash'',
      ''expectedPosition'', ''event'', ''cursor'', ''aggregate'', ''outputs'']"

definition RUN_CONFIGURATION_LIMITS :: JsonLimits where
  "RUN_CONFIGURATION_LIMITS = \<lparr>maxDepth = 32, maxNodes = 50000, maxArrayLength = 10000,
     maxObjectKeys = 10000, maxStringBytes = 1048576, maxCanonicalBytes = 1048576\<rparr>"

definition RUN_MANIFEST_LIMITS :: JsonLimits where
  "RUN_MANIFEST_LIMITS = \<lparr>maxDepth = maxDepth RUN_CONFIGURATION_LIMITS + 2,
     maxNodes = maxNodes RUN_CONFIGURATION_LIMITS + 64,
     maxArrayLength = maxArrayLength RUN_CONFIGURATION_LIMITS,
     maxObjectKeys = maxObjectKeys RUN_CONFIGURATION_LIMITS,
     maxStringBytes = maxStringBytes RUN_CONFIGURATION_LIMITS,
     maxCanonicalBytes = maxCanonicalBytes RUN_CONFIGURATION_LIMITS + 16384\<rparr>"

definition RUN_REGISTRATION_LIMITS :: JsonLimits where
  "RUN_REGISTRATION_LIMITS = RUN_MANIFEST_LIMITS\<lparr>maxDepth := maxDepth RUN_CONFIGURATION_LIMITS + 3,
     maxNodes := maxNodes RUN_CONFIGURATION_LIMITS + 72,
     maxCanonicalBytes := maxCanonicalBytes RUN_CONFIGURATION_LIMITS + 17408\<rparr>"


section \<open>JSON renderings and casts\<close>

definition identities_json :: "RunIdentities \<Rightarrow> json" where
  "identities_json i = JObj (field ''extractorVersion'' (JStr (extractorVersion i)) @
     field ''featureSetId'' (jnull JStr (featureSetId i)) @ field ''modelId'' (jnull JStr (modelId i)) @
     field ''promptId'' (jnull JStr (promptId i)) @ field ''datasetId'' (jnull JStr (datasetId i)))"

definition behavior_json :: "RunBehavior \<Rightarrow> json" where
  "behavior_json b = JObj (field ''reducerName'' (JStr (reducerName b)) @
     field ''reducerVersion'' (JStr (reducerVersion b)) @ field ''buildDigest'' (JStr (buildDigest b)) @
     field ''schemaRegistryDigest'' (JStr (schemaRegistryDigest b)) @
     field ''configuration'' (configuration b) @ field ''identities'' (identities_json (identities b)))"

definition manifest_json :: "RunManifest \<Rightarrow> json" where
  "manifest_json m = JObj (field ''manifestVersion'' (jint (manifestVersion m)) @
     field ''runId'' (JStr (runId m)) @ field ''kind'' (JStr (js (kindName (kind m)))) @
     field ''effectsAllowed'' (JBool (effectsAllowed m)) @
     field ''canonicalizationVersion'' (JStr (canonicalizationVersion m)) @
     field ''behavior'' (behavior_json (behavior m)))"

definition registration_json :: "RunRegistration \<Rightarrow> json" where
  "registration_json r = JObj (field ''manifest'' (manifest_json (manifest r)) @
     field ''manifestHash'' (JStr (manifestHash r)) @ field ''behaviorHash'' (JStr (behaviorHash r)))"

definition identities_of :: "json \<Rightarrow> RunIdentities" where
  "identities_of v = \<lparr>extractorVersion = getStr v ''extractorVersion'', featureSetId = getStrOpt v ''featureSetId'',
     modelId = getStrOpt v ''modelId'', promptId = getStrOpt v ''promptId'', datasetId = getStrOpt v ''datasetId''\<rparr>"

definition behavior_of :: "json \<Rightarrow> RunBehavior" where
  "behavior_of v = \<lparr>reducerName = getStr v ''reducerName'', reducerVersion = getStr v ''reducerVersion'',
     buildDigest = getStr v ''buildDigest'', schemaRegistryDigest = getStr v ''schemaRegistryDigest'',
     configuration = getJson v ''configuration'', identities = identities_of (getJson v ''identities'')\<rparr>"

definition kind_of :: "jsstring \<Rightarrow> RunKind" where
  "kind_of s = (if s = js ''live'' then Live else if s = js ''replay'' then Replay
     else if s = js ''shadow'' then Shadow else if s = js ''research'' then Research else Paper)"

definition manifest_of :: "json \<Rightarrow> RunManifest" where
  "manifest_of v = \<lparr>manifestVersion = getInt v ''manifestVersion'', runId = getStr v ''runId'',
     kind = kind_of (getStr v ''kind''), effectsAllowed = getBool v ''effectsAllowed'',
     canonicalizationVersion = getStr v ''canonicalizationVersion'',
     behavior = behavior_of (getJson v ''behavior'')\<rparr>"


section \<open>Validation and derived identity\<close>

definition processorSchemaSnapshot :: "externals \<Rightarrow> json \<Rightarrow> json result" where
  "processorSchemaSnapshot X value =
     bindR (assertSchemaPrototypeSafety X PROCESSOR_SCHEMA_FIELDS) (\<lambda>_. inertJsonSnapshot value)"

definition snapshotRunManifestWithinLimits :: "externals \<Rightarrow> json \<Rightarrow> json result" where
  "snapshotRunManifestWithinLimits X value =
     bindR (checkJson RUN_MANIFEST_LIMITS value) (\<lambda>_.
     bindR (processorSchemaSnapshot X value) (\<lambda>snapshot.
     case jget snapshot (js ''behavior'') of
       Some behavior' \<Rightarrow>
         (case jget behavior' (js ''configuration'') of
            Some config \<Rightarrow> bindR (checkJson RUN_CONFIGURATION_LIMITS config) (\<lambda>_. Inr snapshot)
          | None \<Rightarrow> Inr snapshot)
     | None \<Rightarrow> Inr snapshot))"

definition validateRunManifest :: "externals \<Rightarrow> json \<Rightarrow> RunManifest result" where
  "validateRunManifest X value =
     bindR (snapshotRunManifestWithinLimits X value) (\<lambda>snapshot.
     bindR (zodParse X runManifestV2Schema snapshot) (\<lambda>parsed.
     bindR (checkJson RUN_CONFIGURATION_LIMITS (getJson (getJson parsed ''behavior'') ''configuration'')) (\<lambda>_.
     bindR (canonicalJson parsed) (\<lambda>_.
     bindR (cloneJson parsed) (\<lambda>copy. Inr (manifest_of copy))))))"

definition validateRunManifestJson :: "externals \<Rightarrow> jsstring \<Rightarrow> RunManifest result" where
  "validateRunManifestJson X serialized =
     bindR (parseJsonWithinLimits serialized RUN_MANIFEST_LIMITS) (validateRunManifest X)"

text \<open>
  A typed manifest has one of the five kinds and a Boolean flag, so the first two tests of the
  policy cannot fail.
\<close>

definition assertRunEffectPolicy :: "RunManifest \<Rightarrow> unit result" where
  "assertRunEffectPolicy m =
     (if effectsAllowed m \<and> kind m \<noteq> Live
      then Inl (PlainError ''Run kind cannot dispatch external effects'') else Inr ())"

definition deriveRunRegistration :: "externals \<Rightarrow> json \<Rightarrow> RunRegistration result" where
  "deriveRunRegistration X value =
     bindR (validateRunManifest X value) (\<lambda>m.
     bindR (assertRunEffectPolicy m) (\<lambda>_.
     bindR (canonicalHash X (js ''peas/run-manifest/v2'') (manifest_json m)) (\<lambda>mh.
     bindR (canonicalHash X (js ''peas/run-behavior/v2'') (behavior_json (behavior m))) (\<lambda>bh.
     Inr \<lparr>manifest = m, manifestHash = mh, behaviorHash = bh\<rparr>))))"

text \<open>An absent manifest reads as \<open>undefined\<close>, which \<open>deriveRunRegistration\<close> refuses.\<close>

definition validateRunRegistration :: "externals \<Rightarrow> json \<Rightarrow> RunRegistration result" where
  "validateRunRegistration X value =
     bindR (checkJson RUN_REGISTRATION_LIMITS value) (\<lambda>_.
     bindR (processorSchemaSnapshot X value) (\<lambda>snapshot.
     bindR (zodParse X runRegistrationSchema snapshot) (\<lambda>parsed.
     bindR (deriveRunRegistration X (getJson parsed ''manifest'')) (\<lambda>derived.
     if getStr parsed ''manifestHash'' \<noteq> manifestHash derived then Inl (PlainError ''Run manifest hash mismatch'')
     else if getStr parsed ''behaviorHash'' \<noteq> behaviorHash derived then Inl (PlainError ''Run behavior hash mismatch'')
     else Inr derived))))"


section \<open>Casts and renderings\<close>

lemma kind_of_name [simp]: "kind_of (js (kindName k)) = k"
  by (cases k) (simp_all add: kind_of_def)

lemma kindName_of: "s \<in> set (map js [''live'', ''replay'', ''shadow'', ''research'', ''paper'']) \<Longrightarrow> js (kindName (kind_of s)) = s"
  by (auto simp: kind_of_def)

lemma identities_of_json [simp]: "identities_of (identities_json i) = i"
  by (simp add: identities_of_def identities_json_def reader_defs jnull_def split: option.splits)

lemma behavior_of_json [simp]: "behavior_of (behavior_json b) = b"
  by (simp add: behavior_of_def behavior_json_def reader_defs)

lemma manifest_of_json [simp]: "manifest_of (manifest_json m) = m"
  by (simp add: manifest_of_def manifest_json_def reader_defs jint_def)

lemma identities_rebuild:
  assumes "valid_json v" "conforms runIdentitiesSchema v"
  shows "norm (identities_json (identities_of v)) = norm v"
  unfolding identities_json_def
proof (rule norm_rebuild [OF assms(1) assms(2) [unfolded runIdentitiesSchema_def],
      of "map js [''extractorVersion'', ''featureSetId'', ''modelId'', ''promptId'', ''datasetId'']"])
  show "map (apsnd norm) (field ''extractorVersion'' (JStr (extractorVersion (identities_of v))) @
     field ''featureSetId'' (jnull JStr (featureSetId (identities_of v))) @
     field ''modelId'' (jnull JStr (modelId (identities_of v))) @
     field ''promptId'' (jnull JStr (promptId (identities_of v))) @
     field ''datasetId'' (jnull JStr (datasetId (identities_of v)))) =
    map (apsnd norm) (project (map js [''extractorVersion'', ''featureSetId'', ''modelId'', ''promptId'', ''datasetId'']) v)"
    using assms(2) by (simp add: runIdentitiesSchema_def check_simps z_defs identities_of_def del: conforms.simps)
qed (auto simp: js_names)

lemma behavior_rebuild:
  assumes "valid_json v" "conforms runBehaviorSchema v"
  shows "norm (behavior_json (behavior_of v)) = norm v"
  unfolding behavior_json_def
proof (rule norm_rebuild [OF assms(1) assms(2) [unfolded runBehaviorSchema_def],
      of "map js [''reducerName'', ''reducerVersion'', ''buildDigest'', ''schemaRegistryDigest'', ''configuration'', ''identities'']"])
  have i: "conforms runIdentitiesSchema (getJson v ''identities'')" "jget v (js ''identities'') = Some (getJson v ''identities'')"
    using assms(2) by (simp_all add: runBehaviorSchema_def runIdentitiesSchema_def check_simps z_defs del: conforms.simps)
  have "norm (identities_json (identities_of (getJson v ''identities''))) = norm (getJson v ''identities'')"
    using i(1) jget_valid [OF i(2) assms(1)] by (intro identities_rebuild)
  then show "map (apsnd norm) (field ''reducerName'' (JStr (reducerName (behavior_of v))) @
     field ''reducerVersion'' (JStr (reducerVersion (behavior_of v))) @ field ''buildDigest'' (JStr (buildDigest (behavior_of v))) @
     field ''schemaRegistryDigest'' (JStr (schemaRegistryDigest (behavior_of v))) @
     field ''configuration'' (configuration (behavior_of v)) @
     field ''identities'' (identities_json (identities (behavior_of v)))) =
    map (apsnd norm) (project (map js [''reducerName'', ''reducerVersion'', ''buildDigest'', ''schemaRegistryDigest'',
      ''configuration'', ''identities'']) v)"
    using assms(2) by (simp add: runBehaviorSchema_def runIdentitiesSchema_def check_simps z_defs behavior_of_def del: conforms.simps)
qed (auto simp: js_names)

lemma manifest_rebuild:
  assumes "valid_json v" "conforms runManifestV2Schema v"
  shows "norm (manifest_json (manifest_of v)) = norm v"
  unfolding manifest_json_def
proof (rule norm_rebuild [OF assms(1) assms(2) [unfolded runManifestV2Schema_def],
      of "map js [''manifestVersion'', ''runId'', ''kind'', ''effectsAllowed'', ''canonicalizationVersion'', ''behavior'']"])
  have b: "conforms runBehaviorSchema (getJson v ''behavior'')" "jget v (js ''behavior'') = Some (getJson v ''behavior'')"
    "getStr v ''kind'' \<in> set (map js [''live'', ''replay'', ''shadow'', ''research'', ''paper''])"
    using assms(2) by (simp_all add: runManifestV2Schema_def runBehaviorSchema_def check_simps z_defs del: conforms.simps)
  have "norm (behavior_json (behavior_of (getJson v ''behavior''))) = norm (getJson v ''behavior'')"
    using b(1) jget_valid [OF b(2) assms(1)] by (intro behavior_rebuild)
  then show "map (apsnd norm) (field ''manifestVersion'' (jint (manifestVersion (manifest_of v))) @
     field ''runId'' (JStr (runId (manifest_of v))) @ field ''kind'' (JStr (js (kindName (kind (manifest_of v))))) @
     field ''effectsAllowed'' (JBool (effectsAllowed (manifest_of v))) @
     field ''canonicalizationVersion'' (JStr (canonicalizationVersion (manifest_of v))) @
     field ''behavior'' (behavior_json (behavior (manifest_of v)))) =
    map (apsnd norm) (project (map js [''manifestVersion'', ''runId'', ''kind'', ''effectsAllowed'',
      ''canonicalizationVersion'', ''behavior'']) v)"
    using assms(2) kindName_of [OF b(3)]
    by (simp add: runManifestV2Schema_def runBehaviorSchema_def check_simps z_defs manifest_of_def del: conforms.simps)
qed (auto simp: js_names)

definition canonM :: "RunManifest \<Rightarrow> RunManifest" where
  "canonM m = m\<lparr>behavior := (behavior m)\<lparr>configuration := norm (configuration (behavior m))\<rparr>\<rparr>"

lemma getJson_cases: "valid_json v \<Longrightarrow> valid_json (getJson v k) \<or> getJson v k = JNum NOther"
  by (cases "jget v (js k)") (auto simp: getJson_def dest: jget_valid)

lemma identities_of_norm: "valid_json v \<or> v = JNum NOther \<Longrightarrow> identities_of (norm v) = identities_of v"
  by (auto simp: identities_of_def)

lemma getJson_jnum [simp]: "getJson (JNum n) k = JNum NOther"
  by (simp add: getJson_def jget_def)

lemma behavior_of_norm: "valid_json v \<or> v = JNum NOther \<Longrightarrow>
    behavior_of (norm v) = (behavior_of v)\<lparr>configuration := norm (configuration (behavior_of v))\<rparr>"
  using getJson_cases [of v "''identities''"] by (auto simp: behavior_of_def identities_of_norm)

lemma manifest_of_norm: "valid_json v \<Longrightarrow> manifest_of (norm v) = canonM (manifest_of v)"
  using getJson_cases [of v "''behavior''"] by (auto simp: manifest_of_def canonM_def behavior_of_norm)

lemma manifest_json_canonM: "norm (manifest_json (canonM m)) = norm (manifest_json m)"
proof -
  have "norm (behavior_json (behavior (canonM m))) = norm (behavior_json (behavior m))"
    unfolding behavior_json_def by (rule norm_obj_cong) (simp add: canonM_def)
  then show ?thesis unfolding manifest_json_def by (intro norm_obj_cong) (simp add: canonM_def)
qed


section \<open>What registration accepts\<close>

lemma registration_fields_covered:
  "set (schema_fields runManifestV2Schema) \<subseteq> js ` set PROCESSOR_SCHEMA_FIELDS"
  "set (schema_fields runRegistrationSchema) \<subseteq> js ` set PROCESSOR_SCHEMA_FIELDS"
  by (simp_all add: runManifestV2Schema_def runBehaviorSchema_def runIdentitiesSchema_def runRegistrationSchema_def
      schema_defs PROCESSOR_SCHEMA_FIELDS_def)

definition wf_manifest :: "RunManifest \<Rightarrow> bool" where
  "wf_manifest m \<longleftrightarrow> within_limits RUN_MANIFEST_LIMITS (manifest_json m) \<and>
     conforms runManifestV2Schema (manifest_json m) \<and>
     within_limits RUN_CONFIGURATION_LIMITS (configuration (behavior m)) \<and>
     (effectsAllowed m \<longrightarrow> kind m = Live) \<and> canonM m = m"

definition registrationOf :: "externals \<Rightarrow> RunManifest \<Rightarrow> RunRegistration" where
  "registrationOf X m = \<lparr>manifest = m, manifestHash = digest X (js ''peas/run-manifest/v2'') (manifest_json m),
     behaviorHash = digest X (js ''peas/run-behavior/v2'') (behavior_json (behavior m))\<rparr>"

lemma run_limits_ok [simp]:
  "assertJsonLimits RUN_CONFIGURATION_LIMITS" "assertJsonLimits RUN_MANIFEST_LIMITS" "assertJsonLimits RUN_REGISTRATION_LIMITS"
  by (simp_all add: assertJsonLimits_def RUN_CONFIGURATION_LIMITS_def RUN_MANIFEST_LIMITS_def RUN_REGISTRATION_LIMITS_def
      isSafeInteger_def MAX_SAFE_INTEGER_def)

lemma snapshot_bind:
  "bindR (processorSchemaSnapshot X v) f = bindR (assertSchemaPrototypeSafety X PROCESSOR_SCHEMA_FIELDS) (\<lambda>_.
     bindR (inertJsonSnapshot v) f)"
  by (simp add: processorSchemaSnapshot_def bindR_assoc)

lemma valid_manifest_behavior: "valid_json (manifest_json m) \<Longrightarrow> valid_json (behavior_json (behavior m))"
  by (simp add: manifest_json_def)

lemma manifest_config: "getJson (getJson (manifest_json m) ''behavior'') ''configuration'' = configuration (behavior m)"
  by (simp add: manifest_json_def behavior_json_def reader_defs)

lemma manifest_behavior_read:
  assumes "conforms runManifestV2Schema v"
  shows "jget v (js ''behavior'') = Some (getJson v ''behavior'')"
    "jget (getJson v ''behavior'') (js ''configuration'') = Some (getJson (getJson v ''behavior'') ''configuration'')"
  using assms by (simp_all add: runManifestV2Schema_def runBehaviorSchema_def check_simps z_defs del: conforms.simps)

context node_env
begin

lemma snapshotRunManifest_conforming:
  assumes "conforms runManifestV2Schema v" "valid_json v"
  shows "snapshotRunManifestWithinLimits X v = Inr w \<longleftrightarrow>
    within_limits RUN_MANIFEST_LIMITS v \<and> protoSafe X PROCESSOR_SCHEMA_FIELDS \<and>
    within_limits RUN_CONFIGURATION_LIMITS (getJson (getJson v ''behavior'') ''configuration'') \<and> w = norm v"
proof -
  have "conforms runManifestV2Schema (norm v)" using assms by (simp add: conforms_norm)
  note r = manifest_behavior_read [OF this]
  have b: "valid_json (getJson v ''behavior'')"
    using jget_valid [OF manifest_behavior_read(1) [OF assms(1)] assms(2)] .
  show ?thesis
    unfolding snapshotRunManifestWithinLimits_def bindR_eq_Inr checkJson_ok [OF run_limits_ok(2)]
      processorSchemaSnapshot_def assertSchemaPrototypeSafety_Inr inertJsonSnapshot_Inr
    using assms(2) r b by (auto simp: bindR_eq_Inr checkJson_ok)
qed

lemma snapshotRunManifest_norm: "snapshotRunManifestWithinLimits X v = Inr w \<Longrightarrow>
    valid_json v \<and> protoSafe X PROCESSOR_SCHEMA_FIELDS \<and> w = norm v"
  by (auto simp: snapshotRunManifestWithinLimits_def processorSchemaSnapshot_def result_simps inertJsonSnapshot_Inr
      split: option.splits)

lemma validateRunManifest_Inr:
  "validateRunManifest X v = Inr m \<longleftrightarrow>
     protoSafe X PROCESSOR_SCHEMA_FIELDS \<and> within_limits RUN_MANIFEST_LIMITS v \<and> conforms runManifestV2Schema v \<and>
     within_limits RUN_CONFIGURATION_LIMITS (getJson (getJson v ''behavior'') ''configuration'') \<and>
     m = manifest_of (norm v)"
proof -
  let ?f = "\<lambda>parsed. bindR (checkJson RUN_CONFIGURATION_LIMITS (getJson (getJson parsed ''behavior'') ''configuration'')) (\<lambda>_.
     bindR (canonicalJson parsed) (\<lambda>_. bindR (cloneJson parsed) (\<lambda>copy. Inr (manifest_of copy))))"
  show ?thesis
  proof (cases "valid_json v \<and> conforms runManifestV2Schema v \<and> protoSafe X PROCESSOR_SCHEMA_FIELDS")
    case True
    then have safe: "schema_safe X runManifestV2Schema"
      using protoSafe_schema_safe registration_fields_covered(1) by blast
    obtain w where w: "zodParse X runManifestV2Schema (norm v) = Inr w" "valid_json w" "norm w = norm v"
      using zod_accepts [OF safe, of "norm v"] True by (auto simp: conforms_norm)
    have c: "conforms runManifestV2Schema w" using True w conforms_cong by blast
    have b: "valid_json (getJson u ''behavior'')" if "conforms runManifestV2Schema u" "valid_json u" for u
      using jget_valid [OF manifest_behavior_read(1)] that by blast
    have "norm (getJson (getJson w ''behavior'') ''configuration'') = norm (getJson (getJson v ''behavior'') ''configuration'')"
      using getJson_norm [OF b [OF c w(2)]] getJson_norm [OF b [of v]] getJson_norm [OF w(2), of "''behavior''"]
        getJson_norm [of v "''behavior''"] True w(3) by metis
    note l = within_limits_cong [OF this, of RUN_CONFIGURATION_LIMITS]
    have "validateRunManifest X v = Inr m \<longleftrightarrow> (\<exists>s. snapshotRunManifestWithinLimits X v = Inr s \<and>
        bindR (zodParse X runManifestV2Schema s) ?f = Inr m)"
      by (simp add: validateRunManifest_def bindR_eq_Inr)
    then show ?thesis
      using True w l snapshotRunManifest_conforming [of v] by (auto simp: bindR_eq_Inr checkJson_ok)
  next
    case False
    have "\<not> conforms runManifestV2Schema v \<Longrightarrow> valid_json v \<Longrightarrow> protoSafe X PROCESSOR_SCHEMA_FIELDS \<Longrightarrow>
        zodParse X runManifestV2Schema (norm v) = Inl ZodError"
      using zod_rejects [of runManifestV2Schema "norm v"] protoSafe_schema_safe [OF _ registration_fields_covered(1)]
      by (simp add: conforms_norm)
    with False show ?thesis
      by (auto simp: validateRunManifest_def bindR_eq_Inr dest!: snapshotRunManifest_norm dest: within_limits_valid)
  qed
qed

lemma deriveRunRegistration_Inr:
  "deriveRunRegistration X v = Inr r \<longleftrightarrow>
     (\<exists>m. validateRunManifest X v = Inr m \<and> (effectsAllowed m \<longrightarrow> kind m = Live) \<and>
       valid_json (manifest_json m) \<and> r = registrationOf X m)"
  by (auto simp: deriveRunRegistration_def bindR_eq_Inr assertRunEffectPolicy_def registrationOf_def
      valid_manifest_behavior split: if_splits)

lemma derived_manifest:
  assumes "deriveRunRegistration X v = Inr r"
  shows "wf_manifest (manifest r)" "r = registrationOf X (manifest r)" "norm (manifest_json (manifest r)) = norm v"
    "protoSafe X PROCESSOR_SCHEMA_FIELDS"
proof -
  from assms obtain m where m: "validateRunManifest X v = Inr m" "effectsAllowed m \<longrightarrow> kind m = Live"
      "valid_json (manifest_json m)" "r = registrationOf X m"
    by (auto simp: deriveRunRegistration_Inr)
  from m(1) have v: "valid_json v" "conforms runManifestV2Schema v" "within_limits RUN_MANIFEST_LIMITS v"
    "within_limits RUN_CONFIGURATION_LIMITS (getJson (getJson v ''behavior'') ''configuration'')"
    "m = manifest_of (norm v)" "protoSafe X PROCESSOR_SCHEMA_FIELDS"
    by (auto simp: validateRunManifest_Inr dest: within_limits_valid)
  have n: "norm (manifest_json m) = norm v"
    using manifest_rebuild [of "norm v"] v(1,2,5) by (simp add: conforms_norm)
  have "configuration (behavior m) = norm (getJson (getJson v ''behavior'') ''configuration'')"
    using jget_valid [OF manifest_behavior_read(1) [OF v(2)] v(1)] v(1) unfolding v(5)
    by (simp add: manifest_of_def behavior_of_def)
  moreover have "canonM m = m" unfolding v(5) manifest_of_norm [OF v(1)] by (simp add: canonM_def)
  ultimately have "wf_manifest m"
    using v m(2,3) within_limits_cong [OF n] conforms_cong [OF n] by (simp add: wf_manifest_def)
  with m(4) n v(6) show "wf_manifest (manifest r)" "r = registrationOf X (manifest r)"
    "norm (manifest_json (manifest r)) = norm v" "protoSafe X PROCESSOR_SCHEMA_FIELDS"
    by (simp_all add: registrationOf_def)
qed

lemma derive_norm_cong:
  assumes "norm v = norm w" "valid_json v" "valid_json w"
  shows "deriveRunRegistration X v = Inr r \<longleftrightarrow> deriveRunRegistration X w = Inr r"
proof -
  have b: "valid_json (getJson u ''behavior'')" if "conforms runManifestV2Schema u" "valid_json u" for u
    using jget_valid [OF manifest_behavior_read(1)] that by blast
  have c: "conforms runManifestV2Schema v = conforms runManifestV2Schema w" using assms by (rule conforms_cong)
  have "norm (getJson (getJson v ''behavior'') ''configuration'') = norm (getJson (getJson w ''behavior'') ''configuration'')"
    if "conforms runManifestV2Schema v"
    using getJson_norm [OF b [of v]] getJson_norm [OF b [of w]] getJson_norm [OF assms(2), of "''behavior''"]
      getJson_norm [OF assms(3), of "''behavior''"] assms that c by metis
  then have "validateRunManifest X v = Inr m \<longleftrightarrow> validateRunManifest X w = Inr m" for m
    unfolding validateRunManifest_Inr assms(1) c within_limits_cong [OF assms(1)] using c within_limits_cong by blast
  then show ?thesis by (simp add: deriveRunRegistration_Inr)
qed

lemma derive_wf_manifest:
  assumes "wf_manifest m" "protoSafe X PROCESSOR_SCHEMA_FIELDS"
  shows "deriveRunRegistration X (manifest_json m) = Inr (registrationOf X m)"
proof -
  have v: "valid_json (manifest_json m)" using assms(1) by (auto simp: wf_manifest_def dest: within_limits_valid)
  have "validateRunManifest X (manifest_json m) = Inr m"
    using assms v manifest_of_norm [OF v] by (simp add: validateRunManifest_Inr wf_manifest_def manifest_config)
  then show ?thesis using assms(1) v by (auto simp: deriveRunRegistration_Inr wf_manifest_def)
qed

end


section \<open>The persistence boundary of registrations\<close>

lemma registration_reads:
  "getJson (registration_json r) ''manifest'' = manifest_json (manifest r)"
  "getStr (registration_json r) ''manifestHash'' = manifestHash r"
  "getStr (registration_json r) ''behaviorHash'' = behaviorHash r"
  by (simp_all add: registration_json_def reader_defs)

lemma conforms_registration:
  "conforms runRegistrationSchema (registration_json r) \<longleftrightarrow> hash64 (manifestHash r) \<and> hash64 (behaviorHash r)"
  unfolding runRegistrationSchema_def conforms_shape hasOnly_JObj
  by (simp add: fieldOk_simps z_defs registration_reads hasOnly_JObj registration_json_def js_names reader_defs)

lemma registration_within_limits:
  assumes "wf_manifest (manifest r)" "hash64 (manifestHash r)" "hash64 (behaviorHash r)"
  shows "within_limits RUN_REGISTRATION_LIMITS (registration_json r)"
proof -
  let ?m = "manifest_json (manifest r)"
  have m: "within_limits RUN_MANIFEST_LIMITS ?m" using assms(1) by (simp add: wf_manifest_def)
  have mono: "sizes_ok RUN_REGISTRATION_LIMITS v = sizes_ok RUN_MANIFEST_LIMITS v" for v
    by (induction v rule: sizes_ok.induct [where P = "\<lambda>L v. sizes_ok RUN_REGISTRATION_LIMITS v = sizes_ok RUN_MANIFEST_LIMITS v"])
      (auto simp: RUN_REGISTRATION_LIMITS_def list_all_iff)
  have keys: "byteLength (jsonQuote (js ''manifest'')) = 10" "byteLength (jsonQuote (js ''manifestHash'')) = 14"
    "byteLength (jsonQuote (js ''behaviorHash'')) = 14" "byteLength (js ''manifest'') = 8"
    "byteLength (js ''manifestHash'') = 12" "byteLength (js ''behaviorHash'') = 12"
    by (simp_all add: byteLength_quote_plain byteLength_plain literal_plain)
  have h: "byteLength (jsonQuote (manifestHash r)) = 66" "byteLength (jsonQuote (behaviorHash r)) = 66"
    "byteLength (manifestHash r) = 64" "byteLength (behaviorHash r) = 64"
    using hash64_plain [OF assms(2)] hash64_plain [OF assms(3)] by (simp_all add: byteLength_quote_plain byteLength_plain)
  have "valid_json (registration_json r)"
    using m hash64_scalar [OF assms(2)] hash64_scalar [OF assms(3)]
    by (simp add: registration_json_def within_limits_valid)
  moreover have "sizes_ok RUN_REGISTRATION_LIMITS (registration_json r)"
    using m keys h by (simp add: registration_json_def within_limits_def mono)
      (simp add: RUN_REGISTRATION_LIMITS_def RUN_MANIFEST_LIMITS_def RUN_CONFIGURATION_LIMITS_def)
  ultimately show ?thesis
    using m keys h
    by (simp add: within_limits_def registration_json_def RUN_REGISTRATION_LIMITS_def RUN_MANIFEST_LIMITS_def
        RUN_CONFIGURATION_LIMITS_def field_def)
qed

context node_env
begin

lemma validateRunRegistration_Inr:
  assumes "protoSafe X PROCESSOR_SCHEMA_FIELDS" "wf_manifest m"
  shows "validateRunRegistration X (registration_json (registrationOf X m)) = Inr (registrationOf X m)"
proof -
  let ?r = "registrationOf X m"
  have h: "hash64 (manifestHash ?r)" "hash64 (behaviorHash ?r)" "manifest ?r = m" by (simp_all add: registrationOf_def)
  have l: "within_limits RUN_REGISTRATION_LIMITS (registration_json ?r)"
    using assms(2) h by (intro registration_within_limits) simp_all
  then have v: "valid_json (registration_json ?r)" by (rule within_limits_valid)
  have c: "conforms runRegistrationSchema (registration_json ?r)" using h by (simp add: conforms_registration)
  obtain w where w: "zodParse X runRegistrationSchema (norm (registration_json ?r)) = Inr w" "valid_json w"
      "norm w = norm (registration_json ?r)"
    using zod_accepts [OF protoSafe_schema_safe [OF assms(1) registration_fields_covered(2)], of "norm (registration_json ?r)"]
      v c by (auto simp: conforms_norm)
  have vm: "valid_json (manifest_json m)" using assms(2) by (auto simp: wf_manifest_def within_limits_valid)
  have r1: "norm (getJson w ''manifest'') = norm (manifest_json m)"
    using getJson_norm [OF w(2), of "''manifest''"] getJson_norm [OF v, of "''manifest''"]
    unfolding w(3) registration_reads h(3) by (rule trans [OF sym])
  have "getStr w k = getStr (registration_json ?r) k" for k
    using getStr_norm [OF w(2), of k] getStr_norm [OF v, of k] unfolding w(3) by (rule trans [OF sym])
  note reads = r1 this [of "''manifestHash''", unfolded registration_reads] this [of "''behaviorHash''", unfolded registration_reads]
  have "valid_json (getJson w ''manifest'')" using reads(1) vm by (metis valid_norm)
  then have "deriveRunRegistration X (getJson w ''manifest'') = Inr ?r"
    using derive_wf_manifest [OF assms(2,1)] derive_norm_cong [OF reads(1)] vm by simp
  moreover have "checkJson RUN_REGISTRATION_LIMITS (registration_json ?r) = Inr (metrics (registration_json ?r))"
    using l by (simp add: checkJson_ok)
  moreover have "assertSchemaPrototypeSafety X PROCESSOR_SCHEMA_FIELDS = Inr ()" using assms(1) by simp
  ultimately show ?thesis
    unfolding validateRunRegistration_def snapshot_bind using v w(1) reads(2,3)
    by (simp only: bindR_simps inertJsonSnapshot_eq simp_thms if_False)
qed

end

end
