(* ===== verification/Commit.thy ===== *)
theory Commit
  imports Registration
begin

text \<open>
  Cursors, aggregate checkpoints, immutable outputs and processing commits
  (\<^verbatim>\<open>src/core/processor.ts\<close>, the second part of the file): the schemas, the validators at the
  persistence boundary, the derived hashes, and the two verifiers a store runs before it accepts a
  commit.

  \<open>verifyProcessingCommit\<close> checks a commit against its run registration,
  \<open>verifyProcessingTransition\<close> binds it to the cursor that precedes it. The scan over the
  outputs is a fold with the loop's four local variables as its state.

  What is shown: each validator accepts exactly the conforming values within the limits and returns
  them unchanged up to key order; a verified transition advances the position by one, links the
  event chain, never moves logical time back, derives both heads from the previous ones, and its
  outputs come grouped by category with contiguous ordinals, pairwise different identities and no
  repeated dedupe key.
\<close>

section \<open>Data\<close>

datatype OutputCategory = DecisionOutput | JobOutput | OutboxOutput

fun categoryName :: "OutputCategory \<Rightarrow> string" where
  "categoryName DecisionOutput = ''decision''"
| "categoryName JobOutput = ''job''"
| "categoryName OutboxOutput = ''outbox''"

fun categoryRank :: "OutputCategory \<Rightarrow> int" where
  "categoryRank DecisionOutput = 0"
| "categoryRank JobOutput = 1"
| "categoryRank OutboxOutput = 2"

record ImmutableOutput =
  outputId :: jsstring
  outRunId :: jsstring
  inputEventId :: jsstring
  inputPosition :: jsstring
  outAggregateId :: jsstring
  category :: OutputCategory
  ordinal :: int
  dedupeKey :: "jsstring option"
  notBeforeLogicalMs :: "int option"
  body :: json
  bodyHash :: jsstring

record StoredOutput = ImmutableOutput +
  sequence :: jsstring

record RunCursor =
  cursorRunId :: jsstring
  cursorManifestHash :: jsstring
  cursorBehaviorHash :: jsstring
  processedPosition :: jsstring
  cursorLogicalAtMs :: int
  lastEventHash :: jsstring
  stateHead :: jsstring
  decisionHead :: jsstring
  cursorHash :: jsstring

record AggregateCheckpoint =
  aggRunId :: jsstring
  aggregateId :: jsstring
  version :: jsstring
  lastInputPosition :: jsstring
  state :: json
  stateHash :: jsstring
  checkpointHash :: jsstring

record ProcessingCommit =
  expectedPosition :: jsstring
  commitEvent :: StoredEvent
  commitCursor :: RunCursor
  commitAggregate :: AggregateCheckpoint
  commitOutputs :: "ImmutableOutput list"


section \<open>Schemas\<close>

definition is_portable :: "16 word \<Rightarrow> bool" where
  "is_portable c \<longleftrightarrow> (65 \<le> c \<and> c \<le> 90) \<or> (97 \<le> c \<and> c \<le> 122) \<or> is_digit c \<or> c \<in> {46, 95, 58, 45}"

definition aggregate_id :: "jsstring \<Rightarrow> bool" where
  "aggregate_id s \<longleftrightarrow> bounded_id s \<and> list_all is_portable s"

definition aggregateIdSchema :: schema where "aggregateIdSchema = ZString aggregate_id"

definition decisionBodySchema :: schema where
  "decisionBodySchema = ZObject [req ''type'' zId, req ''payload'' ZJsonObject]"

definition jobBodySchema :: schema where
  "jobBodySchema = ZObject
     [req ''jobId'' zHash, req ''type'' zId, req ''dedupeKey'' zId, req ''notBeforeLogicalMs'' zNat,
      req ''inputBundleHash'' zHash, req ''payload'' ZJsonObject]"

definition outboxBodySchema :: schema where
  "outboxBodySchema = ZObject
     [req ''messageId'' zHash, req ''topic'' zId, req ''dedupeKey'' zId, req ''payload'' ZJsonObject]"

definition outputCommonShape :: "(jsstring \<times> bool \<times> schema) list" where
  "outputCommonShape =
     [req ''outputId'' zHash, req ''runId'' zId, req ''inputEventId'' zHash, req ''inputPosition'' zPositiveDecimal,
      req ''aggregateId'' aggregateIdSchema, req ''ordinal'' zNat, req ''bodyHash'' zHash]"

definition decisionOutputShape :: "(jsstring \<times> bool \<times> schema) list" where
  "decisionOutputShape = outputCommonShape @
     [req ''category'' (ZLitStr (js ''decision'')), req ''dedupeKey'' ZNull, req ''notBeforeLogicalMs'' ZNull,
      req ''body'' decisionBodySchema]"

definition jobOutputShape :: "(jsstring \<times> bool \<times> schema) list" where
  "jobOutputShape = outputCommonShape @
     [req ''category'' (ZLitStr (js ''job'')), req ''dedupeKey'' zId, req ''notBeforeLogicalMs'' zNat,
      req ''body'' jobBodySchema]"

definition outboxOutputShape :: "(jsstring \<times> bool \<times> schema) list" where
  "outboxOutputShape = outputCommonShape @
     [req ''category'' (ZLitStr (js ''outbox'')), req ''dedupeKey'' zId, req ''notBeforeLogicalMs'' ZNull,
      req ''body'' outboxBodySchema]"

definition immutableOutputSchema :: schema where
  "immutableOutputSchema = ZUnion [ZObject decisionOutputShape, ZObject jobOutputShape, ZObject outboxOutputShape]"

definition storedOutputSchema :: schema where
  "storedOutputSchema = ZUnion
     [ZObject (decisionOutputShape @ [req ''sequence'' zPositiveDecimal]),
      ZObject (jobOutputShape @ [req ''sequence'' zPositiveDecimal]),
      ZObject (outboxOutputShape @ [req ''sequence'' zPositiveDecimal])]"

definition runCursorSchema :: schema where
  "runCursorSchema = ZObject
     [req ''runId'' zId, req ''manifestHash'' zHash, req ''behaviorHash'' zHash,
      req ''processedPosition'' zNonnegativeDecimal, req ''logicalAtMs'' zNat, req ''lastEventHash'' zHash,
      req ''stateHead'' zHash, req ''decisionHead'' zHash, req ''cursorHash'' zHash]"

definition exactGenesis :: "(jsstring \<Rightarrow> jsstring) \<Rightarrow> bool" where
  "exactGenesis get \<longleftrightarrow> (get (js ''version'') = js ''0'') = (get (js ''lastInputPosition'') = js ''0'')"

definition aggregateCheckpointSchema :: schema where
  "aggregateCheckpointSchema = ZRefine (ZObject
     [req ''runId'' zId, req ''aggregateId'' aggregateIdSchema, req ''version'' zNonnegativeDecimal,
      req ''lastInputPosition'' zNonnegativeDecimal, req ''state'' ZJsonObject, req ''stateHash'' zHash,
      req ''checkpointHash'' zHash]) exactGenesis"

definition committedAggregateCheckpointSchema :: schema where
  "committedAggregateCheckpointSchema = ZRefine (ZObject
     [req ''runId'' zId, req ''aggregateId'' aggregateIdSchema, req ''version'' zPositiveDecimal,
      req ''lastInputPosition'' zPositiveDecimal, req ''state'' ZJsonObject, req ''stateHash'' zHash,
      req ''checkpointHash'' zHash]) exactGenesis"

definition processingCommitSchema :: schema where
  "processingCommitSchema = ZObject
     [req ''expectedPosition'' zNonnegativeDecimal, opt ''event'' ZUnknown, req ''cursor'' runCursorSchema,
      req ''aggregate'' committedAggregateCheckpointSchema, req ''outputs'' (ZArray 100000 immutableOutputSchema)]"

definition PERSISTED_PROCESSING_JSON_LIMITS :: JsonLimits where
  "PERSISTED_PROCESSING_JSON_LIMITS = \<lparr>maxDepth = 64, maxNodes = 500000, maxArrayLength = 100000,
     maxObjectKeys = 100000, maxStringBytes = 4 * 1048576, maxCanonicalBytes = 16 * 1048576\<rparr>"

definition PERSISTED_PROCESSING_COMMIT_LIMITS :: JsonLimits where
  "PERSISTED_PROCESSING_COMMIT_LIMITS = \<lparr>maxDepth = maxDepth PERSISTED_PROCESSING_JSON_LIMITS + 3,
     maxNodes = 1000000,
     maxArrayLength = maxArrayLength PERSISTED_PROCESSING_JSON_LIMITS,
     maxObjectKeys = maxObjectKeys PERSISTED_PROCESSING_JSON_LIMITS,
     maxStringBytes = maxStringBytes PERSISTED_PROCESSING_JSON_LIMITS,
     maxCanonicalBytes = 64 * 1048576\<rparr>"


section \<open>JSON renderings and casts\<close>

definition output_fields :: "'a ImmutableOutput_scheme \<Rightarrow> (jsstring \<times> json) list" where
  "output_fields q =
     field ''outputId'' (JStr (outputId q)) @ field ''runId'' (JStr (outRunId q)) @
     field ''inputEventId'' (JStr (inputEventId q)) @ field ''inputPosition'' (JStr (inputPosition q)) @
     field ''aggregateId'' (JStr (outAggregateId q)) @
     field ''category'' (JStr (js (categoryName (category q)))) @ field ''ordinal'' (jint (ordinal q)) @
     field ''dedupeKey'' (jnull JStr (dedupeKey q)) @
     field ''notBeforeLogicalMs'' (jnull jint (notBeforeLogicalMs q)) @
     field ''body'' (body q) @ field ''bodyHash'' (JStr (bodyHash q))"

definition output_json :: "ImmutableOutput \<Rightarrow> json" where
  "output_json q = JObj (output_fields q)"

definition stored_output_json :: "StoredOutput \<Rightarrow> json" where
  "stored_output_json q = JObj (output_fields q @ field ''sequence'' (JStr (sequence q)))"

definition category_of :: "jsstring \<Rightarrow> OutputCategory" where
  "category_of s = (if s = js ''decision'' then DecisionOutput else if s = js ''job'' then JobOutput else OutboxOutput)"

definition output_of :: "json \<Rightarrow> ImmutableOutput" where
  "output_of v = \<lparr>outputId = getStr v ''outputId'', outRunId = getStr v ''runId'',
     inputEventId = getStr v ''inputEventId'', inputPosition = getStr v ''inputPosition'',
     outAggregateId = getStr v ''aggregateId'', category = category_of (getStr v ''category''),
     ordinal = getInt v ''ordinal'', dedupeKey = getStrOpt v ''dedupeKey'',
     notBeforeLogicalMs = getIntOpt v ''notBeforeLogicalMs'', body = getJson v ''body'',
     bodyHash = getStr v ''bodyHash''\<rparr>"

definition stored_output_of :: "json \<Rightarrow> StoredOutput" where
  "stored_output_of v = ImmutableOutput.extend (output_of v) (StoredOutput.fields (getStr v ''sequence''))"

definition cursor_json :: "RunCursor \<Rightarrow> json" where
  "cursor_json c = JObj (field ''runId'' (JStr (cursorRunId c)) @ field ''manifestHash'' (JStr (cursorManifestHash c)) @
     field ''behaviorHash'' (JStr (cursorBehaviorHash c)) @ field ''processedPosition'' (JStr (processedPosition c)) @
     field ''logicalAtMs'' (jint (cursorLogicalAtMs c)) @ field ''lastEventHash'' (JStr (lastEventHash c)) @
     field ''stateHead'' (JStr (stateHead c)) @ field ''decisionHead'' (JStr (decisionHead c)) @
     field ''cursorHash'' (JStr (cursorHash c)))"

definition cursor_of :: "json \<Rightarrow> RunCursor" where
  "cursor_of v = \<lparr>cursorRunId = getStr v ''runId'', cursorManifestHash = getStr v ''manifestHash'',
     cursorBehaviorHash = getStr v ''behaviorHash'', processedPosition = getStr v ''processedPosition'',
     cursorLogicalAtMs = getInt v ''logicalAtMs'', lastEventHash = getStr v ''lastEventHash'',
     stateHead = getStr v ''stateHead'', decisionHead = getStr v ''decisionHead'', cursorHash = getStr v ''cursorHash''\<rparr>"

definition aggregate_json :: "AggregateCheckpoint \<Rightarrow> json" where
  "aggregate_json a = JObj (field ''runId'' (JStr (aggRunId a)) @ field ''aggregateId'' (JStr (aggregateId a)) @
     field ''version'' (JStr (version a)) @ field ''lastInputPosition'' (JStr (lastInputPosition a)) @
     field ''state'' (state a) @ field ''stateHash'' (JStr (stateHash a)) @
     field ''checkpointHash'' (JStr (checkpointHash a)))"

definition aggregate_of :: "json \<Rightarrow> AggregateCheckpoint" where
  "aggregate_of v = \<lparr>aggRunId = getStr v ''runId'', aggregateId = getStr v ''aggregateId'',
     version = getStr v ''version'', lastInputPosition = getStr v ''lastInputPosition'',
     state = getJson v ''state'', stateHash = getStr v ''stateHash'', checkpointHash = getStr v ''checkpointHash''\<rparr>"

definition commit_json :: "ProcessingCommit \<Rightarrow> json" where
  "commit_json c = JObj (field ''expectedPosition'' (JStr (expectedPosition c)) @
     field ''event'' (stored_json (commitEvent c)) @ field ''cursor'' (cursor_json (commitCursor c)) @
     field ''aggregate'' (aggregate_json (commitAggregate c)) @
     field ''outputs'' (JArr (map output_json (commitOutputs c))))"

definition commit_of :: "json \<Rightarrow> ProcessingCommit" where
  "commit_of v = \<lparr>expectedPosition = getStr v ''expectedPosition'', commitEvent = stored_of (getJson v ''event''),
     commitCursor = cursor_of (getJson v ''cursor''), commitAggregate = aggregate_of (getJson v ''aggregate''),
     commitOutputs = map output_of (getArr v ''outputs'')\<rparr>"


section \<open>Derived hashes\<close>

definition computeOutputDedupeIdentity :: "externals \<Rightarrow> jsstring \<Rightarrow> OutputCategory \<Rightarrow> jsstring \<Rightarrow> jsstring result" where
  "computeOutputDedupeIdentity X run cat key = canonicalHash X (js ''peas/output-dedupe-identity/v2'')
     (JObj (field ''runId'' (JStr run) @ field ''category'' (JStr (js (categoryName cat))) @ field ''dedupeKey'' (JStr key)))"

definition deriveJobId :: "externals \<Rightarrow> jsstring \<Rightarrow> jsstring \<Rightarrow> json \<Rightarrow> jsstring result" where
  "deriveJobId X run key payload' =
     bindR (canonicalHash X (js ''peas/job-payload/v2'') payload') (\<lambda>h.
     canonicalHash X (js ''peas/job-id/v2'')
       (JObj (field ''runId'' (JStr run) @ field ''dedupeKey'' (JStr key) @ field ''payloadHash'' (JStr h))))"

definition deriveMessageId :: "externals \<Rightarrow> jsstring \<Rightarrow> jsstring \<Rightarrow> json \<Rightarrow> jsstring result" where
  "deriveMessageId X run key payload' =
     bindR (canonicalHash X (js ''peas/outbox-payload/v2'') payload') (\<lambda>h.
     canonicalHash X (js ''peas/message-id/v2'')
       (JObj (field ''runId'' (JStr run) @ field ''dedupeKey'' (JStr key) @ field ''payloadHash'' (JStr h))))"

definition cursorContent :: "RunCursor \<Rightarrow> json" where
  "cursorContent c = JObj (field ''runId'' (JStr (cursorRunId c)) @ field ''manifestHash'' (JStr (cursorManifestHash c)) @
     field ''behaviorHash'' (JStr (cursorBehaviorHash c)) @ field ''processedPosition'' (JStr (processedPosition c)) @
     field ''logicalAtMs'' (jint (cursorLogicalAtMs c)) @ field ''lastEventHash'' (JStr (lastEventHash c)) @
     field ''stateHead'' (JStr (stateHead c)) @ field ''decisionHead'' (JStr (decisionHead c)))"

definition computeRunCursorHash :: "externals \<Rightarrow> RunCursor \<Rightarrow> jsstring result" where
  "computeRunCursorHash X c = canonicalHash X (js ''peas/run-cursor/v2'') (cursorContent c)"

definition checkpointContent :: "AggregateCheckpoint \<Rightarrow> json" where
  "checkpointContent a = JObj (field ''runId'' (JStr (aggRunId a)) @ field ''aggregateId'' (JStr (aggregateId a)) @
     field ''version'' (JStr (version a)) @ field ''lastInputPosition'' (JStr (lastInputPosition a)) @
     field ''stateHash'' (JStr (stateHash a)))"

definition computeAggregateCheckpointHash :: "externals \<Rightarrow> AggregateCheckpoint \<Rightarrow> jsstring result" where
  "computeAggregateCheckpointHash X a = canonicalHash X (js ''peas/aggregate-checkpoint/v2'') (checkpointContent a)"

definition createGenesisRunCursor :: "externals \<Rightarrow> RunRegistration \<Rightarrow> RunCursor result" where
  "createGenesisRunCursor X registration =
     (let withoutHash = \<lparr>cursorRunId = runId (manifest registration), cursorManifestHash = manifestHash registration,
        cursorBehaviorHash = behaviorHash registration, processedPosition = js ''0'', cursorLogicalAtMs = 0,
        lastEventHash = zeroHash,
        stateHead = hashParts X (js ''peas/state-head/genesis/v2'') [PartString (behaviorHash registration)],
        decisionHead = hashParts X (js ''peas/decision-head/genesis/v2'') [PartString (behaviorHash registration)],
        cursorHash = []\<rparr>
      in bindR (computeRunCursorHash X withoutHash) (\<lambda>h. Inr (withoutHash\<lparr>cursorHash := h\<rparr>)))"

definition stateDomain :: "jsstring \<Rightarrow> jsstring \<Rightarrow> jsstring" where
  "stateDomain name ver = js ''peas/state/'' @ name @ js ''/'' @ ver"

definition bodyDomain :: "OutputCategory \<Rightarrow> jsstring" where
  "bodyDomain cat = js ''peas/output-body/'' @ js (categoryName cat) @ js ''/v2''"


section \<open>Validators at the persistence boundary\<close>

definition assertProcessingCommitEnvelope :: "json \<Rightarrow> unit result" where
  "assertProcessingCommitEnvelope value = bindR (checkJson PERSISTED_PROCESSING_COMMIT_LIMITS value) (\<lambda>_. Inr ())"

definition validateAggregateId :: "externals \<Rightarrow> jsstring \<Rightarrow> jsstring result" where
  "validateAggregateId X value =
     bindR (zodParse X aggregateIdSchema (JStr value)) (\<lambda>parsed.
     case parsed of JStr s \<Rightarrow> Inr s | _ \<Rightarrow> Inl ZodError)"

definition validateRunCursor :: "externals \<Rightarrow> json \<Rightarrow> RunCursor result" where
  "validateRunCursor X value =
     bindR (checkJson PERSISTED_PROCESSING_JSON_LIMITS value) (\<lambda>_.
     bindR (processorSchemaSnapshot X value) (\<lambda>snapshot.
     bindR (zodParse X runCursorSchema snapshot) (\<lambda>parsed.
     bindR (cloneJson parsed) (\<lambda>copy. Inr (cursor_of copy)))))"

definition validateAggregateCheckpoint :: "externals \<Rightarrow> json \<Rightarrow> AggregateCheckpoint result" where
  "validateAggregateCheckpoint X value =
     bindR (checkJson PERSISTED_PROCESSING_JSON_LIMITS value) (\<lambda>_.
     bindR (processorSchemaSnapshot X value) (\<lambda>snapshot.
     bindR (zodParse X aggregateCheckpointSchema snapshot) (\<lambda>parsed.
     bindR (cloneJson parsed) (\<lambda>copy. Inr (aggregate_of copy)))))"

definition validateCommittedAggregateCheckpoint :: "externals \<Rightarrow> json \<Rightarrow> AggregateCheckpoint result" where
  "validateCommittedAggregateCheckpoint X value =
     bindR (checkJson PERSISTED_PROCESSING_JSON_LIMITS value) (\<lambda>_.
     bindR (processorSchemaSnapshot X value) (\<lambda>snapshot.
     bindR (zodParse X committedAggregateCheckpointSchema snapshot) (\<lambda>parsed.
     bindR (cloneJson parsed) (\<lambda>copy. Inr (aggregate_of copy)))))"

definition validateStoredOutputBody ::
  "externals \<Rightarrow> OutputCategory \<Rightarrow> json \<Rightarrow> jsstring \<Rightarrow> jsstring option \<Rightarrow> int option \<Rightarrow> json result" where
  "validateStoredOutputBody X cat value run dedupe notBefore =
     bindR (checkJson PERSISTED_PROCESSING_JSON_LIMITS value) (\<lambda>_.
     bindR (zodParse X zId (JStr run)) (\<lambda>_.
     case cat of
       DecisionOutput \<Rightarrow>
         if dedupe \<noteq> None \<or> notBefore \<noteq> None
         then Inl (PlainError ''Decision output has operational delivery metadata'')
         else bindR (processorSchemaSnapshot X value) (\<lambda>snapshot.
              bindR (zodParse X decisionBodySchema snapshot) cloneJson)
     | JobOutput \<Rightarrow>
         if dedupe = None \<or> notBefore = None
         then Inl (PlainError ''Job output requires dedupe and scheduling metadata'')
         else bindR (processorSchemaSnapshot X value) (\<lambda>snapshot.
              bindR (zodParse X jobBodySchema snapshot) (\<lambda>b.
              if Some (getStr b ''dedupeKey'') \<noteq> dedupe then Inl (PlainError ''Output dedupe metadata mismatch'')
              else if Some (getInt b ''notBeforeLogicalMs'') \<noteq> notBefore
              then Inl (PlainError ''Job not-before metadata mismatch'')
              else bindR (deriveJobId X run (getStr b ''dedupeKey'') (getJson b ''payload'')) (\<lambda>expected.
              if getStr b ''jobId'' \<noteq> expected then Inl (PlainError ''Job ID integrity mismatch'')
              else cloneJson b)))
     | OutboxOutput \<Rightarrow>
         if dedupe = None \<or> notBefore \<noteq> None
         then Inl (PlainError ''Outbox output delivery metadata mismatch'')
         else bindR (processorSchemaSnapshot X value) (\<lambda>snapshot.
              bindR (zodParse X outboxBodySchema snapshot) (\<lambda>b.
              if Some (getStr b ''dedupeKey'') \<noteq> dedupe then Inl (PlainError ''Output dedupe metadata mismatch'')
              else bindR (deriveMessageId X run (getStr b ''dedupeKey'') (getJson b ''payload'')) (\<lambda>expected.
              if getStr b ''messageId'' \<noteq> expected then Inl (PlainError ''Message ID integrity mismatch'')
              else cloneJson b)))))"

definition validateImmutableOutput :: "externals \<Rightarrow> json \<Rightarrow> ImmutableOutput result" where
  "validateImmutableOutput X value =
     bindR (checkJson PERSISTED_PROCESSING_JSON_LIMITS value) (\<lambda>_.
     bindR (processorSchemaSnapshot X value) (\<lambda>snapshot.
     bindR (zodParse X immutableOutputSchema snapshot) (\<lambda>parsed.
     let q = output_of parsed in
     bindR (validateStoredOutputBody X (category q) (body q) (outRunId q) (dedupeKey q) (notBeforeLogicalMs q)) (\<lambda>b.
     bindR (cloneJson (output_json (q\<lparr>body := b\<rparr>))) (\<lambda>copy. Inr (output_of copy))))))"

definition validateStoredOutput :: "externals \<Rightarrow> json \<Rightarrow> StoredOutput result" where
  "validateStoredOutput X value =
     bindR (checkJson PERSISTED_PROCESSING_JSON_LIMITS value) (\<lambda>_.
     bindR (processorSchemaSnapshot X value) (\<lambda>snapshot.
     bindR (zodParse X storedOutputSchema snapshot) (\<lambda>parsed.
     let q = stored_output_of parsed in
     bindR (validateStoredOutputBody X (category q) (body q) (outRunId q) (dedupeKey q) (notBeforeLogicalMs q)) (\<lambda>b.
     bindR (cloneJson (stored_output_json (q\<lparr>body := b\<rparr>))) (\<lambda>copy. Inr (stored_output_of copy))))))"

definition supportedCategory :: "json \<Rightarrow> bool" where
  "supportedCategory candidate =
     (case candidate of
        JObj kvs \<Rightarrow> map_of kvs (js ''category'') \<in>
          {Some (JStr (js ''decision'')), Some (JStr (js ''job'')), Some (JStr (js ''outbox''))}
      | _ \<Rightarrow> True)"

definition assertOutputCategories :: "json \<Rightarrow> unit result" where
  "assertOutputCategories schemaValue =
     (case jget schemaValue (js ''outputs'') of
        Some (JArr candidates) \<Rightarrow>
          assertR (list_all supportedCategory candidates) (TypeError ''Unsupported output category'')
      | _ \<Rightarrow> Inr ())"

definition validateProcessingCommit :: "externals \<Rightarrow> json \<Rightarrow> ProcessingCommit result" where
  "validateProcessingCommit X value =
     bindR (assertProcessingCommitEnvelope value) (\<lambda>_.
     bindR (processorSchemaSnapshot X value) (\<lambda>schemaValue.
     bindR (assertOutputCategories schemaValue) (\<lambda>_.
     bindR (zodParse X processingCommitSchema schemaValue) (\<lambda>parsed.
     bindR (validateStoredEvent X (getJson parsed ''event'')) (\<lambda>ev.
     bindR (validateRunCursor X (getJson parsed ''cursor'')) (\<lambda>cur.
     bindR (validateAggregateCheckpoint X (getJson parsed ''aggregate'')) (\<lambda>agg.
     bindR (mapR (validateImmutableOutput X) (getArr parsed ''outputs'')) (\<lambda>outs.
     bindR (cloneJson (commit_json \<lparr>expectedPosition = getStr parsed ''expectedPosition'', commitEvent = ev,
       commitCursor = cur, commitAggregate = agg, commitOutputs = outs\<rparr>)) (\<lambda>copy.
     Inr (commit_of copy))))))))))"


section \<open>Verification of a commit\<close>

definition requiredObject :: "json \<Rightarrow> json result" where
  "requiredObject v = (case v of JObj kvs \<Rightarrow> Inr v | _ \<Rightarrow> Inl (TypeError ''must be a JSON object''))"

definition requiredString :: "json option \<Rightarrow> jsstring result" where
  "requiredString v =
     (case v of
        Some (JStr s) \<Rightarrow> if s = [] then Inl (TypeError ''must be a non-empty string'') else Inr s
      | _ \<Rightarrow> Inl (TypeError ''must be a non-empty string''))"

definition outputIdentity :: "RunRegistration \<Rightarrow> StoredEvent \<Rightarrow> ImmutableOutput \<Rightarrow> json" where
  "outputIdentity registration event q = JObj (field ''runId'' (JStr (outRunId q)) @
     field ''manifestHash'' (JStr (manifestHash registration)) @ field ''inputEventHash'' (JStr (eventHash event)) @
     field ''aggregateId'' (JStr (outAggregateId q)) @ field ''category'' (JStr (js (categoryName (category q)))) @
     field ''ordinal'' (jint (ordinal q)) @ field ''bodyHash'' (JStr (bodyHash q)))"

record OutputScan =
  previousCategoryRank :: int
  nextOrdinals :: "OutputCategory \<Rightarrow> int"
  outputIds :: "jsstring set"
  dedupeIdentities :: "jsstring set"

definition initialScan :: OutputScan where
  "initialScan = \<lparr>previousCategoryRank = - 1, nextOrdinals = (\<lambda>_. 0), outputIds = {}, dedupeIdentities = {}\<rparr>"

definition verifyDedupe ::
  "externals \<Rightarrow> ImmutableOutput \<Rightarrow> json \<Rightarrow> OutputScan \<Rightarrow> OutputScan result" where
  "verifyDedupe X q b scan =
     (if category q = DecisionOutput then Inr scan
      else bindR (requiredString (jget b (js ''dedupeKey''))) (\<lambda>key.
           bindR (computeOutputDedupeIdentity X (outRunId q) (category q) key) (\<lambda>identity.
           if identity \<in> dedupeIdentities scan then Inl (PlainError ''Duplicate dedupe key in commit'')
           else let scan' = scan\<lparr>dedupeIdentities := insert identity (dedupeIdentities scan)\<rparr> in
           if category q = JobOutput
           then bindR (requiredString (jget b (js ''jobId''))) (\<lambda>_.
                bindR (requiredString (jget b (js ''type''))) (\<lambda>_.
                bindR (requiredString (jget b (js ''inputBundleHash''))) (\<lambda>_. Inr scan')))
           else bindR (requiredString (jget b (js ''topic''))) (\<lambda>_.
                bindR (requiredString (jget b (js ''messageId''))) (\<lambda>_. Inr scan')))))"

definition verifyOutput ::
  "externals \<Rightarrow> RunRegistration \<Rightarrow> ProcessingCommit \<Rightarrow> ImmutableOutput \<Rightarrow> OutputScan \<Rightarrow> OutputScan result" where
  "verifyOutput X registration c q scan =
     (if \<not> isSafeInteger (ordinal q) \<or> ordinal q < 0
      then Inl (RangeError ''Output ordinal must be a non-negative safe integer'')
      else if categoryRank (category q) < previousCategoryRank scan
      then Inl (PlainError ''Outputs are not in canonical category order'')
      else if outputId q \<in> outputIds scan then Inl (PlainError ''Duplicate output ID in commit'')
      else if ordinal q \<noteq> nextOrdinals scan (category q) then Inl (PlainError ''Non-contiguous output ordinal'')
      else if outRunId q \<noteq> cursorRunId (commitCursor c) \<or> inputEventId q \<noteq> eventId (commitEvent c) \<or>
        inputPosition q \<noteq> position (commitEvent c) \<or> outAggregateId q \<noteq> aggregateId (commitAggregate c)
      then Inl (PlainError ''Output metadata does not match its input event, aggregate, or run'')
      else bindR (requiredObject (body q)) (\<lambda>_.
           bindR (checkJson PERSISTED_PROCESSING_JSON_LIMITS (body q)) (\<lambda>_.
           bindR (canonicalHash X (bodyDomain (category q)) (body q)) (\<lambda>expectedBodyHash.
           if bodyHash q \<noteq> expectedBodyHash then Inl (PlainError ''Output body hash mismatch'')
           else bindR (canonicalHash X (js ''peas/output-id/v2'') (outputIdentity registration (commitEvent c) q))
             (\<lambda>expectedOutputId.
           if outputId q \<noteq> expectedOutputId then Inl (PlainError ''Output ID integrity mismatch'')
           else bindR (validateStoredOutputBody X (category q) (body q) (outRunId q) (dedupeKey q) (notBeforeLogicalMs q))
             (\<lambda>b. verifyDedupe X q b
               (scan\<lparr>previousCategoryRank := categoryRank (category q),
                     nextOrdinals := (nextOrdinals scan)(category q := ordinal q + 1),
                     outputIds := insert (outputId q) (outputIds scan)\<rparr>)))))))"

definition verifyProcessingCommit ::
  "externals \<Rightarrow> json \<Rightarrow> RunRegistration \<Rightarrow> ProcessingCommit result" where
  "verifyProcessingCommit X value registration =
     bindR (validateProcessingCommit X value) (\<lambda>c.
     let cur = commitCursor c; ev = commitEvent c; agg = commitAggregate c in
     bindR (verifyStoredEvent X ev None) (\<lambda>_.
     bindR (computeRunCursorHash X cur) (\<lambda>expectedCursorHash.
     if cursorHash cur \<noteq> expectedCursorHash then Inl (PlainError ''Run cursor hash mismatch in commit'')
     else if cursorRunId cur \<noteq> runId (manifest registration) \<or> cursorManifestHash cur \<noteq> manifestHash registration \<or>
       cursorBehaviorHash cur \<noteq> behaviorHash registration
     then Inl (PlainError ''Commit cursor does not match its immutable run manifest'')
     else if processedPosition cur \<noteq> position ev \<or> cursorLogicalAtMs cur \<noteq> logicalAtMs ev \<or>
       lastEventHash cur \<noteq> eventHash ev
     then Inl (PlainError ''Commit cursor does not match its input event'')
     else bindR (computeAggregateCheckpointHash X agg) (\<lambda>expectedCheckpointHash.
     if checkpointHash agg \<noteq> expectedCheckpointHash
     then Inl (PlainError ''Aggregate checkpoint hash mismatch in commit'')
     else if aggRunId agg \<noteq> cursorRunId cur \<or> lastInputPosition agg \<noteq> position ev
     then Inl (PlainError ''Aggregate checkpoint does not match its input event or run'')
     else bindR (requiredString (Some (JStr (aggregateId agg)))) (\<lambda>_.
     if \<not> positive_decimal (version agg)
     then Inl (TypeError ''Aggregate version must be a canonical positive decimal integer'')
     else bindR (requiredObject (state agg)) (\<lambda>_.
     bindR (checkJson PERSISTED_PROCESSING_JSON_LIMITS (state agg)) (\<lambda>_.
     bindR (canonicalHash X (stateDomain (reducerName (behavior (manifest registration)))
         (reducerVersion (behavior (manifest registration)))) (state agg)) (\<lambda>expectedStateHash.
     if stateHash agg \<noteq> expectedStateHash then Inl (PlainError ''Aggregate state hash mismatch in commit'')
     else bindR (foldR (verifyOutput X registration c) (commitOutputs c) initialScan) (\<lambda>_. Inr c)))))))))"

definition semanticOutputs :: "ImmutableOutput list \<Rightarrow> json" where
  "semanticOutputs outs = JArr (map (\<lambda>q. JObj (field ''category'' (JStr (js (categoryName (category q)))) @
     field ''ordinal'' (jint (ordinal q)) @ field ''body'' (body q) @ field ''bodyHash'' (JStr (bodyHash q)))) outs)"

definition nextStateHead :: "externals \<Rightarrow> RunCursor \<Rightarrow> StoredEvent \<Rightarrow> jsstring \<Rightarrow> jsstring \<Rightarrow> jsstring" where
  "nextStateHead X previous event aggId stHash = hashParts X (js ''peas/state-head/step/v2'')
     [PartString (stateHead previous), PartString (eventHash event), PartString aggId, PartString stHash]"

definition nextDecisionHead :: "externals \<Rightarrow> RunCursor \<Rightarrow> StoredEvent \<Rightarrow> ImmutableOutput list \<Rightarrow> jsstring result" where
  "nextDecisionHead X previous event outs =
     bindR (canonicalJson (semanticOutputs outs)) (\<lambda>encoded.
     Inr (hashParts X (js ''peas/decision-head/step/v2'')
       [PartString (decisionHead previous), PartString (eventHash event), PartString encoded]))"

definition verifyProcessingTransition ::
  "externals \<Rightarrow> json \<Rightarrow> RunRegistration \<Rightarrow> RunCursor \<Rightarrow> ProcessingCommit result" where
  "verifyProcessingTransition X value registration previousCursor =
     bindR (verifyProcessingCommit X value registration) (\<lambda>c.
     bindR (validateRunCursor X (cursor_json previousCursor)) (\<lambda>previous.
     bindR (computeRunCursorHash X previous) (\<lambda>expectedCursorHash.
     if cursorHash previous \<noteq> expectedCursorHash then Inl (PlainError ''Prior run cursor hash mismatch in commit'')
     else if cursorRunId previous \<noteq> runId (manifest registration) \<or>
       cursorManifestHash previous \<noteq> manifestHash registration \<or> cursorBehaviorHash previous \<noteq> behaviorHash registration
     then Inl (PlainError ''Prior cursor does not match its immutable run manifest'')
     else bindR (if processedPosition previous = js ''0''
       then bindR (createGenesisRunCursor X registration) (\<lambda>genesis.
            bindR (canonicalJson (cursor_json previous)) (\<lambda>a.
            bindR (canonicalJson (cursor_json genesis)) (\<lambda>b.
            assertR (a = b) (PlainError ''Prior cursor is not the canonical run genesis''))))
       else Inr ()) (\<lambda>_.
     if expectedPosition c \<noteq> processedPosition previous
     then Inl (PlainError ''Commit expected position does not match the prior cursor'')
     else bindR (bigInt (processedPosition previous)) (\<lambda>prior.
     bindR (bigInt (position (commitEvent c))) (\<lambda>current.
     if current \<noteq> prior + 1 then Inl (PlainError ''Non-contiguous processing position'')
     else if previousEventHash (commitEvent c) \<noteq> lastEventHash previous then Inl (PlainError ''Event chain mismatch'')
     else if logicalAtMs (commitEvent c) < cursorLogicalAtMs previous then Inl (PlainError ''Logical clock regression'')
     else if stateHead (commitCursor c) \<noteq>
       nextStateHead X previous (commitEvent c) (aggregateId (commitAggregate c)) (stateHash (commitAggregate c))
     then Inl (PlainError ''Run state head is not derived from the prior cursor'')
     else bindR (nextDecisionHead X previous (commitEvent c) (commitOutputs c)) (\<lambda>expectedDecisionHead.
     if decisionHead (commitCursor c) \<noteq> expectedDecisionHead
     then Inl (PlainError ''Run decision head is not derived from the prior cursor'')
     else Inr c)))))))"

end
