(* ===== verification/CommitLaws.thy ===== *)
theory CommitLaws
  imports Commit
begin

text \<open>
  The laws of the validators of \<^verbatim>\<open>Commit.thy\<close>: casts and renderings are inverse to each other
  on accepted values, the guard list covers every schema, and each validator accepts exactly the
  conforming values within the limits.
\<close>

section \<open>The guard list covers the schemas\<close>

lemmas commit_schema_defs = decisionBodySchema_def jobBodySchema_def outboxBodySchema_def outputCommonShape_def
  decisionOutputShape_def jobOutputShape_def outboxOutputShape_def immutableOutputSchema_def storedOutputSchema_def
  runCursorSchema_def aggregateCheckpointSchema_def committedAggregateCheckpointSchema_def processingCommitSchema_def
  aggregateIdSchema_def

lemma commit_fields_covered:
  "set (schema_fields decisionBodySchema) \<subseteq> js ` set PROCESSOR_SCHEMA_FIELDS"
  "set (schema_fields jobBodySchema) \<subseteq> js ` set PROCESSOR_SCHEMA_FIELDS"
  "set (schema_fields outboxBodySchema) \<subseteq> js ` set PROCESSOR_SCHEMA_FIELDS"
  "set (schema_fields immutableOutputSchema) \<subseteq> js ` set PROCESSOR_SCHEMA_FIELDS"
  "set (schema_fields storedOutputSchema) \<subseteq> js ` set PROCESSOR_SCHEMA_FIELDS"
  "set (schema_fields runCursorSchema) \<subseteq> js ` set PROCESSOR_SCHEMA_FIELDS"
  "set (schema_fields aggregateCheckpointSchema) \<subseteq> js ` set PROCESSOR_SCHEMA_FIELDS"
  "set (schema_fields committedAggregateCheckpointSchema) \<subseteq> js ` set PROCESSOR_SCHEMA_FIELDS"
  "set (schema_fields processingCommitSchema) \<subseteq> js ` set PROCESSOR_SCHEMA_FIELDS"
  by (simp_all add: commit_schema_defs schema_defs PROCESSOR_SCHEMA_FIELDS_def)

lemma processing_limits_ok [simp]:
  "assertJsonLimits PERSISTED_PROCESSING_JSON_LIMITS" "assertJsonLimits PERSISTED_PROCESSING_COMMIT_LIMITS"
  by (simp_all add: assertJsonLimits_def PERSISTED_PROCESSING_JSON_LIMITS_def PERSISTED_PROCESSING_COMMIT_LIMITS_def
      isSafeInteger_def MAX_SAFE_INTEGER_def)

context node_env
begin

lemma snapshot_parse:
  assumes "set (schema_fields z) \<subseteq> js ` set PROCESSOR_SCHEMA_FIELDS"
    and "\<And>w. valid_json w \<Longrightarrow> f (norm w) = f w"
  shows "bindR (processorSchemaSnapshot X v) (\<lambda>snapshot. bindR (zodParse X z snapshot) f) = Inr r \<longleftrightarrow>
    protoSafe X PROCESSOR_SCHEMA_FIELDS \<and> valid_json v \<and> conforms z v \<and> f v = Inr r"
  unfolding snapshot_bind by (rule guarded_parse [of z PROCESSOR_SCHEMA_FIELDS f, OF assms])

lemma boundary_parse:
  assumes "assertJsonLimits L" "set (schema_fields z) \<subseteq> js ` set PROCESSOR_SCHEMA_FIELDS"
    and "\<And>w. valid_json w \<Longrightarrow> f (norm w) = f w"
  shows "bindR (checkJson L v) (\<lambda>_. bindR (processorSchemaSnapshot X v) (\<lambda>snapshot.
      bindR (zodParse X z snapshot) f)) = Inr r \<longleftrightarrow>
    protoSafe X PROCESSOR_SCHEMA_FIELDS \<and> within_limits L v \<and> conforms z v \<and> f v = Inr r"
proof -
  have "bindR (processorSchemaSnapshot X v) (\<lambda>snapshot. bindR (zodParse X z snapshot) f) = Inr r \<longleftrightarrow>
      protoSafe X PROCESSOR_SCHEMA_FIELDS \<and> valid_json v \<and> conforms z v \<and> f v = Inr r"
    by (rule snapshot_parse [where f = f, OF assms(2,3)])
  then show ?thesis
    by (auto simp: bindR_eq_Inr [of "checkJson L v"] checkJson_ok [OF assms(1)] dest: within_limits_valid)
qed

lemma validateAggregateId_Inr [simp]: "validateAggregateId X s = Inr t \<longleftrightarrow> aggregate_id s \<and> t = s"
  by (auto simp: validateAggregateId_def aggregateIdSchema_def zod_string)

end


section \<open>Cursors and checkpoints\<close>

lemma cursor_of_json [simp]: "cursor_of (cursor_json c) = c"
  by (simp add: cursor_of_def cursor_json_def jint_def reader_defs)

lemma cursor_of_norm [simp]: "valid_json v \<Longrightarrow> cursor_of (norm v) = cursor_of v"
  by (simp add: cursor_of_def)

definition cursorOk :: "RunCursor \<Rightarrow> bool" where
  "cursorOk c \<longleftrightarrow> bounded_id (cursorRunId c) \<and> hash64 (cursorManifestHash c) \<and> hash64 (cursorBehaviorHash c) \<and>
     nonnegative_decimal (processedPosition c) \<and> isSafeInteger (cursorLogicalAtMs c) \<and> 0 \<le> cursorLogicalAtMs c \<and>
     hash64 (lastEventHash c) \<and> hash64 (stateHead c) \<and> hash64 (decisionHead c) \<and> hash64 (cursorHash c)"

lemma conforms_cursor: "conforms runCursorSchema (cursor_json c) = cursorOk c"
  by (simp add: runCursorSchema_def check_simps z_defs cursor_json_def hasOnly_JObj js_names cursorOk_def jint_def
      reader_defs del: conforms.simps)

definition cursorNames :: "string list" where
  "cursorNames = [''runId'', ''manifestHash'', ''behaviorHash'', ''processedPosition'', ''logicalAtMs'',
     ''lastEventHash'', ''stateHead'', ''decisionHead'', ''cursorHash'']"

lemma cursor_rebuild:
  assumes "valid_json v" "conforms runCursorSchema v"
  shows "norm (cursor_json (cursor_of v)) = norm v"
  unfolding cursor_json_def
proof (rule norm_rebuild [OF assms(1) assms(2) [unfolded runCursorSchema_def], of "map js cursorNames"])
  show "map (apsnd norm) (field ''runId'' (JStr (cursorRunId (cursor_of v))) @
     field ''manifestHash'' (JStr (cursorManifestHash (cursor_of v))) @
     field ''behaviorHash'' (JStr (cursorBehaviorHash (cursor_of v))) @
     field ''processedPosition'' (JStr (processedPosition (cursor_of v))) @
     field ''logicalAtMs'' (jint (cursorLogicalAtMs (cursor_of v))) @
     field ''lastEventHash'' (JStr (lastEventHash (cursor_of v))) @
     field ''stateHead'' (JStr (stateHead (cursor_of v))) @ field ''decisionHead'' (JStr (decisionHead (cursor_of v))) @
     field ''cursorHash'' (JStr (cursorHash (cursor_of v)))) = map (apsnd norm) (project (map js cursorNames) v)"
    using assms(2) by (simp add: runCursorSchema_def check_simps z_defs cursor_of_def cursorNames_def del: conforms.simps)
qed (auto simp: js_names cursorNames_def)

definition canonA :: "AggregateCheckpoint \<Rightarrow> AggregateCheckpoint" where
  "canonA a = a\<lparr>state := norm (state a)\<rparr>"

lemma canonA_fields [simp]:
  "aggRunId (canonA a) = aggRunId a" "aggregateId (canonA a) = aggregateId a" "version (canonA a) = version a"
  "lastInputPosition (canonA a) = lastInputPosition a" "stateHash (canonA a) = stateHash a"
  "checkpointHash (canonA a) = checkpointHash a" "state (canonA a) = norm (state a)" "canonA (canonA a) = canonA a"
  by (simp_all add: canonA_def)

lemma aggregate_of_json [simp]: "aggregate_of (aggregate_json a) = a"
  by (simp add: aggregate_of_def aggregate_json_def reader_defs)

lemma aggregate_of_norm: "valid_json v \<Longrightarrow> aggregate_of (norm v) = canonA (aggregate_of v)"
  by (simp add: aggregate_of_def canonA_def)

lemma aggregate_json_canonA: "norm (aggregate_json (canonA a)) = norm (aggregate_json a)"
  unfolding aggregate_json_def by (rule norm_obj_cong) (simp add: canonA_def)

definition aggregateOk :: "(jsstring \<Rightarrow> bool) \<Rightarrow> AggregateCheckpoint \<Rightarrow> bool" where
  "aggregateOk dec_ok a \<longleftrightarrow> bounded_id (aggRunId a) \<and> aggregate_id (aggregateId a) \<and> dec_ok (version a) \<and>
     dec_ok (lastInputPosition a) \<and> conforms ZJsonObject (state a) \<and> hash64 (stateHash a) \<and> hash64 (checkpointHash a) \<and>
     (version a = js ''0'' \<longleftrightarrow> lastInputPosition a = js ''0'')"

lemma aggregate_strF [simp]:
  "strF (aggregate_json a) (js ''version'') = version a"
  "strF (aggregate_json a) (js ''lastInputPosition'') = lastInputPosition a"
  by (simp_all add: aggregate_json_def strF_def)

lemma conforms_aggregate: "conforms aggregateCheckpointSchema (aggregate_json a) = aggregateOk nonnegative_decimal a"
  unfolding aggregateCheckpointSchema_def conforms.simps(14) exactGenesis_def aggregate_strF
  by (simp add: aggregateIdSchema_def check_simps z_defs aggregate_json_def hasOnly_JObj js_names aggregateOk_def
      reader_defs del: conforms.simps)

lemma conforms_committed: "conforms committedAggregateCheckpointSchema (aggregate_json a) = aggregateOk positive_decimal a"
  unfolding committedAggregateCheckpointSchema_def conforms.simps(14) exactGenesis_def aggregate_strF
  by (simp add: aggregateIdSchema_def check_simps z_defs aggregate_json_def hasOnly_JObj js_names aggregateOk_def
      reader_defs del: conforms.simps)

lemma conforms_committed_aggregate: "conforms committedAggregateCheckpointSchema v \<Longrightarrow> conforms aggregateCheckpointSchema v"
  unfolding committedAggregateCheckpointSchema_def aggregateCheckpointSchema_def conforms.simps(14)
  by (simp add: aggregateIdSchema_def check_simps z_defs js_names positive_nonnegative del: conforms.simps)

definition aggregateNames :: "string list" where
  "aggregateNames = [''runId'', ''aggregateId'', ''version'', ''lastInputPosition'', ''state'', ''stateHash'', ''checkpointHash'']"

lemma aggregate_rebuild:
  assumes "valid_json v" "conforms aggregateCheckpointSchema v"
  shows "norm (aggregate_json (aggregate_of v)) = norm v"
  unfolding aggregate_json_def
proof (rule norm_rebuild [OF assms(1) assms(2) [unfolded aggregateCheckpointSchema_def conforms.simps(14), THEN conjunct1],
      of "map js aggregateNames"])
  show "map (apsnd norm) (field ''runId'' (JStr (aggRunId (aggregate_of v))) @
     field ''aggregateId'' (JStr (aggregateId (aggregate_of v))) @ field ''version'' (JStr (version (aggregate_of v))) @
     field ''lastInputPosition'' (JStr (lastInputPosition (aggregate_of v))) @ field ''state'' (state (aggregate_of v)) @
     field ''stateHash'' (JStr (stateHash (aggregate_of v))) @
     field ''checkpointHash'' (JStr (checkpointHash (aggregate_of v)))) = map (apsnd norm) (project (map js aggregateNames) v)"
    using assms(2) [unfolded aggregateCheckpointSchema_def conforms.simps(14), THEN conjunct1]
    by (simp add: aggregateIdSchema_def check_simps z_defs aggregate_of_def aggregateNames_def del: conforms.simps)
qed (auto simp: js_names aggregateNames_def)

context node_env
begin

lemma validateRunCursor_Inr:
  "validateRunCursor X v = Inr c \<longleftrightarrow> protoSafe X PROCESSOR_SCHEMA_FIELDS \<and>
     within_limits PERSISTED_PROCESSING_JSON_LIMITS v \<and> conforms runCursorSchema v \<and> c = cursor_of v"
  unfolding validateRunCursor_def
  by (subst boundary_parse [OF processing_limits_ok(1) commit_fields_covered(6)])
    (auto simp: bindR_eq_Inr cloneJson_Inr dest: within_limits_valid)

lemma validateAggregateCheckpoint_Inr:
  "validateAggregateCheckpoint X v = Inr a \<longleftrightarrow> protoSafe X PROCESSOR_SCHEMA_FIELDS \<and>
     within_limits PERSISTED_PROCESSING_JSON_LIMITS v \<and> conforms aggregateCheckpointSchema v \<and> a = aggregate_of (norm v)"
  unfolding validateAggregateCheckpoint_def
  by (subst boundary_parse [OF processing_limits_ok(1) commit_fields_covered(7)])
    (auto simp: bindR_eq_Inr cloneJson_Inr dest: within_limits_valid)

lemma validateCommittedAggregateCheckpoint_Inr:
  "validateCommittedAggregateCheckpoint X v = Inr a \<longleftrightarrow> protoSafe X PROCESSOR_SCHEMA_FIELDS \<and>
     within_limits PERSISTED_PROCESSING_JSON_LIMITS v \<and> conforms committedAggregateCheckpointSchema v \<and>
     a = aggregate_of (norm v)"
  unfolding validateCommittedAggregateCheckpoint_def
  by (subst boundary_parse [OF processing_limits_ok(1) commit_fields_covered(8)])
    (auto simp: bindR_eq_Inr cloneJson_Inr dest: within_limits_valid)

end

end
