(* ===== verification/OutputLaws.thy ===== *)
theory OutputLaws
  imports CommitLaws
begin

text \<open>
  The laws of immutable outputs. An output is a decision, a job or an outbox message; its delivery
  metadata has to agree with its body, and the identifiers in a job or message body have to be the
  ones derived from the run, the dedupe key and the payload. \<open>bodyValid\<close> says this without
  reference to the code; \<open>validateStoredOutputBody_Inr\<close> shows that the validator decides it.
\<close>

section \<open>Derived identifiers\<close>

definition derivedIdentity :: "jsstring \<Rightarrow> jsstring \<Rightarrow> jsstring \<Rightarrow> json" where
  "derivedIdentity run key h = JObj (field ''runId'' (JStr run) @ field ''dedupeKey'' (JStr key) @
     field ''payloadHash'' (JStr h))"

definition jobIdOf :: "externals \<Rightarrow> jsstring \<Rightarrow> jsstring \<Rightarrow> json \<Rightarrow> jsstring" where
  "jobIdOf X run key p = digest X (js ''peas/job-id/v2'') (derivedIdentity run key (digest X (js ''peas/job-payload/v2'') p))"

definition messageIdOf :: "externals \<Rightarrow> jsstring \<Rightarrow> jsstring \<Rightarrow> json \<Rightarrow> jsstring" where
  "messageIdOf X run key p =
     digest X (js ''peas/message-id/v2'') (derivedIdentity run key (digest X (js ''peas/outbox-payload/v2'') p))"

definition dedupeJson :: "jsstring \<Rightarrow> OutputCategory \<Rightarrow> jsstring \<Rightarrow> json" where
  "dedupeJson run cat key =
     JObj (field ''runId'' (JStr run) @ field ''category'' (JStr (js (categoryName cat))) @ field ''dedupeKey'' (JStr key))"

definition dedupeIdentityOf :: "externals \<Rightarrow> jsstring \<Rightarrow> OutputCategory \<Rightarrow> jsstring \<Rightarrow> jsstring" where
  "dedupeIdentityOf X run cat key = digest X (js ''peas/output-dedupe-identity/v2'') (dedupeJson run cat key)"

lemma valid_derivedIdentity: "hash64 h \<Longrightarrow> valid_json (derivedIdentity run key h) \<longleftrightarrow> scalar run \<and> scalar key"
  by (simp add: derivedIdentity_def hash64_scalar)

lemma valid_dedupeJson: "valid_json (dedupeJson run cat key) \<longleftrightarrow> scalar run \<and> scalar key"
  by (simp add: dedupeJson_def)

lemma computeOutputDedupeIdentity_Inr:
  "computeOutputDedupeIdentity X run cat key = Inr h \<longleftrightarrow> scalar run \<and> scalar key \<and> h = dedupeIdentityOf X run cat key"
  unfolding computeOutputDedupeIdentity_def dedupeJson_def [symmetric] canonicalHash_Inr valid_dedupeJson dedupeIdentityOf_def
  by blast

lemma id_norm [simp]:
  "jobIdOf X run key (norm p) = jobIdOf X run key p" "messageIdOf X run key (norm p) = messageIdOf X run key p"
  by (simp_all add: jobIdOf_def messageIdOf_def)

context node_env
begin

lemma deriveJobId_Inr: "deriveJobId X run key p = Inr h \<longleftrightarrow>
    valid_json p \<and> scalar run \<and> scalar key \<and> h = jobIdOf X run key p"
  unfolding deriveJobId_def derivedIdentity_def [symmetric]
  by (auto simp: bindR_eq_Inr valid_derivedIdentity jobIdOf_def)

lemma deriveMessageId_Inr: "deriveMessageId X run key p = Inr h \<longleftrightarrow>
    valid_json p \<and> scalar run \<and> scalar key \<and> h = messageIdOf X run key p"
  unfolding deriveMessageId_def derivedIdentity_def [symmetric]
  by (auto simp: bindR_eq_Inr valid_derivedIdentity messageIdOf_def)

end


section \<open>Bodies\<close>

fun bodyShape :: "OutputCategory \<Rightarrow> schema" where
  "bodyShape DecisionOutput = decisionBodySchema"
| "bodyShape JobOutput = jobBodySchema"
| "bodyShape OutboxOutput = outboxBodySchema"

fun deliveryOk ::
  "externals \<Rightarrow> OutputCategory \<Rightarrow> json \<Rightarrow> jsstring \<Rightarrow> jsstring option \<Rightarrow> int option \<Rightarrow> bool" where
  "deliveryOk X DecisionOutput b run dedupe notBefore \<longleftrightarrow> dedupe = None \<and> notBefore = None"
| "deliveryOk X JobOutput b run dedupe notBefore \<longleftrightarrow>
     dedupe = Some (getStr b ''dedupeKey'') \<and> notBefore = Some (getInt b ''notBeforeLogicalMs'') \<and> scalar run \<and>
     getStr b ''jobId'' = jobIdOf X run (getStr b ''dedupeKey'') (getJson b ''payload'')"
| "deliveryOk X OutboxOutput b run dedupe notBefore \<longleftrightarrow>
     dedupe = Some (getStr b ''dedupeKey'') \<and> notBefore = None \<and> scalar run \<and>
     getStr b ''messageId'' = messageIdOf X run (getStr b ''dedupeKey'') (getJson b ''payload'')"

definition bodyValid ::
  "externals \<Rightarrow> OutputCategory \<Rightarrow> json \<Rightarrow> jsstring \<Rightarrow> jsstring option \<Rightarrow> int option \<Rightarrow> bool" where
  "bodyValid X cat b run dedupe notBefore \<longleftrightarrow>
     within_limits PERSISTED_PROCESSING_JSON_LIMITS b \<and> bounded_id run \<and> conforms (bodyShape cat) b \<and>
     deliveryOk X cat b run dedupe notBefore"

lemma deliveryOk_norm: "valid_json b \<Longrightarrow> deliveryOk X cat (norm b) run dk nb = deliveryOk X cat b run dk nb"
  by (cases cat) simp_all

lemma bodyValid_norm [simp]: "bodyValid X cat (norm b) run dk nb = bodyValid X cat b run dk nb"
  using deliveryOk_norm [of b] conforms_norm [of b] by (auto simp: bodyValid_def dest: within_limits_valid)

lemma body_keys:
  assumes "valid_json b" "conforms (bodyShape cat) b" "cat \<noteq> DecisionOutput"
  shows "scalar (getStr b ''dedupeKey'')" "valid_json (getJson b ''payload'')" "bounded_id (getStr b ''dedupeKey'')"
    "jget b (js ''dedupeKey'') = Some (JStr (getStr b ''dedupeKey''))"
proof -
  have "jget b (js ''dedupeKey'') = Some (JStr (getStr b ''dedupeKey'')) \<and> bounded_id (getStr b ''dedupeKey'') \<and>
      jget b (js ''payload'') = Some (getJson b ''payload'')"
    using assms(2,3) by (cases cat)
      (simp_all add: jobBodySchema_def outboxBodySchema_def check_simps z_defs del: conforms.simps)
  with jget_valid [OF _ assms(1)] show "scalar (getStr b ''dedupeKey'')" "valid_json (getJson b ''payload'')"
    "bounded_id (getStr b ''dedupeKey'')" "jget b (js ''dedupeKey'') = Some (JStr (getStr b ''dedupeKey''))"
    by fastforce+
qed

context node_env
begin

lemma snapshot_parse_iff:
  assumes "set (schema_fields z) \<subseteq> js ` set PROCESSOR_SCHEMA_FIELDS"
    and "\<And>w. valid_json w \<Longrightarrow> f (norm w) = Inr r \<longleftrightarrow> f w = Inr r"
  shows "bindR (processorSchemaSnapshot X v) (\<lambda>snapshot. bindR (zodParse X z snapshot) f) = Inr r \<longleftrightarrow>
    protoSafe X PROCESSOR_SCHEMA_FIELDS \<and> valid_json v \<and> conforms z v \<and> f v = Inr r"
proof -
  define g where "g w = assertR (f w = Inr r) ZodError" for w
  have "bindR (processorSchemaSnapshot X v) (\<lambda>snapshot. bindR (zodParse X z snapshot) g) = Inr () \<longleftrightarrow>
    protoSafe X PROCESSOR_SCHEMA_FIELDS \<and> valid_json v \<and> conforms z v \<and> g v = Inr ()"
    by (rule snapshot_parse [OF assms(1)]) (simp add: g_def assms(2))
  then show ?thesis by (simp add: bindR_eq_Inr g_def)
qed

lemma boundary_parse_iff:
  assumes "assertJsonLimits L" "set (schema_fields z) \<subseteq> js ` set PROCESSOR_SCHEMA_FIELDS"
    and "\<And>w. valid_json w \<Longrightarrow> f (norm w) = Inr r \<longleftrightarrow> f w = Inr r"
  shows "bindR (checkJson L v) (\<lambda>_. bindR (processorSchemaSnapshot X v) (\<lambda>snapshot.
      bindR (zodParse X z snapshot) f)) = Inr r \<longleftrightarrow>
    protoSafe X PROCESSOR_SCHEMA_FIELDS \<and> within_limits L v \<and> conforms z v \<and> f v = Inr r"
  using snapshot_parse_iff [of z f r, OF assms(2,3)] within_limits_valid [of L v]
  by (auto simp: bindR_eq_Inr [of "checkJson L v"] checkJson_ok [OF assms(1)])

lemma validateStoredOutputBody_Inr:
  "validateStoredOutputBody X cat b run dk nb = Inr b' \<longleftrightarrow>
     protoSafe X PROCESSOR_SCHEMA_FIELDS \<and> bodyValid X cat b run dk nb \<and> b' = norm b"
proof -
  have z: "zodParse X zId (JStr run) = Inr u \<longleftrightarrow> bounded_id run \<and> u = JStr run" for u
    by (auto simp: zId_def zod_string)
  show ?thesis
  proof (cases cat)
    case DecisionOutput
    have "bindR (processorSchemaSnapshot X b) (\<lambda>snapshot. bindR (zodParse X decisionBodySchema snapshot) cloneJson) = Inr b' \<longleftrightarrow>
        protoSafe X PROCESSOR_SCHEMA_FIELDS \<and> valid_json b \<and> conforms decisionBodySchema b \<and> cloneJson b = Inr b'"
      by (rule snapshot_parse_iff [OF commit_fields_covered(1)]) simp
    with DecisionOutput show ?thesis
      by (auto simp: validateStoredOutputBody_def bindR_eq_Inr [of "checkJson L v" for L v] bindR_eq_Inr [of "zodParse X zId v" for v]
          checkJson_ok z bodyValid_def cloneJson_Inr dest: within_limits_valid)
  next
    case JobOutput
    let ?f = "\<lambda>b. if Some (getStr b ''dedupeKey'') \<noteq> dk then Inl (PlainError ''Output dedupe metadata mismatch'')
              else if Some (getInt b ''notBeforeLogicalMs'') \<noteq> nb
              then Inl (PlainError ''Job not-before metadata mismatch'')
              else bindR (deriveJobId X run (getStr b ''dedupeKey'') (getJson b ''payload'')) (\<lambda>expected.
              if getStr b ''jobId'' \<noteq> expected then Inl (PlainError ''Job ID integrity mismatch'')
              else cloneJson b)"
    have f: "?f w = Inr b' \<longleftrightarrow> dk = Some (getStr w ''dedupeKey'') \<and> nb = Some (getInt w ''notBeforeLogicalMs'') \<and>
        valid_json (getJson w ''payload'') \<and> scalar run \<and> scalar (getStr w ''dedupeKey'') \<and>
        getStr w ''jobId'' = jobIdOf X run (getStr w ''dedupeKey'') (getJson w ''payload'') \<and> valid_json w \<and> b' = norm w" for w
      by (auto simp: bindR_eq_Inr deriveJobId_Inr cloneJson_Inr split: if_splits)
    have "bindR (processorSchemaSnapshot X b) (\<lambda>snapshot. bindR (zodParse X jobBodySchema snapshot) ?f) = Inr b' \<longleftrightarrow>
        protoSafe X PROCESSOR_SCHEMA_FIELDS \<and> valid_json b \<and> conforms jobBodySchema b \<and> ?f b = Inr b'"
      by (rule snapshot_parse_iff [OF commit_fields_covered(2)]) (unfold f, simp)
    note this [unfolded f]
    with JobOutput body_keys [of b JobOutput] show ?thesis
      by (auto simp: validateStoredOutputBody_def bindR_eq_Inr [of "checkJson L v" for L v] bindR_eq_Inr [of "zodParse X zId v" for v]
          checkJson_ok z bodyValid_def dest: within_limits_valid)
  next
    case OutboxOutput
    let ?f = "\<lambda>b. if Some (getStr b ''dedupeKey'') \<noteq> dk then Inl (PlainError ''Output dedupe metadata mismatch'')
              else bindR (deriveMessageId X run (getStr b ''dedupeKey'') (getJson b ''payload'')) (\<lambda>expected.
              if getStr b ''messageId'' \<noteq> expected then Inl (PlainError ''Message ID integrity mismatch'')
              else cloneJson b)"
    have f: "?f w = Inr b' \<longleftrightarrow> dk = Some (getStr w ''dedupeKey'') \<and>
        valid_json (getJson w ''payload'') \<and> scalar run \<and> scalar (getStr w ''dedupeKey'') \<and>
        getStr w ''messageId'' = messageIdOf X run (getStr w ''dedupeKey'') (getJson w ''payload'') \<and> valid_json w \<and> b' = norm w" for w
      by (auto simp: bindR_eq_Inr deriveMessageId_Inr cloneJson_Inr split: if_splits)
    have "bindR (processorSchemaSnapshot X b) (\<lambda>snapshot. bindR (zodParse X outboxBodySchema snapshot) ?f) = Inr b' \<longleftrightarrow>
        protoSafe X PROCESSOR_SCHEMA_FIELDS \<and> valid_json b \<and> conforms outboxBodySchema b \<and> ?f b = Inr b'"
      by (rule snapshot_parse_iff [OF commit_fields_covered(3)]) (unfold f, simp)
    note this [unfolded f]
    with OutboxOutput body_keys [of b OutboxOutput] show ?thesis
      by (auto simp: validateStoredOutputBody_def bindR_eq_Inr [of "checkJson L v" for L v] bindR_eq_Inr [of "zodParse X zId v" for v]
          checkJson_ok z bodyValid_def dest: within_limits_valid)
  qed
qed

end


section \<open>Outputs\<close>

lemma category_of_name [simp]: "category_of (js (categoryName c)) = c"
  by (cases c) (simp_all add: category_of_def)

definition outputNames :: "string list" where
  "outputNames = [''outputId'', ''runId'', ''inputEventId'', ''inputPosition'', ''aggregateId'', ''category'', ''ordinal'',
     ''dedupeKey'', ''notBeforeLogicalMs'', ''body'', ''bodyHash'']"

lemma output_of_json [simp]: "output_of (output_json q) = q"
  by (simp add: output_of_def output_json_def output_fields_def reader_defs jint_def jnull_def split: option.splits)

lemma stored_output_of_json [simp]: "stored_output_of (stored_output_json q) = q"
  by (simp add: stored_output_of_def stored_output_json_def output_of_def output_fields_def reader_defs jint_def jnull_def
      ImmutableOutput.defs StoredOutput.defs split: option.splits)

text \<open>The three shapes differ in their category literal, their delivery metadata and their body.\<close>

fun outputShape :: "OutputCategory \<Rightarrow> (jsstring \<times> bool \<times> schema) list" where
  "outputShape DecisionOutput = decisionOutputShape"
| "outputShape JobOutput = jobOutputShape"
| "outputShape OutboxOutput = outboxOutputShape"

lemmas shape_defs = decisionOutputShape_def jobOutputShape_def outboxOutputShape_def outputCommonShape_def
  aggregateIdSchema_def decisionBodySchema_def jobBodySchema_def outboxBodySchema_def

lemma ex_category: "(\<exists>c. P (outputShape c)) \<longleftrightarrow> P decisionOutputShape \<or> P jobOutputShape \<or> P outboxOutputShape"
proof
  assume "\<exists>c. P (outputShape c)"
  then obtain c where "P (outputShape c)" ..
  then show "P decisionOutputShape \<or> P jobOutputShape \<or> P outboxOutputShape" by (cases c) simp_all
next
  assume "P decisionOutputShape \<or> P jobOutputShape \<or> P outboxOutputShape"
  then have "P (outputShape DecisionOutput) \<or> P (outputShape JobOutput) \<or> P (outputShape OutboxOutput)" by simp
  then show "\<exists>c. P (outputShape c)" by blast
qed

lemma conforms_outputSchema:
  "conforms immutableOutputSchema v \<longleftrightarrow> (\<exists>c. conforms (ZObject (outputShape c)) v)"
  "conforms storedOutputSchema v \<longleftrightarrow> (\<exists>c. conforms (ZObject (outputShape c @ [req ''sequence'' zPositiveDecimal])) v)"
  unfolding immutableOutputSchema_def storedOutputSchema_def conforms.simps(13)
  using ex_category [of "\<lambda>fs. conforms (ZObject fs) v"]
    ex_category [of "\<lambda>fs. conforms (ZObject (fs @ [req ''sequence'' zPositiveDecimal])) v"]
  by (simp_all del: conforms.simps)

definition deliveryMeta :: "OutputCategory \<Rightarrow> jsstring option \<Rightarrow> int option \<Rightarrow> bool" where
  "deliveryMeta cat dk nb \<longleftrightarrow>
     (case cat of
        DecisionOutput \<Rightarrow> dk = None \<and> nb = None
      | JobOutput \<Rightarrow> (\<exists>k. dk = Some k \<and> bounded_id k) \<and> (\<exists>n. nb = Some n \<and> isSafeInteger n \<and> 0 \<le> n)
      | OutboxOutput \<Rightarrow> (\<exists>k. dk = Some k \<and> bounded_id k) \<and> nb = None)"

definition outputOk :: "'a ImmutableOutput_scheme \<Rightarrow> bool" where
  "outputOk q \<longleftrightarrow> hash64 (outputId q) \<and> bounded_id (outRunId q) \<and> hash64 (inputEventId q) \<and>
     positive_decimal (inputPosition q) \<and> aggregate_id (outAggregateId q) \<and> isSafeInteger (ordinal q) \<and> 0 \<le> ordinal q \<and>
     hash64 (bodyHash q) \<and> deliveryMeta (category q) (dedupeKey q) (notBeforeLogicalMs q) \<and>
     conforms (bodyShape (category q)) (body q)"

lemma shape_fields:
  assumes "list_all (fieldOk v) (outputShape c)"
  shows "map (apsnd norm) (output_fields (output_of v)) = map (apsnd norm) (project (map js outputNames) v)"
    "outputOk (output_of v)" "category (output_of v) = c"
proof -
  have k: "category (output_of v) = c" using assms
    by (cases c) (simp_all add: shape_defs fieldOk_simps output_of_def category_of_def)
  then show "category (output_of v) = c" .
  have f: "jget v (js ''category'') = Some (JStr (js (categoryName c)))"
    "jget v (js ''body'') = Some (getJson v ''body'')" "conforms (bodyShape c) (getJson v ''body'')"
    "jget v (js ''dedupeKey'') = Some (jnull JStr (getStrOpt v ''dedupeKey''))"
    "jget v (js ''notBeforeLogicalMs'') = Some (jnull jint (getIntOpt v ''notBeforeLogicalMs''))"
    "deliveryMeta c (getStrOpt v ''dedupeKey'') (getIntOpt v ''notBeforeLogicalMs'')"
    using assms by (cases c; simp add: shape_defs fieldOk_simps z_defs present_reads deliveryMeta_def del: conforms.simps)+
  have g: "list_all (fieldOk v) outputCommonShape" using assms
    by (cases c) (simp_all add: decisionOutputShape_def jobOutputShape_def outboxOutputShape_def)
  show "map (apsnd norm) (output_fields (output_of v)) = map (apsnd norm) (project (map js outputNames) v)"
    using f g k unfolding output_fields_def
    by (simp add: outputCommonShape_def aggregateIdSchema_def fieldOk_simps z_defs outputNames_def)
      (simp add: output_of_def)
  show "outputOk (output_of v)"
    using f g k by (simp add: outputCommonShape_def aggregateIdSchema_def fieldOk_simps z_defs outputOk_def)
      (simp add: output_of_def)
qed

lemma outputShape_names: "set (map fst (outputShape c)) = set (map js outputNames)"
  by (cases c) (auto simp: shape_defs outputNames_def js_names)

lemma output_rebuild:
  assumes "valid_json v" "conforms immutableOutputSchema v"
  shows "norm (output_json (output_of v)) = norm v" "outputOk (output_of v)"
proof -
  from assms(2) obtain c where c: "conforms (ZObject (outputShape c)) v" unfolding conforms_outputSchema ..
  then have f: "list_all (fieldOk v) (outputShape c)" by (simp add: conforms_shape del: conforms.simps)
  show "norm (output_json (output_of v)) = norm v" unfolding output_json_def
    by (rule norm_rebuild [OF assms(1) c _ _ shape_fields(1) [OF f]])
      (simp add: outputNames_def, rule outputShape_names [symmetric])
  show "outputOk (output_of v)" by (rule shape_fields(2) [OF f])
qed

lemma outputOk_extend [simp]: "outputOk (ImmutableOutput.extend q m) = outputOk q"
  by (simp add: outputOk_def ImmutableOutput.defs)

lemma output_fields_extend [simp]: "output_fields (ImmutableOutput.extend q m) = output_fields q"
  by (simp add: output_fields_def ImmutableOutput.defs)

lemma sequence_extend [simp]: "sequence (ImmutableOutput.extend q (StoredOutput.fields s)) = s"
  by (simp add: ImmutableOutput.defs StoredOutput.defs)

lemma stored_output_rebuild:
  assumes "valid_json v" "conforms storedOutputSchema v"
  shows "norm (stored_output_json (stored_output_of v)) = norm v" "outputOk (stored_output_of v)"
    "positive_decimal (sequence (stored_output_of v))"
proof -
  from assms(2) obtain c where c: "conforms (ZObject (outputShape c @ [req ''sequence'' zPositiveDecimal])) v"
    unfolding conforms_outputSchema ..
  then have f: "list_all (fieldOk v) (outputShape c)" "jget v (js ''sequence'') = Some (JStr (getStr v ''sequence''))"
    "positive_decimal (getStr v ''sequence'')"
    by (simp_all add: conforms_shape zPositiveDecimal_def fieldOk_simps del: conforms.simps)
  have n: "set (map js (outputNames @ [''sequence''])) = set (map fst (outputShape c @ [req ''sequence'' zPositiveDecimal]))"
    using outputShape_names [of c] by (simp add: js_names)
  have p: "project (ks @ ks') v = project ks v @ project ks' v" for ks ks' by (simp add: project_def)
  show "norm (stored_output_json (stored_output_of v)) = norm v" unfolding stored_output_json_def
    by (rule norm_rebuild [OF assms(1) c _ n])
      (simp add: outputNames_def, simp add: stored_output_of_def p shape_fields(1) [OF f(1)] f(2) del: project_simps(2) add: project_def [of "[_]"])
  show "outputOk (stored_output_of v)" "positive_decimal (sequence (stored_output_of v))"
    using shape_fields(2) [OF f(1)] f(3) by (simp_all add: stored_output_of_def)
qed

lemma output_conforms: "outputOk q \<Longrightarrow> conforms (ZObject (outputShape (category q))) (output_json q)"
  by (cases "category q") (auto simp: outputOk_def deliveryMeta_def output_json_def output_fields_def shape_defs
      check_simps hasOnly_JObj js_names z_defs reader_defs jint_def simp del: conforms.simps)

lemma conforms_output: "conforms immutableOutputSchema (output_json q) = outputOk q"
proof
  assume "conforms immutableOutputSchema (output_json q)"
  then obtain c where "conforms (ZObject (outputShape c)) (output_json q)" unfolding conforms_outputSchema ..
  then have "list_all (fieldOk (output_json q)) (outputShape c)" by (simp add: conforms_shape del: conforms.simps)
  from shape_fields(2) [OF this] show "outputOk q" by simp
next
  assume "outputOk q"
  then show "conforms immutableOutputSchema (output_json q)" unfolding conforms_outputSchema using output_conforms by blast
qed

lemma conforms_stored_output: "outputOk q \<Longrightarrow> positive_decimal (sequence q) \<Longrightarrow>
    conforms storedOutputSchema (stored_output_json q)"
proof -
  assume q: "outputOk q" "positive_decimal (sequence q)"
  then have "conforms (ZObject (outputShape (category q) @ [req ''sequence'' zPositiveDecimal])) (stored_output_json q)"
    by (cases "category q") (auto simp: outputOk_def deliveryMeta_def stored_output_json_def output_fields_def shape_defs
        check_simps hasOnly_JObj js_names z_defs reader_defs jint_def simp del: conforms.simps)
  then show ?thesis unfolding conforms_outputSchema by blast
qed

definition canonO :: "'a ImmutableOutput_scheme \<Rightarrow> 'a ImmutableOutput_scheme" where
  "canonO q = q\<lparr>body := norm (body q)\<rparr>"

lemma canonO_fields [simp]:
  "outputId (canonO q) = outputId q" "outRunId (canonO q) = outRunId q" "inputEventId (canonO q) = inputEventId q"
  "inputPosition (canonO q) = inputPosition q" "outAggregateId (canonO q) = outAggregateId q"
  "category (canonO q) = category q" "ordinal (canonO q) = ordinal q" "dedupeKey (canonO q) = dedupeKey q"
  "notBeforeLogicalMs (canonO q) = notBeforeLogicalMs q" "body (canonO q) = norm (body q)"
  "bodyHash (canonO q) = bodyHash q" "canonO (canonO q) = canonO q"
  by (simp_all add: canonO_def)

lemma sequence_canonO [simp]: "sequence (canonO q) = sequence q"
  by (simp add: canonO_def)

lemma output_of_norm: "valid_json v \<Longrightarrow> output_of (norm v) = canonO (output_of v)"
  by (simp add: output_of_def canonO_def)

lemma stored_output_of_norm: "valid_json v \<Longrightarrow> stored_output_of (norm v) = canonO (stored_output_of v)"
  by (simp add: stored_output_of_def output_of_norm) (simp add: canonO_def ImmutableOutput.defs StoredOutput.defs)

lemma output_json_body: "norm (output_json (q\<lparr>body := norm b\<rparr>)) = norm (output_json (q\<lparr>body := b\<rparr>))"
  unfolding output_json_def by (rule norm_obj_cong) (simp add: output_fields_def)

lemma output_json_canonO: "norm (output_json (canonO q)) = norm (output_json q)"
  using output_json_body [of "body q" q] by (simp add: canonO_def)

lemma stored_output_json_canonO: "norm (stored_output_json (canonO q)) = norm (stored_output_json q)"
  unfolding stored_output_json_def by (rule norm_obj_cong) (simp add: output_fields_def)

text \<open>What an output says about itself, the derived identifiers included.\<close>

definition outputBodyOk :: "externals \<Rightarrow> 'a ImmutableOutput_scheme \<Rightarrow> bool" where
  "outputBodyOk X q \<longleftrightarrow> bodyValid X (category q) (body q) (outRunId q) (dedupeKey q) (notBeforeLogicalMs q)"

lemma outputBodyOk_canonO [simp]: "outputBodyOk X (canonO q) = outputBodyOk X q"
  by (simp add: outputBodyOk_def)

text \<open>The typed outputs the validator accepts.\<close>

definition wf_output :: "externals \<Rightarrow> ImmutableOutput \<Rightarrow> bool" where
  "wf_output X q \<longleftrightarrow> within_limits PERSISTED_PROCESSING_JSON_LIMITS (output_json q) \<and> outputOk q \<and> outputBodyOk X q"

context node_env
begin

lemma validateImmutableOutput_Inr:
  "validateImmutableOutput X v = Inr q \<longleftrightarrow> protoSafe X PROCESSOR_SCHEMA_FIELDS \<and>
     within_limits PERSISTED_PROCESSING_JSON_LIMITS v \<and> conforms immutableOutputSchema v \<and>
     outputBodyOk X (output_of v) \<and> q = output_of (norm v)"
proof -
  let ?f = "\<lambda>parsed. let q = output_of parsed in
     bindR (validateStoredOutputBody X (category q) (body q) (outRunId q) (dedupeKey q) (notBeforeLogicalMs q)) (\<lambda>b.
     bindR (cloneJson (output_json (q\<lparr>body := b\<rparr>))) (\<lambda>copy. Inr (output_of copy)))"
  have f: "?f w = Inr q \<longleftrightarrow> protoSafe X PROCESSOR_SCHEMA_FIELDS \<and> outputBodyOk X (output_of w) \<and>
      valid_json (output_json (output_of w)) \<and> q = canonO (output_of w)" for w
  proof -
    let ?q = "output_of w"
    have n: "norm (output_json (?q\<lparr>body := norm (body ?q)\<rparr>)) = norm (output_json ?q)"
      using output_json_body [of "body ?q" ?q] by simp
    then have "valid_json (output_json (?q\<lparr>body := norm (body ?q)\<rparr>)) = valid_json (output_json ?q)" by (metis valid_norm)
    moreover have "valid_json (output_json ?q) \<Longrightarrow> output_of (norm (output_json ?q)) = canonO ?q" by (simp add: output_of_norm)
    ultimately show ?thesis
      using n by (auto simp: Let_def bindR_eq_Inr validateStoredOutputBody_Inr outputBodyOk_def cloneJson_Inr)
  qed
  have "validateImmutableOutput X v = Inr q \<longleftrightarrow> protoSafe X PROCESSOR_SCHEMA_FIELDS \<and>
     within_limits PERSISTED_PROCESSING_JSON_LIMITS v \<and> conforms immutableOutputSchema v \<and> ?f v = Inr q"
    unfolding validateImmutableOutput_def
  proof (rule boundary_parse_iff [OF processing_limits_ok(1) commit_fields_covered(4)])
    fix w
    assume "valid_json w"
    then have "output_of (norm w) = canonO (output_of w)" by (rule output_of_norm)
    moreover have "valid_json (output_json (canonO (output_of w))) = valid_json (output_json (output_of w))"
      using output_json_canonO by (metis valid_norm)
    ultimately show "?f (norm w) = Inr q \<longleftrightarrow> ?f w = Inr q" unfolding f by simp
  qed
  moreover have "valid_json (output_json (output_of v))" if "valid_json v" "conforms immutableOutputSchema v"
    using output_rebuild(1) [OF that] that(1) by (metis valid_norm)
  ultimately show ?thesis unfolding f by (auto simp: output_of_norm dest: within_limits_valid)
qed

lemma validateStoredOutput_Inr:
  "validateStoredOutput X v = Inr q \<longleftrightarrow> protoSafe X PROCESSOR_SCHEMA_FIELDS \<and>
     within_limits PERSISTED_PROCESSING_JSON_LIMITS v \<and> conforms storedOutputSchema v \<and>
     outputBodyOk X (stored_output_of v) \<and> q = stored_output_of (norm v)"
proof -
  let ?f = "\<lambda>parsed. let q = stored_output_of parsed in
     bindR (validateStoredOutputBody X (category q) (body q) (outRunId q) (dedupeKey q) (notBeforeLogicalMs q)) (\<lambda>b.
     bindR (cloneJson (stored_output_json (q\<lparr>body := b\<rparr>))) (\<lambda>copy. Inr (stored_output_of copy)))"
  have f: "?f w = Inr q \<longleftrightarrow> protoSafe X PROCESSOR_SCHEMA_FIELDS \<and> outputBodyOk X (stored_output_of w) \<and>
      valid_json (stored_output_json (stored_output_of w)) \<and> q = canonO (stored_output_of w)" for w
  proof -
    let ?q = "stored_output_of w"
    have n: "norm (stored_output_json (?q\<lparr>body := norm (body ?q)\<rparr>)) = norm (stored_output_json ?q)"
      using stored_output_json_canonO [of ?q] by (simp add: canonO_def)
    then have "valid_json (stored_output_json (?q\<lparr>body := norm (body ?q)\<rparr>)) = valid_json (stored_output_json ?q)"
      by (metis valid_norm)
    moreover have "valid_json (stored_output_json ?q) \<Longrightarrow> stored_output_of (norm (stored_output_json ?q)) = canonO ?q"
      by (simp add: stored_output_of_norm)
    ultimately show ?thesis
      using n by (auto simp: Let_def bindR_eq_Inr validateStoredOutputBody_Inr outputBodyOk_def cloneJson_Inr)
  qed
  have "validateStoredOutput X v = Inr q \<longleftrightarrow> protoSafe X PROCESSOR_SCHEMA_FIELDS \<and>
     within_limits PERSISTED_PROCESSING_JSON_LIMITS v \<and> conforms storedOutputSchema v \<and> ?f v = Inr q"
    unfolding validateStoredOutput_def
  proof (rule boundary_parse_iff [OF processing_limits_ok(1) commit_fields_covered(5)])
    fix w
    assume "valid_json w"
    then have "stored_output_of (norm w) = canonO (stored_output_of w)" by (rule stored_output_of_norm)
    moreover have "valid_json (stored_output_json (canonO (stored_output_of w))) = valid_json (stored_output_json (stored_output_of w))"
      using stored_output_json_canonO by (metis valid_norm)
    ultimately show "?f (norm w) = Inr q \<longleftrightarrow> ?f w = Inr q" unfolding f by simp
  qed
  moreover have "valid_json (stored_output_json (stored_output_of v))" if "valid_json v" "conforms storedOutputSchema v"
    using stored_output_rebuild(1) [OF that] that(1) by (metis valid_norm)
  ultimately show ?thesis unfolding f by (auto simp: stored_output_of_norm dest: within_limits_valid)
qed

end

end
