(* ===== verification/TransitionLaws.thy ===== *)
theory TransitionLaws
  imports OutputLaws
begin

text \<open>
  The laws of processing commits: \<open>validateProcessingCommit\<close> accepts exactly the renderings of
  well-formed commits and returns them in canonical form, \<open>verifyProcessingCommit\<close> decides
  \<open>commitSound\<close>, and \<open>verifyProcessingTransition\<close> decides in addition that the commit
  follows the previous cursor (\<open>follows\<close>).
\<close>

section \<open>Well-formed commits\<close>

definition canonC :: "ProcessingCommit \<Rightarrow> ProcessingCommit" where
  "canonC c = c\<lparr>commitEvent := canonE (commitEvent c), commitAggregate := canonA (commitAggregate c),
     commitOutputs := map canonO (commitOutputs c)\<rparr>"

lemma canonC_fields [simp]:
  "expectedPosition (canonC c) = expectedPosition c" "commitEvent (canonC c) = canonE (commitEvent c)"
  "commitCursor (canonC c) = commitCursor c" "commitAggregate (canonC c) = canonA (commitAggregate c)"
  "commitOutputs (canonC c) = map canonO (commitOutputs c)"
  by (simp_all add: canonC_def)

lemma canonC_idem [simp]: "canonC (canonC c) = canonC c"
  by (simp add: canonC_def comp_def)

lemma commit_of_json [simp]: "commit_of (commit_json c) = c"
  by (simp add: commit_of_def commit_json_def reader_defs comp_def)

lemma commit_reads:
  "getStr (commit_json c) ''expectedPosition'' = expectedPosition c"
  "getJson (commit_json c) ''event'' = stored_json (commitEvent c)"
  "getJson (commit_json c) ''cursor'' = cursor_json (commitCursor c)"
  "getJson (commit_json c) ''aggregate'' = aggregate_json (commitAggregate c)"
  "getArr (commit_json c) ''outputs'' = map output_json (commitOutputs c)"
  by (simp_all add: commit_json_def reader_defs)

lemma valid_commit_json: "valid_json (commit_json c) \<longleftrightarrow> scalar (expectedPosition c) \<and>
    valid_json (stored_json (commitEvent c)) \<and> valid_json (cursor_json (commitCursor c)) \<and>
    valid_json (aggregate_json (commitAggregate c)) \<and> list_all (\<lambda>q. valid_json (output_json q)) (commitOutputs c)"
  by (auto simp: commit_json_def list_all_iff)

lemma commit_of_norm:
  assumes "valid_json (commit_json c)"
  shows "commit_of (norm (commit_json c)) = canonC c"
proof -
  have "list_all (\<lambda>q. valid_json (output_json q)) (commitOutputs c)" using assms by (simp add: valid_commit_json)
  then have "map (\<lambda>q. output_of (norm (output_json q))) (commitOutputs c) = map canonO (commitOutputs c)"
    by (auto simp: list_all_iff output_of_norm)
  with assms show ?thesis
    by (simp add: commit_of_def commit_reads valid_commit_json [THEN iffD1] stored_of_norm aggregate_of_norm comp_def canonC_def)
qed

lemma commit_json_canonC: "norm (commit_json (canonC c)) = norm (commit_json c)"
  unfolding commit_json_def
  by (rule norm_obj_cong) (simp add: stored_json_canonE aggregate_json_canonA output_json_canonO del: norm.simps(2))

definition commitOk :: "ProcessingCommit \<Rightarrow> bool" where
  "commitOk c \<longleftrightarrow> nonnegative_decimal (expectedPosition c) \<and> cursorOk (commitCursor c) \<and>
     aggregateOk positive_decimal (commitAggregate c) \<and> length (commitOutputs c) \<le> 100000 \<and>
     list_all outputOk (commitOutputs c)"

lemma commit_conforms:
  "conforms processingCommitSchema v \<longleftrightarrow> hasOnly v (map js [''expectedPosition'', ''event'', ''cursor'', ''aggregate'', ''outputs'']) \<and>
     jget v (js ''expectedPosition'') = Some (JStr (getStr v ''expectedPosition'')) \<and>
     nonnegative_decimal (getStr v ''expectedPosition'') \<and>
     jget v (js ''cursor'') = Some (getJson v ''cursor'') \<and> conforms runCursorSchema (getJson v ''cursor'') \<and>
     jget v (js ''aggregate'') = Some (getJson v ''aggregate'') \<and>
     conforms committedAggregateCheckpointSchema (getJson v ''aggregate'') \<and>
     jget v (js ''outputs'') = Some (JArr (getArr v ''outputs'')) \<and> length (getArr v ''outputs'') \<le> 100000 \<and>
     list_all (conforms immutableOutputSchema) (getArr v ''outputs'')"
proof -
  have z: "fieldOk v (req k runCursorSchema) \<longleftrightarrow> jget v (js k) = Some (getJson v k) \<and> conforms runCursorSchema (getJson v k)"
    "fieldOk v (req k committedAggregateCheckpointSchema) \<longleftrightarrow>
      jget v (js k) = Some (getJson v k) \<and> conforms committedAggregateCheckpointSchema (getJson v k)" for k
    unfolding runCursorSchema_def committedAggregateCheckpointSchema_def by (rule fieldOk_simps)+
  show ?thesis
    unfolding processingCommitSchema_def
    by (simp add: conforms_shape z fieldOk_simps z_defs js_names del: conforms.simps)
qed

lemma conforms_commit: "conforms processingCommitSchema (commit_json c) = commitOk c"
  unfolding commit_conforms commit_reads conforms_cursor conforms_committed commitOk_def
  by (simp add: commit_json_def hasOnly_JObj list_all_iff conforms_output)

definition wf_commit :: "externals \<Rightarrow> ProcessingCommit \<Rightarrow> bool" where
  "wf_commit X c \<longleftrightarrow> commitOk c \<and> within_limits PERSISTED_PROCESSING_COMMIT_LIMITS (commit_json c) \<and>
     wf_stored (commitEvent c) \<and> within_limits PERSISTED_PROCESSING_JSON_LIMITS (cursor_json (commitCursor c)) \<and>
     within_limits PERSISTED_PROCESSING_JSON_LIMITS (aggregate_json (commitAggregate c)) \<and>
     list_all (wf_output X) (commitOutputs c)"


section \<open>Validation\<close>

lemma conforming_categories: "conforms processingCommitSchema v \<Longrightarrow> assertOutputCategories v = Inr ()"
proof -
  assume "conforms processingCommitSchema v"
  then have j: "jget v (js ''outputs'') = Some (JArr (getArr v ''outputs''))"
    "list_all (conforms immutableOutputSchema) (getArr v ''outputs'')" by (simp_all add: commit_conforms)
  have "supportedCategory w" if "conforms immutableOutputSchema w" for w
  proof -
    from that obtain c where "conforms (ZObject (outputShape c)) w" unfolding conforms_outputSchema ..
    then have "list_all (fieldOk w) (outputShape c)" by (simp add: conforms_shape del: conforms.simps)
    then have "jget w (js ''category'') = Some (JStr (js (categoryName c)))"
      by (cases c) (simp_all add: shape_defs fieldOk_simps)
    then show ?thesis by (cases c; cases w) (simp_all add: supportedCategory_def jget_def)
  qed
  with j show ?thesis by (simp add: assertOutputCategories_def list_all_iff)
qed

context node_env
begin

lemma validator_norm:
  "validateStoredEvent X (norm v) = Inr e \<longleftrightarrow> validateStoredEvent X v = Inr e"
  "validateRunCursor X (norm v) = Inr c \<longleftrightarrow> validateRunCursor X v = Inr c"
  "validateAggregateCheckpoint X (norm v) = Inr a \<longleftrightarrow> validateAggregateCheckpoint X v = Inr a"
  "validateImmutableOutput X (norm v) = Inr q \<longleftrightarrow> validateImmutableOutput X v = Inr q"
  by (auto simp: validateStoredEvent_Inr validateRunCursor_Inr validateAggregateCheckpoint_Inr validateImmutableOutput_Inr
      conforms_norm output_of_norm dest: within_limits_valid)

lemma validate_typed:
  "validateRunCursor X (cursor_json k) = Inr c \<longleftrightarrow> protoSafe X PROCESSOR_SCHEMA_FIELDS \<and>
     within_limits PERSISTED_PROCESSING_JSON_LIMITS (cursor_json k) \<and> cursorOk k \<and> c = k"
  "validateAggregateCheckpoint X (aggregate_json a) = Inr b \<longleftrightarrow> protoSafe X PROCESSOR_SCHEMA_FIELDS \<and>
     within_limits PERSISTED_PROCESSING_JSON_LIMITS (aggregate_json a) \<and> aggregateOk nonnegative_decimal a \<and> b = canonA a"
  "validateCommittedAggregateCheckpoint X (aggregate_json a) = Inr b \<longleftrightarrow> protoSafe X PROCESSOR_SCHEMA_FIELDS \<and>
     within_limits PERSISTED_PROCESSING_JSON_LIMITS (aggregate_json a) \<and> aggregateOk positive_decimal a \<and> b = canonA a"
  "validateImmutableOutput X (output_json q) = Inr q' \<longleftrightarrow> protoSafe X PROCESSOR_SCHEMA_FIELDS \<and> wf_output X q \<and> q' = canonO q"
  by (auto simp: validateRunCursor_Inr validateAggregateCheckpoint_Inr validateCommittedAggregateCheckpoint_Inr
      validateImmutableOutput_Inr conforms_cursor conforms_aggregate conforms_committed conforms_output
      wf_output_def aggregate_of_norm output_of_norm dest: within_limits_valid)

lemma validated_canonical:
  "validateRunCursor X v = Inr c \<Longrightarrow> norm (cursor_json c) = norm v"
  "validateAggregateCheckpoint X v = Inr a \<Longrightarrow> norm (aggregate_json a) = norm v \<and> canonA a = a"
  "validateImmutableOutput X v = Inr q \<Longrightarrow> norm (output_json q) = norm v \<and> canonO q = q \<and> wf_output X q"
proof -
  show "norm (cursor_json c) = norm v" if "validateRunCursor X v = Inr c"
    using that cursor_rebuild [of v] by (auto simp: validateRunCursor_Inr dest: within_limits_valid)
  show "norm (aggregate_json a) = norm v \<and> canonA a = a" if "validateAggregateCheckpoint X v = Inr a"
    using that aggregate_rebuild [of v] aggregate_json_canonA [of "aggregate_of v"]
    by (auto simp: validateAggregateCheckpoint_Inr aggregate_of_norm dest: within_limits_valid)
  assume q: "validateImmutableOutput X v = Inr q"
  then have v: "valid_json v" "conforms immutableOutputSchema v" "q = canonO (output_of v)"
    by (auto simp: validateImmutableOutput_Inr output_of_norm dest: within_limits_valid)
  then have n: "norm (output_json q) = norm v" using output_rebuild(1) output_json_canonO by metis
  then have "conforms immutableOutputSchema (output_json q)" "within_limits PERSISTED_PROCESSING_JSON_LIMITS (output_json q)"
    using q v conforms_cong [OF n] within_limits_cong [OF n] valid_norm by (metis, metis validateImmutableOutput_Inr)
  moreover have "outputBodyOk X (output_of v)" using q by (simp add: validateImmutableOutput_Inr)
  then have "outputBodyOk X q" "canonO q = q" unfolding v(3) by simp_all
  ultimately show "norm (output_json q) = norm v \<and> canonO q = q \<and> wf_output X q"
    using n by (simp add: wf_output_def conforms_output)
qed

text \<open>What the validator does after the schema has accepted the snapshot.\<close>

lemma rebuilt_commit:
  assumes "validateStoredEvent X e = Inr ev" "validateRunCursor X k = Inr cur" "validateAggregateCheckpoint X a = Inr agg"
    and "list_all2 (\<lambda>w q. validateImmutableOutput X w = Inr q) ws outs" "scalar p"
  defines "c \<equiv> \<lparr>expectedPosition = p, commitEvent = ev, commitCursor = cur, commitAggregate = agg, commitOutputs = outs\<rparr>"
  shows "valid_json (commit_json c)" "canonC c = c" "norm (JArr (map output_json outs)) = norm (JArr ws)"
    "list_all (wf_output X) outs"
proof -
  have o: "norm (output_json q) = norm w \<and> canonO q = q \<and> wf_output X q" if "validateImmutableOutput X w = Inr q" for w q
    using that by (rule validated_canonical(3))
  have outs: "list_all (wf_output X) outs \<and> map canonO outs = outs \<and> map (norm \<circ> output_json) outs = map norm ws"
    using assms(4) by (induction rule: list_all2_induct) (auto dest: o)
  then show "list_all (wf_output X) outs" "norm (JArr (map output_json outs)) = norm (JArr ws)" by simp_all
  have e: "wf_stored ev" "canonE ev = ev" using validateStoredEvent_wf [OF assms(1)] by simp_all
  have k: "valid_json (cursor_json cur)" using validated_canonical(1) [OF assms(2)] assms(2)
    by (metis valid_norm validateRunCursor_Inr within_limits_valid)
  have a: "valid_json (aggregate_json agg)" "canonA agg = agg" using validated_canonical(2) [OF assms(3)] assms(3)
    by (metis valid_norm validateAggregateCheckpoint_Inr within_limits_valid, blast)
  have "list_all (\<lambda>q. valid_json (output_json q)) outs"
    using outs by (auto simp: list_all_iff wf_output_def dest: within_limits_valid)
  with e k a assms(5) show "valid_json (commit_json c)" by (simp add: valid_commit_json c_def wf_stored_valid)
  show "canonC c = c" using e a outs by (simp add: c_def canonC_def)
qed

lemma validateProcessingCommit_Inr:
  "validateProcessingCommit X v = Inr c \<longleftrightarrow> protoSafe X PROCESSOR_SCHEMA_FIELDS \<and>
     within_limits PERSISTED_PROCESSING_COMMIT_LIMITS v \<and> conforms processingCommitSchema v \<and>
     expectedPosition c = getStr v ''expectedPosition'' \<and>
     validateStoredEvent X (getJson v ''event'') = Inr (commitEvent c) \<and>
     validateRunCursor X (getJson v ''cursor'') = Inr (commitCursor c) \<and>
     validateAggregateCheckpoint X (getJson v ''aggregate'') = Inr (commitAggregate c) \<and>
     list_all2 (\<lambda>w q. validateImmutableOutput X w = Inr q) (getArr v ''outputs'') (commitOutputs c)"
proof -
  let ?f = "\<lambda>parsed. bindR (validateStoredEvent X (getJson parsed ''event'')) (\<lambda>ev.
     bindR (validateRunCursor X (getJson parsed ''cursor'')) (\<lambda>cur.
     bindR (validateAggregateCheckpoint X (getJson parsed ''aggregate'')) (\<lambda>agg.
     bindR (mapR (validateImmutableOutput X) (getArr parsed ''outputs'')) (\<lambda>outs.
     bindR (cloneJson (commit_json \<lparr>expectedPosition = getStr parsed ''expectedPosition'', commitEvent = ev,
       commitCursor = cur, commitAggregate = agg, commitOutputs = outs\<rparr>)) (\<lambda>copy.
     Inr (commit_of copy))))))"
  have f: "?f w = Inr c \<longleftrightarrow> scalar (getStr w ''expectedPosition'') \<and> expectedPosition c = getStr w ''expectedPosition'' \<and>
     validateStoredEvent X (getJson w ''event'') = Inr (commitEvent c) \<and>
     validateRunCursor X (getJson w ''cursor'') = Inr (commitCursor c) \<and>
     validateAggregateCheckpoint X (getJson w ''aggregate'') = Inr (commitAggregate c) \<and>
     list_all2 (\<lambda>w q. validateImmutableOutput X w = Inr q) (getArr w ''outputs'') (commitOutputs c)" (is "_ \<longleftrightarrow> ?P w") for w
  proof
    assume fw: "?f w = Inr c"
    let ?c = "\<lambda>ev cur agg outs. \<lparr>expectedPosition = getStr w ''expectedPosition'', commitEvent = ev,
        commitCursor = cur, commitAggregate = agg, commitOutputs = outs\<rparr>"
    from fw obtain ev cur agg outs where p: "validateStoredEvent X (getJson w ''event'') = Inr ev"
        "validateRunCursor X (getJson w ''cursor'') = Inr cur" "validateAggregateCheckpoint X (getJson w ''aggregate'') = Inr agg"
        "list_all2 (\<lambda>w q. validateImmutableOutput X w = Inr q) (getArr w ''outputs'') outs"
      and v: "valid_json (commit_json (?c ev cur agg outs))" and c: "c = commit_of (norm (commit_json (?c ev cur agg outs)))"
      by (auto simp: bindR_eq_Inr cloneJson_Inr mapR_eq_Inr)
    have s: "scalar (getStr w ''expectedPosition'')" using v by (simp add: valid_commit_json)
    have "c = ?c ev cur agg outs" using c commit_of_norm [OF v] rebuilt_commit(2) [OF p s] by simp
    with p s show "?P w" by simp
  next
    assume p: "?P w"
    let ?c = "\<lparr>expectedPosition = getStr w ''expectedPosition'', commitEvent = commitEvent c,
       commitCursor = commitCursor c, commitAggregate = commitAggregate c, commitOutputs = commitOutputs c\<rparr>"
    have eq: "?c = c" using p by simp
    have v: "valid_json (commit_json ?c)" "canonC ?c = ?c" using p by (blast intro: rebuilt_commit(1,2))+
    have "commit_of (norm (commit_json ?c)) = c" using commit_of_norm [OF v(1)] v(2) eq by simp
    moreover have "mapR (validateImmutableOutput X) (getArr w ''outputs'') = Inr (commitOutputs c)" using p by (simp add: mapR_eq_Inr)
    ultimately show "?f w = Inr c" using p v(1) by simp
  qed
  have g: "bindR (processorSchemaSnapshot X v) (\<lambda>s. bindR (zodParse X processingCommitSchema s) ?f) = Inr c \<longleftrightarrow>
      protoSafe X PROCESSOR_SCHEMA_FIELDS \<and> valid_json v \<and> conforms processingCommitSchema v \<and> ?f v = Inr c"
    by (rule snapshot_parse_iff [OF commit_fields_covered(9)])
      (unfold f, simp add: validator_norm list_all2_map1)
  have h: "bindR (processorSchemaSnapshot X v) (\<lambda>s. bindR (assertOutputCategories s) (\<lambda>_.
      bindR (zodParse X processingCommitSchema s) ?f)) = Inr c \<longleftrightarrow>
    bindR (processorSchemaSnapshot X v) (\<lambda>s. bindR (zodParse X processingCommitSchema s) ?f) = Inr c" (is "?l = ?r")
  proof
    assume ?l
    then show ?r by (auto simp: bindR_eq_Inr)
  next
    assume ?r
    moreover from this have "protoSafe X PROCESSOR_SCHEMA_FIELDS" "valid_json v" "conforms processingCommitSchema v"
      unfolding g by blast+
    then have "processorSchemaSnapshot X v = Inr (norm v)" "assertOutputCategories (norm v) = Inr ()"
      using conforming_categories conforms_norm
      by (auto simp: processorSchemaSnapshot_def bindR_eq_Inr inertJsonSnapshot_Inr)
    ultimately show ?l by simp
  qed
  have s: "scalar (getStr v ''expectedPosition'')" if "conforms processingCommitSchema v" "valid_json v"
    using that jget_valid [OF _ that(2)] by (fastforce simp: commit_conforms)
  show ?thesis
    unfolding validateProcessingCommit_def assertProcessingCommitEnvelope_def bindR_assoc bindR_simps
      bindR_eq_Inr [of "checkJson L w" for L w] checkJson_ok [OF processing_limits_ok(2)] h g f
    using s by (auto dest: within_limits_valid)
qed

lemma validateProcessingCommit_wf:
  assumes "validateProcessingCommit X v = Inr c"
  shows "wf_commit X c" "canonC c = c" "norm (commit_json c) = norm v"
    "protoSafe X PROCESSOR_SCHEMA_FIELDS" "protoSafe X EVENT_SCHEMA_FIELDS"
proof -
  note p = assms [unfolded validateProcessingCommit_Inr]
  then have r: "jget v (js ''expectedPosition'') = Some (JStr (expectedPosition c))"
    "jget v (js ''cursor'') = Some (getJson v ''cursor'')" "jget v (js ''aggregate'') = Some (getJson v ''aggregate'')"
    "jget v (js ''outputs'') = Some (JArr (getArr v ''outputs''))" "valid_json v"
    by (auto simp: commit_conforms dest: within_limits_valid)
  from p have ev: "validateStoredEvent X (getJson v ''event'') = Inr (commitEvent c)" by blast
  have e: "jget v (js ''event'') = Some (getJson v ''event'')"
  proof (cases "jget v (js ''event'')")
    case None
    then have "getJson v ''event'' = JNum NOther" by (simp add: getJson_def)
    with ev show ?thesis by (simp add: validateStoredEvent_Inr within_limits_def)
  qed (simp add: getJson_def)
  have s: "scalar (expectedPosition c)" using jget_valid [OF r(1,5)] by simp
  have ls: "list_all2 (\<lambda>w q. validateImmutableOutput X w = Inr q) (getArr v ''outputs'') (commitOutputs c)"
    "validateRunCursor X (getJson v ''cursor'') = Inr (commitCursor c)"
    "validateAggregateCheckpoint X (getJson v ''aggregate'') = Inr (commitAggregate c)" using p by blast+
  note b = rebuilt_commit [OF ev ls(2,3,1) s]
  have eq: "\<lparr>expectedPosition = expectedPosition c, commitEvent = commitEvent c, commitCursor = commitCursor c,
      commitAggregate = commitAggregate c, commitOutputs = commitOutputs c\<rparr> = c" by simp
  show "canonC c = c" using b(2) unfolding eq .
  have vc: "valid_json (commit_json c)" using b(1) unfolding eq .
  have k: "norm (cursor_json (commitCursor c)) = norm (getJson v ''cursor'')" by (rule validated_canonical(1) [OF ls(2)])
  have a: "norm (aggregate_json (commitAggregate c)) = norm (getJson v ''aggregate'')"
    using validated_canonical(2) [OF ls(3)] by blast
  have ew: "wf_stored (commitEvent c)" "norm (stored_json (commitEvent c)) = norm (getJson v ''event'')"
    using validateStoredEvent_wf [OF ev] by blast+
  have sch: "conforms (ZObject [req ''expectedPosition'' zNonnegativeDecimal, opt ''event'' ZUnknown,
      req ''cursor'' runCursorSchema, req ''aggregate'' committedAggregateCheckpointSchema,
      req ''outputs'' (ZArray 100000 immutableOutputSchema)]) v"
    using p unfolding processingCommitSchema_def by blast
  show n: "norm (commit_json c) = norm v" unfolding commit_json_def
    by (rule norm_rebuild [OF r(5) sch, of "map js [''expectedPosition'', ''event'', ''cursor'', ''aggregate'', ''outputs'']"])
      (use k a ew(2) b(3) r e in \<open>simp_all add: js_names\<close>)
  have "commitOk c" using p conforms_cong [OF n vc r(5), of processingCommitSchema] conforms_commit by blast
  moreover have "within_limits PERSISTED_PROCESSING_JSON_LIMITS (cursor_json (commitCursor c))"
    using ls(2) within_limits_cong [OF k] by (simp add: validateRunCursor_Inr)
  moreover have "within_limits PERSISTED_PROCESSING_JSON_LIMITS (aggregate_json (commitAggregate c))"
    using ls(3) within_limits_cong [OF a] by (simp add: validateAggregateCheckpoint_Inr)
  ultimately show "wf_commit X c" using p b(4) ew(1) within_limits_cong [OF n] by (simp add: wf_commit_def)
  show "protoSafe X PROCESSOR_SCHEMA_FIELDS" "protoSafe X EVENT_SCHEMA_FIELDS"
    using p ev by (simp_all add: validateStoredEvent_Inr)
qed

lemma validateProcessingCommit_json:
  "validateProcessingCommit X (commit_json c) = Inr c' \<longleftrightarrow>
     protoSafe X PROCESSOR_SCHEMA_FIELDS \<and> protoSafe X EVENT_SCHEMA_FIELDS \<and> wf_commit X c \<and> c' = canonC c" (is "?l = ?r")
proof
  assume l: ?l
  note w = validateProcessingCommit_wf [OF l]
  have v: "valid_json (commit_json c)" using l by (auto simp: validateProcessingCommit_Inr dest: within_limits_valid)
  then have v': "valid_json (commit_json c')" using w(3) by (metis valid_norm)
  have "canonC c' = canonC c" using commit_of_norm [OF v] commit_of_norm [OF v'] w(3) by simp
  moreover have "wf_commit X c"
    using l by (auto simp: validateProcessingCommit_Inr conforms_commit commit_reads validate_typed wf_commit_def
        validateStoredEvent_json list_all2_map1 list_all_iff aggregateOk_def list_all2_conv_all_nth in_set_conv_nth)
  ultimately show ?r using w by simp
next
  assume r: ?r
  have dec: "aggregateOk nonnegative_decimal a" if "aggregateOk positive_decimal a" for a
    using that by (simp add: aggregateOk_def positive_nonnegative)
  from r have "list_all2 (\<lambda>w q. validateImmutableOutput X (output_json w) = Inr q) (commitOutputs c) (map canonO (commitOutputs c))"
    by (simp add: list_all2_map2 list_all2_same list_all_iff wf_commit_def validate_typed)
  with r dec show ?l
    by (simp add: validateProcessingCommit_Inr conforms_commit commit_reads validate_typed wf_commit_def commitOk_def
        validateStoredEvent_json list_all2_map1)
qed

lemma wf_commit_canonC [simp]: "wf_commit X (canonC c) = wf_commit X c"
proof -
  have e: "norm (aggregate_json (canonA a)) = norm (aggregate_json a)" for a by (rule aggregate_json_canonA)
  have o: "wf_output X (canonO q) = wf_output X q" if "valid_json (output_json q) \<or> valid_json (output_json (canonO q))" for q
  proof -
    have "norm (output_json (canonO q)) = norm (output_json q)" by (rule output_json_canonO)
    then show ?thesis using that conforms_output [of q] conforms_output [of "canonO q"] within_limits_cong conforms_cong
      unfolding wf_output_def outputBodyOk_canonO by (metis valid_norm)
  qed
  have n: "norm (commit_json (canonC c)) = norm (commit_json c)" by (rule commit_json_canonC)
  have v: "valid_json (commit_json (canonC c)) = valid_json (commit_json c)" using n by (metis valid_norm)
  have "list_all (wf_output X) (map canonO qs) = list_all (wf_output X) qs" for qs
    using o by (auto simp: list_all_iff wf_output_def dest: within_limits_valid)
  moreover have "commitOk (canonC c) = commitOk c" if "valid_json (commit_json c)"
    using conforms_cong [OF n _ that, of processingCommitSchema] v that conforms_commit by simp
  ultimately show ?thesis
    using within_limits_cong [OF n] within_limits_cong [OF e]
    unfolding wf_commit_def canonC_fields wf_stored_canonE by (auto dest: within_limits_valid)
qed

end

end
