(* ===== verification/VerifyLaws.thy ===== *)
theory VerifyLaws
  imports TransitionLaws
begin

text \<open>
  What the two verifiers decide. \<open>outputsSound\<close> is the declarative meaning of the scan over
  the outputs: sorted by category rank, ordinals counting from zero in each category, pairwise
  different output identifiers and dedupe identities, and every output bound to the run, the event
  and the aggregate of the commit. \<open>commitSound\<close> adds the bindings between event, cursor and
  checkpoint, \<open>follows\<close> the link to the previous cursor.
\<close>

section \<open>The scan over the outputs\<close>

definition outputSound :: "externals \<Rightarrow> RunRegistration \<Rightarrow> ProcessingCommit \<Rightarrow> ImmutableOutput \<Rightarrow> bool" where
  "outputSound X r c q \<longleftrightarrow> isSafeInteger (ordinal q) \<and> 0 \<le> ordinal q \<and>
     outRunId q = cursorRunId (commitCursor c) \<and> inputEventId q = eventId (commitEvent c) \<and>
     inputPosition q = position (commitEvent c) \<and> outAggregateId q = aggregateId (commitAggregate c) \<and>
     bodyHash q = digest X (bodyDomain (category q)) (body q) \<and>
     valid_json (outputIdentity r (commitEvent c) q) \<and>
     outputId q = digest X (js ''peas/output-id/v2'') (outputIdentity r (commitEvent c) q) \<and> outputBodyOk X q"

definition dedupeOf :: "externals \<Rightarrow> 'a ImmutableOutput_scheme \<Rightarrow> jsstring" where
  "dedupeOf X q = dedupeIdentityOf X (outRunId q) (category q) (the (dedupeKey q))"

definition dedupes :: "externals \<Rightarrow> 'a ImmutableOutput_scheme list \<Rightarrow> jsstring list" where
  "dedupes X qs = map (dedupeOf X) (filter (\<lambda>q. category q \<noteq> DecisionOutput) qs)"

definition ofCategory :: "OutputCategory \<Rightarrow> 'a ImmutableOutput_scheme list \<Rightarrow> 'a ImmutableOutput_scheme list" where
  "ofCategory cat qs = filter (\<lambda>q. category q = cat) qs"

definition outputsSound :: "externals \<Rightarrow> RunRegistration \<Rightarrow> ProcessingCommit \<Rightarrow> ImmutableOutput list \<Rightarrow> bool" where
  "outputsSound X r c qs \<longleftrightarrow> list_all (outputSound X r c) qs \<and> sorted (map (categoryRank \<circ> category) qs) \<and>
     distinct (map outputId qs) \<and> distinct (dedupes X qs) \<and>
     (\<forall>cat. map ordinal (ofCategory cat qs) = map int [0..<length (ofCategory cat qs)])"

definition scanOf :: "externals \<Rightarrow> ImmutableOutput list \<Rightarrow> OutputScan" where
  "scanOf X qs = \<lparr>previousCategoryRank = (if qs = [] then - 1 else categoryRank (category (last qs))),
     nextOrdinals = (\<lambda>cat. int (length (ofCategory cat qs))), outputIds = set (map outputId qs),
     dedupeIdentities = set (dedupes X qs)\<rparr>"

lemma scanOf_Nil: "scanOf X [] = initialScan"
  by (simp add: scanOf_def initialScan_def ofCategory_def dedupes_def)

lemma categoryRank_bounds: "0 \<le> categoryRank c"
  by (cases c) simp_all

lemma sorted_snoc_last: "sorted (map f (xs @ [x])) \<longleftrightarrow> sorted (map f xs) \<and> (xs = [] \<or> f (last xs) \<le> f x)"
proof (cases xs rule: rev_cases)
  case (snoc ys y)
  then show ?thesis by (auto simp: sorted_append intro: order_trans)
qed simp

lemma requiredString_nonempty: "s \<noteq> [] \<Longrightarrow> requiredString (Some (JStr s)) = Inr s"
  by (simp add: requiredString_def)

lemma ids_nonempty: "hash64 s \<Longrightarrow> s \<noteq> []" "bounded_id s \<Longrightarrow> s \<noteq> []"
  by (auto simp: hash64_def bounded_id_def)

definition advance :: "externals \<Rightarrow> ImmutableOutput \<Rightarrow> OutputScan \<Rightarrow> OutputScan" where
  "advance X q scan = \<lparr>previousCategoryRank = categoryRank (category q),
     nextOrdinals = (nextOrdinals scan)(category q := ordinal q + 1),
     outputIds = insert (outputId q) (outputIds scan),
     dedupeIdentities = (if category q = DecisionOutput then {} else {dedupeOf X q}) \<union> dedupeIdentities scan\<rparr>"

context node_env
begin

lemma verifyDedupe_valid:
  assumes "outputBodyOk X q"
  shows "verifyDedupe X q (norm (body q)) scan =
    (if category q = DecisionOutput then Inr scan
     else if dedupeOf X q \<in> dedupeIdentities scan then Inl (PlainError ''Duplicate dedupe key in commit'')
     else Inr (scan\<lparr>dedupeIdentities := insert (dedupeOf X q) (dedupeIdentities scan)\<rparr>))"
proof (cases "category q = DecisionOutput")
  case True
  then show ?thesis by (simp add: verifyDedupe_def)
next
  case False
  let ?b = "norm (body q)"
  have b: "valid_json ?b" "conforms (bodyShape (category q)) ?b"
    using assms by (auto simp: outputBodyOk_def bodyValid_def conforms_norm dest: within_limits_valid)
  note k = body_keys [OF b False]
  have d: "dedupeKey q = Some (getStr ?b ''dedupeKey'')" "scalar (outRunId q)"
    using assms False deliveryOk_norm [of "body q"] b(1) by (cases "category q"; simp add: outputBodyOk_def bodyValid_def)+
  have i: "computeOutputDedupeIdentity X (outRunId q) (category q) (getStr ?b ''dedupeKey'') = Inr (dedupeOf X q)"
    using k(1) d by (simp add: computeOutputDedupeIdentity_Inr dedupeOf_def)
  have r: "requiredString (jget ?b (js ''dedupeKey'')) = Inr (getStr ?b ''dedupeKey'')"
    using k(3,4) by (simp add: requiredString_nonempty ids_nonempty)
  have j: "\<exists>s. requiredString (jget ?b (js k)) = Inr s"
    if "category q = JobOutput \<and> k \<in> {''jobId'', ''type'', ''inputBundleHash''} \<or>
        category q = OutboxOutput \<and> k \<in> {''topic'', ''messageId''}" for k
    using that b(2)
    by (elim disjE conjE)
      (auto simp: jobBodySchema_def outboxBodySchema_def check_simps z_defs requiredString_nonempty ids_nonempty
        simp del: conforms.simps)
  show ?thesis
  proof (cases "category q")
    case JobOutput
    with j [of "''jobId''"] j [of "''type''"] j [of "''inputBundleHash''"] i r show ?thesis
      by (auto simp: verifyDedupe_def)
  next
    case OutboxOutput
    with j [of "''topic''"] j [of "''messageId''"] i r show ?thesis by (auto simp: verifyDedupe_def)
  qed (use False in simp)
qed

lemma verifyOutput_Inr:
  "verifyOutput X r c q scan = Inr scan' \<longleftrightarrow> protoSafe X PROCESSOR_SCHEMA_FIELDS \<and> outputSound X r c q \<and>
     previousCategoryRank scan \<le> categoryRank (category q) \<and> outputId q \<notin> outputIds scan \<and>
     ordinal q = nextOrdinals scan (category q) \<and>
     (category q \<noteq> DecisionOutput \<longrightarrow> dedupeOf X q \<notin> dedupeIdentities scan) \<and> scan' = advance X q scan"
proof -
  have ob: "requiredObject (body q) = Inr v \<longleftrightarrow> v = body q" if "outputBodyOk X q" for v
  proof -
    have "\<exists>kvs. body q = JObj kvs"
      using that by (cases "body q"; cases "category q")
        (simp_all add: outputBodyOk_def bodyValid_def decisionBodySchema_def jobBodySchema_def outboxBodySchema_def)
    then show ?thesis by (auto simp: requiredObject_def)
  qed
  have l: "within_limits PERSISTED_PROCESSING_JSON_LIMITS (body q)" "valid_json (body q)" if "outputBodyOk X q"
    using that by (auto simp: outputBodyOk_def bodyValid_def dest: within_limits_valid)
  define val where "val = validateStoredOutputBody X (category q) (body q) (outRunId q) (dedupeKey q) (notBeforeLogicalMs q)"
  define dd where "dd b = verifyDedupe X q b (scan\<lparr>previousCategoryRank := categoryRank (category q),
        nextOrdinals := (nextOrdinals scan)(category q := ordinal q + 1),
        outputIds := insert (outputId q) (outputIds scan)\<rparr>)" for b
  have val: "val = Inr b \<longleftrightarrow> protoSafe X PROCESSOR_SCHEMA_FIELDS \<and> outputBodyOk X q \<and> b = norm (body q)" for b
    by (simp add: val_def validateStoredOutputBody_Inr outputBodyOk_def)
  have dd: "dd (norm (body q)) = Inr scan' \<longleftrightarrow>
      (category q \<noteq> DecisionOutput \<longrightarrow> dedupeOf X q \<notin> dedupeIdentities scan) \<and> scan' = advance X q scan" if "outputBodyOk X q"
    unfolding dd_def verifyDedupe_valid [OF that] advance_def by (cases scan) auto
  have "verifyOutput X r c q scan = Inr scan' \<longleftrightarrow> isSafeInteger (ordinal q) \<and> 0 \<le> ordinal q \<and>
     previousCategoryRank scan \<le> categoryRank (category q) \<and> outputId q \<notin> outputIds scan \<and>
     ordinal q = nextOrdinals scan (category q) \<and>
     outRunId q = cursorRunId (commitCursor c) \<and> inputEventId q = eventId (commitEvent c) \<and>
     inputPosition q = position (commitEvent c) \<and> outAggregateId q = aggregateId (commitAggregate c) \<and>
     (\<exists>v. requiredObject (body q) = Inr v) \<and> within_limits PERSISTED_PROCESSING_JSON_LIMITS (body q) \<and> valid_json (body q) \<and>
     bodyHash q = digest X (bodyDomain (category q)) (body q) \<and>
     valid_json (outputIdentity r (commitEvent c) q) \<and>
     outputId q = digest X (js ''peas/output-id/v2'') (outputIdentity r (commitEvent c) q) \<and>
     (\<exists>b. val = Inr b \<and> dd b = Inr scan')"
    unfolding verifyOutput_def val_def [symmetric] dd_def [symmetric] if_bool_eq_conj
    by (auto simp: bindR_eq_Inr checkJson_ok)
  then show ?thesis unfolding val outputSound_def using ob l dd by auto
qed

lemma scanOf_snoc: "ordinal q = int (length (ofCategory (category q) qs)) \<Longrightarrow> scanOf X (qs @ [q]) = advance X q (scanOf X qs)"
  by (auto simp: scanOf_def advance_def ofCategory_def dedupes_def)

lemma outputsSound_snoc:
  "outputsSound X r c (qs @ [q]) \<longleftrightarrow> outputsSound X r c qs \<and> outputSound X r c q \<and>
     previousCategoryRank (scanOf X qs) \<le> categoryRank (category q) \<and> outputId q \<notin> set (map outputId qs) \<and>
     (category q \<noteq> DecisionOutput \<longrightarrow> dedupeOf X q \<notin> set (dedupes X qs)) \<and>
     ordinal q = int (length (ofCategory (category q) qs))"
proof -
  have s: "sorted (map (categoryRank \<circ> category) (qs @ [q])) \<longleftrightarrow> sorted (map (categoryRank \<circ> category) qs) \<and>
      previousCategoryRank (scanOf X qs) \<le> categoryRank (category q)"
    using categoryRank_bounds [of "category q"] unfolding sorted_snoc_last by (auto simp: scanOf_def)
  have o: "(\<forall>cat. map ordinal (ofCategory cat (qs @ [q])) = map int [0..<length (ofCategory cat (qs @ [q]))]) \<longleftrightarrow>
      (\<forall>cat. map ordinal (ofCategory cat qs) = map int [0..<length (ofCategory cat qs)]) \<and>
      ordinal q = int (length (ofCategory (category q) qs))"
    by (auto simp: ofCategory_def)
  have d: "distinct (dedupes X (qs @ [q])) \<longleftrightarrow> distinct (dedupes X qs) \<and>
      (category q \<noteq> DecisionOutput \<longrightarrow> dedupeOf X q \<notin> set (dedupes X qs))"
    by (auto simp: dedupes_def)
  show ?thesis unfolding outputsSound_def s o d by auto
qed

lemma scan_Inr:
  "foldR (verifyOutput X r c) qs initialScan = Inr scan \<longleftrightarrow>
     (qs \<noteq> [] \<longrightarrow> protoSafe X PROCESSOR_SCHEMA_FIELDS) \<and> outputsSound X r c qs \<and> scan = scanOf X qs"
proof (induction qs arbitrary: scan rule: rev_induct)
  case Nil
  show ?case by (auto simp: scanOf_Nil outputsSound_def dedupes_def ofCategory_def)
next
  case (snoc q qs)
  have "foldR (verifyOutput X r c) (qs @ [q]) initialScan = Inr scan \<longleftrightarrow>
      (\<exists>s. foldR (verifyOutput X r c) qs initialScan = Inr s \<and> verifyOutput X r c q s = Inr scan)"
    by (auto simp: foldR_append bindR_eq_Inr)
  also have "\<dots> \<longleftrightarrow> protoSafe X PROCESSOR_SCHEMA_FIELDS \<and> outputsSound X r c qs \<and> outputSound X r c q \<and>
     previousCategoryRank (scanOf X qs) \<le> categoryRank (category q) \<and> outputId q \<notin> outputIds (scanOf X qs) \<and>
     ordinal q = nextOrdinals (scanOf X qs) (category q) \<and>
     (category q \<noteq> DecisionOutput \<longrightarrow> dedupeOf X q \<notin> dedupeIdentities (scanOf X qs)) \<and> scan = advance X q (scanOf X qs)"
    unfolding snoc.IH verifyOutput_Inr by blast
  also have "\<dots> \<longleftrightarrow> protoSafe X PROCESSOR_SCHEMA_FIELDS \<and> outputsSound X r c (qs @ [q]) \<and> scan = scanOf X (qs @ [q])"
    unfolding outputsSound_snoc using scanOf_snoc [of q qs] by (auto simp: scanOf_def [of X qs])
  finally show ?case by simp
qed

end


section \<open>Sound commits\<close>

definition commitSound :: "externals \<Rightarrow> RunRegistration \<Rightarrow> ProcessingCommit \<Rightarrow> bool" where
  "commitSound X r c \<longleftrightarrow>
     (let cur = commitCursor c; ev = commitEvent c; agg = commitAggregate c in
      sealed X ev \<and> cursorHash cur = digest X (js ''peas/run-cursor/v2'') (cursorContent cur) \<and>
      cursorRunId cur = runId (manifest r) \<and> cursorManifestHash cur = manifestHash r \<and>
      cursorBehaviorHash cur = behaviorHash r \<and>
      processedPosition cur = position ev \<and> cursorLogicalAtMs cur = logicalAtMs ev \<and> lastEventHash cur = eventHash ev \<and>
      checkpointHash agg = digest X (js ''peas/aggregate-checkpoint/v2'') (checkpointContent agg) \<and>
      aggRunId agg = cursorRunId cur \<and> lastInputPosition agg = position ev \<and>
      within_limits PERSISTED_PROCESSING_JSON_LIMITS (state agg) \<and>
      stateHash agg = digest X (stateDomain (reducerName (behavior (manifest r))) (reducerVersion (behavior (manifest r)))) (state agg) \<and>
      outputsSound X r c (commitOutputs c))"

lemma valid_cursorContent: "valid_json (cursor_json k) \<Longrightarrow> valid_json (cursorContent k)"
  by (simp add: cursor_json_def cursorContent_def)

lemma valid_checkpointContent: "valid_json (aggregate_json a) \<Longrightarrow> valid_json (checkpointContent a)"
  by (simp add: aggregate_json_def checkpointContent_def)

lemma wf_commit_facts:
  assumes "wf_commit X c"
  shows "wf_stored (commitEvent c)" "cursorOk (commitCursor c)" "aggregateOk positive_decimal (commitAggregate c)"
    "valid_json (cursor_json (commitCursor c))" "valid_json (aggregate_json (commitAggregate c))"
    "list_all (wf_output X) (commitOutputs c)" "positive_decimal (position (commitEvent c))"
    "nonnegative_decimal (expectedPosition c)" "valid_json (state (commitAggregate c))"
proof -
  show w: "wf_stored (commitEvent c)" "cursorOk (commitCursor c)" "aggregateOk positive_decimal (commitAggregate c)"
    "valid_json (cursor_json (commitCursor c))" "valid_json (aggregate_json (commitAggregate c))"
    "list_all (wf_output X) (commitOutputs c)" "nonnegative_decimal (expectedPosition c)"
    using assms by (auto simp: wf_commit_def commitOk_def dest: within_limits_valid)
  show "positive_decimal (position (commitEvent c))"
    using w(1) by (simp add: wf_stored_def conforms_stored storedOk_def)
  show "valid_json (state (commitAggregate c))" using w(5) by (simp add: aggregate_json_def)
qed

context node_env
begin

lemma verifyProcessingCommit_Inr:
  "verifyProcessingCommit X v r = Inr c \<longleftrightarrow> validateProcessingCommit X v = Inr c \<and> commitSound X r c"
proof (cases "validateProcessingCommit X v")
  case (Inl e)
  then show ?thesis by (simp add: verifyProcessingCommit_def)
next
  case (Inr k)
  note w = validateProcessingCommit_wf [OF Inr]
  note f = wf_commit_facts [OF w(1)]
  define agg where "agg = commitAggregate k"
  define outs where "outs = foldR (verifyOutput X r k) (commitOutputs k) initialScan"
  have a: "\<exists>s. requiredString (Some (JStr (aggregateId agg))) = Inr s" "positive_decimal (version agg)"
    "\<exists>s. requiredObject (state agg) = Inr s"
    using f(3) by (auto simp: agg_def aggregateOk_def aggregate_id_def requiredString_nonempty ids_nonempty requiredObject_def
        split: json.splits)
  have o: "(\<exists>s. outs = Inr s) \<longleftrightarrow> outputsSound X r k (commitOutputs k)"
    using w(4) by (simp add: outs_def scan_Inr)
  have s: "(\<exists>u. verifyStoredEvent X (commitEvent k) None = Inr u) \<longleftrightarrow> sealed X (commitEvent k)"
    using f(1) w(5) by (simp add: verifyStoredEvent_Inr)
  have v: "valid_json (cursorContent (commitCursor k))" "valid_json (checkpointContent agg)" "valid_json (state agg)"
    using f(4,5,9) by (simp_all add: valid_cursorContent valid_checkpointContent agg_def)
  have "verifyProcessingCommit X v r = Inr c \<longleftrightarrow> k = c \<and> commitSound X r k"
    unfolding verifyProcessingCommit_def Inr bindR_simps Let_def commitSound_def agg_def [symmetric] outs_def [symmetric]
      computeRunCursorHash_def computeAggregateCheckpointHash_def o [symmetric] s [symmetric]
    using v a by (auto simp: bindR_eq_Inr checkJson_ok)
  with Inr show ?thesis by auto
qed

end


section \<open>Transitions\<close>

definition genesisCore :: "externals \<Rightarrow> RunRegistration \<Rightarrow> RunCursor" where
  "genesisCore X r = \<lparr>cursorRunId = runId (manifest r), cursorManifestHash = manifestHash r,
     cursorBehaviorHash = behaviorHash r, processedPosition = js ''0'', cursorLogicalAtMs = 0, lastEventHash = zeroHash,
     stateHead = hashParts X (js ''peas/state-head/genesis/v2'') [PartString (behaviorHash r)],
     decisionHead = hashParts X (js ''peas/decision-head/genesis/v2'') [PartString (behaviorHash r)], cursorHash = []\<rparr>"

definition genesisOf :: "externals \<Rightarrow> RunRegistration \<Rightarrow> RunCursor" where
  "genesisOf X r = (genesisCore X r)\<lparr>cursorHash := digest X (js ''peas/run-cursor/v2'') (cursorContent (genesisCore X r))\<rparr>"

lemma createGenesisRunCursor_Inr:
  "createGenesisRunCursor X r = Inr g \<longleftrightarrow> valid_json (cursorContent (genesisCore X r)) \<and> g = genesisOf X r"
  by (auto simp: createGenesisRunCursor_def Let_def computeRunCursorHash_def bindR_eq_Inr genesisCore_def [symmetric] genesisOf_def)

lemma cursorContent_hash [simp]: "cursorContent (k\<lparr>cursorHash := h\<rparr>) = cursorContent k"
  by (simp add: cursorContent_def)

lemma genesis_fields [simp]:
  "cursorRunId (genesisOf X r) = runId (manifest r)" "cursorManifestHash (genesisOf X r) = manifestHash r"
  "cursorBehaviorHash (genesisOf X r) = behaviorHash r" "processedPosition (genesisOf X r) = js ''0''"
  "cursorLogicalAtMs (genesisOf X r) = 0" "lastEventHash (genesisOf X r) = zeroHash"
  by (simp_all add: genesisOf_def genesisCore_def)

lemma genesis_hash [simp]: "cursorHash (genesisOf X r) = digest X (js ''peas/run-cursor/v2'') (cursorContent (genesisOf X r))"
  by (simp add: genesisOf_def)

lemma cursor_json_inj:
  "valid_json (cursor_json a) \<Longrightarrow> valid_json (cursor_json b) \<Longrightarrow> canon (cursor_json a) = canon (cursor_json b) \<longleftrightarrow> a = b"
  by (metis canon_inj cursor_of_json cursor_of_norm)

definition decisionHeadOf :: "externals \<Rightarrow> RunCursor \<Rightarrow> StoredEvent \<Rightarrow> ImmutableOutput list \<Rightarrow> jsstring" where
  "decisionHeadOf X previous event outs = hashParts X (js ''peas/decision-head/step/v2'')
     [PartString (decisionHead previous), PartString (eventHash event), PartString (canon (semanticOutputs outs))]"

lemma nextDecisionHead_Inr: "nextDecisionHead X p e qs = Inr h \<longleftrightarrow> valid_json (semanticOutputs qs) \<and> h = decisionHeadOf X p e qs"
  by (auto simp: nextDecisionHead_def bindR_eq_Inr decisionHeadOf_def)

lemma valid_semanticOutputs: "list_all (\<lambda>q. valid_json (output_json q)) qs \<Longrightarrow> valid_json (semanticOutputs qs)"
  by (auto simp: semanticOutputs_def output_json_def output_fields_def list_all_iff)

text \<open>A cursor that carries its own hash and belongs to the run.\<close>

definition cursorSound :: "externals \<Rightarrow> RunRegistration \<Rightarrow> RunCursor \<Rightarrow> bool" where
  "cursorSound X r k \<longleftrightarrow> within_limits PERSISTED_PROCESSING_JSON_LIMITS (cursor_json k) \<and> cursorOk k \<and>
     cursorHash k = digest X (js ''peas/run-cursor/v2'') (cursorContent k) \<and>
     cursorRunId k = runId (manifest r) \<and> cursorManifestHash k = manifestHash r \<and> cursorBehaviorHash k = behaviorHash r \<and>
     (processedPosition k = js ''0'' \<longrightarrow> k = genesisOf X r)"

definition follows :: "externals \<Rightarrow> RunCursor \<Rightarrow> ProcessingCommit \<Rightarrow> bool" where
  "follows X p c \<longleftrightarrow> expectedPosition c = processedPosition p \<and>
     parse_nat (position (commitEvent c)) = parse_nat (processedPosition p) + 1 \<and>
     previousEventHash (commitEvent c) = lastEventHash p \<and> cursorLogicalAtMs p \<le> logicalAtMs (commitEvent c) \<and>
     stateHead (commitCursor c) = nextStateHead X p (commitEvent c) (aggregateId (commitAggregate c)) (stateHash (commitAggregate c)) \<and>
     decisionHead (commitCursor c) = decisionHeadOf X p (commitEvent c) (commitOutputs c)"

lemma genesis_content:
  "cursorOk k \<Longrightarrow> valid_json (cursor_json k) \<Longrightarrow> cursorRunId k = runId (manifest r) \<Longrightarrow>
    cursorManifestHash k = manifestHash r \<Longrightarrow> cursorBehaviorHash k = behaviorHash r \<Longrightarrow>
    (\<And>ps d. hash64 (hashParts X d ps)) \<Longrightarrow> valid_json (cursorContent (genesisCore X r))"
  by (simp add: cursorContent_def genesisCore_def cursor_json_def hash64_scalar isSafeInteger_def MAX_SAFE_INTEGER_def)

context node_env
begin

lemma verifyProcessingTransition_Inr:
  "verifyProcessingTransition X v r p = Inr c \<longleftrightarrow>
     validateProcessingCommit X v = Inr c \<and> commitSound X r c \<and> cursorSound X r p \<and> follows X p c"
proof (cases "verifyProcessingCommit X v r")
  case (Inl e)
  then have "\<not> (validateProcessingCommit X v = Inr c \<and> commitSound X r c)"
    using verifyProcessingCommit_Inr [of v r c] by auto
  with Inl show ?thesis by (auto simp: verifyProcessingTransition_def)
next
  case (Inr k)
  then have k: "validateProcessingCommit X v = Inr k" "commitSound X r k" by (simp_all add: verifyProcessingCommit_Inr)
  note w = validateProcessingCommit_wf [OF k(1)]
  note f = wf_commit_facts [OF w(1)]
  have "list_all (\<lambda>q. valid_json (output_json q)) (commitOutputs k)"
    using f(6) by (auto simp: list_all_iff wf_output_def dest: within_limits_valid)
  then have d: "nextDecisionHead X p (commitEvent k) (commitOutputs k) = Inr (decisionHeadOf X p (commitEvent k) (commitOutputs k))"
    by (simp add: nextDecisionHead_Inr valid_semanticOutputs)
  have pos: "bigInt (position (commitEvent k)) = Inr (int (parse_nat (position (commitEvent k))))"
    using f(7) by (simp add: bigInt_nonneg positive_nonnegative)
  show ?thesis
  proof (cases "within_limits PERSISTED_PROCESSING_JSON_LIMITS (cursor_json p) \<and> cursorOk p")
    case False
    then have "\<nexists>q. validateRunCursor X (cursor_json p) = Inr q" by (simp add: validate_typed)
    with False Inr show ?thesis
      by (auto simp: verifyProcessingTransition_def bindR_eq_Inr [of "validateRunCursor X w" for w] cursorSound_def)
  next
    case True
    then have p: "validateRunCursor X (cursor_json p) = Inr p" "valid_json (cursor_json p)"
      using w(4) by (auto simp: validate_typed dest: within_limits_valid)
    have prior: "bigInt (processedPosition p) = Inr (int (parse_nat (processedPosition p)))"
      using True by (simp add: bigInt_nonneg cursorOk_def)
    have h: "computeRunCursorHash X p = Inr (digest X (js ''peas/run-cursor/v2'') (cursorContent p))"
      using p(2) by (simp add: computeRunCursorHash_def valid_cursorContent)
    let ?g = "if processedPosition p = js ''0''
       then bindR (createGenesisRunCursor X r) (\<lambda>genesis.
            bindR (canonicalJson (cursor_json p)) (\<lambda>a.
            bindR (canonicalJson (cursor_json genesis)) (\<lambda>b.
            assertR (a = b) (PlainError ''Prior cursor is not the canonical run genesis''))))
       else Inr ()"
    have g: "?g = Inr () \<longleftrightarrow> (processedPosition p = js ''0'' \<longrightarrow> p = genesisOf X r)"
      if "cursorRunId p = runId (manifest r)" "cursorManifestHash p = manifestHash r" "cursorBehaviorHash p = behaviorHash r"
    proof -
      have c: "valid_json (cursorContent (genesisCore X r))" using True p(2) that by (blast intro: genesis_content)
      then have "valid_json (cursor_json (genesisOf X r))"
        by (simp add: cursor_json_def cursorContent_def genesisOf_def genesisCore_def hash64_scalar)
      then show ?thesis
        using c p(2) cursor_json_inj [of p "genesisOf X r"] by (auto simp: createGenesisRunCursor_Inr bindR_eq_Inr)
    qed
    show ?thesis
    proof (cases "cursorRunId p = runId (manifest r) \<and> cursorManifestHash p = manifestHash r \<and> cursorBehaviorHash p = behaviorHash r")
      case False
      then show ?thesis using Inr p(1) h by (auto simp: verifyProcessingTransition_def cursorSound_def)
    next
      case ids: True
      define gen where "gen \<longleftrightarrow> (processedPosition p = js ''0'' \<longrightarrow> p = genesisOf X r)"
      define G where "G = ?g"
      have G: "G = Inr u \<longleftrightarrow> gen" for u using g ids by (simp add: gen_def G_def)
      have bindG: "bindR G f = Inr c \<longleftrightarrow> gen \<and> f () = Inr c" for f by (simp add: bindR_eq_Inr G)
      have int: "int m \<noteq> int n + 1 \<longleftrightarrow> m \<noteq> n + 1" for m n by linarith
      have "verifyProcessingTransition X v r p = Inr c \<longleftrightarrow> k = c \<and> cursorSound X r p \<and> follows X p k"
        unfolding verifyProcessingTransition_def Inr bindR_simps p(1) h prior pos d cursorSound_def follows_def
          G_def [symmetric] gen_def [symmetric] int
        using True ids by (simp add: bindG not_less) blast
      with k show ?thesis by auto
    qed
  qed
qed

end

end
