(* ===== verification/JsCollections.thy ===== *)
theory JsCollections
  imports Prelude
begin

text \<open>
  The insertion-ordered \<open>Map\<close> and \<open>Set\<close> of JavaScript, as lists:
  \<open>Map.prototype.set\<close> keeps the place of a key that is present, \<open>Set.prototype.add\<close> too.
  The laws say that both behave like the mathematical map and set.
\<close>

definition mapSet :: "'k \<Rightarrow> 'v \<Rightarrow> ('k \<times> 'v) list \<Rightarrow> ('k \<times> 'v) list" where
  "mapSet k v m = (if k \<in> fst ` set m then map (\<lambda>e. if fst e = k then (k, v) else e) m else m @ [(k, v)])"

definition setAdd :: "'a \<Rightarrow> 'a list \<Rightarrow> 'a list" where
  "setAdd x xs = (if x \<in> set xs then xs else xs @ [x])"

definition addAll :: "'a list \<Rightarrow> 'a list \<Rightarrow> 'a list" where
  "addAll = fold setAdd"

lemma map_of_mapSet: "map_of (mapSet k v m) i = (if i = k then Some v else map_of m i)"
proof (cases "k \<in> fst ` set m")
  case True
  have "map_of (map (\<lambda>e. if fst e = k then (k, v) else e) m) i = (if i = k \<and> k \<in> fst ` set m then Some v else map_of m i)"
    by (induction m) (auto, force)
  with True show ?thesis by (simp add: mapSet_def)
next
  case False
  then have "map_of m k = None" by (simp add: map_of_eq_None_iff)
  with False show ?thesis by (simp add: mapSet_def map_add_def split: option.splits)
qed

lemma distinct_mapSet: "distinct (map fst m) \<Longrightarrow> distinct (map fst (mapSet k v m))"
proof -
  have "map fst (map (\<lambda>e. if fst e = k then (k, v) else e) m) = map fst m" by (induction m) auto
  then show "distinct (map fst m) \<Longrightarrow> distinct (map fst (mapSet k v m))"
    by (cases "k \<in> fst ` set m") (simp_all only: mapSet_def if_True if_False, simp)
qed

lemma setAdd_simps [simp]: "set (setAdd x xs) = insert x (set xs)" "distinct xs \<Longrightarrow> distinct (setAdd x xs)"
  by (auto simp: setAdd_def)

lemma fold_setAdd:
  "set (fold (\<lambda>q. if P q then setAdd (f q) else id) qs xs) = set xs \<union> f ` {q \<in> set qs. P q}"
  "distinct xs \<Longrightarrow> distinct (fold (\<lambda>q. if P q then setAdd (f q) else id) qs xs)"
  by (induction qs arbitrary: xs) auto

lemma set_addAll [simp]: "set (addAll xs ys) = set xs \<union> set ys"
  unfolding addAll_def by (induction xs arbitrary: ys) auto

lemma distinct_addAll [simp]: "distinct ys \<Longrightarrow> distinct (addAll xs ys)"
  unfolding addAll_def by (induction xs arbitrary: ys) auto

lemma mapSet_new: "k \<notin> fst ` set m \<Longrightarrow> mapSet k v m = m @ [(k, v)]"
  by (simp add: mapSet_def)

end
