(* ===== verification/ProcessingStore.thy ===== *)
theory ProcessingStore
  imports VerifyLaws JsCollections
begin

text \<open>
  The in-memory processing store (\<^verbatim>\<open>src/adapters/memory/processing-store.ts\<close>). Its maps and
  sets are the fields of a record. The aggregates of a run and the two sets of dispatchable outputs
  keep their insertion order, as a JavaScript \<open>Map\<close> and \<open>Set\<close> do.

  \<open>commit\<close> awaits the event log once, before it reads any of the store's fields; everything
  after that runs without interruption. It is therefore one step on the store. It returns the store
  together with the outcome, since a throw does not by itself undo earlier assignments.
\<close>

section \<open>State\<close>

record InMemoryProcessingStore =
  runs :: "jsstring \<rightharpoonup> RunRegistration"
  cursors :: "jsstring \<rightharpoonup> RunCursor"
  aggregates :: "jsstring \<rightharpoonup> (jsstring \<times> AggregateCheckpoint) list"
  outputs :: "StoredOutput list"
  dedupeKeys :: "jsstring \<rightharpoonup> jsstring"
  dispatchableJobs :: "jsstring list"
  dispatchableOutbox :: "jsstring list"

definition emptyStore :: InMemoryProcessingStore where
  "emptyStore = \<lparr>runs = Map.empty, cursors = Map.empty, aggregates = Map.empty, outputs = [],
     dedupeKeys = Map.empty, dispatchableJobs = [], dispatchableOutbox = []\<rparr>"

record OutputPage =
  pageOutputs :: "StoredOutput list"
  nextSequence :: jsstring
  moreOutputs :: bool

record AggregatePage =
  pageAggregates :: "AggregateCheckpoint list"
  nextAggregateId :: jsstring
  moreAggregates :: bool

record DispatchableCounts =
  jobCount :: nat
  outboxCount :: nat

definition mapGet :: "('a \<rightharpoonup> ('k \<times> 'v) list) \<Rightarrow> 'a \<Rightarrow> 'k \<Rightarrow> 'v option" where
  "mapGet m a k = (case m a of None \<Rightarrow> None | Some kvs \<Rightarrow> map_of kvs k)"


section \<open>Copies\<close>

definition registration_of :: "json \<Rightarrow> RunRegistration" where
  "registration_of v = \<lparr>manifest = manifest_of (getJson v ''manifest''), manifestHash = getStr v ''manifestHash'',
     behaviorHash = getStr v ''behaviorHash''\<rparr>"

definition copyRegistration :: "RunRegistration \<Rightarrow> RunRegistration result" where
  "copyRegistration r = bindR (cloneJson (registration_json r)) (\<lambda>c. Inr (registration_of c))"

definition copyCursor :: "RunCursor \<Rightarrow> RunCursor result" where
  "copyCursor k = bindR (cloneJson (cursor_json k)) (\<lambda>c. Inr (cursor_of c))"

definition copyAggregate :: "AggregateCheckpoint \<Rightarrow> AggregateCheckpoint result" where
  "copyAggregate a = bindR (cloneJson (aggregate_json a)) (\<lambda>c. Inr (aggregate_of c))"

definition copyOutput :: "ImmutableOutput \<Rightarrow> ImmutableOutput result" where
  "copyOutput q = bindR (cloneJson (output_json q)) (\<lambda>c. Inr (output_of c))"

definition copyStoredOutput :: "StoredOutput \<Rightarrow> StoredOutput result" where
  "copyStoredOutput q = bindR (cloneJson (stored_output_json q)) (\<lambda>c. Inr (stored_output_of c))"


section \<open>Registration and reads\<close>

definition ensureRun :: "externals \<Rightarrow> json \<Rightarrow> InMemoryProcessingStore \<Rightarrow> InMemoryProcessingStore result" where
  "ensureRun X value S =
     bindR (validateRunRegistration X value) (\<lambda>verified.
     case runs S (runId (manifest verified)) of
       Some existing \<Rightarrow>
         bindR (canonicalJson (registration_json existing)) (\<lambda>a.
         bindR (canonicalJson (registration_json verified)) (\<lambda>b.
         if a \<noteq> b then Inl (PlainError ''Run is already registered differently'') else Inr S))
     | None \<Rightarrow>
         bindR (copyRegistration verified) (\<lambda>copy.
         Inr (S\<lparr>runs := (runs S)(runId (manifest verified) \<mapsto> copy)\<rparr>)))"

definition loadCursor :: "externals \<Rightarrow> jsstring \<Rightarrow> InMemoryProcessingStore \<Rightarrow> RunCursor option result" where
  "loadCursor X run S =
     (case cursors S run of
        None \<Rightarrow> Inr None
      | Some stored \<Rightarrow>
          bindR (validateRunCursor X (cursor_json stored)) (\<lambda>cursor.
          bindR (computeRunCursorHash X cursor) (\<lambda>expected.
          if cursorHash cursor \<noteq> expected then Inl (PlainError ''Run cursor hash mismatch on audit read'')
          else bindR (copyCursor cursor) (\<lambda>c. Inr (Some c)))))"

definition verifyAggregate :: "externals \<Rightarrow> InMemoryProcessingStore \<Rightarrow> AggregateCheckpoint \<Rightarrow> unit result" where
  "verifyAggregate X S aggregate =
     bindR (validateCommittedAggregateCheckpoint X (aggregate_json aggregate)) (\<lambda>a.
     case runs S (aggRunId a) of
       None \<Rightarrow> Inl (PlainError ''Run is not registered'')
     | Some registration \<Rightarrow>
         bindR (canonicalHash X (stateDomain (reducerName (behavior (manifest registration)))
             (reducerVersion (behavior (manifest registration)))) (state a)) (\<lambda>expectedStateHash.
         if stateHash a \<noteq> expectedStateHash then Inl (PlainError ''Aggregate state hash mismatch'')
         else bindR (computeAggregateCheckpointHash X a) (\<lambda>expected.
         if checkpointHash a \<noteq> expected then Inl (PlainError ''Aggregate checkpoint hash mismatch'')
         else Inr ())))"

definition loadAggregate ::
  "externals \<Rightarrow> jsstring \<Rightarrow> jsstring \<Rightarrow> InMemoryProcessingStore \<Rightarrow> AggregateCheckpoint option result" where
  "loadAggregate X run aggId S =
     bindR (validateAggregateId X aggId) (\<lambda>_.
     case mapGet (aggregates S) run aggId of
       None \<Rightarrow> Inr None
     | Some stored \<Rightarrow>
         bindR (validateCommittedAggregateCheckpoint X (aggregate_json stored)) (\<lambda>aggregate.
         bindR (verifyAggregate X S aggregate) (\<lambda>_.
         bindR (copyAggregate aggregate) (\<lambda>c. Inr (Some c)))))"

definition assertReadLimit :: "jsnum \<Rightarrow> string \<Rightarrow> unit result" where
  "assertReadLimit limit msg =
     (case limit of NInt n \<Rightarrow> assertR (1 \<le> n \<and> n \<le> 10000) (RangeError msg) | _ \<Rightarrow> Inl (RangeError msg))"

definition auditOutput :: "externals \<Rightarrow> StoredOutput \<Rightarrow> StoredOutput result" where
  "auditOutput X output =
     bindR (validateStoredOutput X (stored_output_json output)) (\<lambda>validated.
     bindR (canonicalHash X (bodyDomain (category validated)) (body validated)) (\<lambda>expected.
     if bodyHash validated \<noteq> expected then Inl (PlainError ''Output body hash mismatch on audit read'')
     else copyStoredOutput validated))"

definition filterR :: "('a \<Rightarrow> bool result) \<Rightarrow> 'a list \<Rightarrow> 'a list result" where
  "filterR p xs = bindR (mapR (\<lambda>x. bindR (p x) (\<lambda>b. Inr (b, x))) xs) (\<lambda>ys. Inr (map snd (filter fst ys)))"

fun someR :: "('a \<Rightarrow> bool result) \<Rightarrow> 'a list \<Rightarrow> bool result" where
  "someR p [] = Inr False"
| "someR p (x # xs) = bindR (p x) (\<lambda>b. if b then Inr True else someR p xs)"

definition outputAfter :: "jsstring \<Rightarrow> int \<Rightarrow> StoredOutput \<Rightarrow> bool result" where
  "outputAfter run cursor output =
     (if outRunId output \<noteq> run then Inr False else bindR (bigInt (sequence output)) (\<lambda>n. Inr (cursor < n)))"

definition readOutputsAfter ::
  "externals \<Rightarrow> jsstring \<Rightarrow> jsstring \<Rightarrow> jsnum \<Rightarrow> InMemoryProcessingStore \<Rightarrow> OutputPage result" where
  "readOutputsAfter X run sequence' limit S =
     bindR (assertReadLimit limit ''Output page limit is invalid'') (\<lambda>_.
     bindR (bigInt sequence') (\<lambda>cursor.
     bindR (filterR (outputAfter run cursor) (outputs S)) (\<lambda>after.
     bindR (mapR (auditOutput X) (take (nat (numInt limit)) after)) (\<lambda>selected.
     let next = (if selected = [] then sequence' else sequence (last selected)) in
     bindR (bigInt next) (\<lambda>n.
     bindR (someR (outputAfter run n) (outputs S)) (\<lambda>more.
     Inr \<lparr>pageOutputs = selected, nextSequence = next, moreOutputs = more\<rparr>))))))"

definition auditAggregate :: "externals \<Rightarrow> InMemoryProcessingStore \<Rightarrow> AggregateCheckpoint \<Rightarrow> AggregateCheckpoint result" where
  "auditAggregate X S aggregate = bindR (verifyAggregate X S aggregate) (\<lambda>_. copyAggregate aggregate)"

definition readAggregatesAfter ::
  "externals \<Rightarrow> jsstring \<Rightarrow> jsstring \<Rightarrow> jsnum \<Rightarrow> InMemoryProcessingStore \<Rightarrow> AggregatePage result" where
  "readAggregatesAfter X run aggId limit S =
     bindR (assertReadLimit limit ''Aggregate page limit is invalid'') (\<lambda>_.
     bindR (if aggId \<noteq> [] then validateAggregateId X aggId else Inr []) (\<lambda>_.
     let values = sort_key aggregateId (filter (\<lambda>a. aggId < aggregateId a)
           (map snd (case aggregates S run of None \<Rightarrow> [] | Some m \<Rightarrow> m))) in
     bindR (mapR (auditAggregate X S) (take (nat (numInt limit)) values)) (\<lambda>selected.
     Inr \<lparr>pageAggregates = selected,
          nextAggregateId = (if selected = [] then aggId else aggregateId (last selected)),
          moreAggregates = (length values > length selected)\<rparr>)))"

definition dispatchableCounts :: "jsstring \<Rightarrow> InMemoryProcessingStore \<Rightarrow> DispatchableCounts" where
  "dispatchableCounts run S =
     (let outputsForRun = map outputId (filter (\<lambda>q. outRunId q = run) (outputs S)) in
      \<lparr>jobCount = length (filter (\<lambda>i. i \<in> set outputsForRun) (dispatchableJobs S)),
       outboxCount = length (filter (\<lambda>i. i \<in> set outputsForRun) (dispatchableOutbox S))\<rparr>)"


section \<open>Commit\<close>

record Pending =
  pendingOutputs :: "StoredOutput list"
  pendingDedupe :: "(jsstring \<times> jsstring) list"

definition emptyPending :: Pending where
  "emptyPending = \<lparr>pendingOutputs = [], pendingDedupe = []\<rparr>"

definition checkDedupe ::
  "externals \<Rightarrow> InMemoryProcessingStore \<Rightarrow> ImmutableOutput \<Rightarrow> Pending \<Rightarrow> Pending result" where
  "checkDedupe X S output pending =
     (case dedupeKey output of
        None \<Rightarrow> Inr pending
      | Some dk \<Rightarrow>
          if category output = DecisionOutput then Inl (PlainError ''Decision output cannot have a dedupe key'')
          else bindR (computeOutputDedupeIdentity X (outRunId output) (category output) dk) (\<lambda>key.
            let existing = (case dedupeKeys S key of Some i \<Rightarrow> Some i | None \<Rightarrow> map_of (pendingDedupe pending) key) in
            if existing \<noteq> None \<and> existing \<noteq> Some (outputId output)
            then Inl (PlainError ''Run-scoped output dedupe conflict'')
            else Inr (pending\<lparr>pendingDedupe := pendingDedupe pending @ [(key, outputId output)]\<rparr>)))"

definition pendOutput ::
  "externals \<Rightarrow> InMemoryProcessingStore \<Rightarrow> jsstring \<Rightarrow> ImmutableOutput \<Rightarrow> Pending \<Rightarrow> Pending result" where
  "pendOutput X S run output pending =
     (if outRunId output \<noteq> run then Inl (PlainError ''Output run ID mismatch'')
      else bindR (canonicalHash X (bodyDomain (category output)) (body output)) (\<lambda>expectedBodyHash.
      if bodyHash output \<noteq> expectedBodyHash then Inl (PlainError ''Output body hash mismatch'')
      else bindR (checkDedupe X S output pending) (\<lambda>pending'.
      bindR (copyOutput output) (\<lambda>copy.
      let stored = ImmutableOutput.extend copy
            (StoredOutput.fields (dec (length (outputs S) + length (pendingOutputs pending') + 1)))
      in Inr (pending'\<lparr>pendingOutputs := pendingOutputs pending' @ [stored]\<rparr>)))))"

record PreparedCommit =
  preparedValue :: ProcessingCommit
  preparedRun :: RunRegistration
  preparedPending :: Pending

definition checkPersistedEvent :: "externals \<Rightarrow> EventLogReader \<Rightarrow> ProcessingCommit \<Rightarrow> unit result" where
  "checkPersistedEvent X log value =
     bindR (getEvent log (position (commitEvent value))) (\<lambda>found.
     case found of
       None \<Rightarrow> Inl (PlainError ''Event is not the exact persisted event'')
     | Some storedEvent \<Rightarrow>
         bindR (validateStoredEvent X (stored_json storedEvent)) (\<lambda>persistedEvent.
         bindR (verifyStoredEvent X persistedEvent None) (\<lambda>_.
         if eventId persistedEvent \<noteq> eventId (commitEvent value) \<or> eventHash persistedEvent \<noteq> eventHash (commitEvent value)
         then Inl (PlainError ''Event is not the exact persisted event'')
         else bindR (canonicalJson (stored_json persistedEvent)) (\<lambda>a.
              bindR (canonicalJson (stored_json (commitEvent value))) (\<lambda>b.
              assertR (a = b) (PlainError ''Event is not the exact persisted event''))))))"

definition prepareCommit ::
  "externals \<Rightarrow> EventLogReader \<Rightarrow> json \<Rightarrow> InMemoryProcessingStore \<Rightarrow> PreparedCommit result" where
  "prepareCommit X log value S =
     bindR (validateProcessingCommit X value) (\<lambda>v.
     bindR (checkPersistedEvent X log v) (\<lambda>_.
     case runs S (cursorRunId (commitCursor v)) of
       None \<Rightarrow> Inl (PlainError ''Run is not registered'')
     | Some registration \<Rightarrow>
         bindR (case cursors S (cursorRunId (commitCursor v)) of
             Some k \<Rightarrow> Inr k | None \<Rightarrow> createGenesisRunCursor X registration) (\<lambda>previous.
         if processedPosition previous \<noteq> expectedPosition v then Inl (PlainError ''Cursor concurrency conflict'')
         else bindR (verifyProcessingTransition X (commit_json v) registration previous) (\<lambda>v.
         bindR (bigInt (case mapGet (aggregates S) (cursorRunId (commitCursor v)) (aggregateId (commitAggregate v)) of
             Some a \<Rightarrow> version a | None \<Rightarrow> js ''0'')) (\<lambda>priorVersion.
         if version (commitAggregate v) \<noteq> intString (priorVersion + 1)
         then Inl (PlainError ''Aggregate version concurrency conflict'')
         else bindR (foldR (pendOutput X S (cursorRunId (commitCursor v))) (commitOutputs v) emptyPending) (\<lambda>pending.
         Inr \<lparr>preparedValue = v, preparedRun = registration, preparedPending = pending\<rparr>))))))"

definition dispatch :: "RunRegistration \<Rightarrow> ImmutableOutput list \<Rightarrow> InMemoryProcessingStore \<Rightarrow> InMemoryProcessingStore" where
  "dispatch registration outs S =
     (if effectsAllowed (manifest registration)
      then S\<lparr>dispatchableJobs := fold (\<lambda>q. if category q = JobOutput then setAdd (outputId q) else id) outs (dispatchableJobs S),
             dispatchableOutbox := fold (\<lambda>q. if category q = OutboxOutput then setAdd (outputId q) else id) outs (dispatchableOutbox S)\<rparr>
      else S)"

definition applyCommit :: "PreparedCommit \<Rightarrow> InMemoryProcessingStore \<Rightarrow> InMemoryProcessingStore \<times> unit result" where
  "applyCommit p S =
     (let v = preparedValue p; run = cursorRunId (commitCursor v);
          runAggregates = (case aggregates S run of None \<Rightarrow> [] | Some m \<Rightarrow> m)
      in case copyAggregate (commitAggregate v) of
           Inl e \<Rightarrow> (S, Inl e)
         | Inr agg \<Rightarrow>
             let S1 = S\<lparr>aggregates := (aggregates S)(run \<mapsto> mapSet (aggregateId (commitAggregate v)) agg runAggregates)\<rparr>;
                 S2 = S1\<lparr>outputs := outputs S1 @ pendingOutputs (preparedPending p)\<rparr>;
                 S3 = S2\<lparr>dedupeKeys := fold (\<lambda>(key, i) m. m(key \<mapsto> i)) (pendingDedupe (preparedPending p)) (dedupeKeys S2)\<rparr>;
                 S4 = dispatch (preparedRun p) (commitOutputs v) S3
             in case copyCursor (commitCursor v) of
                  Inl e \<Rightarrow> (S4, Inl e)
                | Inr k \<Rightarrow> (S4\<lparr>cursors := (cursors S4)(run \<mapsto> k)\<rparr>, Inr ()))"

definition commit ::
  "externals \<Rightarrow> EventLogReader \<Rightarrow> json \<Rightarrow> InMemoryProcessingStore \<Rightarrow> InMemoryProcessingStore \<times> unit result" where
  "commit X log value S = (case prepareCommit X log value S of Inl e \<Rightarrow> (S, Inl e) | Inr p \<Rightarrow> applyCommit p S)"

end
