(* ===== verification/StoreRefinement.thy ===== *)
theory StoreRefinement
  imports StoreLaws
begin

text \<open>
  Commits on the store against the specification \<open>represents\<close>: a commit that succeeds appends
  one sound commit to the history of one run, a commit that throws leaves the store as it was, and
  registration never touches a history. \<open>reachable\<close> is the closure of the store's operations;
  by rule induction every reachable store represents some history.
\<close>

section \<open>The store after a commit\<close>

definition committed :: "externals \<Rightarrow> RunRegistration \<Rightarrow> ProcessingCommit \<Rightarrow> InMemoryProcessingStore \<Rightarrow> InMemoryProcessingStore" where
  "committed X r c S =
     (let run = cursorRunId (commitCursor c); pending = pendingOf X (length (outputs S)) (commitOutputs c) in
      (dispatch r (commitOutputs c)
        (S\<lparr>aggregates := (aggregates S)(run \<mapsto> mapSet (aggregateId (commitAggregate c)) (commitAggregate c)
              (case aggregates S run of None \<Rightarrow> [] | Some m \<Rightarrow> m)),
           outputs := outputs S @ pendingOutputs pending,
           dedupeKeys := fold (\<lambda>(key, i) m. m(key \<mapsto> i)) (pendingDedupe pending) (dedupeKeys S)\<rparr>))
      \<lparr>cursors := (cursors S)(run \<mapsto> commitCursor c)\<rparr>)"

definition accepts ::
  "externals \<Rightarrow> EventLogReader \<Rightarrow> json \<Rightarrow> InMemoryProcessingStore \<Rightarrow> RunRegistration \<Rightarrow> ProcessingCommit \<Rightarrow> bool" where
  "accepts X log v S r c \<longleftrightarrow> validateProcessingCommit X v = Inr c \<and> persisted X log (commitEvent c) \<and>
     runs S (cursorRunId (commitCursor c)) = Some r \<and> commitSound X r c \<and>
     cursorSound X r (previousOf X S r) \<and> follows X (previousOf X S r) c \<and>
     nextVersion S (cursorRunId (commitCursor c)) (aggregateId (commitAggregate c)) = Inr (version (commitAggregate c)) \<and>
     noConflict X S (commitOutputs c)"

lemma dispatch_fields [simp]:
  "runs (dispatch r qs S) = runs S" "cursors (dispatch r qs S) = cursors S" "aggregates (dispatch r qs S) = aggregates S"
  "outputs (dispatch r qs S) = outputs S" "dedupeKeys (dispatch r qs S) = dedupeKeys S"
  by (simp_all add: dispatch_def)

context node_env
begin

lemma applyCommit_prepared:
  assumes "wf_commit X c" "canonC c = c"
  shows "applyCommit \<lparr>preparedValue = c, preparedRun = r, preparedPending = pendingOf X (length (outputs S)) (commitOutputs c)\<rparr> S =
    (committed X r c S, Inr ())"
proof -
  have a: "canonA (commitAggregate c) = commitAggregate c" using assms(2) by (metis canonC_fields(4))
  then show ?thesis
    using wf_commit_facts(4,5) [OF assms(1)] by (simp add: applyCommit_def committed_def Let_def)
qed

lemma commit_Inr:
  "commit X log v S = (S', Inr ()) \<longleftrightarrow> (\<exists>c r. accepts X log v S r c \<and> S' = committed X r c S)" (is "?l = ?r")
proof
  assume ?l
  then obtain p where p: "prepareCommit X log v S = Inr p" "applyCommit p S = (S', Inr ())"
    by (auto simp: commit_def split: sum.splits)
  from p(1) obtain c r where c: "accepts X log v S r c"
      "p = \<lparr>preparedValue = c, preparedRun = r, preparedPending = pendingOf X (length (outputs S)) (commitOutputs c)\<rparr>"
    by (auto simp: prepareCommit_Inr accepts_def)
  then have "wf_commit X c" "canonC c = c" using validateProcessingCommit_wf [of v c] by (simp_all add: accepts_def)
  from p(2) c applyCommit_prepared [OF this] show ?r by auto
next
  assume ?r
  then obtain c r where c: "accepts X log v S r c" "S' = committed X r c S" by blast
  then have w: "wf_commit X c" "canonC c = c" using validateProcessingCommit_wf [of v c] by (simp_all add: accepts_def)
  have "prepareCommit X log v S = Inr
      \<lparr>preparedValue = c, preparedRun = r, preparedPending = pendingOf X (length (outputs S)) (commitOutputs c)\<rparr>"
    using c(1) by (simp add: prepareCommit_Inr accepts_def)
  then show ?l using applyCommit_prepared [OF w] c(2) by (simp add: commit_def)
qed

lemma commit_atomic: "commit X log v S = (S', Inl e) \<Longrightarrow> S' = S"
proof (cases "prepareCommit X log v S")
  case (Inr p)
  then obtain c r where c: "validateProcessingCommit X v = Inr c"
      "p = \<lparr>preparedValue = c, preparedRun = r, preparedPending = pendingOf X (length (outputs S)) (commitOutputs c)\<rparr>"
    by (auto simp: prepareCommit_Inr)
  note w = validateProcessingCommit_wf [OF c(1)]
  assume "commit X log v S = (S', Inl e)"
  with Inr c(2) applyCommit_prepared [OF w(1,2)] show ?thesis by (simp add: commit_def)
qed (simp add: commit_def)

end


section \<open>Refinement of histories\<close>

lemma truncate_extend [simp]: "ImmutableOutput.truncate (ImmutableOutput.extend q m) = (q :: ImmutableOutput)"
  by (cases q) (simp add: ImmutableOutput.defs)

lemma pending_truncate: "map ImmutableOutput.truncate (pendingOutputs (pendingOf X n qs)) = map canonO qs"
  by (rule nth_equalityI) (simp_all add: pendingOf_def)

lemma truncate_fields [simp]:
  "outputId (ImmutableOutput.truncate q) = outputId q" "outRunId (ImmutableOutput.truncate q) = outRunId q"
  "category (ImmutableOutput.truncate q) = category q" "dedupeKey (ImmutableOutput.truncate q) = dedupeKey q"
  "body (ImmutableOutput.truncate q) = body q" "bodyHash (ImmutableOutput.truncate q) = bodyHash q"
  "dedupeOf X (ImmutableOutput.truncate q) = dedupeOf X q"
  by (simp_all add: ImmutableOutput.defs dedupeOf_def)

lemma pending_members:
  assumes "map canonO qs = qs"
  shows "(\<exists>q\<in>set (pendingOutputs (pendingOf X n qs)). P (ImmutableOutput.truncate q)) \<longleftrightarrow> (\<exists>q\<in>set qs. P q)"
    "q \<in> set (pendingOutputs (pendingOf X n qs)) \<Longrightarrow> ImmutableOutput.truncate q \<in> set qs"
proof -
  have t: "ImmutableOutput.truncate ` set (pendingOutputs (pendingOf X n qs)) = set qs"
    using pending_truncate [of X n qs] assms by (metis list.set_map)
  then show "(\<exists>q\<in>set (pendingOutputs (pendingOf X n qs)). P (ImmutableOutput.truncate q)) \<longleftrightarrow> (\<exists>q\<in>set qs. P q)"
    unfolding t [symmetric] by simp
  show "q \<in> set (pendingOutputs (pendingOf X n qs)) \<Longrightarrow> ImmutableOutput.truncate q \<in> set qs" using t by blast
qed

lemma pending_sequence: "map sequence (pendingOutputs (pendingOf X n qs)) = map (\<lambda>i. dec (i + 1)) [n..<n + length qs]"
  by (rule nth_equalityI) (simp_all add: pendingOf_def)

lemma sequenced_append:
  "sequenced qs \<Longrightarrow> sequenced (qs @ pendingOutputs (pendingOf X (length qs) outs))"
  by (simp add: sequenced_def pending_sequence pendingOf_keys(2) upt_add_eq_append [of 0 "length qs" "length outs", simplified])

lemma fold_upd:
  assumes "distinct (map fst xs)"
  shows "fold (\<lambda>(k, i) m. m(k \<mapsto> i)) xs m k = Some i \<longleftrightarrow> (k, i) \<in> set xs \<or> (k \<notin> fst ` set xs \<and> m k = Some i)"
  using assms
proof (induction xs arbitrary: m)
  case (Cons x xs)
  then show ?case by (cases x) (auto simp: image_iff)
qed simp

lemma represents_facts:
  assumes "represents X S h"
  shows "runsOk X S" "h run \<noteq> [] \<Longrightarrow> runs S run \<noteq> None"
    "runs S run = Some r \<Longrightarrow> chained X r (genesisOf X r) (h run) \<and> versioned (h run)"
    "cursors S run = (if h run = [] then None else Some (commitCursor (last (h run))))"
    "mapGet (aggregates S) run i = lastAggregate i (h run)"
    "aggregates S run = Some m \<Longrightarrow> distinct (map fst m)"
    "map ImmutableOutput.truncate (filter (\<lambda>q. outRunId q = run) (outputs S)) = concat (map commitOutputs (h run))"
    "sequenced (outputs S)" "dedupeOk X S" "dispatchOk S"
  using assms unfolding represents_def by blast+

lemma runsOk_run: "runsOk X S \<Longrightarrow> runs S run = Some r \<Longrightarrow>
    r = registrationOf X (manifest r) \<and> wf_manifest (manifest r) \<and> runId (manifest r) = run"
  by (simp add: runsOk_def)

lemma previousOf_history:
  assumes "represents X S h" "runs S run = Some r"
  shows "previousOf X S r = endCursor (genesisOf X r) (h run)"
  using runsOk_run [OF represents_facts(1) [OF assms(1)] assms(2)] represents_facts(4) [OF assms(1), of run]
  by (simp add: previousOf_def endCursor_def)

lemma nextVersion_history:
  assumes "represents X S h" "runs S run = Some r"
  shows "nextVersion S run i = Inr (dec (versionCount i (h run) + 1))"
proof -
  have "versioned (h run)" using represents_facts(3) [OF assms] by blast
  note v = lastAggregate_version [OF this, of i]
  show ?thesis unfolding nextVersion_def represents_facts(5) [OF assms(1)] v
    by (simp add: intString_def nat_add_distrib)
qed

text \<open>The effect of a commit on each part of the store.\<close>

lemma committed_fields:
  "runs (committed X r c S) = runs S"
  "cursors (committed X r c S) = (cursors S)(cursorRunId (commitCursor c) \<mapsto> commitCursor c)"
  "outputs (committed X r c S) = outputs S @ pendingOutputs (pendingOf X (length (outputs S)) (commitOutputs c))"
  "dedupeKeys (committed X r c S) =
     fold (\<lambda>(key, i) m. m(key \<mapsto> i)) (pendingDedupe (pendingOf X (length (outputs S)) (commitOutputs c))) (dedupeKeys S)"
  "mapGet (aggregates (committed X r c S)) run i =
     (if run = cursorRunId (commitCursor c) \<and> i = aggregateId (commitAggregate c) then Some (commitAggregate c)
      else mapGet (aggregates S) run i)"
  by (auto simp: committed_def Let_def mapGet_def map_of_mapSet split: option.splits)

lemma committed_distinct:
  assumes "\<And>run m. aggregates S run = Some m \<Longrightarrow> distinct (map fst m)" "aggregates (committed X r c S) run = Some m"
  shows "distinct (map fst m)"
  using assms by (auto simp: committed_def Let_def intro!: distinct_mapSet split: if_splits option.splits)

lemma committed_dispatch:
  "set (dispatchableJobs (committed X r c S)) = set (dispatchableJobs S) \<union>
     (if effectsAllowed (manifest r) then {outputId q | q. q \<in> set (commitOutputs c) \<and> category q = JobOutput} else {})"
  "set (dispatchableOutbox (committed X r c S)) = set (dispatchableOutbox S) \<union>
     (if effectsAllowed (manifest r) then {outputId q | q. q \<in> set (commitOutputs c) \<and> category q = OutboxOutput} else {})"
  "distinct (dispatchableJobs S) \<Longrightarrow> distinct (dispatchableJobs (committed X r c S))"
  "distinct (dispatchableOutbox S) \<Longrightarrow> distinct (dispatchableOutbox (committed X r c S))"
  by (auto simp: committed_def Let_def dispatch_def fold_setAdd)

lemma dedupeOk_committed:
  assumes "dedupeOk X S" "noConflict X S (commitOutputs c)" "map canonO (commitOutputs c) = commitOutputs c"
    "distinct (dedupes X (commitOutputs c))"
  shows "dedupeOk X (committed X r c S)"
  unfolding dedupeOk_def
proof (intro allI)
  fix k i
  let ?p = "pendingOf X (length (outputs S)) (commitOutputs c)"
  have d: "distinct (map fst (pendingDedupe ?p))" using assms(4) by (simp add: pendingOf_keys)
  have new: "(k, i) \<in> set (pendingDedupe ?p) \<longleftrightarrow>
      (\<exists>q\<in>set (commitOutputs c). category q \<noteq> DecisionOutput \<and> dedupeOf X q = k \<and> outputId q = i)" for k i
    by (auto simp: pendingOf_def)
  have keys: "k \<in> fst ` set (pendingDedupe ?p) \<longleftrightarrow> (\<exists>i. (k, i) \<in> set (pendingDedupe ?p))" by force
  have old: "dedupeKeys S k = Some i \<Longrightarrow> (k, j) \<in> set (pendingDedupe ?p) \<Longrightarrow> j = i" for j
    using assms(2) unfolding new noConflict_def by fastforce
  have outs: "(\<exists>q\<in>set (outputs (committed X r c S)). category q \<noteq> DecisionOutput \<and> dedupeOf X q = k \<and> outputId q = i) \<longleftrightarrow>
      dedupeKeys S k = Some i \<or> (k, i) \<in> set (pendingDedupe ?p)"
    using assms(1) pending_members(1) [OF assms(3), of X "length (outputs S)"
        "\<lambda>q. category q \<noteq> DecisionOutput \<and> dedupeOf X q = k \<and> outputId q = i"]
    unfolding committed_fields set_append bex_Un new dedupeOk_def by simp
  show "dedupeKeys (committed X r c S) k = Some i \<longleftrightarrow>
      (\<exists>q\<in>set (outputs (committed X r c S)). category q \<noteq> DecisionOutput \<and> dedupeOf X q = k \<and> outputId q = i)"
    unfolding outs unfolding committed_fields(4) fold_upd [OF d] keys using old by blast
qed

lemma dispatchOk_committed:
  assumes "dispatchOk S" "runs S (cursorRunId (commitCursor c)) = Some r" "map canonO (commitOutputs c) = commitOutputs c"
    "\<And>q. q \<in> set (commitOutputs c) \<Longrightarrow> outRunId q = cursorRunId (commitCursor c)"
  shows "dispatchOk (committed X r c S)"
proof -
  let ?new = "pendingOutputs (pendingOf X (length (outputs S)) (commitOutputs c))"
  have live: "liveRun (committed X r c S) run = liveRun S run" for run by (simp add: liveRun_def committed_fields)
  have e: "effectsAllowed (manifest r) \<longleftrightarrow> liveRun S (cursorRunId (commitCursor c))" by (simp add: liveRun_def assms(2))
  have m: "{outputId q | q. q \<in> set (outputs (committed X r c S)) \<and> category q = cat \<and> liveRun S (outRunId q)} =
      {outputId q | q. q \<in> set (outputs S) \<and> category q = cat \<and> liveRun S (outRunId q)} \<union>
      (if effectsAllowed (manifest r) then {outputId q | q. q \<in> set (commitOutputs c) \<and> category q = cat} else {})" for cat
  proof -
    have "(\<exists>q\<in>set ?new. category q = cat \<and> liveRun S (outRunId q) \<and> outputId q = i) \<longleftrightarrow>
        (\<exists>q\<in>set (commitOutputs c). category q = cat \<and> liveRun S (outRunId q) \<and> outputId q = i)" for i
      using pending_members(1) [OF assms(3), of X "length (outputs S)"
          "\<lambda>q. category q = cat \<and> liveRun S (outRunId q) \<and> outputId q = i"] by simp
    then have n: "{outputId q | q. q \<in> set ?new \<and> category q = cat \<and> liveRun S (outRunId q)} =
        {outputId q | q. q \<in> set (commitOutputs c) \<and> category q = cat \<and> liveRun S (outRunId q)}"
      unfolding set_eq_iff mem_Collect_eq Bex_def by metis
    have "{outputId q | q. q \<in> set (outputs (committed X r c S)) \<and> category q = cat \<and> liveRun S (outRunId q)} =
        {outputId q | q. q \<in> set (outputs S) \<and> category q = cat \<and> liveRun S (outRunId q)} \<union>
        {outputId q | q. q \<in> set ?new \<and> category q = cat \<and> liveRun S (outRunId q)}"
      unfolding committed_fields by auto
    then show ?thesis unfolding n e using assms(4) by auto
  qed
  show ?thesis
    using assms(1) unfolding dispatchOk_def live committed_dispatch(1,2) m by (simp add: committed_dispatch(3,4))
qed

context node_env
begin

lemma commit_refines:
  assumes rep: "represents X S h" and acc: "accepts X log v S r c"
  shows "represents X (committed X r c S) (h(cursorRunId (commitCursor c) := h (cursorRunId (commitCursor c)) @ [c]))"
proof -
  let ?run = "cursorRunId (commitCursor c)" and ?S = "committed X r c S"
  note f = represents_facts [OF rep] and a = acc [unfolded accepts_def]
  have r: "runs S ?run = Some r" "commitSound X r c" "noConflict X S (commitOutputs c)" using a by blast+
  have w: "wf_commit X c" "canonC c = c" using a validateProcessingCommit_wf [of v c] by blast+
  have can: "map canonO (commitOutputs c) = commitOutputs c" using w(2) by (metis canonC_fields(5))
  have cm: "list_all (committable X ?run) (commitOutputs c)" "distinct (dedupes X (commitOutputs c))"
    using sound_committable [OF w(1) r(2)] by blast+
  have run: "outRunId q = ?run" if "q \<in> set (commitOutputs c)" for q
    using cm(1) that by (simp add: list_all_iff committable_def)
  have run': "outRunId q = ?run" if "q \<in> set (pendingOutputs (pendingOf X n (commitOutputs c)))" for q n
    using run [OF pending_members(2) [OF can that]] by simp
  have outs: "map ImmutableOutput.truncate (filter (\<lambda>q. outRunId q = run) (outputs ?S)) =
      concat (map commitOutputs ((h(?run := h ?run @ [c])) run))" for run
  proof (cases "run = ?run")
    case True
    then show ?thesis using f(7) [of run] run' pending_truncate [of X "length (outputs S)" "commitOutputs c"] can
      by (simp add: committed_fields)
  next
    case False
    then have "filter (\<lambda>q. outRunId q = run) (pendingOutputs (pendingOf X (length (outputs S)) (commitOutputs c))) = []"
      using run' by (auto simp: filter_empty_conv)
    with False show ?thesis using f(7) [of run] by (simp add: committed_fields)
  qed
  have chain: "chained X r (genesisOf X r) (h ?run @ [c]) \<and> versioned (h ?run @ [c])"
    using f(3) [OF r(1)] w r(2) a previousOf_history [OF rep r(1)] nextVersion_history [OF rep r(1)]
    by (simp add: chained_snoc versioned_snoc)
  show ?thesis
    unfolding represents_def
  proof (intro conjI allI impI)
    show "runsOk X ?S" using f(1) by (simp add: runsOk_def committed_fields)
    show "runs ?S run \<noteq> None" if "(h(?run := h ?run @ [c])) run \<noteq> []" for run
      using that f(2) [of run] r(1) by (auto simp: committed_fields split: if_splits)
    show "chained X r' (genesisOf X r') ((h(?run := h ?run @ [c])) run)" "versioned ((h(?run := h ?run @ [c])) run)"
      if "runs ?S run = Some r'" for run r'
      using that f(3) [of run r'] chain r(1) by (auto simp: committed_fields)
    show "cursors ?S run = (if (h(?run := h ?run @ [c])) run = [] then None
        else Some (commitCursor (last ((h(?run := h ?run @ [c])) run))))" for run
      using f(4) [of run] by (simp add: committed_fields)
    show "mapGet (aggregates ?S) run i = lastAggregate i ((h(?run := h ?run @ [c])) run)" for run i
      using f(5) [of run i] by (simp add: committed_fields lastAggregate_snoc)
    show "distinct (map fst m)" if "aggregates ?S run = Some m" for run m
      using f(6) that by (rule committed_distinct)
    show "sequenced (outputs ?S)" using f(8) by (simp add: committed_fields sequenced_append)
    show "dedupeOk X ?S" using f(9) r(3) can cm(2) by (rule dedupeOk_committed)
    show "dispatchOk ?S" using f(10) r(1) can run by (rule dispatchOk_committed)
  qed (rule outs)
qed

lemma registered_valid: "wf_manifest m \<Longrightarrow> valid_json (registration_json (registrationOf X m))"
  by (rule within_limits_valid, rule registration_within_limits) (simp_all add: registrationOf_def)

lemma registration_json_inj: "wf_manifest m \<Longrightarrow> wf_manifest n \<Longrightarrow>
    canon (registration_json (registrationOf X m)) = canon (registration_json (registrationOf X n)) \<longleftrightarrow> m = n"
proof -
  assume w: "wf_manifest m" "wf_manifest n"
  have v: "registration_of (norm (registration_json (registrationOf X k))) = registrationOf X k" if "wf_manifest k" for k
    using that registered_valid [OF that]
    by (subst registration_of_norm) (auto simp: wf_manifest_def registrationOf_def dest: within_limits_valid)
  have i: "registrationOf X m = registrationOf X n \<longleftrightarrow> m = n" by (auto simp: registrationOf_def)
  show ?thesis using v [OF w(1)] v [OF w(2)] registered_valid [OF w(1)] registered_valid [OF w(2)]
    by (metis canon_inj i)
qed

text \<open>Registering a run the store does not know adds it; a known run has to be registered alike.\<close>

lemma validated_registration:
  "validateRunRegistration X v = Inr r \<Longrightarrow>
     wf_manifest (manifest r) \<and> r = registrationOf X (manifest r) \<and> protoSafe X PROCESSOR_SCHEMA_FIELDS"
  by (auto simp: validateRunRegistration_def bindR_eq_Inr split: if_splits dest: derived_manifest)

lemma ensureRun_eq:
  assumes "runsOk X S" "validateRunRegistration X v = Inr r"
  shows "ensureRun X v S =
    (case runs S (runId (manifest r)) of
       None \<Rightarrow> Inr (S\<lparr>runs := (runs S)(runId (manifest r) \<mapsto> r)\<rparr>)
     | Some q \<Rightarrow> if q = r then Inr S else Inl (PlainError ''Run is already registered differently''))"
proof -
  from validated_registration [OF assms(2)] have r: "wf_manifest (manifest r)" "r = registrationOf X (manifest r)" by blast+
  have vr: "valid_json (registration_json r)" using registered_valid [OF r(1)] r(2) by metis
  have "valid_json (manifest_json (manifest r))" "canonM (manifest r) = manifest r"
    using r(1) by (auto simp: wf_manifest_def dest: within_limits_valid)
  then have c: "copyRegistration r = Inr r" using vr by (simp add: copyRegistration_def registration_of_norm)
  show ?thesis
  proof (cases "runs S (runId (manifest r))")
    case None
    then show ?thesis by (simp add: ensureRun_def assms(2) c)
  next
    case (Some q)
    note k = runsOk_run [OF assms(1) Some]
    then have "canon (registration_json q) = canon (registration_json r) \<longleftrightarrow> q = r" "valid_json (registration_json q)"
      using registration_json_inj [of "manifest q" "manifest r"] r registered_valid [of "manifest q"] by (metis, metis)
    then show ?thesis using Some vr by (simp add: ensureRun_def assms(2))
  qed
qed

lemma ensureRun_refines:
  assumes rep: "represents X S h" and e: "ensureRun X v S = Inr S'"
  shows "represents X S' h"
proof -
  note f = represents_facts [OF rep]
  from e obtain r where r: "validateRunRegistration X v = Inr r" by (auto simp: ensureRun_def bindR_eq_Inr)
  note m = validated_registration [OF r] and eq = ensureRun_eq [OF f(1) r]
  show ?thesis
  proof (cases "runs S (runId (manifest r))")
    case (Some q)
    with eq e rep show ?thesis by (auto split: if_splits)
  next
    case None
    let ?run = "runId (manifest r)"
    from None eq e have S': "S' = S\<lparr>runs := (runs S)(?run \<mapsto> r)\<rparr>" by simp
    have h: "h ?run = []" using f(2) [of ?run] None by blast
    then have none: "filter (\<lambda>q. outRunId q = ?run) (outputs S) = []" using f(7) [of ?run] by simp
    have live: "liveRun S' (outRunId q) = liveRun S (outRunId q)" if "q \<in> set (outputs S)" for q
    proof -
      have "outRunId q \<noteq> ?run" using none that by (auto simp: filter_empty_conv)
      then show ?thesis by (simp add: liveRun_def S')
    qed
    have "{outputId q | q. q \<in> set (outputs S) \<and> category q = cat \<and> liveRun S' (outRunId q)} =
        {outputId q | q. q \<in> set (outputs S) \<and> category q = cat \<and> liveRun S (outRunId q)}" for cat
      using live by blast
    then have "dispatchOk S'" using f(10) by (simp add: dispatchOk_def S')
    moreover have "runsOk X S'" using f(1) m by (auto simp: runsOk_def S')
    moreover have "dedupeOk X S'" using f(9) by (simp add: dedupeOk_def S')
    moreover have "chained X q (genesisOf X q) (h run) \<and> versioned (h run)" if "runs S' run = Some q" for run q
      using that f(3) [of run q] h by (auto simp: S' versioned_def split: if_splits)
    moreover have "runs S' run \<noteq> None" if "h run \<noteq> []" for run using that f(2) [of run] by (simp add: S')
    ultimately show ?thesis
      unfolding represents_def using f(4-8) by (simp add: S')
  qed
qed

end

end
