(* ===== verification/Deployment.thy ===== *)
theory Deployment
  imports StoreRefinement
begin

text \<open>
  The event log and the processing store together, as a state machine whose steps are the
  operations that change either of them, in any order and with any arguments. By rule induction:
  in every reachable state the log is well-formed, the store represents a history for every run,
  and each run has committed exactly a prefix of the log.
\<close>

section \<open>What a history implies\<close>

lemma chained_positions:
  assumes "chained X r p cs" "processedPosition p = dec n"
  shows "map (\<lambda>c. position (commitEvent c)) cs = map (\<lambda>i. dec (n + i + 1)) [0..<length cs]"
    "processedPosition (endCursor p cs) = dec (n + length cs)"
proof -
  have "map (\<lambda>c. position (commitEvent c)) cs = map (\<lambda>i. dec (n + i + 1)) [0..<length cs] \<and>
      processedPosition (endCursor p cs) = dec (n + length cs)"
    using assms
  proof (induction cs rule: rev_induct)
    case (snoc c cs)
    then have c: "chained X r p cs" "commitSound X r c" "follows X (endCursor p cs) c" "wf_commit X c"
      by (simp_all add: chained_snoc)
    with snoc have IH: "map (\<lambda>c. position (commitEvent c)) cs = map (\<lambda>i. dec (n + i + 1)) [0..<length cs]"
      "processedPosition (endCursor p cs) = dec (n + length cs)" by simp_all
    have "position (commitEvent c) = dec (parse_nat (position (commitEvent c)))"
      using wf_commit_facts(7) [OF c(4)] by (simp add: dec_parse positive_nonnegative)
    also have "\<dots> = dec (n + length cs + 1)" using c(3) IH(2) by (simp add: follows_def)
    finally have pos: "position (commitEvent c) = dec (n + length cs + 1)" .
    have "processedPosition (commitCursor c) = position (commitEvent c)" using c(2) by (simp add: commitSound_def Let_def)
    with pos IH show ?case by simp
  qed simp
  then show "map (\<lambda>c. position (commitEvent c)) cs = map (\<lambda>i. dec (n + i + 1)) [0..<length cs]"
    "processedPosition (endCursor p cs) = dec (n + length cs)" by blast+
qed

lemma chained_linked: "chained X r p cs \<Longrightarrow> linked (lastEventHash p) (map commitEvent cs) \<and>
    lastEventHash (endCursor p cs) = endHash (lastEventHash p) (map commitEvent cs)"
proof (induction cs rule: rev_induct)
  case (snoc c cs)
  then show ?case by (simp add: chained_snoc linked_append follows_def commitSound_def Let_def)
qed simp

lemma chained_logical: "chained X r p cs \<Longrightarrow> sorted (map (\<lambda>c. logicalAtMs (commitEvent c)) cs) \<and>
    cursorLogicalAtMs (endCursor p cs) = (if cs = [] then cursorLogicalAtMs p else logicalAtMs (commitEvent (last cs)))"
proof (induction cs rule: rev_induct)
  case (snoc c cs)
  then have c: "chained X r p cs" "commitSound X r c" "follows X (endCursor p cs) c" by (simp_all add: chained_snoc)
  with snoc have "sorted (map (\<lambda>c. logicalAtMs (commitEvent c)) cs)"
    "cs = [] \<or> logicalAtMs (commitEvent (last cs)) \<le> logicalAtMs (commitEvent c)" by (auto simp: follows_def split: if_splits)
  then have "sorted (map (\<lambda>c. logicalAtMs (commitEvent c)) (cs @ [c]))" unfolding sorted_snoc_last by simp
  with c(2) show ?case by (simp add: commitSound_def Let_def)
qed simp

lemma chained_canonical: "chained X r p cs \<Longrightarrow> c \<in> set cs \<Longrightarrow> canonE (commitEvent c) = commitEvent c \<and> wf_stored (commitEvent c)"
  using chained_run [of X r p cs c] wf_commit_facts(1) by (metis canonC_fields(2))


section \<open>The state machine\<close>

inductive reachable :: "externals \<Rightarrow> InMemoryEventLog \<Rightarrow> InMemoryProcessingStore \<Rightarrow> bool" for X where
  init: "reachable X emptyLog emptyStore"
| append: "reachable X L S \<Longrightarrow> append X now v L = Inr (L', res) \<Longrightarrow> reachable X L' S"
| register: "reachable X L S \<Longrightarrow> ensureRun X v S = Inr S' \<Longrightarrow> reachable X L S'"
| commit: "reachable X L S \<Longrightarrow> commit X (memoryReader L) v S = (S', res) \<Longrightarrow> reachable X L S'"

definition prefixes :: "InMemoryEventLog \<Rightarrow> (jsstring \<Rightarrow> ProcessingCommit list) \<Rightarrow> bool" where
  "prefixes L h \<longleftrightarrow> (\<forall>run. length (h run) \<le> length (logEvents L) \<and>
     map commitEvent (h run) = take (length (h run)) (logEvents L))"

text \<open>The invariant of a deployment.\<close>

definition deployed :: "externals \<Rightarrow> InMemoryEventLog \<Rightarrow> InMemoryProcessingStore \<Rightarrow> bool" where
  "deployed X L S \<longleftrightarrow> wf_log X L \<and> (\<exists>h. represents X S h \<and> prefixes L h)"

context node_env
begin

lemma append_extends:
  assumes "wf_log X L" "append X now v L = Inr (L', res)"
  shows "\<exists>es. logEvents L' = logEvents L @ es"
proof -
  from assms(2) obtain d where v: "validateEventDraft X v = Inr d" by (auto simp: append_def result_simps)
  show ?thesis
  proof (cases "providerEvents L (keyOf X (eventProvider d))")
    case (Some e)
    with append_redelivery [OF assms(1) v Some, of now] assms(2) show ?thesis by (auto split: if_splits)
  next
    case None
    have "isEpochMs now" using assms(2) v None valid_identity
      by (auto simp: append_def bindR_eq_Inr providerKey_Inr captureEvent_def assertTrustedTime_def)
    then obtain e where "append X now v L = Inr (pushEvent X e L, \<lparr>resultEvent = e, resultDisposition = Appended\<rparr>)"
      by (rule append_fresh [OF assms(1) v None])
    with assms(2) show ?thesis by (auto simp: pushEvent_def)
  qed
qed

lemma deployed_commit:
  assumes wf: "wf_log X L" and rep: "represents X S h" "prefixes L h" and acc: "accepts X (memoryReader L) v S r c"
  shows "prefixes L (h(cursorRunId (commitCursor c) := h (cursorRunId (commitCursor c)) @ [c]))"
proof -
  let ?run = "cursorRunId (commitCursor c)" and ?es = "logEvents L"
  let ?n = "length (h ?run)"
  note a = acc [unfolded accepts_def]
  then have r: "runs S ?run = Some r" by blast
  have rep': "represents X (committed X r c S) (h(?run := h ?run @ [c]))" by (rule commit_refines [OF rep(1) acc])
  have "runs (committed X r c S) ?run = Some r" using r by (simp add: committed_fields)
  from represents_facts(3) [OF rep' this] have ch: "chained X r (genesisOf X r) (h ?run @ [c])" by simp
  have "map (\<lambda>c. position (commitEvent c)) (h ?run @ [c]) = map (\<lambda>i. dec (0 + i + 1)) [0..<length (h ?run @ [c])]"
    by (rule chained_positions(1) [OF ch]) (simp add: dec_0)
  then have pos: "position (commitEvent c) = dec (?n + 1)" by simp
  from a obtain e where e: "getEvent (memoryReader L) (dec (?n + 1)) = Inr (Some e)" "canonE e = canonE (commitEvent c)"
    unfolding persisted_def pos by blast
  have "getEvent (memoryReader L) (dec (?n + 1)) =
      Inr (if 1 \<le> ?n + 1 \<and> ?n + 1 \<le> length ?es then Some (?es ! (?n + 1 - 1)) else None)"
    by (rule memory_log.get_law [OF wf])
  with e(1) have n: "?n < length ?es" "e = ?es ! ?n" by (auto split: if_splits)
  have "canonE (commitEvent c) = commitEvent c" using chained_canonical [OF ch, of c] by simp
  moreover have "canonE e = e" using replayable_nth(3) [OF wf_log_replayable [OF wf] n(1)] n(2) by simp
  ultimately have "commitEvent c = ?es ! ?n" using e(2) n(2) by simp
  with n(1) rep(2) show ?thesis by (auto simp: prefixes_def take_Suc_conv_app_nth)
qed

lemma reachable_deployed: "reachable X L S \<Longrightarrow> deployed X L S"
proof (induction rule: reachable.induct)
  case init
  show ?case by (auto simp: deployed_def wf_emptyLog prefixes_def intro: represents_empty)
next
  case (append L S now v L' res)
  then obtain h where h: "wf_log X L" "represents X S h" "prefixes L h" by (auto simp: deployed_def)
  obtain es where es: "logEvents L' = logEvents L @ es" using append_extends [OF h(1) append(2)] by blast
  then have "prefixes L' h" using h(3) by (auto simp: prefixes_def intro: le_trans)
  with h wf_append [OF h(1) append(2)] show ?case by (auto simp: deployed_def)
next
  case (register L S v S')
  then obtain h where "wf_log X L" "represents X S h" "prefixes L h" by (auto simp: deployed_def)
  with ensureRun_refines [OF _ register(2)] show ?case by (auto simp: deployed_def)
next
  case (commit L S v S' res)
  then obtain h where h: "wf_log X L" "represents X S h" "prefixes L h" by (auto simp: deployed_def)
  show ?case
  proof (cases res)
    case (Inl e)
    with commit(2) have "S' = S" using commit_atomic by blast
    with commit.IH show ?thesis by simp
  next
    case (Inr u)
    with commit(2) obtain c r where c: "accepts X (memoryReader L) v S r c" "S' = committed X r c S"
      by (auto simp: commit_Inr)
    with deployed_commit [OF h c(1)] commit_refines [OF h(2) c(1)] h(1) show ?thesis by (auto simp: deployed_def)
  qed
qed

end

end
