(* ===== verification/Processor.thy ===== *)
theory Processor
  imports Deployment
begin

text \<open>
  The deterministic processor (\<^verbatim>\<open>src/core/processor.ts\<close>, \<open>DeterministicProcessor\<close>). The
  reducer is the program's parameter: a record of functions, any of which may throw. The processor
  keeps one mutable field, \<open>initialized\<close>; the store is threaded through every operation
  together with the outcome, because a throw does not undo what earlier calls stored.

  The two loops that page through the event log and the store are \<open>partial_function (option)\<close>:
  \<open>None\<close> is a loop that never returns. The loop of \<open>verifyProcessedSuffix\<close> always ends,
  since every page it accepts is non-empty.
\<close>

section \<open>Reducers and their drafts\<close>

record DecisionDraft =
  decisionType :: jsstring
  decisionPayload :: json

record JobDraft =
  jobId :: jsstring
  jobType :: jsstring
  jobDedupeKey :: jsstring
  jobNotBefore :: jsnum
  jobInputBundleHash :: jsstring
  jobPayload :: json

record OutboxDraft =
  messageId :: jsstring
  outboxTopic :: jsstring
  outboxDedupeKey :: jsstring
  outboxPayload :: json

record Transition =
  transitionState :: json
  decisions :: "DecisionDraft list"
  jobs :: "JobDraft list"
  outbox :: "OutboxDraft list"

record ReducerContext =
  nowMs :: int
  ctxRunId :: jsstring
  ctxBehaviorHash :: jsstring
  ctxIdentities :: RunIdentities
  ctxConfig :: json
  ctxConfigHash :: jsstring

record Reducer =
  name :: jsstring
  reducerVersionTag :: jsstring
  route :: "StoredEvent \<Rightarrow> jsstring result"
  parseState :: "json \<Rightarrow> json result"
  initialState :: "jsstring \<Rightarrow> json \<Rightarrow> json result"
  applyReducer :: "json \<Rightarrow> StoredEvent \<Rightarrow> ReducerContext \<Rightarrow> Transition result"

datatype Draft = Decision DecisionDraft | Job JobDraft | Outbox OutboxDraft

fun draftCategory :: "Draft \<Rightarrow> OutputCategory" where
  "draftCategory (Decision d) = DecisionOutput"
| "draftCategory (Job d) = JobOutput"
| "draftCategory (Outbox d) = OutboxOutput"


section \<open>Bodies\<close>

definition assertNonEmpty :: "jsstring \<Rightarrow> unit result" where
  "assertNonEmpty value = assertR (value \<noteq> []) (TypeError ''cannot be empty'')"

definition assertHash :: "jsstring \<Rightarrow> unit result" where
  "assertHash value = assertR (hash64 value) (TypeError ''must be a SHA-256 hex digest'')"

definition assertLogicalMs :: "jsnum \<Rightarrow> unit result" where
  "assertLogicalMs value = assertR (isEpochMs value) (RangeError ''must be a non-negative safe integer'')"

record MaterializedBody =
  matBody :: json
  matDedupeKey :: "jsstring option"
  matNotBefore :: "int option"

fun outputBody :: "externals \<Rightarrow> Draft \<Rightarrow> jsstring \<Rightarrow> MaterializedBody result" where
  "outputBody X (Decision d) run =
     bindR (assertNonEmpty (decisionType d)) (\<lambda>_.
     bindR (checkJson PERSISTED_PROCESSING_JSON_LIMITS (decisionPayload d)) (\<lambda>_.
     Inr \<lparr>matBody = JObj (field ''type'' (JStr (decisionType d)) @ field ''payload'' (decisionPayload d)),
          matDedupeKey = None, matNotBefore = None\<rparr>))"
| "outputBody X (Job d) run =
     bindR (assertNonEmpty (jobType d)) (\<lambda>_.
     bindR (assertNonEmpty (jobDedupeKey d)) (\<lambda>_.
     bindR (assertHash (jobInputBundleHash d)) (\<lambda>_.
     bindR (assertLogicalMs (jobNotBefore d)) (\<lambda>_.
     bindR (checkJson PERSISTED_PROCESSING_JSON_LIMITS (jobPayload d)) (\<lambda>_.
     bindR (deriveJobId X run (jobDedupeKey d) (jobPayload d)) (\<lambda>expectedJobId.
     if jobId d \<noteq> expectedJobId then Inl (PlainError ''Invalid deterministic job ID'')
     else Inr \<lparr>matBody = JObj (field ''jobId'' (JStr (jobId d)) @ field ''type'' (JStr (jobType d)) @
            field ''dedupeKey'' (JStr (jobDedupeKey d)) @ field ''notBeforeLogicalMs'' (JNum (jobNotBefore d)) @
            field ''inputBundleHash'' (JStr (jobInputBundleHash d)) @ field ''payload'' (jobPayload d)),
          matDedupeKey = Some (jobDedupeKey d), matNotBefore = Some (numInt (jobNotBefore d))\<rparr>))))))"
| "outputBody X (Outbox d) run =
     bindR (assertNonEmpty (outboxTopic d)) (\<lambda>_.
     bindR (assertNonEmpty (outboxDedupeKey d)) (\<lambda>_.
     bindR (checkJson PERSISTED_PROCESSING_JSON_LIMITS (outboxPayload d)) (\<lambda>_.
     bindR (deriveMessageId X run (outboxDedupeKey d) (outboxPayload d)) (\<lambda>expectedMessageId.
     if messageId d \<noteq> expectedMessageId then Inl (PlainError ''Invalid deterministic message ID'')
     else Inr \<lparr>matBody = JObj (field ''messageId'' (JStr (messageId d)) @ field ''topic'' (JStr (outboxTopic d)) @
            field ''dedupeKey'' (JStr (outboxDedupeKey d)) @ field ''payload'' (outboxPayload d)),
          matDedupeKey = Some (outboxDedupeKey d), matNotBefore = None\<rparr>))))"


section \<open>The processor\<close>

record DeterministicProcessor =
  reducer :: Reducer
  registration :: RunRegistration
  configHash :: jsstring
  initialized :: bool

definition newProcessor :: "externals \<Rightarrow> Reducer \<Rightarrow> json \<Rightarrow> DeterministicProcessor result" where
  "newProcessor X red manifestValue =
     bindR (deriveRunRegistration X manifestValue) (\<lambda>reg.
     let m = manifest reg; b = behavior m; ids = identities b in
     if reducerName b \<noteq> name red then Inl (PlainError ''Manifest reducer name does not match the reducer'')
     else if reducerVersion b \<noteq> reducerVersionTag red then Inl (PlainError ''Manifest reducer version does not match the reducer'')
     else bindR (assertNonEmpty (runId m)) (\<lambda>_.
     bindR (assertNonEmpty (extractorVersion ids)) (\<lambda>_.
     bindR (mapR (\<lambda>i. case i of None \<Rightarrow> Inr () | Some s \<Rightarrow> assertNonEmpty s)
       [Some (extractorVersion ids), featureSetId ids, modelId ids, promptId ids, datasetId ids]) (\<lambda>_.
     bindR (assertHash (buildDigest b)) (\<lambda>_.
     bindR (assertHash (schemaRegistryDigest b)) (\<lambda>_.
     bindR (canonicalHash X (js ''peas/reducer-config/v2'') (configuration b)) (\<lambda>h.
     Inr \<lparr>reducer = red, registration = reg, configHash = h, initialized = False\<rparr>)))))))"

definition verifyCursor :: "externals \<Rightarrow> DeterministicProcessor \<Rightarrow> RunCursor \<Rightarrow> RunCursor result" where
  "verifyCursor X P k =
     bindR (validateRunCursor X (cursor_json k)) (\<lambda>cursor.
     if cursorRunId cursor \<noteq> runId (manifest (registration P)) then Inl (PlainError ''Run cursor ID mismatch'')
     else if cursorManifestHash cursor \<noteq> manifestHash (registration P)
     then Inl (PlainError ''Run manifest does not match the stored cursor'')
     else if cursorBehaviorHash cursor \<noteq> behaviorHash (registration P)
     then Inl (PlainError ''Run behavior does not match the stored cursor'')
     else bindR (computeRunCursorHash X cursor) (\<lambda>expected.
     if cursorHash cursor \<noteq> expected then Inl (PlainError ''Run cursor hash mismatch'') else Inr cursor))"

definition reducerStateHash :: "externals \<Rightarrow> DeterministicProcessor \<Rightarrow> json \<Rightarrow> jsstring result" where
  "reducerStateHash X P st = canonicalHash X (stateDomain (name (reducer P)) (reducerVersionTag (reducer P))) st"

definition aggregateGenesis :: "externals \<Rightarrow> DeterministicProcessor \<Rightarrow> jsstring \<Rightarrow> AggregateCheckpoint result" where
  "aggregateGenesis X P aggId =
     bindR (initialState (reducer P) aggId (configuration (behavior (manifest (registration P))))) (\<lambda>initial.
     bindR (checkJson PERSISTED_PROCESSING_JSON_LIMITS initial) (\<lambda>_.
     bindR (parseState (reducer P) initial) (\<lambda>st.
     bindR (requiredObject st) (\<lambda>_.
     bindR (checkJson PERSISTED_PROCESSING_JSON_LIMITS st) (\<lambda>_.
     bindR (reducerStateHash X P st) (\<lambda>h.
     let withoutHash = \<lparr>aggRunId = runId (manifest (registration P)), aggregateId = aggId, version = js ''0'',
           lastInputPosition = js ''0'', state = st, stateHash = h, checkpointHash = []\<rparr> in
     bindR (computeAggregateCheckpointHash X withoutHash) (\<lambda>ch. Inr (withoutHash\<lparr>checkpointHash := ch\<rparr>))))))))"

definition verifyPriorAggregate :: "externals \<Rightarrow> DeterministicProcessor \<Rightarrow> AggregateCheckpoint \<Rightarrow> json result" where
  "verifyPriorAggregate X P a =
     bindR (validateAggregateCheckpoint X (aggregate_json a)) (\<lambda>checkpoint.
     bindR (checkJson PERSISTED_PROCESSING_JSON_LIMITS (state checkpoint)) (\<lambda>_.
     bindR (parseState (reducer P) (state checkpoint)) (\<lambda>st.
     bindR (requiredObject st) (\<lambda>_.
     bindR (checkJson PERSISTED_PROCESSING_JSON_LIMITS st) (\<lambda>_.
     bindR (reducerStateHash X P st) (\<lambda>expectedStateHash.
     if stateHash checkpoint \<noteq> expectedStateHash then Inl (PlainError ''Aggregate state hash mismatch'')
     else bindR (computeAggregateCheckpointHash X checkpoint) (\<lambda>expected.
     if checkpointHash checkpoint \<noteq> expected then Inl (PlainError ''Aggregate checkpoint hash mismatch'')
     else Inr st)))))))"

record Materializing =
  matOutputs :: "ImmutableOutput list"
  matDedupe :: "jsstring list"

definition draftGroups :: "Transition \<Rightarrow> (nat \<times> Draft) list" where
  "draftGroups t = enumerate 0 (map Decision (decisions t)) @ enumerate 0 (map Job (jobs t)) @
     enumerate 0 (map Outbox (outbox t))"

definition materializeDedupe ::
  "externals \<Rightarrow> jsstring \<Rightarrow> OutputCategory \<Rightarrow> jsstring option \<Rightarrow> jsstring list \<Rightarrow> jsstring list result" where
  "materializeDedupe X run cat dk seen =
     (case dk of
        None \<Rightarrow> Inr seen
      | Some key \<Rightarrow>
          if cat = DecisionOutput then Inl (PlainError ''Decision output cannot have a dedupe key'')
          else bindR (computeOutputDedupeIdentity X run cat key) (\<lambda>identity.
            if identity \<in> set seen then Inl (PlainError ''Duplicate dedupe key in transition'')
            else Inr (seen @ [identity])))"

definition materializeDraft ::
  "externals \<Rightarrow> RunRegistration \<Rightarrow> StoredEvent \<Rightarrow> jsstring \<Rightarrow> nat \<times> Draft \<Rightarrow> Materializing \<Rightarrow> Materializing result" where
  "materializeDraft X reg event aggId entry acc =
     (let cat = draftCategory (snd entry); run = runId (manifest reg) in
     bindR (outputBody X (snd entry) run) (\<lambda>m.
     bindR (checkJson PERSISTED_PROCESSING_JSON_LIMITS (matBody m)) (\<lambda>_.
     bindR (materializeDedupe X run cat (matDedupeKey m) (matDedupe acc)) (\<lambda>seen.
     bindR (canonicalHash X (bodyDomain cat) (matBody m)) (\<lambda>bh.
     let q = \<lparr>outputId = [], outRunId = run, inputEventId = eventId event, inputPosition = position event,
           outAggregateId = aggId, category = cat, ordinal = int (fst entry), dedupeKey = matDedupeKey m,
           notBeforeLogicalMs = matNotBefore m, body = matBody m, bodyHash = bh\<rparr> in
     bindR (canonicalHash X (js ''peas/output-id/v2'') (outputIdentity reg event q)) (\<lambda>oid.
     bindR (cloneJson (matBody m)) (\<lambda>b.
     Inr \<lparr>matOutputs = matOutputs acc @ [q\<lparr>outputId := oid, body := b\<rparr>], matDedupe = seen\<rparr>)))))))"

definition materialize ::
  "externals \<Rightarrow> RunRegistration \<Rightarrow> StoredEvent \<Rightarrow> jsstring \<Rightarrow> Transition \<Rightarrow> ImmutableOutput list result" where
  "materialize X reg event aggId t =
     bindR (foldR (materializeDraft X reg event aggId) (draftGroups t) \<lparr>matOutputs = [], matDedupe = []\<rparr>)
       (\<lambda>acc. Inr (matOutputs acc))"


section \<open>One event\<close>

definition initialize ::
  "externals \<Rightarrow> DeterministicProcessor \<times> InMemoryProcessingStore \<Rightarrow> (DeterministicProcessor \<times> InMemoryProcessingStore) result" where
  "initialize X PS =
     (if initialized (fst PS) then Inr PS
      else bindR (ensureRun X (registration_json (registration (fst PS))) (snd PS)) (\<lambda>S.
           Inr ((fst PS)\<lparr>initialized := True\<rparr>, S)))"

definition loadOrGenesis :: "externals \<Rightarrow> DeterministicProcessor \<Rightarrow> InMemoryProcessingStore \<Rightarrow> RunCursor result" where
  "loadOrGenesis X P S =
     bindR (loadCursor X (runId (manifest (registration P))) S) (\<lambda>stored.
     case stored of Some k \<Rightarrow> Inr k | None \<Rightarrow> createGenesisRunCursor X (registration P))"

definition persistedPredecessorHash :: "externals \<Rightarrow> EventLogReader \<Rightarrow> int \<Rightarrow> jsstring result" where
  "persistedPredecessorHash X log pos =
     (if pos = 1 then Inr zeroHash
      else bindR (getEvent log (intString (pos - 1))) (\<lambda>found.
      case found of
        None \<Rightarrow> Inl (PlainError ''Persisted event predecessor does not exist'')
      | Some predecessor \<Rightarrow>
          if position predecessor \<noteq> intString (pos - 1)
          then Inl (PlainError ''Event log returned the wrong predecessor'')
          else bindR (verifyStoredEvent X predecessor None) (\<lambda>_. Inr (eventHash predecessor))))"

definition verifyExactPersistedEvent :: "externals \<Rightarrow> EventLogReader \<Rightarrow> StoredEvent \<Rightarrow> jsstring \<Rightarrow> unit result" where
  "verifyExactPersistedEvent X log event expectedPreviousHash =
     bindR (verifyStoredEvent X event (Some expectedPreviousHash)) (\<lambda>_.
     bindR (getEvent log (position event)) (\<lambda>found.
     case found of
       None \<Rightarrow> Inl (PlainError ''Event is not persisted'')
     | Some persistedEvent \<Rightarrow>
         bindR (verifyStoredEvent X persistedEvent (Some expectedPreviousHash)) (\<lambda>_.
         bindR (canonicalJson (stored_json persistedEvent)) (\<lambda>a.
         bindR (canonicalJson (stored_json event)) (\<lambda>b.
         assertR (a = b) (PlainError ''Event is not the exact persisted event''))))))"

fun scanSuffix :: "externals \<Rightarrow> StoredEvent list \<Rightarrow> int \<Rightarrow> jsstring \<Rightarrow> (int \<times> jsstring) result" where
  "scanSuffix X [] pos h = Inr (pos, h)"
| "scanSuffix X (event # events) pos h =
     (if position event \<noteq> intString (pos + 1) then Inl (PlainError ''Persisted event chain position mismatch'')
      else bindR (verifyStoredEvent X event (Some h)) (\<lambda>_. scanSuffix X events (pos + 1) (eventHash event)))"

lemma scanSuffix_advances: "scanSuffix X es pos h = Inr q \<Longrightarrow> fst q = pos + int (length es)"
  by (induction es arbitrary: pos h) (auto simp: result_simps split: if_splits)

function verifySuffixLoop ::
  "externals \<Rightarrow> EventLogReader \<Rightarrow> int \<Rightarrow> int \<Rightarrow> jsstring \<Rightarrow> (int \<times> jsstring) result" where
  "verifySuffixLoop X log cursorPosition pos h =
     (if cursorPosition \<le> pos then Inr (pos, h)
      else bindR (readAfter log (intString pos) (NInt (min 1000 (cursorPosition - pos)))) (\<lambda>page.
      if pageEvents page = [] then Inl (PlainError ''Persisted event chain ends before cursor position'')
      else bindR (scanSuffix X (pageEvents page) pos h) (\<lambda>q.
      if nextPosition page \<noteq> intString (fst q) then Inl (PlainError ''Persisted event page cursor mismatch'')
      else verifySuffixLoop X log cursorPosition (fst q) (snd q))))"
  by pat_completeness auto
termination
  by (relation "measure (\<lambda>(X, log, cursorPosition, pos, h). nat (cursorPosition - pos))")
    (auto dest: scanSuffix_advances)

declare verifySuffixLoop.simps [simp del]

definition verifyProcessedSuffix ::
  "externals \<Rightarrow> EventLogReader \<Rightarrow> int \<Rightarrow> jsstring \<Rightarrow> RunCursor \<Rightarrow> unit result" where
  "verifyProcessedSuffix X log startPosition startEventHash cursor =
     bindR (bigInt (processedPosition cursor)) (\<lambda>cursorPosition.
     bindR (verifySuffixLoop X log cursorPosition startPosition startEventHash) (\<lambda>q.
     assertR (fst q = cursorPosition \<and> snd q = lastEventHash cursor)
       (PlainError ''Persisted event chain does not match cursor head'')))"

definition reducerContext :: "DeterministicProcessor \<Rightarrow> StoredEvent \<Rightarrow> ReducerContext result" where
  "reducerContext P event =
     bindR (cloneJson (identities_json (identities (behavior (manifest (registration P)))))) (\<lambda>ids.
     bindR (cloneJson (configuration (behavior (manifest (registration P))))) (\<lambda>cfg.
     Inr \<lparr>nowMs = logicalAtMs event, ctxRunId = runId (manifest (registration P)),
          ctxBehaviorHash = behaviorHash (registration P), ctxIdentities = identities_of ids, ctxConfig = cfg,
          ctxConfigHash = configHash P\<rparr>))"

definition runReducer ::
  "externals \<Rightarrow> DeterministicProcessor \<Rightarrow> StoredEvent \<Rightarrow> AggregateCheckpoint \<Rightarrow> (json \<times> Transition) result" where
  "runReducer X P event prior =
     bindR (verifyPriorAggregate X P prior) (\<lambda>parsedPriorState.
     bindR (cloneJson parsedPriorState) (\<lambda>st.
     bindR (reducerContext P event) (\<lambda>ctx.
     bindR (applyReducer (reducer P) st event ctx) (\<lambda>t.
     bindR (checkJson PERSISTED_PROCESSING_JSON_LIMITS (transitionState t)) (\<lambda>_.
     bindR (parseState (reducer P) (transitionState t)) (\<lambda>nextState.
     bindR (requiredObject nextState) (\<lambda>_.
     bindR (checkJson PERSISTED_PROCESSING_JSON_LIMITS nextState) (\<lambda>_.
     bindR (cloneJson nextState) (\<lambda>canonicalState. Inr (canonicalState, t))))))))))"

definition nextCheckpoint ::
  "externals \<Rightarrow> DeterministicProcessor \<Rightarrow> StoredEvent \<Rightarrow> jsstring \<Rightarrow> AggregateCheckpoint \<Rightarrow> json \<Rightarrow> AggregateCheckpoint result" where
  "nextCheckpoint X P event aggId prior canonicalState =
     bindR (reducerStateHash X P canonicalState) (\<lambda>h.
     bindR (bigInt (version prior)) (\<lambda>n.
     let withoutHash = \<lparr>aggRunId = runId (manifest (registration P)), aggregateId = aggId, version = intString (n + 1),
           lastInputPosition = position event, state = canonicalState, stateHash = h, checkpointHash = []\<rparr> in
     bindR (computeAggregateCheckpointHash X withoutHash) (\<lambda>ch. Inr (withoutHash\<lparr>checkpointHash := ch\<rparr>))))"

definition nextCursor ::
  "externals \<Rightarrow> DeterministicProcessor \<Rightarrow> RunCursor \<Rightarrow> StoredEvent \<Rightarrow> AggregateCheckpoint \<Rightarrow> ImmutableOutput list \<Rightarrow> RunCursor result" where
  "nextCursor X P previous event agg outs =
     bindR (nextDecisionHead X previous event outs) (\<lambda>dh.
     let withoutHash = \<lparr>cursorRunId = runId (manifest (registration P)), cursorManifestHash = manifestHash (registration P),
           cursorBehaviorHash = behaviorHash (registration P), processedPosition = position event,
           cursorLogicalAtMs = logicalAtMs event, lastEventHash = eventHash event,
           stateHead = nextStateHead X previous event (aggregateId agg) (stateHash agg), decisionHead = dh, cursorHash = []\<rparr> in
     bindR (computeRunCursorHash X withoutHash) (\<lambda>h. Inr (withoutHash\<lparr>cursorHash := h\<rparr>)))"

definition produceCommit ::
  "externals \<Rightarrow> DeterministicProcessor \<Rightarrow> InMemoryProcessingStore \<Rightarrow> RunCursor \<Rightarrow> StoredEvent \<Rightarrow> ProcessingCommit result" where
  "produceCommit X P S previous event =
     bindR (bindR (route (reducer P) event) (validateAggregateId X)) (\<lambda>aggId.
     bindR (loadAggregate X (runId (manifest (registration P))) aggId S) (\<lambda>stored.
     bindR (case stored of Some a \<Rightarrow> Inr a | None \<Rightarrow> aggregateGenesis X P aggId) (\<lambda>prior.
     bindR (runReducer X P event prior) (\<lambda>(canonicalState, t).
     bindR (nextCheckpoint X P event aggId prior canonicalState) (\<lambda>agg.
     bindR (materialize X (registration P) event aggId t) (\<lambda>outs.
     bindR (nextCursor X P previous event agg outs) (\<lambda>cur.
     Inr \<lparr>expectedPosition = processedPosition previous, commitEvent = event, commitCursor = cur,
          commitAggregate = agg, commitOutputs = outs\<rparr>)))))))"

datatype Plan = AlreadyProcessed RunCursor | Produce ProcessingCommit

definition planProcess ::
  "externals \<Rightarrow> EventLogReader \<Rightarrow> json \<Rightarrow> DeterministicProcessor \<Rightarrow> InMemoryProcessingStore \<Rightarrow> Plan result" where
  "planProcess X log value P S =
     bindR (validateStoredEvent X value) (\<lambda>event.
     bindR (verifyStoredEvent X event None) (\<lambda>_.
     bindR (bindR (loadOrGenesis X P S) (verifyCursor X P)) (\<lambda>previous.
     bindR (bigInt (position event)) (\<lambda>currentPosition.
     bindR (bigInt (processedPosition previous)) (\<lambda>previousPosition.
     if currentPosition \<le> previousPosition
     then bindR (persistedPredecessorHash X log currentPosition) (\<lambda>expectedPreviousHash.
          bindR (verifyExactPersistedEvent X log event expectedPreviousHash) (\<lambda>_.
          bindR (verifyProcessedSuffix X log currentPosition (eventHash event) previous) (\<lambda>_.
          Inr (AlreadyProcessed previous))))
     else if currentPosition \<noteq> previousPosition + 1 then Inl (PlainError ''Non-contiguous processing position'')
     else bindR (verifyExactPersistedEvent X log event (lastEventHash previous)) (\<lambda>_.
          if logicalAtMs event < cursorLogicalAtMs previous then Inl (PlainError ''Logical clock regression at event position'')
          else bindR (produceCommit X P S previous event) (\<lambda>c. Inr (Produce c))))))))"

type_synonym procState = "DeterministicProcessor \<times> InMemoryProcessingStore"

definition process :: "externals \<Rightarrow> EventLogReader \<Rightarrow> json \<Rightarrow> procState \<Rightarrow> procState \<times> RunCursor result" where
  "process X log value PS =
     (case initialize X PS of
        Inl e \<Rightarrow> (PS, Inl e)
      | Inr PS' \<Rightarrow>
          (case planProcess X log value (fst PS') (snd PS') of
             Inl e \<Rightarrow> (PS', Inl e)
           | Inr (AlreadyProcessed k) \<Rightarrow> (PS', Inr k)
           | Inr (Produce c) \<Rightarrow>
               (case commit X log (commit_json c) (snd PS') of
                  (S, Inl e) \<Rightarrow> ((fst PS', S), Inl e)
                | (S, Inr _) \<Rightarrow> ((fst PS', S), Inr (commitCursor c)))))"


section \<open>All available events\<close>

fun processEvents :: "externals \<Rightarrow> EventLogReader \<Rightarrow> StoredEvent list \<Rightarrow> RunCursor \<Rightarrow> procState \<Rightarrow> procState \<times> RunCursor result" where
  "processEvents X log [] k PS = (PS, Inr k)"
| "processEvents X log (event # events) k PS =
     (case process X log (stored_json event) PS of
        (PS', Inl e) \<Rightarrow> (PS', Inl e)
      | (PS', Inr k') \<Rightarrow> processEvents X log events k' PS')"

partial_function (option) processPages ::
  "externals \<Rightarrow> EventLogReader \<Rightarrow> jsnum \<Rightarrow> RunCursor \<Rightarrow> procState \<Rightarrow> (procState \<times> RunCursor result) option" where
  "processPages X log pageSize k PS =
     (case readAfter log (processedPosition k) pageSize of
        Inl e \<Rightarrow> Some (PS, Inl e)
      | Inr page \<Rightarrow>
          (case processEvents X log (pageEvents page) k PS of
             (PS', Inl e) \<Rightarrow> Some (PS', Inl e)
           | (PS', Inr k') \<Rightarrow> if hasMore page then processPages X log pageSize k' PS' else Some (PS', Inr k')))"

definition processAvailable ::
  "externals \<Rightarrow> EventLogReader \<Rightarrow> jsnum \<Rightarrow> procState \<Rightarrow> (procState \<times> RunCursor result) option" where
  "processAvailable X log pageSize PS =
     (case bindR (assertPageLimit pageSize) (\<lambda>_. initialize X PS) of
        Inl e \<Rightarrow> Some (PS, Inl e)
      | Inr PS' \<Rightarrow>
          (case loadOrGenesis X (fst PS') (snd PS') of
             Inl e \<Rightarrow> Some (PS', Inl e)
           | Inr k \<Rightarrow> processPages X log pageSize k PS'))"


section \<open>Snapshots\<close>

partial_function (option) collectOutputs ::
  "externals \<Rightarrow> InMemoryProcessingStore \<Rightarrow> jsstring \<Rightarrow> jsnum \<Rightarrow> jsstring \<Rightarrow> StoredOutput list \<Rightarrow> StoredOutput list result option" where
  "collectOutputs X S run pageSize outputCursor acc =
     (case readOutputsAfter X run outputCursor pageSize S of
        Inl e \<Rightarrow> Some (Inl e)
      | Inr page \<Rightarrow>
          if moreOutputs page then collectOutputs X S run pageSize (nextSequence page) (acc @ pageOutputs page)
          else Some (Inr (acc @ pageOutputs page)))"

partial_function (option) collectAggregates ::
  "externals \<Rightarrow> InMemoryProcessingStore \<Rightarrow> jsstring \<Rightarrow> jsnum \<Rightarrow> jsstring \<Rightarrow> AggregateCheckpoint list \<Rightarrow>
    AggregateCheckpoint list result option" where
  "collectAggregates X S run pageSize aggregateCursor acc =
     (case readAggregatesAfter X run aggregateCursor pageSize S of
        Inl e \<Rightarrow> Some (Inl e)
      | Inr page \<Rightarrow>
          if moreAggregates page then collectAggregates X S run pageSize (nextAggregateId page) (acc @ pageAggregates page)
          else Some (Inr (acc @ pageAggregates page)))"

record Snapshot =
  snapCursor :: RunCursor
  snapOutputs :: "StoredOutput list"
  snapAggregates :: "AggregateCheckpoint list"

definition snapshot :: "externals \<Rightarrow> jsnum \<Rightarrow> procState \<Rightarrow> (procState \<times> Snapshot result) option" where
  "snapshot X pageSize PS =
     (case bindR (assertPageLimit pageSize) (\<lambda>_. initialize X PS) of
        Inl e \<Rightarrow> Some (PS, Inl e)
      | Inr PS' \<Rightarrow>
          (let run = runId (manifest (registration (fst PS'))) in
           case loadOrGenesis X (fst PS') (snd PS') of
             Inl e \<Rightarrow> Some (PS', Inl e)
           | Inr k \<Rightarrow>
               (case collectOutputs X (snd PS') run pageSize (js ''0'') [] of
                  None \<Rightarrow> None
                | Some (Inl e) \<Rightarrow> Some (PS', Inl e)
                | Some (Inr outs) \<Rightarrow>
                    (case collectAggregates X (snd PS') run pageSize [] [] of
                       None \<Rightarrow> None
                     | Some (Inl e) \<Rightarrow> Some (PS', Inl e)
                     | Some (Inr aggs) \<Rightarrow>
                         Some (PS', Inr \<lparr>snapCursor = k, snapOutputs = outs, snapAggregates = aggs\<rparr>)))))"

end
