(* ===== verification/ProcessorLaws.thy ===== *)
theory ProcessorLaws
  imports Processor
begin

text \<open>
  The processor against an event log. The locale \<open>processing\<close> joins what the processor relies
  on: the laws of \<open>node_env\<close> and an event log that keeps \<open>event_log\<close>. Inside it:

  \<^item> reads of a store that represents a history return the last cursor and checkpoint of it;
  \<^item> an event that has been processed is acknowledged again and changes nothing;
  \<^item> processing the next event, when it succeeds, extends the run by that event;
  \<^item> \<open>processAvailable\<close> always returns, and its outcome is the one of processing the
    remaining events one by one, whatever the page size.
\<close>

section \<open>Reads of a represented store\<close>

lemma cursor_in_history:
  assumes "chained X r (genesisOf X r) cs" "cs \<noteq> []"
  shows "within_limits PERSISTED_PROCESSING_JSON_LIMITS (cursor_json (commitCursor (last cs)))"
    "cursorOk (commitCursor (last cs))" "valid_json (cursor_json (commitCursor (last cs)))"
    "cursorHash (commitCursor (last cs)) = digest X (js ''peas/run-cursor/v2'') (cursorContent (commitCursor (last cs)))"
    "cursorRunId (commitCursor (last cs)) = runId (manifest r)"
    "cursorManifestHash (commitCursor (last cs)) = manifestHash r"
    "cursorBehaviorHash (commitCursor (last cs)) = behaviorHash r"
proof -
  have c: "wf_commit X (last cs)" "commitSound X r (last cs)" using chained_run [OF assms(1), of "last cs"] assms(2) by auto
  then show "within_limits PERSISTED_PROCESSING_JSON_LIMITS (cursor_json (commitCursor (last cs)))"
    "cursorOk (commitCursor (last cs))" "valid_json (cursor_json (commitCursor (last cs)))"
    using wf_commit_facts(2,4) [of X "last cs"] by (simp_all add: wf_commit_def)
  show "cursorHash (commitCursor (last cs)) = digest X (js ''peas/run-cursor/v2'') (cursorContent (commitCursor (last cs)))"
    "cursorRunId (commitCursor (last cs)) = runId (manifest r)"
    "cursorManifestHash (commitCursor (last cs)) = manifestHash r"
    "cursorBehaviorHash (commitCursor (last cs)) = behaviorHash r"
    using c(2) by (simp_all add: commitSound_def Let_def)
qed

lemma lastAggregate_Some:
  assumes "lastAggregate i cs = Some a"
  obtains c where "c \<in> set cs" "commitAggregate c = a" "aggregateId a = i"
proof -
  let ?ms = "filter (\<lambda>c. aggregateId (commitAggregate c) = i) cs"
  from assms have "?ms \<noteq> []" "a = commitAggregate (last ?ms)" by (auto simp: lastAggregate_def Let_def split: if_splits)
  moreover from this have "last ?ms \<in> set ?ms" by (intro last_in_set)
  ultimately show thesis using that [of "last ?ms"] by auto
qed

lemma byteLength_quote_bound: "byteLength (jsonQuote s) \<le> 8 + 24 * length s"
proof -
  have u: "length (quote_unit c) \<le> 6" for c by (simp add: quote_unit_def unicode_escape_def Let_def)
  have "length (quote_body s) \<le> 6 * length s"
  proof (induction s rule: quote_body.induct)
    case (3 c d s)
    then show ?case using u [of c] by (auto simp: unicode_escape_def Let_def)
  qed (use u in auto)
  then show ?thesis using length_utf8_le [of "jsonQuote s"] by (simp add: byteLength_def jsonQuote_def)
qed

context node_env
begin

lemma validateAggregateId_ok [simp]: "aggregate_id i \<Longrightarrow> validateAggregateId X i = Inr i"
  by simp

lemma genesis_valid:
  assumes "wf_manifest (manifest r)" "r = registrationOf X (manifest r)"
  shows "valid_json (cursorContent (genesisCore X r))" "valid_json (cursor_json (genesisOf X r))" "cursorOk (genesisOf X r)"
proof -
  have h: "hash64 (manifestHash r)" "hash64 (behaviorHash r)" by (subst assms(2), simp add: registrationOf_def)+
  have m: "valid_json (manifest_json (manifest r))" "conforms runManifestV2Schema (manifest_json (manifest r))"
    using assms(1) by (auto simp: wf_manifest_def dest: within_limits_valid)
  have i: "scalar (runId (manifest r))" using m(1) by (simp add: manifest_json_def)
  have b: "bounded_id (runId (manifest r))"
    using m(2) by (simp add: runManifestV2Schema_def check_simps z_defs manifest_json_def reader_defs del: conforms.simps)
  show v: "valid_json (cursorContent (genesisCore X r))"
    using h i by (simp add: cursorContent_def genesisCore_def hash64_scalar isSafeInteger_def MAX_SAFE_INTEGER_def)
  then show "valid_json (cursor_json (genesisOf X r))"
    by (simp add: cursor_json_def cursorContent_def genesisOf_def genesisCore_def hash64_scalar)
  show "cursorOk (genesisOf X r)"
    using h b by (simp add: cursorOk_def genesisOf_def genesisCore_def nonnegative_decimal_def isSafeInteger_def MAX_SAFE_INTEGER_def)
qed

lemma genesis_within_limits:
  assumes "wf_manifest (manifest r)" "r = registrationOf X (manifest r)"
  shows "within_limits PERSISTED_PROCESSING_JSON_LIMITS (cursor_json (genesisOf X r))"
proof -
  note g = genesis_valid [OF assms]
  let ?k = "genesisOf X r"
  have h: "plain s \<and> length s = 64" if "hash64 s" for s using that by (rule hash64_plain)
  have hs: "hash64 (cursorManifestHash ?k)" "hash64 (cursorBehaviorHash ?k)" "hash64 (lastEventHash ?k)" "hash64 (stateHead ?k)"
    "hash64 (decisionHead ?k)" "hash64 (cursorHash ?k)" "length (cursorRunId ?k) \<le> 512"
    using g(3) by (simp_all add: cursorOk_def bounded_id_def)
  have b: "byteLength s = 64" "byteLength (jsonQuote s) = 66" if "hash64 s" for s
    using h [OF that] by (simp_all add: byteLength_plain byteLength_quote_plain)
  have k: "byteLength (jsonQuote (js ''runId'')) = 7" "byteLength (jsonQuote (js ''manifestHash'')) = 14"
    "byteLength (jsonQuote (js ''behaviorHash'')) = 14" "byteLength (jsonQuote (js ''processedPosition'')) = 19"
    "byteLength (jsonQuote (js ''logicalAtMs'')) = 13" "byteLength (jsonQuote (js ''lastEventHash'')) = 15"
    "byteLength (jsonQuote (js ''stateHead'')) = 11" "byteLength (jsonQuote (js ''decisionHead'')) = 14"
    "byteLength (jsonQuote (js ''cursorHash'')) = 12" "byteLength (jsonQuote (js ''0'')) = 3"
    "byteLength (js ''runId'') = 5" "byteLength (js ''manifestHash'') = 12" "byteLength (js ''behaviorHash'') = 12"
    "byteLength (js ''processedPosition'') = 17" "byteLength (js ''logicalAtMs'') = 11" "byteLength (js ''lastEventHash'') = 13"
    "byteLength (js ''stateHead'') = 9" "byteLength (js ''decisionHead'') = 12" "byteLength (js ''cursorHash'') = 10"
    "byteLength (js ''0'') = 1" "byteLength (intString 0) = 1"
    by (simp_all add: byteLength_quote_plain byteLength_plain literal_plain intString_def dec_0)
  have r: "byteLength (cursorRunId ?k) \<le> 2048" "byteLength (jsonQuote (cursorRunId ?k)) \<le> 12296"
    using hs(7) length_utf8_le [of "cursorRunId ?k"] byteLength_quote_bound [of "cursorRunId ?k"] by (simp_all add: byteLength_def)
  have p: "processedPosition ?k = js ''0''" "cursorLogicalAtMs ?k = 0" by simp_all
  show ?thesis
    unfolding within_limits_def
  proof (intro conjI)
    show "valid_json (cursor_json ?k)" by (rule g(2))
    show "sizes_ok PERSISTED_PROCESSING_JSON_LIMITS (cursor_json ?k)"
      using r(1) b(1) hs by (simp add: cursor_json_def jint_def k PERSISTED_PROCESSING_JSON_LIMITS_def del: genesis_fields(1-3) genesis_hash)
    show "int (jnodes (cursor_json ?k)) \<le> maxNodes PERSISTED_PROCESSING_JSON_LIMITS"
      "int (jdepth (cursor_json ?k)) \<le> maxDepth PERSISTED_PROCESSING_JSON_LIMITS"
      by (simp_all add: cursor_json_def jint_def PERSISTED_PROCESSING_JSON_LIMITS_def)
    show "int (jbytes (cursor_json ?k)) \<le> maxCanonicalBytes PERSISTED_PROCESSING_JSON_LIMITS"
      using r(2) b(2) hs by (simp add: cursor_json_def jint_def k PERSISTED_PROCESSING_JSON_LIMITS_def del: genesis_fields(1-3,6) genesis_hash)
  qed
qed

lemma loadCursor_represents:
  assumes "represents X S h" "protoSafe X PROCESSOR_SCHEMA_FIELDS" "runs S run = Some r"
  shows "loadCursor X run S = Inr (cursors S run)"
proof (cases "h run = []")
  case True
  then show ?thesis using represents_facts(4) [OF assms(1), of run] by (simp add: loadCursor_def)
next
  case False
  let ?k = "commitCursor (last (h run))"
  have ch: "chained X r (genesisOf X r) (h run)" using represents_facts(3) [OF assms(1,3)] by blast
  note k = cursor_in_history [OF ch False]
  have "validateRunCursor X (cursor_json ?k) = Inr ?k" using k(1,2) assms(2) by (simp add: validate_typed)
  then show ?thesis
    using False represents_facts(4) [OF assms(1), of run] k(3,4)
    by (simp add: loadCursor_def computeRunCursorHash_def valid_cursorContent)
qed

lemma loadAggregate_represents:
  assumes rep: "represents X S h" and safe: "protoSafe X PROCESSOR_SCHEMA_FIELDS" and run: "runs S run = Some r"
    and i: "aggregate_id i"
  shows "loadAggregate X run i S = Inr (lastAggregate i (h run))"
proof (cases "lastAggregate i (h run)")
  case None
  then show ?thesis using i represents_facts(5) [OF rep, of run i] by (simp add: loadAggregate_def)
next
  case (Some a)
  then obtain c where c: "c \<in> set (h run)" "commitAggregate c = a" "aggregateId a = i" by (rule lastAggregate_Some)
  have ch: "chained X r (genesisOf X r) (h run)" using represents_facts(3) [OF rep run] by blast
  note w = chained_run [OF ch c(1)]
  then have f: "wf_commit X c" "canonC c = c" "commitSound X r c" by blast+
  have a: "canonA a = a" using f(2) c(2) by (metis canonC_fields(4))
  have ok: "aggregateOk positive_decimal a" "valid_json (aggregate_json a)" "valid_json (state a)"
    using wf_commit_facts(3,5,9) [OF f(1)] c(2) by simp_all
  have l: "within_limits PERSISTED_PROCESSING_JSON_LIMITS (aggregate_json a)" using f(1) c(2) by (simp add: wf_commit_def)
  have v: "validateCommittedAggregateCheckpoint X (aggregate_json a) = Inr a" using ok(1) l a safe by (simp add: validate_typed)
  have id: "runId (manifest r) = run" using runsOk_run [OF represents_facts(1) [OF rep] run] by blast
  have r: "aggRunId a = run" "stateHash a = digest X (stateDomain (reducerName (behavior (manifest r))) (reducerVersion (behavior (manifest r)))) (state a)"
    "checkpointHash a = digest X (js ''peas/aggregate-checkpoint/v2'') (checkpointContent a)"
    using f(3) c(2) id by (simp_all add: commitSound_def Let_def)
  have "verifyAggregate X S a = Inr ()"
    using r run ok(2,3) v by (simp add: verifyAggregate_def computeAggregateCheckpointHash_def valid_checkpointContent)
  then show ?thesis
    using i represents_facts(5) [OF rep, of run i] Some v ok(2) a by (simp add: loadAggregate_def)
qed

lemma loadOrGenesis_represents:
  assumes rep: "represents X S h" and safe: "protoSafe X PROCESSOR_SCHEMA_FIELDS"
    and run: "runs S (runId (manifest (registration P))) = Some (registration P)"
  shows "loadOrGenesis X P S = Inr (endCursor (genesisOf X (registration P)) (h (runId (manifest (registration P)))))"
proof -
  note m = runsOk_run [OF represents_facts(1) [OF rep] run]
  then have "createGenesisRunCursor X (registration P) = Inr (genesisOf X (registration P))"
    using genesis_valid(1) [of "registration P"] by (simp add: createGenesisRunCursor_Inr)
  then show ?thesis
    using loadCursor_represents [OF rep safe run] represents_facts(4) [OF rep, of "runId (manifest (registration P))"]
    by (simp add: loadOrGenesis_def endCursor_def)
qed

end


section \<open>A processor in step with its log\<close>

definition verifiable :: "externals \<Rightarrow> StoredEvent list \<Rightarrow> bool" where
  "verifiable X es \<longleftrightarrow> list_all (\<lambda>e. wf_stored e \<and> sealed X e) es \<and> linked zeroHash es \<and>
     protoSafe X EVENT_SCHEMA_FIELDS \<and> protoSafe X PROCESSOR_SCHEMA_FIELDS"

text \<open>The processor's run has committed the first \<open>n\<close> events of \<open>es\<close>.\<close>

definition ready :: "externals \<Rightarrow> StoredEvent list \<Rightarrow> procState \<Rightarrow> nat \<Rightarrow> bool" where
  "ready X es PS n \<longleftrightarrow> initialized (fst PS) \<and> n \<le> length es \<and>
     (let run = runId (manifest (registration (fst PS))) in
      runs (snd PS) run = Some (registration (fst PS)) \<and>
      (\<exists>h. represents X (snd PS) h \<and> map commitEvent (h run) = take n es))"

lemma produceCommit_fields:
  "produceCommit X P S k e = Inr c \<Longrightarrow> commitEvent c = e \<and> cursorRunId (commitCursor c) = runId (manifest (registration P))"
  by (auto simp: produceCommit_def nextCursor_def Let_def bindR_eq_Inr)

lemma process_initialized:
  "initialized P \<Longrightarrow> process X log v (P, S) =
     (case planProcess X log v P S of
        Inl e \<Rightarrow> ((P, S), Inl e)
      | Inr (AlreadyProcessed k) \<Rightarrow> ((P, S), Inr k)
      | Inr (Produce c) \<Rightarrow>
          (case commit X log (commit_json c) S of
             (S', Inl e) \<Rightarrow> ((P, S'), Inl e)
           | (S', Inr _) \<Rightarrow> ((P, S'), Inr (commitCursor c))))"
  by (simp add: process_def initialize_def split: sum.split Plan.split)

abbreviation currentCursor :: "externals \<Rightarrow> procState \<Rightarrow> RunCursor" where
  "currentCursor X PS \<equiv> previousOf X (snd PS) (registration (fst PS))"

context node_env
begin

lemma ready_cursor:
  assumes "ready X es PS n" "protoSafe X PROCESSOR_SCHEMA_FIELDS"
  shows "loadOrGenesis X (fst PS) (snd PS) = Inr (currentCursor X PS)"
    "verifyCursor X (fst PS) (currentCursor X PS) = Inr (currentCursor X PS)"
    "processedPosition (currentCursor X PS) = dec n"
    "lastEventHash (currentCursor X PS) = endHash zeroHash (take n es)"
    "cursorSound X (registration (fst PS)) (currentCursor X PS)"
proof -
  obtain P S where PS: "PS = (P, S)" by fastforce
  let ?r = "registration P" and ?k = "previousOf X S (registration P)"
  let ?run = "runId (manifest ?r)"
  from assms(1) obtain h where h: "represents X S h" "map commitEvent (h ?run) = take n es" "runs S ?run = Some ?r" "n \<le> length es"
    by (auto simp: ready_def Let_def PS)
  then have len: "length (h ?run) = n" by (metis length_map length_take min.absorb2)
  have k: "?k = endCursor (genesisOf X ?r) (h ?run)" by (rule previousOf_history [OF h(1,3)])
  have ch: "chained X ?r (genesisOf X ?r) (h ?run)" using represents_facts(3) [OF h(1,3)] by blast
  note m = runsOk_run [OF represents_facts(1) [OF h(1)] h(3)]
  show "loadOrGenesis X (fst PS) (snd PS) = Inr (currentCursor X PS)"
    using loadOrGenesis_represents [OF h(1) assms(2) h(3)] k by (simp add: PS)
  show pos: "processedPosition (currentCursor X PS) = dec n"
    using chained_positions(2) [OF ch, of 0] len k by (simp add: dec_0 PS)
  show "lastEventHash (currentCursor X PS) = endHash zeroHash (take n es)"
    using chained_linked [OF ch] h(2) k by (simp add: PS)
  have sound: "within_limits PERSISTED_PROCESSING_JSON_LIMITS (cursor_json ?k) \<and> cursorOk ?k \<and>
      cursorHash ?k = digest X (js ''peas/run-cursor/v2'') (cursorContent ?k) \<and> cursorRunId ?k = ?run \<and>
      cursorManifestHash ?k = manifestHash ?r \<and> cursorBehaviorHash ?k = behaviorHash ?r"
  proof (cases "h ?run = []")
    case True
    then have "?k = genesisOf X ?r" using k by simp
    moreover have "cursorOk (genesisOf X ?r)" using m by (intro genesis_valid(3)) blast+
    moreover have "within_limits PERSISTED_PROCESSING_JSON_LIMITS (cursor_json (genesisOf X ?r))"
      using m by (intro genesis_within_limits) blast+
    ultimately show ?thesis by simp
  next
    case False
    then show ?thesis using cursor_in_history [OF ch False] k by (simp add: endCursor_def)
  qed
  have "?k = genesisOf X ?r" if "processedPosition ?k = js ''0''"
  proof -
    have "processedPosition ?k = dec n" using pos by (simp add: PS)
    then have "dec n = dec 0" unfolding that dec_0 by (rule sym)
    then have "n = 0" by simp
    then show ?thesis using len k by simp
  qed
  with sound show "cursorSound X (registration (fst PS)) (currentCursor X PS)" by (simp add: cursorSound_def PS)
  have v: "validateRunCursor X (cursor_json ?k) = Inr ?k" "valid_json (cursor_json ?k)"
    using sound assms(2) by (auto simp: validate_typed dest: within_limits_valid)
  then show "verifyCursor X (fst PS) (currentCursor X PS) = Inr (currentCursor X PS)"
    using sound by (simp add: verifyCursor_def PS computeRunCursorHash_def valid_cursorContent)
qed

end

locale processing = node_env X + event_log reader contents inv
  for X :: externals and reader :: "'l \<Rightarrow> EventLogReader" and contents :: "'l \<Rightarrow> StoredEvent list" and inv :: "'l \<Rightarrow> bool" +
  assumes verifiable_law: "inv l \<Longrightarrow> verifiable X (contents l)"
begin

lemma safe: "inv l \<Longrightarrow> protoSafe X EVENT_SCHEMA_FIELDS" "inv l \<Longrightarrow> protoSafe X PROCESSOR_SCHEMA_FIELDS"
  using verifiable_law [of l] by (simp_all add: verifiable_def)

lemma event_at:
  assumes log_inv: "inv l" and i: "i < length (contents l)"
  shows "wf_stored (contents l ! i)" "sealed X (contents l ! i)" "canonE (contents l ! i) = contents l ! i"
    "position (contents l ! i) = dec (i + 1)" "previousEventHash (contents l ! i) = endHash zeroHash (take i (contents l))"
    "eventHash (contents l ! i) = endHash zeroHash (take (i + 1) (contents l))"
    "validateStoredEvent X (stored_json (contents l ! i)) = Inr (contents l ! i)"
    "getEvent (reader l) (position (contents l ! i)) = Inr (Some (contents l ! i))"
proof -
  let ?es = "contents l"
  show e: "wf_stored (?es ! i)" "sealed X (?es ! i)" using verifiable_law [OF log_inv] i by (auto simp: verifiable_def list_all_length)
  show c: "canonE (?es ! i) = ?es ! i" "position (?es ! i) = dec (i + 1)"
    using replayable_nth(1,3) [OF replay_law [OF log_inv] i] by simp_all
  have "linked zeroHash (take i ?es @ ?es ! i # drop (Suc i) ?es)"
    using verifiable_law [OF log_inv] i by (simp add: verifiable_def id_take_nth_drop [symmetric])
  then show "previousEventHash (?es ! i) = endHash zeroHash (take i ?es)" by (simp add: linked_append)
  show "eventHash (?es ! i) = endHash zeroHash (take (i + 1) ?es)" using i by (simp add: take_Suc_conv_app_nth)
  show "validateStoredEvent X (stored_json (?es ! i)) = Inr (?es ! i)" using e c safe [OF log_inv] by (simp add: validateStoredEvent_json)
  show "getEvent (reader l) (position (?es ! i)) = Inr (Some (?es ! i))"
    using get_law [OF log_inv, of "i + 1"] i c(2) by simp
qed

lemma verify_at: "inv l \<Longrightarrow> i < length (contents l) \<Longrightarrow>
    verifyStoredEvent X (contents l ! i) (Some (endHash zeroHash (take i (contents l)))) = Inr () \<and>
    verifyStoredEvent X (contents l ! i) None = Inr ()"
  using event_at [of l i] safe [of l] by (simp add: verifyStoredEvent_Inr)

lemma exact_at: "inv l \<Longrightarrow> i < length (contents l) \<Longrightarrow>
    verifyExactPersistedEvent X (reader l) (contents l ! i) (endHash zeroHash (take i (contents l))) = Inr ()"
  using verify_at [of l i] event_at [of l i] wf_stored_valid(1) by (simp add: verifyExactPersistedEvent_def)

lemma intString_nat [simp]: "intString (int n) = dec n" "intString (int n + 1) = dec (n + 1)"
    "intString (1 + int n) = dec (n + 1)" "intString (int n + int m) = dec (n + m)"
  by (simp_all add: intString_def nat_add_distrib)

lemma predecessor_at:
  assumes log_inv: "inv l" and "i < length (contents l)"
  shows "persistedPredecessorHash X (reader l) (int (i + 1)) = Inr (endHash zeroHash (take i (contents l)))"
proof (cases i)
  case 0
  then show ?thesis by (simp add: persistedPredecessorHash_def)
next
  case (Suc j)
  then have j: "j < length (contents l)" using assms by simp
  have p: "intString (int (i + 1) - 1) = dec (j + 1)" using Suc by (simp add: intString_def nat_add_distrib)
  have n: "int (i + 1) \<noteq> 1" using Suc by simp
  show ?thesis
    unfolding persistedPredecessorHash_def p using n event_at [OF log_inv j] verify_at [OF log_inv j] Suc by simp
qed

lemma scan_at:
  "inv l \<Longrightarrow> n + k \<le> length (contents l) \<Longrightarrow>
   scanSuffix X (take k (drop n (contents l))) (int n) (endHash zeroHash (take n (contents l))) =
     Inr (int (n + k), endHash zeroHash (take (n + k) (contents l)))"
proof (induction k arbitrary: n)
  case (Suc k)
  let ?es = "contents l"
  have n: "n < length ?es" using Suc.prems by simp
  have d: "take (Suc k) (drop n ?es) = ?es ! n # take k (drop (Suc n) ?es)" using n by (simp add: Cons_nth_drop_Suc [symmetric])
  have "scanSuffix X (take k (drop (Suc n) ?es)) (int (Suc n)) (endHash zeroHash (take (Suc n) ?es)) =
      Inr (int (Suc n + k), endHash zeroHash (take (Suc n + k) ?es))"
    using Suc.prems by (intro Suc.IH) simp_all
  then show ?case using verify_at [OF Suc.prems(1) n] event_at [OF Suc.prems(1) n] unfolding d by (simp add: add.commute)
qed simp

lemma suffix_loop:
  "inv l \<Longrightarrow> m \<le> n \<Longrightarrow> n \<le> length (contents l) \<Longrightarrow>
   verifySuffixLoop X (reader l) (int n) (int m) (endHash zeroHash (take m (contents l))) =
     Inr (int n, endHash zeroHash (take n (contents l)))"
proof (induction "n - m" arbitrary: m rule: less_induct)
  case less
  let ?es = "contents l"
  show ?case
  proof (cases "m = n")
    case True
    then show ?thesis by (simp add: verifySuffixLoop.simps)
  next
    case False
    define k where "k = min 1000 (n - m)"
    have k: "1 \<le> k" "k \<le> 10000" "m + k \<le> n" "m < n" using False less.prems by (auto simp: k_def)
    have lim: "min 1000 (int n - int m) = int k" using less.prems by (auto simp: k_def min_def)
    have page: "readAfter (reader l) (dec m) (NInt (int k)) = Inr (pageOf ?es m k)" by (rule read_law [OF less.prems(1) k(1,2)])
    have ne: "take k (drop m ?es) \<noteq> []" using k less.prems by simp
    have next': "nextPosition (pageOf ?es m k) = dec (m + k)" using k less.prems by (simp add: pageOf_def)
    have "verifySuffixLoop X (reader l) (int n) (int (m + k)) (endHash zeroHash (take (m + k) ?es)) =
        Inr (int n, endHash zeroHash (take n ?es))"
      using k less.prems by (intro less.hyps) simp_all
    then show ?thesis
      using k ne next' scan_at [of l m k] less.prems
      by (subst verifySuffixLoop.simps) (simp add: lim page pageOf_def)
  qed
qed

text \<open>A processed event is acknowledged with the current cursor, and nothing changes.\<close>

lemma process_again:
  assumes log_inv: "inv l" and "ready X (contents l) PS n" "i < n"
  shows "process X (reader l) (stored_json (contents l ! i)) PS = (PS, Inr (currentCursor X PS))"
proof -
  let ?es = "contents l" and ?k = "currentCursor X PS"
  have n: "n \<le> length ?es" "initialized (fst PS)" using assms(2) by (auto simp: ready_def)
  then have i: "i < length ?es" using assms(3) by simp
  note k = ready_cursor [OF assms(2) safe(2) [OF log_inv]]
  have init: "initialize X PS = Inr PS" using n by (simp add: initialize_def)
  have "verifySuffixLoop X (reader l) (int n) (int (i + 1)) (endHash zeroHash (take (i + 1) ?es)) =
      Inr (int n, endHash zeroHash (take n ?es))"
    using log_inv assms(3) n by (intro suffix_loop) simp_all
  then have suffix: "verifyProcessedSuffix X (reader l) (int (i + 1)) (eventHash (?es ! i)) ?k = Inr ()"
    using k(3,4) event_at(6) [OF log_inv i] by (simp add: verifyProcessedSuffix_def)
  have le: "int (i + 1) \<le> int n" using assms(3) by simp
  have "planProcess X (reader l) (stored_json (?es ! i)) (fst PS) (snd PS) = Inr (AlreadyProcessed ?k)"
    unfolding planProcess_def event_at(7) [OF log_inv i] bindR_simps verify_at [OF log_inv i, THEN conjunct2] k(1) k(2) k(3) event_at(4) [OF log_inv i]
      bigInt_dec if_P [OF le] predecessor_at [OF log_inv i] exact_at [OF log_inv i] suffix ..
  then show ?thesis by (simp add: process_def init)
qed

text \<open>Processing the next event extends the run by it, if it succeeds.\<close>

lemma plan_next:
  assumes log_inv: "inv l" and r: "ready X (contents l) PS n" and n: "n < length (contents l)"
  shows "planProcess X (reader l) (stored_json (contents l ! n)) (fst PS) (snd PS) =
    (if logicalAtMs (contents l ! n) < cursorLogicalAtMs (currentCursor X PS)
     then Inl (PlainError ''Logical clock regression at event position'')
     else bindR (produceCommit X (fst PS) (snd PS) (currentCursor X PS) (contents l ! n)) (\<lambda>c. Inr (Produce c)))"
proof -
  note k = ready_cursor [OF r safe(2) [OF log_inv]]
  have lt: "\<not> int (n + 1) \<le> int n" "\<not> int (n + 1) \<noteq> int n + 1" by simp_all
  show ?thesis
    unfolding planProcess_def event_at(7) [OF log_inv n] bindR_simps verify_at [OF log_inv n, THEN conjunct2] k(1) k(2) k(3)
      event_at(4) [OF log_inv n] bigInt_dec if_not_P [OF lt(1)] if_not_P [OF lt(2)] k(4) exact_at [OF log_inv n] ..
qed

lemma process_next:
  assumes log_inv: "inv l" and r: "ready X (contents l) PS n" and n: "n < length (contents l)"
    and p: "process X (reader l) (stored_json (contents l ! n)) PS = (PS', Inr k)"
  shows "ready X (contents l) PS' (n + 1) \<and> k = currentCursor X PS'"
proof -
  let ?es = "contents l"
  obtain P S where PS: "PS = (P, S)" by fastforce
  let ?run = "runId (manifest (registration P))"
  from r obtain h where h: "represents X S h" "map commitEvent (h ?run) = take n ?es" "runs S ?run = Some (registration P)"
      "initialized P" by (auto simp: ready_def Let_def PS)
  have plan: "planProcess X (reader l) (stored_json (?es ! n)) P S = Inr q \<Longrightarrow>
      \<exists>c. produceCommit X P S (currentCursor X PS) (?es ! n) = Inr c \<and> q = Produce c" for q
    using plan_next [OF log_inv r n] by (auto simp: PS bindR_eq_Inr Inr_eq_bindR split: if_splits)
  from p obtain c where c: "produceCommit X P S (currentCursor X PS) (?es ! n) = Inr c" "k = commitCursor c" "fst PS' = P"
      "commit X (reader l) (commit_json c) S = (snd PS', Inr ())"
    unfolding PS process_initialized [OF h(4)] by (auto split: sum.splits Plan.splits prod.splits dest!: plan simp: PS)
  have ev: "commitEvent c = ?es ! n" "cursorRunId (commitCursor c) = ?run" using produceCommit_fields [OF c(1)] by simp_all
  from c(4) obtain c' r' where acc: "accepts X (reader l) (commit_json c) S r' c'" "snd PS' = committed X r' c' S"
    by (auto simp: commit_Inr)
  then have c': "c' = canonC c" by (simp add: accepts_def validateProcessingCommit_json)
  have r': "r' = registration P" using acc(1) h(3) ev(2) by (simp add: accepts_def c')
  have e: "commitEvent c' = ?es ! n" "cursorRunId (commitCursor c') = ?run" "commitCursor c' = k"
    using ev c(2) event_at(3) [OF log_inv n] by (simp_all add: c')
  have "represents X (snd PS') (h(?run := h ?run @ [c']))"
    using commit_refines [OF h(1) acc(1)] acc(2) e(2) by simp
  moreover have "map commitEvent ((h(?run := h ?run @ [c'])) ?run) = take (n + 1) ?es"
    using h(2) e(1) n by (simp add: take_Suc_conv_app_nth)
  moreover have "runs (snd PS') ?run = Some (registration P)" using acc(2) h(3) by (simp add: committed_fields)
  ultimately have "ready X ?es PS' (n + 1)" using n h(4) c(3) by (auto simp: ready_def Let_def)
  moreover have "k = currentCursor X PS'"
    using acc(2) e c(3) by (simp add: previousOf_def committed_fields)
  ultimately show ?thesis ..
qed

lemma processEvents_ready:
  assumes "inv l" "ready X (contents l) PS n" "k = currentCursor X PS" "n + m \<le> length (contents l)"
    and "processEvents X (reader l) (take m (drop n (contents l))) k PS = (PS', Inr k')"
  shows "ready X (contents l) PS' (n + m) \<and> k' = currentCursor X PS'"
  using assms(2-)
proof (induction m arbitrary: n k PS)
  case (Suc m)
  let ?es = "contents l"
  have n: "n < length ?es" using Suc.prems by simp
  have d: "take (Suc m) (drop n ?es) = ?es ! n # take m (drop (Suc n) ?es)" using n by (simp add: Cons_nth_drop_Suc [symmetric])
  from Suc.prems(4) obtain PS1 k1 where p: "process X (reader l) (stored_json (?es ! n)) PS = (PS1, Inr k1)"
      "processEvents X (reader l) (take m (drop (Suc n) ?es)) k1 PS1 = (PS', Inr k')"
    unfolding d by (auto split: prod.splits sum.splits)
  from process_next [OF assms(1) Suc.prems(1) n p(1)] have "ready X ?es PS1 (Suc n)" "k1 = currentCursor X PS1" by simp_all
  from Suc.IH [OF this _ p(2)] Suc.prems(3) show ?case by simp
qed simp

lemma processEvents_append:
  "processEvents X log (xs @ ys) k PS =
     (case processEvents X log xs k PS of (PS', Inl e) \<Rightarrow> (PS', Inl e) | (PS', Inr k') \<Rightarrow> processEvents X log ys k' PS')"
  by (induction xs arbitrary: k PS) (auto split: prod.splits sum.splits)

lemma pages_eq_events:
  assumes "inv l" "ready X (contents l) PS n" "k = currentCursor X PS" "1 \<le> s" "s \<le> 10000"
  shows "processPages X (reader l) (NInt (int s)) k PS = Some (processEvents X (reader l) (drop n (contents l)) k PS)"
  using assms(2,3)
proof (induction "length (contents l) - n" arbitrary: n k PS rule: less_induct)
  case less
  let ?es = "contents l"
  note k = ready_cursor(3) [OF less.prems(1) safe(2) [OF assms(1)]]
  have page: "readAfter (reader l) (processedPosition k) (NInt (int s)) = Inr (pageOf ?es n s)"
    unfolding less.prems(2) k by (rule read_law [OF assms(1,4,5)])
  have split: "drop n ?es = take s (drop n ?es) @ drop (n + s) ?es"
    using append_take_drop_id [of s "drop n ?es"] by (simp add: add.commute)
  obtain PS1 res where e: "processEvents X (reader l) (take s (drop n ?es)) k PS = (PS1, res)" by fastforce
  show ?case
  proof (cases res)
    case (Inl err)
    then show ?thesis
      by (subst processPages.simps, subst split)
        (simp only: page sum.case e prod.case pageOf_def EventPage.simps processEvents_append)
  next
    case (Inr k1)
    show ?thesis
    proof (cases "n + s < length ?es")
      case True
      have "ready X ?es PS1 (n + s) \<and> k1 = currentCursor X PS1"
        using processEvents_ready [OF assms(1) less.prems, of s PS1 k1] True e Inr by simp
      then have "processPages X (reader l) (NInt (int s)) k1 PS1 = Some (processEvents X (reader l) (drop (n + s) ?es) k1 PS1)"
        using True assms(4) by (intro less.hyps) auto
      with True show ?thesis
        by (subst processPages.simps, subst split)
          (simp only: page sum.case e prod.case pageOf_def EventPage.simps processEvents_append Inr if_True)
    next
      case False
      then show ?thesis
        by (subst processPages.simps, subst split)
          (simp add: page e pageOf_def processEvents_append Inr split: prod.split sum.split)
    qed
  qed
qed

lemma available_eq_events:
  assumes "inv l" "initialize X PS = Inr PS'" "ready X (contents l) PS' n" "1 \<le> s" "s \<le> 10000"
  shows "processAvailable X (reader l) (NInt (int s)) PS =
    Some (processEvents X (reader l) (drop n (contents l)) (currentCursor X PS') PS')"
  using ready_cursor(1) [OF assms(3) safe(2) [OF assms(1)]] pages_eq_events [OF assms(1,3) refl assms(4,5)] assms
  by (simp add: processAvailable_def assertPageLimit_def)

end

end
