(* ===== verification/Production.thy ===== *)
theory Production
  imports ProcessorLaws
begin

text \<open>
  What the processor produces, its store accepts. The outputs of a transition are materialised in
  canonical order with contiguous ordinals and pairwise different dedupe identities
  (\<open>materialize_sound\<close>), and a commit that the processor produces for the next event satisfies
  every check of the store except those that depend on sizes, on hash collisions and on dedupe keys
  of earlier commits (\<open>produced_accepted\<close>).
\<close>

section \<open>Materialised outputs\<close>

definition drafted :: "externals \<Rightarrow> RunRegistration \<Rightarrow> StoredEvent \<Rightarrow> jsstring \<Rightarrow> nat \<times> Draft \<Rightarrow> ImmutableOutput \<Rightarrow> bool" where
  "drafted X r ev i entry q \<longleftrightarrow> outRunId q = runId (manifest r) \<and> inputEventId q = eventId ev \<and>
     inputPosition q = position ev \<and> outAggregateId q = i \<and> category q = draftCategory (snd entry) \<and>
     ordinal q = int (fst entry) \<and> canonO q = q \<and>
     bodyHash q = digest X (bodyDomain (category q)) (body q) \<and> valid_json (outputIdentity r ev q) \<and>
     outputId q = digest X (js ''peas/output-id/v2'') (outputIdentity r ev q) \<and>
     (dedupeKey q = None \<longleftrightarrow> category q = DecisionOutput)"

lemma outputIdentity_update [simp]: "outputIdentity r ev (q\<lparr>outputId := a, body := b\<rparr>) = outputIdentity r ev q"
  by (simp add: outputIdentity_def)

lemma outputBody_dedupe:
  "outputBody X d run = Inr m \<Longrightarrow> matDedupeKey m = None \<longleftrightarrow> draftCategory d = DecisionOutput"
  by (cases d) (auto simp: bindR_eq_Inr split: if_splits)

lemma materializeDraft_Inr:
  assumes "materializeDraft X r ev i entry acc = Inr acc'"
  obtains q where "drafted X r ev i entry q" "matOutputs acc' = matOutputs acc @ [q]"
    "matDedupe acc' = matDedupe acc @ dedupes X [q]" "set (dedupes X [q]) \<inter> set (matDedupe acc) = {}"
proof -
  let ?cat = "draftCategory (snd entry)" and ?run = "runId (manifest r)"
  from assms obtain m seen where m: "outputBody X (snd entry) ?run = Inr m"
      "materializeDedupe X ?run ?cat (matDedupeKey m) (matDedupe acc) = Inr seen" "valid_json (matBody m)"
    by (auto simp: materializeDraft_def Let_def bindR_eq_Inr)
  define q0 where "q0 = \<lparr>outputId = [], outRunId = ?run, inputEventId = eventId ev, inputPosition = position ev,
           outAggregateId = i, category = ?cat, ordinal = int (fst entry), dedupeKey = matDedupeKey m,
           notBeforeLogicalMs = matNotBefore m, body = matBody m, bodyHash = digest X (bodyDomain ?cat) (matBody m)\<rparr>"
  define q where "q = q0\<lparr>outputId := digest X (js ''peas/output-id/v2'') (outputIdentity r ev q0), body := norm (matBody m)\<rparr>"
  from assms m have acc': "acc' = \<lparr>matOutputs = matOutputs acc @ [q], matDedupe = seen\<rparr>" "valid_json (outputIdentity r ev q0)"
    by (auto simp: materializeDraft_def Let_def bindR_eq_Inr q_def q0_def)
  have id: "outputIdentity r ev q = outputIdentity r ev q0" unfolding q_def by (rule outputIdentity_update)
  have d: "matDedupeKey m = None \<longleftrightarrow> ?cat = DecisionOutput" by (rule outputBody_dedupe [OF m(1)])
  have f: "outputId q = digest X (js ''peas/output-id/v2'') (outputIdentity r ev q0)" "outRunId q = ?run" "category q = ?cat"
    "dedupeKey q = matDedupeKey m" "body q = norm (matBody m)" "bodyHash q = digest X (bodyDomain ?cat) (matBody m)"
    "canonO q = q" "inputEventId q = eventId ev" "inputPosition q = position ev" "outAggregateId q = i" "ordinal q = int (fst entry)"
    by (simp_all add: q_def q0_def canonO_def)
  have dr: "drafted X r ev i entry q" using f id acc'(2) d by (simp add: drafted_def)
  have "seen = matDedupe acc @ dedupes X [q] \<and> set (dedupes X [q]) \<inter> set (matDedupe acc) = {}"
    using m(2) d f(2-4)
    by (cases "matDedupeKey m")
      (auto simp: materializeDedupe_def bindR_eq_Inr computeOutputDedupeIdentity_Inr dedupes_def dedupeOf_def split: if_splits)
  with dr acc'(1) show thesis by (intro that [of q]) simp_all
qed

lemma dedupes_append: "dedupes X (xs @ ys) = dedupes X xs @ dedupes X ys"
  by (simp add: dedupes_def)

lemma dedupes_single: "distinct (dedupes X [q])"
  by (simp add: dedupes_def)

lemma materialize_fold:
  assumes "foldR (materializeDraft X r ev i) es \<lparr>matOutputs = [], matDedupe = []\<rparr> = Inr acc"
  shows "list_all2 (drafted X r ev i) es (matOutputs acc) \<and> matDedupe acc = dedupes X (matOutputs acc) \<and>
    distinct (dedupes X (matOutputs acc))"
  using assms
proof (induction es arbitrary: acc rule: rev_induct)
  case Nil
  then show ?case by (auto simp: dedupes_def)
next
  case (snoc e es)
  then obtain a where a: "foldR (materializeDraft X r ev i) es \<lparr>matOutputs = [], matDedupe = []\<rparr> = Inr a"
      "materializeDraft X r ev i e a = Inr acc"
    by (auto simp: foldR_append bindR_eq_Inr)
  obtain q where q: "drafted X r ev i e q" "matOutputs acc = matOutputs a @ [q]"
      "matDedupe acc = matDedupe a @ dedupes X [q]" "set (dedupes X [q]) \<inter> set (matDedupe a) = {}"
    by (rule materializeDraft_Inr [OF a(2)])
  from snoc.IH [OF a(1)] q show ?case
    by (auto simp: dedupes_append list_all2_appendI dedupes_single)
qed

lemma draftGroups_ordinals:
  "map fst (filter (\<lambda>e. draftCategory (snd e) = cat) (draftGroups t)) =
     [0..<length (filter (\<lambda>e. draftCategory (snd e) = cat) (draftGroups t))]"
proof -
  have g: "filter (\<lambda>e. draftCategory (snd e) = cat) (enumerate 0 xs) = (if k = cat then enumerate 0 xs else [])"
    if "list_all (\<lambda>d. draftCategory d = k) xs" for xs k
    using that by (auto simp: filter_empty_conv filter_id_conv in_set_enumerate_eq list_all_length)
  have "filter (\<lambda>e. draftCategory (snd e) = cat) (draftGroups t) =
      (case cat of DecisionOutput \<Rightarrow> enumerate 0 (map Decision (decisions t)) | JobOutput \<Rightarrow> enumerate 0 (map Job (jobs t))
       | OutboxOutput \<Rightarrow> enumerate 0 (map Outbox (outbox t)))"
    using g [of DecisionOutput "map Decision (decisions t)"] g [of JobOutput "map Job (jobs t)"]
      g [of OutboxOutput "map Outbox (outbox t)"]
    by (cases cat) (simp_all add: draftGroups_def list_all_iff)
  then show ?thesis by (simp split: OutputCategory.split)
qed

lemma draftGroups_sorted: "sorted (map (\<lambda>e. categoryRank (draftCategory (snd e))) (draftGroups t))"
proof -
  have "map (\<lambda>e. categoryRank (draftCategory (snd e))) (draftGroups t) =
      replicate (length (decisions t)) 0 @ replicate (length (jobs t)) 1 @ replicate (length (outbox t)) 2"
    by (simp add: draftGroups_def) (auto simp: list_eq_iff_nth_eq nth_enumerate_eq)
  then show ?thesis by (auto simp: sorted_append)
qed

text \<open>A processor whose reducer is the one its manifest names, as the constructor enforces.\<close>

definition matched :: "DeterministicProcessor \<Rightarrow> bool" where
  "matched P \<longleftrightarrow> reducerName (behavior (manifest (registration P))) = name (reducer P) \<and>
     reducerVersion (behavior (manifest (registration P))) = reducerVersionTag (reducer P)"

context node_env
begin

lemma materialize_sound:
  assumes "materialize X r ev i t = Inr outs" "list_all (outputBodyOk X) outs" "list_all outputOk outs"
    and "distinct (map outputId outs)"
    and c: "commitEvent c = ev" "cursorRunId (commitCursor c) = runId (manifest r)" "aggregateId (commitAggregate c) = i"
  shows "outputsSound X r c outs" "map canonO outs = outs"
proof -
  from assms(1) have d: "list_all2 (drafted X r ev i) (draftGroups t) outs" "distinct (dedupes X outs)"
    by (auto simp: materialize_def bindR_eq_Inr dest: materialize_fold)
  have keys: "map (\<lambda>q. (ordinal q, category q)) outs = map (\<lambda>e. (int (fst e), draftCategory (snd e))) (draftGroups t)"
    using d(1) by (induction rule: list_all2_induct) (simp_all add: drafted_def)
  have dr: "\<exists>e. drafted X r ev i e q" if "q \<in> set outs" for q
    using d(1) that by (metis in_set_conv_nth list_all2_conv_all_nth)
  show "map canonO outs = outs"
  proof (rule map_idI)
    fix q
    assume "q \<in> set outs"
    then obtain e where "drafted X r ev i e q" using dr by blast
    then show "canonO q = q" unfolding drafted_def by (elim conjE)
  qed
  have "list_all (outputSound X r c) outs"
    unfolding list_all_iff
  proof
    fix q
    assume q: "q \<in> set outs"
    then obtain e where "drafted X r ev i e q" using dr by blast
    moreover have "isSafeInteger (ordinal q)" "outputBodyOk X q" using assms(2,3) q by (simp_all add: list_all_iff outputOk_def)
    ultimately show "outputSound X r c q" using c by (simp add: outputSound_def drafted_def)
  qed
  moreover have "sorted (map (categoryRank \<circ> category) outs)"
    using draftGroups_sorted [of t] arg_cong [OF keys, of "map (categoryRank \<circ> snd)"] by (simp add: comp_def)
  moreover have "map ordinal (ofCategory cat outs) = map int [0..<length (ofCategory cat outs)]" for cat
  proof -
    have "map (\<lambda>q. (ordinal q, category q)) (ofCategory cat outs) =
        map (\<lambda>e. (int (fst e), draftCategory (snd e))) (filter (\<lambda>e. draftCategory (snd e) = cat) (draftGroups t))"
      using arg_cong [OF keys, of "filter (\<lambda>p. snd p = cat)"] by (simp add: ofCategory_def filter_map comp_def)
    from arg_cong [OF this, of "map fst"] arg_cong [OF this, of length]
    have "map ordinal (ofCategory cat outs) = map int (map fst (filter (\<lambda>e. draftCategory (snd e) = cat) (draftGroups t)))"
      "length (ofCategory cat outs) = length (filter (\<lambda>e. draftCategory (snd e) = cat) (draftGroups t))"
      by (simp_all add: comp_def)
    then show ?thesis unfolding draftGroups_ordinals by simp
  qed
  ultimately show "outputsSound X r c outs" using d(2) assms(4) by (simp add: outputsSound_def)
qed

lemma newProcessor_Inr:
  assumes "newProcessor X red v = Inr P"
  shows "matched P" "reducer P = red" "\<not> initialized P" "wf_manifest (manifest (registration P))"
    "registration P = registrationOf X (manifest (registration P))" "protoSafe X PROCESSOR_SCHEMA_FIELDS"
proof -
  from assms obtain reg where reg: "deriveRunRegistration X v = Inr reg" "registration P = reg"
    by (auto simp: newProcessor_def Let_def bindR_eq_Inr split: if_splits)
  show "matched P" "reducer P = red" "\<not> initialized P"
    using assms by (auto simp: newProcessor_def Let_def bindR_eq_Inr matched_def split: if_splits)
  show "wf_manifest (manifest (registration P))" "registration P = registrationOf X (manifest (registration P))"
    "protoSafe X PROCESSOR_SCHEMA_FIELDS" using derived_manifest [OF reg(1)] reg(2) by blast+
qed

lemma nextCheckpoint_Inr:
  assumes "nextCheckpoint X P ev i prior st = Inr a"
  shows "aggRunId a = runId (manifest (registration P)) \<and> aggregateId a = i \<and> lastInputPosition a = position ev \<and> state a = st \<and>
    bindR (bigInt (version prior)) (\<lambda>n. Inr (intString (n + 1))) = Inr (version a) \<and>
    stateHash a = digest X (stateDomain (name (reducer P)) (reducerVersionTag (reducer P))) st \<and>
    checkpointHash a = digest X (js ''peas/aggregate-checkpoint/v2'') (checkpointContent a)"
  using assms
  by (auto simp: nextCheckpoint_def reducerStateHash_def computeAggregateCheckpointHash_def checkpointContent_def Let_def bindR_eq_Inr)

lemma nextCursor_Inr:
  assumes "nextCursor X P p ev a outs = Inr k"
  shows "cursorRunId k = runId (manifest (registration P)) \<and> cursorManifestHash k = manifestHash (registration P) \<and>
    cursorBehaviorHash k = behaviorHash (registration P) \<and> processedPosition k = position ev \<and>
    cursorLogicalAtMs k = logicalAtMs ev \<and> lastEventHash k = eventHash ev \<and>
    stateHead k = nextStateHead X p ev (aggregateId a) (stateHash a) \<and> decisionHead k = decisionHeadOf X p ev outs \<and>
    cursorHash k = digest X (js ''peas/run-cursor/v2'') (cursorContent k)"
  using assms by (auto simp: nextCursor_def computeRunCursorHash_def cursorContent_def Let_def bindR_eq_Inr nextDecisionHead_Inr)

lemma runReducer_state: "runReducer X P ev prior = Inr (st, t) \<Longrightarrow>
    norm st = st \<and> within_limits PERSISTED_PROCESSING_JSON_LIMITS st"
  by (auto simp: runReducer_def bindR_eq_Inr checkJson_ok cloneJson_Inr)

lemma loadAggregate_stored: "loadAggregate X run i S = Inr stored \<Longrightarrow>
    (stored = None \<longleftrightarrow> mapGet (aggregates S) run i = None) \<and>
    (\<forall>a. stored = Some a \<longrightarrow> (\<exists>b. mapGet (aggregates S) run i = Some b \<and> version a = version b))"
  by (auto simp: loadAggregate_def bindR_eq_Inr validateCommittedAggregateCheckpoint_Inr aggregate_of_norm copyAggregate_def
      cloneJson_Inr split: option.splits dest: within_limits_valid)

lemma produced:
  assumes "produceCommit X P S p ev = Inr c"
  obtains i prior st t where "aggregate_id i" "runReducer X P ev prior = Inr (st, t)"
    "nextCheckpoint X P ev i prior st = Inr (commitAggregate c)"
    "materialize X (registration P) ev i t = Inr (commitOutputs c)"
    "nextCursor X P p ev (commitAggregate c) (commitOutputs c) = Inr (commitCursor c)"
    "expectedPosition c = processedPosition p" "commitEvent c = ev"
    "nextVersion S (runId (manifest (registration P))) i = Inr (version (commitAggregate c))"
proof -
  from assms obtain i stored prior st t where s: "aggregate_id i"
      "loadAggregate X (runId (manifest (registration P))) i S = Inr stored"
      "(case stored of Some a \<Rightarrow> Inr a | None \<Rightarrow> aggregateGenesis X P i) = Inr prior" "runReducer X P ev prior = Inr (st, t)"
      "nextCheckpoint X P ev i prior st = Inr (commitAggregate c)" "materialize X (registration P) ev i t = Inr (commitOutputs c)"
      "nextCursor X P p ev (commitAggregate c) (commitOutputs c) = Inr (commitCursor c)"
      "expectedPosition c = processedPosition p" "commitEvent c = ev"
    by (auto simp: produceCommit_def bindR_eq_Inr)
  have "version prior = (case mapGet (aggregates S) (runId (manifest (registration P))) i of Some a \<Rightarrow> version a | None \<Rightarrow> js ''0'')"
    using s(3) loadAggregate_stored [OF s(2)]
    by (cases stored) (auto simp: aggregateGenesis_def Let_def bindR_eq_Inr)
  then have "nextVersion S (runId (manifest (registration P))) i = Inr (version (commitAggregate c))"
    using nextCheckpoint_Inr [OF s(5)] by (simp add: nextVersion_def)
  with s show thesis by (intro that)
qed

text \<open>The processor's commit passes all of the store's checks that do not depend on what it was given.\<close>

lemma produced_sound:
  assumes p: "produceCommit X P S p ev = Inr c" and m: "matched P"
    and ev: "sealed X ev" "canonE ev = ev"
    and wf: "wf_commit X c" and ids: "distinct (map outputId (commitOutputs c))"
  shows "commitSound X (registration P) c" "canonC c = c"
proof -
  obtain i prior st t where s: "aggregate_id i" "runReducer X P ev prior = Inr (st, t)"
    "nextCheckpoint X P ev i prior st = Inr (commitAggregate c)"
    "materialize X (registration P) ev i t = Inr (commitOutputs c)"
    "nextCursor X P p ev (commitAggregate c) (commitOutputs c) = Inr (commitCursor c)"
    "expectedPosition c = processedPosition p" "commitEvent c = ev"
    "nextVersion S (runId (manifest (registration P))) i = Inr (version (commitAggregate c))"
    by (rule produced [OF p])
  note a = nextCheckpoint_Inr [OF s(3)] and k = nextCursor_Inr [OF s(5)] and st = runReducer_state [OF s(2)]
  have w: "list_all (outputBodyOk X) (commitOutputs c)" "list_all outputOk (commitOutputs c)"
    using wf_commit_facts(6) [OF wf] by (auto simp: list_all_iff wf_output_def)
  have "cursorRunId (commitCursor c) = runId (manifest (registration P))" "aggregateId (commitAggregate c) = i"
    using a k by blast+
  note o = materialize_sound [OF s(4) w ids s(7) this]
  show "commitSound X (registration P) c"
    using a k st o(1) ev(1) s(7) m by (simp add: commitSound_def Let_def matched_def)
  show "canonC c = c" using o(2) ev(2) s(7) a st by (simp add: canonC_def canonA_def)
qed

end

context processing
begin

lemma process_succeeds:
  assumes log_inv: "inv l" and r: "ready X (contents l) PS n" and n: "n < length (contents l)" and m: "matched (fst PS)"
    and p: "produceCommit X (fst PS) (snd PS) (currentCursor X PS) (contents l ! n) = Inr c"
    and time: "cursorLogicalAtMs (currentCursor X PS) \<le> logicalAtMs (contents l ! n)"
    and wf: "wf_commit X c" "distinct (map outputId (commitOutputs c))" "noConflict X (snd PS) (commitOutputs c)"
  shows "process X (reader l) (stored_json (contents l ! n)) PS =
    ((fst PS, committed X (registration (fst PS)) c (snd PS)), Inr (commitCursor c))"
proof -
  let ?e = "contents l ! n" and ?k = "currentCursor X PS" and ?r = "registration (fst PS)"
  note e = event_at [OF log_inv n] and k = ready_cursor [OF r safe(2) [OF log_inv]]
  have c: "commitSound X ?r c" "canonC c = c" using produced_sound [OF p m e(2,3) wf(1,2)] by blast+
  obtain i prior st t where s: "aggregate_id i" "runReducer X (fst PS) ?e prior = Inr (st, t)"
    "nextCheckpoint X (fst PS) ?e i prior st = Inr (commitAggregate c)"
    "materialize X ?r ?e i t = Inr (commitOutputs c)"
    "nextCursor X (fst PS) ?k ?e (commitAggregate c) (commitOutputs c) = Inr (commitCursor c)"
    "expectedPosition c = processedPosition ?k" "commitEvent c = ?e"
    "nextVersion (snd PS) (runId (manifest ?r)) i = Inr (version (commitAggregate c))"
    by (rule produced [OF p])
  have i: "aggregateId (commitAggregate c) = i" using nextCheckpoint_Inr [OF s(3)] by blast
  note kc = nextCursor_Inr [OF s(5)]
  have run: "cursorRunId (commitCursor c) = runId (manifest ?r)" using kc by blast
  have reg: "runs (snd PS) (runId (manifest ?r)) = Some ?r" "initialized (fst PS)" using r by (simp_all add: ready_def Let_def)
  have "persisted X (reader l) ?e" using e(1,2,8) by (auto simp: persisted_def)
  moreover have "follows X ?k c"
    using s(6,7) k(3,4) e(4,5) time kc by (simp add: follows_def)
  moreover have "validateProcessingCommit X (commit_json c) = Inr c"
    using wf(1) c(2) safe [OF log_inv] by (simp add: validateProcessingCommit_json)
  ultimately have "accepts X (reader l) (commit_json c) (snd PS) ?r c"
    using s(7,8) run i reg(1) c(1) k(5) wf(3) by (simp add: accepts_def)
  then have "commit X (reader l) (commit_json c) (snd PS) = (committed X ?r c (snd PS), Inr ())" by (auto simp: commit_Inr)
  then show ?thesis
    using plan_next [OF log_inv r n] p time process_initialized [OF reg(2), of X "reader l" "stored_json ?e" "snd PS"] by simp
qed

end

end
