(* ===== verification/Sha256.thy ===== *)
theory Sha256
  imports NodeEnv
begin

unbundle bit_operations_syntax

text \<open>
  SHA-256 as FIPS 180-4 defines it, on 32-bit words, and its lower-case hexadecimal rendering. It
  is not code of the repository: it provides the environment in which the interface
  \<open>node_env\<close> is interpreted, so that the theorems of the development hold of the digest the
  program really uses.
\<close>

type_synonym w32 = "32 word"

definition round_constants :: "w32 list" where
  "round_constants =
     [1116352408, 1899447441, 3049323471, 3921009573, 961987163, 1508970993, 2453635748, 2870763221,
      3624381080, 310598401, 607225278, 1426881987, 1925078388, 2162078206, 2614888103, 3248222580,
      3835390401, 4022224774, 264347078, 604807628, 770255983, 1249150122, 1555081692, 1996064986,
      2554220882, 2821834349, 2952996808, 3210313671, 3336571891, 3584528711, 113926993, 338241895,
      666307205, 773529912, 1294757372, 1396182291, 1695183700, 1986661051, 2177026350, 2456956037,
      2730485921, 2820302411, 3259730800, 3345764771, 3516065817, 3600352804, 4094571909, 275423344,
      430227734, 506948616, 659060556, 883997877, 958139571, 1322822218, 1537002063, 1747873779,
      1955562222, 2024104815, 2227730452, 2361852424, 2428436474, 2756734187, 3204031479, 3329325298]"

definition initial_hash :: "w32 list" where
  "initial_hash = [1779033703, 3144134277, 1013904242, 2773480762, 1359893119, 2600822924, 528734635, 1541459225]"

definition small_sigma0 :: "w32 \<Rightarrow> w32" where
  "small_sigma0 x = word_rotr 7 x XOR word_rotr 18 x XOR drop_bit 3 x"

definition small_sigma1 :: "w32 \<Rightarrow> w32" where
  "small_sigma1 x = word_rotr 17 x XOR word_rotr 19 x XOR drop_bit 10 x"

definition big_sigma0 :: "w32 \<Rightarrow> w32" where
  "big_sigma0 x = word_rotr 2 x XOR word_rotr 13 x XOR word_rotr 22 x"

definition big_sigma1 :: "w32 \<Rightarrow> w32" where
  "big_sigma1 x = word_rotr 6 x XOR word_rotr 11 x XOR word_rotr 25 x"

definition schedule_step :: "nat \<Rightarrow> w32 list \<Rightarrow> w32 list" where
  "schedule_step t ws =
     ws @ [small_sigma1 (ws ! (t - 2)) + ws ! (t - 7) + small_sigma0 (ws ! (t - 15)) + ws ! (t - 16)]"

definition message_schedule :: "w32 list \<Rightarrow> w32 list" where
  "message_schedule block = fold schedule_step [16..<64] block"

definition sha_round :: "w32 list \<Rightarrow> w32 \<times> w32 \<Rightarrow> w32 list" where
  "sha_round st kw =
     (let a = st ! 0; b = st ! 1; c = st ! 2; d = st ! 3; e = st ! 4; f = st ! 5; g = st ! 6; h = st ! 7;
          t1 = h + big_sigma1 e + ((e AND f) XOR ((NOT e) AND g)) + fst kw + snd kw;
          t2 = big_sigma0 a + ((a AND b) XOR (a AND c) XOR (b AND c))
      in [t1 + t2, a, b, c, d + t1, e, f, g])"

definition compress :: "w32 list \<Rightarrow> w32 list \<Rightarrow> w32 list" where
  "compress st block =
     map (\<lambda>(x, y). x + y) (zip st (foldl sha_round st (zip round_constants (message_schedule block))))"

definition pad :: "8 word list \<Rightarrow> 8 word list" where
  "pad bs = bs @ 0x80 # replicate ((119 - length bs mod 64) mod 64) 0 @
     map (\<lambda>i. ucast (drop_bit (56 - 8 * i) (of_nat (8 * length bs) :: 64 word))) [0..<8]"

definition be_word :: "8 word list \<Rightarrow> nat \<Rightarrow> w32" where
  "be_word bs i = foldl (\<lambda>acc b. push_bit 8 acc OR ucast b) 0 (take 4 (drop (4 * i) bs))"

fun blocks :: "8 word list \<Rightarrow> w32 list list" where
  "blocks bs = (if length bs < 64 then [] else map (be_word bs) [0..<16] # blocks (drop 64 bs))"

declare blocks.simps [simp del]

definition sha256 :: "8 word list \<Rightarrow> w32 list" where
  "sha256 bs = foldl compress initial_hash (blocks (pad bs))"

definition hex_word :: "w32 \<Rightarrow> jsstring" where
  "hex_word w = map (\<lambda>i. hex_digit (unat (drop_bit (28 - 4 * i) w) mod 16)) [0..<8]"

definition sha256Hex :: "8 word list \<Rightarrow> jsstring" where
  "sha256Hex bs = concat (map hex_word (sha256 bs))"

lemma length_foldl_step: "(\<And>s x. length s = 8 \<Longrightarrow> length (f s x) = 8) \<Longrightarrow> length s = 8 \<Longrightarrow> length (foldl f s xs) = 8"
  by (induction xs arbitrary: s) simp_all

lemma length_sha256 [simp]: "length (sha256 bs) = 8"
  unfolding sha256_def
proof (rule length_foldl_step)
  show "length (initial_hash) = 8" by (simp add: initial_hash_def)
  show "length (compress s x) = 8" if "length s = 8" for s x
    using that length_foldl_step [of sha_round s] by (simp add: compress_def sha_round_def Let_def)
qed

lemma is_hex_digit: "n < 16 \<Longrightarrow> is_hex (hex_digit n)"
  by (cases "n < 10")
    (simp_all add: is_hex_def is_digit_def hex_digit_def word_le_nat_alt unat_of_nat del: of_nat_add)

lemma hash64_sha256Hex: "hash64 (sha256Hex bs)"
proof -
  have "length (concat (map hex_word ws)) = 8 * length ws" for ws
    by (induction ws) (simp_all add: hex_word_def)
  moreover have "list_all is_hex (concat (map hex_word ws))" for ws
    by (induction ws) (auto simp: hex_word_def list_all_iff is_hex_digit)
  ultimately show ?thesis by (simp add: hash64_def sha256Hex_def)
qed

definition nodeRealm :: externals where
  "nodeRealm = cleanRealm sha256Hex"

interpretation node: node_env nodeRealm
  unfolding nodeRealm_def by (rule cleanRealm_env) (rule hash64_sha256Hex)

text \<open>The standard's test vector for the three-byte message \<open>abc\<close>.\<close>

lemma sha256_abc:
  "sha256 [97, 98, 99] =
     [3128432319, 2399260650, 1094795486, 1571693091, 2953011619, 2518121116, 3021012833, 4060091821]"
  by code_simp

end
