(* ===== verification/Replay.thy ===== *)
theory Replay
  imports Production Sha256
begin

text \<open>
  Live processing and replay. Both event logs of the program satisfy the interface of
  \<open>processing\<close>; the interpretations here are for the environment with the executable SHA-256,
  \<open>processing_memory\<close> and \<open>processing_captured\<close> are the same facts for any environment.
  A captured log built from a live log answers every read the same way, so a processor cannot tell
  them apart.
\<close>

section \<open>The two logs\<close>

definition liveLog :: "externals \<Rightarrow> InMemoryEventLog \<Rightarrow> bool" where
  "liveLog X L \<longleftrightarrow> wf_log X L \<and> verifiable X (logEvents L)"

definition replayLog :: "externals \<Rightarrow> StoredEvent list \<Rightarrow> bool" where
  "replayLog X es \<longleftrightarrow> replayable es \<and> verifiable X es"

lemma processing_memory: "node_env X \<Longrightarrow> processing X memoryReader logEvents (liveLog X)"
  by (intro processing.intro processing_axioms.intro event_log.intro)
    (auto simp: liveLog_def memory_log.get_law memory_log.read_law wf_log_replayable)

lemma processing_captured: "node_env X \<Longrightarrow> processing X capturedReader (\<lambda>es. es) (replayLog X)"
  by (intro processing.intro processing_axioms.intro event_log.intro)
    (auto simp: replayLog_def captured_log.get_law captured_log.read_law)

interpretation live: processing nodeRealm memoryReader logEvents "liveLog nodeRealm"
  by (rule processing_memory) (rule node.node_env_axioms)

interpretation replay: processing nodeRealm capturedReader "\<lambda>es. es" "replayLog nodeRealm"
  by (rule processing_captured) (rule node.node_env_axioms)

text \<open>A captured log is accepted exactly when its events can be verified.\<close>

lemma captured_verifiable:
  assumes "node_env X" "newCapturedEventLog X es = Inr fs" "protoSafe X EVENT_SCHEMA_FIELDS" "protoSafe X PROCESSOR_SCHEMA_FIELDS"
  shows "replayLog X fs"
proof -
  note a = assms(2) [unfolded node_env.newCapturedEventLog_Inr [OF assms(1)]]
  have "linked p (map canonE es) = linked p es" for p by (induction es arbitrary: p) auto
  then have "verifiable X fs" using a assms(3,4) by (auto simp: verifiable_def list_all_iff)
  then show ?thesis using node_env.captured_replayable [OF assms(1,2)] by (simp add: replayLog_def)
qed


section \<open>Readers that answer alike\<close>

definition sameReads :: "EventLogReader \<Rightarrow> EventLogReader \<Rightarrow> bool" where
  "sameReads a b \<longleftrightarrow> (\<forall>n. getEvent a (dec n) = getEvent b (dec n)) \<and>
     (\<forall>n k. 1 \<le> k \<longrightarrow> k \<le> 10000 \<longrightarrow> readAfter a (dec n) (NInt (int k)) = readAfter b (dec n) (NInt (int k)))"

lemma logs_same_reads:
  assumes "wf_log X L"
  shows "sameReads (memoryReader L) (capturedReader (logEvents L))"
  using memory_log.get_law [OF assms] memory_log.read_law [OF assms]
    captured_log.get_law [OF wf_log_replayable [OF assms]] captured_log.read_law [OF wf_log_replayable [OF assms]]
  by (simp add: sameReads_def)

lemma same_get: "sameReads a b \<Longrightarrow> nonnegative_decimal s \<Longrightarrow> getEvent a s = getEvent b s"
  using dec_parse [of s] by (metis sameReads_def)

lemma same_suffix:
  "sameReads a b \<Longrightarrow> 0 \<le> p \<Longrightarrow> verifySuffixLoop X a q p h = verifySuffixLoop X b q p h"
proof (induction X a q p h rule: verifySuffixLoop.induct)
  case (1 X a q p h)
  show ?case
  proof (cases "q \<le> p")
    case True
    then show ?thesis by (simp add: verifySuffixLoop.simps)
  next
    case False
    define k where "k = nat (min 1000 (q - p))"
    have k: "min 1000 (q - p) = int k" "1 \<le> k" "k \<le> 10000" using False by (auto simp: k_def)
    have p: "intString p = dec (nat p)" using 1(3) by (simp add: intString_def)
    have r: "readAfter a (intString p) (NInt (min 1000 (q - p))) = readAfter b (intString p) (NInt (min 1000 (q - p)))"
      using 1(2) k unfolding p k(1) by (simp add: sameReads_def)
    have "verifySuffixLoop X a q (fst s) (snd s) = verifySuffixLoop X b q (fst s) (snd s)"
      if "readAfter a (intString p) (NInt (min 1000 (q - p))) = Inr page" "pageEvents page \<noteq> []"
        "scanSuffix X (pageEvents page) p h = Inr s" "nextPosition page = intString (fst s)" for page s
      using that 1 False scanSuffix_advances [OF that(3)] by (intro 1(1)) auto
    then show ?thesis
      using False by (subst (1 2) verifySuffixLoop.simps) (auto simp: r [symmetric] intro!: bindR_cong)
  qed
qed

lemma same_predecessor: "sameReads a b \<Longrightarrow> 0 < p \<Longrightarrow> persistedPredecessorHash X a p = persistedPredecessorHash X b p"
proof -
  assume s: "sameReads a b" "0 < p"
  then have "intString (p - 1) = dec (nat (p - 1))" by (simp add: intString_def)
  with s have "getEvent a (intString (p - 1)) = getEvent b (intString (p - 1))" by (simp add: sameReads_def)
  then show ?thesis unfolding persistedPredecessorHash_def by (rule arg_cong)
qed

lemma same_exact: "sameReads a b \<Longrightarrow> nonnegative_decimal (position e) \<Longrightarrow>
    verifyExactPersistedEvent X a e h = verifyExactPersistedEvent X b e h"
  by (simp add: verifyExactPersistedEvent_def same_get)

context node_env
begin

lemma same_commit: "sameReads a b \<Longrightarrow> commit X a v S = commit X b v S"
proof -
  assume s: "sameReads a b"
  have "checkPersistedEvent X a c = checkPersistedEvent X b c" if "validateProcessingCommit X v = Inr c" for c
    using wf_commit_facts(7) [OF validateProcessingCommit_wf(1) [OF that]] same_get [OF s]
    by (simp add: checkPersistedEvent_def positive_nonnegative)
  then have "prepareCommit X a v S = prepareCommit X b v S"
    by (auto simp: prepareCommit_def intro!: bindR_cong)
  then show ?thesis by (simp add: commit_def)
qed

lemma same_plan: "sameReads a b \<Longrightarrow> planProcess X a v P S = planProcess X b v P S"
proof -
  assume s: "sameReads a b"
  have p: "positive_decimal (position e)" if "validateStoredEvent X v = Inr e" for e
    using validateStoredEvent_wf [OF that] by (simp add: wf_stored_def conforms_stored storedOk_def)
  have "verifyProcessedSuffix X a (int (parse_nat (position e))) h k = verifyProcessedSuffix X b (int (parse_nat (position e))) h k" for e h k
    using same_suffix [OF s] by (simp add: verifyProcessedSuffix_def)
  then show ?thesis
    unfolding planProcess_def
    by (intro bindR_cong refl)
      (use p s in \<open>auto simp: same_exact positive_nonnegative bigInt_nonneg same_predecessor dec_parse_positive intro!: bindR_cong\<close>)
qed

lemma same_process: "sameReads a b \<Longrightarrow> process X a v PS = process X b v PS"
  unfolding process_def using same_plan [of a b] same_commit [of a b] by presburger

lemma same_events: "sameReads a b \<Longrightarrow> processEvents X a es k PS = processEvents X b es k PS"
  by (induction es arbitrary: k PS) (auto simp: same_process [of a b] split: prod.split sum.split)

text \<open>A new processor for a run the store does not know starts before the first event.\<close>

lemma new_processor_ready:
  assumes "newProcessor X red v = Inr P" "represents X S h" "runs S (runId (manifest (registration P))) = None"
  obtains S' where "initialize X (P, S) = Inr (P\<lparr>initialized := True\<rparr>, S')" "represents X S' h"
    "ready X es (P\<lparr>initialized := True\<rparr>, S') 0"
proof -
  note p = newProcessor_Inr [OF assms(1)]
  let ?r = "registration P"
  have v: "validateRunRegistration X (registration_json ?r) = Inr ?r"
    using validateRunRegistration_Inr [OF p(6,4)] p(5) by metis
  let ?S = "S\<lparr>runs := (runs S)(runId (manifest ?r) \<mapsto> ?r)\<rparr>"
  have e: "ensureRun X (registration_json ?r) S = Inr ?S"
    using ensureRun_eq [OF represents_facts(1) [OF assms(2)] v] assms(3) by simp
  have h: "h (runId (manifest ?r)) = []" using represents_facts(2) [OF assms(2)] assms(3) by blast
  have rep: "represents X ?S h" by (rule ensureRun_refines [OF assms(2) e])
  show thesis
  proof (rule that)
    show "initialize X (P, S) = Inr (P\<lparr>initialized := True\<rparr>, ?S)" using p(3) e by (simp add: initialize_def)
    show "represents X ?S h" by (rule rep)
    show "ready X es (P\<lparr>initialized := True\<rparr>, ?S) 0" using rep h by (auto simp: ready_def Let_def)
  qed
qed

end

text \<open>Every operation of the processor on the memory log keeps the deployment reachable.\<close>

lemma initialize_reachable:
  "reachable X L (snd PS) \<Longrightarrow> initialize X PS = Inr PS' \<Longrightarrow> reachable X L (snd PS')"
  by (auto simp: initialize_def bindR_eq_Inr split: if_splits intro: reachable.register)

lemma process_reachable:
  assumes "reachable X L (snd PS)" "process X (memoryReader L) v PS = (PS', res)"
  shows "reachable X L (snd PS')"
proof (cases "initialize X PS")
  case (Inl e)
  then show ?thesis using assms by (auto simp: process_def)
next
  case (Inr PS1)
  have r1: "reachable X L (snd PS1)" by (rule initialize_reachable [OF assms(1) Inr])
  have c: "reachable X L (fst (commit X (memoryReader L) w (snd PS1)))" for w
    by (rule reachable.commit [OF r1, where res = "snd (commit X (memoryReader L) w (snd PS1))"]) simp
  have "commit X (memoryReader L) w (snd PS1) = (S2, u) \<Longrightarrow> reachable X L S2" for w S2 u
    using c [of w] by simp
  then show ?thesis using assms(2) r1 by (auto simp: process_def Inr split: sum.splits Plan.splits prod.splits)
qed

lemma processEvents_reachable:
  "reachable X L (snd PS) \<Longrightarrow> processEvents X (memoryReader L) es k PS = (PS', res) \<Longrightarrow> reachable X L (snd PS')"
proof (induction es arbitrary: k PS)
  case (Cons e es)
  obtain PS1 r1 where p: "process X (memoryReader L) (stored_json e) PS = (PS1, r1)" by fastforce
  have "reachable X L (snd PS1)" by (rule process_reachable [OF Cons.prems(1) p])
  with Cons p show ?case by (auto split: sum.splits)
qed simp

end
