(* ===== verification/Quota.thy ===== *)
theory Quota
  imports Clock JsonParse
begin

text \<open>
  \<^verbatim>\<open>src/adapters/market-acquisition/quota.ts\<close> and the frozen limits of
  \<^verbatim>\<open>contracts.ts\<close>: the rolling request quota and the two deadlines of a market
  acquisition. Numbers arrive as arbitrary JavaScript numbers and are used only once they are
  known to be safe integers. A sum of safe integers may leave the safe range, where the hardware
  rounds to the nearest double; \<open>dadd\<close> and \<open>dsub\<close> are that arithmetic on integers, used
  wherever a rounded sum is compared afterwards.

  What is shown: an attempt is admitted exactly if fewer starts than the effective limit lie in the
  window that ends with it; a wait is the earliest later moment at which the same evidence is
  admitted; and a sequence of admitted starts never has more than the limit in any window.
\<close>

section \<open>Limits\<close>

record MarketAcquisitionLimits =
  concurrentProviderRequests :: int
  rawArtifactBytes :: int
  aggregateVerifiedBytes :: int
  limitSuccessfulPages :: int
  recordsPerPage :: int
  limitNormalizedFacts :: int
  opaquePageTokenBytes :: int
  limitInstruments :: int
  historicalCalendarDates :: int
  attemptsPerAcquisition :: int
  attemptsPerLogicalPage :: int
  retryAfterMs :: int
  attemptDeadlineMs :: int
  acquisitionDeadlineMs :: int
  rateAttempts :: int
  rateWindowMs :: int

definition MARKET_ACQUISITION_LIMITS :: MarketAcquisitionLimits where
  "MARKET_ACQUISITION_LIMITS =
     \<lparr>concurrentProviderRequests = 1,
      rawArtifactBytes = 10 * 1024 * 1024,
      aggregateVerifiedBytes = 64 * 1024 * 1024,
      limitSuccessfulPages = 16,
      recordsPerPage = 10000,
      limitNormalizedFacts = 160000,
      opaquePageTokenBytes = 4096,
      limitInstruments = 64,
      historicalCalendarDates = 8,
      attemptsPerAcquisition = 48,
      attemptsPerLogicalPage = 3,
      retryAfterMs = 30000,
      attemptDeadlineMs = 30000,
      acquisitionDeadlineMs = 300000,
      rateAttempts = 30,
      rateWindowMs = 60000\<rparr>"

definition PROJECT_RATE_ATTEMPTS :: int where
  "PROJECT_RATE_ATTEMPTS = rateAttempts MARKET_ACQUISITION_LIMITS"

definition PROJECT_RATE_WINDOW_MS :: int where
  "PROJECT_RATE_WINDOW_MS = rateWindowMs MARKET_ACQUISITION_LIMITS"

definition ATTEMPT_DEADLINE_MS :: int where
  "ATTEMPT_DEADLINE_MS = attemptDeadlineMs MARKET_ACQUISITION_LIMITS"

definition ACQUISITION_DEADLINE_MS :: int where
  "ACQUISITION_DEADLINE_MS = acquisitionDeadlineMs MARKET_ACQUISITION_LIMITS"

lemmas market_limits = MARKET_ACQUISITION_LIMITS_def PROJECT_RATE_ATTEMPTS_def PROJECT_RATE_WINDOW_MS_def
  ATTEMPT_DEADLINE_MS_def ACQUISITION_DEADLINE_MS_def


section \<open>Floating-point sums of integers\<close>

text \<open>
  The double nearest to an integer, ties to the even mantissa (\<open>round_div\<close> is the rounding of
  the number parser). Integers of at most 53 bits are exact.
\<close>

definition dround :: "int \<Rightarrow> int" where
  "dround n = (let k = bits (nat \<bar>n\<bar>) - 53 in sgn n * int (round_div (nat \<bar>n\<bar>) (2 ^ k) * 2 ^ k))"

definition dadd :: "int \<Rightarrow> int \<Rightarrow> int" where "dadd a b = dround (a + b)"

definition dsub :: "int \<Rightarrow> int \<Rightarrow> int" where "dsub a b = dround (a - b)"

lemma dround_exact: "\<bar>n\<bar> < 2 ^ 53 \<Longrightarrow> dround n = n"
proof -
  assume "\<bar>n\<bar> < 2 ^ 53"
  then have "nat \<bar>n\<bar> < 2 ^ 53" by simp
  from bits_le [OF this] show ?thesis by (simp add: dround_def sgn_mult_abs)
qed

lemma dadd_exact: "\<bar>a + b\<bar> < 2 ^ 53 \<Longrightarrow> dadd a b = a + b"
  and dsub_exact: "\<bar>a - b\<bar> < 2 ^ 53 \<Longrightarrow> dsub a b = a - b"
  by (simp_all add: dadd_def dsub_def dround_exact)

lemma bits_ge: "2 ^ k \<le> n \<Longrightarrow> k < bits n"
proof (induction n arbitrary: k rule: bits.induct)
  case (1 n)
  show ?case
  proof (cases k)
    case 0
    with 1(2) show ?thesis by (subst bits.simps) simp
  next
    case (Suc j)
    with 1(2) have p: "2 * 2 ^ j \<le> n" by simp
    have "0 < (2::nat) * 2 ^ j" by simp
    with p have "n \<noteq> 0" "2 ^ j \<le> n div 2" by linarith+
    with 1(1) [of j] Suc show ?thesis by (subst bits.simps) simp
  qed
qed

text \<open>A sum outside the safe range stays outside it when rounded.\<close>

lemma dround_unsafe: "MAX_SAFE_INTEGER < n \<Longrightarrow> MAX_SAFE_INTEGER < dround n"
proof -
  assume n: "MAX_SAFE_INTEGER < n"
  let ?k = "bits (nat n) - 53"
  have "2 ^ 53 \<le> nat n" using n by (simp add: MAX_SAFE_INTEGER_def)
  have k: "2 ^ (52 + ?k) \<le> nat n"
  proof (rule ccontr)
    assume "\<not> ?thesis"
    then have "bits (nat n) \<le> 52 + ?k" by (intro bits_le) simp
    then show False using bits_ge [OF \<open>2 ^ 53 \<le> nat n\<close>] by simp
  qed
  have "2 ^ 52 \<le> nat n div 2 ^ ?k" using k by (simp add: power_add less_eq_div_iff_mult_less_eq)
  also have "\<dots> \<le> round_div (nat n) (2 ^ ?k)" by (simp add: round_div_def Let_def)
  finally have "2 ^ 52 * 2 ^ ?k \<le> round_div (nat n) (2 ^ ?k) * 2 ^ ?k" by simp
  moreover have "(2::nat) ^ 53 \<le> 2 ^ 52 * 2 ^ ?k"
  proof -
    have "1 \<le> ?k" using bits_ge [OF \<open>2 ^ 53 \<le> nat n\<close>] by simp
    then have "(2::nat) ^ 1 \<le> 2 ^ ?k" by (rule power_increasing) simp
    then show ?thesis by simp
  qed
  ultimately have "2 ^ 53 \<le> round_div (nat n) (2 ^ ?k) * 2 ^ ?k" by linarith
  then have "2 ^ 53 \<le> int (round_div (nat n) (2 ^ ?k) * 2 ^ ?k)" by (metis of_nat_le_iff of_nat_numeral of_nat_power)
  moreover have "dround n = int (round_div (nat n) (2 ^ ?k) * 2 ^ ?k)"
    using n by (simp add: dround_def Let_def MAX_SAFE_INTEGER_def)
  ultimately show ?thesis by (simp add: MAX_SAFE_INTEGER_def)
qed


section \<open>Operations\<close>

definition requireNonNegativeSafeInteger :: "jsnum \<Rightarrow> unit result" where
  "requireNonNegativeSafeInteger value = assertR (isEpochMs value) (RangeError ''invalid'')"

definition isPositive :: "jsnum \<Rightarrow> bool" where
  "isPositive n = (case n of NInt i \<Rightarrow> isSafeInteger i \<and> 1 \<le> i | _ \<Rightarrow> False)"

definition requirePositiveSafeInteger :: "jsnum \<Rightarrow> unit result" where
  "requirePositiveSafeInteger value = assertR (isPositive value) (RangeError ''invalid'')"

definition sortedAttemptStarts :: "jsnum list \<Rightarrow> int list result" where
  "sortedAttemptStarts values =
     bindR (mapR requireNonNegativeSafeInteger values) (\<lambda>_. Inr (sort (map numInt values)))"

datatype QuotaStopReason = QuotaExhausted | QuotaDeadline

datatype QuotaAdmission = Admit "int list" | Wait int | QuotaStop QuotaStopReason

definition evaluateRollingQuota :: "jsnum list \<Rightarrow> jsnum \<Rightarrow> jsnum \<Rightarrow> jsnum \<Rightarrow> QuotaAdmission result" where
  "evaluateRollingQuota attemptStarts proposedStartMs entitlementLimit acquisitionDeadlineAtMs =
     bindR (requireNonNegativeSafeInteger proposedStartMs) (\<lambda>_.
     bindR (requirePositiveSafeInteger entitlementLimit) (\<lambda>_.
     bindR (requireNonNegativeSafeInteger acquisitionDeadlineAtMs) (\<lambda>_.
     bindR (sortedAttemptStarts attemptStarts) (\<lambda>sorted.
     let proposed = numInt proposedStartMs;
         effectiveLimit = min PROJECT_RATE_ATTEMPTS (numInt entitlementLimit) in
     if list_ex (\<lambda>start. proposed < start) sorted then Inl (RangeError ''quota-window-future-start'')
     else
       let active = filter (\<lambda>start. dsub proposed PROJECT_RATE_WINDOW_MS < start) sorted in
       if int (length active) < effectiveLimit then Inr (Admit (sorted @ [proposed]))
       else
         let i = nat (int (length active) - effectiveLimit) in
         if length active \<le> i then Inr (QuotaStop QuotaExhausted)
         else
           let waitUntilMs = dadd (active ! i) PROJECT_RATE_WINDOW_MS in
           if numInt acquisitionDeadlineAtMs < waitUntilMs then Inr (QuotaStop QuotaDeadline)
           else Inr (Wait waitUntilMs)))))"

record DeadlineProof =
  dpAcquisitionDeclaredMonotonicMs :: jsnum
  dpAttemptStartedMonotonicMs :: jsnum
  dpNowMonotonicMs :: jsnum

definition validateDeadlineProof :: "DeadlineProof \<Rightarrow> unit result" where
  "validateDeadlineProof p =
     bindR (requireNonNegativeSafeInteger (dpAcquisitionDeclaredMonotonicMs p)) (\<lambda>_.
     bindR (requireNonNegativeSafeInteger (dpAttemptStartedMonotonicMs p)) (\<lambda>_.
     bindR (requireNonNegativeSafeInteger (dpNowMonotonicMs p)) (\<lambda>_.
     let declared = numInt (dpAcquisitionDeclaredMonotonicMs p);
         started = numInt (dpAttemptStartedMonotonicMs p);
         now = numInt (dpNowMonotonicMs p) in
     if started < declared \<or> now < started then Inl (RangeError ''deadline-monotonic-regression'')
     else if dsub now started > ATTEMPT_DEADLINE_MS then Inl (RangeError ''attempt-timeout'')
     else if dsub now declared > ACQUISITION_DEADLINE_MS then Inl (RangeError ''acquisition-deadline'')
     else Inr ())))"

definition retryFitsAcquisitionDeadline :: "jsnum \<Rightarrow> jsnum \<Rightarrow> jsnum \<Rightarrow> bool result" where
  "retryFitsAcquisitionDeadline nowMonotonicMs delayMs acquisitionDeclaredMonotonicMs =
     bindR (requireNonNegativeSafeInteger nowMonotonicMs) (\<lambda>_.
     bindR (requireNonNegativeSafeInteger delayMs) (\<lambda>_.
     bindR (requireNonNegativeSafeInteger acquisitionDeclaredMonotonicMs) (\<lambda>_.
     let now = numInt nowMonotonicMs; declared = numInt acquisitionDeclaredMonotonicMs in
     if now < declared then Inr False
     else Inr (dsub (dadd (dadd now (numInt delayMs)) ATTEMPT_DEADLINE_MS) declared \<le> ACQUISITION_DEADLINE_MS))))"


section \<open>The effect of the checks\<close>

definition epoch :: "int \<Rightarrow> bool" where "epoch n \<longleftrightarrow> 0 \<le> n \<and> n \<le> MAX_SAFE_INTEGER"

lemma require_Inr [simp]:
  "requireNonNegativeSafeInteger (NInt n) = Inr u \<longleftrightarrow> epoch n"
  "requirePositiveSafeInteger (NInt n) = Inr u \<longleftrightarrow> epoch n \<and> 1 \<le> n"
  by (auto simp: requireNonNegativeSafeInteger_def requirePositiveSafeInteger_def isEpochMs_def isPositive_def
      isSafeInteger_def epoch_def MAX_SAFE_INTEGER_def)

lemma numInt_NInt [simp]: "numInt (NInt n) = n"
  by (simp add: numInt_def)

lemma sortedAttemptStarts_Inr [simp]:
  "sortedAttemptStarts (map NInt ss) = Inr r \<longleftrightarrow> (\<forall>s\<in>set ss. epoch s) \<and> r = sort ss"
proof -
  have "mapR requireNonNegativeSafeInteger (map NInt ss) = Inr u \<Longrightarrow> \<forall>s\<in>set ss. epoch s" for u
    by (auto simp: mapR_eq_Inr list_all2_map1 list_all2_conv_all_nth in_set_conv_nth)
  moreover have "\<forall>s\<in>set ss. epoch s \<Longrightarrow>
      mapR requireNonNegativeSafeInteger (map NInt ss) = Inr (map (\<lambda>_. ()) (map NInt ss))"
    by (rule mapR_Inr) auto
  ultimately show ?thesis by (auto simp: sortedAttemptStarts_def bindR_eq_Inr comp_def)
qed

lemma epoch_window: "epoch n \<Longrightarrow> dsub n PROJECT_RATE_WINDOW_MS = n - PROJECT_RATE_WINDOW_MS"
  by (rule dsub_exact) (auto simp: epoch_def market_limits MAX_SAFE_INTEGER_def)

text \<open>The starts that count against a start at \<open>t\<close>.\<close>

definition activeStarts :: "int \<Rightarrow> int list \<Rightarrow> int list" where
  "activeStarts t ss = filter (\<lambda>s. t - PROJECT_RATE_WINDOW_MS < s) ss"

definition effectiveLimit :: "int \<Rightarrow> int" where
  "effectiveLimit e = min PROJECT_RATE_ATTEMPTS e"

lemma length_active_sort [simp]: "length (activeStarts t (sort ss)) = length (activeStarts t ss)"
proof -
  have "mset (activeStarts t (sort ss)) = mset (activeStarts t ss)" by (simp add: activeStarts_def)
  then show ?thesis by (rule mset_eq_length)
qed

lemma quota_cases:
  assumes "epoch p" "epoch e" "1 \<le> e" "epoch d" "\<forall>s\<in>set ss. epoch s \<and> s \<le> p"
  defines "active \<equiv> activeStarts p (sort ss)"
  defines "i \<equiv> nat (int (length active) - effectiveLimit e)"
  shows "evaluateRollingQuota (map NInt ss) (NInt p) (NInt e) (NInt d) =
    Inr (if int (length active) < effectiveLimit e then Admit (sort ss @ [p])
         else if d < active ! i + PROJECT_RATE_WINDOW_MS then QuotaStop QuotaDeadline
         else Wait (active ! i + PROJECT_RATE_WINDOW_MS))"
proof -
  have req: "requireNonNegativeSafeInteger (NInt p) = Inr ()" "requirePositiveSafeInteger (NInt e) = Inr ()"
    "requireNonNegativeSafeInteger (NInt d) = Inr ()" "sortedAttemptStarts (map NInt ss) = Inr (sort ss)"
    using assms(1-5) by simp_all
  have fut: "\<not> list_ex (\<lambda>s. p < s) (sort ss)" using assms(5) by (auto simp: list_ex_iff)
  have act: "filter (\<lambda>s. dsub p PROJECT_RATE_WINDOW_MS < s) (sort ss) = active"
    unfolding active_def activeStarts_def epoch_window [OF assms(1)] ..
  have lim: "1 \<le> effectiveLimit e" using assms(3) by (simp add: effectiveLimit_def market_limits)
  have i: "i < length active" if "\<not> int (length active) < effectiveLimit e" using that lim unfolding i_def by linarith
  have sum: "dadd (active ! i) PROJECT_RATE_WINDOW_MS = active ! i + PROJECT_RATE_WINDOW_MS \<or>
      d < dadd (active ! i) PROJECT_RATE_WINDOW_MS \<and> d < active ! i + PROJECT_RATE_WINDOW_MS"
    if "\<not> int (length active) < effectiveLimit e"
  proof -
    have "epoch (active ! i)" using nth_mem [OF i [OF that]] assms(5) unfolding active_def activeStarts_def by auto
    then show ?thesis
      using dadd_exact [of "active ! i" PROJECT_RATE_WINDOW_MS]
        dround_unsafe [of "active ! i + PROJECT_RATE_WINDOW_MS"] assms(4)
      by (cases "active ! i + PROJECT_RATE_WINDOW_MS \<le> MAX_SAFE_INTEGER")
        (auto simp: epoch_def dadd_def market_limits MAX_SAFE_INTEGER_def)
  qed
  show ?thesis
  proof (cases "int (length active) < effectiveLimit e")
    case True
    then show ?thesis
      unfolding evaluateRollingQuota_def req bindR_simps Let_def numInt_NInt act effectiveLimit_def [symmetric]
      using fut by simp
  next
    case False
    from False show ?thesis
      unfolding evaluateRollingQuota_def req bindR_simps Let_def numInt_NInt act effectiveLimit_def [symmetric]
        i_def [symmetric]
      using fut i [OF False] sum [OF False] by auto
  qed
qed

lemma quota_Inr:
  assumes "evaluateRollingQuota (map NInt ss) (NInt p) (NInt e) (NInt d) = Inr q"
  shows "epoch p" "epoch e" "1 \<le> e" "epoch d" "\<forall>s\<in>set ss. epoch s \<and> s \<le> p"
proof -
  from assms obtain ts where t: "epoch p" "epoch e \<and> 1 \<le> e" "epoch d"
    "sortedAttemptStarts (map NInt ss) = Inr ts" "\<not> list_ex (\<lambda>s. p < s) ts"
    unfolding evaluateRollingQuota_def Let_def numInt_NInt bindR_if 
    by (elim bindRE, simp only: require_Inr bindR_if, blast)
  then show "epoch p" "epoch e" "1 \<le> e" "epoch d" by simp_all
  from t(4,5) show "\<forall>s\<in>set ss. epoch s \<and> s \<le> p" by (auto simp: list_ex_iff not_less)
qed

lemma quota_admit:
  "evaluateRollingQuota (map NInt ss) (NInt p) (NInt e) (NInt d) = Inr (Admit r) \<longleftrightarrow>
   (epoch p \<and> epoch e \<and> 1 \<le> e \<and> epoch d \<and> (\<forall>s\<in>set ss. epoch s \<and> s \<le> p)) \<and>
   int (length (activeStarts p ss)) < effectiveLimit e \<and> r = sort ss @ [p]"
  (is "?q = _ \<longleftrightarrow> ?ok \<and> ?few \<and> _")
proof -
  have "?q = Inr (Admit r) \<longleftrightarrow> ?few \<and> r = sort ss @ [p]" if ?ok
    using that quota_cases [of p e d ss] by (simp, blast)
  moreover have "?q = Inr (Admit r) \<Longrightarrow> ?ok" using quota_Inr [of ss p e d "Admit r"] by blast
  ultimately show ?thesis by blast
qed


section \<open>Waiting\<close>

text \<open>In an ascending list the elements above a bound are a suffix.\<close>

lemma filter_above_suffix:
  fixes xs :: "int list"
  assumes "sorted xs"
  obtains k where "k \<le> length xs" "filter (\<lambda>s. a < s) xs = drop k xs" "\<And>i. i < k \<Longrightarrow> xs ! i \<le> a"
proof -
  have "\<exists>k \<le> length xs. filter (\<lambda>s. a < s) xs = drop k xs \<and> (\<forall>i < k. xs ! i \<le> a)"
    using assms
  proof (induction xs)
    case (Cons x xs)
    then obtain k where k: "k \<le> length xs" "filter (\<lambda>s. a < s) xs = drop k xs" "\<forall>i < k. xs ! i \<le> a" by auto
    show ?case
    proof (cases "a < x")
      case True
      with Cons.prems have "filter (\<lambda>s. a < s) (x # xs) = x # xs" by (auto simp: filter_id_conv)
      then show ?thesis by (intro exI [of _ 0]) simp
    next
      case False
      with k show ?thesis by (intro exI [of _ "Suc k"]) (auto simp: less_Suc_eq_0_disj)
    qed
  qed simp
  then show thesis using that by blast
qed

lemma count_above_nth:
  fixes xs :: "int list"
  assumes "sorted xs" "i < length xs"
  shows "length (filter (\<lambda>s. xs ! i < s) xs) \<le> length xs - Suc i"
    and "t < xs ! i \<Longrightarrow> length xs - i \<le> length (filter (\<lambda>s. t < s) xs)"
proof -
  from assms(1) obtain k where k: "k \<le> length xs" "filter (\<lambda>s. xs ! i < s) xs = drop k xs" "\<And>j. j < k \<Longrightarrow> xs ! j \<le> xs ! i"
    by (rule filter_above_suffix [where a = "xs ! i"]) blast
  have "xs ! i \<notin> set (drop k xs)" unfolding k(2) [symmetric] by simp
  moreover have "xs ! i \<in> set (drop k xs)" if "k \<le> i"
    using nth_mem [of "i - k" "drop k xs"] that assms(2) by simp
  ultimately have "i < k" by (meson not_less)
  then show "length (filter (\<lambda>s. xs ! i < s) xs) \<le> length xs - Suc i" unfolding k(2) by simp
next
  assume t: "t < xs ! i"
  from assms(1) obtain k where k: "k \<le> length xs" "filter (\<lambda>s. t < s) xs = drop k xs" "\<And>j. j < k \<Longrightarrow> xs ! j \<le> t"
    by (rule filter_above_suffix [where a = t]) blast
  have "k \<le> i" using k(3) [of i] t by (cases "i < k") auto
  then show "length xs - i \<le> length (filter (\<lambda>s. t < s) xs)" unfolding k(2) by simp
qed

text \<open>
  A wait is exact: with the same evidence the attempt is admitted at \<open>w\<close> and at no moment
  between the proposal and \<open>w\<close>.
\<close>

lemma quota_wait:
  assumes "evaluateRollingQuota (map NInt ss) (NInt p) (NInt e) (NInt d) = Inr (Wait w)"
  shows "p < w" "w \<le> d"
    "evaluateRollingQuota (map NInt ss) (NInt w) (NInt e) (NInt d) = Inr (Admit (sort ss @ [w]))"
    "p \<le> t \<Longrightarrow> t < w \<Longrightarrow> evaluateRollingQuota (map NInt ss) (NInt t) (NInt e) (NInt d) \<noteq> Inr (Admit r)"
proof -
  note ok = quota_Inr [OF assms]
  let ?act = "activeStarts p (sort ss)" let ?n = "int (length ?act)" let ?i = "nat (?n - effectiveLimit e)"
  have c: "\<not> ?n < effectiveLimit e" "w = ?act ! ?i + PROJECT_RATE_WINDOW_MS" "w \<le> d"
    using quota_cases [OF ok] assms by (auto split: if_splits)
  have lim: "1 \<le> effectiveLimit e" using ok(3) by (simp add: effectiveLimit_def market_limits)
  have i: "?i < length ?act" using c(1) lim by linarith
  have s: "sorted ?act" by (simp add: activeStarts_def sorted_wrt_filter)
  have mem: "?act ! ?i \<in> set ?act" using i by (rule nth_mem)
  then show pw: "p < w" using c(2) by (simp add: activeStarts_def)
  show "w \<le> d" by (rule c(3))
  have sub: "activeStarts t (sort ss) = filter (\<lambda>s. t - PROJECT_RATE_WINDOW_MS < s) ?act" if "p \<le> t" for t
    using that by (auto simp: activeStarts_def intro: filter_cong)
  have "length (activeStarts w ss) \<le> length ?act - Suc ?i"
  proof -
    have "activeStarts w (sort ss) = filter (\<lambda>s. ?act ! ?i < s) ?act" using sub [of w] pw c(2) by simp
    then have "length (activeStarts w (sort ss)) \<le> length ?act - Suc ?i" using count_above_nth(1) [OF s i] by presburger
    then show ?thesis unfolding length_active_sort .
  qed
  then have "int (length (activeStarts w ss)) < effectiveLimit e" using c(1) i lim by linarith
  moreover have "epoch w" using pw c(3) ok(1,4) by (auto simp: epoch_def)
  ultimately show "evaluateRollingQuota (map NInt ss) (NInt w) (NInt e) (NInt d) = Inr (Admit (sort ss @ [w]))"
    using ok pw by (force simp: quota_admit)
  show "evaluateRollingQuota (map NInt ss) (NInt t) (NInt e) (NInt d) \<noteq> Inr (Admit r)" if "p \<le> t" "t < w"
  proof -
    have "length ?act - ?i \<le> length (activeStarts t ss)"
    proof -
      have "t - PROJECT_RATE_WINDOW_MS < ?act ! ?i" using that(2) c(2) by simp
      then have "length ?act - ?i \<le> length (activeStarts t (sort ss))"
        using count_above_nth(2) [OF s i] sub [OF that(1)] by presburger
      then show ?thesis unfolding length_active_sort .
    qed
    then have "\<not> int (length (activeStarts t ss)) < effectiveLimit e" using c(1) i by linarith
    then show ?thesis by (simp add: quota_admit)
  qed
qed


section \<open>The rate bound\<close>

text \<open>Ascending starts in which any \<open>n + 1\<close> consecutive ones span at least a window.\<close>

definition spaced :: "nat \<Rightarrow> int list \<Rightarrow> bool" where
  "spaced n ss \<longleftrightarrow> sorted ss \<and> (\<forall>i. i + n < length ss \<longrightarrow> ss ! i + PROJECT_RATE_WINDOW_MS \<le> ss ! (i + n))"

lemma spaced_Nil [simp]: "spaced n []"
  by (simp add: spaced_def)

lemma spaced_admit:
  assumes "spaced n ss" "\<forall>s\<in>set ss. s \<le> p" "length (activeStarts p ss) < n"
  shows "spaced n (ss @ [p])"
proof -
  have s: "sorted ss" using assms(1) by (simp add: spaced_def)
  have "ss ! i + PROJECT_RATE_WINDOW_MS \<le> p" if "i + n = length ss" for i
  proof (rule ccontr)
    assume "\<not> ?thesis"
    then have "p - PROJECT_RATE_WINDOW_MS < ss ! i" by simp
    moreover have "i < length ss" using that assms(3) by linarith
    ultimately have "length ss - i \<le> length (activeStarts p ss)"
      using count_above_nth(2) [OF s] by (simp add: activeStarts_def)
    with that assms(3) show False by simp
  qed
  with assms show ?thesis by (auto simp: spaced_def sorted_append nth_append not_less less_Suc_eq)
qed

lemma spaced_window:
  assumes "spaced n ss"
  shows "length (filter (\<lambda>s. t - PROJECT_RATE_WINDOW_MS < s \<and> s \<le> t) ss) \<le> n"
proof (rule ccontr)
  assume many: "\<not> ?thesis"
  let ?a = "t - PROJECT_RATE_WINDOW_MS"
  have s: "sorted ss" using assms by (simp add: spaced_def)
  obtain k where k: "k \<le> length ss" "filter (\<lambda>s. ?a < s) ss = drop k ss" using filter_above_suffix [OF s] by metis
  obtain l where l: "l \<le> length ss" "filter (\<lambda>s. t < s) ss = drop l ss" using filter_above_suffix [OF s] by metis
  have "length (filter (\<lambda>s. ?a < s \<and> s \<le> t) ss) + length (filter (\<lambda>s. t < s) ss) = length (filter (\<lambda>s. ?a < s) ss)"
  proof -
    have "filter (\<lambda>s. t < s) (filter (\<lambda>s. ?a < s) ss) = filter (\<lambda>s. t < s) ss"
      by (auto simp: market_limits intro: filter_cong)
    moreover have "filter (\<lambda>s. \<not> t < s) (filter (\<lambda>s. ?a < s) ss) = filter (\<lambda>s. ?a < s \<and> s \<le> t) ss"
      by (auto simp: not_less conj_commute intro: filter_cong)
    ultimately show ?thesis
      using sum_length_filter_compl [of "\<lambda>s. t < s" "filter (\<lambda>s. ?a < s) ss"] by simp
  qed
  then have kl: "k + n < l" using many k l by simp
  have "drop k ss ! 0 \<in> set (drop k ss)" using kl l k(1) by (intro nth_mem) simp
  then have "drop k ss ! 0 \<in> set (filter (\<lambda>s. ?a < s) ss)" unfolding k(2) .
  then have above: "?a < ss ! k" using kl l k(1) by simp
  have "ss ! k + PROJECT_RATE_WINDOW_MS \<le> ss ! (k + n)" using assms kl l by (simp add: spaced_def)
  with above have "t < ss ! (k + n)" by simp
  then have "length ss - (k + n) \<le> length (drop l ss)"
    using count_above_nth(2) [OF s, of "k + n" t] kl l by (metis order_less_le_trans)
  with kl l show False by simp
qed

end
