(* ===== verification/Retry.thy ===== *)
theory Retry
  imports Quota Schema BigInt
begin

text \<open>
  \<^verbatim>\<open>src/adapters/market-acquisition/retry.ts\<close>: which failures of a provider request are
  retried, how often and after which delay.

  What is shown: \<open>decideRetry\<close> never throws; it answers with a retry exactly for a settled
  transport failure or a retryable status (for 429 only once temporary throttling is proved and the
  retry-after header is acceptable), within the attempt budgets; the delay is at least the project's
  and at most the retry-after ceiling.
\<close>

section \<open>Policy\<close>

definition RETRY_DELAYS_MS :: "int list" where "RETRY_DELAYS_MS = [1000, 2000]"

definition MAX_RETRY_AFTER_MS :: int where "MAX_RETRY_AFTER_MS = retryAfterMs MARKET_ACQUISITION_LIMITS"

definition MAX_ATTEMPTS_PER_PAGE :: int where
  "MAX_ATTEMPTS_PER_PAGE = attemptsPerLogicalPage MARKET_ACQUISITION_LIMITS"

definition MAX_ATTEMPTS_PER_ACQUISITION :: int where
  "MAX_ATTEMPTS_PER_ACQUISITION = attemptsPerAcquisition MARKET_ACQUISITION_LIMITS"

definition RETRYABLE_HTTP_STATUSES :: "int list" where
  "RETRYABLE_HTTP_STATUSES = [408, 429, 500, 502, 503, 504]"

lemmas retry_limits = RETRY_DELAYS_MS_def MAX_RETRY_AFTER_MS_def MAX_ATTEMPTS_PER_PAGE_def
  MAX_ATTEMPTS_PER_ACQUISITION_def

datatype QuotaClassification = TemporaryThrottlingProved | QuotaExhaustedClass | MissingClass | AmbiguousClass

datatype FailureKind =
    IdentityFailure | EntitlementFailure | AuthorizationFailure | FeedFailure | CapabilityFailure
  | CostFailure | ClockFailure | BoundFailure | SchemaFailure | PaginationFailure | RedactionFailure
  | ArtifactFailure | CorrectionFailure | JournalFailure | MalformedBodyFailure
  | CleanupUnprovableFailure | ZeroSpendFailure

datatype RetryFailure =
    PreResponseTransport
  | CleanPartialBodyTransport bool
  | Http jsnum QuotaClassification "jsstring option"
  | OtherFailure FailureKind

record RetryContext =
  failure :: RetryFailure
  ctxPageAttemptsStarted :: jsnum
  ctxAcquisitionAttemptsStarted :: jsnum

datatype RetryStopReason =
    NonRetryable | LaneDisabledStop | QuotaExhaustedStop | RetryAfterInvalid | AttemptBudgetExhausted | CleanupUnprovable

datatype RetryDecision = DoRetry int int | StopRetry RetryStopReason


section \<open>Operations\<close>

text \<open>
  The header is a canonical decimal. Its Number is exact up to \<open>2^53\<close>; a larger numeral rounds to a
  double of at least \<open>2^53\<close> or to infinity, and a product beyond the safe range rounds to at
  least \<open>2^53\<close>: both fail the safe-integer test like the exact value.
\<close>

definition parseRetryAfterMs :: "jsstring option \<Rightarrow> int option result" where
  "parseRetryAfterMs value =
     (case value of
        None \<Rightarrow> Inr None
      | Some v \<Rightarrow>
          if \<not> nonnegative_decimal v then Inl (TypeError ''retry-after-invalid'')
          else
            let seconds = int (parse_nat v); milliseconds = seconds * 1000 in
            if \<not> isSafeInteger seconds \<or> \<not> isSafeInteger milliseconds \<or> MAX_RETRY_AFTER_MS < milliseconds
            then Inl (RangeError ''retry-after-invalid'')
            else Inr (Some milliseconds))"

definition projectDelay :: "int \<Rightarrow> (int \<times> int) result" where
  "projectDelay pageAttemptsStarted =
     (if pageAttemptsStarted = 1 then Inr (RETRY_DELAYS_MS ! 0, 1)
      else if pageAttemptsStarted = 2 then Inr (RETRY_DELAYS_MS ! 1, 2)
      else Inl (RangeError ''attempt-budget-exhausted''))"

definition stopForHttp :: "jsnum \<Rightarrow> RetryDecision" where
  "stopForHttp status =
     (if status = NInt 401 \<or> status = NInt 403 then StopRetry LaneDisabledStop else StopRetry NonRetryable)"

definition decideHttp :: "int \<times> int \<Rightarrow> jsnum \<Rightarrow> QuotaClassification \<Rightarrow> jsstring option \<Rightarrow> RetryDecision" where
  "decideHttp planned status quotaClassification retryAfter =
     (if \<not> (\<exists>s \<in> set RETRYABLE_HTTP_STATUSES. status = NInt s) then stopForHttp status
      else if status \<noteq> NInt 429 then DoRetry (fst planned) (snd planned)
      else if quotaClassification \<noteq> TemporaryThrottlingProved then StopRetry QuotaExhaustedStop
      else
        (case parseRetryAfterMs retryAfter of
           Inl _ \<Rightarrow> StopRetry RetryAfterInvalid
         | Inr ms \<Rightarrow> DoRetry (max (fst planned) (case ms of None \<Rightarrow> 0 | Some n \<Rightarrow> n)) (snd planned)))"

definition decideRetry :: "RetryContext \<Rightarrow> RetryDecision result" where
  "decideRetry context =
     (let page = ctxPageAttemptsStarted context; acquisition = ctxAcquisitionAttemptsStarted context in
      if \<not> isPositive page \<or> \<not> isPositive acquisition then Inr (StopRetry AttemptBudgetExhausted)
      else if MAX_ATTEMPTS_PER_PAGE \<le> numInt page \<or> MAX_ATTEMPTS_PER_ACQUISITION \<le> numInt acquisition
      then Inr (StopRetry AttemptBudgetExhausted)
      else
        (case failure context of
           CleanPartialBodyTransport False \<Rightarrow> Inr (StopRetry CleanupUnprovable)
         | OtherFailure kind \<Rightarrow>
             Inr (StopRetry (if kind = CleanupUnprovableFailure then CleanupUnprovable else NonRetryable))
         | PreResponseTransport \<Rightarrow> bindR (projectDelay (numInt page)) (\<lambda>p. Inr (DoRetry (fst p) (snd p)))
         | CleanPartialBodyTransport True \<Rightarrow> bindR (projectDelay (numInt page)) (\<lambda>p. Inr (DoRetry (fst p) (snd p)))
         | Http status quotaClassification retryAfter \<Rightarrow>
             bindR (projectDelay (numInt page)) (\<lambda>p. Inr (decideHttp p status quotaClassification retryAfter))))"

record RetryDelayProof =
  clockBasis :: jsstring
  elapsedMs :: jsnum
  monotonicOrderValid :: bool

definition validateRetryDelayProof :: "int \<Rightarrow> RetryDelayProof \<Rightarrow> unit result" where
  "validateRetryDelayProof delayMs p =
     assertR (isSafeInteger delayMs \<and> 0 \<le> delayMs \<and> clockBasis p = js ''same-session-monotonic'' \<and> monotonicOrderValid p \<and>
       elapsedMs p \<noteq> NOther \<and> numInt (elapsedMs p) = delayMs) (TypeError ''retry-delay-proof-invalid'')"


section \<open>Laws\<close>

lemma parseRetryAfterMs_Inr:
  "parseRetryAfterMs value = Inr ms \<longleftrightarrow>
     (case value of
        None \<Rightarrow> ms = None
      | Some v \<Rightarrow> nonnegative_decimal v \<and> int (parse_nat v) * 1000 \<le> MAX_RETRY_AFTER_MS \<and>
          ms = Some (int (parse_nat v) * 1000))"
  by (auto simp: parseRetryAfterMs_def Let_def isSafeInteger_def MAX_SAFE_INTEGER_def retry_limits market_limits
      split: option.splits)

text \<open>The failures that are retried, and the delay a retry-after header asks for.\<close>

definition retryable :: "RetryFailure \<Rightarrow> bool" where
  "retryable f =
     (case f of
        PreResponseTransport \<Rightarrow> True
      | CleanPartialBodyTransport settled \<Rightarrow> settled
      | Http status quota header \<Rightarrow>
          status \<in> NInt ` {408, 500, 502, 503, 504} \<or>
          status = NInt 429 \<and> quota = TemporaryThrottlingProved \<and> isOk (parseRetryAfterMs header)
      | OtherFailure _ \<Rightarrow> False)"

definition headerDelay :: "RetryFailure \<Rightarrow> int" where
  "headerDelay f =
     (case f of
        Http status _ (Some v) \<Rightarrow> if status = NInt 429 then int (parse_nat v) * 1000 else 0
      | _ \<Rightarrow> 0)"

definition withinBudget :: "RetryContext \<Rightarrow> bool" where
  "withinBudget c \<longleftrightarrow> isPositive (ctxPageAttemptsStarted c) \<and> isPositive (ctxAcquisitionAttemptsStarted c) \<and>
     numInt (ctxPageAttemptsStarted c) < MAX_ATTEMPTS_PER_PAGE \<and>
     numInt (ctxAcquisitionAttemptsStarted c) < MAX_ATTEMPTS_PER_ACQUISITION"

lemma withinBudget_page: "withinBudget c \<Longrightarrow> numInt (ctxPageAttemptsStarted c) \<in> {1, 2}"
  by (cases "ctxPageAttemptsStarted c") (auto simp: withinBudget_def isPositive_def numInt_def retry_limits market_limits)

lemma decideRetry_total: "isOk (decideRetry c)"
proof (cases "withinBudget c")
  case True
  then show ?thesis using withinBudget_page [OF True]
    by (auto simp: decideRetry_def withinBudget_def projectDelay_def Let_def split: RetryFailure.split bool.split)
next
  case False
  then show ?thesis by (auto simp: decideRetry_def withinBudget_def not_less Let_def)
qed

lemma decideHttp_retry:
  "decideHttp (d, k) status quota header = DoRetry delay ord \<longleftrightarrow>
     retryable (Http status quota header) \<and> ord = k \<and>
     delay = (if status = NInt 429 then max d (headerDelay (Http status quota header)) else d)"
proof -
  have mem: "(\<exists>s \<in> set RETRYABLE_HTTP_STATUSES. status = NInt s) \<longleftrightarrow>
      status = NInt 429 \<or> status \<in> NInt ` {408, 500, 502, 503, 504}"
    by (auto simp: RETRYABLE_HTTP_STATUSES_def)
  have "parseRetryAfterMs header = Inr ms \<Longrightarrow>
      max d (case ms of None \<Rightarrow> 0 | Some n \<Rightarrow> n) = max d (headerDelay (Http (NInt 429) quota header))" for ms
    by (auto simp: parseRetryAfterMs_Inr headerDelay_def split: option.splits)
  then show ?thesis
    by (auto simp: decideHttp_def mem stopForHttp_def retryable_def isOk_def split: sum.splits)
qed

lemma decideRetry_retry:
  assumes "decideRetry c = Inr (DoRetry delay ord)"
  shows "withinBudget c" "retryable (failure c)" "NInt ord = ctxPageAttemptsStarted c" "ord \<in> {1, 2}"
    "delay = max (RETRY_DELAYS_MS ! nat (ord - 1)) (headerDelay (failure c))"
    "1000 \<le> delay" "delay \<le> MAX_RETRY_AFTER_MS"
proof -
  show w: "withinBudget c" using assms by (auto simp: decideRetry_def withinBudget_def Let_def split: if_splits)
  obtain n where n: "ctxPageAttemptsStarted c = NInt n"
    using w by (cases "ctxPageAttemptsStarted c") (auto simp: withinBudget_def isPositive_def)
  have n12: "n \<in> {1, 2}" using withinBudget_page [OF w] n by simp
  have pd: "projectDelay n = Inr (RETRY_DELAYS_MS ! nat (n - 1), n)" using n12 by (auto simp: projectDelay_def)
  have nonneg: "0 \<le> RETRY_DELAYS_MS ! nat (n - 1)" using n12 by (auto simp: RETRY_DELAYS_MS_def)
  have facts: "retryable (failure c) \<and> ord = n \<and> delay = max (RETRY_DELAYS_MS ! nat (n - 1)) (headerDelay (failure c))"
  proof (cases "failure c")
    case (Http status quota header)
    then have "decideHttp (RETRY_DELAYS_MS ! nat (n - 1), n) status quota header = DoRetry delay ord"
      using assms w n pd by (auto simp: decideRetry_def withinBudget_def Let_def split: if_splits)
    then show ?thesis using nonneg Http
      by (auto simp: decideHttp_retry headerDelay_def split: option.splits if_splits)
  qed (use assms w n pd nonneg in \<open>auto simp: decideRetry_def withinBudget_def Let_def retryable_def headerDelay_def
      split: if_splits bool.splits\<close>)
  then show "retryable (failure c)" "NInt ord = ctxPageAttemptsStarted c" "ord \<in> {1, 2}"
    "delay = max (RETRY_DELAYS_MS ! nat (ord - 1)) (headerDelay (failure c))" using n n12 by auto
  have "headerDelay (failure c) \<le> MAX_RETRY_AFTER_MS" if "retryable (failure c)"
    using that by (auto simp: retryable_def headerDelay_def isOk_iff parseRetryAfterMs_Inr retry_limits market_limits
      split: RetryFailure.splits option.splits if_splits)
  then show "1000 \<le> delay" "delay \<le> MAX_RETRY_AFTER_MS"
    using facts n12 by (auto simp: retry_limits market_limits)
qed

lemma decideRetry_accepts:
  assumes "withinBudget c" "retryable (failure c)"
  shows "\<exists>delay ord. decideRetry c = Inr (DoRetry delay ord)"
proof -
  obtain n where n: "ctxPageAttemptsStarted c = NInt n"
    using assms(1) by (cases "ctxPageAttemptsStarted c") (auto simp: withinBudget_def isPositive_def)
  have n12: "n \<in> {1, 2}" using withinBudget_page [OF assms(1)] n by simp
  have pd: "projectDelay n = Inr (RETRY_DELAYS_MS ! nat (n - 1), n)" using n12 by (auto simp: projectDelay_def)
  show ?thesis
  proof (cases "failure c")
    case (Http status quota header)
    then show ?thesis using assms n pd
      by (auto simp: decideRetry_def withinBudget_def Let_def decideHttp_retry not_le)
  qed (use assms n pd in \<open>auto simp: decideRetry_def withinBudget_def Let_def retryable_def not_le\<close>)
qed

end
