(* ===== verification/AcquisitionTypes.thy ===== *)
theory AcquisitionTypes
  imports Retry PageIdentity
begin

text \<open>
  The data of \<^verbatim>\<open>src/adapters/market-acquisition/state-machine.ts\<close>: states, terminal
  reasons, journal checkpoint kinds, events, the snapshot of the machine, and the three tables
  that say which state may follow which, where an event leads and which checkpoint it writes.
  Snapshots and events are rendered as JSON objects because the code passes both through
  \<open>canonicalJson\<close>, which refuses Numbers that are not safe integers and ill-formed strings.
\<close>

section \<open>Enumerations\<close>

datatype AcquisitionState =
      Declared | Preflighting | DispatchReady | CredentialReady | AttemptActive | ResponseAccepted
    | ArtifactCommitting | ArtifactCommitted | ArtifactVerifying | PageVerified | Checkpointing
    | WaitingRetry | ChainComplete | Normalizing | ReadyForSelection | Selecting | Completed | Stopped
    | FailedClean | Quarantined

fun stateName :: "AcquisitionState \<Rightarrow> string" where
  "stateName Declared = ''declared''"
| "stateName Preflighting = ''preflighting''"
| "stateName DispatchReady = ''dispatch-ready''"
| "stateName CredentialReady = ''credential-ready''"
| "stateName AttemptActive = ''attempt-active''"
| "stateName ResponseAccepted = ''response-accepted''"
| "stateName ArtifactCommitting = ''artifact-committing''"
| "stateName ArtifactCommitted = ''artifact-committed''"
| "stateName ArtifactVerifying = ''artifact-verifying''"
| "stateName PageVerified = ''page-verified''"
| "stateName Checkpointing = ''checkpointing''"
| "stateName WaitingRetry = ''waiting-retry''"
| "stateName ChainComplete = ''chain-complete''"
| "stateName Normalizing = ''normalizing''"
| "stateName ReadyForSelection = ''ready-for-selection''"
| "stateName Selecting = ''selecting''"
| "stateName Completed = ''completed''"
| "stateName Stopped = ''stopped''"
| "stateName FailedClean = ''failed-clean''"
| "stateName Quarantined = ''quarantined''"

fun ACQUISITION_TRANSITIONS :: "AcquisitionState \<Rightarrow> AcquisitionState list" where
  "ACQUISITION_TRANSITIONS Declared = [Preflighting]"
| "ACQUISITION_TRANSITIONS Preflighting = [DispatchReady, Stopped, FailedClean]"
| "ACQUISITION_TRANSITIONS DispatchReady = [CredentialReady, Stopped]"
| "ACQUISITION_TRANSITIONS CredentialReady = [AttemptActive]"
| "ACQUISITION_TRANSITIONS AttemptActive = [WaitingRetry, ResponseAccepted, Stopped, FailedClean]"
| "ACQUISITION_TRANSITIONS ResponseAccepted = [ArtifactCommitting, FailedClean]"
| "ACQUISITION_TRANSITIONS ArtifactCommitting = [ArtifactCommitted, FailedClean]"
| "ACQUISITION_TRANSITIONS ArtifactCommitted = [ArtifactVerifying]"
| "ACQUISITION_TRANSITIONS ArtifactVerifying = [PageVerified, FailedClean, Quarantined]"
| "ACQUISITION_TRANSITIONS PageVerified = [Checkpointing]"
| "ACQUISITION_TRANSITIONS Checkpointing = [ChainComplete, Preflighting, FailedClean]"
| "ACQUISITION_TRANSITIONS WaitingRetry = [Preflighting, Stopped]"
| "ACQUISITION_TRANSITIONS ChainComplete = [Normalizing]"
| "ACQUISITION_TRANSITIONS Normalizing = [ReadyForSelection, Quarantined, FailedClean]"
| "ACQUISITION_TRANSITIONS ReadyForSelection = [Selecting]"
| "ACQUISITION_TRANSITIONS Selecting = [Completed, FailedClean, Quarantined]"
| "ACQUISITION_TRANSITIONS Completed = []"
| "ACQUISITION_TRANSITIONS Stopped = []"
| "ACQUISITION_TRANSITIONS FailedClean = []"
| "ACQUISITION_TRANSITIONS Quarantined = []"

datatype MarketAcquisitionTerminalReason =
      TrAuthorityInvalid | TrLaneNotAuthorized | TrLaneNotImplemented | TrCapabilityNotAuthorized
    | TrConfigurationInvalid | TrIdentityMismatch | TrQueryInvalid | TrZeroSpendUnprovable
    | TrCredentialUnavailable | TrClockUnavailable | TrClockRegression | TrHistoricalBoundaryUnprovable
    | TrConcurrencyExhausted | TrQuotaExhausted | TrAttemptBudgetExhausted | TrPageBudgetExhausted
    | TrAcquisitionDeadline | TrAttemptTimeout | TrRetryAfterInvalid | TrTransportFailed
    | TrHttpNonretryable | TrLaneDisabled | TrPartialCleanupFailed | TrArtifactStoreFailed
    | TrArtifactVerificationFailed | TrResponseLengthMismatch | TrSchemaInvalid | TrBoundExceeded
    | TrPaginationInvalid | TrJournalConflict | TrDeliveryConflict | TrCorrectionUnsupported
    | TrNormalizationFailed | TrSelectionFailed | TrOperatorStop

fun reasonName :: "MarketAcquisitionTerminalReason \<Rightarrow> string" where
  "reasonName TrAuthorityInvalid = ''authority-invalid''"
| "reasonName TrLaneNotAuthorized = ''lane-not-authorized''"
| "reasonName TrLaneNotImplemented = ''lane-not-implemented''"
| "reasonName TrCapabilityNotAuthorized = ''capability-not-authorized''"
| "reasonName TrConfigurationInvalid = ''configuration-invalid''"
| "reasonName TrIdentityMismatch = ''identity-mismatch''"
| "reasonName TrQueryInvalid = ''query-invalid''"
| "reasonName TrZeroSpendUnprovable = ''zero-spend-unprovable''"
| "reasonName TrCredentialUnavailable = ''credential-unavailable''"
| "reasonName TrClockUnavailable = ''clock-unavailable''"
| "reasonName TrClockRegression = ''clock-regression''"
| "reasonName TrHistoricalBoundaryUnprovable = ''historical-boundary-unprovable''"
| "reasonName TrConcurrencyExhausted = ''concurrency-exhausted''"
| "reasonName TrQuotaExhausted = ''quota-exhausted''"
| "reasonName TrAttemptBudgetExhausted = ''attempt-budget-exhausted''"
| "reasonName TrPageBudgetExhausted = ''page-budget-exhausted''"
| "reasonName TrAcquisitionDeadline = ''acquisition-deadline''"
| "reasonName TrAttemptTimeout = ''attempt-timeout''"
| "reasonName TrRetryAfterInvalid = ''retry-after-invalid''"
| "reasonName TrTransportFailed = ''transport-failed''"
| "reasonName TrHttpNonretryable = ''http-nonretryable''"
| "reasonName TrLaneDisabled = ''lane-disabled''"
| "reasonName TrPartialCleanupFailed = ''partial-cleanup-failed''"
| "reasonName TrArtifactStoreFailed = ''artifact-store-failed''"
| "reasonName TrArtifactVerificationFailed = ''artifact-verification-failed''"
| "reasonName TrResponseLengthMismatch = ''response-length-mismatch''"
| "reasonName TrSchemaInvalid = ''schema-invalid''"
| "reasonName TrBoundExceeded = ''bound-exceeded''"
| "reasonName TrPaginationInvalid = ''pagination-invalid''"
| "reasonName TrJournalConflict = ''journal-conflict''"
| "reasonName TrDeliveryConflict = ''delivery-conflict''"
| "reasonName TrCorrectionUnsupported = ''correction-unsupported''"
| "reasonName TrNormalizationFailed = ''normalization-failed''"
| "reasonName TrSelectionFailed = ''selection-failed''"
| "reasonName TrOperatorStop = ''operator-stop''"

datatype JournalCheckpointKind =
      CkAcquisitionDeclared | CkRequestStarted | CkAttemptStarted | CkRequestSucceeded
    | CkArtifactCommitted | CkArtifactVerified | CkPageCheckpointed | CkChainComplete
    | CkNormalizationStarted | CkNormalizationComplete | CkSelectionStarted | CkCompleted | CkStopped
    | CkFailedClean | CkQuarantined

fun checkpointName :: "JournalCheckpointKind \<Rightarrow> string" where
  "checkpointName CkAcquisitionDeclared = ''acquisition-declared''"
| "checkpointName CkRequestStarted = ''request-started''"
| "checkpointName CkAttemptStarted = ''attempt-started''"
| "checkpointName CkRequestSucceeded = ''request-succeeded''"
| "checkpointName CkArtifactCommitted = ''artifact-committed''"
| "checkpointName CkArtifactVerified = ''artifact-verified''"
| "checkpointName CkPageCheckpointed = ''page-checkpointed''"
| "checkpointName CkChainComplete = ''chain-complete''"
| "checkpointName CkNormalizationStarted = ''normalization-started''"
| "checkpointName CkNormalizationComplete = ''normalization-complete''"
| "checkpointName CkSelectionStarted = ''selection-started''"
| "checkpointName CkCompleted = ''completed''"
| "checkpointName CkStopped = ''stopped''"
| "checkpointName CkFailedClean = ''failed-clean''"
| "checkpointName CkQuarantined = ''quarantined''"


section \<open>Snapshots\<close>

record AcquisitionBudgets =
  successfulPages :: int
  verifiedBytes :: int
  records :: int
  normalizedFacts :: int
  attempts :: int

record ContinuationAuthority =
  nextTokenMaterial :: jsstring
  nextTokenHash :: jsstring
  nextContinuationBindingHash :: jsstring

record AcquisitionMachineSnapshot =
  snapshotVersion :: int
  requestIdentityHash :: jsstring
  acquisitionConfigurationHash :: jsstring
  marketAcquisitionJournalId :: jsstring
  runSessionNonce :: jsstring
  currentState :: AcquisitionState
  laneDisabled :: bool
  terminalReason :: "MarketAcquisitionTerminalReason option"
  pageOrdinal :: int
  pageAttemptsStarted :: int
  logicalPageIdentityHash :: jsstring
  attemptOrdinal :: "int option"
  attemptId :: "jsstring option"
  retrievalAttemptId :: "jsstring option"
  currentTokenHash :: jsstring
  currentContinuationBindingHash :: "jsstring option"
  consumedTokenHashes :: "jsstring list"
  pageChainHash :: jsstring
  continuationAuthority :: "ContinuationAuthority option"
  budgets :: AcquisitionBudgets
  quotaWindowEvidence :: "int list"
  acquisitionDeclaredMonotonicMs :: int
  lastMonotonicMs :: int
  pendingRetryDelayMs :: "int option"

definition budgets_json :: "AcquisitionBudgets \<Rightarrow> json" where
  "budgets_json b = JObj (
     field ''successfulPages'' (jint (successfulPages b)) @
     field ''verifiedBytes'' (jint (verifiedBytes b)) @
     field ''records'' (jint (records b)) @
     field ''normalizedFacts'' (jint (normalizedFacts b)) @
     field ''attempts'' (jint (attempts b)))"

definition authority_json :: "ContinuationAuthority \<Rightarrow> json" where
  "authority_json a = JObj (
     field ''nextTokenMaterial'' (JStr (nextTokenMaterial a)) @
     field ''nextTokenHash'' (JStr (nextTokenHash a)) @
     field ''nextContinuationBindingHash'' (JStr (nextContinuationBindingHash a)))"

definition snapshot_json :: "AcquisitionMachineSnapshot \<Rightarrow> json" where
  "snapshot_json s = JObj (
     field ''schemaVersion'' (jint (snapshotVersion s)) @
     field ''requestIdentityHash'' (JStr (requestIdentityHash s)) @
     field ''acquisitionConfigurationHash'' (JStr (acquisitionConfigurationHash s)) @
     field ''marketAcquisitionJournalId'' (JStr (marketAcquisitionJournalId s)) @
     field ''runSessionNonce'' (JStr (runSessionNonce s)) @
     field ''currentState'' (JStr (js (stateName (currentState s)))) @
     field ''laneDisabled'' (JBool (laneDisabled s)) @
     field ''terminalReason'' (jnull (\<lambda>r. JStr (js (reasonName r))) (terminalReason s)) @
     field ''pageOrdinal'' (jint (pageOrdinal s)) @
     field ''pageAttemptsStarted'' (jint (pageAttemptsStarted s)) @
     field ''logicalPageIdentityHash'' (JStr (logicalPageIdentityHash s)) @
     field ''attemptOrdinal'' (jnull jint (attemptOrdinal s)) @
     field ''attemptId'' (jnull JStr (attemptId s)) @
     field ''retrievalAttemptId'' (jnull JStr (retrievalAttemptId s)) @
     field ''currentTokenHash'' (JStr (currentTokenHash s)) @
     field ''currentContinuationBindingHash'' (jnull JStr (currentContinuationBindingHash s)) @
     field ''consumedTokenHashes'' (JArr (map JStr (consumedTokenHashes s))) @
     field ''pageChainHash'' (JStr (pageChainHash s)) @
     field ''continuationAuthority'' (jnull authority_json (continuationAuthority s)) @
     field ''budgets'' (budgets_json (budgets s)) @
     field ''quotaWindowEvidence'' (JArr (map jint (quotaWindowEvidence s))) @
     field ''acquisitionDeclaredMonotonicMs'' (jint (acquisitionDeclaredMonotonicMs s)) @
     field ''lastMonotonicMs'' (jint (lastMonotonicMs s)) @
     field ''pendingRetryDelayMs'' (jnull jint (pendingRetryDelayMs s)))"


section \<open>Events\<close>

record AcquisitionEventProof =
  prRequestIdentityHash :: jsstring
  prAcquisitionConfigurationHash :: jsstring
  prMarketAcquisitionJournalId :: jsstring
  prRunSessionNonce :: jsstring
  nowMonotonicMs :: int
  resourcesSettled :: bool

datatype AcquisitionEventKind =
    EvBeginPreflight
  | EvPreflightApproved
  | EvPreflightStopped MarketAcquisitionTerminalReason
  | EvPreflightFailed MarketAcquisitionTerminalReason
  | EvCredentialsLoaded
  | EvCredentialUnavailable
  | EvDispatchStarted DeadlineProof int
  | EvRetryCleanupComplete RetryContext
  | EvRetryDelayElapsed RetryDelayProof
  | EvResponseAccepted
  | EvAttemptStopped MarketAcquisitionTerminalReason
  | EvAttemptFailed MarketAcquisitionTerminalReason
  | EvArtifactStoreStarted
  | EvArtifactStoreCommitted
  | EvArtifactStoreFailed
  | EvArtifactVerificationStarted
  | EvPageVerified
  | EvPageVerificationFailed
  | EvPageQuarantined
  | EvPageCheckpointed PageChainInput "jsstring option"
  | EvContinueNextPage
  | EvTerminalPageAdmitted
  | EvNormalizationStarted
  | EvNormalizationCompleted int
  | EvNormalizationFailed
  | EvNormalizationQuarantined
  | EvSelectionStarted
  | EvSelectionCompleted
  | EvSelectionFailed
  | EvSelectionQuarantined
  | EvPolicyStopped MarketAcquisitionTerminalReason

record AcquisitionEvent =
  eventProof :: AcquisitionEventProof
  eventKind :: AcquisitionEventKind

fun eventKindName :: "AcquisitionEventKind \<Rightarrow> string" where
  "eventKindName EvBeginPreflight = ''begin-preflight''"
| "eventKindName EvPreflightApproved = ''preflight-approved''"
| "eventKindName (EvPreflightStopped _) = ''preflight-stopped''"
| "eventKindName (EvPreflightFailed _) = ''preflight-failed''"
| "eventKindName EvCredentialsLoaded = ''credentials-loaded''"
| "eventKindName EvCredentialUnavailable = ''credential-unavailable''"
| "eventKindName (EvDispatchStarted _ _) = ''dispatch-started''"
| "eventKindName (EvRetryCleanupComplete _) = ''retry-cleanup-complete''"
| "eventKindName (EvRetryDelayElapsed _) = ''retry-delay-elapsed''"
| "eventKindName EvResponseAccepted = ''response-accepted''"
| "eventKindName (EvAttemptStopped _) = ''attempt-stopped''"
| "eventKindName (EvAttemptFailed _) = ''attempt-failed''"
| "eventKindName EvArtifactStoreStarted = ''artifact-store-started''"
| "eventKindName EvArtifactStoreCommitted = ''artifact-store-committed''"
| "eventKindName EvArtifactStoreFailed = ''artifact-store-failed''"
| "eventKindName EvArtifactVerificationStarted = ''artifact-verification-started''"
| "eventKindName EvPageVerified = ''page-verified''"
| "eventKindName EvPageVerificationFailed = ''page-verification-failed''"
| "eventKindName EvPageQuarantined = ''page-quarantined''"
| "eventKindName (EvPageCheckpointed _ _) = ''page-checkpointed''"
| "eventKindName EvContinueNextPage = ''continue-next-page''"
| "eventKindName EvTerminalPageAdmitted = ''terminal-page-admitted''"
| "eventKindName EvNormalizationStarted = ''normalization-started''"
| "eventKindName (EvNormalizationCompleted _) = ''normalization-completed''"
| "eventKindName EvNormalizationFailed = ''normalization-failed''"
| "eventKindName EvNormalizationQuarantined = ''normalization-quarantined''"
| "eventKindName EvSelectionStarted = ''selection-started''"
| "eventKindName EvSelectionCompleted = ''selection-completed''"
| "eventKindName EvSelectionFailed = ''selection-failed''"
| "eventKindName EvSelectionQuarantined = ''selection-quarantined''"
| "eventKindName (EvPolicyStopped _) = ''policy-stopped''"

fun EVENT_TARGETS :: "AcquisitionEventKind \<Rightarrow> AcquisitionState" where
  "EVENT_TARGETS EvBeginPreflight = Preflighting"
| "EVENT_TARGETS EvPreflightApproved = DispatchReady"
| "EVENT_TARGETS (EvPreflightStopped _) = Stopped"
| "EVENT_TARGETS (EvPreflightFailed _) = FailedClean"
| "EVENT_TARGETS EvCredentialsLoaded = CredentialReady"
| "EVENT_TARGETS EvCredentialUnavailable = Stopped"
| "EVENT_TARGETS (EvDispatchStarted _ _) = AttemptActive"
| "EVENT_TARGETS (EvRetryCleanupComplete _) = WaitingRetry"
| "EVENT_TARGETS (EvRetryDelayElapsed _) = Preflighting"
| "EVENT_TARGETS EvResponseAccepted = ResponseAccepted"
| "EVENT_TARGETS (EvAttemptStopped _) = Stopped"
| "EVENT_TARGETS (EvAttemptFailed _) = FailedClean"
| "EVENT_TARGETS EvArtifactStoreStarted = ArtifactCommitting"
| "EVENT_TARGETS EvArtifactStoreCommitted = ArtifactCommitted"
| "EVENT_TARGETS EvArtifactStoreFailed = FailedClean"
| "EVENT_TARGETS EvArtifactVerificationStarted = ArtifactVerifying"
| "EVENT_TARGETS EvPageVerified = PageVerified"
| "EVENT_TARGETS EvPageVerificationFailed = FailedClean"
| "EVENT_TARGETS EvPageQuarantined = Quarantined"
| "EVENT_TARGETS (EvPageCheckpointed _ _) = Checkpointing"
| "EVENT_TARGETS EvContinueNextPage = Preflighting"
| "EVENT_TARGETS EvTerminalPageAdmitted = ChainComplete"
| "EVENT_TARGETS EvNormalizationStarted = Normalizing"
| "EVENT_TARGETS (EvNormalizationCompleted _) = ReadyForSelection"
| "EVENT_TARGETS EvNormalizationFailed = FailedClean"
| "EVENT_TARGETS EvNormalizationQuarantined = Quarantined"
| "EVENT_TARGETS EvSelectionStarted = Selecting"
| "EVENT_TARGETS EvSelectionCompleted = Completed"
| "EVENT_TARGETS EvSelectionFailed = FailedClean"
| "EVENT_TARGETS EvSelectionQuarantined = Quarantined"
| "EVENT_TARGETS (EvPolicyStopped _) = Stopped"

fun CHECKPOINT_FOR_EVENT :: "AcquisitionEventKind \<Rightarrow> JournalCheckpointKind option" where
  "CHECKPOINT_FOR_EVENT EvBeginPreflight = Some CkAcquisitionDeclared"
| "CHECKPOINT_FOR_EVENT EvPreflightApproved = Some CkRequestStarted"
| "CHECKPOINT_FOR_EVENT (EvPreflightStopped _) = Some CkStopped"
| "CHECKPOINT_FOR_EVENT (EvPreflightFailed _) = Some CkFailedClean"
| "CHECKPOINT_FOR_EVENT EvCredentialsLoaded = None"
| "CHECKPOINT_FOR_EVENT EvCredentialUnavailable = Some CkStopped"
| "CHECKPOINT_FOR_EVENT (EvDispatchStarted _ _) = Some CkAttemptStarted"
| "CHECKPOINT_FOR_EVENT (EvRetryCleanupComplete _) = None"
| "CHECKPOINT_FOR_EVENT (EvRetryDelayElapsed _) = None"
| "CHECKPOINT_FOR_EVENT EvResponseAccepted = Some CkRequestSucceeded"
| "CHECKPOINT_FOR_EVENT (EvAttemptStopped _) = Some CkStopped"
| "CHECKPOINT_FOR_EVENT (EvAttemptFailed _) = Some CkFailedClean"
| "CHECKPOINT_FOR_EVENT EvArtifactStoreStarted = None"
| "CHECKPOINT_FOR_EVENT EvArtifactStoreCommitted = Some CkArtifactCommitted"
| "CHECKPOINT_FOR_EVENT EvArtifactStoreFailed = Some CkFailedClean"
| "CHECKPOINT_FOR_EVENT EvArtifactVerificationStarted = None"
| "CHECKPOINT_FOR_EVENT EvPageVerified = Some CkArtifactVerified"
| "CHECKPOINT_FOR_EVENT EvPageVerificationFailed = Some CkFailedClean"
| "CHECKPOINT_FOR_EVENT EvPageQuarantined = Some CkQuarantined"
| "CHECKPOINT_FOR_EVENT (EvPageCheckpointed _ _) = Some CkPageCheckpointed"
| "CHECKPOINT_FOR_EVENT EvContinueNextPage = None"
| "CHECKPOINT_FOR_EVENT EvTerminalPageAdmitted = Some CkChainComplete"
| "CHECKPOINT_FOR_EVENT EvNormalizationStarted = Some CkNormalizationStarted"
| "CHECKPOINT_FOR_EVENT (EvNormalizationCompleted _) = Some CkNormalizationComplete"
| "CHECKPOINT_FOR_EVENT EvNormalizationFailed = Some CkFailedClean"
| "CHECKPOINT_FOR_EVENT EvNormalizationQuarantined = Some CkQuarantined"
| "CHECKPOINT_FOR_EVENT EvSelectionStarted = Some CkSelectionStarted"
| "CHECKPOINT_FOR_EVENT EvSelectionCompleted = Some CkCompleted"
| "CHECKPOINT_FOR_EVENT EvSelectionFailed = Some CkFailedClean"
| "CHECKPOINT_FOR_EVENT EvSelectionQuarantined = Some CkQuarantined"
| "CHECKPOINT_FOR_EVENT (EvPolicyStopped _) = Some CkStopped"

text \<open>Renderings of the parts of an event.\<close>

definition proof_json :: "AcquisitionEventProof \<Rightarrow> json" where
  "proof_json p = JObj (
     field ''requestIdentityHash'' (JStr (prRequestIdentityHash p)) @
     field ''acquisitionConfigurationHash'' (JStr (prAcquisitionConfigurationHash p)) @
     field ''marketAcquisitionJournalId'' (JStr (prMarketAcquisitionJournalId p)) @
     field ''runSessionNonce'' (JStr (prRunSessionNonce p)) @
     field ''nowMonotonicMs'' (jint (nowMonotonicMs p)) @
     field ''resourcesSettled'' (JBool (resourcesSettled p)))"

definition deadlineProof_json :: "DeadlineProof \<Rightarrow> json" where
  "deadlineProof_json p = JObj (
     field ''acquisitionDeclaredMonotonicMs'' (JNum (dpAcquisitionDeclaredMonotonicMs p)) @
     field ''attemptStartedMonotonicMs'' (JNum (dpAttemptStartedMonotonicMs p)) @
     field ''nowMonotonicMs'' (JNum (dpNowMonotonicMs p)))"

fun quotaClassificationName :: "QuotaClassification \<Rightarrow> string" where
  "quotaClassificationName TemporaryThrottlingProved = ''temporary-throttling-proved''"
| "quotaClassificationName QuotaExhaustedClass = ''quota-exhausted''"
| "quotaClassificationName MissingClass = ''missing''"
| "quotaClassificationName AmbiguousClass = ''ambiguous''"

fun failureKindName :: "FailureKind \<Rightarrow> string" where
  "failureKindName IdentityFailure = ''identity''"
| "failureKindName EntitlementFailure = ''entitlement''"
| "failureKindName AuthorizationFailure = ''authorization''"
| "failureKindName FeedFailure = ''feed''"
| "failureKindName CapabilityFailure = ''capability''"
| "failureKindName CostFailure = ''cost''"
| "failureKindName ClockFailure = ''clock''"
| "failureKindName BoundFailure = ''bound''"
| "failureKindName SchemaFailure = ''schema''"
| "failureKindName PaginationFailure = ''pagination''"
| "failureKindName RedactionFailure = ''redaction''"
| "failureKindName ArtifactFailure = ''artifact''"
| "failureKindName CorrectionFailure = ''correction''"
| "failureKindName JournalFailure = ''journal''"
| "failureKindName MalformedBodyFailure = ''malformed-body''"
| "failureKindName CleanupUnprovableFailure = ''cleanup-unprovable''"
| "failureKindName ZeroSpendFailure = ''zero-spend''"

fun failure_json :: "RetryFailure \<Rightarrow> json" where
  "failure_json PreResponseTransport = JObj (field ''kind'' (JStr (js ''pre-response-transport'')))"
| "failure_json (CleanPartialBodyTransport settled) = JObj (
     field ''kind'' (JStr (js ''clean-partial-body-transport'')) @
     field ''resourcesSettled'' (JBool settled))"
| "failure_json (Http status quota retryAfter) = JObj (
     field ''kind'' (JStr (js ''http'')) @
     field ''status'' (JNum status) @
     field ''quotaClassification'' (JStr (js (quotaClassificationName quota))) @
     field ''retryAfter'' (jnull JStr retryAfter))"
| "failure_json (OtherFailure kind) = JObj (field ''kind'' (JStr (js (failureKindName kind))))"

definition context_json :: "RetryContext \<Rightarrow> json" where
  "context_json c = JObj (
     field ''failure'' (failure_json (failure c)) @
     field ''pageAttemptsStarted'' (JNum (ctxPageAttemptsStarted c)) @
     field ''acquisitionAttemptsStarted'' (JNum (ctxAcquisitionAttemptsStarted c)))"

definition delayProof_json :: "RetryDelayProof \<Rightarrow> json" where
  "delayProof_json p = JObj (
     field ''clockBasis'' (JStr (clockBasis p)) @
     field ''elapsedMs'' (JNum (elapsedMs p)) @
     field ''monotonicOrderValid'' (JBool (monotonicOrderValid p)))"

definition pageChainInput_json :: "PageChainInput \<Rightarrow> json" where
  "pageChainInput_json i = JObj (filter (\<lambda>f. fst f \<noteq> js ''nextTokenHash'')
     (case pageChain_json i [] of JObj fs \<Rightarrow> fs | _ \<Rightarrow> []))"

definition eventFields :: "AcquisitionEventKind \<Rightarrow> (jsstring \<times> json) list" where
  "eventFields k =
     (case k of
        EvPreflightStopped r \<Rightarrow> field ''reason'' (JStr (js (reasonName r)))
      | EvPreflightFailed r \<Rightarrow> field ''reason'' (JStr (js (reasonName r)))
      | EvAttemptStopped r \<Rightarrow> field ''reason'' (JStr (js (reasonName r)))
      | EvAttemptFailed r \<Rightarrow> field ''reason'' (JStr (js (reasonName r)))
      | EvPolicyStopped r \<Rightarrow> field ''reason'' (JStr (js (reasonName r)))
      | EvDispatchStarted p n \<Rightarrow> field ''deadlineProof'' (deadlineProof_json p) @ field ''entitlementQuotaLimit'' (jint n)
      | EvRetryCleanupComplete c \<Rightarrow> field ''context'' (context_json c)
      | EvRetryDelayElapsed p \<Rightarrow> field ''delayProof'' (delayProof_json p)
      | EvPageCheckpointed i m \<Rightarrow> field ''pageChainInput'' (pageChainInput_json i) @ field ''nextTokenMaterial'' (jnull JStr m)
      | EvNormalizationCompleted n \<Rightarrow> field ''normalizedFactCount'' (jint n)
      | _ \<Rightarrow> [])"

definition event_json :: "AcquisitionEvent \<Rightarrow> json" where
  "event_json e = JObj (
     field ''kind'' (JStr (js (eventKindName (eventKind e)))) @
     field ''proof'' (proof_json (eventProof e)) @
     eventFields (eventKind e))"

end
