(* ===== verification/Acquisition.thy ===== *)
theory Acquisition
  imports AcquisitionTypes
begin

text \<open>
  The operations of \<^verbatim>\<open>src/adapters/market-acquisition/state-machine.ts\<close>: the snapshot
  and event checks, \<open>deriveNext\<close> with one definition per event that does more than move the
  state, \<open>deriveAcquisitionTransition\<close>, and the machine object whose state changes only after
  its persistence callback has succeeded.

  Sums of counters that are compared with a safe integer are written as integer sums: a sum
  outside the safe range rounds to a double outside it, which differs from every safe integer.
\<close>

section \<open>Checks\<close>

definition TERMINAL_STATES :: "AcquisitionState list" where
  "TERMINAL_STATES = [Completed, Stopped, FailedClean, Quarantined]"

definition checkpointForEvent :: "AcquisitionMachineSnapshot \<Rightarrow> AcquisitionEventKind \<Rightarrow> JournalCheckpointKind option" where
  "checkpointForEvent snapshot k =
     (case k of
        EvPreflightApproved \<Rightarrow>
          if pageOrdinal snapshot = 0 \<and> attempts (budgets snapshot) = 0 then Some CkRequestStarted else None
      | _ \<Rightarrow> CHECKPOINT_FOR_EVENT k)"

definition requireSafeInteger :: "int \<Rightarrow> int \<Rightarrow> int \<Rightarrow> unit result" where
  "requireSafeInteger value minimum maximum =
     assertR (isSafeInteger value \<and> minimum \<le> value \<and> value \<le> maximum) (RangeError ''invalid'')"

fun sortedUniqueFrom :: "jsstring option \<Rightarrow> jsstring list \<Rightarrow> unit result" where
  "sortedUniqueFrom previous [] = Inr ()"
| "sortedUniqueFrom previous (value # values) =
     (if \<not> hash64 value then Inl (TypeError ''invalid'')
      else if (case previous of None \<Rightarrow> False | Some p \<Rightarrow> \<not> utf8 p < utf8 value)
      then Inl (TypeError ''not-sorted-unique'')
      else sortedUniqueFrom (Some value) values)"

definition assertSortedUnique :: "jsstring list \<Rightarrow> unit result" where
  "assertSortedUnique values = sortedUniqueFrom None values"

definition assertAttemptIdentity :: "externals \<Rightarrow> AcquisitionMachineSnapshot \<Rightarrow> unit result" where
  "assertAttemptIdentity X snapshot =
     (case attemptOrdinal snapshot of
        None \<Rightarrow> assertR (attemptId snapshot = None \<and> retrievalAttemptId snapshot = None)
          (TypeError ''snapshot-attempt-identity-invalid'')
      | Some ordinal \<Rightarrow>
          bindR (deriveAttemptControlIdentities X (logicalPageIdentityHash snapshot) ordinal (runSessionNonce snapshot)) (\<lambda>expected.
          assertR (attemptId snapshot = Some (derivedAttemptId expected) \<and>
              retrievalAttemptId snapshot = Some (derivedRetrievalAttemptId expected))
            (TypeError ''snapshot-attempt-identity-invalid'')))"

definition assertBudgets :: "AcquisitionMachineSnapshot \<Rightarrow> unit result" where
  "assertBudgets snapshot =
     (let L = MARKET_ACQUISITION_LIMITS; b = budgets snapshot in
     bindR (requireSafeInteger (pageAttemptsStarted snapshot) 0 (attemptsPerLogicalPage L)) (\<lambda>_.
     bindR (requireSafeInteger (successfulPages b) 0 (limitSuccessfulPages L)) (\<lambda>_.
     bindR (requireSafeInteger (verifiedBytes b) 0 (aggregateVerifiedBytes L)) (\<lambda>_.
     bindR (requireSafeInteger (records b) 0 (limitSuccessfulPages L * recordsPerPage L)) (\<lambda>_.
     bindR (requireSafeInteger (normalizedFacts b) 0 (limitNormalizedFacts L)) (\<lambda>_.
     requireSafeInteger (attempts b) 0 (attemptsPerAcquisition L)))))))"

definition quotaEvidenceValid :: "AcquisitionMachineSnapshot \<Rightarrow> bool" where
  "quotaEvidenceValid snapshot \<longleftrightarrow>
     int (length (quotaWindowEvidence snapshot)) = attempts (budgets snapshot) \<and>
     list_all (\<lambda>value. isSafeInteger value \<and> acquisitionDeclaredMonotonicMs snapshot \<le> value \<and>
       value \<le> lastMonotonicMs snapshot) (quotaWindowEvidence snapshot) \<and>
     sorted (quotaWindowEvidence snapshot)"

definition terminalValid :: "AcquisitionMachineSnapshot \<Rightarrow> bool" where
  "terminalValid snapshot =
     (let terminal = (currentState snapshot \<in> set TERMINAL_STATES); reason = (terminalReason snapshot \<noteq> None) in
      if terminal \<noteq> reason \<or> (currentState snapshot = Completed \<and> reason)
      then currentState snapshot = Completed \<and> \<not> reason
      else True)"

definition validateSnapshot :: "externals \<Rightarrow> AcquisitionMachineSnapshot \<Rightarrow> unit result" where
  "validateSnapshot X snapshot =
     bindR (canonicalJson (snapshot_json snapshot)) (\<lambda>_.
     if snapshotVersion snapshot \<noteq> 1 \<or> \<not> hash64 (requestIdentityHash snapshot) \<or>
        \<not> hash64 (acquisitionConfigurationHash snapshot) \<or> \<not> hash64 (marketAcquisitionJournalId snapshot) \<or>
        runSessionNonce snapshot = []
     then Inl (TypeError ''acquisition-snapshot-invalid'')
     else bindR (requireSafeInteger (pageOrdinal snapshot) 0 (limitSuccessfulPages MARKET_ACQUISITION_LIMITS - 1)) (\<lambda>_.
     bindR (deriveLogicalPageIdentityHash X (requestIdentityHash snapshot) (pageOrdinal snapshot) (currentTokenHash snapshot)) (\<lambda>expected.
     if logicalPageIdentityHash snapshot \<noteq> expected then Inl (TypeError ''snapshot-logical-page-identity-invalid'')
     else bindR (assertAttemptIdentity X snapshot) (\<lambda>_.
     bindR (assertBudgets snapshot) (\<lambda>_.
     bindR (requireSafeInteger (acquisitionDeclaredMonotonicMs snapshot) 0 MAX_SAFE_INTEGER) (\<lambda>_.
     bindR (requireSafeInteger (lastMonotonicMs snapshot) 0 MAX_SAFE_INTEGER) (\<lambda>_.
     if lastMonotonicMs snapshot < acquisitionDeclaredMonotonicMs snapshot then Inl (RangeError ''snapshot-clock-regression'')
     else if \<not> quotaEvidenceValid snapshot then Inl (TypeError ''snapshot-quota-evidence-invalid'')
     else bindR (assertSortedUnique (consumedTokenHashes snapshot)) (\<lambda>_.
     if (pageOrdinal snapshot = 0) \<noteq>
        (currentTokenHash snapshot = NO_TOKEN_HASH \<and> currentContinuationBindingHash snapshot = None)
     then Inl (TypeError ''snapshot-token-state-invalid'')
     else if 0 < pageOrdinal snapshot \<and> \<not> hash64 (currentTokenHash snapshot) then Inl (TypeError ''snapshot-token-state-invalid'')
     else if pageChainHash snapshot \<noteq> GENESIS_HASH \<and> \<not> hash64 (pageChainHash snapshot) then Inl (TypeError ''snapshot-page-chain-invalid'')
     else if \<not> terminalValid snapshot then Inl (TypeError ''snapshot-terminal-invalid'')
     else Inr ()))))))))"

definition validateProof :: "AcquisitionMachineSnapshot \<Rightarrow> AcquisitionEventProof \<Rightarrow> unit result" where
  "validateProof snapshot p =
     assertR (prRequestIdentityHash p = requestIdentityHash snapshot \<and>
       prAcquisitionConfigurationHash p = acquisitionConfigurationHash snapshot \<and>
       prMarketAcquisitionJournalId p = marketAcquisitionJournalId snapshot \<and>
       prRunSessionNonce p = runSessionNonce snapshot \<and>
       isSafeInteger (nowMonotonicMs p) \<and> lastMonotonicMs snapshot \<le> nowMonotonicMs p)
     (TypeError ''acquisition-event-proof-invalid'')"

definition assertTransition :: "AcquisitionState \<Rightarrow> AcquisitionState \<Rightarrow> unit result" where
  "assertTransition from to =
     assertR (to \<in> set (ACQUISITION_TRANSITIONS from)) (TypeError ''acquisition-transition-invalid'')"

definition terminalReasonForEvent :: "AcquisitionEventKind \<Rightarrow> MarketAcquisitionTerminalReason option" where
  "terminalReasonForEvent k =
     (case k of
        EvPreflightStopped r \<Rightarrow> Some r
      | EvPreflightFailed r \<Rightarrow> Some r
      | EvAttemptStopped r \<Rightarrow> Some r
      | EvAttemptFailed r \<Rightarrow> Some r
      | EvPolicyStopped r \<Rightarrow> Some r
      | EvCredentialUnavailable \<Rightarrow> Some TrCredentialUnavailable
      | EvArtifactStoreFailed \<Rightarrow> Some TrArtifactStoreFailed
      | EvPageVerificationFailed \<Rightarrow> Some TrArtifactVerificationFailed
      | EvPageQuarantined \<Rightarrow> Some TrDeliveryConflict
      | EvNormalizationFailed \<Rightarrow> Some TrNormalizationFailed
      | EvNormalizationQuarantined \<Rightarrow> Some TrCorrectionUnsupported
      | EvSelectionFailed \<Rightarrow> Some TrSelectionFailed
      | EvSelectionQuarantined \<Rightarrow> Some TrDeliveryConflict
      | _ \<Rightarrow> None)"

definition ensureResourcesSettled :: "AcquisitionEventProof \<Rightarrow> AcquisitionState \<Rightarrow> unit result" where
  "ensureResourcesSettled p target =
     assertR (\<not> ((target = WaitingRetry \<or> target = ChainComplete \<or> target \<in> set TERMINAL_STATES) \<and> \<not> resourcesSettled p))
       (TypeError ''acquisition-resources-unsettled'')"


section \<open>The next snapshot\<close>

definition applyDispatch ::
  "externals \<Rightarrow> AcquisitionMachineSnapshot \<Rightarrow> AcquisitionMachineSnapshot \<Rightarrow> int \<Rightarrow> DeadlineProof \<Rightarrow> int \<Rightarrow>
   AcquisitionMachineSnapshot result" where
  "applyDispatch X snapshot next now deadlineProof entitlementQuotaLimit =
     (let L = MARKET_ACQUISITION_LIMITS; declared = acquisitionDeclaredMonotonicMs snapshot in
      if laneDisabled snapshot then Inl (TypeError ''lane-disabled'')
      else bindR (validateDeadlineProof deadlineProof) (\<lambda>_.
      if dpAcquisitionDeclaredMonotonicMs deadlineProof \<noteq> NInt declared \<or>
         dpNowMonotonicMs deadlineProof \<noteq> NInt now \<or> dpAttemptStartedMonotonicMs deadlineProof \<noteq> NInt now \<or>
         acquisitionDeadlineMs L \<le> now - declared
      then Inl (TypeError ''deadline-proof-mismatch'')
      else if attemptsPerLogicalPage L \<le> pageAttemptsStarted snapshot \<or>
         attemptsPerAcquisition L \<le> attempts (budgets snapshot)
      then Inl (RangeError ''attempt-budget-exhausted'')
      else bindR (evaluateRollingQuota (map NInt (quotaWindowEvidence snapshot)) (NInt now) (NInt entitlementQuotaLimit)
          (NInt (declared + acquisitionDeadlineMs L))) (\<lambda>quota.
      case quota of
        Wait _ \<Rightarrow> Inl (RangeError ''dispatch-wait'')
      | QuotaStop _ \<Rightarrow> Inl (RangeError ''dispatch-stop'')
      | Admit attemptStarts \<Rightarrow>
          bindR (deriveAttemptControlIdentities X (logicalPageIdentityHash snapshot) (pageAttemptsStarted snapshot)
            (runSessionNonce snapshot)) (\<lambda>attempt.
          Inr (next\<lparr>pageAttemptsStarted := pageAttemptsStarted snapshot + 1,
                    attemptOrdinal := Some (pageAttemptsStarted snapshot),
                    attemptId := Some (derivedAttemptId attempt),
                    retrievalAttemptId := Some (derivedRetrievalAttemptId attempt),
                    budgets := (budgets snapshot)\<lparr>attempts := attempts (budgets snapshot) + 1\<rparr>,
                    quotaWindowEvidence := attemptStarts\<rparr>)))))"

definition applyRetryCleanup ::
  "AcquisitionMachineSnapshot \<Rightarrow> AcquisitionMachineSnapshot \<Rightarrow> int \<Rightarrow> RetryContext \<Rightarrow> AcquisitionMachineSnapshot result" where
  "applyRetryCleanup snapshot next now ctx =
     (if ctxPageAttemptsStarted ctx \<noteq> NInt (pageAttemptsStarted snapshot) \<or>
         ctxAcquisitionAttemptsStarted ctx \<noteq> NInt (attempts (budgets snapshot))
      then Inl (TypeError ''retry-context-mismatch'')
      else bindR (decideRetry ctx) (\<lambda>decision.
      case decision of
        StopRetry _ \<Rightarrow> Inl (TypeError ''retry-stopped'')
      | DoRetry delayMs _ \<Rightarrow>
          bindR (retryFitsAcquisitionDeadline (NInt now) (NInt delayMs) (NInt (acquisitionDeclaredMonotonicMs snapshot))) (\<lambda>fits.
          if \<not> fits then Inl (RangeError ''retry-acquisition-deadline'')
          else Inr (next\<lparr>pendingRetryDelayMs := Some delayMs\<rparr>))))"

definition applyRetryDelay ::
  "AcquisitionMachineSnapshot \<Rightarrow> AcquisitionMachineSnapshot \<Rightarrow> int \<Rightarrow> RetryDelayProof \<Rightarrow> AcquisitionMachineSnapshot result" where
  "applyRetryDelay snapshot next now delayProof =
     (case pendingRetryDelayMs snapshot of
        None \<Rightarrow> Inl (TypeError ''retry-delay-not-pending'')
      | Some delay \<Rightarrow>
          bindR (validateRetryDelayProof delay delayProof) (\<lambda>_.
          if now - lastMonotonicMs snapshot < delay then Inl (TypeError ''retry-delay-proof-backdated'')
          else Inr (next\<lparr>pendingRetryDelayMs := None\<rparr>)))"

definition pageAdmissible :: "AcquisitionMachineSnapshot \<Rightarrow> PageChainInput \<Rightarrow> bool" where
  "pageAdmissible snapshot i \<longleftrightarrow>
     priorPageChainHash i = pageChainHash snapshot \<and>
     pcRequestIdentityHash i = requestIdentityHash snapshot \<and>
     pcLogicalPageIdentityHash i = logicalPageIdentityHash snapshot \<and>
     pcPageOrdinal i = pageOrdinal snapshot \<and>
     pcCurrentTokenHash i = currentTokenHash snapshot \<and>
     pcCumulativeSuccessfulPages i = successfulPages (budgets snapshot) + 1 \<and>
     pcCumulativeVerifiedBytes i = verifiedBytes (budgets snapshot) + pcArtifactSizeBytes i \<and>
     pcCumulativeRecords i = records (budgets snapshot) + pcPageRecordCount i \<and>
     pcCumulativeNormalizedFacts i = 0 \<and>
     pcCumulativeAttempts i = attempts (budgets snapshot)"

definition applyCheckpoint ::
  "externals \<Rightarrow> AcquisitionMachineSnapshot \<Rightarrow> AcquisitionMachineSnapshot \<Rightarrow> PageChainInput \<Rightarrow> jsstring option \<Rightarrow>
   AcquisitionMachineSnapshot result" where
  "applyCheckpoint X snapshot next input material =
     (if \<not> pageAdmissible snapshot input then Inl (TypeError ''page-admission-proof-invalid'')
      else bindR (planPageAdmission X input material) (\<lambda>admission.
      Inr (next\<lparr>budgets := (budgets snapshot)\<lparr>successfulPages := pcCumulativeSuccessfulPages input,
                  verifiedBytes := pcCumulativeVerifiedBytes input, records := pcCumulativeRecords input\<rparr>,
                pageChainHash := admittedPageChainHash admission,
                continuationAuthority :=
                  (case (material, admittedContinuationBinding admission) of
                     (Some m, Some binding) \<Rightarrow> Some \<lparr>nextTokenMaterial = m,
                       nextTokenHash = admittedNextTokenHash admission, nextContinuationBindingHash = binding\<rparr>
                   | _ \<Rightarrow> None)\<rparr>)))"

definition applyContinue ::
  "externals \<Rightarrow> AcquisitionMachineSnapshot \<Rightarrow> AcquisitionMachineSnapshot \<Rightarrow> AcquisitionMachineSnapshot result" where
  "applyContinue X snapshot next =
     (case continuationAuthority snapshot of
        None \<Rightarrow> Inl (TypeError ''continuation-authority-missing'')
      | Some authority \<Rightarrow>
          bindR (derivePrivateTokenHash X (nextTokenMaterial authority)) (\<lambda>recomputed.
          if recomputed \<noteq> nextTokenHash authority \<or> recomputed \<in> set (consumedTokenHashes snapshot)
          then Inl (TypeError ''continuation-token-invalid'')
          else bindR (deriveLogicalPageIdentityHash X (requestIdentityHash snapshot) (pageOrdinal snapshot + 1) recomputed) (\<lambda>page.
          Inr (next\<lparr>pageOrdinal := pageOrdinal snapshot + 1,
                    pageAttemptsStarted := 0,
                    logicalPageIdentityHash := page,
                    attemptOrdinal := None,
                    attemptId := None,
                    retrievalAttemptId := None,
                    currentTokenHash := recomputed,
                    currentContinuationBindingHash := Some (nextContinuationBindingHash authority),
                    consumedTokenHashes := sort (consumedTokenHashes snapshot @ [recomputed]),
                    continuationAuthority := None\<rparr>))))"

definition eventEffect ::
  "externals \<Rightarrow> AcquisitionMachineSnapshot \<Rightarrow> AcquisitionMachineSnapshot \<Rightarrow> int \<Rightarrow> AcquisitionEventKind \<Rightarrow>
   AcquisitionMachineSnapshot result" where
  "eventEffect X snapshot next now k =
     (case k of
       EvDispatchStarted deadlineProof limit \<Rightarrow> applyDispatch X snapshot next now deadlineProof limit
     | EvRetryCleanupComplete ctx \<Rightarrow> applyRetryCleanup snapshot next now ctx
     | EvRetryDelayElapsed delayProof \<Rightarrow> applyRetryDelay snapshot next now delayProof
     | EvPageCheckpointed input material \<Rightarrow> applyCheckpoint X snapshot next input material
     | EvContinueNextPage \<Rightarrow> applyContinue X snapshot next
     | EvTerminalPageAdmitted \<Rightarrow>
         if continuationAuthority snapshot \<noteq> None then Inl (TypeError ''terminal-page-has-continuation'') else Inr next
     | EvNormalizationCompleted factCount \<Rightarrow>
         bindR (requireSafeInteger factCount 0 (limitNormalizedFacts MARKET_ACQUISITION_LIMITS)) (\<lambda>_.
         Inr (next\<lparr>budgets := (budgets snapshot)\<lparr>normalizedFacts := factCount\<rparr>\<rparr>))
     | EvAttemptStopped reason \<Rightarrow>
         Inr (next\<lparr>laneDisabled := laneDisabled snapshot \<or> reason = TrLaneDisabled \<or> reason = TrQuotaExhausted\<rparr>)
     | EvSelectionCompleted \<Rightarrow> Inr (next\<lparr>terminalReason := None\<rparr>)
     | _ \<Rightarrow> Inr next)"

definition moved :: "AcquisitionMachineSnapshot \<Rightarrow> AcquisitionEvent \<Rightarrow> AcquisitionMachineSnapshot" where
  "moved snapshot event = snapshot\<lparr>currentState := EVENT_TARGETS (eventKind event),
     terminalReason := terminalReasonForEvent (eventKind event), lastMonotonicMs := nowMonotonicMs (eventProof event)\<rparr>"

definition deriveNext :: "externals \<Rightarrow> AcquisitionMachineSnapshot \<Rightarrow> AcquisitionEvent \<Rightarrow> AcquisitionMachineSnapshot result" where
  "deriveNext X snapshot event =
     bindR (validateProof snapshot (eventProof event)) (\<lambda>_.
     bindR (assertTransition (currentState snapshot) (EVENT_TARGETS (eventKind event))) (\<lambda>_.
     bindR (ensureResourcesSettled (eventProof event) (EVENT_TARGETS (eventKind event))) (\<lambda>_.
     eventEffect X snapshot (moved snapshot event) (nowMonotonicMs (eventProof event)) (eventKind event))))"


section \<open>Machine\<close>

definition createInitialAcquisitionSnapshot ::
  "externals \<Rightarrow> jsstring \<Rightarrow> jsstring \<Rightarrow> jsstring \<Rightarrow> jsstring \<Rightarrow> int \<Rightarrow> AcquisitionMachineSnapshot result" where
  "createInitialAcquisitionSnapshot X request configuration journal nonce declared =
     bindR (deriveLogicalPageIdentityHash X request 0 NO_TOKEN_HASH) (\<lambda>page.
     let snapshot = \<lparr>snapshotVersion = 1, requestIdentityHash = request, acquisitionConfigurationHash = configuration,
       marketAcquisitionJournalId = journal, runSessionNonce = nonce, currentState = Declared, laneDisabled = False,
       terminalReason = None, pageOrdinal = 0, pageAttemptsStarted = 0, logicalPageIdentityHash = page,
       attemptOrdinal = None, attemptId = None, retrievalAttemptId = None, currentTokenHash = NO_TOKEN_HASH,
       currentContinuationBindingHash = None, consumedTokenHashes = [], pageChainHash = GENESIS_HASH,
       continuationAuthority = None,
       budgets = \<lparr>successfulPages = 0, verifiedBytes = 0, records = 0, normalizedFacts = 0, attempts = 0\<rparr>,
       quotaWindowEvidence = [], acquisitionDeclaredMonotonicMs = declared, lastMonotonicMs = declared,
       pendingRetryDelayMs = None\<rparr> in
     bindR (validateSnapshot X snapshot) (\<lambda>_. Inr snapshot))"

record AcquisitionTransitionPlan =
  planEventKind :: AcquisitionEventKind
  fromState :: AcquisitionState
  toState :: AcquisitionState
  checkpointKind :: "JournalCheckpointKind option"
  planNext :: AcquisitionMachineSnapshot

definition deriveAcquisitionTransition ::
  "externals \<Rightarrow> AcquisitionMachineSnapshot \<Rightarrow> AcquisitionEvent \<Rightarrow> AcquisitionTransitionPlan result" where
  "deriveAcquisitionTransition X snapshot event =
     bindR (validateSnapshot X snapshot) (\<lambda>_.
     bindR (canonicalJson (event_json event)) (\<lambda>_.
     bindR (deriveNext X snapshot event) (\<lambda>next.
     bindR (validateSnapshot X next) (\<lambda>_.
     Inr \<lparr>planEventKind = eventKind event, fromState = currentState snapshot, toState = currentState next,
          checkpointKind = checkpointForEvent snapshot (eventKind event), planNext = next\<rparr>))))"

text \<open>
  The machine object. \<open>persist\<close> is the durable callback of the constructor, \<open>testAuthority\<close>
  says whether the build defines \<open>P1_10_TEST_AUTHORITY\<close> (the production build does not), and
  \<open>owned\<close> whether the callback is one the module itself created. \<open>applyEvent\<close> is a call of
  \<open>#apply\<close> that nothing interrupts between the derivation and the assignment; calls that overlap at
  its \<open>await\<close> are the subject of \<open>OwnedState\<close>.
\<close>

record AcquisitionStateMachine =
  machineSnapshot :: AcquisitionMachineSnapshot
  ownedPersistence :: bool

definition newAcquisitionStateMachine ::
  "externals \<Rightarrow> bool \<Rightarrow> bool \<Rightarrow> AcquisitionMachineSnapshot \<Rightarrow> AcquisitionStateMachine result" where
  "newAcquisitionStateMachine X testAuthority owned snapshot =
     bindR (validateSnapshot X snapshot) (\<lambda>_.
     if \<not> testAuthority \<and> \<not> owned then Inl (TypeError ''owned-acquisition-durable-persistence-required'')
     else Inr \<lparr>machineSnapshot = snapshot, ownedPersistence = owned\<rparr>)"

definition applyEvent ::
  "externals \<Rightarrow> (AcquisitionTransitionPlan \<Rightarrow> AcquisitionEvent \<Rightarrow> unit result) \<Rightarrow> AcquisitionEvent \<Rightarrow>
   AcquisitionStateMachine \<Rightarrow> AcquisitionStateMachine \<times> AcquisitionTransitionPlan result" where
  "applyEvent X persist event m =
     (case deriveAcquisitionTransition X (machineSnapshot m) event of
        Inl e \<Rightarrow> (m, Inl e)
      | Inr plan \<Rightarrow>
          (case persist plan event of
             Inl e \<Rightarrow> (m, Inl e)
           | Inr _ \<Rightarrow> (m\<lparr>machineSnapshot := planNext plan\<rparr>, Inr plan)))"

definition applyAcquisitionEvent ::
  "externals \<Rightarrow> bool \<Rightarrow> (AcquisitionTransitionPlan \<Rightarrow> AcquisitionEvent \<Rightarrow> unit result) \<Rightarrow> AcquisitionEvent \<Rightarrow>
   AcquisitionStateMachine \<Rightarrow> AcquisitionStateMachine \<times> AcquisitionTransitionPlan result" where
  "applyAcquisitionEvent X testAuthority persist event m =
     (if ownedPersistence m \<and> \<not> testAuthority then (m, Inl (TypeError ''owned-acquisition-composer-required''))
      else applyEvent X persist event m)"

definition ownedProof :: "AcquisitionStateMachine \<Rightarrow> int \<Rightarrow> bool \<Rightarrow> AcquisitionEventProof result" where
  "ownedProof m now settled =
     (if \<not> ownedPersistence m then Inl (TypeError ''owned-acquisition-state-required'')
      else Inr \<lparr>prRequestIdentityHash = requestIdentityHash (machineSnapshot m),
        prAcquisitionConfigurationHash = acquisitionConfigurationHash (machineSnapshot m),
        prMarketAcquisitionJournalId = marketAcquisitionJournalId (machineSnapshot m),
        prRunSessionNonce = runSessionNonce (machineSnapshot m), nowMonotonicMs = now, resourcesSettled = settled\<rparr>)"

definition productionEvent ::
  "externals \<Rightarrow> (AcquisitionTransitionPlan \<Rightarrow> AcquisitionEvent \<Rightarrow> unit result) \<Rightarrow> AcquisitionEventKind \<Rightarrow> int \<Rightarrow> bool \<Rightarrow>
   AcquisitionStateMachine \<Rightarrow> AcquisitionStateMachine \<times> AcquisitionTransitionPlan result" where
  "productionEvent X persist k now settled m =
     (case ownedProof m now settled of
        Inl e \<Rightarrow> (m, Inl e)
      | Inr p \<Rightarrow> applyEvent X persist \<lparr>eventProof = p, eventKind = k\<rparr> m)"

definition productionDispatchStarted where
  "productionDispatchStarted X persist now limit m =
     productionEvent X persist (EvDispatchStarted
       \<lparr>dpAcquisitionDeclaredMonotonicMs = NInt (acquisitionDeclaredMonotonicMs (machineSnapshot m)),
        dpAttemptStartedMonotonicMs = NInt now, dpNowMonotonicMs = NInt now\<rparr> limit) now True m"

definition productionRetryCleanup where
  "productionRetryCleanup X persist now fault settled m =
     productionEvent X persist (EvRetryCleanupComplete
       \<lparr>failure = fault, ctxPageAttemptsStarted = NInt (pageAttemptsStarted (machineSnapshot m)),
        ctxAcquisitionAttemptsStarted = NInt (attempts (budgets (machineSnapshot m)))\<rparr>) now settled m"

definition productionRetryDelayElapsed where
  "productionRetryDelayElapsed X persist now m =
     (case pendingRetryDelayMs (machineSnapshot m) of
        None \<Rightarrow> (m, Inl (TypeError ''retry-delay-not-pending''))
      | Some delay \<Rightarrow>
          productionEvent X persist (EvRetryDelayElapsed
            \<lparr>clockBasis = js ''same-session-monotonic'', elapsedMs = NInt delay, monotonicOrderValid = True\<rparr>) now True m)"

end
