(* ===== verification/AcquisitionLaws.thy ===== *)
theory AcquisitionLaws
  imports Acquisition
begin

text \<open>
  What an acquisition can do. \<open>acqStep\<close> is one accepted event, \<open>acqReachable\<close> the
  snapshots that follow from an initial one.

  What is shown. Every accepted event lowers a potential, so an acquisition ends after at most 630
  events whatever its callers do. Terminal snapshots accept nothing. The recorded attempt starts
  respect the rolling quota in every window and lie before the acquisition deadline; page tokens are
  never consumed twice; the attempts of all pages stay within the budgets.
\<close>

section \<open>Effects of an event\<close>

lemma kind_targets:
  "EVENT_TARGETS k = AttemptActive \<longleftrightarrow> (\<exists>p n. k = EvDispatchStarted p n)"
  "EVENT_TARGETS k = WaitingRetry \<longleftrightarrow> (\<exists>c. k = EvRetryCleanupComplete c)"
  by (cases k; simp)+

lemmas effect_defs = eventEffect_def applyDispatch_def applyRetryCleanup_def applyRetryDelay_def
  applyCheckpoint_def applyContinue_def Let_def

text \<open>No event changes the identity of an acquisition; the state and the clock are those of \<open>moved\<close>.\<close>

lemma effect_frame:
  assumes "eventEffect X s n now k = Inr s'"
  shows "currentState s' = currentState n" "lastMonotonicMs s' = lastMonotonicMs n"
    "acquisitionDeclaredMonotonicMs s' = acquisitionDeclaredMonotonicMs n"
    "requestIdentityHash s' = requestIdentityHash n" "runSessionNonce s' = runSessionNonce n"
  using assms unfolding effect_defs
  by (auto elim!: bindRE ifRE split: AcquisitionEventKind.splits QuotaAdmission.splits RetryDecision.splits option.splits)

lemma effect_dispatch:
  assumes "eventEffect X s n now (EvDispatchStarted p limit) = Inr s'"
  shows "attempts (budgets s') = attempts (budgets s) + 1" "pageAttemptsStarted s' = pageAttemptsStarted s + 1"
    "pageAttemptsStarted s < 3" "attempts (budgets s) < 48" "\<not> laneDisabled s"
    "now < acquisitionDeclaredMonotonicMs s + 300000"
    "evaluateRollingQuota (map NInt (quotaWindowEvidence s)) (NInt now) (NInt limit)
      (NInt (acquisitionDeclaredMonotonicMs s + 300000)) = Inr (Admit (quotaWindowEvidence s'))"
    "consumedTokenHashes s' = consumedTokenHashes n" "pageOrdinal s' = pageOrdinal n" "currentTokenHash s' = currentTokenHash n"
    "pendingRetryDelayMs s' = pendingRetryDelayMs n"
  using assms
  by (auto simp: eventEffect_def applyDispatch_def Let_def market_limits not_le elim!: bindRE ifRE
      split: QuotaAdmission.splits)

lemma effect_other:
  assumes "eventEffect X s n now k = Inr s'" "\<nexists>p limit. k = EvDispatchStarted p limit" "budgets n = budgets s"
  shows "attempts (budgets s') = attempts (budgets s)" "quotaWindowEvidence s' = quotaWindowEvidence n"
  using assms(2,3) assms(1) [unfolded effect_defs]
  by (auto elim!: bindRE ifRE split: AcquisitionEventKind.splits RetryDecision.splits option.splits)

lemma effect_continue:
  assumes "eventEffect X s n now EvContinueNextPage = Inr s'"
  shows "consumedTokenHashes s' = sort (consumedTokenHashes s @ [currentTokenHash s'])"
    "currentTokenHash s' \<notin> set (consumedTokenHashes s)"
    "pageOrdinal s' = pageOrdinal s + 1" "pageAttemptsStarted s' = 0" "pendingRetryDelayMs s' = pendingRetryDelayMs n"
  using assms unfolding effect_defs by (auto elim!: bindRE ifRE split: option.splits)

lemma effect_page:
  assumes "eventEffect X s n now k = Inr s'" "k \<noteq> EvContinueNextPage" "\<nexists>p limit. k = EvDispatchStarted p limit"
  shows "consumedTokenHashes s' = consumedTokenHashes n" "pageOrdinal s' = pageOrdinal n"
    "currentTokenHash s' = currentTokenHash n" "pageAttemptsStarted s' = pageAttemptsStarted n"
  using assms(2,3) assms(1) [unfolded effect_defs]
  by (auto elim!: bindRE ifRE split: AcquisitionEventKind.splits RetryDecision.splits option.splits)

lemma moved_fields [simp]:
  "currentState (moved s e) = EVENT_TARGETS (eventKind e)" "lastMonotonicMs (moved s e) = nowMonotonicMs (eventProof e)"
  "acquisitionDeclaredMonotonicMs (moved s e) = acquisitionDeclaredMonotonicMs s"
  "requestIdentityHash (moved s e) = requestIdentityHash s" "runSessionNonce (moved s e) = runSessionNonce s"
  "budgets (moved s e) = budgets s" "quotaWindowEvidence (moved s e) = quotaWindowEvidence s"
  "consumedTokenHashes (moved s e) = consumedTokenHashes s" "pageOrdinal (moved s e) = pageOrdinal s"
  "currentTokenHash (moved s e) = currentTokenHash s" "pageAttemptsStarted (moved s e) = pageAttemptsStarted s"
  "pendingRetryDelayMs (moved s e) = pendingRetryDelayMs s"
  by (simp_all add: moved_def)

lemma deriveNext_Inr:
  "deriveNext X s e = Inr s' \<longleftrightarrow>
     validateProof s (eventProof e) = Inr () \<and>
     EVENT_TARGETS (eventKind e) \<in> set (ACQUISITION_TRANSITIONS (currentState s)) \<and>
     ensureResourcesSettled (eventProof e) (EVENT_TARGETS (eventKind e)) = Inr () \<and>
     eventEffect X s (moved s e) (nowMonotonicMs (eventProof e)) (eventKind e) = Inr s'"
  by (simp add: deriveNext_def bindR_eq_Inr assertTransition_def)


section \<open>Steps\<close>

inductive acqStep :: "externals \<Rightarrow> AcquisitionMachineSnapshot \<Rightarrow> AcquisitionMachineSnapshot \<Rightarrow> bool" for X where
  accept: "deriveAcquisitionTransition X s e = Inr plan \<Longrightarrow> acqStep X s (planNext plan)"

inductive_cases acqStepE: "acqStep X s s'"

lemma transition_Inr:
  assumes "deriveAcquisitionTransition X s e = Inr plan"
  shows "validateSnapshot X s = Inr ()" "deriveNext X s e = Inr (planNext plan)" "validateSnapshot X (planNext plan) = Inr ()"
    "fromState plan = currentState s" "toState plan = currentState (planNext plan)"
    "checkpointKind plan = checkpointForEvent s (eventKind e)"
  using assms unfolding deriveAcquisitionTransition_def by (auto elim!: bindRE)

lemma step_next: "acqStep X s s' \<Longrightarrow> (\<And>e. deriveNext X s e = Inr s' \<Longrightarrow> validateSnapshot X s = Inr () \<Longrightarrow>
    validateSnapshot X s' = Inr () \<Longrightarrow> P) \<Longrightarrow> P"
  by (erule acqStepE) (metis transition_Inr(1-3))

text \<open>The distance of a state from the end of an attempt.\<close>

fun stage :: "AcquisitionState \<Rightarrow> nat" where
  "stage AttemptActive = 12"
| "stage ResponseAccepted = 11"
| "stage ArtifactCommitting = 10"
| "stage ArtifactCommitted = 9"
| "stage ArtifactVerifying = 8"
| "stage PageVerified = 7"
| "stage Checkpointing = 6"
| "stage WaitingRetry = 6"
| "stage Declared = 6"
| "stage Preflighting = 5"
| "stage ChainComplete = 5"
| "stage DispatchReady = 4"
| "stage Normalizing = 4"
| "stage CredentialReady = 3"
| "stage ReadyForSelection = 3"
| "stage Selecting = 2"
| "stage _ = 0"

definition potential :: "AcquisitionMachineSnapshot \<Rightarrow> nat" where
  "potential s = 13 * nat (48 - attempts (budgets s)) + stage (currentState s)"

lemma stage_decreases: "t \<in> set (ACQUISITION_TRANSITIONS f) \<Longrightarrow> t \<noteq> AttemptActive \<Longrightarrow> stage t < stage f"
  by (cases f) auto

lemma to_attempt: "AttemptActive \<in> set (ACQUISITION_TRANSITIONS f) \<Longrightarrow> f = CredentialReady"
  by (cases f) auto

lemma step_potential:
  assumes "deriveNext X s e = Inr s'"
  shows "potential s' < potential s"
proof -
  note n = assms [unfolded deriveNext_Inr]
  let ?k = "eventKind e" and ?eff = "eventEffect X s (moved s e) (nowMonotonicMs (eventProof e)) (eventKind e) = Inr s'"
  have eff: ?eff and t: "EVENT_TARGETS ?k \<in> set (ACQUISITION_TRANSITIONS (currentState s))" using n by blast+
  have st: "currentState s' = EVENT_TARGETS ?k" using effect_frame(1) [OF eff] by simp
  show ?thesis
  proof (cases "\<exists>p limit. ?k = EvDispatchStarted p limit")
    case True
    then obtain p limit where k: "?k = EvDispatchStarted p limit" by blast
    from effect_dispatch(1,4) [OF eff [unfolded k]]
    have "attempts (budgets s') = attempts (budgets s) + 1" "attempts (budgets s) < 48" .
    moreover have "currentState s = CredentialReady" using t k to_attempt by simp
    ultimately show ?thesis using st k by (simp add: potential_def)
  next
    case False
    then have "EVENT_TARGETS ?k \<noteq> AttemptActive" by (simp add: kind_targets)
    with stage_decreases [OF t] effect_other(1) [OF eff False] st show ?thesis by (simp add: potential_def)
  qed
qed

lemma steps_potential: "(acqStep X ^^ n) s s' \<Longrightarrow> n + potential s' \<le> potential s"
proof (induction n arbitrary: s')
  case (Suc n)
  then obtain u where "(acqStep X ^^ n) s u" "acqStep X u s'" by auto
  with Suc.IH [of u] step_next [of X u s'] step_potential show ?case by (metis Suc_le_eq add_Suc le_trans less_or_eq_imp_le add_less_cancel_left order_less_le_trans)
qed simp


section \<open>Reachable snapshots\<close>

inductive acqReachable :: "externals \<Rightarrow> AcquisitionMachineSnapshot \<Rightarrow> bool" for X where
  init: "createInitialAcquisitionSnapshot X r c j nonce t = Inr s \<Longrightarrow> acqReachable X s"
| step: "acqReachable X s \<Longrightarrow> acqStep X s s' \<Longrightarrow> acqReachable X s'"

lemma initial_Inr:
  assumes "createInitialAcquisitionSnapshot X r c j nonce t = Inr s"
  shows "validateSnapshot X s = Inr ()" "currentState s = Declared" "attempts (budgets s) = 0" "quotaWindowEvidence s = []"
    "consumedTokenHashes s = []" "pageOrdinal s = 0" "pageAttemptsStarted s = 0" "pendingRetryDelayMs s = None"
    "acquisitionDeclaredMonotonicMs s = t" "requestIdentityHash s = r"
  using assms unfolding createInitialAcquisitionSnapshot_def Let_def by (auto elim!: bindRE)

text \<open>
  The invariant of the reachable snapshots, beyond what \<open>validateSnapshot\<close> checks.
\<close>

definition acqInv :: "AcquisitionMachineSnapshot \<Rightarrow> bool" where
  "acqInv s \<longleftrightarrow>
     spaced 30 (quotaWindowEvidence s) \<and>
     (\<forall>v \<in> set (quotaWindowEvidence s). v < acquisitionDeclaredMonotonicMs s + 300000) \<and>
     distinct (consumedTokenHashes s) \<and> int (length (consumedTokenHashes s)) = pageOrdinal s \<and>
     (0 < pageOrdinal s \<longrightarrow> currentTokenHash s \<in> set (consumedTokenHashes s)) \<and>
     pageAttemptsStarted s \<le> 3 \<and> attempts (budgets s) \<le> 3 * pageOrdinal s + pageAttemptsStarted s"

lemma quota_spaced:
  assumes "spaced 30 ss" "evaluateRollingQuota (map NInt ss) (NInt p) (NInt e) (NInt d) = Inr (Admit r)"
  shows "spaced 30 r" "r = ss @ [p]"
proof -
  have q: "\<forall>s\<in>set ss. s \<le> p" "int (length (activeStarts p ss)) < effectiveLimit e" "r = sort ss @ [p]"
    using assms(2) unfolding quota_admit by blast+
  have "sort ss = ss" using assms(1) by (simp add: spaced_def sort_key_id_if_sorted)
  with q(3) show r: "r = ss @ [p]" by simp
  have "length (activeStarts p ss) < 30" using q(2) by (simp add: effectiveLimit_def market_limits)
  then show "spaced 30 r" unfolding r by (rule spaced_admit [OF assms(1) q(1)])
qed

lemma acqInv_next:
  assumes "acqInv s" "deriveNext X s e = Inr s'"
  shows "acqInv s'"
proof -
  let ?k = "eventKind e"
  have eff: "eventEffect X s (moved s e) (nowMonotonicMs (eventProof e)) ?k = Inr s'"
    using assms(2) unfolding deriveNext_Inr by blast
  have d: "acquisitionDeclaredMonotonicMs s' = acquisitionDeclaredMonotonicMs s" using effect_frame(3) [OF eff] by simp
  show ?thesis
  proof (cases "\<exists>p limit. ?k = EvDispatchStarted p limit")
    case True
    then obtain p limit where k: "?k = EvDispatchStarted p limit" by blast
    note f = effect_dispatch [OF eff [unfolded k]]
    have "spaced 30 (quotaWindowEvidence s)" using assms(1) by (simp add: acqInv_def)
    note q = quota_spaced [OF this f(7)]
    from assms(1) f(1-3,6,8-10) q d show ?thesis by (auto simp: acqInv_def)
  next
    case False
    note o = effect_other [OF eff False]
    show ?thesis
    proof (cases "?k = EvContinueNextPage")
      case True
      note c = effect_continue [OF eff [unfolded True]]
      have "length (consumedTokenHashes s') = Suc (length (consumedTokenHashes s))" by (subst c(1)) simp
      moreover have "distinct (consumedTokenHashes s')" using c(2) assms(1) by (subst c(1)) (simp add: acqInv_def)
      moreover have "currentTokenHash s' \<in> set (consumedTokenHashes s')" by (subst c(1)) simp
      ultimately show ?thesis using assms(1) o c(3,4) d by (auto simp: acqInv_def)
    next
      case kc: False
      from assms(1) o effect_page [OF eff kc False] d show ?thesis by (simp add: acqInv_def)
    qed
  qed
qed

lemma reachable_inv: "acqReachable X s \<Longrightarrow> acqInv s \<and> validateSnapshot X s = Inr ()"
proof (induction rule: acqReachable.induct)
  case (init r c j nonce t s)
  then show ?case using initial_Inr [OF init] by (simp add: acqInv_def)
next
  case (step s s')
  from step.hyps(2) show ?case by (rule step_next) (use step.IH acqInv_next in blast)
qed


section \<open>Moving without an effect\<close>

lemma valid_snapshot_json: "valid_json (snapshot_json s) \<longleftrightarrow>
    isSafeInteger (snapshotVersion s) \<and> scalar (requestIdentityHash s) \<and> scalar (acquisitionConfigurationHash s) \<and>
    scalar (marketAcquisitionJournalId s) \<and> scalar (runSessionNonce s) \<and> isSafeInteger (pageOrdinal s) \<and>
    isSafeInteger (pageAttemptsStarted s) \<and> scalar (logicalPageIdentityHash s) \<and>
    pred_option isSafeInteger (attemptOrdinal s) \<and> pred_option scalar (attemptId s) \<and> pred_option scalar (retrievalAttemptId s) \<and>
    scalar (currentTokenHash s) \<and> pred_option scalar (currentContinuationBindingHash s) \<and>
    list_all scalar (consumedTokenHashes s) \<and> scalar (pageChainHash s) \<and>
    pred_option (\<lambda>a. valid_json (authority_json a)) (continuationAuthority s) \<and> valid_json (budgets_json (budgets s)) \<and>
    list_all isSafeInteger (quotaWindowEvidence s) \<and> isSafeInteger (acquisitionDeclaredMonotonicMs s) \<and>
    isSafeInteger (lastMonotonicMs s) \<and> pred_option isSafeInteger (pendingRetryDelayMs s)"
proof -
  have num: "valid_json (jnull f x) = pred_option (\<lambda>y. valid_json (f y)) x" for f :: "int \<Rightarrow> json" and x
    by (cases x) simp_all
  have str: "valid_json (jnull f x) = pred_option (\<lambda>y. valid_json (f y)) x" for f :: "jsstring \<Rightarrow> json" and x
    by (cases x) simp_all
  have auth: "valid_json (jnull f x) = pred_option (\<lambda>y. valid_json (f y)) x" for f :: "ContinuationAuthority \<Rightarrow> json" and x
    by (cases x) simp_all
  have reason: "valid_json (jnull (\<lambda>r. JStr (js (reasonName r))) x)" for x by (cases x) simp_all
  show ?thesis
    by (simp add: snapshot_json_def num str auth reason list_all_iff comp_def) blast
qed

text \<open>A state that is not terminal may be entered at any later moment without further effect.\<close>

lemma validateSnapshot_move:
  assumes "validateSnapshot X s = Inr ()" "t \<notin> set TERMINAL_STATES" "lastMonotonicMs s \<le> now" "isSafeInteger now"
  shows "validateSnapshot X (s\<lparr>currentState := t, terminalReason := None, lastMonotonicMs := now\<rparr>) = Inr ()"
proof -
  let ?s = "s\<lparr>currentState := t, terminalReason := None, lastMonotonicMs := now\<rparr>"
  have j: "valid_json (snapshot_json s)" using assms(1) unfolding validateSnapshot_def by (auto elim!: bindRE)
  then have j': "valid_json (snapshot_json ?s)" using assms(4) by (simp add: valid_snapshot_json)
  have l: "0 \<le> lastMonotonicMs s" "acquisitionDeclaredMonotonicMs s \<le> lastMonotonicMs s" "quotaEvidenceValid s"
    using assms(1) unfolding validateSnapshot_def requireSafeInteger_def by (auto elim!: bindRE ifRE)
  have q: "quotaEvidenceValid ?s" using l(3) assms(3) by (auto simp: quotaEvidenceValid_def list_all_iff)
  have t: "terminalValid ?s" using assms(2) by (simp add: terminalValid_def TERMINAL_STATES_def)
  have a: "assertAttemptIdentity X ?s = assertAttemptIdentity X s" "assertBudgets ?s = assertBudgets s"
    by (cases "attemptOrdinal s") (simp_all add: assertAttemptIdentity_def assertBudgets_def)
  have now: "requireSafeInteger now 0 MAX_SAFE_INTEGER = Inr ()"
    using assms(3,4) l(1) by (simp add: requireSafeInteger_def isSafeInteger_def)
  have "acquisitionDeclaredMonotonicMs s \<le> now" using l(2) assms(3) by simp
  with assms(1) show ?thesis
    unfolding validateSnapshot_def a by (elim bindRE ifRE) (simp add: j' q t now)
qed

definition proofFor :: "AcquisitionMachineSnapshot \<Rightarrow> int \<Rightarrow> AcquisitionEventProof" where
  "proofFor s now = \<lparr>prRequestIdentityHash = requestIdentityHash s,
     prAcquisitionConfigurationHash = acquisitionConfigurationHash s,
     prMarketAcquisitionJournalId = marketAcquisitionJournalId s,
     prRunSessionNonce = runSessionNonce s, nowMonotonicMs = now, resourcesSettled = True\<rparr>"

text \<open>
  \<open>begin-preflight\<close> is accepted wherever the state table allows \<open>preflighting\<close>, and has no
  effect beyond the move.
\<close>

lemma begin_preflight_accepted:
  assumes "validateSnapshot X s = Inr ()" "currentState s \<in> {Declared, WaitingRetry, Checkpointing}"
    "lastMonotonicMs s \<le> now" "isSafeInteger now"
  shows "deriveAcquisitionTransition X s \<lparr>eventProof = proofFor s now, eventKind = EvBeginPreflight\<rparr> =
    Inr \<lparr>planEventKind = EvBeginPreflight, fromState = currentState s, toState = Preflighting,
      checkpointKind = Some CkAcquisitionDeclared,
      planNext = s\<lparr>currentState := Preflighting, terminalReason := None, lastMonotonicMs := now\<rparr>\<rparr>"
proof -
  let ?e = "\<lparr>eventProof = proofFor s now, eventKind = EvBeginPreflight\<rparr>"
  let ?s = "s\<lparr>currentState := Preflighting, terminalReason := None, lastMonotonicMs := now\<rparr>"
  have j: "valid_json (snapshot_json s)" using assms(1) unfolding validateSnapshot_def by (auto elim!: bindRE)
  then have "valid_json (event_json ?e)"
    using assms(4) by (simp add: valid_snapshot_json event_json_def proof_json_def proofFor_def eventFields_def)
  moreover have "deriveNext X s ?e = Inr ?s"
    using assms(2-4) by (auto simp: deriveNext_Inr validateProof_def proofFor_def ensureResourcesSettled_def
        eventEffect_def moved_def terminalReasonForEvent_def TERMINAL_STATES_def)
  moreover have "validateSnapshot X ?s = Inr ()"
    using validateSnapshot_move [OF assms(1) _ assms(3,4)] by (simp add: TERMINAL_STATES_def)
  ultimately show ?thesis using assms(1)
    by (simp add: deriveAcquisitionTransition_def checkpointForEvent_def)
qed

text \<open>The event that is meant to end a retry wait does check the delay.\<close>

lemma retry_delay_elapsed:
  assumes "deriveNext X s \<lparr>eventProof = p, eventKind = EvRetryDelayElapsed q\<rparr> = Inr s'"
  shows "\<exists>d. pendingRetryDelayMs s = Some d \<and> lastMonotonicMs s + d \<le> lastMonotonicMs s' \<and> pendingRetryDelayMs s' = None"
proof -
  have eff: "applyRetryDelay s (moved s \<lparr>eventProof = p, eventKind = EvRetryDelayElapsed q\<rparr>) (nowMonotonicMs p) q = Inr s'"
    using assms by (simp add: deriveNext_Inr eventEffect_def)
  then show ?thesis
    by (auto simp: applyRetryDelay_def elim!: bindRE ifRE split: option.splits)
qed

lemma terminal_absorbs: "currentState s \<in> set TERMINAL_STATES \<Longrightarrow> deriveNext X s e \<noteq> Inr s'"
  by (auto simp: deriveNext_Inr TERMINAL_STATES_def)

end
