(* ===== verification/Journal.thy ===== *)
theory Journal
  imports AcquisitionTypes
begin

text \<open>
  The hash-chained acquisition journal: \<^verbatim>\<open>journal.ts\<close> and the journal entries of
  \<^verbatim>\<open>memory-journal.ts\<close> under \<^verbatim>\<open>src/adapters/market-acquisition/\<close>. An entry is a
  checkpoint body with its place in the chain. \<open>validateJournalEntries\<close> is one pass over the
  entries with the state \<open>JournalScan\<close>; the memory journal validates the whole prospective
  journal before it appends.

  The shape checks (\<open>assertExactKeys\<close>) hold of every record of the model. The ledger side of the
  memory journal is not modelled, because it depends on the observation ledger.
\<close>

section \<open>Entries\<close>

datatype JournalTerminalState = JCompleted | JStopped | JFailedClean | JQuarantined

fun terminalName :: "JournalTerminalState \<Rightarrow> string" where
  "terminalName JCompleted = ''completed''"
| "terminalName JStopped = ''stopped''"
| "terminalName JFailedClean = ''failed-clean''"
| "terminalName JQuarantined = ''quarantined''"

record JournalCheckpointBody =
  jbSchemaVersion :: int
  jbRunSessionNonce :: jsstring
  jbAcquisitionObservationId :: jsstring
  jbMarketAcquisitionId :: jsstring
  jbAdmittedMarketAcquisitionIds :: "jsstring list"
  jbRequestIdentityHash :: jsstring
  jbAcquisitionConfigurationHash :: jsstring
  jbProviderId :: jsstring
  jbDatasetId :: jsstring
  jbFeedId :: jsstring
  jbEndpointChannelId :: jsstring
  jbAuthorizationMode :: jsstring
  jbLogicalPageIdentityHash :: jsstring
  jbPageOrdinal :: int
  jbCurrentTokenHash :: jsstring
  jbCurrentResumableTokenMaterial :: "jsstring option"
  jbNextTokenHash :: "jsstring option"
  jbNextResumableTokenMaterial :: "jsstring option"
  jbCurrentContinuationBindingHash :: "jsstring option"
  jbNextContinuationBindingHash :: "jsstring option"
  jbAttemptId :: jsstring
  jbRetrievalAttemptId :: jsstring
  jbAttemptOrdinal :: int
  jbArtifactObservationId :: "jsstring option"
  jbArtifactDigest :: "jsstring option"
  jbArtifactSizeBytes :: "int option"
  jbArtifactObservationHash :: "jsstring option"
  jbArtifactContentId :: "jsstring option"
  jbRawArtifactId :: "jsstring option"
  jbStageLedgerFactId :: "jsstring option"
  jbCausalParentFactIds :: "jsstring list"
  jbPageRecordCount :: "int option"
  jbPageNormalizedFactCount :: "int option"
  jbPageChainHash :: jsstring
  jbCumulativeSuccessfulPages :: int
  jbCumulativeVerifiedBytes :: int
  jbCumulativeRecords :: int
  jbCumulativeNormalizedFacts :: int
  jbCumulativeAttempts :: int
  jbAcquisitionDeadlineBasis :: jsstring
  jbQuotaWindowEvidence :: "int list"
  jbTerminalState :: "JournalTerminalState option"
  jbTerminalReasonCode :: "jsstring option"
  jbIncomplete :: bool

record JournalEntry = JournalCheckpointBody +
  jeMarketAcquisitionJournalId :: jsstring
  journalSequence :: int
  priorJournalEntryHash :: jsstring
  jeCheckpointKind :: JournalCheckpointKind
  journalEntryHash :: jsstring

definition body_fields :: "'a JournalCheckpointBody_scheme \<Rightarrow> (jsstring \<times> json) list" where
  "body_fields b =
     field ''schemaVersion'' (jint (jbSchemaVersion b)) @
     field ''runSessionNonce'' (JStr (jbRunSessionNonce b)) @
     field ''acquisitionObservationId'' (JStr (jbAcquisitionObservationId b)) @
     field ''marketAcquisitionId'' (JStr (jbMarketAcquisitionId b)) @
     field ''admittedMarketAcquisitionIds'' (JArr (map JStr (jbAdmittedMarketAcquisitionIds b))) @
     field ''requestIdentityHash'' (JStr (jbRequestIdentityHash b)) @
     field ''acquisitionConfigurationHash'' (JStr (jbAcquisitionConfigurationHash b)) @
     field ''providerId'' (JStr (jbProviderId b)) @
     field ''datasetId'' (JStr (jbDatasetId b)) @
     field ''feedId'' (JStr (jbFeedId b)) @
     field ''endpointChannelId'' (JStr (jbEndpointChannelId b)) @
     field ''authorizationMode'' (JStr (jbAuthorizationMode b)) @
     field ''logicalPageIdentityHash'' (JStr (jbLogicalPageIdentityHash b)) @
     field ''pageOrdinal'' (jint (jbPageOrdinal b)) @
     field ''currentTokenHash'' (JStr (jbCurrentTokenHash b)) @
     field ''currentResumableTokenMaterial'' (jnull JStr (jbCurrentResumableTokenMaterial b)) @
     field ''nextTokenHash'' (jnull JStr (jbNextTokenHash b)) @
     field ''nextResumableTokenMaterial'' (jnull JStr (jbNextResumableTokenMaterial b)) @
     field ''currentContinuationBindingHash'' (jnull JStr (jbCurrentContinuationBindingHash b)) @
     field ''nextContinuationBindingHash'' (jnull JStr (jbNextContinuationBindingHash b)) @
     field ''attemptId'' (JStr (jbAttemptId b)) @
     field ''retrievalAttemptId'' (JStr (jbRetrievalAttemptId b)) @
     field ''attemptOrdinal'' (jint (jbAttemptOrdinal b)) @
     field ''artifactObservationId'' (jnull JStr (jbArtifactObservationId b)) @
     field ''artifactDigest'' (jnull JStr (jbArtifactDigest b)) @
     field ''artifactSizeBytes'' (jnull jint (jbArtifactSizeBytes b)) @
     field ''artifactObservationHash'' (jnull JStr (jbArtifactObservationHash b)) @
     field ''artifactContentId'' (jnull JStr (jbArtifactContentId b)) @
     field ''rawArtifactId'' (jnull JStr (jbRawArtifactId b)) @
     field ''stageLedgerFactId'' (jnull JStr (jbStageLedgerFactId b)) @
     field ''causalParentFactIds'' (JArr (map JStr (jbCausalParentFactIds b))) @
     field ''pageRecordCount'' (jnull jint (jbPageRecordCount b)) @
     field ''pageNormalizedFactCount'' (jnull jint (jbPageNormalizedFactCount b)) @
     field ''pageChainHash'' (JStr (jbPageChainHash b)) @
     field ''cumulativeSuccessfulPages'' (jint (jbCumulativeSuccessfulPages b)) @
     field ''cumulativeVerifiedBytes'' (jint (jbCumulativeVerifiedBytes b)) @
     field ''cumulativeRecords'' (jint (jbCumulativeRecords b)) @
     field ''cumulativeNormalizedFacts'' (jint (jbCumulativeNormalizedFacts b)) @
     field ''cumulativeAttempts'' (jint (jbCumulativeAttempts b)) @
     field ''acquisitionDeadlineBasis'' (JStr (jbAcquisitionDeadlineBasis b)) @
     field ''quotaWindowEvidence'' (JArr (map jint (jbQuotaWindowEvidence b))) @
     field ''terminalState'' (jnull (\<lambda>t. JStr (js (terminalName t))) (jbTerminalState b)) @
     field ''terminalReasonCode'' (jnull JStr (jbTerminalReasonCode b)) @
     field ''incomplete'' (JBool (jbIncomplete b))"

definition entry_json :: "JournalEntry \<Rightarrow> json" where
  "entry_json e = JObj (body_fields e @
     field ''marketAcquisitionJournalId'' (JStr (jeMarketAcquisitionJournalId e)) @
     field ''journalSequence'' (jint (journalSequence e)) @
     field ''priorJournalEntryHash'' (JStr (priorJournalEntryHash e)) @
     field ''checkpointKind'' (JStr (js (checkpointName (jeCheckpointKind e)))) @
     field ''journalEntryHash'' (JStr (journalEntryHash e)))"

definition chainFields :: "JournalEntry \<Rightarrow> jsstring \<Rightarrow> json" where
  "chainFields e canonicalEntryBody = JObj (
     field ''marketAcquisitionJournalId'' (JStr (jeMarketAcquisitionJournalId e)) @
     field ''journalSequence'' (jint (journalSequence e)) @
     field ''priorJournalEntryHash'' (JStr (priorJournalEntryHash e)) @
     field ''entryKind'' (JStr (js (checkpointName (jeCheckpointKind e)))) @
     field ''canonicalEntryBody'' (JStr canonicalEntryBody))"

definition deriveJournalEntryHash :: "externals \<Rightarrow> JournalEntry \<Rightarrow> jsstring result" where
  "deriveJournalEntryHash X e =
     bindR (canonicalJson (JObj (body_fields e))) (\<lambda>text.
     framedHash X ''peas/market-acquisition-journal-entry/v1'' (chainFields e text))"

text \<open>The hash field of the draft is not read by \<open>deriveJournalEntryHash\<close>.\<close>

definition createJournalEntry ::
  "externals \<Rightarrow> JournalEntry option \<Rightarrow> jsstring \<Rightarrow> JournalCheckpointKind \<Rightarrow> JournalCheckpointBody \<Rightarrow> JournalEntry result" where
  "createJournalEntry X previous journalId kind body =
     bindR (assertHash64 journalId) (\<lambda>_.
     let draft = JournalCheckpointBody.extend body (JournalEntry.fields journalId
           (case previous of None \<Rightarrow> 0 | Some p \<Rightarrow> journalSequence p + 1)
           (case previous of None \<Rightarrow> GENESIS_HASH | Some p \<Rightarrow> journalEntryHash p) kind []) in
     bindR (deriveJournalEntryHash X draft) (\<lambda>h. Inr (draft\<lparr>journalEntryHash := h\<rparr>)))"


section \<open>Validation\<close>

fun ascending :: "jsstring list \<Rightarrow> bool" where
  "ascending (a # b # xs) = (utf8 a < utf8 b \<and> ascending (b # xs))"
| "ascending _ = True"

definition countOption :: "int option \<Rightarrow> int \<Rightarrow> unit result" where
  "countOption value maximum = (case value of None \<Rightarrow> Inr () | Some n \<Rightarrow> assertSafeCount n maximum)"

definition tokenMatches :: "externals \<Rightarrow> jsstring option \<Rightarrow> jsstring option \<Rightarrow> unit result" where
  "tokenMatches X material hash =
     (case material of
        None \<Rightarrow> Inr ()
      | Some m \<Rightarrow> bindR (derivePrivateTokenHash X m) (\<lambda>h. assertR (hash = Some h) (TypeError ''token-material-invalid'')))"

definition validateCheckpointSemantics :: "externals \<Rightarrow> JournalEntry \<Rightarrow> unit result" where
  "validateCheckpointSemantics X e =
     (let L = MARKET_ACQUISITION_LIMITS in
     bindR (assertSafeCount (jbPageOrdinal e) (limitSuccessfulPages L - 1)) (\<lambda>_.
     bindR (assertSafeCount (jbAttemptOrdinal e) 2) (\<lambda>_.
     bindR (assertSafeCount (jbCumulativeSuccessfulPages e) (limitSuccessfulPages L)) (\<lambda>_.
     bindR (assertSafeCount (jbCumulativeVerifiedBytes e) (aggregateVerifiedBytes L)) (\<lambda>_.
     bindR (assertSafeCount (jbCumulativeRecords e) (limitSuccessfulPages L * recordsPerPage L)) (\<lambda>_.
     bindR (assertSafeCount (jbCumulativeNormalizedFacts e) (limitNormalizedFacts L)) (\<lambda>_.
     bindR (assertSafeCount (jbCumulativeAttempts e) (attemptsPerAcquisition L)) (\<lambda>_.
     bindR (countOption (jbPageRecordCount e) (recordsPerPage L)) (\<lambda>_.
     bindR (countOption (jbPageNormalizedFactCount e) (limitNormalizedFacts L)) (\<lambda>_.
     bindR (countOption (jbArtifactSizeBytes e) (rawArtifactBytes L)) (\<lambda>_.
     if jbAuthorizationMode e \<noteq> js ''p1-09-approved'' \<or> jbSchemaVersion e \<noteq> 1 then Inl (TypeError ''journal-authority-invalid'')
     else if jbPageOrdinal e = 0 \<and> (jbCurrentTokenHash e \<noteq> NO_TOKEN_HASH \<or> jbCurrentResumableTokenMaterial e \<noteq> None \<or>
       jbCurrentContinuationBindingHash e \<noteq> None) then Inl (TypeError ''first-page-token-invalid'')
     else if jbPageOrdinal e \<noteq> 0 \<and> (\<not> hash64 (jbCurrentTokenHash e) \<or> jbCurrentResumableTokenMaterial e = None \<or>
       jbCurrentContinuationBindingHash e = None) then Inl (TypeError ''continuation-state-invalid'')
     else bindR (tokenMatches X (jbCurrentResumableTokenMaterial e) (Some (jbCurrentTokenHash e))) (\<lambda>_.
     bindR (tokenMatches X (jbNextResumableTokenMaterial e) (jbNextTokenHash e)) (\<lambda>_.
     if (case jbTerminalState e of
           None \<Rightarrow> jbTerminalReasonCode e \<noteq> None \<or> \<not> jbIncomplete e
         | Some _ \<Rightarrow> jbTerminalReasonCode e = None \<or> jbIncomplete e)
     then Inl (TypeError ''journal-terminal-state-invalid'')
     else assertR (ascending (jbCausalParentFactIds e)) (TypeError ''not-sorted-unique''))))))))))))))"

definition ARTIFACT_REQUIRED :: "JournalCheckpointKind list" where
  "ARTIFACT_REQUIRED = [CkArtifactCommitted, CkArtifactVerified, CkPageCheckpointed, CkChainComplete,
     CkNormalizationStarted, CkNormalizationComplete, CkSelectionStarted, CkCompleted]"

fun NONTERMINAL_TRANSITIONS :: "JournalCheckpointKind \<Rightarrow> JournalCheckpointKind list" where
  "NONTERMINAL_TRANSITIONS CkAcquisitionDeclared = [CkRequestStarted, CkStopped, CkFailedClean, CkQuarantined]"
| "NONTERMINAL_TRANSITIONS CkRequestStarted = [CkAttemptStarted, CkStopped, CkFailedClean, CkQuarantined]"
| "NONTERMINAL_TRANSITIONS CkAttemptStarted = [CkAttemptStarted, CkRequestSucceeded, CkStopped, CkFailedClean, CkQuarantined]"
| "NONTERMINAL_TRANSITIONS CkRequestSucceeded = [CkAttemptStarted, CkArtifactCommitted, CkStopped, CkFailedClean, CkQuarantined]"
| "NONTERMINAL_TRANSITIONS CkArtifactCommitted = [CkArtifactVerified, CkStopped, CkFailedClean, CkQuarantined]"
| "NONTERMINAL_TRANSITIONS CkArtifactVerified = [CkPageCheckpointed, CkStopped, CkFailedClean, CkQuarantined]"
| "NONTERMINAL_TRANSITIONS CkPageCheckpointed = [CkAttemptStarted, CkChainComplete, CkStopped, CkFailedClean]"
| "NONTERMINAL_TRANSITIONS CkChainComplete = [CkNormalizationStarted, CkStopped, CkFailedClean, CkQuarantined]"
| "NONTERMINAL_TRANSITIONS CkNormalizationStarted = [CkNormalizationComplete, CkStopped, CkFailedClean, CkQuarantined]"
| "NONTERMINAL_TRANSITIONS CkNormalizationComplete = [CkSelectionStarted, CkStopped, CkFailedClean, CkQuarantined]"
| "NONTERMINAL_TRANSITIONS CkSelectionStarted = [CkCompleted, CkStopped, CkFailedClean, CkQuarantined]"
| "NONTERMINAL_TRANSITIONS CkCompleted = []"
| "NONTERMINAL_TRANSITIONS CkStopped = []"
| "NONTERMINAL_TRANSITIONS CkFailedClean = []"
| "NONTERMINAL_TRANSITIONS CkQuarantined = []"

definition artifactValues :: "JournalEntry \<Rightarrow> json option list" where
  "artifactValues e =
     [map_option JStr (jbArtifactObservationId e), map_option JStr (jbArtifactDigest e), map_option jint (jbArtifactSizeBytes e),
      map_option JStr (jbArtifactObservationHash e), map_option JStr (jbArtifactContentId e), map_option JStr (jbRawArtifactId e)]"

definition artifactTuple :: "JournalEntry \<Rightarrow> json list option result" where
  "artifactTuple e =
     (let values = artifactValues e; present = (\<lambda>v. v \<noteq> None) in
      if list_ex present values \<and> \<not> list_all present values then Inl (TypeError ''journal-artifact-tuple-partial'')
      else Inr (if list_all present values then Some (map the values) else None))"

definition pinnedArtifactTuple :: "JournalEntry \<Rightarrow> json list option result" where
  "pinnedArtifactTuple e =
     bindR (artifactTuple e) (\<lambda>tuple. Inr (map_option (\<lambda>t.
       [JStr (jbAcquisitionObservationId e), JStr (jbMarketAcquisitionId e), JStr (jbRequestIdentityHash e),
        JStr (jbProviderId e), JStr (jbAttemptId e), JStr (jbRetrievalAttemptId e), jint (jbAttemptOrdinal e)] @ t) tuple))"

definition samePin :: "JournalEntry \<Rightarrow> JournalEntry \<Rightarrow> unit result" where
  "samePin previous e =
     bindR (pinnedArtifactTuple previous) (\<lambda>a. bindR (pinnedArtifactTuple e) (\<lambda>b.
     case (a, b) of
       (Some p, Some q) \<Rightarrow>
         bindR (canonicalJson (JArr p)) (\<lambda>s. bindR (canonicalJson (JArr q)) (\<lambda>t.
         assertR (s = t) (TypeError ''journal-artifact-tuple-conflict'')))
     | _ \<Rightarrow> Inr ()))"

definition tokenFieldsValid :: "JournalEntry \<Rightarrow> unit result" where
  "tokenFieldsValid e =
     (if jeCheckpointKind e \<in> {CkAcquisitionDeclared, CkRequestStarted, CkAttemptStarted, CkRequestSucceeded, CkArtifactCommitted, CkArtifactVerified}
      then assertR (jbNextTokenHash e = None \<and> jbNextResumableTokenMaterial e = None \<and> jbNextContinuationBindingHash e = None)
        (TypeError ''journal-next-token-premature'')
      else assertR (\<not> (jeCheckpointKind e = CkPageCheckpointed \<and> (jbNextTokenHash e = None \<or>
          (jbNextTokenHash e = Some TERMINAL_TOKEN_HASH) \<noteq>
          (jbNextResumableTokenMaterial e = None \<and> jbNextContinuationBindingHash e = None))))
        (TypeError ''journal-next-token-fields-invalid''))"

definition validateCheckpointTransition :: "JournalEntry option \<Rightarrow> JournalEntry \<Rightarrow> unit result" where
  "validateCheckpointTransition previous e =
     bindR (artifactTuple e) (\<lambda>tuple.
     if jeCheckpointKind e \<in> set ARTIFACT_REQUIRED \<and> tuple = None then Inl (TypeError ''journal-artifact-tuple-required'')
     else if jeCheckpointKind e \<in> {CkAcquisitionDeclared, CkRequestStarted, CkAttemptStarted, CkRequestSucceeded} \<and> tuple \<noteq> None
     then Inl (TypeError ''journal-artifact-tuple-premature'')
     else
       (case previous of
          None \<Rightarrow> assertR (jeCheckpointKind e = CkAcquisitionDeclared \<and> jbPageOrdinal e = 0) (TypeError ''journal-initial-checkpoint-invalid'')
        | Some p \<Rightarrow>
            let advancesPage = (jeCheckpointKind p = CkPageCheckpointed \<and> jeCheckpointKind e = CkAttemptStarted) in
            if jeCheckpointKind e \<notin> set (NONTERMINAL_TRANSITIONS (jeCheckpointKind p))
            then Inl (TypeError ''journal-checkpoint-transition-invalid'')
            else if jbPageOrdinal e \<noteq> jbPageOrdinal p + (if advancesPage then 1 else 0) then Inl (TypeError ''journal-page-transition-invalid'')
            else if advancesPage \<and> (jbNextTokenHash p = None \<or> jbNextTokenHash p = Some TERMINAL_TOKEN_HASH \<or>
               jbNextContinuationBindingHash p = None \<or> Some (jbCurrentTokenHash e) \<noteq> jbNextTokenHash p \<or>
               jbCurrentContinuationBindingHash e \<noteq> jbNextContinuationBindingHash p)
            then Inl (TypeError ''journal-continuation-transition-invalid'')
            else if jeCheckpointKind e = CkChainComplete \<and>
               (jeCheckpointKind p \<noteq> CkPageCheckpointed \<or> jbNextTokenHash p \<noteq> Some TERMINAL_TOKEN_HASH)
            then Inl (TypeError ''journal-chain-completion-invalid'')
            else bindR (if jbPageOrdinal p = jbPageOrdinal e then samePin p e else Inr ()) (\<lambda>_. tokenFieldsValid e)))"

record JournalScan =
  scanPrevious :: "JournalEntry option"
  terminalSeen :: bool
  previousPages :: int
  previousBytes :: int
  previousRecords :: int
  previousFacts :: int
  previousAttempts :: int
  consumedContinuationTokens :: "jsstring list"

definition initialJournalScan :: JournalScan where
  "initialJournalScan = \<lparr>scanPrevious = None, terminalSeen = False, previousPages = 0, previousBytes = 0, previousRecords = 0,
     previousFacts = 0, previousAttempts = 0, consumedContinuationTokens = []\<rparr>"

definition continuationAttempt :: "JournalEntry \<Rightarrow> bool" where
  "continuationAttempt e \<longleftrightarrow> 0 < jbPageOrdinal e \<and> jeCheckpointKind e = CkAttemptStarted"

definition scanJournalEntry ::
  "externals \<Rightarrow> JournalIdentityInput \<Rightarrow> jsstring \<Rightarrow> JournalEntry \<Rightarrow> JournalScan \<Rightarrow> JournalScan result" where
  "scanJournalEntry X identity journalId e s =
     bindR (canonicalJson (entry_json e)) (\<lambda>_.
     if jeMarketAcquisitionJournalId e \<noteq> journalId \<or> jbRequestIdentityHash e \<noteq> jiRequestIdentityHash identity \<or>
        jbProviderId e \<noteq> jiProviderId identity \<or> jbDatasetId e \<noteq> jiDatasetId identity \<or>
        jbFeedId e \<noteq> jiFeedId identity \<or> jbEndpointChannelId e \<noteq> jiEndpointChannelId identity
     then Inl (TypeError ''journal-identity-mismatch'')
     else if journalSequence e \<noteq> (case scanPrevious s of None \<Rightarrow> - 1 | Some p \<Rightarrow> journalSequence p) + 1 \<or>
        priorJournalEntryHash e \<noteq> (case scanPrevious s of None \<Rightarrow> GENESIS_HASH | Some p \<Rightarrow> journalEntryHash p)
     then Inl (TypeError ''journal-hash-chain-invalid'')
     else bindR (deriveJournalEntryHash X e) (\<lambda>h.
     if journalEntryHash e \<noteq> h then Inl (TypeError ''journal-hash-chain-invalid'')
     else if jbCumulativeSuccessfulPages e < previousPages s \<or> jbCumulativeVerifiedBytes e < previousBytes s \<or>
        jbCumulativeRecords e < previousRecords s \<or> jbCumulativeNormalizedFacts e < previousFacts s \<or>
        jbCumulativeAttempts e < previousAttempts s
     then Inl (TypeError ''journal-counter-regression'')
     else if terminalSeen s then Inl (TypeError ''journal-after-terminal'')
     else bindR (validateCheckpointSemantics X e) (\<lambda>_.
     if continuationAttempt e \<and> jbCurrentTokenHash e \<in> set (consumedContinuationTokens s)
     then Inl (TypeError ''journal-continuation-token-loop'')
     else bindR (validateCheckpointTransition (scanPrevious s) e) (\<lambda>_.
     Inr \<lparr>scanPrevious = Some e, terminalSeen = (jbTerminalState e \<noteq> None),
       previousPages = jbCumulativeSuccessfulPages e, previousBytes = jbCumulativeVerifiedBytes e,
       previousRecords = jbCumulativeRecords e, previousFacts = jbCumulativeNormalizedFacts e,
       previousAttempts = jbCumulativeAttempts e,
       consumedContinuationTokens =
         (if continuationAttempt e then jbCurrentTokenHash e # consumedContinuationTokens s else consumedContinuationTokens s)\<rparr>))))"

definition validateJournalEntries :: "externals \<Rightarrow> JournalIdentityInput \<Rightarrow> JournalEntry list \<Rightarrow> unit result" where
  "validateJournalEntries X identity entries =
     (if entries = [] then Inl (TypeError ''journal-empty'')
      else bindR (deriveMarketAcquisitionJournalId X identity) (\<lambda>journalId.
      bindR (foldR (scanJournalEntry X identity journalId) entries initialJournalScan) (\<lambda>_. Inr ())))"


section \<open>The memory journal\<close>

record MemoryAcquisitionJournal =
  expectedIdentity :: JournalIdentityInput
  journalId :: jsstring
  entries :: "JournalEntry list"
  producedJournalEntries :: "jsstring set"

definition newMemoryAcquisitionJournal :: "externals \<Rightarrow> JournalIdentityInput \<Rightarrow> MemoryAcquisitionJournal result" where
  "newMemoryAcquisitionJournal X identity =
     bindR (deriveMarketAcquisitionJournalId X identity) (\<lambda>i.
     Inr \<lparr>expectedIdentity = identity, journalId = i, entries = [], producedJournalEntries = {}\<rparr>)"

text \<open>
  A clone through canonical JSON has the same fields, so \<open>cloneEntry\<close> is the identity on entries
  whose rendering is valid and throws on the others.
\<close>

definition cloneEntry :: "JournalEntry \<Rightarrow> JournalEntry result" where
  "cloneEntry e = bindR (canonicalJson (entry_json e)) (\<lambda>_. Inr e)"

definition loadJournal :: "externals \<Rightarrow> jsstring \<Rightarrow> MemoryAcquisitionJournal \<Rightarrow> JournalEntry list result" where
  "loadJournal X requestedId J =
     (if requestedId \<noteq> journalId J then Inl (TypeError ''journal-identity-mismatch'')
      else bindR (if entries J \<noteq> [] then validateJournalEntries X (expectedIdentity J) (entries J) else Inr ()) (\<lambda>_.
      mapR cloneEntry (entries J)))"

definition appendJournal ::
  "externals \<Rightarrow> bool \<Rightarrow> JournalEntry \<Rightarrow> MemoryAcquisitionJournal \<Rightarrow> MemoryAcquisitionJournal \<times> unit result" where
  "appendJournal X workflowAuthority e J =
     (case bindR (assertR workflowAuthority (TypeError ''owned-acquisition-workflow-producer-required'')) (\<lambda>_.
       if jeMarketAcquisitionJournalId e \<noteq> journalId J then Inl (TypeError ''journal-identity-mismatch'')
       else bindR (cloneEntry e) (\<lambda>c.
       bindR (validateJournalEntries X (expectedIdentity J) (entries J @ [c])) (\<lambda>_. Inr c)))
      of Inl err \<Rightarrow> (J, Inl err)
       | Inr c \<Rightarrow> (J\<lparr>entries := entries J @ [c], producedJournalEntries := insert (journalEntryHash e) (producedJournalEntries J)\<rparr>, Inr ()))"

definition claimAttemptStarted ::
  "externals \<Rightarrow> bool \<Rightarrow> jsstring \<Rightarrow> JournalEntry \<Rightarrow> MemoryAcquisitionJournal \<Rightarrow> MemoryAcquisitionJournal \<times> bool result" where
  "claimAttemptStarted X testAuthority expectedRequestStartedHash e J =
     (if \<not> testAuthority then (J, Inl (TypeError ''owned-attempt-claim-required''))
      else if entries J = [] \<or> jeCheckpointKind (last (entries J)) \<noteq> CkRequestStarted \<or>
        journalEntryHash (last (entries J)) \<noteq> expectedRequestStartedHash \<or> jeCheckpointKind e \<noteq> CkAttemptStarted
      then (J, Inr False)
      else
        (case bindR (cloneEntry e) (\<lambda>c. bindR (validateJournalEntries X (expectedIdentity J) (entries J @ [c])) (\<lambda>_. Inr c)) of
           Inl err \<Rightarrow> (J, Inl err)
         | Inr c \<Rightarrow> (J\<lparr>entries := entries J @ [c]\<rparr>, Inr True)))"

text \<open>The sole writer appends its entries in order and stops at the first refusal.\<close>

fun persistEntries ::
  "externals \<Rightarrow> JournalEntry list \<Rightarrow> MemoryAcquisitionJournal \<Rightarrow> MemoryAcquisitionJournal \<times> unit result" where
  "persistEntries X [] J = (J, Inr ())"
| "persistEntries X (e # es) J =
     (case appendJournal X True e J of (J', Inl err) \<Rightarrow> (J', Inl err) | (J', Inr _) \<Rightarrow> persistEntries X es J')"

end
