(* ===== verification/JournalLaws.thy ===== *)
theory JournalLaws
  imports Journal
begin

text \<open>
  What the acquisition journal guarantees. \<open>journal_valid\<close> is a declarative description of a
  journal: its entries are intact one by one, the first opens it, each next one follows its
  predecessor, and no continuation token is started twice. The single pass of
  \<open>validateJournalEntries\<close> accepts exactly these journals. From this: the journal only grows,
  every prefix of a valid journal is valid, nothing follows a terminal entry, and two valid
  journals that end in the same hash are equal unless SHA-256 collides on one of their entries.
\<close>

section \<open>Declarative validity\<close>

definition intact :: "externals \<Rightarrow> JournalIdentityInput \<Rightarrow> jsstring \<Rightarrow> JournalEntry \<Rightarrow> bool" where
  "intact X identity i e \<longleftrightarrow>
     valid_json (entry_json e) \<and> jeMarketAcquisitionJournalId e = i \<and>
     jbRequestIdentityHash e = jiRequestIdentityHash identity \<and> jbProviderId e = jiProviderId identity \<and>
     jbDatasetId e = jiDatasetId identity \<and> jbFeedId e = jiFeedId identity \<and>
     jbEndpointChannelId e = jiEndpointChannelId identity \<and>
     deriveJournalEntryHash X e = Inr (journalEntryHash e) \<and> validateCheckpointSemantics X e = Inr ()"

definition opens :: "JournalEntry \<Rightarrow> bool" where
  "opens e \<longleftrightarrow> journalSequence e = 0 \<and> priorJournalEntryHash e = GENESIS_HASH \<and> validateCheckpointTransition None e = Inr ()"

definition countersGrow :: "JournalEntry \<Rightarrow> JournalEntry \<Rightarrow> bool" where
  "countersGrow p e \<longleftrightarrow>
     jbCumulativeSuccessfulPages p \<le> jbCumulativeSuccessfulPages e \<and> jbCumulativeVerifiedBytes p \<le> jbCumulativeVerifiedBytes e \<and>
     jbCumulativeRecords p \<le> jbCumulativeRecords e \<and> jbCumulativeNormalizedFacts p \<le> jbCumulativeNormalizedFacts e \<and>
     jbCumulativeAttempts p \<le> jbCumulativeAttempts e"

definition succeeds :: "JournalEntry \<Rightarrow> JournalEntry \<Rightarrow> bool" where
  "succeeds p e \<longleftrightarrow>
     journalSequence e = journalSequence p + 1 \<and> priorJournalEntryHash e = journalEntryHash p \<and> countersGrow p e \<and>
     jbTerminalState p = None \<and> validateCheckpointTransition (Some p) e = Inr ()"

definition startedTokens :: "JournalEntry list \<Rightarrow> jsstring list" where
  "startedTokens es = map jbCurrentTokenHash (filter continuationAttempt es)"

definition journal_valid :: "externals \<Rightarrow> JournalIdentityInput \<Rightarrow> jsstring \<Rightarrow> JournalEntry list \<Rightarrow> bool" where
  "journal_valid X identity i es \<longleftrightarrow>
     (\<forall>e\<in>set es. intact X identity i e) \<and> (es \<noteq> [] \<longrightarrow> opens (hd es)) \<and> successively succeeds es \<and> distinct (startedTokens es)"

definition scanAfter :: "JournalEntry list \<Rightarrow> JournalScan" where
  "scanAfter es =
     (if es = [] then initialJournalScan
      else let e = last es in
        \<lparr>scanPrevious = Some e, terminalSeen = (jbTerminalState e \<noteq> None),
         previousPages = jbCumulativeSuccessfulPages e, previousBytes = jbCumulativeVerifiedBytes e,
         previousRecords = jbCumulativeRecords e, previousFacts = jbCumulativeNormalizedFacts e,
         previousAttempts = jbCumulativeAttempts e, consumedContinuationTokens = rev (startedTokens es)\<rparr>)"

lemma semantics_counts:
  assumes "validateCheckpointSemantics X e = Inr ()"
  shows "0 \<le> jbCumulativeSuccessfulPages e" "0 \<le> jbCumulativeVerifiedBytes e" "0 \<le> jbCumulativeRecords e"
    "0 \<le> jbCumulativeNormalizedFacts e" "0 \<le> jbCumulativeAttempts e" "0 \<le> jbPageOrdinal e"
    "jbCumulativeSuccessfulPages e \<le> 16" "jbCumulativeAttempts e \<le> 48" "jbPageOrdinal e \<le> 15"
  using assms unfolding validateCheckpointSemantics_def Let_def
  by (elim bindRE; simp add: MARKET_ACQUISITION_LIMITS_def)+

lemma startedTokens_Nil [simp]: "startedTokens [] = []"
  by (simp add: startedTokens_def)

lemma scanAfter_Nil [simp]: "scanAfter [] = initialJournalScan"
  by (simp add: scanAfter_def)

lemma initialJournalScan_fields [simp]:
  "scanPrevious initialJournalScan = None" "terminalSeen initialJournalScan = False"
  "previousPages initialJournalScan = 0" "previousBytes initialJournalScan = 0" "previousRecords initialJournalScan = 0"
  "previousFacts initialJournalScan = 0" "previousAttempts initialJournalScan = 0" "consumedContinuationTokens initialJournalScan = []"
  by (simp_all add: initialJournalScan_def)

lemma startedTokens_snoc:
  "startedTokens (es @ [e]) = startedTokens es @ (if continuationAttempt e then [jbCurrentTokenHash e] else [])"
  by (simp add: startedTokens_def)

lemma journal_valid_snoc:
  "journal_valid X identity i (es @ [e]) \<longleftrightarrow>
     journal_valid X identity i es \<and> intact X identity i e \<and> (if es = [] then opens e else succeeds (last es) e) \<and>
     \<not> (continuationAttempt e \<and> jbCurrentTokenHash e \<in> set (startedTokens es))"
  by (cases "es = []") (auto simp: journal_valid_def successively_append_iff startedTokens_snoc startedTokens_snoc [of "[]", simplified])

lemma scanAfter_snoc:
  "scanAfter (es @ [e]) =
     \<lparr>scanPrevious = Some e, terminalSeen = (jbTerminalState e \<noteq> None),
      previousPages = jbCumulativeSuccessfulPages e, previousBytes = jbCumulativeVerifiedBytes e,
      previousRecords = jbCumulativeRecords e, previousFacts = jbCumulativeNormalizedFacts e,
      previousAttempts = jbCumulativeAttempts e,
      consumedContinuationTokens =
        (if continuationAttempt e then jbCurrentTokenHash e # consumedContinuationTokens (scanAfter es)
         else consumedContinuationTokens (scanAfter es))\<rparr>"
  by (auto simp: scanAfter_def Let_def startedTokens_def initialJournalScan_def)

lemma scan_step:
  "scanJournalEntry X identity i e (scanAfter es) = Inr s \<longleftrightarrow>
     intact X identity i e \<and> (if es = [] then opens e else succeeds (last es) e) \<and>
     \<not> (continuationAttempt e \<and> jbCurrentTokenHash e \<in> set (startedTokens es)) \<and> s = scanAfter (es @ [e])"
proof (cases "es = []")
  case True
  show ?thesis
    using semantics_counts [of X e]
    by (auto simp: True scanJournalEntry_def bindR_eq_Inr bindR_if scanAfter_snoc [of "[]", simplified] intact_def opens_def)
next
  case False
  have tok: "set (consumedContinuationTokens (scanAfter es)) = set (startedTokens es)"
    by (simp add: scanAfter_def Let_def False)
  have "scanPrevious (scanAfter es) = Some (last es)" "terminalSeen (scanAfter es) = (jbTerminalState (last es) \<noteq> None)"
    "previousPages (scanAfter es) = jbCumulativeSuccessfulPages (last es)"
    "previousBytes (scanAfter es) = jbCumulativeVerifiedBytes (last es)"
    "previousRecords (scanAfter es) = jbCumulativeRecords (last es)"
    "previousFacts (scanAfter es) = jbCumulativeNormalizedFacts (last es)"
    "previousAttempts (scanAfter es) = jbCumulativeAttempts (last es)"
    by (simp_all add: scanAfter_def Let_def False)
  then show ?thesis
    by (auto simp: False scanJournalEntry_def bindR_eq_Inr bindR_if scanAfter_snoc intact_def succeeds_def countersGrow_def tok)
qed

lemma scan_entries:
  "foldR (scanJournalEntry X identity i) es initialJournalScan = Inr s \<longleftrightarrow> journal_valid X identity i es \<and> s = scanAfter es"
proof (induction es arbitrary: s rule: rev_induct)
  case Nil
  then show ?case by (auto simp: journal_valid_def)
next
  case (snoc e es)
  show ?case
    by (auto simp: foldR_append bindR_eq_Inr snoc.IH scan_step journal_valid_snoc)
qed

lemma validateJournalEntries_Inr:
  "validateJournalEntries X identity es = Inr u \<longleftrightarrow>
     es \<noteq> [] \<and> (\<exists>i. deriveMarketAcquisitionJournalId X identity = Inr i \<and> journal_valid X identity i es)"
  by (auto simp: validateJournalEntries_def bindR_eq_Inr bindR_if scan_entries)


section \<open>Consequences\<close>

lemma journal_valid_prefix: "journal_valid X identity i (es @ fs) \<Longrightarrow> journal_valid X identity i es"
proof (induction fs rule: rev_induct)
  case (snoc f fs)
  then show ?case using journal_valid_snoc [of X identity i "es @ fs" f] by simp
qed simp

lemma transition_Some:
  assumes "validateCheckpointTransition (Some p) e = Inr ()"
  shows "jeCheckpointKind e \<in> set (NONTERMINAL_TRANSITIONS (jeCheckpointKind p))"
    and "jbPageOrdinal e = jbPageOrdinal p + (if jeCheckpointKind p = CkPageCheckpointed \<and> jeCheckpointKind e = CkAttemptStarted then 1 else 0)"
  using assms unfolding validateCheckpointTransition_def
  by (auto simp: bindR_eq_Inr bindR_if Let_def)

lemma transition_None: "validateCheckpointTransition None e = Inr () \<Longrightarrow> jeCheckpointKind e = CkAcquisitionDeclared \<and> jbPageOrdinal e = 0"
  unfolding validateCheckpointTransition_def by (auto simp: bindR_eq_Inr bindR_if)

lemma declared_unreachable [simp]: "CkAcquisitionDeclared \<notin> set (NONTERMINAL_TRANSITIONS k)"
  by (cases k) simp_all

lemma journal_valid_nth:
  assumes "journal_valid X identity i es" "Suc n < length es"
  shows "succeeds (es ! n) (es ! Suc n)"
  using assms by (simp add: journal_valid_def successively_conv_nth)

lemma journal_valid_at:
  assumes "journal_valid X identity i es" "n < length es"
  shows "journalSequence (es ! n) = int n"
    and "priorJournalEntryHash (es ! n) = (if n = 0 then GENESIS_HASH else journalEntryHash (es ! (n - 1)))"
    and "jeCheckpointKind (es ! n) = CkAcquisitionDeclared \<longleftrightarrow> n = 0"
    and "Suc n < length es \<Longrightarrow> jbTerminalState (es ! n) = None"
proof -
  have "opens (es ! 0)" using assms by (auto simp: journal_valid_def hd_conv_nth)
  then have z: "journalSequence (es ! 0) = 0" "priorJournalEntryHash (es ! 0) = GENESIS_HASH" "jeCheckpointKind (es ! 0) = CkAcquisitionDeclared"
    using transition_None by (auto simp: opens_def)
  have step: "succeeds (es ! m) (es ! Suc m)" if "Suc m < length es" for m
    by (rule journal_valid_nth [OF assms(1) that])
  show "journalSequence (es ! n) = int n"
    using assms(2)
  proof (induction n)
    case (Suc n)
    then show ?case using step [of n] by (simp add: succeeds_def)
  qed (simp add: z)
  show "priorJournalEntryHash (es ! n) = (if n = 0 then GENESIS_HASH else journalEntryHash (es ! (n - 1)))"
    using z assms(2) step by (cases n) (simp_all add: succeeds_def)
  show "jeCheckpointKind (es ! n) = CkAcquisitionDeclared \<longleftrightarrow> n = 0"
  proof (cases n)
    case (Suc m)
    then have "validateCheckpointTransition (Some (es ! m)) (es ! n) = Inr ()"
      using step [of m] assms(2) by (simp add: succeeds_def)
    from transition_Some(1) [OF this] have "jeCheckpointKind (es ! n) \<noteq> CkAcquisitionDeclared" by force
    then show ?thesis by (simp add: Suc)
  qed (simp add: z)
  show "Suc n < length es \<Longrightarrow> jbTerminalState (es ! n) = None"
    using step by (simp add: succeeds_def)
qed

lemma chained_mono:
  assumes "journal_valid X identity i es" "n \<le> m" "m < length es"
  shows "countersGrow (es ! n) (es ! m)"
  using assms(2,3)
proof (induction m)
  case 0
  then show ?case by (simp add: countersGrow_def)
next
  case (Suc m)
  have "countersGrow (es ! m) (es ! Suc m)"
    using journal_valid_nth [OF assms(1) Suc.prems(2)] by (simp add: succeeds_def)
  then show ?case using Suc by (cases "n = Suc m") (force simp: countersGrow_def)+
qed

text \<open>Every operation of the memory journal leaves the entries it had in place.\<close>

definition wf_journal :: "externals \<Rightarrow> MemoryAcquisitionJournal \<Rightarrow> bool" where
  "wf_journal X J \<longleftrightarrow>
     deriveMarketAcquisitionJournalId X (expectedIdentity J) = Inr (journalId J) \<and>
     journal_valid X (expectedIdentity J) (journalId J) (entries J)"

lemma wf_journal_valid: "wf_journal X J \<Longrightarrow> journal_valid X (expectedIdentity J) (journalId J) (entries J)"
  by (simp add: wf_journal_def)

lemma wf_newMemoryAcquisitionJournal: "newMemoryAcquisitionJournal X identity = Inr J \<Longrightarrow> wf_journal X J"
  by (auto simp: newMemoryAcquisitionJournal_def bindR_eq_Inr wf_journal_def journal_valid_def)

lemma cloneEntry_Inr: "cloneEntry e = Inr c \<longleftrightarrow> valid_json (entry_json e) \<and> c = e"
  by (auto simp: cloneEntry_def bindR_eq_Inr)

lemma append_checked:
  assumes "wf_journal X J"
  shows "bindR (cloneEntry e) (\<lambda>c. bindR (validateJournalEntries X (expectedIdentity J) (entries J @ [c])) (\<lambda>_. Inr c)) = Inr d \<longleftrightarrow>
     d = e \<and> journal_valid X (expectedIdentity J) (journalId J) (entries J @ [e])"
  using assms by (auto simp: bindR_eq_Inr cloneEntry_Inr validateJournalEntries_Inr wf_journal_def journal_valid_snoc intact_def)

lemma appendJournal_cases:
  assumes "wf_journal X J"
  shows "appendJournal X authority e J = (J', Inr ()) \<longleftrightarrow>
      authority \<and> journal_valid X (expectedIdentity J) (journalId J) (entries J @ [e]) \<and>
      J' = J\<lparr>entries := entries J @ [e], producedJournalEntries := insert (journalEntryHash e) (producedJournalEntries J)\<rparr>"
    and "appendJournal X authority e J = (J', Inl err) \<Longrightarrow> J' = J"
proof -
  define m where "m = bindR (cloneEntry e) (\<lambda>c. bindR (validateJournalEntries X (expectedIdentity J) (entries J @ [c])) (\<lambda>_. Inr c))"
  consider "m = Inr e" "journal_valid X (expectedIdentity J) (journalId J) (entries J @ [e])"
    | err where "m = Inl err" "\<not> journal_valid X (expectedIdentity J) (journalId J) (entries J @ [e])"
    using append_checked [OF assms, of e, folded m_def] by (cases m) auto
  note m = this
  have i: "journal_valid X (expectedIdentity J) (journalId J) (entries J @ [e]) \<Longrightarrow> jeMarketAcquisitionJournalId e = journalId J"
    by (simp add: journal_valid_snoc intact_def)
  show "appendJournal X authority e J = (J', Inr ()) \<longleftrightarrow>
      authority \<and> journal_valid X (expectedIdentity J) (journalId J) (entries J @ [e]) \<and>
      J' = J\<lparr>entries := entries J @ [e], producedJournalEntries := insert (journalEntryHash e) (producedJournalEntries J)\<rparr>"
    unfolding appendJournal_def m_def [symmetric]
    using i by (cases rule: m) (auto simp: assertR_def)
  show "appendJournal X authority e J = (J', Inl err) \<Longrightarrow> J' = J"
    by (auto simp: appendJournal_def split: sum.splits)
qed

lemma wf_append_entry:
  "wf_journal X J \<Longrightarrow> journal_valid X (expectedIdentity J) (journalId J) (entries J @ [e]) \<Longrightarrow>
     wf_journal X (J\<lparr>entries := entries J @ [e], producedJournalEntries := P\<rparr>)"
  by (simp add: wf_journal_def)

lemma wf_appendJournal: "wf_journal X J \<Longrightarrow> wf_journal X (fst (appendJournal X authority e J))"
proof (cases "appendJournal X authority e J")
  case (Pair J' r)
  assume wf: "wf_journal X J"
  show ?thesis
  proof (cases r)
    case (Inl err)
    then have "J' = J" using appendJournal_cases(2) [OF wf] Pair by blast
    then show ?thesis using Pair wf by simp
  next
    case (Inr u)
    then show ?thesis using appendJournal_cases(1) [OF wf, of authority e J'] Pair wf wf_append_entry by simp
  qed
qed

lemma claimAttemptStarted_cases:
  assumes "wf_journal X J"
  shows "claimAttemptStarted X authority h e J = (J', Inr True) \<longleftrightarrow>
      authority \<and> entries J \<noteq> [] \<and> jeCheckpointKind (last (entries J)) = CkRequestStarted \<and>
      journalEntryHash (last (entries J)) = h \<and> jeCheckpointKind e = CkAttemptStarted \<and>
      journal_valid X (expectedIdentity J) (journalId J) (entries J @ [e]) \<and> J' = J\<lparr>entries := entries J @ [e]\<rparr>"
    and "claimAttemptStarted X authority h e J = (J', r) \<Longrightarrow> r \<noteq> Inr True \<Longrightarrow> J' = J"
proof -
  define m where "m = bindR (cloneEntry e) (\<lambda>c. bindR (validateJournalEntries X (expectedIdentity J) (entries J @ [c])) (\<lambda>_. Inr c))"
  consider "m = Inr e" "journal_valid X (expectedIdentity J) (journalId J) (entries J @ [e])"
    | err where "m = Inl err" "\<not> journal_valid X (expectedIdentity J) (journalId J) (entries J @ [e])"
    using append_checked [OF assms, of e, folded m_def] by (cases m) auto
  note m = this
  show "claimAttemptStarted X authority h e J = (J', Inr True) \<longleftrightarrow>
      authority \<and> entries J \<noteq> [] \<and> jeCheckpointKind (last (entries J)) = CkRequestStarted \<and>
      journalEntryHash (last (entries J)) = h \<and> jeCheckpointKind e = CkAttemptStarted \<and>
      journal_valid X (expectedIdentity J) (journalId J) (entries J @ [e]) \<and> J' = J\<lparr>entries := entries J @ [e]\<rparr>"
    unfolding claimAttemptStarted_def m_def [symmetric]
    by (cases rule: m) auto
  show "claimAttemptStarted X authority h e J = (J', r) \<Longrightarrow> r \<noteq> Inr True \<Longrightarrow> J' = J"
    by (auto simp: claimAttemptStarted_def split: sum.splits if_splits)
qed

lemma persistEntries_valid:
  assumes "wf_journal X J" "persistEntries X es J = (J', Inr ())"
  shows "wf_journal X J' \<and> entries J' = entries J @ es"
  using assms
proof (induction es arbitrary: J)
  case (Cons e es)
  from Cons.prems(2) obtain K where K: "appendJournal X True e J = (K, Inr ())" "persistEntries X es K = (J', Inr ())"
    by (auto split: prod.splits sum.splits)
  from K(1) have "entries K = entries J @ [e]" "wf_journal X K"
    using appendJournal_cases(1) [OF Cons.prems(1), of True e K] wf_append_entry [OF Cons.prems(1)] by auto
  with Cons.IH [OF _ K(2)] show ?case by simp
qed simp


section \<open>Tamper evidence\<close>

lemma assoc_eqI:
  assumes "map fst xs = map fst ys" "distinct (map fst xs)" "map_of xs = map_of ys"
  shows "xs = ys"
proof -
  have "map snd xs = map snd ys"
  proof (rule map_of_zip_inject)
    show "length (map snd xs) = length (map fst xs)" by simp
    show "length (map snd ys) = length (map fst xs)" using arg_cong [OF assms(1), of length] by simp
    show "distinct (map fst xs)" by (fact assms(2))
    show "map_of (zip (map fst xs) (map snd xs)) = map_of (zip (map fst xs) (map snd ys))"
      using assms(3) by (subst (2) assms(1)) (simp add: zip_map_fst_snd)
  qed
  with assms(1) show ?thesis by (metis zip_map_fst_snd)
qed

lemma norm_obj_eqD:
  assumes "norm (JObj xs) = norm (JObj ys)" "map fst xs = map fst ys" "distinct (map fst xs)"
  shows "map (apsnd norm) xs = map (apsnd norm) ys"
proof (rule assoc_eqI)
  have s: "sort_key fst (map (apsnd norm) xs) = sort_key fst (map (apsnd norm) ys)"
    using assms(1) by (simp only: norm_JObj sort_key_apsnd json.inject)
  show "map_of (map (apsnd norm) xs) = map_of (map (apsnd norm) ys)"
    using arg_cong [OF s, of map_of] assms(2,3) by (simp add: map_of_sort_key)
qed (use assms(2,3) in simp_all)

lemma body_names: "map fst (body_fields a) = map fst (body_fields b)" "distinct (map fst (body_fields a))"
  by (simp_all add: body_fields_def field_def)

lemma journal_leaf_norm:
  "norm (jnull JStr x) = jnull JStr x" "norm (jnull jint y) = jnull jint y" "norm (JArr (map JStr ss)) = JArr (map JStr ss)"
  "norm (JArr (map jint ns)) = JArr (map jint ns)" "norm (jint n) = jint n"
  "norm (jnull (\<lambda>t. JStr (js (terminalName t))) z) = jnull (\<lambda>t. JStr (js (terminalName t))) z"
  by (simp_all add: jnull_def jint_def split: option.splits)

lemma terminalName_inj [simp]: "terminalName a = terminalName b \<longleftrightarrow> a = b"
  by (cases a; cases b) simp_all

lemma checkpointName_inj [simp]: "checkpointName a = checkpointName b \<longleftrightarrow> a = b"
  by (cases a; cases b) simp_all

lemma leaf_inj:
  "jnull JStr x = jnull JStr x' \<longleftrightarrow> x = x'" "jnull jint y = jnull jint y' \<longleftrightarrow> y = y'" "jint n = jint n' \<longleftrightarrow> n = n'"
  "map JStr ss = map JStr ss' \<longleftrightarrow> ss = ss'" "map jint ns = map jint ns' \<longleftrightarrow> ns = ns'"
  "jnull (\<lambda>t. JStr (js (terminalName t))) z = jnull (\<lambda>t. JStr (js (terminalName t))) z' \<longleftrightarrow> z = z'"
  by (auto simp: jnull_def jint_def inj_map_eq_map inj_def split: option.splits)

lemma body_fields_inj:
  assumes "norm (JObj (body_fields a)) = norm (JObj (body_fields b))"
  shows "JournalCheckpointBody.truncate a = JournalCheckpointBody.truncate b"
proof -
  have "map (apsnd norm) (body_fields a) = map (apsnd norm) (body_fields b)"
    by (rule norm_obj_eqD [OF assms body_names])
  then show ?thesis
    unfolding body_fields_def field_def append_Cons append_Nil list.map apsnd_conv journal_leaf_norm
    by (simp add: leaf_inj JournalCheckpointBody.defs del: list.map)
qed

definition journalPreimage :: "JournalEntry \<Rightarrow> byte list" where
  "journalPreimage e = canonPreimage (js ''peas/market-acquisition-journal-entry/v1'') (chainFields e (canon (JObj (body_fields e))))"

lemma chainFields_inj:
  assumes "norm (chainFields a s) = norm (chainFields b t)"
  shows "jeMarketAcquisitionJournalId a = jeMarketAcquisitionJournalId b" "journalSequence a = journalSequence b"
    "priorJournalEntryHash a = priorJournalEntryHash b" "jeCheckpointKind a = jeCheckpointKind b" "s = t"
proof -
  let ?f = "\<lambda>e u. field ''marketAcquisitionJournalId'' (JStr (jeMarketAcquisitionJournalId e)) @
     field ''journalSequence'' (jint (journalSequence e)) @ field ''priorJournalEntryHash'' (JStr (priorJournalEntryHash e)) @
     field ''entryKind'' (JStr (js (checkpointName (jeCheckpointKind e)))) @ field ''canonicalEntryBody'' (JStr u)"
  have "map (apsnd norm) (?f a s) = map (apsnd norm) (?f b t)"
    using assms unfolding chainFields_def by (rule norm_obj_eqD) (simp_all add: field_def)
  then show "jeMarketAcquisitionJournalId a = jeMarketAcquisitionJournalId b" "journalSequence a = journalSequence b"
    "priorJournalEntryHash a = priorJournalEntryHash b" "jeCheckpointKind a = jeCheckpointKind b" "s = t"
    by (simp_all add: field_def jint_def)
qed

lemma entry_eqI:
  assumes "JournalCheckpointBody.truncate a = JournalCheckpointBody.truncate b"
    "jeMarketAcquisitionJournalId a = jeMarketAcquisitionJournalId b" "journalSequence a = journalSequence b"
    "priorJournalEntryHash a = priorJournalEntryHash b" "jeCheckpointKind a = jeCheckpointKind b"
    "journalEntryHash a = journalEntryHash (b :: JournalEntry)"
  shows "a = b"
  using assms by (cases a; cases b) (simp add: JournalCheckpointBody.defs)

lemma entry_hash_Inr:
  "deriveJournalEntryHash X e = Inr h \<longleftrightarrow>
     valid_json (JObj (body_fields e)) \<and> valid_json (chainFields e (canon (JObj (body_fields e)))) \<and> h = sha256_hex X (journalPreimage e)"
  by (auto simp: deriveJournalEntryHash_def bindR_eq_Inr digest_def hashParts_def journalPreimage_def canonPreimage_def)

definition hashSized :: "JournalEntry \<Rightarrow> bool" where
  "hashSized e \<longleftrightarrow> small (chainFields e (canon (JObj (body_fields e))))"

lemma entry_inj:
  assumes "intact X identity i a" "intact X identity i b" "journalEntryHash a = journalEntryHash b"
    and "inj_on (sha256_hex X) S" "journalPreimage a \<in> S" "journalPreimage b \<in> S" "hashSized a" "hashSized b"
  shows "a = b"
proof -
  let ?t = "\<lambda>e. canon (JObj (body_fields e))"
  have v: "valid_json (JObj (body_fields a))" "valid_json (chainFields a (?t a))"
    "valid_json (JObj (body_fields b))" "valid_json (chainFields b (?t b))"
    "journalEntryHash a = sha256_hex X (journalPreimage a)" "journalEntryHash b = sha256_hex X (journalPreimage b)"
    using assms(1,2) by (auto simp: intact_def entry_hash_Inr)
  have "journalPreimage a = journalPreimage b"
    using assms(3,5,6) v(5,6) by (intro inj_onD [OF assms(4)]) simp_all
  then have "norm (chainFields a (?t a)) = norm (chainFields b (?t b))"
    using v assms(7,8) canonical_preimage_inj [of "chainFields a (?t a)" "chainFields b (?t b)"
        "js ''peas/market-acquisition-journal-entry/v1''" "js ''peas/market-acquisition-journal-entry/v1''"]
      tag_js [of "''peas/market-acquisition-journal-entry/v1''"]
    by (simp add: journalPreimage_def hashSized_def tag_def)
  note c = chainFields_inj [OF this]
  from c(5) have "norm (JObj (body_fields a)) = norm (JObj (body_fields b))"
    using canon_inj v by blast
  from body_fields_inj [OF this] c assms(3) show ?thesis by (intro entry_eqI) simp_all
qed

text \<open>
  Two valid journals of one identity that end in the same entry hash hold the same entries: the
  sequence number of the last entry fixes the length, and the chain of hashes the rest.
\<close>

lemma journals_unique:
  assumes "journal_valid X identity i es" "journal_valid X identity i fs" "es \<noteq> []" "fs \<noteq> []"
    and "journalEntryHash (last es) = journalEntryHash (last fs)"
    and "inj_on (sha256_hex X) S" "\<forall>e\<in>set es \<union> set fs. journalPreimage e \<in> S \<and> hashSized e"
  shows "es = fs"
  using assms
proof (induction es arbitrary: fs rule: rev_induct)
  case (snoc e es)
  obtain f fs' where fs: "fs = fs' @ [f]" using snoc.prems(4) by (cases fs rule: rev_cases) auto
  note es' = snoc.prems(1) [unfolded journal_valid_snoc] and fs' = snoc.prems(2) [unfolded fs journal_valid_snoc]
  have ef: "e = f"
    using es' fs' snoc.prems(5-7) fs by (intro entry_inj [where S = S and X = X and identity = identity and i = i]) auto
  show ?case
  proof (cases "es = [] \<or> fs' = []")
    case True
    have "journalSequence e = int (length es)" "journalSequence f = int (length fs')"
      using journal_valid_at(1) [OF snoc.prems(1), of "length es"] journal_valid_at(1) [OF snoc.prems(2), of "length fs'"]
      by (simp_all add: fs)
    with ef True fs show ?thesis by auto
  next
    case False
    with es' fs' ef have "journalEntryHash (last es) = journalEntryHash (last fs')" by (simp add: succeeds_def)
    then have "es = fs'" using es' fs' snoc.prems(6,7) fs False by (intro snoc.IH) auto
    with ef fs show ?thesis by simp
  qed
qed simp

end
