(* ===== verification/Growth.thy ===== *)
theory Growth
  imports Main "HOL-Library.Sublist"
begin

text \<open>
  The contract of an append-only store: an operation, whether it succeeds or fails, keeps the store
  well formed and leaves what it already holds in place. Proved once for any sequence of calls; the
  event log, the acquisition journal and every table of the retention journal provide it.
\<close>

locale append_only =
  fixes perform :: "'op \<Rightarrow> 's \<Rightarrow> 's"
    and contents :: "'s \<Rightarrow> 'a list"
    and well :: "'s \<Rightarrow> bool"
  assumes well_perform: "well s \<Longrightarrow> well (perform op s)"
    and grows: "well s \<Longrightarrow> prefix (contents s) (contents (perform op s))"
begin

lemma well_history: "well s \<Longrightarrow> well (fold perform ops s)"
  by (induction ops arbitrary: s) (simp_all add: well_perform)

lemma history_grows: "well s \<Longrightarrow> prefix (contents s) (contents (fold perform ops s))"
proof (induction ops arbitrary: s)
  case (Cons op ops)
  then show ?case using grows [of s op] well_perform [of s op] prefix_order.trans by fastforce
qed simp

lemma entry_stays:
  assumes "well s" "n < length (contents s)"
  shows "n < length (contents (fold perform ops s)) \<and> contents (fold perform ops s) ! n = contents s ! n"
  using history_grows [OF assms(1), of ops] assms(2) by (auto simp: prefix_def nth_append)

end

end
