(* ===== verification/AppendOnly.thy ===== *)
theory AppendOnly
  imports Deployment Sha256 JournalLaws Growth
begin

text \<open>
  The in-memory event log and the memory journal of acquisition are append-only stores: the contract
  \<open>append_only\<close> is discharged for both.
\<close>

text \<open>A capture attempt at a wall-clock time; a rejected draft leaves the log as it was.\<close>

definition capture :: "externals \<Rightarrow> jsnum \<times> json \<Rightarrow> InMemoryEventLog \<Rightarrow> InMemoryEventLog" where
  "capture X op L = (case append X (fst op) (snd op) L of Inl _ \<Rightarrow> L | Inr (L', _) \<Rightarrow> L')"

datatype JournalOperation = AppendEntry bool JournalEntry | ClaimAttempt bool jsstring JournalEntry

fun journalOperation :: "externals \<Rightarrow> JournalOperation \<Rightarrow> MemoryAcquisitionJournal \<Rightarrow> MemoryAcquisitionJournal" where
  "journalOperation X (AppendEntry authority e) J = fst (appendJournal X authority e J)"
| "journalOperation X (ClaimAttempt authority h e) J = fst (claimAttemptStarted X authority h e J)"

lemma journalOperation_cases:
  assumes "wf_journal X J"
  shows "journalOperation X op J = J \<or>
    (\<exists>e P. journal_valid X (expectedIdentity J) (journalId J) (entries J @ [e]) \<and>
       journalOperation X op J = J\<lparr>entries := entries J @ [e], producedJournalEntries := P\<rparr>)"
proof (cases op)
  case (AppendEntry a e)
  obtain J' r where A: "appendJournal X a e J = (J', r)" by fastforce
  show ?thesis
    using A appendJournal_cases [OF assms, of a e J'] by (cases r) (auto simp: AppendEntry)
next
  case (ClaimAttempt a h e)
  obtain J' r where A: "claimAttemptStarted X a h e J = (J', r)" by fastforce
  show ?thesis
  proof (cases "r = Inr True")
    case True
    then have v: "journal_valid X (expectedIdentity J) (journalId J) (entries J @ [e])" "J' = J\<lparr>entries := entries J @ [e]\<rparr>"
      using A claimAttemptStarted_cases(1) [OF assms, of a h e J'] by blast+
    from v(2) have "J' = J\<lparr>entries := entries J @ [e], producedJournalEntries := producedJournalEntries J\<rparr>" by simp
    then have "journalOperation X op J = J\<lparr>entries := entries J @ [e], producedJournalEntries := producedJournalEntries J\<rparr>"
      by (simp add: ClaimAttempt A)
    with v(1) show ?thesis by blast
  next
    case False
    then show ?thesis using A claimAttemptStarted_cases(2) [OF assms, of a h e J' r] by (simp add: ClaimAttempt)
  qed
qed

interpretation journal: append_only "journalOperation X" entries "wf_journal X" for X
proof
  fix J op
  assume wf: "wf_journal X J"
  from journalOperation_cases [OF wf, of op] show "wf_journal X (journalOperation X op J)"
    using wf wf_append_entry by auto
  from journalOperation_cases [OF wf, of op] show "prefix (entries J) (entries (journalOperation X op J))"
    by auto
qed

lemma append_only_log: "node_env X \<Longrightarrow> append_only (capture X) logEvents (wf_log X)"
proof (unfold_locales, unfold capture_def, goal_cases)
  case (1 L op)
  then show ?case using node_env.wf_append [OF 1(1,2)] by (auto split: sum.splits)
next
  case (2 L op)
  then show ?case using node_env.append_extends [OF 2(1,2)] by (auto simp: prefix_def split: sum.splits)
qed

interpretation captures: append_only "capture nodeRealm" logEvents "wf_log nodeRealm"
  by (rule append_only_log) (rule node.node_env_axioms)

end
