(* ===== verification/Scenario.thy ===== *)
theory Scenario
  imports Replay AcquisitionLaws AppendOnly
begin

text \<open>
  A small concrete deployment: one environment, one captured event, one run and its reducer. It
  is the common input at which the hypotheses of the properties are shown to hold.
\<close>

definition zeroDigest :: jsstring where
  "zeroDigest = replicate 64 48"

definition testRealm :: externals where
  "testRealm = cleanRealm (\<lambda>_. zeroDigest)"

lemma hash64_zeroDigest: "hash64 zeroDigest"
  by code_simp

lemma testRealm_env: "node_env testRealm"
  unfolding testRealm_def by (rule cleanRealm_env) (rule hash64_zeroDigest)

lemma testRealm_safe [simp]: "protoSafe testRealm names"
  by (simp add: testRealm_def)

definition sampleDraft :: EventDraft where
  "sampleDraft = \<lparr>envelopeVersion = 2, eventType = js ''e'', schemaVersion = 1, source = js ''s'', subject = js ''x'',
     occurredAtMs = None, correlationId = js ''c'', causationId = None,
     eventProvider = \<lparr>provider = js ''p'', recordId = js ''r'', revisionId = js ''1'', artifactHash = zeroDigest\<rparr>,
     payload = JObj []\<rparr>"

definition sampleEvent :: StoredEvent where
  "sampleEvent = CapturedEvent.extend (EventDraft.extend sampleDraft (CapturedEvent.fields zeroDigest (js ''1'') 5 5))
     (StoredEvent.fields (js ''1'') zeroDigest zeroHash zeroDigest)"

text \<open>Sizes and shapes of the literals, so that the limits are checked by rewriting.\<close>

lemma zeroDigest_sizes: "byteLength zeroDigest = 64" "byteLength (jsonQuote zeroDigest) = 66" "scalar zeroDigest"
  using hash64_plain [OF hash64_zeroDigest] hash64_scalar [OF hash64_zeroDigest]
  by (simp_all add: byteLength_plain byteLength_quote_plain)

lemma zeroHash_eq: "zeroHash = zeroDigest"
  by (simp add: zeroHash_def zeroDigest_def)

lemma digit_sizes: "byteLength (intString 1) = 1" "byteLength (intString 2) = 1" "byteLength (intString 5) = 1"
  by code_simp+

lemma positive_one: "positive_decimal (js ''1'')"
  by code_simp

lemma digest_testRealm [simp]: "digest testRealm d v = zeroDigest" "hashParts testRealm d ps = zeroDigest"
  by (simp_all add: digest_def hashParts_def testRealm_def cleanRealm_def)

lemmas sample_defs = sampleEvent_def sampleDraft_def EventDraft.defs CapturedEvent.defs StoredEvent.defs zeroHash_eq
lemmas sample_json = stored_json_def draft_json_def draftFields_def provider_json_def jint_def jnull_def optField_def field_def
  isSafeInteger_def MAX_SAFE_INTEGER_def EVENT_ENVELOPE_LIMITS_def EVENT_PAYLOAD_LIMITS_def
lemmas sample_sizes = zeroDigest_sizes byteLength_plain byteLength_quote_plain literal_plain digit_sizes

lemma sampleDraft_limits: "within_limits EVENT_ENVELOPE_LIMITS (draft_json sampleDraft)"
  unfolding within_limits_def
proof (intro conjI)
  show "valid_json (draft_json sampleDraft)" by (simp add: sample_defs sample_json scalar_js zeroDigest_sizes(3))
qed (simp_all add: sample_defs sample_json sample_sizes)

lemma sampleEvent_limits: "within_limits EVENT_ENVELOPE_LIMITS (stored_json sampleEvent)"
  unfolding within_limits_def
proof (intro conjI)
  show "valid_json (stored_json sampleEvent)" by (simp add: sample_defs sample_json scalar_js zeroDigest_sizes(3))
qed (simp_all add: sample_defs sample_json sample_sizes)

lemma empty_payload: "within_limits EVENT_PAYLOAD_LIMITS (JObj [])"
  by code_simp

lemma sampleEvent_ok: "storedOk sampleEvent" "draftOk sampleDraft"
  by (simp_all add: storedOk_def draftOk_def providerOk_def bounded_id_def sample_defs hash64_zeroDigest positive_one
      isSafeInteger_def MAX_SAFE_INTEGER_def)

lemma wf_sampleDraft: "wf_draft sampleDraft"
  using sampleDraft_limits sampleEvent_ok(2) empty_payload by (simp add: wf_draft_def conforms_draft) (simp add: sampleDraft_def)

lemma sampleDraft_valid: "validateEventDraft testRealm (draft_json sampleDraft) = Inr sampleDraft"
proof -
  have "valid_json (draft_json sampleDraft)" using wf_sampleDraft within_limits_valid by (auto simp: wf_draft_def)
  then have "draft_of (norm (draft_json sampleDraft)) = sampleDraft"
    by (rule draft_of_json_norm) (simp add: sampleDraft_def)
  moreover have "getJson (draft_json sampleDraft) ''payload'' = payload sampleDraft"
    using arg_cong [OF draft_of_json [of sampleDraft], of payload] by (simp add: draft_of_def)
  ultimately show ?thesis
    using wf_sampleDraft by (simp add: node_env.validateEventDraft_Inr [OF testRealm_env] wf_draft_def)
qed

lemma draftFromStored_sample: "draftFromStored sampleEvent = sampleDraft"
  by (simp add: draftFromStored_def sample_defs)

lemma sample_captured: "captureEvent testRealm (NInt 5) sampleDraft emptyLog = Inr sampleEvent"
proof -
  have "isEpochMs (NInt 5)" "norm (payload sampleDraft) = payload sampleDraft" "isSafeInteger (lastLogical emptyLog)"
    by (simp_all add: isEpochMs_def isSafeInteger_def MAX_SAFE_INTEGER_def sampleDraft_def lastLogical_def emptyLog_def)
  moreover have "hash64 (endHash zeroHash (logEvents emptyLog))" by (simp add: emptyLog_def)
  ultimately obtain e where e: "captureEvent testRealm (NInt 5) sampleDraft emptyLog = Inr e" "capturedOk testRealm e"
    "draftFromStored e = sampleDraft" "streamVersion e = dec 1" "receivedAtMs e = 5" "logicalAtMs e = 5"
    "position e = dec 1" "previousEventHash e = zeroHash"
    using node_env.captureEvent_spec [OF testRealm_env wf_sampleDraft, of "NInt 5" emptyLog]
    by (auto simp: emptyLog_def versionOf_def lastLogical_def)
  have one: "dec 1 = js ''1''" by code_simp
  have h: "eventId e = zeroDigest" "contentHash e = zeroDigest" "eventHash e = zeroDigest"
    using e(2) by (simp_all add: capturedOk_def sealed_def)
  have "e = sampleEvent"
    using e(3-8) h one by (cases e) (simp add: sample_defs draftFromStored_def)
  with e(1) show ?thesis by simp
qed

definition sampleLog :: InMemoryEventLog where
  "sampleLog = pushEvent testRealm sampleEvent emptyLog"

lemma wf_sampleEvent: "wf_stored sampleEvent"
  using sampleEvent_limits sampleEvent_ok(1) empty_payload by (simp add: wf_stored_def conforms_stored) (simp add: sample_defs)

lemma canon_sampleEvent [simp]: "canonE sampleEvent = sampleEvent"
  by (simp add: canonE_def sampleEvent_def sampleDraft_def EventDraft.defs CapturedEvent.defs)

lemma sample_append:
  "append testRealm (NInt 5) (draft_json sampleDraft) emptyLog =
     Inr (sampleLog, \<lparr>resultEvent = sampleEvent, resultDisposition = Appended\<rparr>)"
proof -
  have e: "subject sampleEvent = subject sampleDraft" "eventProvider sampleEvent = eventProvider sampleDraft"
    by (simp_all add: sampleEvent_def EventDraft.defs CapturedEvent.defs)
  have "valid_json (provider_json (eventProvider sampleDraft))"
    using wf_stored_valid(2) [OF wf_sampleEvent] e by simp
  then have k: "providerKey testRealm (eventProvider sampleDraft) = Inr (keyOf testRealm (eventProvider sampleDraft))"
    by (simp add: providerKey_Inr valid_identity)
  have f: "logEvents emptyLog = []" "providerEvents emptyLog = Map.empty" "streamVersions emptyLog = Map.empty"
    by (simp_all add: emptyLog_def)
  show ?thesis
    using wf_stored_valid(1) [OF wf_sampleEvent]
    by (simp add: append_def sampleDraft_valid k f sample_captured sampleLog_def pushEvent_def versionOf_def e)
qed

lemma wf_sampleLog: "wf_log testRealm sampleLog"
  using node_env.wf_append [OF testRealm_env wf_emptyLog sample_append] .

lemma logEvents_sampleLog [simp]: "logEvents sampleLog = [sampleEvent]"
  by (simp add: sampleLog_def pushEvent_def emptyLog_def)

text \<open>An environment that tells the two preimages of one event apart.\<close>

definition oneDigest :: jsstring where
  "oneDigest = replicate 64 49"

definition markedEvent :: StoredEvent where
  "markedEvent = sampleEvent\<lparr>contentHash := oneDigest\<rparr>"

definition contentBytes :: "8 word list" where
  "contentBytes = canonPreimage (js ''peas/event-content/v2'') (capturedContent sampleEvent)"

definition markedRealm :: externals where
  "markedRealm = cleanRealm (\<lambda>bs. if bs = contentBytes then oneDigest else zeroDigest)"

lemma hash64_oneDigest: "hash64 oneDigest"
  by code_simp

lemma markedRealm_env: "node_env markedRealm"
  unfolding markedRealm_def by (rule cleanRealm_env) (simp add: hash64_zeroDigest hash64_oneDigest)

lemma markedRealm_safe: "protoSafe markedRealm names"
  by (simp add: markedRealm_def)

lemma oneDigest_sizes: "byteLength oneDigest = 64" "byteLength (jsonQuote oneDigest) = 66" "scalar oneDigest"
  using hash64_plain [OF hash64_oneDigest] hash64_scalar [OF hash64_oneDigest]
  by (simp_all add: byteLength_plain byteLength_quote_plain)

lemma wf_markedEvent: "wf_stored markedEvent"
proof -
  have "within_limits EVENT_ENVELOPE_LIMITS (stored_json markedEvent)"
    unfolding within_limits_def
  proof (intro conjI)
    show "valid_json (stored_json markedEvent)"
      by (simp add: markedEvent_def sample_defs sample_json scalar_js zeroDigest_sizes(3) oneDigest_sizes(3))
  qed (simp_all add: markedEvent_def sample_defs sample_json sample_sizes oneDigest_sizes)
  moreover have "storedOk markedEvent"
    using sampleEvent_ok(1) hash64_oneDigest by (simp add: markedEvent_def storedOk_def draftOk_def)
  moreover have "payload markedEvent = JObj []" by (simp add: markedEvent_def sample_defs)
  ultimately show ?thesis using empty_payload by (simp add: wf_stored_def conforms_stored)
qed

lemma capturedContent_marked: "capturedContent markedEvent = capturedContent sampleEvent"
  by (simp add: markedEvent_def capturedContent_def draftFields_def draftFromStored_def)

lemma marked_preimages:
  "canonPreimage (js ''peas/event-chain/v2'') (chainLink (position markedEvent) (contentHash markedEvent) (previousEventHash markedEvent)) \<noteq> contentBytes"
  "canonPreimage (js ''peas/local-event-id/v2'') (provider_json (eventProvider markedEvent)) \<noteq> contentBytes"
proof -
  note c = capturedContent_marked
  note v = wf_stored_valid [OF wf_markedEvent] and sm = wf_stored_small [OF wf_markedEvent]
  have t: "tag (js ''peas/event-content/v2'')" "tag (js ''peas/event-chain/v2'')" "tag (js ''peas/local-event-id/v2'')"
    by (simp_all add: tag_js)
  have p: "small (provider_json (eventProvider markedEvent))"
    by (simp add: small_def markedEvent_def sample_defs sample_json sample_sizes)
  show "canonPreimage (js ''peas/event-chain/v2'') (chainLink (position markedEvent) (contentHash markedEvent) (previousEventHash markedEvent)) \<noteq> contentBytes"
    unfolding contentBytes_def c [symmetric]
    using canonical_preimage_inj [OF v(4,3) sm(2,1), of "js ''peas/event-chain/v2''" "js ''peas/event-content/v2''"] t
    by (auto simp: tag_def)
  show "canonPreimage (js ''peas/local-event-id/v2'') (provider_json (eventProvider markedEvent)) \<noteq> contentBytes"
    unfolding contentBytes_def c [symmetric]
    using canonical_preimage_inj [OF v(2,3) p sm(1), of "js ''peas/local-event-id/v2''" "js ''peas/event-content/v2''"] t
    by (auto simp: tag_def)
qed

lemma sealed_markedEvent: "sealed markedRealm markedEvent"
proof -
  note capturedContent_marked
  moreover have "eventId markedEvent = zeroDigest" "contentHash markedEvent = oneDigest" "eventHash markedEvent = zeroDigest"
    by (simp_all add: markedEvent_def sample_defs)
  ultimately show ?thesis
    using marked_preimages by (simp add: sealed_def digest_def markedRealm_def cleanRealm_def contentBytes_def)
qed

lemma marked_injective: "inj_on (sha256_hex markedRealm) (eventPreimages markedEvent)"
proof -
  note capturedContent_marked
  moreover have "oneDigest \<noteq> zeroDigest" by (simp add: oneDigest_def zeroDigest_def)
  ultimately show ?thesis
    using marked_preimages(1) by (auto simp: inj_on_def eventPreimages_def markedRealm_def cleanRealm_def contentBytes_def)
qed

definition sampleManifest :: RunManifest where
  "sampleManifest = \<lparr>manifestVersion = 2, runId = js ''run'', kind = Live, effectsAllowed = True,
     canonicalizationVersion = js ''peas-json-v1'',
     behavior = \<lparr>reducerName = js ''counter'', reducerVersion = js ''1'', buildDigest = zeroDigest,
       schemaRegistryDigest = zeroDigest, configuration = JObj [],
       identities = \<lparr>extractorVersion = js ''x1'', featureSetId = None, modelId = None, promptId = None, datasetId = None\<rparr>\<rparr>\<rparr>"

lemma wf_sampleManifest: "wf_manifest sampleManifest"
  unfolding wf_manifest_def
proof (intro conjI)
  show "within_limits RUN_MANIFEST_LIMITS (manifest_json sampleManifest)"
    unfolding within_limits_def
  proof (intro conjI)
    show "valid_json (manifest_json sampleManifest)"
      by (simp add: sampleManifest_def manifest_json_def behavior_json_def identities_json_def sample_json scalar_js zeroDigest_sizes(3))
  qed (simp_all add: sampleManifest_def manifest_json_def behavior_json_def identities_json_def sample_json sample_sizes
      RUN_MANIFEST_LIMITS_def RUN_CONFIGURATION_LIMITS_def)
  have "conforms ZJsonObject (JObj [])" by simp
  then show "conforms runManifestV2Schema (manifest_json sampleManifest)"
    by (simp add: runManifestV2Schema_def runBehaviorSchema_def runIdentitiesSchema_def check_simps z_defs sampleManifest_def
        manifest_json_def behavior_json_def identities_json_def hasOnly_JObj js_names reader_defs bounded_id_def hash64_zeroDigest
        jint_def jnull_def del: conforms.simps)
  show "within_limits RUN_CONFIGURATION_LIMITS (configuration (behavior sampleManifest))" by code_simp
  show "effectsAllowed sampleManifest \<longrightarrow> kind sampleManifest = Live" "canonM sampleManifest = sampleManifest"
    by (simp_all add: sampleManifest_def canonM_def)
qed

definition sampleReducer :: Reducer where
  "sampleReducer = \<lparr>name = js ''counter'', reducerVersionTag = js ''1'', route = (\<lambda>_. Inr (js ''a'')), parseState = Inr,
     initialState = (\<lambda>_ _. Inr (JObj [])),
     applyReducer = (\<lambda>st _ _. Inr \<lparr>transitionState = st, decisions = [],
       jobs = [\<lparr>jobId = zeroDigest, jobType = js ''t'', jobDedupeKey = js ''k'', jobNotBefore = NInt 5,
         jobInputBundleHash = zeroDigest, jobPayload = JObj []\<rparr>], outbox = []\<rparr>)\<rparr>"

definition sampleProcessor :: DeterministicProcessor where
  "sampleProcessor = \<lparr>reducer = sampleReducer, registration = registrationOf testRealm sampleManifest,
     configHash = zeroDigest, initialized = False\<rparr>"

lemma newProcessor_sample: "newProcessor testRealm sampleReducer (manifest_json sampleManifest) = Inr sampleProcessor"
proof -
  have "hash64 zeroDigest" by (rule hash64_zeroDigest)
  moreover have "digest testRealm d v = zeroDigest" for d v
    by (simp add: digest_def testRealm_def cleanRealm_def)
  ultimately show ?thesis
    unfolding newProcessor_def node_env.derive_wf_manifest [OF testRealm_env wf_sampleManifest testRealm_safe] bindR_simps
    by (simp add: sampleManifest_def sampleReducer_def registrationOf_def assertNonEmpty_def assertHash_def sampleProcessor_def js_simps)
qed

end
