(* ===== verification/ScenarioRun.thy ===== *)
theory ScenarioRun
  imports Scenario
begin

text \<open>
  The first step of the sample run: registration, the commit its reducer produces for the sample
  event, and the store afterwards.
\<close>

definition runStore :: InMemoryProcessingStore where
  "runStore = emptyStore\<lparr>runs := [js ''run'' \<mapsto> registrationOf testRealm sampleManifest]\<rparr>"

definition readyProcessor :: DeterministicProcessor where
  "readyProcessor = sampleProcessor\<lparr>initialized := True\<rparr>"

lemma runId_sample [simp]: "runId (manifest (registration sampleProcessor)) = js ''run''"
  by (simp add: sampleProcessor_def registrationOf_def sampleManifest_def)

lemma runId_registration [simp]: "runId (manifest (registrationOf testRealm sampleManifest)) = js ''run''"
  by (simp add: registrationOf_def sampleManifest_def)

lemma sample_registration [simp]: "registration sampleProcessor = registrationOf testRealm sampleManifest"
  by (simp add: sampleProcessor_def)

lemma sample_initialize: "initialize testRealm (sampleProcessor, emptyStore) = Inr (readyProcessor, runStore)"
proof -
  have v: "validateRunRegistration testRealm (registration_json (registrationOf testRealm sampleManifest)) =
      Inr (registrationOf testRealm sampleManifest)"
    by (rule node_env.validateRunRegistration_Inr [OF testRealm_env testRealm_safe wf_sampleManifest])
  have "runsOk testRealm emptyStore" using represents_empty by (auto simp: represents_def)
  from node_env.ensureRun_eq [OF testRealm_env this v] show ?thesis
    by (simp add: initialize_def readyProcessor_def runStore_def emptyStore_def) (simp add: sampleProcessor_def registrationOf_def sampleManifest_def)
qed

definition rawBody :: json where
  "rawBody = JObj (field ''jobId'' (JStr zeroDigest) @ field ''type'' (JStr (js ''t'')) @ field ''dedupeKey'' (JStr (js ''k'')) @
     field ''notBeforeLogicalMs'' (JNum (NInt 5)) @ field ''inputBundleHash'' (JStr zeroDigest) @ field ''payload'' (JObj []))"

definition sampleBody :: json where
  "sampleBody = JObj (field ''dedupeKey'' (JStr (js ''k'')) @ field ''inputBundleHash'' (JStr zeroDigest) @
     field ''jobId'' (JStr zeroDigest) @ field ''notBeforeLogicalMs'' (JNum (NInt 5)) @ field ''payload'' (JObj []) @
     field ''type'' (JStr (js ''t'')))"

definition sampleOutput :: ImmutableOutput where
  "sampleOutput = \<lparr>outputId = zeroDigest, outRunId = js ''run'', inputEventId = zeroDigest, inputPosition = js ''1'',
     outAggregateId = js ''a'', category = JobOutput, ordinal = 0, dedupeKey = Some (js ''k''), notBeforeLogicalMs = Some 5,
     body = sampleBody, bodyHash = zeroDigest\<rparr>"

definition sampleAggregate :: AggregateCheckpoint where
  "sampleAggregate = \<lparr>aggRunId = js ''run'', aggregateId = js ''a'', version = js ''1'', lastInputPosition = js ''1'',
     state = JObj [], stateHash = zeroDigest, checkpointHash = zeroDigest\<rparr>"

definition sampleCursor :: RunCursor where
  "sampleCursor = \<lparr>cursorRunId = js ''run'', cursorManifestHash = zeroDigest, cursorBehaviorHash = zeroDigest,
     processedPosition = js ''1'', cursorLogicalAtMs = 5, lastEventHash = zeroDigest, stateHead = zeroDigest,
     decisionHead = zeroDigest, cursorHash = zeroDigest\<rparr>"

definition sampleCommit :: ProcessingCommit where
  "sampleCommit = \<lparr>expectedPosition = js ''0'', commitEvent = sampleEvent, commitCursor = sampleCursor,
     commitAggregate = sampleAggregate, commitOutputs = [sampleOutput]\<rparr>"

lemma bounded_samples:
  "bounded_id (js ''run'')" "bounded_id (js ''a'')" "bounded_id (js ''t'')" "bounded_id (js ''k'')" "aggregate_id (js ''a'')"
  "nonnegative_decimal (js ''1'')" "nonnegative_decimal (js ''0'')"
  by code_simp+

lemma more_digits: "byteLength (intString 0) = 1"
  by code_simp

lemmas run_json = sampleCursor_def sampleAggregate_def cursor_json_def aggregate_json_def output_json_def output_fields_def
  PERSISTED_PROCESSING_JSON_LIMITS_def sample_json
lemmas run_sizes = sample_sizes more_digits

lemma sampleCursor_limits: "within_limits PERSISTED_PROCESSING_JSON_LIMITS (cursor_json sampleCursor)"
  unfolding within_limits_def
proof (intro conjI)
  show "valid_json (cursor_json sampleCursor)" by (simp add: run_json scalar_js zeroDigest_sizes(3))
qed (simp_all add: run_json run_sizes)

lemma sampleAggregate_limits: "within_limits PERSISTED_PROCESSING_JSON_LIMITS (aggregate_json sampleAggregate)"
  unfolding within_limits_def
proof (intro conjI)
  show "valid_json (aggregate_json sampleAggregate)" by (simp add: run_json scalar_js zeroDigest_sizes(3))
qed (simp_all add: run_json run_sizes)

lemma norm_rawBody [simp]: "norm rawBody = sampleBody" "norm sampleBody = sampleBody"
  by code_simp+

lemma sampleBody_limits: "within_limits PERSISTED_PROCESSING_JSON_LIMITS sampleBody"
  unfolding within_limits_def
proof (intro conjI)
  show "valid_json sampleBody" by (simp add: sampleBody_def run_json scalar_js zeroDigest_sizes(3))
qed (simp_all add: sampleBody_def run_json run_sizes)

lemma sampleOutput_limits: "within_limits PERSISTED_PROCESSING_JSON_LIMITS (output_json sampleOutput)"
  unfolding within_limits_def
proof (intro conjI)
  show "valid_json (output_json sampleOutput)"
    by (simp add: sampleOutput_def sampleBody_def run_json scalar_js zeroDigest_sizes(3))
qed (simp_all add: sampleOutput_def sampleBody_def run_json run_sizes)

lemma sampleCommit_limits: "within_limits PERSISTED_PROCESSING_COMMIT_LIMITS (commit_json sampleCommit)"
  unfolding within_limits_def
proof (intro conjI)
  show "valid_json (commit_json sampleCommit)"
    using sampleEvent_limits sampleCursor_limits sampleAggregate_limits sampleOutput_limits
    by (simp add: valid_commit_json sampleCommit_def scalar_js within_limits_valid)
qed (simp_all add: sampleCommit_def commit_json_def sampleOutput_def sampleBody_def run_json sample_defs run_sizes
    PERSISTED_PROCESSING_COMMIT_LIMITS_def)

lemma sampleBody_conforms: "conforms jobBodySchema sampleBody"
proof -
  have "conforms ZJsonObject (JObj [])" by simp
  then show ?thesis
    using bounded_samples(3,4) hash64_zeroDigest
    by (simp add: jobBodySchema_def check_simps z_defs sampleBody_def hasOnly_JObj js_names reader_defs
      isSafeInteger_def MAX_SAFE_INTEGER_def jint_def del: conforms.simps)
qed

lemma wf_sampleOutput: "wf_output testRealm sampleOutput"
  using sampleOutput_limits sampleBody_limits sampleBody_conforms bounded_samples hash64_zeroDigest positive_one
  by (simp add: wf_output_def outputOk_def outputBodyOk_def bodyValid_def sampleOutput_def deliveryMeta_def isSafeInteger_def
      MAX_SAFE_INTEGER_def scalar_js jobIdOf_def)
    (simp add: sampleBody_def reader_defs)

lemma wf_sampleCommit: "wf_commit testRealm sampleCommit"
  using sampleCommit_limits wf_sampleEvent sampleCursor_limits sampleAggregate_limits wf_sampleOutput bounded_samples
    hash64_zeroDigest positive_one
  by (simp add: wf_commit_def commitOk_def sampleCommit_def wf_output_def cursorOk_def sampleCursor_def aggregateOk_def
      sampleAggregate_def isSafeInteger_def MAX_SAFE_INTEGER_def)


section \<open>The step\<close>

lemma sample_reachable: "reachable testRealm sampleLog runStore"
proof -
  have "reachable testRealm sampleLog emptyStore" by (rule reachable.append [OF reachable.init sample_append])
  with initialize_reachable [OF _ sample_initialize] show ?thesis by simp
qed

lemma sample_represents: "represents testRealm runStore (\<lambda>_. [])"
  using node_env.ensureRun_refines [OF testRealm_env represents_empty] sample_initialize
  by (auto simp: initialize_def bindR_eq_Inr sampleProcessor_def)

lemma sample_ready: "ready testRealm [sampleEvent] (readyProcessor, runStore) 0"
  using sample_represents by (auto simp: ready_def Let_def readyProcessor_def runStore_def)

lemma sample_liveLog: "liveLog testRealm sampleLog"
  using wf_sampleLog wf_sampleEvent wf_log_facts(1,2) [OF wf_sampleLog]
  by (simp add: liveLog_def verifiable_def capturedOk_def)

lemma sample_matched: "matched readyProcessor"
  by (simp add: matched_def readyProcessor_def sampleProcessor_def registrationOf_def sampleManifest_def sampleReducer_def)

lemma sampleEvent_fields [simp]:
  "position sampleEvent = js ''1''" "eventId sampleEvent = zeroDigest" "eventHash sampleEvent = zeroDigest" "logicalAtMs sampleEvent = 5"
  by (simp_all add: sample_defs)


lemma one_step: "intString (0 + 1) = js ''1''" "bigInt (js ''0'') = Inr 0"
  by code_simp+

lemma ready_fields [simp]: "reducer readyProcessor = sampleReducer" "registration readyProcessor = registrationOf testRealm sampleManifest"
  by (simp_all add: readyProcessor_def sampleProcessor_def)

lemma registration_fields [simp]:
  "manifestHash (registrationOf testRealm m) = zeroDigest" "behaviorHash (registrationOf testRealm m) = zeroDigest"
  "manifest (registrationOf testRealm m) = m"
  by (simp_all add: registrationOf_def)

lemma sampleManifest_fields [simp]: "runId sampleManifest = js ''run''" "configuration (behavior sampleManifest) = JObj []"
  "effectsAllowed sampleManifest" "kind sampleManifest = Live"
  by (simp_all add: sampleManifest_def)

lemma empty_state: "within_limits PERSISTED_PROCESSING_JSON_LIMITS (JObj [])"
  by code_simp

lemma sample_route: "bindR (route sampleReducer sampleEvent) (validateAggregateId testRealm) = Inr (js ''a'')"
  using node_env.validateAggregateId_ok [OF testRealm_env bounded_samples(5)] by (simp add: sampleReducer_def)

definition genesisAggregate :: AggregateCheckpoint where
  "genesisAggregate = sampleAggregate\<lparr>version := js ''0'', lastInputPosition := js ''0''\<rparr>"

lemma check_empty: "checkJson PERSISTED_PROCESSING_JSON_LIMITS (JObj []) = Inr (metrics (JObj []))"
  using empty_state by (simp add: checkJson_Inr)

lemma sample_genesis: "aggregateGenesis testRealm readyProcessor (js ''a'') = Inr genesisAggregate"
proof -
  have "valid_json (checkpointContent (genesisAggregate\<lparr>checkpointHash := []\<rparr>))"
    by (simp add: checkpointContent_def genesisAggregate_def sampleAggregate_def scalar_js zeroDigest_sizes(3))
  then show ?thesis
    by (simp add: aggregateGenesis_def check_empty requiredObject_def reducerStateHash_def computeAggregateCheckpointHash_def
        sampleReducer_def genesisAggregate_def sampleAggregate_def)
qed

lemma genesisAggregate_valid: "validateAggregateCheckpoint testRealm (aggregate_json genesisAggregate) = Inr genesisAggregate"
proof -
  have "within_limits PERSISTED_PROCESSING_JSON_LIMITS (aggregate_json genesisAggregate)"
    unfolding within_limits_def
  proof (intro conjI)
    show "valid_json (aggregate_json genesisAggregate)"
      by (simp add: genesisAggregate_def run_json scalar_js zeroDigest_sizes(3))
  qed (simp_all add: genesisAggregate_def run_json run_sizes)
  moreover have "aggregateOk nonnegative_decimal genesisAggregate" "canonA genesisAggregate = genesisAggregate"
    using bounded_samples hash64_zeroDigest
    by (simp_all add: aggregateOk_def genesisAggregate_def sampleAggregate_def canonA_def)
  ultimately show ?thesis by (simp add: node_env.validate_typed(2) [OF testRealm_env])
qed

abbreviation sampleJob :: JobDraft where
  "sampleJob \<equiv> \<lparr>jobId = zeroDigest, jobType = js ''t'', jobDedupeKey = js ''k'', jobNotBefore = NInt 5,
     jobInputBundleHash = zeroDigest, jobPayload = JObj []\<rparr>"

abbreviation sampleTransition :: Transition where
  "sampleTransition \<equiv> \<lparr>transitionState = JObj [], decisions = [], jobs = [sampleJob], outbox = []\<rparr>"

lemma sample_reduced: "runReducer testRealm readyProcessor sampleEvent genesisAggregate = Inr (JObj [], sampleTransition)"
proof -
  have p: "verifyPriorAggregate testRealm readyProcessor genesisAggregate = Inr (JObj [])"
  proof -
    have "valid_json (checkpointContent genesisAggregate)"
      by (simp add: checkpointContent_def genesisAggregate_def sampleAggregate_def scalar_js zeroDigest_sizes(3))
    then show ?thesis
      using genesisAggregate_valid
      by (simp add: verifyPriorAggregate_def)
        (simp add: genesisAggregate_def sampleAggregate_def check_empty sampleReducer_def requiredObject_def
          reducerStateHash_def computeAggregateCheckpointHash_def)
  qed
  have v: "valid_json (identities_json (identities (behavior sampleManifest)))"
    by (simp add: sampleManifest_def identities_json_def sample_json scalar_js)
  have "isOk (reducerContext readyProcessor sampleEvent)"
    using v by (simp add: reducerContext_def)
  then obtain ctx where "reducerContext readyProcessor sampleEvent = Inr ctx" by (auto simp: isOk_iff)
  then show ?thesis
    by (simp add: runReducer_def p sampleReducer_def check_empty requiredObject_def)
qed

lemma sample_materialized:
  "materialize testRealm (registrationOf testRealm sampleManifest) sampleEvent (js ''a'') sampleTransition = Inr [sampleOutput]"
proof -
  have w: "within_limits PERSISTED_PROCESSING_JSON_LIMITS rawBody"
    using sampleBody_limits within_limits_norm [of PERSISTED_PROCESSING_JSON_LIMITS rawBody] by simp
  have b: "outputBody testRealm (Job sampleJob) (js ''run'') =
      Inr \<lparr>matBody = rawBody, matDedupeKey = Some (js ''k''), matNotBefore = Some 5\<rparr>"
  proof -
    have "deriveJobId testRealm (js ''run'') (js ''k'') (JObj []) = Inr zeroDigest"
      by (simp add: node_env.deriveJobId_Inr [OF testRealm_env] scalar_js jobIdOf_def)
    then show ?thesis
      using hash64_zeroDigest
      by (simp add: assertNonEmpty_def assertHash_def assertLogicalMs_def check_empty rawBody_def isEpochMs_def isSafeInteger_def
          MAX_SAFE_INTEGER_def js_simps)
  qed
  have d: "computeOutputDedupeIdentity testRealm (js ''run'') JobOutput (js ''k'') = Inr zeroDigest"
    by (simp add: computeOutputDedupeIdentity_Inr scalar_js dedupeIdentityOf_def)
  have "valid_json (outputIdentity (registrationOf testRealm sampleManifest) sampleEvent (sampleOutput\<lparr>outputId := [], body := rawBody\<rparr>))"
    by (simp add: outputIdentity_def sampleOutput_def scalar_js zeroDigest_sizes(3) sample_json)
  then have i: "valid_json (outputIdentity (registrationOf testRealm sampleManifest) sampleEvent
      \<lparr>outputId = [], outRunId = js ''run'', inputEventId = zeroDigest, inputPosition = js ''1'', outAggregateId = js ''a'',
       category = JobOutput, ordinal = 0, dedupeKey = Some (js ''k''), notBeforeLogicalMs = Some 5, body = rawBody, bodyHash = zeroDigest\<rparr>)"
    by (simp add: sampleOutput_def)
  have c: "checkJson PERSISTED_PROCESSING_JSON_LIMITS rawBody = Inr (metrics rawBody)" using w by (simp add: checkJson_ok)
  show ?thesis
    using within_limits_valid [OF w] i
    by (simp add: materialize_def draftGroups_def materializeDraft_def b c d materializeDedupe_def sampleOutput_def Let_def
        del: outputBody.simps)
qed

lemma sample_cursor: "previousOf testRealm runStore (registrationOf testRealm sampleManifest) = genesisOf testRealm (registrationOf testRealm sampleManifest)"
  by (simp add: previousOf_def runStore_def emptyStore_def)

lemma sample_produced:
  "produceCommit testRealm readyProcessor runStore (currentCursor testRealm (readyProcessor, runStore)) sampleEvent = Inr sampleCommit"
proof -
  have l: "loadAggregate testRealm (js ''run'') (js ''a'') runStore = Inr None"
    using node_env.loadAggregate_represents [OF testRealm_env sample_represents testRealm_safe, of "js ''run''"
        "registrationOf testRealm sampleManifest" "js ''a''"] bounded_samples(5)
    by (simp add: runStore_def lastAggregate_def)
  have n: "nextCheckpoint testRealm readyProcessor sampleEvent (js ''a'') genesisAggregate (JObj []) = Inr sampleAggregate"
  proof -
    have "valid_json (checkpointContent (sampleAggregate\<lparr>checkpointHash := []\<rparr>))"
      by (simp add: checkpointContent_def sampleAggregate_def scalar_js zeroDigest_sizes(3))
    then show ?thesis
      using one_step by (simp add: nextCheckpoint_def reducerStateHash_def genesisAggregate_def sampleAggregate_def computeAggregateCheckpointHash_def)
  qed
  have c: "nextCursor testRealm readyProcessor k sampleEvent sampleAggregate [sampleOutput] = Inr sampleCursor" for k
  proof -
    have "valid_json (cursorContent (sampleCursor\<lparr>cursorHash := []\<rparr>))"
      by (simp add: cursorContent_def sampleCursor_def scalar_js zeroDigest_sizes(3) isSafeInteger_def MAX_SAFE_INTEGER_def)
    moreover have "valid_json (semanticOutputs [sampleOutput])"
      by (rule valid_semanticOutputs) (simp add: within_limits_valid [OF sampleOutput_limits])
    moreover from this have "nextDecisionHead testRealm k sampleEvent [sampleOutput] = Inr zeroDigest"
      by (simp add: nextDecisionHead_Inr decisionHeadOf_def)
    ultimately show ?thesis
      by (simp add: nextCursor_def nextStateHead_def sampleCursor_def computeRunCursorHash_def)
  qed
  show ?thesis
    by (simp add: produceCommit_def sample_route l sample_genesis sample_reduced n sample_materialized c sample_cursor sampleCommit_def)
qed

lemma sampleCommit_fields [simp]: "commitOutputs sampleCommit = [sampleOutput]" "commitCursor sampleCommit = sampleCursor"
  by (simp_all add: sampleCommit_def)

lemma sample_noConflict: "noConflict testRealm runStore (commitOutputs sampleCommit)"
  by (simp add: noConflict_def runStore_def emptyStore_def)

abbreviation committedStore :: InMemoryProcessingStore where
  "committedStore \<equiv> committed testRealm (registrationOf testRealm sampleManifest) sampleCommit runStore"

lemma sample_processed:
  "process testRealm (memoryReader sampleLog) (stored_json sampleEvent) (readyProcessor, runStore) =
     ((readyProcessor, committedStore), Inr sampleCursor)"
  using processing.process_succeeds [OF processing_memory [OF testRealm_env] sample_liveLog, of "(readyProcessor, runStore)" 0 sampleCommit]
    sample_ready sample_matched sample_produced wf_sampleCommit sample_noConflict
  by (simp add: sample_cursor)

lemma committed_ready: "ready testRealm [sampleEvent] (readyProcessor, committedStore) 1"
  using processing.process_next [OF processing_memory [OF testRealm_env] sample_liveLog, of "(readyProcessor, runStore)" 0]
    sample_ready sample_processed by simp

lemma committed_reachable: "reachable testRealm sampleLog committedStore"
  using process_reachable [of testRealm sampleLog "(readyProcessor, runStore)"] sample_reachable sample_processed by auto

lemma sample_committed:
  "commit testRealm (memoryReader sampleLog) (commit_json sampleCommit) runStore = (committedStore, Inr ())"
proof -
  have "planProcess testRealm (memoryReader sampleLog) (stored_json sampleEvent) readyProcessor runStore = Inr (Produce sampleCommit)"
    using processing.plan_next [OF processing_memory [OF testRealm_env] sample_liveLog sample_ready [folded logEvents_sampleLog]]
      sample_produced by (simp add: sample_cursor)
  with sample_processed show ?thesis
    by (auto simp: process_initialized readyProcessor_def split: prod.splits sum.splits)
qed

lemma sample_accepts:
  "accepts testRealm (memoryReader sampleLog) (commit_json sampleCommit) runStore (registrationOf testRealm sampleManifest) sampleCommit"
proof -
  obtain c r where a: "accepts testRealm (memoryReader sampleLog) (commit_json sampleCommit) runStore r c"
    using node_env.commit_Inr [OF testRealm_env] sample_committed by blast
  have "canonC sampleCommit = sampleCommit"
    by (simp add: canonC_def sampleCommit_def canonA_def sampleAggregate_def canonO_def sampleOutput_def)
  with a have "c = sampleCommit"
    by (simp add: accepts_def node_env.validateProcessingCommit_json [OF testRealm_env])
  moreover from this a have "r = registrationOf testRealm sampleManifest"
    by (simp add: accepts_def runStore_def sampleCursor_def)
  ultimately show ?thesis using a by simp
qed

end
