(* ===== verification/KernelProperties.thy ===== *)
theory KernelProperties
  imports ScenarioRun
begin

text \<open>
  Properties of the kernel up to the event logs: canonical text and hashing, the clock, event
  verification, capture and the two logs, run registration.
\<close>

section \<open>Text and hashing\<close>

text \<open>
  Two valid JSON values have the same canonical text if and only if they are equal up to the
  order of object keys.
\<close>

theorem canonical_text_exact:
  assumes "valid_json v" "valid_json w"
  shows "canonicalJson v = canonicalJson w \<longleftrightarrow> norm v = norm w"
  using assms canon_inj by simp

theorem canonical_text_exact_witness:
  "canonicalJson (JObj [(js ''b'', JNull), (js ''a'', JBool True)]) = canonicalJson (JObj [(js ''a'', JBool True), (js ''b'', JNull)])"
proof -
  have "norm (JObj [(js ''b'', JNull), (js ''a'', JBool True)]) = norm (JObj [(js ''a'', JBool True), (js ''b'', JNull)])"
    by code_simp
  then show ?thesis
    using canonical_text_exact [of "JObj [(js ''b'', JNull), (js ''a'', JBool True)]" "JObj [(js ''a'', JBool True), (js ''b'', JNull)]"]
    by simp
qed

text \<open>
  C4. The Unicode check of string values accepts the well-formed strings and, in addition, exactly
  the well-formed strings followed by one unpaired high surrogate: the code unit after the last one
  reads as \<open>NaN\<close>, for which both comparisons are false.
\<close>

theorem unicode_check_exact:
  "assertUnicodeScalarString s = Inr () \<longleftrightarrow> well_formed s \<or> (\<exists>t h. s = t @ [h] \<and> well_formed t \<and> is_high h)"
  by (rule assert_scalar_iff)

text \<open>
  C5. Domain-separated hashing is injective as far as SHA-256 is: two values that hash to the same
  digest, under domains that may differ, have the same domain and are equal up to key order, unless
  SHA-256 collides on their two preimages.
\<close>

theorem canonicalHash_injective:
  assumes "canonicalHash X d v = Inr h" "canonicalHash X d' w = Inr h"
    and "inj_on (sha256_hex X) {canonPreimage d v, canonPreimage d' w}"
    and "tag d" "tag d'" "small v" "small w"
  shows "d = d' \<and> norm v = norm w"
proof -
  have "valid_json v" "valid_json w" "digest X d v = digest X d' w" using assms(1,2) by auto
  with assms(3-7) show ?thesis by (intro digest_inj_tag [of X d v d' w "{canonPreimage d v, canonPreimage d' w}"]) simp_all
qed

theorem canonicalHash_injective_witness:
  "canonicalHash testRealm (js ''d'') (JObj []) = Inr zeroDigest \<and> tag (js ''d'') \<and> small (JObj []) \<and> norm (JObj []) = norm (JObj [])"
proof -
  have "tag (js ''d'')" "small (JObj [])" by (simp_all add: tag_js small_def)
  moreover from this have "canonicalHash testRealm (js ''d'') (JObj []) = Inr zeroDigest" by simp
  ultimately show ?thesis
    using canonicalHash_injective [of testRealm "js ''d''" "JObj []" zeroDigest "js ''d''" "JObj []"] by simp
qed


section \<open>The clock\<close>

text \<open>
  However a manual clock is advanced, its time never decreases, stays a safe integer, and
  resetting it gives the initial time back.
\<close>

theorem clock_monotone:
  assumes "newManualClock n = Inr c" "clockStep\<^sup>*\<^sup>* c c'"
  shows "Clock.nowMs c \<le> Clock.nowMs c' \<and> isSafeInteger (Clock.nowMs c') \<and> Clock.nowMs (reset c') = Clock.nowMs c"
proof -
  have wf: "wf_clock c" by (rule wf_newManualClock [OF assms(1)])
  have "Clock.nowMs c = initialMs c"
    using assms(1) by (auto simp: newManualClock_def result_simps Clock.nowMs_def)
  with clockSteps_mono [OF assms(2) wf] wf_reset [of c'] show ?thesis
    by (auto simp: wf_clock_def Clock.nowMs_def)
qed

theorem clock_monotone_witness:
  "\<exists>c c'. newManualClock (NInt 3) = Inr c \<and> clockStep\<^sup>*\<^sup>* c c' \<and> Clock.nowMs c' = 10 \<and> Clock.nowMs (reset c') = 3"
proof -
  let ?c = "\<lparr>initialMs = 3, currentMs = 3\<rparr>" and ?d = "\<lparr>initialMs = 3, currentMs = 10\<rparr>"
  have c: "newManualClock (NInt 3) = Inr ?c" "advanceTo ?c (NInt 10) = Inr ?d" by code_simp+
  then have s: "clockStep\<^sup>*\<^sup>* ?c ?d" by (blast intro: clockStep.step_to)
  from clock_monotone [OF c(1) s] c(1) s show ?thesis by (force simp: Clock.nowMs_def)
qed


section \<open>Events\<close>

text \<open>
  C6. Verification of a stored event accepts exactly the events that satisfy the schema and the
  size limits, whose identifier, content hash and chain hash are the digests of their own contents,
  and whose predecessor hash is the expected one, in an environment whose prototypes are not polluted.
\<close>

theorem verifyStoredEvent_exact:
  assumes "node_env X"
  shows "verifyStoredEvent X e expected = Inr () \<longleftrightarrow>
    protoSafe X EVENT_SCHEMA_FIELDS \<and> wf_stored e \<and> sealed X e \<and> (expected = None \<or> expected = Some (previousEventHash e))"
  by (rule node_env.verifyStoredEvent_Inr [OF assms])

theorem verifyStoredEvent_exact_witness: "verifyStoredEvent testRealm sampleEvent (Some zeroHash) = Inr ()"
  using verifyStoredEvent_exact [OF testRealm_env, of sampleEvent "Some zeroHash"] wf_sampleEvent wf_log_facts(1,2) [OF wf_sampleLog]
  by (simp add: capturedOk_def)

text \<open>
  C7. The boundary parser of stored events returns a typed event that is well formed and in
  canonical form, that renders back to the value it was read from, and that the parser maps to
  itself.
\<close>

theorem validateStoredEvent_typed:
  assumes "node_env X" "validateStoredEvent X v = Inr e"
  shows "wf_stored e \<and> canonE e = e \<and> norm (stored_json e) = norm v \<and> validateStoredEvent X (stored_json e) = Inr e"
proof -
  note w = node_env.validateStoredEvent_wf [OF assms]
  have "protoSafe X EVENT_SCHEMA_FIELDS" using assms node_env.validateStoredEvent_Inr by blast
  with w show ?thesis by (simp add: node_env.validateStoredEvent_json [OF assms(1)])
qed

theorem validateStoredEvent_typed_witness:
  "wf_stored sampleEvent \<and> validateStoredEvent testRealm (stored_json sampleEvent) = Inr sampleEvent"
proof -
  have "validateStoredEvent testRealm (stored_json sampleEvent) = Inr sampleEvent"
    by (simp add: node_env.validateStoredEvent_json [OF testRealm_env] wf_sampleEvent)
  from validateStoredEvent_typed [OF testRealm_env this] this show ?thesis by blast
qed

text \<open>
  C8. A page of events is fixed by its length and its last hash: two verified pages of equal length
  that end in the same hash start at the same predecessor hash and hold the same events, unless
  SHA-256 collides on one of their preimages.
\<close>

theorem verified_pages_equal:
  assumes "node_env X" "verifyEventPage X es p = Inr h" "verifyEventPage X fs q = Inr h" "length es = length fs"
    and "inj_on (sha256_hex X) S" "\<forall>e\<in>set es \<union> set fs. eventPreimages e \<subseteq> S"
  shows "map canonE es = map canonE fs \<and> p = q"
proof -
  from node_env.verifyEventPage_Inr [OF assms(1)] assms(2,3)
  have "list_all (\<lambda>e. wf_stored e \<and> sealed X e) es" "linked p es" "h = endHash p es"
    "list_all (\<lambda>e. wf_stored e \<and> sealed X e) fs" "linked q fs" "h = endHash q fs" by blast+
  with assms(4-6) show ?thesis by (intro pages_unique [where S = S and X = X]) simp_all
qed

theorem verified_pages_equal_witness:
  "verifyEventPage markedRealm [markedEvent] zeroHash = Inr zeroDigest \<and> map canonE [markedEvent] = map canonE [markedEvent]"
proof -
  have "previousEventHash markedEvent = zeroHash" "eventHash markedEvent = zeroDigest" by (simp_all add: markedEvent_def sample_defs)
  then have v: "verifyEventPage markedRealm [markedEvent] zeroHash = Inr zeroDigest"
    using wf_markedEvent sealed_markedEvent markedRealm_safe
    unfolding node_env.verifyEventPage_Inr [OF markedRealm_env] by (simp add: endHash_Cons)
  from verified_pages_equal [OF markedRealm_env v v _ marked_injective] v show ?thesis by simp
qed


section \<open>The event logs\<close>

text \<open>
  C9. Whatever is sent to the in-memory event log, and in whatever order, the log stays well formed
  (its events are sealed, linked from the zero hash, numbered from one without gaps, ordered in
  logical time and versioned per subject, and the provider index is exact), and an event once
  captured stays at its place.
\<close>

theorem log_append_only:
  assumes "node_env X"
  shows "wf_log X (fold (capture X) ops emptyLog) \<and>
    prefix (logEvents (fold (capture X) ops emptyLog)) (logEvents (fold (capture X) (ops @ later) emptyLog))"
proof -
  note ao = append_only_log [OF assms]
  have wf: "wf_log X (fold (capture X) ops emptyLog)" by (rule append_only.well_history [OF ao wf_emptyLog])
  with append_only.history_grows [OF ao wf, of later] show ?thesis by simp
qed

theorem log_append_only_witness:
  "wf_log testRealm (fold (capture testRealm) [(NInt 5, draft_json sampleDraft)] emptyLog) \<and>
   logEvents (fold (capture testRealm) [(NInt 5, draft_json sampleDraft)] emptyLog) = [sampleEvent]"
proof -
  have "capture testRealm (NInt 5, draft_json sampleDraft) emptyLog = sampleLog" by (simp add: capture_def sample_append)
  then show ?thesis
    using log_append_only [OF testRealm_env, of "[(NInt 5, draft_json sampleDraft)]" "[]"] by simp
qed

text \<open>
  C10. A draft that passes the boundary check, from a provider record the log does not know, is
  appended: the stored event carries the draft, the trusted receive time, a logical time that never
  goes back, the next position, the hash of its predecessor and correct hashes of its own.
\<close>

theorem append_captures:
  assumes "node_env X" "wf_log X L" "validateEventDraft X v = Inr d" "isEpochMs now"
    and "providerEvents L (keyOf X (eventProvider d)) = None"
  shows "\<exists>e L'. append X now v L = Inr (L', \<lparr>resultEvent = e, resultDisposition = Appended\<rparr>) \<and>
    logEvents L' = logEvents L @ [e] \<and> draftFromStored e = d \<and> receivedAtMs e = numInt now \<and>
    logicalAtMs e = max (lastLogical L) (numInt now) \<and> position e = dec (length (logEvents L) + 1) \<and>
    streamVersion e = dec (subjectCount (logEvents L) (subject d) + 1) \<and>
    previousEventHash e = endHash zeroHash (logEvents L) \<and> sealed X e"
proof -
  obtain e where e: "append X now v L = Inr (pushEvent X e L, \<lparr>resultEvent = e, resultDisposition = Appended\<rparr>)"
    "wf_log X (pushEvent X e L)" "capturedOk X e" "draftFromStored e = d" "receivedAtMs e = numInt now"
    "logicalAtMs e = max (lastLogical L) (numInt now)"
    by (rule node_env.append_fresh [OF assms(1,2,3,5,4)])
  have l: "logEvents (pushEvent X e L) = logEvents L @ [e]" by (simp add: pushEvent_def)
  have "subject e = subject d" using e(4) by (auto simp: draftFromStored_def)
  with wf_log_facts(2,3,5) [OF e(2)] have "position e = dec (length (logEvents L) + 1)"
    "previousEventHash e = endHash zeroHash (logEvents L)" "streamVersion e = dec (subjectCount (logEvents L) (subject d) + 1)"
    by (auto simp: l linked_append versionsOk_snoc)
  with e l show ?thesis by (auto simp: capturedOk_def)
qed

theorem append_captures_witness:
  "\<exists>L'. append testRealm (NInt 5) (draft_json sampleDraft) emptyLog = Inr (L', \<lparr>resultEvent = sampleEvent, resultDisposition = Appended\<rparr>) \<and>
     position sampleEvent = dec 1"
proof -
  have "isEpochMs (NInt 5)" "providerEvents emptyLog k = None" "logEvents emptyLog = []" for k
    by (simp_all add: isEpochMs_def isSafeInteger_def MAX_SAFE_INTEGER_def emptyLog_def)
  with append_captures [OF testRealm_env wf_emptyLog sampleDraft_valid, of "NInt 5"] sample_append show ?thesis by auto
qed

text \<open>
  C11. A draft from a provider record the log already holds never changes the log: the identical
  draft is reported as a redelivery of the stored event, and a different one is refused, with an
  error that tells changed content from changed metadata.
\<close>

theorem append_redelivers:
  assumes "node_env X" "wf_log X L" "validateEventDraft X v = Inr d" "providerEvents L (keyOf X (eventProvider d)) = Some e"
  shows "append X now v L =
    (if draftFromStored e = d then Inr (L, \<lparr>resultEvent = e, resultDisposition = Redelivery\<rparr>)
     else if artifactHash (eventProvider e) \<noteq> artifactHash (eventProvider d)
     then Inl (PlainError ''changed content without a new revision'')
     else Inl (PlainError ''Provider redelivery metadata conflicts''))"
  by (rule node_env.append_redelivery [OF assms])

theorem append_redelivers_witness:
  "append testRealm (NInt 9) (draft_json sampleDraft) sampleLog = Inr (sampleLog, \<lparr>resultEvent = sampleEvent, resultDisposition = Redelivery\<rparr>)"
proof -
  have "eventProvider sampleEvent = eventProvider sampleDraft" by (simp add: sample_defs)
  then have "providerEvents sampleLog (keyOf testRealm (eventProvider sampleDraft)) = Some sampleEvent"
    by (simp add: sampleLog_def pushEvent_def)
  from append_redelivers [OF testRealm_env wf_sampleLog sampleDraft_valid this, of "NInt 9"] show ?thesis
    by (simp add: draftFromStored_sample)
qed

text \<open>
  A log whose events can be verified is reopened unchanged as a captured replay log, and every
  read of the replay log gives the page the live log gives: the requested number of events after the
  given position, the position to continue from, and whether more follow.
\<close>

theorem captured_roundtrip:
  assumes "node_env X" "liveLog X L" "1 \<le> k" "k \<le> 10000"
  shows "newCapturedEventLog X (logEvents L) = Inr (logEvents L) \<and>
    readAfter (memoryReader L) (dec n) (NInt (int k)) = Inr (pageOf (logEvents L) n k) \<and>
    readAfter (capturedReader (logEvents L)) (dec n) (NInt (int k)) = Inr (pageOf (logEvents L) n k)"
proof -
  from assms(2) have wf: "wf_log X L" and ver: "verifiable X (logEvents L)" by (simp_all add: liveLog_def)
  have "map canonE (logEvents L) = logEvents L"
    using wf_log_facts(1) [OF wf] by (auto simp: list_all_iff capturedOk_def intro: map_idI)
  with ver wf_log_facts(3) [OF wf] have "newCapturedEventLog X (logEvents L) = Inr (logEvents L)"
    by (simp add: node_env.newCapturedEventLog_Inr [OF assms(1)] verifiable_def)
  with memory_log.read_law [OF wf assms(3,4)] captured_log.read_law [OF wf_log_replayable [OF wf] assms(3,4)] show ?thesis by simp
qed

theorem captured_roundtrip_witness:
  "newCapturedEventLog testRealm [sampleEvent] = Inr [sampleEvent] \<and>
   readAfter (memoryReader sampleLog) (dec 0) (NInt 1) = readAfter (capturedReader [sampleEvent]) (dec 0) (NInt 1)"
  using captured_roundtrip [OF testRealm_env sample_liveLog, of 1 0] by simp

text \<open>
  C12. The event a capture stores passes the verification every reader performs exactly when the
  stored envelope, with the fields the log has added to the draft, is still within the envelope
  limits. Capture itself checks only the draft.
\<close>

theorem captured_event_verifiable:
  assumes "node_env X" "wf_log X L" "protoSafe X EVENT_SCHEMA_FIELDS"
    and "append X now v L = Inr (L', \<lparr>resultEvent = e, resultDisposition = Appended\<rparr>)"
  shows "verifyStoredEvent X e (Some (endHash zeroHash (logEvents L))) = Inr () \<longleftrightarrow> within_limits EVENT_ENVELOPE_LIMITS (stored_json e)"
proof -
  obtain d where v: "validateEventDraft X v = Inr d" using assms(4) by (auto simp: append_def result_simps)
  have fresh: "providerEvents L (keyOf X (eventProvider d)) = None"
  proof (cases "providerEvents L (keyOf X (eventProvider d))")
    case (Some e')
    with node_env.append_redelivery [OF assms(1,2) v Some, of now] assms(4) show ?thesis by (auto split: if_splits)
  qed
  have "isEpochMs now" using assms(4) v fresh
    by (auto simp: append_def result_simps providerKey_Inr captureEvent_def assertTrustedTime_def)
  then obtain e' where e': "append X now v L = Inr (pushEvent X e' L, \<lparr>resultEvent = e', resultDisposition = Appended\<rparr>)"
    "wf_log X (pushEvent X e' L)" "capturedOk X e'"
    by (rule node_env.append_fresh [OF assms(1,2) v fresh])
  have e: "e' = e" using e'(1) assms(4) by simp
  have "previousEventHash e = endHash zeroHash (logEvents L)"
    using wf_log_facts(2) [OF e'(2)] by (simp add: pushEvent_def linked_append e)
  with assms(3) e'(3) e capturedOk_wf [OF e'(3)] show ?thesis
    by (auto simp: node_env.verifyStoredEvent_Inr [OF assms(1)] capturedOk_def)
qed

theorem captured_event_verifiable_witness: "verifyStoredEvent testRealm sampleEvent (Some (endHash zeroHash (logEvents emptyLog))) = Inr ()"
  using captured_event_verifiable [OF testRealm_env wf_emptyLog testRealm_safe sample_append] sampleEvent_limits by simp


section \<open>Runs\<close>

text \<open>
  A run registration derived from a manifest passes its own validator unchanged, and effects
  are allowed only for live runs.
\<close>

theorem registration_roundtrip:
  assumes "node_env X" "deriveRunRegistration X v = Inr r"
  shows "validateRunRegistration X (registration_json r) = Inr r \<and> (effectsAllowed (manifest r) \<longrightarrow> kind (manifest r) = Live)"
proof -
  note d = node_env.derived_manifest [OF assms]
  have "validateRunRegistration X (registration_json (registrationOf X (manifest r))) = Inr (registrationOf X (manifest r))"
    by (rule node_env.validateRunRegistration_Inr [OF assms(1) d(4,1)])
  with d(1,2) show ?thesis by (simp add: wf_manifest_def)
qed

theorem registration_roundtrip_witness:
  "validateRunRegistration testRealm (registration_json (registrationOf testRealm sampleManifest)) = Inr (registrationOf testRealm sampleManifest)"
  using registration_roundtrip [OF testRealm_env node_env.derive_wf_manifest [OF testRealm_env wf_sampleManifest testRealm_safe]] by simp

end
