(* ===== verification/ReplayLaws.thy ===== *)
theory ReplayLaws
  imports Replay
begin

text \<open>
  Replay against live processing. The live run works on a store that may hold other runs as well; the
  replay of the captured log works on an empty store. \<open>reproduces\<close> is the simulation between the two:
  both stores hold the same history of the run, and the second one no output of another run. Processing
  the next event keeps it, so that a replay returns with the same cursor, checkpoints and outputs.
\<close>

section \<open>The simulation\<close>

definition reproduces ::
  "externals \<Rightarrow> StoredEvent list \<Rightarrow> DeterministicProcessor \<Rightarrow> InMemoryProcessingStore \<Rightarrow> InMemoryProcessingStore \<Rightarrow> nat \<Rightarrow> bool" where
  "reproduces X es P S T n \<longleftrightarrow> initialized P \<and> n \<le> length es \<and>
     (let run = runId (manifest (registration P)) in
      runs S run = Some (registration P) \<and> runs T run = Some (registration P) \<and>
      (\<forall>q\<in>set (outputs T). outRunId q = run) \<and>
      (\<exists>h g. represents X S h \<and> represents X T g \<and> g run = h run \<and> map commitEvent (h run) = take n es))"

lemma reproducesI:
  assumes "initialized P" "runId (manifest (registration P)) = run" "n \<le> length es" "runs S run = Some (registration P)"
    "runs T run = Some (registration P)" "\<And>q. q \<in> set (outputs T) \<Longrightarrow> outRunId q = run" "represents X S h" "represents X T g"
    "g run = h run" "map commitEvent (h run) = take n es"
  shows "reproduces X es P S T n"
  using assms unfolding reproduces_def Let_def by blast

lemma reproduces_ready: "reproduces X es P S T n \<Longrightarrow> ready X es (P, S) n \<and> ready X es (P, T) n"
  by (auto simp: reproduces_def ready_def Let_def)

text \<open>What the store knows of a run, without the numbers its outputs have among the outputs of all runs.\<close>

definition runView :: "InMemoryProcessingStore \<Rightarrow> jsstring \<Rightarrow>
    RunCursor option \<times> (jsstring \<Rightarrow> AggregateCheckpoint option) \<times> ImmutableOutput list" where
  "runView S run = (cursors S run, mapGet (aggregates S) run,
     map ImmutableOutput.truncate (filter (\<lambda>q. outRunId q = run) (outputs S)))"

lemma runView_history:
  assumes "represents X S h" "represents X T g" "g run = h run"
  shows "runView S run = runView T run"
  using assms represents_facts(4,5,7) [OF assms(1), of run] represents_facts(4,5,7) [OF assms(2), of run]
  by (auto simp: runView_def)

lemma reproduces_view: "reproduces X es P S T n \<Longrightarrow> runView S (runId (manifest (registration P))) = runView T (runId (manifest (registration P)))"
  by (auto simp: reproduces_def Let_def intro: runView_history)

text \<open>Every delivery key of the second store is a delivery key of the first.\<close>

lemma dedupe_subset:
  assumes "represents X S h" "represents X T g" "g run = h run" "\<forall>q\<in>set (outputs T). outRunId q = run"
    and "dedupeKeys T k = Some i"
  shows "dedupeKeys S k = Some i"
proof -
  from represents_facts(9) [OF assms(2)] assms(5) obtain q where q: "q \<in> set (outputs T)" "category q \<noteq> DecisionOutput"
      "dedupeOf X q = k" "outputId q = i" unfolding dedupeOk_def by blast
  have "ImmutableOutput.truncate q \<in> ImmutableOutput.truncate ` set (filter (\<lambda>q. outRunId q = run) (outputs T))"
    using q(1) assms(4) by simp
  also have "\<dots> = ImmutableOutput.truncate ` set (filter (\<lambda>q. outRunId q = run) (outputs S))"
    using represents_facts(7) [OF assms(1), of run] represents_facts(7) [OF assms(2), of run] assms(3) by (metis list.set_map)
  finally obtain p where p: "p \<in> set (outputs S)" "ImmutableOutput.truncate q = ImmutableOutput.truncate p" by auto
  then have "category p \<noteq> DecisionOutput" "dedupeOf X p = k" "outputId p = i"
    using q(2-4) by (metis truncate_fields(3), metis truncate_fields(7), metis truncate_fields(1))
  with p(1) represents_facts(9) [OF assms(1)] show ?thesis unfolding dedupeOk_def by blast
qed

lemma noConflict_subset:
  assumes "noConflict X S qs" "\<And>k i. dedupeKeys T k = Some i \<Longrightarrow> dedupeKeys S k = Some i"
  shows "noConflict X T qs"
  unfolding noConflict_def
proof (intro ballI impI)
  fix q assume "q \<in> set qs" "category q \<noteq> DecisionOutput"
  with assms(1) have "dedupeKeys S (dedupeOf X q) \<in> {None, Some (outputId q)}" by (simp add: noConflict_def)
  with assms(2) show "dedupeKeys T (dedupeOf X q) \<in> {None, Some (outputId q)}"
    by (cases "dedupeKeys T (dedupeOf X q)") fastforce+
qed

context node_env
begin

lemma accepts_transfer:
  assumes acc: "accepts X log v S r c" and run: "runs T run = Some r" "cursorRunId (commitCursor c) = run"
    and rep: "represents X S h" "represents X T g" "g run = h run" "\<forall>q\<in>set (outputs T). outRunId q = run"
  shows "accepts X log v T r c"
proof -
  note a = acc [unfolded accepts_def run(2)]
  then have s: "runs S run = Some r" by blast
  have "previousOf X T r = previousOf X S r"
    unfolding previousOf_history [OF rep(2) run(1)] previousOf_history [OF rep(1) s] rep(3) ..
  moreover have "nextVersion T run i = nextVersion S run i" for i
    unfolding nextVersion_history [OF rep(2) run(1)] nextVersion_history [OF rep(1) s] rep(3) ..
  moreover have "noConflict X T (commitOutputs c)"
  proof (rule noConflict_subset)
    show "noConflict X S (commitOutputs c)" using a by (elim conjE)
  qed (rule dedupe_subset [OF rep])
  ultimately show ?thesis using a run by (simp add: accepts_def)
qed

lemma committed_outputs_run:
  assumes acc: "accepts X log v T r c" and "cursorRunId (commitCursor c) = run" "\<forall>q\<in>set (outputs T). outRunId q = run"
  shows "\<forall>q\<in>set (outputs (committed X r c T)). outRunId q = run"
proof -
  have w: "wf_commit X c" "canonC c = c" "commitSound X r c"
    using acc validateProcessingCommit_wf [of v c] by (simp_all add: accepts_def)
  have "list_all (committable X run) (commitOutputs c)" using sound_committable(1) [OF w(1,3)] assms(2) by simp
  then have own: "\<forall>q\<in>set (commitOutputs c). outRunId q = run" by (simp add: list_all_iff committable_def)
  have "map canonO (commitOutputs c) = commitOutputs c" using w(2) by (metis canonC_fields(5))
  from pending_members(2) [OF this] own have "outRunId q = run"
    if "q \<in> set (pendingOutputs (pendingOf X (length (outputs T)) (commitOutputs c)))" for q
    using that truncate_fields(2) [of q] by metis
  with assms(3) show ?thesis by (auto simp: committed_fields)
qed

lemma produceCommit_same:
  assumes "represents X S h" "represents X T g" "g run = h run" "run = runId (manifest (registration P))"
    and "runs S run = Some r" "runs T run = Some r" "protoSafe X PROCESSOR_SCHEMA_FIELDS"
  shows "produceCommit X P T k e = produceCommit X P S k e"
proof -
  have "loadAggregate X run i T = loadAggregate X run i S" if "aggregate_id i" for i
    using loadAggregate_represents [OF assms(1,7,5) that] loadAggregate_represents [OF assms(2,7,6) that] assms(3) by simp
  then show ?thesis unfolding produceCommit_def assms(4)
    by (intro bindR_cong refl) (auto simp: bindR_eq_Inr split: if_splits)
qed

end


section \<open>One event and many\<close>

context processing
begin

lemma process_reproduces:
  assumes inv: "inv l" and sim: "reproduces X (contents l) P S T n" and n: "n < length (contents l)"
    and p: "process X (reader l) (stored_json (contents l ! n)) (P, S) = (PS, Inr k)"
  shows "\<exists>S' T'. PS = (P, S') \<and> process X (reader l) (stored_json (contents l ! n)) (P, T) = ((P, T'), Inr k) \<and>
    reproduces X (contents l) P S' T' (n + 1)"
proof -
  let ?es = "contents l" and ?r = "registration P"
  let ?run = "runId (manifest ?r)"
  from sim obtain h g where s: "initialized P" "runs S ?run = Some ?r" "runs T ?run = Some ?r"
      "\<forall>q\<in>set (outputs T). outRunId q = ?run" "represents X S h" "represents X T g" "g ?run = h ?run"
      "map commitEvent (h ?run) = take n ?es" by (auto simp: reproduces_def Let_def)
  note ready = reproduces_ready [OF sim, THEN conjunct1] reproduces_ready [OF sim, THEN conjunct2]
  have cur: "previousOf X T ?r = previousOf X S ?r"
    using previousOf_history [OF s(6,3)] previousOf_history [OF s(5,2)] s(7) by simp
  have same: "produceCommit X P T (previousOf X S ?r) (?es ! n) = produceCommit X P S (previousOf X S ?r) (?es ! n)"
    by (rule produceCommit_same [OF s(5-7) refl s(2,3) safe(2) [OF inv]])
  have plan: "planProcess X (reader l) (stored_json (?es ! n)) P T = planProcess X (reader l) (stored_json (?es ! n)) P S"
    using plan_next [OF inv ready(1) n] plan_next [OF inv ready(2) n] by (simp add: cur same)
  have produced: "planProcess X (reader l) (stored_json (?es ! n)) P S = Inr q \<Longrightarrow>
      \<exists>c. produceCommit X P S (previousOf X S ?r) (?es ! n) = Inr c \<and> q = Produce c" for q
    using plan_next [OF inv ready(1) n] by (auto simp: bindR_eq_Inr Inr_eq_bindR split: if_splits)
  from p obtain c where c: "produceCommit X P S (previousOf X S ?r) (?es ! n) = Inr c" "k = commitCursor c" "fst PS = P"
      "planProcess X (reader l) (stored_json (?es ! n)) P S = Inr (Produce c)"
      "commit X (reader l) (commit_json c) S = (snd PS, Inr ())"
    unfolding process_initialized [OF s(1)] by (auto split: sum.splits Plan.splits prod.splits dest!: produced)
  from c(5) obtain c' r' where acc: "accepts X (reader l) (commit_json c) S r' c'" "snd PS = committed X r' c' S"
    by (auto simp: commit_Inr)
  then have c': "c' = canonC c" by (simp add: accepts_def validateProcessingCommit_json)
  have e: "commitEvent c' = ?es ! n" "cursorRunId (commitCursor c') = ?run"
    using produceCommit_fields [OF c(1)] event_at(3) [OF inv n] by (simp_all add: c')
  have r': "r' = ?r" using acc(1) s(2) e(2) by (simp add: accepts_def)
  have accT: "accepts X (reader l) (commit_json c) T ?r c'"
    by (rule accepts_transfer [OF acc(1) [unfolded r'] s(3) e(2) s(5-7,4)])
  then have "commit X (reader l) (commit_json c) T = (committed X ?r c' T, Inr ())" by (auto simp: commit_Inr)
  then have "process X (reader l) (stored_json (?es ! n)) (P, T) = ((P, committed X ?r c' T), Inr k)"
    unfolding process_initialized [OF s(1)] plan c(4) c(2) by simp
  moreover have "map commitEvent (h ?run @ [c']) = take (n + 1) ?es"
    using s(8) e(1) n by (simp add: take_Suc_conv_app_nth)
  then have "reproduces X ?es P (committed X ?r c' S) (committed X ?r c' T) (n + 1)"
    using s(1-3,7) n committed_outputs_run [OF accT e(2) s(4)]
    by (intro reproducesI [OF _ _ _ _ _ _ commit_refines [OF s(5) acc(1) [unfolded r']] commit_refines [OF s(6) accT], where run = ?run])
      (simp_all add: committed_fields(1) e(2))
  moreover have "PS = (P, committed X ?r c' S)" using acc(2) c(3) r' by (cases PS) simp
  ultimately show ?thesis by blast
qed

lemma processEvents_reproduces:
  assumes "inv l" "reproduces X (contents l) P S T n"
    and "processEvents X (reader l) (drop n (contents l)) k (P, S) = (PS, Inr k')"
  shows "\<exists>S' T'. PS = (P, S') \<and> processEvents X (reader l) (drop n (contents l)) k (P, T) = ((P, T'), Inr k') \<and>
    reproduces X (contents l) P S' T' (length (contents l))"
  using assms(2,3)
proof (induction "length (contents l) - n" arbitrary: n k S T)
  case 0
  then show ?case by (auto simp: reproduces_def)
next
  case (Suc m)
  let ?es = "contents l"
  have n: "n < length ?es" using Suc.hyps(2) by simp
  have d: "drop n ?es = ?es ! n # drop (n + 1) ?es" using n by (simp add: Cons_nth_drop_Suc)
  from Suc.prems(2) obtain PS1 k1 where p: "process X (reader l) (stored_json (?es ! n)) (P, S) = (PS1, Inr k1)"
      "processEvents X (reader l) (drop (n + 1) ?es) k1 PS1 = (PS, Inr k')"
    unfolding d by (auto split: prod.splits sum.splits)
  from process_reproduces [OF assms(1) Suc.prems(1) n p(1)] obtain S1 T1 where
    s: "PS1 = (P, S1)" "process X (reader l) (stored_json (?es ! n)) (P, T) = ((P, T1), Inr k1)" "reproduces X ?es P S1 T1 (n + 1)"
    by blast
  have "m = length ?es - (n + 1)" using Suc.hyps(2) by simp
  from Suc.hyps(1) [OF this s(3) p(2) [unfolded s(1)]] show ?case unfolding d using s(2) by auto
qed

end


section \<open>Replay of a captured log\<close>

context node_env
begin

lemma live_recaptured:
  assumes "liveLog X L"
  shows "newCapturedEventLog X (logEvents L) = Inr (logEvents L)" "replayLog X (logEvents L)"
proof -
  from assms have wf: "wf_log X L" and ver: "verifiable X (logEvents L)" by (simp_all add: liveLog_def)
  have "map canonE (logEvents L) = logEvents L"
    using wf_log_facts(1) [OF wf] by (auto simp: list_all_iff capturedOk_def intro: map_idI)
  with ver wf_log_facts(3) [OF wf] show "newCapturedEventLog X (logEvents L) = Inr (logEvents L)"
    by (simp add: newCapturedEventLog_Inr verifiable_def)
  show "replayLog X (logEvents L)" using ver wf_log_replayable [OF wf] by (simp add: replayLog_def)
qed

lemma initialize_fresh:
  assumes "newProcessor X red v = Inr P" "represents X S h" "runs S (runId (manifest (registration P))) = None"
  shows "initialize X (P, S) = Inr (P\<lparr>initialized := True\<rparr>, S\<lparr>runs := (runs S)(runId (manifest (registration P)) \<mapsto> registration P)\<rparr>)"
    "represents X (S\<lparr>runs := (runs S)(runId (manifest (registration P)) \<mapsto> registration P)\<rparr>) h" "h (runId (manifest (registration P))) = []"
proof -
  note p = newProcessor_Inr [OF assms(1)]
  let ?r = "registration P"
  have v: "validateRunRegistration X (registration_json ?r) = Inr ?r"
    using validateRunRegistration_Inr [OF p(6,4)] p(5) by metis
  have e: "ensureRun X (registration_json ?r) S = Inr (S\<lparr>runs := (runs S)(runId (manifest ?r) \<mapsto> ?r)\<rparr>)"
    using ensureRun_eq [OF represents_facts(1) [OF assms(2)] v] assms(3) by simp
  show "h (runId (manifest ?r)) = []" using represents_facts(2) [OF assms(2)] assms(3) by blast
  show "represents X (S\<lparr>runs := (runs S)(runId (manifest ?r) \<mapsto> ?r)\<rparr>) h" by (rule ensureRun_refines [OF assms(2) e])
  show "initialize X (P, S) = Inr (P\<lparr>initialized := True\<rparr>, S\<lparr>runs := (runs S)(runId (manifest ?r) \<mapsto> ?r)\<rparr>)"
    using p(3) e by (simp add: initialize_def)
qed

lemma available_reproduced:
  assumes live: "liveLog X L" and P: "newProcessor X red v = Inr P" and S: "represents X S h"
    and fresh: "runs S (runId (manifest (registration P))) = None"
    and sizes: "1 \<le> s" "s \<le> 10000" "1 \<le> t" "t \<le> 10000"
    and fin: "processAvailable X (memoryReader L) (NInt (int s)) (P, S) = Some ((P', S'), Inr k)"
  shows "\<exists>T. processAvailable X (capturedReader (logEvents L)) (NInt (int t)) (P, emptyStore) = Some ((P', T), Inr k) \<and>
    runView T (runId (manifest (registration P))) = runView S' (runId (manifest (registration P))) \<and>
    (\<forall>q\<in>set (outputs T). outRunId q = runId (manifest (registration P)))"
proof -
  let ?run = "runId (manifest (registration P))" and ?es = "logEvents L" and ?P = "P\<lparr>initialized := True\<rparr>"
  let ?add = "\<lambda>S. S\<lparr>runs := (runs S)(?run \<mapsto> registration P)\<rparr>"
  note env = node_env_axioms
  note i = initialize_fresh [OF P S fresh]
  have "runs emptyStore ?run = None" by (simp add: emptyStore_def)
  note j = initialize_fresh [OF P represents_empty this]
  have sim: "reproduces X ?es ?P (?add S) (?add emptyStore) 0"
    by (rule reproducesI [OF _ _ _ _ _ _ i(2) j(2), where run = ?run]) (simp_all add: i(3) emptyStore_def)
  note ready = reproduces_ready [OF sim]
  have wf: "wf_log X L" using live by (simp add: liveLog_def)
  note a = processing.available_eq_events [OF processing_memory [OF env] live i(1) ready [THEN conjunct1] sizes(1,2)]
  note b = processing.available_eq_events [OF processing_captured [OF env] live_recaptured(2) [OF live] j(1) ready [THEN conjunct2] sizes(3,4)]
  have cur: "currentCursor X (?P, ?add emptyStore) = currentCursor X (?P, ?add S)"
    using reproduces_view [OF sim] by (simp add: runView_def previousOf_def)
  from fin a have "processEvents X (memoryReader L) (drop 0 ?es) (currentCursor X (?P, ?add S)) (?P, ?add S) = ((P', S'), Inr k)" by simp
  from processing.processEvents_reproduces [OF processing_memory [OF env] live sim this]
  obtain T where T: "P' = ?P" "processEvents X (memoryReader L) (drop 0 ?es) (currentCursor X (?P, ?add S)) (?P, ?add emptyStore) = ((?P, T), Inr k)"
    "reproduces X ?es ?P S' T (length ?es)" by auto
  then have "processAvailable X (capturedReader ?es) (NInt (int t)) (P, emptyStore) = Some ((P', T), Inr k)"
    using b same_events [OF logs_same_reads [OF wf]] cur by simp
  moreover have "\<forall>q\<in>set (outputs T). outRunId q = ?run" using T(3) by (simp add: reproduces_def Let_def)
  ultimately show ?thesis using reproduces_view [OF T(3)] by auto
qed

end

end
