(* ===== verification/ProcessingProperties.thy ===== *)
theory ProcessingProperties
  imports ScenarioRun ReplayLaws
begin

text \<open>
  Properties of the processing store and the deterministic processor: what a commit does, what a
  store reached by any sequence of calls contains, and how a processor moves through a log.
\<close>

section \<open>The store\<close>

text \<open>
  C13. The transition check of a commit accepts exactly the commits that validate at the boundary,
  are internally sound for the registered run, and follow the run's current cursor: next position,
  linked event hash, no step back in logical time, and the two running heads recomputed.
\<close>

theorem verifyProcessingTransition_exact:
  assumes "node_env X"
  shows "verifyProcessingTransition X v r p = Inr c \<longleftrightarrow>
    validateProcessingCommit X v = Inr c \<and> commitSound X r c \<and> cursorSound X r p \<and> follows X p c"
  by (rule node_env.verifyProcessingTransition_Inr [OF assms])

theorem verifyProcessingTransition_exact_witness:
  "verifyProcessingTransition testRealm (commit_json sampleCommit) (registrationOf testRealm sampleManifest)
     (genesisOf testRealm (registrationOf testRealm sampleManifest)) = Inr sampleCommit"
  using verifyProcessingTransition_exact [OF testRealm_env] sample_accepts by (simp add: accepts_def sample_cursor)

text \<open>
  C14. A commit is all or nothing: either the commit is acceptable (it validates, its event is the
  persisted one, it follows the run's cursor, its aggregate version is the next one and no output
  reuses a delivery key), and then the store moves to the state with exactly that commit applied, or
  it is refused with an error and the store is unchanged.
\<close>

theorem commit_all_or_nothing:
  assumes "node_env X"
  shows "(\<exists>r c. accepts X log v S r c \<and> commit X log v S = (committed X r c S, Inr ())) \<or>
    (\<exists>e. (\<forall>r c. \<not> accepts X log v S r c) \<and> commit X log v S = (S, Inl e))"
proof (cases "commit X log v S")
  case (Pair S' res)
  show ?thesis
  proof (cases res)
    case (Inl e)
    then have "S' = S" using node_env.commit_atomic [OF assms] Pair by blast
    moreover have "\<not> accepts X log v S r c" for r c
      using node_env.commit_Inr [OF assms, of log v S "committed X r c S"] Pair Inl by auto
    ultimately show ?thesis using Pair Inl by blast
  next
    case (Inr u)
    then show ?thesis using node_env.commit_Inr [OF assms, of log v S S'] Pair by auto
  qed
qed

theorem commit_all_or_nothing_witness:
  "(\<exists>r c. accepts testRealm (memoryReader sampleLog) (commit_json sampleCommit) runStore r c) \<and>
   commit testRealm (memoryReader sampleLog) (commit_json sampleCommit) runStore = (committedStore, Inr ())"
  using commit_all_or_nothing [OF testRealm_env, of "memoryReader sampleLog" "commit_json sampleCommit" runStore] sample_accepts sample_committed
  by auto

text \<open>
  C15. The store refines an abstract history that keeps, for every run, the list of its commits: an
  accepted commit appends one commit to the history of its run and to no other, and the cursors,
  aggregates, outputs, delivery keys and dispatch queues of the store are the ones this history
  determines.
\<close>

theorem commit_refines_history:
  assumes "node_env X" "represents X S h" "commit X log v S = (S', Inr ())"
  shows "\<exists>r c. accepts X log v S r c \<and> represents X S' (h(cursorRunId (commitCursor c) := h (cursorRunId (commitCursor c)) @ [c]))"
proof -
  obtain r c where c: "accepts X log v S r c" "S' = committed X r c S"
    using assms(3) node_env.commit_Inr [OF assms(1), of log v S S'] by blast
  with node_env.commit_refines [OF assms(1,2) c(1)] show ?thesis by blast
qed

theorem commit_refines_history_witness:
  "\<exists>c. represents testRealm committedStore ((\<lambda>_. [])(cursorRunId (commitCursor c) := [c]))"
  using commit_refines_history [OF testRealm_env sample_represents sample_committed] by auto

text \<open>
  Registering a run is idempotent: an unknown run is recorded, the same registration again
  changes nothing, and a different registration under the same identifier is refused.
\<close>

theorem ensureRun_idempotent:
  assumes "node_env X" "runsOk X S" "validateRunRegistration X v = Inr r"
  shows "ensureRun X v S =
    (case runs S (runId (manifest r)) of
       None \<Rightarrow> Inr (S\<lparr>runs := (runs S)(runId (manifest r) \<mapsto> r)\<rparr>)
     | Some q \<Rightarrow> if q = r then Inr S else Inl (PlainError ''Run is already registered differently''))"
  by (rule node_env.ensureRun_eq [OF assms])

theorem ensureRun_idempotent_witness:
  "ensureRun testRealm (registration_json (registrationOf testRealm sampleManifest)) runStore = Inr runStore"
proof -
  have "runsOk testRealm runStore" using sample_represents by (simp add: represents_def)
  from ensureRun_idempotent [OF testRealm_env this node_env.validateRunRegistration_Inr [OF testRealm_env testRealm_safe wf_sampleManifest]]
  show ?thesis by (simp add: runStore_def)
qed

text \<open>
  C16. In every state a deployment can reach by appending events, registering runs and committing,
  in any order, the log is well formed and every run has processed exactly a prefix of the log: its
  commits are for the first events of the log, in order and without gaps, and its cursor stands at
  the last of them.
\<close>

theorem reachable_prefix:
  assumes "node_env X" "reachable X L S"
  shows "wf_log X L \<and> (\<exists>h. represents X S h \<and>
    (\<forall>run. map commitEvent (h run) = take (length (h run)) (logEvents L) \<and> length (h run) \<le> length (logEvents L) \<and>
      cursors S run = (if h run = [] then None else Some (commitCursor (last (h run))))))"
proof -
  from node_env.reachable_deployed [OF assms] obtain h where h: "wf_log X L" "represents X S h" "Deployment.prefixes L h"
    by (auto simp: deployed_def)
  with represents_facts(4) [OF h(2)] show ?thesis unfolding Deployment.prefixes_def by blast
qed

theorem reachable_prefix_witness:
  "reachable testRealm sampleLog committedStore \<and> wf_log testRealm sampleLog \<and> (\<exists>h. represents testRealm committedStore h)"
  using reachable_prefix [OF testRealm_env committed_reachable] committed_reachable by blast

lemma dispatch_sources:
  assumes "node_env X" "reachable X L S" "i \<in> set (dispatchableJobs S) \<union> set (dispatchableOutbox S)"
  shows "\<exists>q\<in>set (outputs S). outputId q = i \<and> category q \<noteq> DecisionOutput \<and> liveRun S (outRunId q)"
proof -
  from node_env.reachable_deployed [OF assms(1,2)] obtain h where h: "represents X S h" by (auto simp: deployed_def)
  from represents_facts(10) [OF h] assms(3) show ?thesis by (auto simp: dispatchOk_def)
qed

text \<open>
  C17. In every reachable state a job or message that is queued for dispatch was committed as an
  output of a run that is registered as live with effects allowed, and is queued once. Replay,
  shadow, research and paper runs never queue anything.
\<close>

theorem dispatch_only_live:
  assumes "node_env X" "reachable X L S" "i \<in> set (dispatchableJobs S) \<union> set (dispatchableOutbox S)"
  shows "distinct (dispatchableJobs S) \<and> distinct (dispatchableOutbox S) \<and>
    (\<exists>q\<in>set (outputs S). outputId q = i \<and> category q \<noteq> DecisionOutput \<and>
      (\<exists>r. runs S (outRunId q) = Some r \<and> effectsAllowed (manifest r) \<and> kind (manifest r) = Live))"
proof -
  from node_env.reachable_deployed [OF assms(1,2)] obtain h where h: "represents X S h" by (auto simp: deployed_def)
  have d: "dispatchOk S" by (rule represents_facts(10) [OF h])
  from dispatch_sources [OF assms] obtain q where
    q: "q \<in> set (outputs S)" "outputId q = i" "category q \<noteq> DecisionOutput" "liveRun S (outRunId q)" by blast
  from q(4) obtain r where r: "runs S (outRunId q) = Some r" "effectsAllowed (manifest r)"
    by (auto simp: liveRun_def split: option.splits)
  have "kind (manifest r) = Live"
    using runsOk_run [OF represents_facts(1) [OF h] r(1)] r(2) by (simp add: wf_manifest_def)
  with q r d show ?thesis by (auto simp: dispatchOk_def)
qed

lemma sample_dispatched_job: "dispatchableJobs committedStore = [zeroDigest]"
  by (simp add: committed_def Let_def dispatch_def runStore_def emptyStore_def sampleCommit_def sampleCursor_def sampleAggregate_def
      sampleOutput_def setAdd_def)

theorem dispatch_only_live_witness:
  "dispatchableJobs committedStore = [zeroDigest] \<and> (\<exists>q\<in>set (outputs committedStore). outputId q = zeroDigest)"
  using dispatch_only_live [OF testRealm_env committed_reachable, of zeroDigest] sample_dispatched_job by auto

text \<open>
  C18. Delivery is deduplicated: in every reachable state two stored jobs or messages with the same
  run-scoped delivery key have the same output identifier, and the key index maps the key to it.
\<close>

theorem delivery_deduplicated:
  assumes "node_env X" "reachable X L S" "p \<in> set (outputs S)" "q \<in> set (outputs S)"
    and "category p \<noteq> DecisionOutput" "category q \<noteq> DecisionOutput" "dedupeOf X p = dedupeOf X q"
  shows "outputId p = outputId q \<and> dedupeKeys S (dedupeOf X p) = Some (outputId q)"
proof -
  from node_env.reachable_deployed [OF assms(1,2)] obtain h where "represents X S h" by (auto simp: deployed_def)
  from represents_facts(9) [OF this] have
    "dedupeKeys S (dedupeOf X p) = Some (outputId p)" "dedupeKeys S (dedupeOf X q) = Some (outputId q)"
    using assms(3-6) by (auto simp: dedupeOk_def)
  with assms(7) show ?thesis by simp
qed

theorem delivery_deduplicated_witness:
  "\<exists>q\<in>set (outputs committedStore). category q \<noteq> DecisionOutput \<and> dedupeKeys committedStore (dedupeOf testRealm q) = Some (outputId q)"
proof -
  obtain q where q: "q \<in> set (outputs committedStore)" "category q \<noteq> DecisionOutput"
    using dispatch_sources [OF testRealm_env committed_reachable, of zeroDigest] sample_dispatched_job by auto
  with delivery_deduplicated [OF testRealm_env committed_reachable q(1) q(1) q(2) q(2)] show ?thesis by blast
qed


section \<open>The processor\<close>

text \<open>
  Processing an event the run has already processed changes nothing and returns the current
  cursor.
\<close>

theorem process_idempotent:
  assumes "node_env X" "liveLog X L" "ready X (logEvents L) PS n" "i < n"
  shows "process X (memoryReader L) (stored_json (logEvents L ! i)) PS = (PS, Inr (currentCursor X PS))"
  by (rule processing.process_again [OF processing_memory [OF assms(1)] assms(2-4)])

theorem process_idempotent_witness:
  "process testRealm (memoryReader sampleLog) (stored_json sampleEvent) (readyProcessor, committedStore) =
     ((readyProcessor, committedStore), Inr (currentCursor testRealm (readyProcessor, committedStore)))"
  using process_idempotent [OF testRealm_env sample_liveLog, of "(readyProcessor, committedStore)" 1 0] committed_ready by simp

lemma ready_time:
  assumes "wf_log X L" "ready X (logEvents L) PS n" "n < length (logEvents L)"
  shows "cursorLogicalAtMs (currentCursor X PS) \<le> logicalAtMs (logEvents L ! n)"
proof -
  let ?run = "runId (manifest (registration (fst PS)))" and ?r = "registration (fst PS)" and ?es = "logEvents L"
  obtain h where h: "runs (snd PS) ?run = Some ?r" "represents X (snd PS) h" "map commitEvent (h ?run) = take n ?es"
    using assms(2) by (auto simp: ready_def Let_def)
  have cur: "currentCursor X PS = endCursor (genesisOf X ?r) (h ?run)" by (rule previousOf_history [OF h(2,1)])
  have "chained X ?r (genesisOf X ?r) (h ?run)" using represents_facts(3) [OF h(2,1)] by simp
  note l = conjunct2 [OF chained_logical [OF this]]
  show ?thesis
  proof (cases "h ?run = []")
    case True
    have "storedOk (?es ! n)" using wf_log_facts(1) [OF assms(1)] assms(3) by (auto simp: list_all_length capturedOk_def)
    then show ?thesis using l by (simp add: cur True storedOk_def)
  next
    case False
    have pos: "0 < n" using arg_cong [OF h(3), of length] False by (cases n) auto
    have "commitEvent (last (h ?run)) = last (take n ?es)" using False h(3) by (metis last_map)
    also have "\<dots> = ?es ! (n - 1)" using pos assms(3) by (subst last_conv_nth) auto
    finally have "cursorLogicalAtMs (currentCursor X PS) = logicalAtMs (?es ! (n - 1))" using l False by (simp add: cur)
    also have "\<dots> \<le> logicalAtMs (?es ! n)"
      using sorted_nth_mono [OF wf_log_facts(4) [OF assms(1)], of "n - 1" n] assms(3) by simp
    finally show ?thesis .
  qed
qed

text \<open>
  C19. A processor that stands at position \<open>n\<close> of a live log makes progress: if its reducer
  produces a commit for the next event that fits the persisted limits, with distinct output
  identifiers and no delivery key in use, then processing that event succeeds, the store holds the
  commit, and the processor stands at position \<open>n + 1\<close>.
\<close>

theorem process_advances:
  assumes "node_env X" "liveLog X L" "ready X (logEvents L) PS n" "n < length (logEvents L)" "matched (fst PS)"
    and "produceCommit X (fst PS) (snd PS) (currentCursor X PS) (logEvents L ! n) = Inr c"
    and "wf_commit X c" "distinct (map outputId (commitOutputs c))" "noConflict X (snd PS) (commitOutputs c)"
  shows "\<exists>PS'. process X (memoryReader L) (stored_json (logEvents L ! n)) PS = (PS', Inr (commitCursor c)) \<and>
    snd PS' = committed X (registration (fst PS)) c (snd PS) \<and> ready X (logEvents L) PS' (n + 1)"
proof -
  have "wf_log X L" using assms(2) by (simp add: liveLog_def)
  from processing.process_succeeds [OF processing_memory [OF assms(1)] assms(2-6) ready_time [OF this assms(3,4)] assms(7-9)]
  have p: "process X (memoryReader L) (stored_json (logEvents L ! n)) PS =
      ((fst PS, committed X (registration (fst PS)) c (snd PS)), Inr (commitCursor c))" .
  with processing.process_next [OF processing_memory [OF assms(1)] assms(2-4) p] show ?thesis by simp
qed

theorem process_advances_witness:
  "\<exists>PS'. process testRealm (memoryReader sampleLog) (stored_json sampleEvent) (readyProcessor, runStore) = (PS', Inr sampleCursor) \<and>
     ready testRealm [sampleEvent] PS' 1"
  using process_advances [OF testRealm_env sample_liveLog, of "(readyProcessor, runStore)" 0 sampleCommit]
    sample_ready sample_matched sample_produced wf_sampleCommit sample_noConflict by auto

text \<open>
  C20. Catching up with a log always ends, and the page size does not matter: for every page size
  from 1 to 10000 \<open>processAvailable\<close> returns exactly what processing the remaining events one by
  one returns.
\<close>

theorem processAvailable_terminates:
  assumes "node_env X" "liveLog X L" "initialize X PS = Inr PS'" "ready X (logEvents L) PS' n" "1 \<le> s" "s \<le> 10000"
  shows "processAvailable X (memoryReader L) (NInt (int s)) PS =
    Some (processEvents X (memoryReader L) (drop n (logEvents L)) (currentCursor X PS') PS')"
  by (rule processing.available_eq_events [OF processing_memory [OF assms(1)] assms(2-6)])

theorem processAvailable_terminates_witness:
  "processAvailable testRealm (memoryReader sampleLog) (NInt 1) (sampleProcessor, emptyStore) =
     Some ((readyProcessor, committedStore), Inr sampleCursor)"
  using processAvailable_terminates [OF testRealm_env sample_liveLog sample_initialize, of 0 1] sample_ready sample_processed by simp

text \<open>
  C21. Replay reproduces a live run. Let a new processor catch up with a live log, on a store that may
  already hold any other runs, and end with the cursor \<open>k\<close>. Then the captured copy of the log is
  accepted, and the same processor on an empty store, with any page size, reads it to the end with the
  same cursor; the replay store holds the cursor, the checkpoint of every aggregate and, in the same
  order, the outputs the live run left in its store, and no other outputs. Sequence numbers are left
  out: they count the outputs of all runs of a store.
\<close>

theorem replay_reproduces:
  assumes "node_env X" "liveLog X L" "newProcessor X red v = Inr P" "represents X S h"
    and run: "runId (manifest (registration P)) = run" "runs S run = None"
    and "1 \<le> s" "s \<le> 10000" "1 \<le> t" "t \<le> 10000"
    and "processAvailable X (memoryReader L) (NInt (int s)) (P, S) = Some ((P', S'), Inr k)"
  shows "\<exists>es T. newCapturedEventLog X (logEvents L) = Inr es \<and>
    processAvailable X (capturedReader es) (NInt (int t)) (P, emptyStore) = Some ((P', T), Inr k) \<and>
    cursors T run = cursors S' run \<and> (\<forall>i. mapGet (aggregates T) run i = mapGet (aggregates S') run i) \<and>
    map ImmutableOutput.truncate (outputs T) = map ImmutableOutput.truncate (filter (\<lambda>q. outRunId q = run) (outputs S'))"
proof -
  from node_env.available_reproduced [OF assms(1-4) run(2) [folded run(1)] assms(7-11)] obtain T where
    T: "processAvailable X (capturedReader (logEvents L)) (NInt (int t)) (P, emptyStore) = Some ((P', T), Inr k)"
      "runView T run = runView S' run" "\<forall>q\<in>set (outputs T). outRunId q = run" unfolding run(1) by blast
  from T(3) have "filter (\<lambda>q. outRunId q = run) (outputs T) = outputs T" by simp
  with T(1,2) node_env.live_recaptured(1) [OF assms(1,2)] show ?thesis by (auto simp: runView_def)
qed

theorem replay_reproduces_witness:
  "\<exists>es T. newCapturedEventLog testRealm [sampleEvent] = Inr es \<and>
     processAvailable testRealm (capturedReader es) (NInt 7) (sampleProcessor, emptyStore) = Some ((readyProcessor, T), Inr sampleCursor) \<and>
     cursors T (js ''run'') = Some sampleCursor"
proof -
  have "processAvailable testRealm (memoryReader sampleLog) (NInt (int 1)) (sampleProcessor, emptyStore) =
      Some ((readyProcessor, committedStore), Inr sampleCursor)"
    using processing.available_eq_events [OF processing_memory [OF testRealm_env] sample_liveLog sample_initialize, of 0 1]
      sample_ready sample_processed by simp
  moreover have "runs emptyStore (js ''run'') = None" by (simp add: emptyStore_def)
  ultimately have "\<exists>es T. newCapturedEventLog testRealm (logEvents sampleLog) = Inr es \<and>
     processAvailable testRealm (capturedReader es) (NInt (int 7)) (sampleProcessor, emptyStore) = Some ((readyProcessor, T), Inr sampleCursor) \<and>
     cursors T (js ''run'') = cursors committedStore (js ''run'')"
    using replay_reproduces [OF testRealm_env sample_liveLog newProcessor_sample represents_empty runId_sample, of 1 7] by fastforce
  moreover have "cursors committedStore (js ''run'') = Some sampleCursor" by (simp add: committed_fields sampleCommit_def sampleCursor_def)
  ultimately show ?thesis by simp
qed

end
