(* ===== verification/ScenarioAcquisition.thy ===== *)
theory ScenarioAcquisition
  imports Scenario
begin

text \<open>
  A concrete acquisition: from its declaration through one dispatch to the retry delay, and the
  first entry of its journal.
\<close>

definition snapshotAt :: "AcquisitionState \<Rightarrow> int \<Rightarrow> int option \<Rightarrow> int option \<Rightarrow> AcquisitionMachineSnapshot" where
  "snapshotAt st now started pending =
     \<lparr>snapshotVersion = 1, requestIdentityHash = zeroDigest, acquisitionConfigurationHash = zeroDigest,
      marketAcquisitionJournalId = zeroDigest, runSessionNonce = js ''n'', currentState = st, laneDisabled = False,
      terminalReason = None, pageOrdinal = 0, pageAttemptsStarted = (case started of None \<Rightarrow> 0 | Some _ \<Rightarrow> 1),
      logicalPageIdentityHash = zeroDigest, attemptOrdinal = map_option (\<lambda>_. 0) started,
      attemptId = map_option (\<lambda>_. js ''mat1_'' @ zeroDigest) started,
      retrievalAttemptId = map_option (\<lambda>_. js ''rat1_'' @ zeroDigest) started, currentTokenHash = NO_TOKEN_HASH,
      currentContinuationBindingHash = None, consumedTokenHashes = [], pageChainHash = GENESIS_HASH,
      continuationAuthority = None,
      budgets = \<lparr>successfulPages = 0, verifiedBytes = 0, records = 0, normalizedFacts = 0,
        attempts = (case started of None \<Rightarrow> 0 | Some _ \<Rightarrow> 1)\<rparr>,
      quotaWindowEvidence = (case started of None \<Rightarrow> [] | Some t \<Rightarrow> [t]), acquisitionDeclaredMonotonicMs = 0,
      lastMonotonicMs = now, pendingRetryDelayMs = pending\<rparr>"

lemma acquisition_digests:
  "deriveLogicalPageIdentityHash testRealm zeroDigest 0 NO_TOKEN_HASH = Inr zeroDigest"
  "deriveAttemptControlIdentities testRealm zeroDigest 0 (js ''n'') =
     Inr \<lparr>derivedAttemptId = js ''mat1_'' @ zeroDigest, derivedRetrievalAttemptId = js ''rat1_'' @ zeroDigest\<rparr>"
proof -
  have s: "scalar NO_TOKEN_HASH" by code_simp
  have n: "js ''n'' \<noteq> []" "byteLength (js ''n'') = 1" by (simp_all add: sample_sizes)
  show "deriveLogicalPageIdentityHash testRealm zeroDigest 0 NO_TOKEN_HASH = Inr zeroDigest"
    using hash64_zeroDigest s zeroDigest_sizes(3)
    by (simp add: deriveLogicalPageIdentityHash_def bindR_eq_Inr logicalPage_json_def jint_def isSafeInteger_def MAX_SAFE_INTEGER_def)
  have "framedHash testRealm ''peas/market-acquisition-attempt-control/v1'' (attemptControl_json zeroDigest 0 (js ''n'')) = Inr zeroDigest"
    using zeroDigest_sizes(3) by (simp add: attemptControl_json_def jint_def scalar_js isSafeInteger_def MAX_SAFE_INTEGER_def)
  then show "deriveAttemptControlIdentities testRealm zeroDigest 0 (js ''n'') =
     Inr \<lparr>derivedAttemptId = js ''mat1_'' @ zeroDigest, derivedRetrievalAttemptId = js ''rat1_'' @ zeroDigest\<rparr>"
    using hash64_zeroDigest n
    by (simp add: deriveAttemptControlIdentities_def bindR_eq_Inr isSafeInteger_def MAX_SAFE_INTEGER_def MARKET_ACQUISITION_LIMITS_def)
qed

lemma snapshotAt_valid:
  assumes "st \<notin> set TERMINAL_STATES" "0 \<le> now" "isSafeInteger now" "\<forall>t. started = Some t \<longrightarrow> 0 \<le> t \<and> t \<le> now"
    "pred_option isSafeInteger pending"
  shows "validateSnapshot testRealm (snapshotAt st now started pending) = Inr ()"
proof -
  let ?s = "snapshotAt st now started pending"
  have l: "scalar NO_TOKEN_HASH" "scalar GENESIS_HASH" "scalar (js ''mat1_'' @ zeroDigest)" "scalar (js ''rat1_'' @ zeroDigest)"
    by code_simp+
  have t: "isSafeInteger t" if "started = Some t" for t
    using assms(3,4) that by (auto simp: isSafeInteger_def)
  have z: "isSafeInteger 0" "isSafeInteger 1" by (simp_all add: isSafeInteger_def MAX_SAFE_INTEGER_def)
  have v: "valid_json (snapshot_json ?s)"
    unfolding valid_snapshot_json
    using l t z assms(3,5) zeroDigest_sizes(3) by (cases started) (simp_all add: snapshotAt_def scalar_js budgets_json_def jint_def)
  have n: "js ''n'' \<noteq> []" by (simp add: js_simps)
  have q: "quotaEvidenceValid ?s"
    using assms(3,4) t by (cases started) (simp_all add: quotaEvidenceValid_def snapshotAt_def)
  have b: "assertBudgets ?s = Inr ()"
    using z by (cases started) (simp_all add: assertBudgets_def snapshotAt_def requireSafeInteger_def MARKET_ACQUISITION_LIMITS_def Let_def)
  have i: "assertAttemptIdentity testRealm ?s = Inr ()"
    by (cases started) (simp_all add: assertAttemptIdentity_def snapshotAt_def acquisition_digests)
  have tv: "terminalValid ?s" using assms(1) by (simp add: terminalValid_def snapshotAt_def Let_def TERMINAL_STATES_def)
  have d: "deriveLogicalPageIdentityHash testRealm (requestIdentityHash ?s) (pageOrdinal ?s) (currentTokenHash ?s) = Inr zeroDigest"
    by (simp add: snapshotAt_def acquisition_digests)
  show ?thesis
    using v q b i tv d z n assms(2,3) hash64_zeroDigest
    by (simp add: validateSnapshot_def) (simp add: snapshotAt_def requireSafeInteger_def assertSortedUnique_def MARKET_ACQUISITION_LIMITS_def
        isSafeInteger_def MAX_SAFE_INTEGER_def)
qed

definition eventAt :: "int \<Rightarrow> AcquisitionEventKind \<Rightarrow> AcquisitionEvent" where
  "eventAt now k = \<lparr>eventProof = proofFor (snapshotAt Declared 0 None None) now, eventKind = k\<rparr>"

lemma snapshot_step:
  assumes "validateSnapshot testRealm (snapshotAt st t started pending) = Inr ()"
    and "validateSnapshot testRealm (snapshotAt st' now started' pending') = Inr ()"
    and "t \<le> now" "isSafeInteger now" "valid_json (event_json (eventAt now k))"
    and "EVENT_TARGETS k = st'" "st' \<in> set (ACQUISITION_TRANSITIONS st)" "terminalReasonForEvent k = None"
    and "eventEffect testRealm (snapshotAt st t started pending) (snapshotAt st' now started pending) now k =
      Inr (snapshotAt st' now started' pending')"
  shows "acqStep testRealm (snapshotAt st t started pending) (snapshotAt st' now started' pending')"
proof -
  let ?s = "snapshotAt st t started pending"
  have m: "moved ?s (eventAt now k) = snapshotAt st' now started pending"
    using assms(6,8) by (simp add: moved_def eventAt_def proofFor_def) (simp add: snapshotAt_def)
  have p: "validateProof ?s (eventProof (eventAt now k)) = Inr ()" "nowMonotonicMs (eventProof (eventAt now k)) = now"
    "resourcesSettled (eventProof (eventAt now k))" "eventKind (eventAt now k) = k" "currentState ?s = st"
    using assms(3,4) by (simp_all add: validateProof_def eventAt_def proofFor_def snapshotAt_def)
  have "deriveNext testRealm ?s (eventAt now k) = Inr (snapshotAt st' now started' pending')"
    using assms(6,7,9) m p by (simp add: deriveNext_Inr ensureResourcesSettled_def)
  then have "\<exists>plan. deriveAcquisitionTransition testRealm ?s (eventAt now k) = Inr plan \<and> planNext plan = snapshotAt st' now started' pending'"
    using assms(1,2,5) by (simp add: deriveAcquisitionTransition_def)
  then show ?thesis by (metis acqStep.accept)
qed

definition sampleDispatch :: AcquisitionEventKind where
  "sampleDispatch = EvDispatchStarted \<lparr>dpAcquisitionDeclaredMonotonicMs = NInt 0, dpAttemptStartedMonotonicMs = NInt 10,
     dpNowMonotonicMs = NInt 10\<rparr> 5"

definition sampleFailure :: AcquisitionEventKind where
  "sampleFailure = EvRetryCleanupComplete \<lparr>failure = PreResponseTransport, ctxPageAttemptsStarted = NInt 1,
     ctxAcquisitionAttemptsStarted = NInt 1\<rparr>"

lemma sample_events_valid:
  "valid_json (event_json (eventAt 0 EvBeginPreflight))" "valid_json (event_json (eventAt 0 EvPreflightApproved))"
  "valid_json (event_json (eventAt 0 EvCredentialsLoaded))" "valid_json (event_json (eventAt 10 sampleDispatch))"
  "valid_json (event_json (eventAt 20 sampleFailure))"
  by (simp_all add: eventAt_def proofFor_def snapshotAt_def event_json_def proof_json_def eventFields_def sampleDispatch_def
      sampleFailure_def deadlineProof_json_def context_json_def scalar_js zeroDigest_sizes(3) isSafeInteger_def MAX_SAFE_INTEGER_def)

lemma sample_dispatched:
  "eventEffect testRealm (snapshotAt CredentialReady 0 None None) (snapshotAt AttemptActive 10 None None) 10 sampleDispatch =
     Inr (snapshotAt AttemptActive 10 (Some 10) None)"
proof -
  have q: "evaluateRollingQuota [] (NInt 10) (NInt 5) (NInt 300000) = Inr (Admit [10])"
    using quota_admit [of "[]" 10 5 300000 "[10]"]
    by (simp add: epoch_def isSafeInteger_def MAX_SAFE_INTEGER_def activeStarts_def effectiveLimit_def market_limits)
  have p: "validateDeadlineProof \<lparr>dpAcquisitionDeclaredMonotonicMs = NInt 0, dpAttemptStartedMonotonicMs = NInt 10,
     dpNowMonotonicMs = NInt 10\<rparr> = Inr ()" by code_simp
  show ?thesis
    by (simp add: eventEffect_def sampleDispatch_def applyDispatch_def snapshotAt_def MARKET_ACQUISITION_LIMITS_def q p acquisition_digests)
qed

lemma sample_cleanup:
  "eventEffect testRealm (snapshotAt AttemptActive 10 (Some 10) None) (snapshotAt WaitingRetry 20 (Some 10) None) 20 sampleFailure =
     Inr (snapshotAt WaitingRetry 20 (Some 10) (Some 1000))"
proof -
  have d: "decideRetry \<lparr>failure = PreResponseTransport, ctxPageAttemptsStarted = NInt 1, ctxAcquisitionAttemptsStarted = NInt 1\<rparr> =
      Inr (DoRetry 1000 1)" by code_simp
  have f: "retryFitsAcquisitionDeadline (NInt 20) (NInt 1000) (NInt 0) = Inr True"
    by (simp add: retryFitsAcquisitionDeadline_def bindR_eq_Inr epoch_def isSafeInteger_def MAX_SAFE_INTEGER_def dadd_exact dsub_exact market_limits)
  show ?thesis
    by (simp add: eventEffect_def sampleFailure_def applyRetryCleanup_def snapshotAt_def d f)
qed

lemma snapshotAt_ok:
  "validateSnapshot testRealm (snapshotAt Declared 0 None None) = Inr ()"
  "validateSnapshot testRealm (snapshotAt Preflighting 0 None None) = Inr ()"
  "validateSnapshot testRealm (snapshotAt DispatchReady 0 None None) = Inr ()"
  "validateSnapshot testRealm (snapshotAt CredentialReady 0 None None) = Inr ()"
  "validateSnapshot testRealm (snapshotAt AttemptActive 10 (Some 10) None) = Inr ()"
  "validateSnapshot testRealm (snapshotAt WaitingRetry 20 (Some 10) (Some 1000)) = Inr ()"
  by (rule snapshotAt_valid; simp add: TERMINAL_STATES_def isSafeInteger_def MAX_SAFE_INTEGER_def)+

lemma sample_initial:
  "createInitialAcquisitionSnapshot testRealm zeroDigest zeroDigest zeroDigest (js ''n'') 0 = Inr (snapshotAt Declared 0 None None)"
proof -
  note v = snapshotAt_ok(1) [unfolded snapshotAt_def option.case option.map]
  show ?thesis
    by (simp add: createInitialAcquisitionSnapshot_def acquisition_digests v) (simp add: snapshotAt_def)
qed

lemma sample_steps:
  "acqStep testRealm (snapshotAt Declared 0 None None) (snapshotAt Preflighting 0 None None)"
  "acqStep testRealm (snapshotAt Preflighting 0 None None) (snapshotAt DispatchReady 0 None None)"
  "acqStep testRealm (snapshotAt DispatchReady 0 None None) (snapshotAt CredentialReady 0 None None)"
  "acqStep testRealm (snapshotAt CredentialReady 0 None None) (snapshotAt AttemptActive 10 (Some 10) None)"
  "acqStep testRealm (snapshotAt AttemptActive 10 (Some 10) None) (snapshotAt WaitingRetry 20 (Some 10) (Some 1000))"
proof -
  have z: "isSafeInteger 0" "isSafeInteger 10" "isSafeInteger 20" by (simp_all add: isSafeInteger_def MAX_SAFE_INTEGER_def)
  show "acqStep testRealm (snapshotAt Declared 0 None None) (snapshotAt Preflighting 0 None None)"
    by (rule snapshot_step [OF snapshotAt_ok(1,2) _ z(1) sample_events_valid(1)])
      (simp_all add: terminalReasonForEvent_def eventEffect_def)
  show "acqStep testRealm (snapshotAt Preflighting 0 None None) (snapshotAt DispatchReady 0 None None)"
    by (rule snapshot_step [OF snapshotAt_ok(2,3) _ z(1) sample_events_valid(2)])
      (simp_all add: terminalReasonForEvent_def eventEffect_def)
  show "acqStep testRealm (snapshotAt DispatchReady 0 None None) (snapshotAt CredentialReady 0 None None)"
    by (rule snapshot_step [OF snapshotAt_ok(3,4) _ z(1) sample_events_valid(3)])
      (simp_all add: terminalReasonForEvent_def eventEffect_def)
  show "acqStep testRealm (snapshotAt CredentialReady 0 None None) (snapshotAt AttemptActive 10 (Some 10) None)"
    by (rule snapshot_step [OF snapshotAt_ok(4,5) _ z(2) sample_events_valid(4)])
      (simp_all add: sample_dispatched, simp_all add: sampleDispatch_def terminalReasonForEvent_def)
  show "acqStep testRealm (snapshotAt AttemptActive 10 (Some 10) None) (snapshotAt WaitingRetry 20 (Some 10) (Some 1000))"
    by (rule snapshot_step [OF snapshotAt_ok(5,6) _ z(3) sample_events_valid(5)])
      (simp_all add: sample_cleanup, simp_all add: sampleFailure_def terminalReasonForEvent_def)
qed

lemma sample_waiting: "acqReachable testRealm (snapshotAt WaitingRetry 20 (Some 10) (Some 1000))"
  by (rule acqReachable.step [OF acqReachable.step [OF acqReachable.step [OF acqReachable.step [OF acqReachable.step
        [OF acqReachable.init [OF sample_initial]]]]]] sample_steps)+


section \<open>A journal\<close>

definition sampleIdentity :: JournalIdentityInput where
  "sampleIdentity = \<lparr>jiSchemaVersion = 1, jiRequestIdentityHash = zeroDigest, jiProviderId = js ''p'', jiDatasetId = js ''d'',
     jiFeedId = js ''f'', jiEndpointChannelId = js ''e''\<rparr>"

definition sampleEntry :: JournalEntry where
  "sampleEntry = \<lparr>jbSchemaVersion = 1, jbRunSessionNonce = js ''n'', jbAcquisitionObservationId = js ''o'',
     jbMarketAcquisitionId = js ''m'', jbAdmittedMarketAcquisitionIds = [], jbRequestIdentityHash = zeroDigest,
     jbAcquisitionConfigurationHash = zeroDigest, jbProviderId = js ''p'', jbDatasetId = js ''d'', jbFeedId = js ''f'',
     jbEndpointChannelId = js ''e'', jbAuthorizationMode = js ''p1-09-approved'', jbLogicalPageIdentityHash = zeroDigest,
     jbPageOrdinal = 0, jbCurrentTokenHash = NO_TOKEN_HASH, jbCurrentResumableTokenMaterial = None, jbNextTokenHash = None,
     jbNextResumableTokenMaterial = None, jbCurrentContinuationBindingHash = None, jbNextContinuationBindingHash = None,
     jbAttemptId = js ''a'', jbRetrievalAttemptId = js ''r'', jbAttemptOrdinal = 0, jbArtifactObservationId = None,
     jbArtifactDigest = None, jbArtifactSizeBytes = None, jbArtifactObservationHash = None, jbArtifactContentId = None,
     jbRawArtifactId = None, jbStageLedgerFactId = None, jbCausalParentFactIds = [], jbPageRecordCount = None,
     jbPageNormalizedFactCount = None, jbPageChainHash = GENESIS_HASH, jbCumulativeSuccessfulPages = 0,
     jbCumulativeVerifiedBytes = 0, jbCumulativeRecords = 0, jbCumulativeNormalizedFacts = 0, jbCumulativeAttempts = 0,
     jbAcquisitionDeadlineBasis = js ''b'', jbQuotaWindowEvidence = [], jbTerminalState = None, jbTerminalReasonCode = None,
     jbIncomplete = True, jeMarketAcquisitionJournalId = zeroDigest, journalSequence = 0, priorJournalEntryHash = GENESIS_HASH,
     jeCheckpointKind = CkAcquisitionDeclared, journalEntryHash = zeroDigest\<rparr>"

lemma sample_journalId: "deriveMarketAcquisitionJournalId testRealm sampleIdentity = Inr zeroDigest"
  by (simp add: deriveMarketAcquisitionJournalId_def journalIdentity_json_def sampleIdentity_def jint_def scalar_js
      zeroDigest_sizes(3) isSafeInteger_def MAX_SAFE_INTEGER_def)

lemma literal_scalars: "scalar NO_TOKEN_HASH" "scalar GENESIS_HASH"
  by code_simp+

lemma sampleEntry_json: "valid_json (JObj (body_fields sampleEntry))" "valid_json (entry_json sampleEntry)"
  "valid_json (chainFields sampleEntry (canon v))"
  using literal_scalars
  by (simp_all add: body_fields_def entry_json_def chainFields_def sampleEntry_def jint_def jnull_def scalar_js zeroDigest_sizes(3)
      isSafeInteger_def MAX_SAFE_INTEGER_def well_formed_scalar)

lemma sampleEntry_semantics: "validateCheckpointSemantics testRealm sampleEntry = Inr ()"
  by (simp add: validateCheckpointSemantics_def sampleEntry_def bindR_eq_Inr isSafeInteger_def MAX_SAFE_INTEGER_def countOption_def
      MARKET_ACQUISITION_LIMITS_def tokenMatches_def)

lemma sampleEntry_opens: "opens sampleEntry"
  by (simp add: opens_def validateCheckpointTransition_def artifactTuple_def artifactValues_def sampleEntry_def ARTIFACT_REQUIRED_def)

lemma sampleEntry_intact: "intact testRealm sampleIdentity zeroDigest sampleEntry"
proof -
  have "deriveJournalEntryHash testRealm sampleEntry = Inr (journalEntryHash sampleEntry)"
  proof -
    have "journalEntryHash sampleEntry = zeroDigest" by (simp add: sampleEntry_def)
    then show ?thesis
      using sampleEntry_json(1,3) by (simp only: entry_hash_Inr) (simp add: testRealm_def cleanRealm_def)
  qed
  then show ?thesis
    using sampleEntry_json(2) sampleEntry_semantics by (simp add: intact_def) (simp add: sampleEntry_def sampleIdentity_def)
qed

definition emptyJournal :: MemoryAcquisitionJournal where
  "emptyJournal = \<lparr>expectedIdentity = sampleIdentity, journalId = zeroDigest, entries = [], producedJournalEntries = {}\<rparr>"

lemma sample_journal:
  "newMemoryAcquisitionJournal testRealm sampleIdentity = Inr emptyJournal" "wf_journal testRealm emptyJournal"
  "journal_valid testRealm sampleIdentity zeroDigest [sampleEntry]"
  using sample_journalId sampleEntry_intact sampleEntry_opens
  by (simp_all add: newMemoryAcquisitionJournal_def emptyJournal_def wf_journal_def journal_valid_def startedTokens_def
      continuationAttempt_def sampleEntry_def)

lemma length_le_bytes: "length s \<le> byteLength s"
  by (induction s rule: utf8.induct) (auto simp: byteLength_def utf8_unit_def utf8_pair_def Let_def)

lemma zero_size: "byteLength (intString 0) = 1"
  by code_simp

lemma literal_sizes: "byteLength (jsonQuote NO_TOKEN_HASH) < 100" "byteLength (jsonQuote GENESIS_HASH) < 100"
  by code_simp+

lemma sampleEntry_hashSized: "hashSized sampleEntry"
proof -
  define t where "t = canon (JObj (body_fields sampleEntry))"
  have "jbytes (JObj (body_fields sampleEntry)) < 10000"
    using literal_sizes by (simp add: body_fields_def sampleEntry_def sample_json sample_sizes zero_size)
  then have "length t \<le> 10000"
    using length_le_bytes [of t] by (simp add: jbytes_exact t_def)
  then have q: "byteLength (jsonQuote t) \<le> 800000"
    using byteLength_quote_bound [of t] by simp
  have "jbytes (chainFields sampleEntry t) < 2 ^ 64"
    using q literal_sizes by (simp add: chainFields_def sampleEntry_def sample_json sample_sizes zero_size)
  then show ?thesis by (simp add: hashSized_def small_def t_def)
qed

end
