(* ===== verification/OwnedState.thy ===== *)
theory OwnedState
  imports AcquisitionLaws Growth
begin

text \<open>
  The durable state of an acquisition in production: the class \<open>OwnedProductionAcquisitionState\<close> of
  \<^verbatim>\<open>alpaca/adapter.ts\<close> with \<open>persistOwnedAcquisitionTransition\<close> of \<^verbatim>\<open>credentials.ts\<close>.

  Applying an event is asynchronous. A call derives its plan from the snapshot in memory, waits until
  the plan is persisted, and assigns the planned snapshot when it resumes. Other calls may run at
  every wait, so that several calls can start from one snapshot; \<open>ownedStep\<close> is one step of any of
  them, and a list of steps is an interleaving. The table of persisted transitions refuses a plan
  that does not start in the state the last one ended in. The same steps are those of \<open>applyEvent\<close>,
  the uninterrupted call.

  What is shown: in every interleaving, failed writes and restarts included, the persisted
  transitions are a path of the state table, each is the plan for a snapshot that was durable at some
  time, and a plan made for another snapshot than the last durable one is persisted only if five or
  more transitions lie between.

  The rows of the table hold the typed values whose JSON text the source stores; a row is written by
  one transaction. The receipt that hands a plan to the persistence is used once, and is left out.
\<close>

section \<open>The table of transitions\<close>

record OwnedTransitionRow =
  rowJournalId :: jsstring
  transitionSequence :: int
  rowEventKind :: string
  rowEvent :: AcquisitionEvent
  rowFromState :: AcquisitionState
  rowToState :: AcquisitionState
  rowCheckpointKind :: "JournalCheckpointKind option"
  nextSnapshot :: AcquisitionMachineSnapshot
  transitionHash :: jsstring

text \<open>
  What the persistence reads of its database and of the validated configuration. \<open>ownedInitial\<close> is
  the snapshot \<open>ownedInitialAcquisitionSnapshot\<close> builds from the tables of the credential claim.
\<close>

record OwnedDatabase =
  planRequestIdentityHash :: jsstring
  planConfigurationHash :: jsstring
  ownedInitial :: AcquisitionMachineSnapshot
  transitionRows :: "OwnedTransitionRow list"

definition deriveTransitionHash ::
  "externals \<Rightarrow> int \<Rightarrow> string \<Rightarrow> AcquisitionState \<Rightarrow> AcquisitionState \<Rightarrow> JournalCheckpointKind option \<Rightarrow> AcquisitionEvent \<Rightarrow>
   AcquisitionMachineSnapshot \<Rightarrow> jsstring result" where
  "deriveTransitionHash X n kind from to checkpoint event next =
     canonicalHash X (js ''peas/owned-acquisition-state-transition/v1'') (JObj (
       field ''sequence'' (jint n) @
       field ''eventKind'' (JStr (js kind)) @
       field ''fromState'' (JStr (js (stateName from))) @
       field ''toState'' (JStr (js (stateName to))) @
       field ''checkpointKind'' (jnull (\<lambda>k. JStr (js (checkpointName k))) checkpoint) @
       field ''event'' (event_json event) @
       field ''next'' (snapshot_json next)))"

definition checkTransitionRow :: "externals \<Rightarrow> nat \<times> OwnedTransitionRow \<Rightarrow> unit result" where
  "checkTransitionRow X indexed =
     (let index = int (fst indexed); row = snd indexed;
          invalid = Inl (TypeError ''owned-acquisition-state-transition-evidence-invalid'') in
      if transitionSequence row \<noteq> index \<or> eventKindName (eventKind (rowEvent row)) \<noteq> rowEventKind row \<or>
         currentState (nextSnapshot row) \<noteq> rowToState row
      then invalid
      else bindR (deriveTransitionHash X index (rowEventKind row) (rowFromState row) (rowToState row) (rowCheckpointKind row)
        (rowEvent row) (nextSnapshot row)) (\<lambda>h.
      if transitionHash row \<noteq> h then invalid else Inr ()))"

text \<open>Rows of one journal are inserted with increasing sequence numbers, so that the order of the list is that of the query.\<close>

definition stateTransitionRows :: "externals \<Rightarrow> OwnedDatabase \<Rightarrow> jsstring \<Rightarrow> OwnedTransitionRow list result" where
  "stateTransitionRows X db journalId =
     (let rows = filter (\<lambda>r. rowJournalId r = journalId) (transitionRows db) in
      bindR (mapR (checkTransitionRow X) (enumerate 0 rows)) (\<lambda>_. Inr rows))"

definition loadOwnedAcquisitionStateSnapshot :: "externals \<Rightarrow> OwnedDatabase \<Rightarrow> AcquisitionMachineSnapshot result" where
  "loadOwnedAcquisitionStateSnapshot X db =
     bindR (stateTransitionRows X db (marketAcquisitionJournalId (ownedInitial db))) (\<lambda>rows.
     Inr (if rows = [] then ownedInitial db else nextSnapshot (last rows)))"

definition persistOwnedAcquisitionTransition ::
  "externals \<Rightarrow> int \<Rightarrow> AcquisitionTransitionPlan \<Rightarrow> AcquisitionEvent \<Rightarrow> OwnedDatabase \<Rightarrow> OwnedDatabase \<times> unit result" where
  "persistOwnedAcquisitionTransition X trustedNow plan event db =
     (let next = planNext plan; declared = acquisitionDeclaredMonotonicMs (ownedInitial db);
          now = nowMonotonicMs (eventProof event); kind = eventKindName (planEventKind plan) in
      if requestIdentityHash next \<noteq> planRequestIdentityHash db \<or> acquisitionConfigurationHash next \<noteq> planConfigurationHash db
      then (db, Inl (TypeError ''owned-acquisition-state-identity-invalid''))
      else if acquisitionDeclaredMonotonicMs next \<noteq> declared \<or> now < declared \<or> now > trustedNow \<or>
        trustedNow - declared \<ge> acquisitionDeadlineMs MARKET_ACQUISITION_LIMITS
      then (db, Inl (TypeError ''owned-acquisition-deadline-invalid''))
      else case stateTransitionRows X db (marketAcquisitionJournalId next) of
        Inl e \<Rightarrow> (db, Inl e)
      | Inr rows \<Rightarrow>
          if (rows = [] \<and> fromState plan \<noteq> Declared) \<or> (rows \<noteq> [] \<and> rowToState (last rows) \<noteq> fromState plan)
          then (db, Inl (TypeError ''owned-acquisition-state-transition-conflict''))
          else case deriveTransitionHash X (int (length rows)) kind (fromState plan) (toState plan) (checkpointKind plan) event next of
            Inl e \<Rightarrow> (db, Inl e)
          | Inr h \<Rightarrow>
              (db\<lparr>transitionRows := transitionRows db @ [\<lparr>rowJournalId = marketAcquisitionJournalId next,
                 transitionSequence = int (length rows), rowEventKind = kind, rowEvent = event, rowFromState = fromState plan,
                 rowToState = toState plan, rowCheckpointKind = checkpointKind plan, nextSnapshot = next,
                 transitionHash = h\<rparr>]\<rparr>, Inr ()))"


section \<open>Overlapping calls\<close>

datatype OwnedCall =
    Persisting AcquisitionTransitionPlan AcquisitionEvent
  | Persisted AcquisitionTransitionPlan
  | Returned AcquisitionTransitionPlan
  | Rejected error

text \<open>
  The object in memory, the calls of \<open>#apply\<close> in the order they were made, and the database. There is
  no object if its construction failed.
\<close>

record OwnedProductionAcquisitionState =
  ownedSnapshot :: "AcquisitionMachineSnapshot option"
  ownedCalls :: "OwnedCall list"
  ownedDatabase :: OwnedDatabase

definition newOwnedProductionAcquisitionState :: "externals \<Rightarrow> OwnedDatabase \<Rightarrow> OwnedProductionAcquisitionState" where
  "newOwnedProductionAcquisitionState X db =
     \<lparr>ownedSnapshot = (case loadOwnedAcquisitionStateSnapshot X db of Inl _ \<Rightarrow> None | Inr s \<Rightarrow> Some s),
      ownedCalls = [], ownedDatabase = db\<rparr>"

text \<open>
  The steps: a call is made and derives its plan; the persistence a call waits for runs, at a time of
  the trusted clock, or fails without a write; a call whose plan was persisted resumes; the process
  ends and a new one opens the database.
\<close>

datatype OwnedStep =
    ApplyCalled AcquisitionEvent
  | PersistRuns nat int
  | PersistFails nat error
  | CallResumes nat
  | Reopened

definition callAt :: "nat \<Rightarrow> OwnedProductionAcquisitionState \<Rightarrow> OwnedCall option" where
  "callAt i W = (if i < length (ownedCalls W) then Some (ownedCalls W ! i) else None)"

fun ownedStep :: "externals \<Rightarrow> OwnedStep \<Rightarrow> OwnedProductionAcquisitionState \<Rightarrow> OwnedProductionAcquisitionState" where
  "ownedStep X (ApplyCalled event) W =
     (case ownedSnapshot W of
        None \<Rightarrow> W
      | Some s \<Rightarrow> W\<lparr>ownedCalls := ownedCalls W @
          [case deriveAcquisitionTransition X s event of Inl e \<Rightarrow> Rejected e | Inr plan \<Rightarrow> Persisting plan event]\<rparr>)"
| "ownedStep X (PersistRuns i trustedNow) W =
     (case callAt i W of
        Some (Persisting plan event) \<Rightarrow>
          (case persistOwnedAcquisitionTransition X trustedNow plan event (ownedDatabase W) of
             (db, Inl e) \<Rightarrow> W\<lparr>ownedCalls := (ownedCalls W)[i := Rejected e], ownedDatabase := db\<rparr>
           | (db, Inr _) \<Rightarrow> W\<lparr>ownedCalls := (ownedCalls W)[i := Persisted plan], ownedDatabase := db\<rparr>)
      | _ \<Rightarrow> W)"
| "ownedStep X (PersistFails i e) W =
     (case callAt i W of
        Some (Persisting plan event) \<Rightarrow> W\<lparr>ownedCalls := (ownedCalls W)[i := Rejected e]\<rparr>
      | _ \<Rightarrow> W)"
| "ownedStep X (CallResumes i) W =
     (case callAt i W of
        Some (Persisted plan) \<Rightarrow> W\<lparr>ownedSnapshot := Some (planNext plan), ownedCalls := (ownedCalls W)[i := Returned plan]\<rparr>
      | _ \<Rightarrow> W)"
| "ownedStep X Reopened W = newOwnedProductionAcquisitionState X (ownedDatabase W)"

text \<open>Without another step between them, the steps of a call are \<open>applyEvent\<close>.\<close>

lemma uninterrupted_call:
  assumes "ownedSnapshot W = Some s" "i = length (ownedCalls W)"
  shows "ownedSnapshot (fold (ownedStep X) [ApplyCalled e, PersistRuns i now, CallResumes i] W) = Some (machineSnapshot
    (fst (applyEvent X (\<lambda>plan event. snd (persistOwnedAcquisitionTransition X now plan event (ownedDatabase W))) e
      \<lparr>machineSnapshot = s, ownedPersistence = True\<rparr>)))"
  using assms by (auto simp: callAt_def applyEvent_def nth_append split: sum.split prod.split)


section \<open>Durable snapshots\<close>

definition durableAt :: "OwnedDatabase \<Rightarrow> nat \<Rightarrow> AcquisitionMachineSnapshot" where
  "durableAt db m = (if m = 0 then ownedInitial db else nextSnapshot (transitionRows db ! (m - 1)))"

text \<open>The shortest cycle of the state table has five transitions.\<close>

abbreviation stateEdge :: "AcquisitionState \<Rightarrow> AcquisitionState \<Rightarrow> bool" where
  "stateEdge a b \<equiv> b \<in> set (ACQUISITION_TRANSITIONS a)"

fun statesAfter :: "nat \<Rightarrow> AcquisitionState \<Rightarrow> AcquisitionState list" where
  "statesAfter 0 a = [a]"
| "statesAfter (Suc n) a = concat (map ACQUISITION_TRANSITIONS (statesAfter n a))"

lemma statesAfter_path: "(stateEdge ^^ n) a b \<Longrightarrow> b \<in> set (statesAfter n a)"
  by (induction n arbitrary: b) auto

lemma no_short_cycle:
  assumes "(stateEdge ^^ n) a a"
  shows "n = 0 \<or> 5 \<le> n"
proof (rule ccontr)
  assume "\<not> (n = 0 \<or> 5 \<le> n)"
  then have "n \<in> {1, 2, 3, 4}" by auto
  moreover have "a \<in> set (statesAfter n a)" by (rule statesAfter_path [OF assms])
  ultimately show False by (cases a) (auto simp: numeral_eq_Suc)
qed

lemma edges_path:
  assumes "\<And>i. i < k \<Longrightarrow> stateEdge (f (m + i)) (f (m + i + 1))"
  shows "(stateEdge ^^ k) (f m) (f (m + k))"
  using assms by (induction k) auto

lemma effect_journal:
  "eventEffect X s n now k = Inr s' \<Longrightarrow> marketAcquisitionJournalId s' = marketAcquisitionJournalId n"
  unfolding effect_defs
  by (auto elim!: bindRE ifRE split: AcquisitionEventKind.splits QuotaAdmission.splits RetryDecision.splits option.splits)

lemma derived_frame:
  assumes "deriveAcquisitionTransition X s e = Inr p"
  shows "stateEdge (currentState s) (currentState (planNext p))"
    "marketAcquisitionJournalId (planNext p) = marketAcquisitionJournalId s"
proof -
  note n = transition_Inr(2) [OF assms, unfolded deriveNext_Inr]
  then have eff: "eventEffect X s (moved s e) (nowMonotonicMs (eventProof e)) (eventKind e) = Inr (planNext p)" by blast
  show "stateEdge (currentState s) (currentState (planNext p))" using n effect_frame(1) [OF eff] by simp
  show "marketAcquisitionJournalId (planNext p) = marketAcquisitionJournalId s"
    using effect_journal [OF eff] by (simp add: moved_def)
qed

text \<open>
  Row \<open>i\<close> takes the durable state \<open>i\<close> to the next one. Its plan was derived from the durable snapshot
  \<open>m\<close>, which is snapshot \<open>i\<close> or one at least five transitions older.
\<close>

definition rowOk :: "externals \<Rightarrow> OwnedDatabase \<Rightarrow> nat \<Rightarrow> bool" where
  "rowOk X db i \<longleftrightarrow> (let row = transitionRows db ! i in
     rowJournalId row = marketAcquisitionJournalId (ownedInitial db) \<and> rowFromState row = currentState (durableAt db i) \<and>
     rowToState row = currentState (nextSnapshot row) \<and>
     (\<exists>m p. (m = i \<or> m + 5 \<le> i) \<and> deriveAcquisitionTransition X (durableAt db m) (rowEvent row) = Inr p \<and>
        fromState p = rowFromState row \<and> planNext p = nextSnapshot row))"

definition tableOk :: "externals \<Rightarrow> OwnedDatabase \<Rightarrow> bool" where
  "tableOk X db \<longleftrightarrow> acqReachable X (ownedInitial db) \<and> currentState (ownedInitial db) = Declared \<and>
     (\<forall>i<length (transitionRows db). rowOk X db i)"

fun callOk :: "externals \<Rightarrow> OwnedDatabase \<Rightarrow> OwnedCall \<Rightarrow> bool" where
  "callOk X db (Persisting plan event) \<longleftrightarrow>
     (\<exists>m\<le>length (transitionRows db). deriveAcquisitionTransition X (durableAt db m) event = Inr plan)"
| "callOk X db (Persisted plan) \<longleftrightarrow> (\<exists>m\<le>length (transitionRows db). planNext plan = durableAt db m)"
| "callOk X db _ \<longleftrightarrow> True"

definition wf_owned :: "externals \<Rightarrow> OwnedProductionAcquisitionState \<Rightarrow> bool" where
  "wf_owned X W \<longleftrightarrow> tableOk X (ownedDatabase W) \<and> (\<forall>c\<in>set (ownedCalls W). callOk X (ownedDatabase W) c) \<and>
     (\<forall>s. ownedSnapshot W = Some s \<longrightarrow> (\<exists>m\<le>length (transitionRows (ownedDatabase W)). s = durableAt (ownedDatabase W) m))"

lemma rowOk_derived:
  assumes "rowOk X db i"
  shows "rowFromState (transitionRows db ! i) = currentState (durableAt db i) \<and>
    (\<exists>m plan. (m = i \<or> m + 5 \<le> i) \<and> deriveAcquisitionTransition X (durableAt db m) (rowEvent (transitionRows db ! i)) = Inr plan \<and>
      fromState plan = rowFromState (transitionRows db ! i) \<and> planNext plan = durableAt db (i + 1))"
proof -
  have e: "nextSnapshot (transitionRows db ! i) = durableAt db (i + 1)" by (simp add: durableAt_def)
  from assms show ?thesis unfolding rowOk_def Let_def e by (elim conjE) (intro conjI; assumption)
qed

lemma durable_step:
  assumes "tableOk X db" "i < length (transitionRows db)"
  shows "stateEdge (currentState (durableAt db i)) (currentState (durableAt db (i + 1)))"
proof -
  from assms have "rowOk X db i" by (simp add: tableOk_def)
  from rowOk_derived [OF this] obtain m p where p: "deriveAcquisitionTransition X (durableAt db m) (rowEvent (transitionRows db ! i)) = Inr p"
      "fromState p = currentState (durableAt db i)" "planNext p = durableAt db (i + 1)" by auto
  from derived_frame(1) [OF p(1)] transition_Inr(4) [OF p(1)] p(2,3) show ?thesis by simp
qed

lemma durable_reachable:
  assumes "tableOk X db" "m \<le> length (transitionRows db)"
  shows "acqReachable X (durableAt db m) \<and> marketAcquisitionJournalId (durableAt db m) = marketAcquisitionJournalId (ownedInitial db)"
  using assms(2)
proof (induction m rule: less_induct)
  case (less m)
  show ?case
  proof (cases m)
    case 0
    then show ?thesis using assms(1) by (simp add: tableOk_def durableAt_def)
  next
    case (Suc i)
    with less.prems assms(1) have "rowOk X db i" by (simp add: tableOk_def)
    from rowOk_derived [OF this] obtain k p where k: "k = i \<or> k + 5 \<le> i" and
      p: "deriveAcquisitionTransition X (durableAt db k) (rowEvent (transitionRows db ! i)) = Inr p" "planNext p = durableAt db m"
      by (auto simp: Suc)
    have "acqReachable X (durableAt db k) \<and> marketAcquisitionJournalId (durableAt db k) = marketAcquisitionJournalId (ownedInitial db)"
      using k Suc less.prems by (intro less.IH) auto
    then show ?thesis
      using acqReachable.step [OF _ acqStep.accept [OF p(1)]] derived_frame(2) [OF p(1)] p(2) by simp
  qed
qed

text \<open>Two durable snapshots in the same state are the same one or at least five transitions apart.\<close>

lemma durable_distance:
  assumes "tableOk X db" "m \<le> n" "n \<le> length (transitionRows db)"
    and "currentState (durableAt db m) = currentState (durableAt db n)"
  shows "m = n \<or> m + 5 \<le> n"
proof -
  have "(stateEdge ^^ (n - m)) (currentState (durableAt db m)) (currentState (durableAt db (m + (n - m))))"
    using assms(2,3) by (intro edges_path [of "n - m" "\<lambda>i. currentState (durableAt db i)"] durable_step [OF assms(1)]) simp
  with assms(2,4) no_short_cycle [of "n - m" "currentState (durableAt db m)"] show ?thesis by auto
qed

lemma terminal_durable_last:
  assumes "tableOk X db" "m \<le> length (transitionRows db)" "currentState (durableAt db m) \<in> set TERMINAL_STATES"
  shows "m = length (transitionRows db)"
  using durable_step [OF assms(1), of m] assms(2,3) by (cases "m < length (transitionRows db)") (auto simp: TERMINAL_STATES_def)


section \<open>Persistence\<close>

lemma stateTransitionRows_all:
  assumes "tableOk X db" "stateTransitionRows X db (marketAcquisitionJournalId (ownedInitial db)) = Inr rows"
  shows "rows = transitionRows db"
proof -
  have "rowJournalId r = marketAcquisitionJournalId (ownedInitial db)" if "r \<in> set (transitionRows db)" for r
    using assms(1) that by (auto simp: tableOk_def rowOk_def Let_def in_set_conv_nth)
  with assms(2) show ?thesis by (auto simp: stateTransitionRows_def Let_def bindR_eq_Inr filter_id_conv)
qed

lemma durable_last: "rows \<noteq> [] \<Longrightarrow> rows = transitionRows db \<Longrightarrow> durableAt db (length rows) = nextSnapshot (last rows)"
  by (simp add: durableAt_def last_conv_nth)

lemma load_durable:
  assumes "tableOk X db" "loadOwnedAcquisitionStateSnapshot X db = Inr s"
  shows "s = durableAt db (length (transitionRows db))"
  using assms stateTransitionRows_all [OF assms(1)] durable_last [of "transitionRows db" db]
  by (auto simp: loadOwnedAcquisitionStateSnapshot_def bindR_eq_Inr durableAt_def split: if_splits)

definition grownBy :: "OwnedDatabase \<Rightarrow> OwnedTransitionRow \<Rightarrow> OwnedDatabase" where
  "grownBy db row = db\<lparr>transitionRows := transitionRows db @ [row]\<rparr>"

lemma grown_fields [simp]:
  "ownedInitial (grownBy db row) = ownedInitial db" "transitionRows (grownBy db row) = transitionRows db @ [row]"
  by (simp_all add: grownBy_def)

lemma durable_grown:
  "m \<le> length (transitionRows db) \<Longrightarrow> durableAt (grownBy db row) m = durableAt db m"
  "durableAt (grownBy db row) (Suc (length (transitionRows db))) = nextSnapshot row"
  by (auto simp: durableAt_def nth_append)

lemma rowOk_grown: "i < length (transitionRows db) \<Longrightarrow> rowOk X (grownBy db row) i \<longleftrightarrow> rowOk X db i"
proof -
  assume i: "i < length (transitionRows db)"
  then have "durableAt (grownBy db row) m = durableAt db m" if "m = i \<or> m + 5 \<le> i" for m
    using that by (intro durable_grown(1)) auto
  with i show ?thesis unfolding rowOk_def Let_def by (simp add: nth_append) metis
qed

lemma persisted_row:
  assumes ok: "tableOk X db" and m: "m \<le> length (transitionRows db)"
    and d: "deriveAcquisitionTransition X (durableAt db m) event = Inr plan"
    and w: "persistOwnedAcquisitionTransition X now plan event db = (db', Inr ())"
  shows "\<exists>row. db' = grownBy db row \<and> nextSnapshot row = planNext plan \<and> tableOk X db'"
proof -
  let ?n = "length (transitionRows db)"
  have j: "marketAcquisitionJournalId (planNext plan) = marketAcquisitionJournalId (ownedInitial db)"
    using derived_frame(2) [OF d] durable_reachable [OF ok m] by simp
  from w obtain rows h where rows: "stateTransitionRows X db (marketAcquisitionJournalId (ownedInitial db)) = Inr rows"
    and conflict: "\<not> ((rows = [] \<and> fromState plan \<noteq> Declared) \<or> (rows \<noteq> [] \<and> rowToState (last rows) \<noteq> fromState plan))"
    and db': "db' = grownBy db \<lparr>rowJournalId = marketAcquisitionJournalId (planNext plan),
      transitionSequence = int (length rows), rowEventKind = eventKindName (planEventKind plan), rowEvent = event, rowFromState = fromState plan,
      rowToState = toState plan, rowCheckpointKind = checkpointKind plan, nextSnapshot = planNext plan, transitionHash = h\<rparr>"
    (is "_ = grownBy db ?row")
    unfolding persistOwnedAcquisitionTransition_def Let_def grownBy_def j [symmetric]
    by (auto split: if_splits sum.splits)
  have all: "rows = transitionRows db" by (rule stateTransitionRows_all [OF ok rows])
  have "fromState plan = currentState (durableAt db ?n)"
  proof (cases "transitionRows db = []")
    case True
    then show ?thesis using conflict ok by (simp add: all durableAt_def tableOk_def)
  next
    case False
    then have "rowOk X db (?n - 1)" using ok by (simp add: tableOk_def)
    then have "rowToState (last rows) = currentState (nextSnapshot (last rows))" using False by (simp add: rowOk_def Let_def all last_conv_nth)
    with False conflict durable_last [of rows db] show ?thesis by (auto simp: all)
  qed
  moreover have "m = ?n \<or> m + 5 \<le> ?n"
    using durable_distance [OF ok m order_refl] transition_Inr(4) [OF d] calculation by simp
  ultimately have "rowOk X (grownBy db ?row) ?n"
    using transition_Inr(4,5) [OF d] d j m durable_grown(1) [of m db ?row] durable_grown(1) [of ?n db ?row]
    unfolding rowOk_def Let_def by auto
  with ok have "tableOk X (grownBy db ?row)" by (auto simp: tableOk_def less_Suc_eq rowOk_grown)
  with db' show ?thesis by auto
qed

lemma callOk_grown: "callOk X db c \<Longrightarrow> callOk X (grownBy db row) c"
  by (cases c) (auto simp: durable_grown intro: le_SucI)


section \<open>Interleavings\<close>

lemma wf_new:
  assumes "tableOk X db"
  shows "wf_owned X (newOwnedProductionAcquisitionState X db)"
  using assms load_durable [OF assms] by (auto simp: wf_owned_def newOwnedProductionAcquisitionState_def split: sum.splits)

lemma callAt_Some: "callAt i W = Some c \<longleftrightarrow> i < length (ownedCalls W) \<and> ownedCalls W ! i = c"
  by (auto simp: callAt_def)

lemma wf_call:
  assumes "wf_owned X W" "callAt i W = Some c"
  shows "callOk X (ownedDatabase W) c"
  using assms by (auto simp: wf_owned_def callAt_Some)

lemma wf_update_call:
  assumes "wf_owned X W" "callOk X (ownedDatabase W) c"
  shows "wf_owned X (W\<lparr>ownedCalls := (ownedCalls W)[i := c]\<rparr>)"
  using assms set_update_subset_insert [of "ownedCalls W" i c] by (auto simp: wf_owned_def)

lemma wf_persist_runs:
  assumes wf: "wf_owned X W"
  shows "wf_owned X (ownedStep X (PersistRuns i now) W)"
proof (cases "\<exists>plan event. callAt i W = Some (Persisting plan event)")
  case True
  then obtain plan event where c: "callAt i W = Some (Persisting plan event)" by blast
  from wf_call [OF wf c] obtain m where m: "m \<le> length (transitionRows (ownedDatabase W))"
    "deriveAcquisitionTransition X (durableAt (ownedDatabase W) m) event = Inr plan" by auto
  obtain db' res where w: "persistOwnedAcquisitionTransition X now plan event (ownedDatabase W) = (db', res)" by fastforce
  show ?thesis
  proof (cases res)
    case (Inl e)
    then have "db' = ownedDatabase W"
      using w by (auto simp: persistOwnedAcquisitionTransition_def Let_def split: if_splits sum.splits)
    with wf_update_call [OF wf, of "Rejected e" i] show ?thesis using c w Inl by simp
  next
    case (Inr u)
    with w have "persistOwnedAcquisitionTransition X now plan event (ownedDatabase W) = (db', Inr ())" by simp
    from persisted_row [OF _ m this] wf obtain row where row: "db' = grownBy (ownedDatabase W) row" "nextSnapshot row = planNext plan"
      "tableOk X db'" by (auto simp: wf_owned_def)
    have "wf_owned X (W\<lparr>ownedDatabase := db'\<rparr>)"
      using wf row(3) callOk_grown [of X "ownedDatabase W"] unfolding wf_owned_def row(1)
      by (auto simp: durable_grown) (metis durable_grown(1) le_SucI)
    moreover have "callOk X db' (Persisted plan)"
      using row(2) durable_grown(2) [of "ownedDatabase W" row] unfolding row(1) by (auto intro: exI [of _ "Suc (length (transitionRows (ownedDatabase W)))"])
    ultimately have "wf_owned X (W\<lparr>ownedDatabase := db', ownedCalls := (ownedCalls W)[i := Persisted plan]\<rparr>)"
      using wf_update_call [of X "W\<lparr>ownedDatabase := db'\<rparr>" "Persisted plan" i] by simp
    moreover have "ownedStep X (PersistRuns i now) W = W\<lparr>ownedDatabase := db', ownedCalls := (ownedCalls W)[i := Persisted plan]\<rparr>"
      using c w Inr by simp
    ultimately show ?thesis by (simp only:)
  qed
next
  case False
  then show ?thesis using wf by (auto split: option.splits OwnedCall.splits)
qed

lemma wf_ownedStep: "wf_owned X W \<Longrightarrow> wf_owned X (ownedStep X step W)"
proof (cases step)
  case (ApplyCalled e)
  assume "wf_owned X W"
  then show ?thesis unfolding ApplyCalled by (auto simp: wf_owned_def split: option.splits sum.splits)
next
  case (PersistRuns i now)
  assume "wf_owned X W"
  then show ?thesis unfolding PersistRuns by (rule wf_persist_runs)
next
  case (PersistFails i e)
  assume "wf_owned X W"
  then show ?thesis unfolding PersistFails using wf_update_call [of X W "Rejected e" i] by (auto split: option.splits OwnedCall.splits)
next
  case (CallResumes i)
  assume wf: "wf_owned X W"
  have "wf_owned X (W\<lparr>ownedSnapshot := Some (planNext p), ownedCalls := (ownedCalls W)[i := Returned p]\<rparr>)"
    if "callAt i W = Some (Persisted p)" for p
    using wf_call [OF wf that] wf_update_call [OF wf, of "Returned p" i] by (auto simp: wf_owned_def)
  with wf show ?thesis unfolding CallResumes by (auto split: option.splits OwnedCall.splits)
next
  case Reopened
  assume "wf_owned X W"
  then show ?thesis unfolding Reopened using wf_new by (simp add: wf_owned_def)
qed

text \<open>A step adds at most one row to the table and leaves the rest of the database as it is.\<close>

lemma persist_grows:
  "persistOwnedAcquisitionTransition X now plan event db = (db', res) \<Longrightarrow> db' = db \<or> (\<exists>row. db' = grownBy db row)"
  unfolding persistOwnedAcquisitionTransition_def grownBy_def Let_def by (auto split: if_splits sum.splits)

lemma ownedStep_grows: "ownedDatabase (ownedStep X step W) = ownedDatabase W \<or> (\<exists>row. ownedDatabase (ownedStep X step W) = grownBy (ownedDatabase W) row)"
proof (cases step)
  case (PersistRuns i now)
  then show ?thesis
    using persist_grows [of X now _ _ "ownedDatabase W"] by (auto split: option.splits OwnedCall.splits prod.splits sum.splits)
qed (auto simp: newOwnedProductionAcquisitionState_def split: option.splits OwnedCall.splits)

interpretation ownedTable: append_only "ownedStep X" "\<lambda>W. transitionRows (ownedDatabase W)" "wf_owned X" for X
proof
  fix W step
  assume "wf_owned X W"
  then show "wf_owned X (ownedStep X step W)" by (rule wf_ownedStep)
  show "prefix (transitionRows (ownedDatabase W)) (transitionRows (ownedDatabase (ownedStep X step W)))"
    using ownedStep_grows [of X step W] by auto
qed

lemma initial_kept: "ownedInitial (ownedDatabase (fold (ownedStep X) steps W)) = ownedInitial (ownedDatabase W)"
proof (induction steps arbitrary: W)
  case (Cons step steps)
  have "ownedInitial (ownedDatabase (ownedStep X step W)) = ownedInitial (ownedDatabase W)" using ownedStep_grows [of X step W] by auto
  with Cons show ?case by simp
qed simp

lemma wf_opened:
  assumes "createInitialAcquisitionSnapshot X request configuration journal nonce declared = Inr (ownedInitial db)" "transitionRows db = []"
  shows "wf_owned X (newOwnedProductionAcquisitionState X db)"
  using acqReachable.init [OF assms(1)] initial_Inr(2) [OF assms(1)] assms(2) by (intro wf_new) (simp add: tableOk_def)

end
