(* ===== verification/AcquisitionProperties.thy ===== *)
theory AcquisitionProperties
  imports ScenarioAcquisition OwnedState
begin

text \<open>
  Properties of market acquisition: the rolling quota, retry decisions, the acquisition state
  machine, calls of it that overlap, and its journal.
\<close>

section \<open>Quota and retry\<close>

text \<open>
  C22. The rolling quota admits an attempt exactly when its inputs are safe integers, no recorded start
  lies in the future, and fewer starts than the effective limit (the smaller of the project limit
  and the entitlement) lie within the last window; the new evidence is the recorded starts in order
  with the admitted one at the end.
\<close>

theorem quota_admits_exactly:
  "evaluateRollingQuota (map NInt ss) (NInt p) (NInt e) (NInt d) = Inr (Admit r) \<longleftrightarrow>
     (epoch p \<and> epoch e \<and> 1 \<le> e \<and> epoch d \<and> (\<forall>s\<in>set ss. epoch s \<and> s \<le> p)) \<and>
     int (length (activeStarts p ss)) < effectiveLimit e \<and> r = sort ss @ [p]"
  by (rule quota_admit)

lemma sample_starts: "epoch 1" "epoch 5" "epoch 10" "epoch 2" "epoch 300000" "activeStarts 10 [5] = [5]" "effectiveLimit 2 = 2" "effectiveLimit 1 = 1"
  by (simp_all add: epoch_def MAX_SAFE_INTEGER_def activeStarts_def effectiveLimit_def market_limits)

theorem quota_admits_exactly_witness:
  "evaluateRollingQuota (map NInt [5]) (NInt 10) (NInt 2) (NInt 300000) = Inr (Admit [5, 10])"
  using quota_admits_exactly [of "[5]" 10 2 300000 "[5, 10]"] sample_starts by simp

text \<open>
  When the quota says wait, the moment it names is in the future, not after the deadline, and the
  earliest at which the attempt is admitted.
\<close>

theorem quota_wait_earliest:
  assumes "evaluateRollingQuota (map NInt ss) (NInt p) (NInt e) (NInt d) = Inr (Wait w)"
  shows "p < w \<and> w \<le> d \<and> evaluateRollingQuota (map NInt ss) (NInt w) (NInt e) (NInt d) = Inr (Admit (sort ss @ [w])) \<and>
    (\<forall>t r. p \<le> t \<and> t < w \<longrightarrow> evaluateRollingQuota (map NInt ss) (NInt t) (NInt e) (NInt d) \<noteq> Inr (Admit r))"
  using quota_wait [OF assms] by blast

theorem quota_wait_earliest_witness:
  "evaluateRollingQuota (map NInt [5]) (NInt 10) (NInt 1) (NInt 300000) = Inr (Wait 60005) \<and>
   evaluateRollingQuota (map NInt [5]) (NInt 60005) (NInt 1) (NInt 300000) = Inr (Admit [5, 60005])"
proof -
  have "evaluateRollingQuota (map NInt [5]) (NInt 10) (NInt 1) (NInt 300000) = Inr (Wait 60005)"
    using quota_cases [of 10 1 300000 "[5]"] sample_starts by (simp add: market_limits)
  with quota_wait_earliest [OF this] show ?thesis by simp
qed

text \<open>
  C23. Retry decisions are total, and exact: a retry is decided if and only if the failure is a
  retryable one and both attempt budgets have room; the delay is then the scheduled backoff or the
  server's \<open>Retry-After\<close>, whichever is longer, and lies between one second and the maximum.
\<close>

theorem retry_decision_exact:
  "isOk (decideRetry c) \<and>
   ((\<exists>delay ord. decideRetry c = Inr (DoRetry delay ord)) \<longleftrightarrow> withinBudget c \<and> retryable (failure c)) \<and>
   (\<forall>delay ord. decideRetry c = Inr (DoRetry delay ord) \<longrightarrow>
      NInt ord = ctxPageAttemptsStarted c \<and> delay = max (RETRY_DELAYS_MS ! nat (ord - 1)) (headerDelay (failure c)) \<and>
      1000 \<le> delay \<and> delay \<le> MAX_RETRY_AFTER_MS)"
proof (intro conjI iffI allI impI)
  show "isOk (decideRetry c)" by (rule decideRetry_total)
  show "\<exists>delay ord. decideRetry c = Inr (DoRetry delay ord)" if "withinBudget c \<and> retryable (failure c)"
    using that decideRetry_accepts by blast
next
  assume "\<exists>delay ord. decideRetry c = Inr (DoRetry delay ord)"
  then obtain delay ord where "decideRetry c = Inr (DoRetry delay ord)" by blast
  note r = decideRetry_retry [OF this]
  show "withinBudget c" by (rule r(1))
  show "retryable (failure c)" by (rule r(2))
next
  fix delay ord
  assume "decideRetry c = Inr (DoRetry delay ord)"
  note r = decideRetry_retry [OF this]
  show "NInt ord = ctxPageAttemptsStarted c" by (rule r(3))
  show "delay = max (RETRY_DELAYS_MS ! nat (ord - 1)) (headerDelay (failure c))" by (rule r(5))
  show "1000 \<le> delay" by (rule r(6))
  show "delay \<le> MAX_RETRY_AFTER_MS" by (rule r(7))
qed

definition throttled :: RetryContext where
  "throttled = \<lparr>failure = Http (NInt 429) TemporaryThrottlingProved (Some (js ''7'')), ctxPageAttemptsStarted = NInt 1,
     ctxAcquisitionAttemptsStarted = NInt 1\<rparr>"

theorem retry_decision_exact_witness: "\<exists>delay ord. decideRetry throttled = Inr (DoRetry delay ord) \<and> 7000 \<le> delay"
proof -
  have "withinBudget throttled \<and> retryable (failure throttled) \<and> headerDelay (failure throttled) = 7000" by code_simp
  then show ?thesis using retry_decision_exact [of throttled] by fastforce
qed


section \<open>The acquisition state machine\<close>

text \<open>
  C24. Every snapshot the machine can reach passes its own validation and keeps: one consumed
  continuation token per page and none twice, at most three attempts on a page, no more attempts
  than three per page reached, and every attempt started before the acquisition deadline.
\<close>

theorem acquisition_invariant:
  assumes "acqReachable X s"
  shows "validateSnapshot X s = Inr () \<and> distinct (consumedTokenHashes s) \<and> int (length (consumedTokenHashes s)) = pageOrdinal s \<and>
    (0 < pageOrdinal s \<longrightarrow> currentTokenHash s \<in> set (consumedTokenHashes s)) \<and>
    pageAttemptsStarted s \<le> 3 \<and> attempts (budgets s) \<le> 3 * pageOrdinal s + pageAttemptsStarted s \<and>
    (\<forall>v\<in>set (quotaWindowEvidence s). v < acquisitionDeclaredMonotonicMs s + 300000)"
  using reachable_inv [OF assms] by (simp add: acqInv_def)

theorem acquisition_invariant_witness:
  "attempts (budgets (snapshotAt WaitingRetry 20 (Some 10) (Some 1000))) = 1 \<and>
   validateSnapshot testRealm (snapshotAt WaitingRetry 20 (Some 10) (Some 1000)) = Inr ()"
  using acquisition_invariant [OF sample_waiting] by (simp add: snapshotAt_def)

text \<open>
  C25. The request rate is bounded: in every reachable snapshot, no window of one minute holds more than
  thirty started attempts.
\<close>

theorem acquisition_rate_bound:
  assumes "acqReachable X s"
  shows "length (filter (\<lambda>v. t - PROJECT_RATE_WINDOW_MS < v \<and> v \<le> t) (quotaWindowEvidence s)) \<le> 30"
  using spaced_window [of 30] reachable_inv [OF assms] by (simp add: acqInv_def)

theorem acquisition_rate_bound_witness:
  "length (filter (\<lambda>v. 15 - PROJECT_RATE_WINDOW_MS < v \<and> v \<le> 15) (quotaWindowEvidence (snapshotAt WaitingRetry 20 (Some 10) (Some 1000)))) \<le> 30 \<and>
   quotaWindowEvidence (snapshotAt WaitingRetry 20 (Some 10) (Some 1000)) = [10]"
  using acquisition_rate_bound [OF sample_waiting, of 15] by (simp add: snapshotAt_def)

text \<open>
  C26. An acquisition ends: whatever events arrive, at most 630 of them are accepted after the
  declaration (thirteen for each of the 48 attempts and six before the first).
\<close>

theorem acquisition_terminates:
  assumes "createInitialAcquisitionSnapshot X rid cid jid nonce declared = Inr s" "(acqStep X ^^ n) s s'"
  shows "n \<le> 630"
proof -
  have "potential s = 630"
    using initial_Inr [OF assms(1)] by (simp add: potential_def)
  with steps_potential [OF assms(2)] show ?thesis by simp
qed

theorem acquisition_terminates_witness:
  "\<exists>s'. (acqStep testRealm ^^ 2) (snapshotAt Declared 0 None None) s' \<and> (2::nat) \<le> 630"
proof -
  have "(acqStep testRealm ^^ Suc (Suc 0)) (snapshotAt Declared 0 None None) (snapshotAt DispatchReady 0 None None)"
    using sample_steps(1,2) by (metis relpowp_0_I relpowp_Suc_I)
  then have s: "(acqStep testRealm ^^ 2) (snapshotAt Declared 0 None None) (snapshotAt DispatchReady 0 None None)"
    by (simp add: numeral_2_eq_2)
  from acquisition_terminates [OF sample_initial s] s show ?thesis by blast
qed

text \<open>
  A terminal state is final: no event is accepted in it.
\<close>

theorem terminal_final:
  assumes "currentState s \<in> set TERMINAL_STATES"
  shows "\<exists>err. deriveAcquisitionTransition X s e = Inl err"
proof (cases "deriveAcquisitionTransition X s e")
  case (Inr plan)
  with terminal_absorbs [OF assms] transition_Inr(2) [OF Inr] show ?thesis by blast
qed blast

theorem terminal_final_witness:
  "\<exists>err. deriveAcquisitionTransition testRealm ((snapshotAt Declared 0 None None)\<lparr>currentState := Stopped, terminalReason := Some TrOperatorStop\<rparr>)
     (eventAt 5 EvBeginPreflight) = Inl err"
  by (rule terminal_final) (simp add: TERMINAL_STATES_def)

text \<open>
  C27. In a retry wait the preflight event is accepted at once: the transition table lets
  \<open>begin-preflight\<close> leave \<open>waiting-retry\<close>, its handler does not look at the pending delay, and the
  delay stays pending in the next snapshot. Only \<open>retry-delay-elapsed\<close> checks it.
\<close>

theorem retry_wait_bypassed:
  assumes "validateSnapshot X s = Inr ()" "currentState s = WaitingRetry" "pendingRetryDelayMs s = Some d"
    and "lastMonotonicMs s \<le> now" "isSafeInteger now"
  shows "\<exists>plan. deriveAcquisitionTransition X s \<lparr>eventProof = proofFor s now, eventKind = EvBeginPreflight\<rparr> = Inr plan \<and>
    currentState (planNext plan) = Preflighting \<and> lastMonotonicMs (planNext plan) = now \<and> pendingRetryDelayMs (planNext plan) = Some d"
  using begin_preflight_accepted [OF assms(1) _ assms(4,5)] assms(2,3) by simp

theorem retry_wait_bypassed_witness:
  "acqReachable testRealm (snapshotAt WaitingRetry 20 (Some 10) (Some 1000)) \<and>
   (\<exists>plan. deriveAcquisitionTransition testRealm (snapshotAt WaitingRetry 20 (Some 10) (Some 1000))
      \<lparr>eventProof = proofFor (snapshotAt WaitingRetry 20 (Some 10) (Some 1000)) 20, eventKind = EvBeginPreflight\<rparr> = Inr plan \<and>
      pendingRetryDelayMs (planNext plan) = Some 1000)"
proof -
  have "isSafeInteger 20" by (simp add: isSafeInteger_def MAX_SAFE_INTEGER_def)
  moreover have "currentState (snapshotAt WaitingRetry 20 (Some 10) (Some 1000)) = WaitingRetry"
    "pendingRetryDelayMs (snapshotAt WaitingRetry 20 (Some 10) (Some 1000)) = Some 1000"
    "lastMonotonicMs (snapshotAt WaitingRetry 20 (Some 10) (Some 1000)) \<le> 20" by (simp_all add: snapshotAt_def)
  ultimately show ?thesis using retry_wait_bypassed [OF snapshotAt_ok(6)] sample_waiting by blast
qed


section \<open>Overlapping calls\<close>

text \<open>
  C28. Calls that overlap are put in one order by the table of persisted transitions. In every
  interleaving of calls, writes, failed writes and restarts the table is a path of the state table
  from the initial snapshot: each transition starts in the state the one before ended in, its plan was
  derived from a snapshot that was durable, and that is the snapshot it follows or, if the call waited
  while others went on, one at least five transitions older. Every durable snapshot is one an
  acquisition can reach, nothing is persisted after a terminal state, a persisted transition stays,
  and the snapshot in memory is always a durable one.
\<close>

theorem overlapping_calls_linearised:
  assumes initial: "createInitialAcquisitionSnapshot X r c j nonce t = Inr (ownedInitial db)"
    and empty: "transitionRows db = []"
    and W: "W = fold (ownedStep X) steps (newOwnedProductionAcquisitionState X db)"
    and D: "D = ownedDatabase W" "rows = transitionRows D"
  shows "(\<forall>i<length rows. rowFromState (rows ! i) = currentState (durableAt D i) \<and>
      (\<exists>m plan. (m = i \<or> m + 5 \<le> i) \<and> deriveAcquisitionTransition X (durableAt D m) (rowEvent (rows ! i)) = Inr plan \<and>
        fromState plan = rowFromState (rows ! i) \<and> planNext plan = durableAt D (i + 1))) \<and>
    (\<forall>i\<le>length rows. acqReachable X (durableAt D i) \<and> (currentState (durableAt D i) \<in> set TERMINAL_STATES \<longrightarrow> i = length rows)) \<and>
    durableAt D 0 = ownedInitial db \<and> (\<forall>s. ownedSnapshot W = Some s \<longrightarrow> (\<exists>i\<le>length rows. s = durableAt D i)) \<and>
    prefix rows (transitionRows (ownedDatabase (fold (ownedStep X) later W)))"
proof -
  have wf: "wf_owned X W" unfolding W by (rule ownedTable.well_history [OF wf_opened [OF initial empty]])
  then have ok: "tableOk X D" by (simp add: wf_owned_def D)
  then have row: "rowOk X D i" if "i < length rows" for i using that by (simp add: tableOk_def D)
  have path: "\<forall>i<length rows. rowFromState (rows ! i) = currentState (durableAt D i) \<and>
      (\<exists>m plan. (m = i \<or> m + 5 \<le> i) \<and> deriveAcquisitionTransition X (durableAt D m) (rowEvent (rows ! i)) = Inr plan \<and>
        fromState plan = rowFromState (rows ! i) \<and> planNext plan = durableAt D (i + 1))"
    using rowOk_derived [OF row] unfolding D(2) by blast
  have durable: "\<forall>i\<le>length rows. acqReachable X (durableAt D i) \<and> (currentState (durableAt D i) \<in> set TERMINAL_STATES \<longrightarrow> i = length rows)"
    using durable_reachable [OF ok] terminal_durable_last [OF ok] by (simp add: D)
  have start: "durableAt D 0 = ownedInitial db"
    by (simp add: durableAt_def D W initial_kept newOwnedProductionAcquisitionState_def)
  have memory: "\<forall>s. ownedSnapshot W = Some s \<longrightarrow> (\<exists>i\<le>length rows. s = durableAt D i)" using wf by (simp add: wf_owned_def D)
  have "prefix rows (transitionRows (ownedDatabase (fold (ownedStep X) later W)))" unfolding D by (rule ownedTable.history_grows [OF wf])
  with path durable start memory show ?thesis by (intro conjI)
qed

text \<open>Two calls of the first event that start from the initial snapshot: one is persisted, the other refused.\<close>

definition sampleTable :: OwnedDatabase where
  "sampleTable = \<lparr>planRequestIdentityHash = zeroDigest, planConfigurationHash = zeroDigest,
     ownedInitial = snapshotAt Declared 0 None None, transitionRows = []\<rparr>"

definition samplePlan :: AcquisitionTransitionPlan where
  "samplePlan = \<lparr>planEventKind = EvBeginPreflight, fromState = Declared, toState = Preflighting,
     checkpointKind = Some CkAcquisitionDeclared, planNext = snapshotAt Preflighting 0 None None\<rparr>"

definition sampleRow :: OwnedTransitionRow where
  "sampleRow = \<lparr>rowJournalId = zeroDigest, transitionSequence = 0, rowEventKind = eventKindName EvBeginPreflight,
     rowEvent = eventAt 0 EvBeginPreflight, rowFromState = Declared, rowToState = Preflighting,
     rowCheckpointKind = Some CkAcquisitionDeclared, nextSnapshot = snapshotAt Preflighting 0 None None, transitionHash = zeroDigest\<rparr>"

lemma sample_planned: "deriveAcquisitionTransition testRealm (snapshotAt Declared 0 None None) (eventAt 0 EvBeginPreflight) = Inr samplePlan"
proof -
  have z: "isSafeInteger 0" "lastMonotonicMs (snapshotAt Declared 0 None None) \<le> 0" by (simp_all add: snapshotAt_def isSafeInteger_def MAX_SAFE_INTEGER_def)
  have s: "(snapshotAt Declared 0 None None)\<lparr>currentState := Preflighting, lastMonotonicMs := 0\<rparr> = snapshotAt Preflighting 0 None None"
    by (simp add: snapshotAt_def)
  show ?thesis
    using begin_preflight_accepted [OF snapshotAt_ok(1) _ z(2,1)] s
    by (simp add: eventAt_def samplePlan_def) (simp add: snapshotAt_def)
qed

lemma sample_hashed:
  "deriveTransitionHash testRealm 0 (eventKindName EvBeginPreflight) Declared Preflighting (Some CkAcquisitionDeclared)
     (eventAt 0 EvBeginPreflight) (snapshotAt Preflighting 0 None None) = Inr zeroDigest"
proof -
  have "valid_json (snapshot_json (snapshotAt Preflighting 0 None None))"
    using snapshotAt_ok(2) unfolding validateSnapshot_def by (auto elim!: bindRE)
  then show ?thesis
    using sample_events_valid(1)
    by (simp add: deriveTransitionHash_def canonicalHash_def jint_def jnull_def scalar_js isSafeInteger_def MAX_SAFE_INTEGER_def)
qed

lemma sample_rows:
  "stateTransitionRows testRealm sampleTable zeroDigest = Inr []"
  "stateTransitionRows testRealm (sampleTable\<lparr>transitionRows := [sampleRow]\<rparr>) zeroDigest = Inr [sampleRow]"
proof -
  show "stateTransitionRows testRealm sampleTable zeroDigest = Inr []" by (simp add: stateTransitionRows_def sampleTable_def)
  have "checkTransitionRow testRealm (0, sampleRow) = Inr ()"
    using sample_hashed by (simp add: checkTransitionRow_def sampleRow_def) (simp add: eventAt_def snapshotAt_def)
  then show "stateTransitionRows testRealm (sampleTable\<lparr>transitionRows := [sampleRow]\<rparr>) zeroDigest = Inr [sampleRow]"
    by (simp add: stateTransitionRows_def sampleTable_def) (simp add: sampleRow_def)
qed

lemma sample_persisted:
  "persistOwnedAcquisitionTransition testRealm 0 samplePlan (eventAt 0 EvBeginPreflight) sampleTable =
     (sampleTable\<lparr>transitionRows := [sampleRow]\<rparr>, Inr ())"
  "persistOwnedAcquisitionTransition testRealm 0 samplePlan (eventAt 0 EvBeginPreflight) (sampleTable\<lparr>transitionRows := [sampleRow]\<rparr>) =
     (sampleTable\<lparr>transitionRows := [sampleRow]\<rparr>, Inl (TypeError ''owned-acquisition-state-transition-conflict''))"
proof -
  have s: "requestIdentityHash (snapshotAt Preflighting 0 None None) = zeroDigest"
    "acquisitionConfigurationHash (snapshotAt Preflighting 0 None None) = zeroDigest"
    "marketAcquisitionJournalId (snapshotAt Preflighting 0 None None) = zeroDigest"
    "acquisitionDeclaredMonotonicMs (snapshotAt Preflighting 0 None None) = 0"
    "acquisitionDeclaredMonotonicMs (ownedInitial sampleTable) = 0" "nowMonotonicMs (eventProof (eventAt 0 EvBeginPreflight)) = 0"
    "planRequestIdentityHash sampleTable = zeroDigest" "planConfigurationHash sampleTable = zeroDigest" "transitionRows sampleTable = []"
    by (simp_all add: snapshotAt_def sampleTable_def eventAt_def proofFor_def)
  note p = persistOwnedAcquisitionTransition_def Let_def samplePlan_def
  show "persistOwnedAcquisitionTransition testRealm 0 samplePlan (eventAt 0 EvBeginPreflight) sampleTable =
     (sampleTable\<lparr>transitionRows := [sampleRow]\<rparr>, Inr ())"
    using sample_rows(1) sample_hashed s by (simp add: p market_limits) (simp add: sampleRow_def)
  have "rowToState sampleRow = Preflighting" by (simp add: sampleRow_def)
  then show "persistOwnedAcquisitionTransition testRealm 0 samplePlan (eventAt 0 EvBeginPreflight) (sampleTable\<lparr>transitionRows := [sampleRow]\<rparr>) =
     (sampleTable\<lparr>transitionRows := [sampleRow]\<rparr>, Inl (TypeError ''owned-acquisition-state-transition-conflict''))"
    using sample_rows(2) s by (simp add: p market_limits)
qed

definition sampleOverlap :: OwnedProductionAcquisitionState where
  "sampleOverlap = fold (ownedStep testRealm) [ApplyCalled (eventAt 0 EvBeginPreflight), ApplyCalled (eventAt 0 EvBeginPreflight),
     PersistRuns 1 0, PersistRuns 0 0, CallResumes 1] (newOwnedProductionAcquisitionState testRealm sampleTable)"

lemma sampleOverlap_eq:
  "sampleOverlap = \<lparr>ownedSnapshot = Some (snapshotAt Preflighting 0 None None),
     ownedCalls = [Rejected (TypeError ''owned-acquisition-state-transition-conflict''), Returned samplePlan],
     ownedDatabase = sampleTable\<lparr>transitionRows := [sampleRow]\<rparr>\<rparr>"
proof -
  have "marketAcquisitionJournalId (ownedInitial sampleTable) = zeroDigest" by (simp add: sampleTable_def snapshotAt_def)
  then have "loadOwnedAcquisitionStateSnapshot testRealm sampleTable = Inr (snapshotAt Declared 0 None None)"
    using sample_rows(1) by (simp add: loadOwnedAcquisitionStateSnapshot_def) (simp add: sampleTable_def)
  moreover have "planNext samplePlan = snapshotAt Preflighting 0 None None" by (simp add: samplePlan_def)
  ultimately show ?thesis
    by (simp add: sampleOverlap_def newOwnedProductionAcquisitionState_def sample_planned callAt_def sample_persisted)
qed

theorem overlapping_calls_linearised_witness:
  "ownedCalls sampleOverlap = [Rejected (TypeError ''owned-acquisition-state-transition-conflict''), Returned samplePlan] \<and>
   length (transitionRows (ownedDatabase sampleOverlap)) = 1 \<and>
   acqReachable testRealm (durableAt (ownedDatabase sampleOverlap) 1) \<and>
   (\<exists>i\<le>1. ownedSnapshot sampleOverlap = Some (durableAt (ownedDatabase sampleOverlap) i))"
proof -
  have i: "createInitialAcquisitionSnapshot testRealm zeroDigest zeroDigest zeroDigest (js ''n'') 0 = Inr (ownedInitial sampleTable)"
    "transitionRows sampleTable = []" using sample_initial by (simp_all add: sampleTable_def)
  note l = overlapping_calls_linearised [OF i sampleOverlap_def refl refl, of "[]"]
  have n: "length (transitionRows (ownedDatabase sampleOverlap)) = 1" "ownedSnapshot sampleOverlap = Some (snapshotAt Preflighting 0 None None)"
    "ownedCalls sampleOverlap = [Rejected (TypeError ''owned-acquisition-state-transition-conflict''), Returned samplePlan]"
    unfolding sampleOverlap_eq by simp_all
  from l have "acqReachable testRealm (durableAt (ownedDatabase sampleOverlap) 1)" unfolding n(1) by blast
  moreover from l have "\<exists>i\<le>1. snapshotAt Preflighting 0 None None = durableAt (ownedDatabase sampleOverlap) i" unfolding n(1,2) by blast
  ultimately show ?thesis unfolding n by blast
qed


section \<open>The journal\<close>

text \<open>
  C29. The single pass over a journal accepts exactly the valid journals: non-empty, every entry
  intact (well-formed, of this acquisition, with its own hash correct and its counters within
  limits), the first entry opening the chain, every other following its predecessor in sequence,
  hash, counters, state table and page order, nothing after a terminal entry, and no continuation
  token started twice.
\<close>

theorem journal_validation_exact:
  "validateJournalEntries X identity es = Inr () \<longleftrightarrow>
     es \<noteq> [] \<and> (\<exists>i. deriveMarketAcquisitionJournalId X identity = Inr i \<and> journal_valid X identity i es)"
  by (rule validateJournalEntries_Inr)

text \<open>
  C30. Whatever is sent to a memory journal, its entries stay a valid chain, numbered from zero, each
  naming the hash of the one before, the declaration only at the start, and an entry once written
  stays at its place.
\<close>

theorem journal_append_only:
  assumes "newMemoryAcquisitionJournal X identity = Inr J" "n < length (entries (fold (journalOperation X) ops J))"
  shows "let es = entries (fold (journalOperation X) ops J) in
    wf_journal X (fold (journalOperation X) ops J) \<and> journalSequence (es ! n) = int n \<and>
    priorJournalEntryHash (es ! n) = (if n = 0 then GENESIS_HASH else journalEntryHash (es ! (n - 1))) \<and>
    (jeCheckpointKind (es ! n) = CkAcquisitionDeclared \<longleftrightarrow> n = 0) \<and>
    entries (fold (journalOperation X) (ops @ later) J) ! n = es ! n"
proof -
  have wf: "wf_journal X (fold (journalOperation X) ops J)"
    by (rule journal.well_history [OF wf_newMemoryAcquisitionJournal [OF assms(1)]])
  from journal.entry_stays [OF wf assms(2), of later] wf_journal_valid [OF wf] show ?thesis
    using journal_valid_at(1-3) [OF wf_journal_valid [OF wf] assms(2)] wf by (simp add: Let_def)
qed

lemma sample_appended: "entries (fold (journalOperation testRealm) [AppendEntry True sampleEntry] emptyJournal) = [sampleEntry]"
proof -
  have "appendJournal testRealm True sampleEntry emptyJournal =
      (emptyJournal\<lparr>entries := [sampleEntry], producedJournalEntries := {journalEntryHash sampleEntry}\<rparr>, Inr ())"
    using appendJournal_cases(1) [OF sample_journal(2), of True sampleEntry] sample_journal(3) by (simp add: emptyJournal_def)
  then show ?thesis by simp
qed

theorem journal_append_only_witness:
  "journalSequence sampleEntry = 0 \<and> entries (fold (journalOperation testRealm) [AppendEntry True sampleEntry] emptyJournal) = [sampleEntry]"
  using journal_append_only [OF sample_journal(1), of 0 "[AppendEntry True sampleEntry]" "[]"] sample_appended by (simp add: Let_def)

text \<open>
  C31. The journal is tamper evident: two journals of one acquisition that both validate and end in the
  same entry hash hold the same entries, unless SHA-256 collides on one of them.
\<close>

theorem journal_tamper_evident:
  assumes "validateJournalEntries X identity es = Inr ()" "validateJournalEntries X identity fs = Inr ()"
    and "journalEntryHash (last es) = journalEntryHash (last fs)"
    and "inj_on (sha256_hex X) S" "\<forall>e\<in>set es \<union> set fs. journalPreimage e \<in> S \<and> hashSized e"
  shows "es = fs"
proof -
  obtain i where "journal_valid X identity i es" "journal_valid X identity i fs" "es \<noteq> []" "fs \<noteq> []"
    using assms(1,2) by (auto simp: validateJournalEntries_Inr)
  with assms(3-5) show ?thesis by (intro journals_unique [where S = S and X = X])
qed

theorem journal_tamper_evident_witness:
  "validateJournalEntries testRealm sampleIdentity [sampleEntry] = Inr () \<and> hashSized sampleEntry \<and> [sampleEntry] = [sampleEntry]"
proof -
  have v: "validateJournalEntries testRealm sampleIdentity [sampleEntry] = Inr ()"
    using sample_journalId sample_journal(3) by (simp add: validateJournalEntries_Inr)
  from journal_tamper_evident [OF v v refl, of "{journalPreimage sampleEntry}"] v sampleEntry_hashSized show ?thesis by simp
qed

end
