(* ===== verification/JsSort.thy ===== *)
theory JsSort
  imports Prelude
begin

text \<open>
  \<open>Array.prototype.sort\<close> with a comparator, and the comparators the sources build:
  \<open>Buffer.compare\<close> on UTF-8 bytes and comparison by several criteria (\<open>a || b\<close>).
  The language fixes the result only for a consistent comparator, as the stable sorted permutation;
  \<open>sortBy\<close> is stable insertion. \<open>sortBy_sort_key\<close> says that a comparator which orders the
  elements like a key sorts them like \<open>sort_key\<close> of the library.
\<close>

fun insertBy :: "('a \<Rightarrow> 'a \<Rightarrow> int) \<Rightarrow> 'a \<Rightarrow> 'a list \<Rightarrow> 'a list" where
  "insertBy cmp x [] = [x]"
| "insertBy cmp x (y # ys) = (if cmp x y \<le> 0 then x # y # ys else y # insertBy cmp x ys)"

definition sortBy :: "('a \<Rightarrow> 'a \<Rightarrow> int) \<Rightarrow> 'a list \<Rightarrow> 'a list" where
  "sortBy cmp xs = foldr (insertBy cmp) xs []"

definition thenBy :: "('a \<Rightarrow> 'a \<Rightarrow> int) \<Rightarrow> ('a \<Rightarrow> 'a \<Rightarrow> int) \<Rightarrow> 'a \<Rightarrow> 'a \<Rightarrow> int" where
  "thenBy c d x y = (if c x y \<noteq> 0 then c x y else d x y)"

definition orderOf :: "'a::linorder \<Rightarrow> 'a \<Rightarrow> int" where
  "orderOf x y = (if x < y then - 1 else if x = y then 0 else 1)"

lemma orderOf_simps [simp]:
  "orderOf x y = 0 \<longleftrightarrow> x = y" "orderOf x y \<le> 0 \<longleftrightarrow> x \<le> y" "orderOf x y < 0 \<longleftrightarrow> x < y"
  "0 < orderOf x y \<longleftrightarrow> y < x"
  by (auto simp: orderOf_def)

lemma sortBy_simps [simp]: "sortBy cmp [] = []" "sortBy cmp (x # xs) = insertBy cmp x (sortBy cmp xs)"
  by (simp_all add: sortBy_def)

lemma mset_insertBy [simp]: "mset (insertBy cmp x xs) = add_mset x (mset xs)"
  by (induction xs) auto

lemma mset_sortBy [simp]: "mset (sortBy cmp xs) = mset xs"
  by (induction xs) auto

lemma set_sortBy [simp]: "set (sortBy cmp xs) = set xs"
  by (metis mset_sortBy set_mset_mset)

lemma length_sortBy [simp]: "length (sortBy cmp xs) = length xs"
  by (metis mset_sortBy size_mset)

lemma distinct_map_sortBy [simp]: "distinct (map f (sortBy cmp xs)) = distinct (map f xs)"
  by (rule mset_eq_imp_distinct_iff) simp

lemma distinct_sortBy [simp]: "distinct (sortBy cmp xs) = distinct xs"
  using distinct_map_sortBy [of id] by simp

lemma sortBy_sort_key:
  assumes "\<And>x y. x \<in> set xs \<Longrightarrow> y \<in> set xs \<Longrightarrow> cmp x y \<le> 0 \<longleftrightarrow> k x \<le> k y"
  shows "sortBy cmp xs = sort_key k xs"
  using assms
proof (induction xs)
  case (Cons x xs)
  have "insertBy cmp x ys = insort_key k x ys" if "set ys \<subseteq> set xs" for ys
    using that Cons.prems by (induction ys) auto
  with Cons show ?case by simp
qed simp

lemma set_insertBy [simp]: "set (insertBy cmp x xs) = insert x (set xs)"
  by (metis mset_insertBy set_mset_add_mset_insert set_mset_mset)

lemma sorted_insertBy:
  assumes "\<And>y. y \<in> set ys \<Longrightarrow> cmp x y \<le> 0 \<Longrightarrow> k x \<le> k y" "\<And>y. y \<in> set ys \<Longrightarrow> 0 < cmp x y \<Longrightarrow> k y \<le> k x"
    and "sorted (map k ys)"
  shows "sorted (map k (insertBy cmp x ys))"
  using assms
proof (induction ys)
  case (Cons y ys)
  then show ?case by (cases "cmp x y \<le> 0") force+
qed simp

lemma sorted_map_sortBy:
  assumes "\<And>x y. cmp x y \<le> 0 \<Longrightarrow> x \<in> set xs \<Longrightarrow> y \<in> set xs \<Longrightarrow> k x \<le> k y"
    and "\<And>x y. 0 < cmp x y \<Longrightarrow> x \<in> set xs \<Longrightarrow> y \<in> set xs \<Longrightarrow> k y \<le> k x"
  shows "sorted (map k (sortBy cmp xs))"
  using assms by (induction xs) (auto intro!: sorted_insertBy)

text \<open>A total and transitive comparator leaves its list sorted by itself.\<close>

lemma sorted_wrt_sortBy:
  assumes total: "\<And>x y. cmp x y \<le> 0 \<or> cmp y x \<le> (0::int)"
    and trans: "\<And>x y z. cmp x y \<le> 0 \<Longrightarrow> cmp y z \<le> 0 \<Longrightarrow> cmp x z \<le> 0"
  shows "sorted_wrt (\<lambda>x y. cmp x y \<le> 0) (sortBy cmp xs)"
proof (induction xs)
  case (Cons x xs)
  have "sorted_wrt (\<lambda>x y. cmp x y \<le> 0) (insertBy cmp x ys)" if "sorted_wrt (\<lambda>x y. cmp x y \<le> 0) ys" for ys
    using that
  proof (induction ys)
    case (Cons y ys)
    then show ?case using total [of x y] trans [of x y] by auto
  qed simp
  with Cons show ?case by simp
qed simp

end
