(* ===== verification/StudyRational.thy ===== *)
theory StudyRational
  imports Complex_Main JsSort "HOL-Library.Signed_Division"
begin

text \<open>
  The exact rational arithmetic of \<^verbatim>\<open>src/study/market-reference/analysis.ts\<close>, its median and
  its type-7 quantile. Numerators and denominators are BigInts, hence \<open>int\<close>; the operators
  \<open>/\<close> and \<open>%\<close> of BigInt truncate towards zero, which is \<open>sdiv\<close> and \<open>smod\<close>.

  \<open>ratOf\<close> reads a pair as a rational number. What is shown: the operations are exact and give
  reduced fractions with positive denominators, comparison is the order of the rationals, and
  median and quantile are the textbook ones (\<open>median\<close>, \<open>quantile7\<close>), with
  \<open>quantile7\<close> monotone in the probability.
\<close>

section \<open>Fractions\<close>

record StudyRationalV1 =
  numerator :: int
  denominator :: int

definition studyError :: "string \<Rightarrow> error" where
  "studyError code = CodedError ''StudyContractError'' code"

function gcdLoop :: "int \<Rightarrow> int \<Rightarrow> int" where
  "gcdLoop a b = (if b \<noteq> 0 then gcdLoop b (a smod b) else a)"
  by auto
termination
proof (relation "measure (\<lambda>(a, b). nat \<bar>b\<bar>)")
  fix a b :: int
  assume "b \<noteq> 0"
  then show "((b, a smod b), (a, b)) \<in> measure (\<lambda>(a, b). nat \<bar>b\<bar>)"
    by (simp add: signed_modulo_int_def abs_mult abs_sgn_eq)
qed simp

declare gcdLoop.simps [simp del]

definition studyGcd :: "int \<Rightarrow> int \<Rightarrow> int" where
  "studyGcd left right = gcdLoop (if left < 0 then - left else left) (if right < 0 then - right else right)"

definition rational :: "int \<Rightarrow> int \<Rightarrow> StudyRationalV1 result" where
  "rational n d =
     (if d = 0 then Inl (studyError ''study.input-invalid'')
      else let sign = (if d < 0 then - 1 else 1); divisor = studyGcd n d
        in Inr \<lparr>numerator = (n * sign) sdiv divisor, denominator = (d * sign) sdiv divisor\<rparr>)"

definition compareRational :: "StudyRationalV1 \<Rightarrow> StudyRationalV1 \<Rightarrow> int" where
  "compareRational left right =
     (let difference = numerator left * denominator right - numerator right * denominator left
      in if difference < 0 then - 1 else if difference > 0 then 1 else 0)"

definition addRational :: "StudyRationalV1 \<Rightarrow> StudyRationalV1 \<Rightarrow> StudyRationalV1 result" where
  "addRational left right =
     rational (numerator left * denominator right + numerator right * denominator left)
       (denominator left * denominator right)"

definition multiplyRational :: "StudyRationalV1 \<Rightarrow> StudyRationalV1 \<Rightarrow> StudyRationalV1 result" where
  "multiplyRational left right =
     rational (numerator left * numerator right) (denominator left * denominator right)"

definition exactMedian :: "StudyRationalV1 list \<Rightarrow> StudyRationalV1 result" where
  "exactMedian values =
     (if values = [] then Inl (studyError ''study.input-invalid'')
      else let sorted = sortBy compareRational values;
               middle = length sorted div 2;
               upper = sorted ! middle
        in if odd (length sorted) then Inr upper
           else bindR (addRational (sorted ! (middle - 1)) upper) (\<lambda>sum.
                bindR (rational 1 2) (multiplyRational sum)))"

definition type7Quantile :: "StudyRationalV1 list \<Rightarrow> StudyRationalV1 \<Rightarrow> StudyRationalV1 result" where
  "type7Quantile sortedValues probability =
     (if sortedValues = [] \<or> numerator probability < 0 \<or> denominator probability < numerator probability
      then Inl (studyError ''study.input-invalid'')
      else if list_ex (\<lambda>i. 0 < compareRational (sortedValues ! (i - 1)) (sortedValues ! i)) [1..<length sortedValues]
      then Inl (studyError ''study.input-invalid'')
      else if denominator probability = 0 then Inl (RangeError ''Division by zero'')
      else let nMinusOne = int (length sortedValues - 1);
               offsetNumerator = nMinusOne * numerator probability;
               lowerIndex = nat (offsetNumerator sdiv denominator probability);
               remainder = offsetNumerator smod denominator probability;
               lower = sortedValues ! lowerIndex
        in if remainder = 0 \<or> lowerIndex = length sortedValues - 1 then Inr lower
           else let upper = sortedValues ! (lowerIndex + 1)
             in bindR (rational (denominator probability - remainder) (denominator probability)) (\<lambda>w.
                bindR (multiplyRational lower w) (\<lambda>l.
                bindR (rational remainder (denominator probability)) (\<lambda>u.
                bindR (multiplyRational upper u) (addRational l)))))"


section \<open>Exactness\<close>

definition ratOf :: "StudyRationalV1 \<Rightarrow> rat" where
  "ratOf q = of_int (numerator q) / of_int (denominator q)"

definition positiveDen :: "StudyRationalV1 \<Rightarrow> bool" where
  "positiveDen q \<longleftrightarrow> 0 < denominator q"

definition reduced :: "StudyRationalV1 \<Rightarrow> bool" where
  "reduced q \<longleftrightarrow> positiveDen q \<and> coprime (numerator q) (denominator q)"

lemma gcdLoop_gcd: "0 \<le> a \<Longrightarrow> 0 \<le> b \<Longrightarrow> gcdLoop a b = gcd a b"
proof (induction a b rule: gcdLoop.induct)
  case (1 a b)
  then have "a smod b = a mod b" by (simp add: signed_modulo_int_def sgn_if)
  with 1 show ?case
    by (subst gcdLoop.simps) (auto simp: gcd.commute [of b] gcd_red_int [symmetric])
qed

lemma studyGcd_gcd: "studyGcd n d = gcd n d"
  by (simp add: studyGcd_def gcdLoop_gcd)

lemma sdiv_dvd: "0 < g \<Longrightarrow> g dvd n \<Longrightarrow> (n sdiv g) * g = n" for n g :: int
  by (auto simp: signed_divide_int_def sgn_mult abs_mult sgn_if elim!: dvdE)

lemma rational_exact:
  assumes "d \<noteq> 0"
  shows "\<exists>q. rational n d = Inr q \<and> reduced q \<and> ratOf q = of_int n / of_int d"
proof -
  define g where "g = gcd n d"
  define s :: int where "s = (if d < 0 then - 1 else 1)"
  define a where "a = (n * s) sdiv g"
  define b where "b = (d * s) sdiv g"
  have g: "0 < g" "g dvd n * s" "g dvd d * s" using assms by (simp_all add: g_def)
  have eqs: "a * g = n * s" "b * g = d * s" using g sdiv_dvd by (auto simp: a_def b_def)
  have "0 < b * g" using eqs(2) assms by (simp add: s_def)
  with g(1) have b: "0 < b" by (simp add: zero_less_mult_iff)
  have "gcd (a * g) (b * g) = g" using eqs by (simp add: g_def s_def split: if_splits)
  then have "coprime a b" using g(1) by (simp add: gcd_mult_right coprime_iff_gcd_eq_1 gcd.commute)
  moreover have "of_int a / of_int b = (of_int (a * g) / of_int (b * g) :: rat)" using g(1) by simp
  then have "of_int a / of_int b = (of_int n / of_int d :: rat)"
    unfolding eqs by (simp add: s_def)
  ultimately show ?thesis
    using assms b
    by (auto simp: rational_def studyGcd_gcd reduced_def positiveDen_def ratOf_def a_def b_def g_def s_def Let_def)
qed

lemma ratOf_le:
  assumes "positiveDen p" "positiveDen q"
  shows "ratOf p \<le> ratOf q \<longleftrightarrow> numerator p * denominator q \<le> numerator q * denominator p"
proof -
  have "ratOf p \<le> ratOf q \<longleftrightarrow>
      (of_int (numerator p) * of_int (denominator q) :: rat) \<le> of_int (numerator q) * of_int (denominator p)"
    using assms by (simp add: ratOf_def positiveDen_def divide_simps)
  then show ?thesis by (simp only: of_int_mult [symmetric] of_int_le_iff)
qed

lemma compareRational_order:
  "positiveDen p \<Longrightarrow> positiveDen q \<Longrightarrow> compareRational p q = orderOf (ratOf p) (ratOf q)"
  using ratOf_le [of p q] ratOf_le [of q p]
  by (auto simp: compareRational_def orderOf_def Let_def)

lemma reduced_positive: "reduced q \<Longrightarrow> positiveDen q"
  by (simp add: reduced_def)

lemma reduced_unique: "reduced p \<Longrightarrow> reduced q \<Longrightarrow> ratOf p = ratOf q \<Longrightarrow> p = q"
proof -
  assume r: "reduced p" "reduced q" and eq: "ratOf p = ratOf q"
  have pos: "positiveDen p" "positiveDen q" using r by (simp_all add: reduced_def)
  have "numerator p * denominator q = numerator q * denominator p"
    using eq ratOf_le [OF pos] ratOf_le [OF pos(2,1)] by simp
  moreover from this have "denominator p dvd denominator q" "denominator q dvd denominator p"
    using r by (metis reduced_def coprime_commute coprime_dvd_mult_right_iff dvd_triv_right)+
  then have "denominator p = denominator q"
    using pos by (simp add: positiveDen_def zdvd_antisym_nonneg)
  ultimately show ?thesis using pos by (simp add: positiveDen_def)
qed

lemma addRational_exact:
  assumes "positiveDen p" "positiveDen q"
  shows "\<exists>r. addRational p q = Inr r \<and> reduced r \<and> ratOf r = ratOf p + ratOf q"
  using rational_exact [of "denominator p * denominator q"
      "numerator p * denominator q + numerator q * denominator p"] assms
  by (auto simp: addRational_def positiveDen_def ratOf_def add_frac_eq)

lemma multiplyRational_exact:
  assumes "positiveDen p" "positiveDen q"
  shows "\<exists>r. multiplyRational p q = Inr r \<and> reduced r \<and> ratOf r = ratOf p * ratOf q"
  using rational_exact [of "denominator p * denominator q" "numerator p * numerator q"] assms
  by (auto simp: multiplyRational_def positiveDen_def ratOf_def)


section \<open>Median and quantile\<close>

definition median :: "rat list \<Rightarrow> rat" where
  "median xs = (let s = sort xs; m = length xs div 2
     in if odd (length xs) then s ! m else (s ! (m - 1) + s ! m) / 2)"

definition quantile7 :: "rat list \<Rightarrow> rat \<Rightarrow> rat" where
  "quantile7 xs p = (let h = of_nat (length xs - 1) * p; i = nat \<lfloor>h\<rfloor>
     in if i + 1 < length xs then xs ! i + (h - of_int \<lfloor>h\<rfloor>) * (xs ! (i + 1) - xs ! i) else xs ! i)"

lemma map_sortBy_compare:
  assumes "list_all positiveDen xs"
  shows "map ratOf (sortBy compareRational xs) = sort (map ratOf xs)"
proof -
  have "sortBy compareRational xs = sort_key ratOf xs"
    using assms by (intro sortBy_sort_key) (simp add: compareRational_order list_all_iff)
  moreover have "map ratOf (sort_key ratOf xs) = sort (map ratOf xs)"
    by (rule properties_for_sort [symmetric]) simp_all
  ultimately show ?thesis by simp
qed

lemma exactMedian_exact:
  assumes "values \<noteq> []" "list_all positiveDen values"
  shows "\<exists>q. exactMedian values = Inr q \<and> positiveDen q \<and> ratOf q = median (map ratOf values)"
proof -
  let ?s = "sortBy compareRational values" and ?m = "length values div 2"
  have nth: "positiveDen (?s ! i)" "ratOf (?s ! i) = sort (map ratOf values) ! i" if "i < length values" for i
    using that assms(2) nth_mem [of i ?s] map_sortBy_compare [OF assms(2)] nth_map [of i ?s ratOf]
    by (simp_all add: list_all_iff)
  have m: "?m < length values" "?m - 1 < length values" using assms(1) by (auto intro: less_imp_diff_less)
  obtain h where h: "rational 1 2 = Inr h" "positiveDen h" "ratOf h = 1 / 2"
    using rational_exact [of 2 1] by (auto simp: reduced_def)
  obtain t where t: "addRational (?s ! (?m - 1)) (?s ! ?m) = Inr t" "positiveDen t"
      "ratOf t = ratOf (?s ! (?m - 1)) + ratOf (?s ! ?m)"
    using addRational_exact [OF nth(1) [OF m(2)] nth(1) [OF m(1)]] by (auto simp: reduced_def)
  obtain r where "multiplyRational t h = Inr r" "positiveDen r" "ratOf r = ratOf t * ratOf h"
    using multiplyRational_exact [OF t(2) h(2)] by (auto simp: reduced_def)
  with t h nth [OF m(1)] nth [OF m(2)] assms(1) show ?thesis
    by (auto simp: exactMedian_def median_def Let_def)
qed

lemma sortedness_check:
  assumes "list_all positiveDen xs"
  shows "list_ex (\<lambda>i. 0 < compareRational (xs ! (i - 1)) (xs ! i)) [1..<length xs] \<longleftrightarrow> \<not> sorted (map ratOf xs)"
proof -
  have step: "0 < compareRational (xs ! i) (xs ! Suc i) \<longleftrightarrow> ratOf (xs ! Suc i) < ratOf (xs ! i)"
    if "Suc i < length xs" for i
    using assms that by (simp add: compareRational_order list_all_length)
  have "list_ex (\<lambda>i. 0 < compareRational (xs ! (i - 1)) (xs ! i)) [1..<length xs] \<longleftrightarrow>
      (\<exists>i. Suc i < length xs \<and> 0 < compareRational (xs ! i) (xs ! Suc i))"
    unfolding list_ex_iff set_upt
    by (metis (no_types, lifting) Suc_le_D atLeastLessThan_iff diff_Suc_1 One_nat_def Suc_leI zero_less_Suc)
  also have "\<dots> \<longleftrightarrow> \<not> sorted (map ratOf xs)"
    using step by (auto simp: sorted_iff_nth_Suc not_le)
  finally show ?thesis .
qed

lemma interpolation_exact:
  assumes "positiveDen x" "positiveDen y" "0 < d"
  shows "\<exists>q. bindR (rational (d - r) d) (\<lambda>w. bindR (multiplyRational x w) (\<lambda>l.
            bindR (rational r d) (\<lambda>u. bindR (multiplyRational y u) (addRational l)))) = Inr q \<and>
      positiveDen q \<and> ratOf q = ratOf x + of_int r / of_int d * (ratOf y - ratOf x)"
proof -
  obtain w where w: "rational (d - r) d = Inr w" "positiveDen w" "ratOf w = of_int (d - r) / of_int d"
    using rational_exact [of d "d - r"] assms(3) by (auto simp: reduced_def)
  obtain u where u: "rational r d = Inr u" "positiveDen u" "ratOf u = of_int r / of_int d"
    using rational_exact [of d r] assms(3) by (auto simp: reduced_def)
  obtain a where a: "multiplyRational x w = Inr a" "positiveDen a" "ratOf a = ratOf x * ratOf w"
    using multiplyRational_exact [OF assms(1) w(2)] by (auto simp: reduced_def)
  obtain b where b: "multiplyRational y u = Inr b" "positiveDen b" "ratOf b = ratOf y * ratOf u"
    using multiplyRational_exact [OF assms(2) u(2)] by (auto simp: reduced_def)
  obtain q where q: "addRational a b = Inr q" "positiveDen q" "ratOf q = ratOf a + ratOf b"
    using addRational_exact [OF a(2) b(2)] by (auto simp: reduced_def)
  have "ratOf q = ratOf x + of_int r / of_int d * (ratOf y - ratOf x)"
    using assms(3) unfolding q(3) a(3) b(3) w(3) u(3) by (simp add: field_simps)
  with w(1) u(1) a(1) b(1) q show ?thesis by auto
qed

lemma type7Quantile_exact:
  assumes "xs \<noteq> []" "list_all positiveDen xs" "sorted (map ratOf xs)"
    and "positiveDen p" "0 \<le> ratOf p" "ratOf p \<le> 1"
  shows "\<exists>q. type7Quantile xs p = Inr q \<and> positiveDen q \<and> ratOf q = quantile7 (map ratOf xs) (ratOf p)"
proof -
  define n where "n = numerator p"
  define d where "d = denominator p"
  have d: "0 < d" using assms(4) by (simp add: d_def positiveDen_def)
  have n: "0 \<le> n" "n \<le> d"
    using assms(5,6) d by (auto simp: ratOf_def n_def d_def zero_le_divide_iff divide_le_eq)
  define off where "off = int (length xs - 1) * n"
  have off: "0 \<le> off" using n by (simp add: off_def)
  define i where "i = nat (off div d)"
  define r where "r = off mod d"
  have sd: "off sdiv d = off div d" "off smod d = r"
    using off d by (simp_all add: signed_divide_int_def signed_modulo_int_def sgn_if r_def)
  have h: "of_nat (length xs - 1) * ratOf p = (of_int off / of_int d :: rat)"
    by (simp add: ratOf_def off_def n_def d_def)
  have fl: "\<lfloor>of_nat (length xs - 1) * ratOf p\<rfloor> = off div d"
    unfolding h by (rule floor_divide_of_int_eq)
  have frac: "(of_int off / of_int d :: rat) - of_int (off div d) = of_int r / of_int d"
  proof -
    have "(of_int off :: rat) = of_int (off div d) * of_int d + of_int r"
      unfolding r_def of_int_mult [symmetric] of_int_add [symmetric] by simp
    with d show ?thesis by (simp add: field_simps)
  qed
  have "off \<le> int (length xs - 1) * d" unfolding off_def by (intro mult_left_mono n) simp
  then have "off div d \<le> int (length xs - 1)"
    using d zdiv_mono1 [of off "int (length xs - 1) * d" d] by simp
  then have i: "i \<le> length xs - 1" using off d by (simp add: i_def nat_le_iff)
  then have i': "i < length xs" using assms(1) by (cases xs) auto
  have nth: "positiveDen (xs ! j)" "ratOf (xs ! j) = map ratOf xs ! j" if "j < length xs" for j
    using that assms(2) by (simp_all add: list_all_length)
  have unfolded: "type7Quantile xs p =
      (if r = 0 \<or> i = length xs - 1 then Inr (xs ! i)
       else bindR (rational (d - r) d) (\<lambda>w. bindR (multiplyRational (xs ! i) w) (\<lambda>l.
            bindR (rational r d) (\<lambda>u. bindR (multiplyRational (xs ! (i + 1)) u) (addRational l)))))"
    unfolding type7Quantile_def Let_def n_def [symmetric] d_def [symmetric] off_def [symmetric] sd i_def [symmetric]
    using assms(1) sortedness_check [OF assms(2)] assms(3) n d by simp
  have spec: "quantile7 (map ratOf xs) (ratOf p) = (if i + 1 < length xs
      then map ratOf xs ! i + of_int r / of_int d * (map ratOf xs ! (i + 1) - map ratOf xs ! i) else map ratOf xs ! i)"
    unfolding quantile7_def Let_def length_map fl unfolding h frac i_def [symmetric] ..
  show ?thesis
  proof (cases "r = 0 \<or> i = length xs - 1")
    case True
    then have "quantile7 (map ratOf xs) (ratOf p) = map ratOf xs ! i" unfolding spec by auto
    with True nth [OF i'] show ?thesis unfolding unfolded by simp
  next
    case False
    then have j: "i + 1 < length xs" using i by linarith
    obtain q where q: "bindR (rational (d - r) d) (\<lambda>w. bindR (multiplyRational (xs ! i) w) (\<lambda>l.
          bindR (rational r d) (\<lambda>u. bindR (multiplyRational (xs ! (i + 1)) u) (addRational l)))) = Inr q"
        "positiveDen q" "ratOf q = ratOf (xs ! i) + of_int r / of_int d * (ratOf (xs ! (i + 1)) - ratOf (xs ! i))"
      using interpolation_exact [OF nth(1) [OF i'] nth(1) [OF j] d] by blast
    have "ratOf q = quantile7 (map ratOf xs) (ratOf p)" using j i' unfolding q(3) spec by simp
    with False q(1,2) show ?thesis unfolding unfolded by simp
  qed
qed

text \<open>The quantile is monotone in the probability, and the median is the quantile at one half.\<close>

lemma quantile7_mono:
  assumes "xs \<noteq> []" "sorted xs" "0 \<le> p" "p \<le> q" "q \<le> 1"
  shows "quantile7 xs p \<le> quantile7 xs q"
proof -
  define a where "a = of_nat (length xs - 1) * p"
  define b where "b = of_nat (length xs - 1) * q"
  have ab: "0 \<le> a" "a \<le> b" "b \<le> of_nat (length xs - 1)"
    using assms(3-5) by (auto simp: a_def b_def mult_left_mono mult_left_le)
  define i where "i = nat \<lfloor>a\<rfloor>"
  define j where "j = nat \<lfloor>b\<rfloor>"
  have fl: "\<lfloor>a\<rfloor> = int i" "\<lfloor>b\<rfloor> = int j" using ab by (auto simp: i_def j_def)
  have "\<lfloor>b\<rfloor> \<le> int (length xs - 1)" using ab(3) by (simp add: floor_le_iff)
  then have j: "j \<le> length xs - 1" using fl(2) by simp
  have ij: "i \<le> j" using floor_mono [OF ab(2)] fl by simp
  have len: "0 < length xs" using assms(1) by simp
  have qa: "quantile7 xs p = (if i + 1 < length xs then xs ! i + (a - of_int \<lfloor>a\<rfloor>) * (xs ! (i + 1) - xs ! i) else xs ! i)"
    by (simp only: quantile7_def Let_def a_def [symmetric] i_def [symmetric])
  have qb: "quantile7 xs q = (if j + 1 < length xs then xs ! j + (b - of_int \<lfloor>b\<rfloor>) * (xs ! (j + 1) - xs ! j) else xs ! j)"
    by (simp only: quantile7_def Let_def b_def [symmetric] j_def [symmetric])
  have fa: "0 \<le> a - of_int \<lfloor>a\<rfloor>" "a - of_int \<lfloor>a\<rfloor> \<le> 1" and fb: "0 \<le> b - of_int \<lfloor>b\<rfloor>" by linarith+
  have nth: "xs ! k \<le> xs ! l" if "k \<le> l" "l < length xs" for k l
    using assms(2) that by (simp add: sorted_iff_nth_mono)
  show ?thesis
  proof (cases "i = j")
    case True
    then have "a - of_int \<lfloor>a\<rfloor> \<le> b - of_int \<lfloor>b\<rfloor>" using ab(2) fl by simp
    then show ?thesis using True nth [of j "j + 1"] unfolding qa qb by (auto intro: mult_right_mono)
  next
    case False
    with ij have lt: "i + 1 \<le> j" by simp
    then have i1: "i + 1 < length xs" using j len by linarith
    have "(a - of_int \<lfloor>a\<rfloor>) * (xs ! (i + 1) - xs ! i) \<le> xs ! (i + 1) - xs ! i"
      using fa nth [of i "i + 1"] i1 by (simp add: mult_left_le_one_le)
    then have "quantile7 xs p \<le> xs ! (i + 1)" using i1 qa by simp
    also have "\<dots> \<le> xs ! j" by (rule nth [OF lt]) (use j len in linarith)
    also have "\<dots> \<le> quantile7 xs q" using fb nth [of j "j + 1"] unfolding qb by simp
    finally show ?thesis .
  qed
qed

lemma quantile7_half:
  assumes "xs \<noteq> []" "sorted xs"
  shows "quantile7 xs (1 / 2) = median xs"
proof (cases "odd (length xs)")
  case True
  then obtain k where k: "length xs = 2 * k + 1" by (rule oddE)
  have "of_nat (length xs - 1) * (1 / 2) = (of_nat k :: rat)" using k by simp
  moreover have "length xs div 2 = k" using k by simp
  ultimately show ?thesis
    unfolding quantile7_def median_def Let_def using True assms(2) by (auto simp: sort_key_id_if_sorted)
next
  case False
  then obtain k where k: "length xs = 2 * k" by (metis evenE)
  with assms(1) have "0 < k" by (cases k) auto
  have h: "of_nat (length xs - 1) * (1 / 2) = (of_nat (k - 1) + 1 / 2 :: rat)"
    using k \<open>0 < k\<close> by (simp add: of_nat_diff field_simps)
  have fl: "\<lfloor>of_nat (k - 1) + 1 / 2 :: rat\<rfloor> = int (k - 1)" by (rule floor_unique) simp_all
  have i: "k - 1 + 1 < length xs" "k - 1 + 1 = k" "length xs div 2 = k" using k \<open>0 < k\<close> by simp_all
  have "quantile7 xs (1 / 2) = xs ! (k - 1) + (1 / 2) * (xs ! k - xs ! (k - 1))"
    unfolding quantile7_def Let_def h fl nat_int using i by simp
  also have "\<dots> = (xs ! (k - 1) + xs ! k) / 2" by (simp add: field_simps)
  also have "\<dots> = median xs"
    unfolding median_def Let_def using False assms(2) i by (simp add: sort_key_id_if_sorted)
  finally show ?thesis .
qed

end
