(* ===== verification/Hamilton.thy ===== *)
theory Hamilton
  imports StudyRational Quota
begin

text \<open>
  \<open>capacityHamilton\<close> of \<^verbatim>\<open>src/study/market-reference/algorithms.ts\<close>: the allocation of
  seats to cells in proportion to their capacities, by largest remainders. The code computes with
  Numbers. \<open>dround\<close> is the rounding of an integer to the nearest double and \<open>dquot\<close> the
  floor of the rounded quotient of two integers, so the model is exact outside the safe range too.
  The \<open>while\<close> loop runs on fuel; the number of requested seats always suffices.

  What is shown: the function returns on every input; where the products stay below \<open>2 ^ 53\<close>
  it allocates exactly the requested seats, each cell gets its quota rounded down or one more and
  never more than its capacity, and the additional seats go to the largest remainders, with ties
  broken by the bytes of the cell identifier.
\<close>

section \<open>Quotients of Numbers\<close>

definition dquot :: "int \<Rightarrow> int \<Rightarrow> int" where
  "dquot a b =
     (let q = bits (nat a div nat b)
      in int (round_div (nat a * 2 ^ (53 - q)) (nat b * 2 ^ (q - 53)) * 2 ^ (q - 53) div 2 ^ (53 - q)))"

lemma round_div_lower: "0 < d \<Longrightarrow> m * d \<le> n \<Longrightarrow> m \<le> round_div n d"
proof -
  assume "0 < d" "m * d \<le> n"
  then have "m \<le> n div d" by (simp add: less_eq_div_iff_mult_less_eq)
  then show ?thesis by (auto simp: round_div_def Let_def)
qed

lemma round_div_upper:
  assumes "0 < d" "2 * n + d < 2 * m * d"
  shows "round_div n d < m"
proof -
  have n: "n = n div d * d + n mod d" by simp
  have "n div d < m"
  proof (rule ccontr)
    assume "\<not> n div d < m"
    then have "m * d \<le> n div d * d" by simp
    with n assms(2) show False by linarith
  qed
  moreover have "2 * (n mod d) < d" if "m = Suc (n div d)"
  proof -
    have "2 * Suc (n div d) * d = 2 * (n div d * d) + 2 * d" by simp
    with assms(2) n show ?thesis unfolding that by linarith
  qed
  ultimately show ?thesis by (fastforce simp: round_div_def Let_def)
qed

text \<open>Where the dividend fits 53 bits, the floor of the rounded quotient is the quotient.\<close>

lemma dquot_exact:
  assumes "0 \<le> a" "a < 2 ^ 53" "0 < b" "b \<le> 2 ^ 53"
  shows "dquot a b = a div b"
proof -
  define m n where "m = nat a" and "n = nat b"
  have mn: "m < 2 ^ 53" "0 < n" "n \<le> 2 ^ 53" using assms by (simp_all add: m_def n_def nat_less_iff nat_le_iff)
  define q where "q = m div n"
  define k where "k = 53 - bits q"
  have "q \<le> m" by (simp add: q_def)
  then have bq: "bits q \<le> 53" using mn(1) by (intro bits_le) simp
  have r: "m = q * n + m mod n" "m mod n < n" using mn(2) by (simp_all add: q_def)
  have half: "n < 2 * 2 ^ k"
  proof (cases "q = 0")
    case True
    then show ?thesis using mn(3) by (simp add: k_def bits.simps)
  next
    case False
    have "2 ^ (bits q - 1) \<le> q"
    proof (rule ccontr)
      assume "\<not> 2 ^ (bits q - 1) \<le> q"
      then have "bits q \<le> bits q - 1" by (intro bits_le) simp
      moreover have "0 < bits q" using False by (subst bits.simps) simp
      ultimately show False by simp
    qed
    then have "2 ^ (bits q - 1) * n \<le> q * n" by simp
    also have "\<dots> < 2 ^ 53" using r(1) mn(1) by linarith
    also have "(2::nat) ^ 53 = 2 ^ (bits q - 1) * (2 * 2 ^ k)"
    proof -
      have "0 < bits q" using False by (subst bits.simps) simp
      then have "53 = (bits q - 1) + Suc k" using bq by (simp add: k_def)
      then show ?thesis by (metis power_add power_Suc)
    qed
    finally show ?thesis by simp
  qed
  have "q * 2 ^ k \<le> round_div (m * 2 ^ k) n"
    using mn(2) r(1) by (intro round_div_lower) (simp_all add: algebra_simps)
  moreover have "round_div (m * 2 ^ k) n < (q + 1) * 2 ^ k"
  proof (rule round_div_upper [OF mn(2)])
    have "(m + 1) * 2 ^ k \<le> (q + 1) * n * 2 ^ k" using r by (intro mult_right_mono) (simp_all add: algebra_simps)
    with half show "2 * (m * 2 ^ k) + n < 2 * ((q + 1) * 2 ^ k) * n" by (simp add: algebra_simps)
  qed
  ultimately have "round_div (m * 2 ^ k) n div 2 ^ k = q"
    by (intro div_nat_eqI) (simp_all add: algebra_simps)
  then have "dquot a b = int q"
    using bq by (simp add: dquot_def Let_def m_def [symmetric] n_def [symmetric] q_def [symmetric] k_def)
  then show ?thesis using assms by (simp add: q_def m_def n_def zdiv_int)
qed

lemma dround_nonneg: "0 \<le> n \<Longrightarrow> 0 \<le> dround n"
  by (auto simp: dround_def Let_def sgn_if)

lemma dround_nonpos: "n \<le> 0 \<Longrightarrow> dround n \<le> 0"
  by (auto simp: dround_def Let_def sgn_if)

lemma dround_pos: "0 < n \<Longrightarrow> 0 < dround n"
proof (cases "n < 2 ^ 53")
  case False
  then show ?thesis using dround_unsafe [of n] by (simp add: MAX_SAFE_INTEGER_def)
qed (simp add: dround_exact)


section \<open>Allocation\<close>

record CapacityCellV1 =
  cellId :: jsstring
  capacity :: jsnum

record CapacityAwardV1 =
  awardCellId :: jsstring
  awarded :: int
  awardCapacity :: int

type_synonym awards = "jsstring \<Rightarrow> int"
type_synonym activeCells = "(jsstring \<times> int) list"

definition cellOrder :: "jsstring \<Rightarrow> jsstring \<Rightarrow> int" where
  "cellOrder left right = orderOf (utf8 left) (utf8 right)"

definition capacitySum :: "activeCells \<Rightarrow> int" where
  "capacitySum active = foldl (\<lambda>sum cell. dadd sum (snd cell)) 0 active"

definition floorAward :: "int \<Rightarrow> int \<Rightarrow> int \<Rightarrow> int" where
  "floorAward passSeats capSum cap = min (dquot (dround (passSeats * cap)) capSum) cap"

definition cellRemainder :: "int \<Rightarrow> int \<Rightarrow> int \<Rightarrow> int" where
  "cellRemainder passSeats capSum cap =
     (let award = floorAward passSeats capSum cap in dround (passSeats * ((cap - award) + award)) mod capSum)"

definition remainderOrder :: "jsstring \<times> int \<Rightarrow> jsstring \<times> int \<Rightarrow> int" where
  "remainderOrder = thenBy (\<lambda>left right. snd right - snd left) (\<lambda>left right. cellOrder (fst left) (fst right))"

fun distribute :: "(jsstring \<times> int) list \<Rightarrow> awards \<times> activeCells \<times> int \<Rightarrow> awards \<times> activeCells \<times> int" where
  "distribute [] st = st"
| "distribute (r # rs) (aw, active, remaining) =
     (if remaining = 0 then (aw, active, remaining)
      else case find (\<lambda>cell. fst cell = fst r) active of
        None \<Rightarrow> distribute rs (aw, active, remaining)
      | Some cell \<Rightarrow>
          if 0 < snd cell
          then distribute rs (aw(fst cell := aw (fst cell) + 1),
                 map (\<lambda>c. if fst c = fst cell then (fst c, snd c - 1) else c) active, dsub remaining 1)
          else distribute rs (aw, active, remaining))"

definition hamiltonPass :: "awards \<times> activeCells \<times> int \<Rightarrow> awards \<times> activeCells \<times> int" where
  "hamiltonPass st =
     (let (aw, active, remaining) = st;
          capSum = capacitySum active;
          awardOf = (\<lambda>cell. floorAward remaining capSum (snd cell));
          aw' = foldl (\<lambda>a cell. a(fst cell := a (fst cell) + awardOf cell)) aw active;
          active' = map (\<lambda>cell. (fst cell, snd cell - awardOf cell)) active;
          floorAwards = foldl (\<lambda>n cell. dadd n (awardOf cell)) 0 active;
          remainders = sortBy remainderOrder (map (\<lambda>cell. (fst cell, cellRemainder remaining capSum (snd cell))) active);
          (aw'', active'', remaining'') = distribute remainders (aw', active', dsub remaining floorAwards)
      in (aw'', filter (\<lambda>cell. 0 < snd cell) active'', remaining''))"

fun hamiltonLoop :: "nat \<Rightarrow> awards \<times> activeCells \<times> int \<Rightarrow> awards result option" where
  "hamiltonLoop fuel (aw, active, remaining) =
     (if remaining \<le> 0 then Some (Inr aw)
      else case fuel of
        0 \<Rightarrow> None
      | Suc fuel' \<Rightarrow>
          (let (aw', active', remaining') = hamiltonPass (aw, active, remaining)
           in if active' = [] \<and> 0 < remaining' then Some (Inl (studyError ''study.quota-insufficient''))
              else hamiltonLoop fuel' (aw', active', remaining')))"

declare hamiltonLoop.simps [simp del]

definition capacityHamilton :: "CapacityCellV1 list \<Rightarrow> jsnum \<Rightarrow> CapacityAwardV1 list result option" where
  "capacityHamilton cells requestedSeats =
     (if \<not> isEpochMs requestedSeats then Some (Inl (studyError ''study.input-invalid''))
      else let ordered = sortBy (\<lambda>left right. cellOrder (cellId left) (cellId right)) cells in
      if length (remdups (map cellId ordered)) \<noteq> length ordered then Some (Inl (studyError ''study.input-invalid''))
      else if list_ex (\<lambda>cell. \<not> isPositive (capacity cell)) ordered then Some (Inl (studyError ''study.input-invalid''))
      else let active = map (\<lambda>cell. (cellId cell, numInt (capacity cell))) ordered;
               requested = numInt requestedSeats in
      if capacitySum active < requested then Some (Inl (studyError ''study.quota-insufficient''))
      else map_option (\<lambda>r. bindR r (\<lambda>aw. Inr (map (\<lambda>cell.
             \<lparr>awardCellId = fst cell, awarded = aw (fst cell), awardCapacity = snd cell\<rparr>) active)))
           (hamiltonLoop (nat requested) (\<lambda>_. 0, active, requested)))"


section \<open>The loop ends\<close>

lemma distribute_nonpos: "snd (snd st) \<le> 0 \<Longrightarrow> snd (snd (distribute rs st)) \<le> 0"
proof (induction rs st rule: distribute.induct)
  case (2 r rs aw active remaining)
  have "dsub remaining 1 \<le> 0" using 2(4) by (simp add: dsub_def dround_nonpos)
  with 2 show ?case by (auto split: option.splits)
qed simp

lemma distribute_le: "0 \<le> snd (snd st) \<Longrightarrow> snd (snd st) < 2 ^ 53 \<Longrightarrow> snd (snd (distribute rs st)) \<le> snd (snd st)"
proof (induction rs st rule: distribute.induct)
  case (2 r rs aw active remaining)
  have "remaining \<noteq> 0 \<Longrightarrow> dsub remaining 1 = remaining - 1" using 2(4,5) by (simp add: dsub_exact)
  with 2 show ?case by (fastforce split: option.splits)
qed simp

text \<open>A pass over positive capacities lowers the remaining seats.\<close>

lemma floors_nonneg: "foldl (\<lambda>n cell. dadd n (f cell)) n0 xs \<ge> 0" if "0 \<le> n0" "\<And>c. c \<in> set xs \<Longrightarrow> 0 \<le> f c"
  using that by (induction xs arbitrary: n0) (simp_all add: dadd_def dround_nonneg)

lemma floors_zero:
  assumes "foldl (\<lambda>n cell. dadd n (f cell)) n0 xs \<le> 0" "0 \<le> n0" "\<And>c. c \<in> set xs \<Longrightarrow> 0 \<le> f c"
  shows "n0 = 0 \<and> (\<forall>c \<in> set xs. f c = 0)"
  using assms
proof (induction xs arbitrary: n0)
  case (Cons c xs)
  have "0 \<le> f c" using Cons.prems(3) by simp
  then have "dadd n0 (f c) = 0 \<and> (\<forall>c \<in> set xs. f c = 0)"
    using Cons.prems by (intro Cons.IH) (auto simp: dadd_def intro: dround_nonneg)
  moreover from this have "n0 + f c \<le> 0" using dround_pos [of "n0 + f c"] by (auto simp: dadd_def not_le [symmetric])
  ultimately show ?case using Cons.prems(2) \<open>0 \<le> f c\<close> by auto
qed simp

lemma dquot_nonneg: "0 \<le> dquot a b"
  by (simp add: dquot_def Let_def)

definition positiveCells :: "activeCells \<Rightarrow> bool" where
  "positiveCells active \<longleftrightarrow> active \<noteq> [] \<and> (\<forall>cell \<in> set active. 0 < snd cell)"

lemma sortBy_nonempty: "xs \<noteq> [] \<Longrightarrow> \<exists>y ys. sortBy cmp xs = y # ys \<and> y \<in> set xs"
  by (metis length_0_conv length_sortBy list.set_intros(1) neq_Nil_conv set_sortBy)

lemma hamiltonPass_decreases:
  assumes "0 < remaining" "remaining < 2 ^ 53" "positiveCells active"
    and "hamiltonPass (aw, active, remaining) = (aw'', active'', remaining'')"
  shows "remaining'' < remaining"
proof -
  define f where "f = (\<lambda>cell :: jsstring \<times> int. floorAward remaining (capacitySum active) (snd cell))"
  define fa where "fa = foldl (\<lambda>n cell. dadd n (f cell)) 0 active"
  define aw' where "aw' = foldl (\<lambda>a cell. a(fst cell := a (fst cell) + f cell)) aw active"
  define act' where "act' = map (\<lambda>cell. (fst cell, snd cell - f cell)) active"
  define rs where "rs = sortBy remainderOrder (map (\<lambda>cell. (fst cell, cellRemainder remaining (capacitySum active) (snd cell))) active)"
  have res: "remaining'' = snd (snd (distribute rs (aw', act', dsub remaining fa)))"
    using assms(4) by (auto simp: hamiltonPass_def Let_def f_def fa_def aw'_def act'_def rs_def split: prod.splits)
  have f0: "0 \<le> f c" if "c \<in> set active" for c
    using that assms(3) dquot_nonneg by (auto simp: f_def floorAward_def positiveCells_def)
  show ?thesis
  proof (cases "fa \<le> 0")
    case False
    show ?thesis
    proof (cases "0 \<le> remaining - fa")
      case True
      then have "dsub remaining fa = remaining - fa" using assms(2) False by (simp add: dsub_exact)
      with distribute_le [of "(aw', act', dsub remaining fa)" rs] True assms(2) False res show ?thesis by simp
    next
      case neg: False
      then have "dsub remaining fa \<le> 0" by (simp add: dsub_def dround_nonpos)
      with distribute_nonpos [of "(aw', act', dsub remaining fa)" rs] assms(1) res show ?thesis by simp
    qed
  next
    case True
    then have fz: "\<forall>c \<in> set active. f c = 0" and fa: "fa = 0"
      using floors_zero [of f 0 active] f0 floors_nonneg [of 0 active f] by (auto simp: fa_def)
    have act: "act' = active" using fz by (auto simp: act'_def intro: map_idI)
    obtain y ys where ys: "rs = y # ys" "fst y \<in> fst ` set active"
      using sortBy_nonempty [of "map (\<lambda>cell. (fst cell, cellRemainder remaining (capacitySum active) (snd cell))) active" remainderOrder]
        assms(3) by (force simp: rs_def positiveCells_def)
    then obtain cell where cell: "find (\<lambda>c. fst c = fst y) active = Some cell" "cell \<in> set active"
      by (cases "find (\<lambda>c. fst c = fst y) active") (auto simp: find_None_iff find_Some_iff)
    have "dsub remaining fa = remaining" "dsub remaining 1 = remaining - 1"
      using assms(1,2) fa by (simp_all add: dsub_exact)
    moreover have "0 < snd cell" using cell(2) assms(3) by (simp add: positiveCells_def)
    ultimately show ?thesis
      using res act ys(1) cell(1) assms(1,2) distribute_le [of "(aw'(fst cell := aw' (fst cell) + 1),
        map (\<lambda>c. if fst c = fst cell then (fst c, snd c - 1) else c) active, remaining - 1)" ys]
      by simp
  qed
qed

lemma hamiltonLoop_returns:
  "nat remaining \<le> fuel \<Longrightarrow> remaining < 2 ^ 53 \<Longrightarrow> (0 < remaining \<Longrightarrow> positiveCells active) \<Longrightarrow>
    hamiltonLoop fuel (aw, active, remaining) \<noteq> None"
proof (induction fuel arbitrary: aw active remaining)
  case 0
  then show ?case by (simp add: hamiltonLoop.simps)
next
  case (Suc fuel)
  show ?case
  proof (cases "0 < remaining")
    case True
    obtain aw' active' remaining' where p: "hamiltonPass (aw, active, remaining) = (aw', active', remaining')"
      by (cases "hamiltonPass (aw, active, remaining)") auto
    have less: "remaining' < remaining"
      using hamiltonPass_decreases [OF True Suc.prems(2) Suc.prems(3) p] True by simp
    have "positiveCells active'" if "active' \<noteq> []"
      using p that by (auto simp: hamiltonPass_def positiveCells_def Let_def split: prod.splits)
    then have "0 < remaining' \<Longrightarrow> active' \<noteq> [] \<Longrightarrow> hamiltonLoop fuel (aw', active', remaining') \<noteq> None"
      using Suc.prems(1,2) less by (intro Suc.IH) auto
    moreover have "remaining' \<le> 0 \<Longrightarrow> hamiltonLoop fuel (aw', active', remaining') \<noteq> None"
      by (simp add: hamiltonLoop.simps)
    ultimately have "active' \<noteq> [] \<or> remaining' \<le> 0 \<Longrightarrow> hamiltonLoop fuel (aw', active', remaining') \<noteq> None"
      by (cases "0 < remaining'") auto
    then show ?thesis using True p by (subst hamiltonLoop.simps) auto
  qed (simp add: hamiltonLoop.simps)
qed

lemma capacityHamilton_returns: "capacityHamilton cells requestedSeats \<noteq> None"
proof -
  define active where "active = map (\<lambda>cell. (cellId cell, numInt (capacity cell)))
    (sortBy (\<lambda>left right. cellOrder (cellId left) (cellId right)) cells)"
  have "hamiltonLoop (nat (numInt requestedSeats)) (\<lambda>_. 0, active, numInt requestedSeats) \<noteq> None"
    if "isEpochMs requestedSeats" "\<forall>cell \<in> set cells. isPositive (capacity cell)" "\<not> capacitySum active < numInt requestedSeats"
  proof (rule hamiltonLoop_returns)
    show "numInt requestedSeats < 2 ^ 53"
      using isEpochMs_numInt [OF that(1)] by (simp add: isSafeInteger_def MAX_SAFE_INTEGER_def)
    assume "0 < numInt requestedSeats"
    with that(3) have "active \<noteq> []" by (auto simp: capacitySum_def)
    moreover have "\<forall>cell \<in> set active. 0 < snd cell"
      using that(2) by (auto simp: active_def isPositive_def numInt_def split: jsnum.splits)
    ultimately show "positiveCells active" by (simp add: positiveCells_def)
  qed simp
  then show ?thesis by (auto simp: capacityHamilton_def Let_def list_ex_iff active_def)
qed


section \<open>The exact range\<close>

lemma foldl_dadd_exact:
  "0 \<le> n \<Longrightarrow> (\<And>c. c \<in> set xs \<Longrightarrow> 0 \<le> f c) \<Longrightarrow> n + sum_list (map f xs) < 2 ^ 53 \<Longrightarrow>
    foldl (\<lambda>n cell. dadd n (f cell)) n xs = n + sum_list (map f xs)"
proof (induction xs arbitrary: n)
  case (Cons x xs)
  have "0 \<le> sum_list (map f xs)" "0 \<le> f x" using Cons.prems(2) by (auto intro!: sum_list_nonneg)
  with Cons.prems have "dadd n (f x) = n + f x" by (simp add: dadd_exact)
  with Cons show ?case by (simp add: add.assoc)
qed simp

lemma floorAward_exact:
  assumes "0 \<le> s" "s \<le> T" "0 < T" "T < 2 ^ 53" "0 \<le> c" "s * c < 2 ^ 53"
  shows "floorAward s T c = s * c div T" "cellRemainder s T c = s * c mod T"
proof -
  have sc: "0 \<le> s * c" using assms(1,5) by simp
  have "s * c \<le> T * c" using assms by (intro mult_right_mono)
  then have "s * c div T \<le> c" using assms(3) zdiv_mono1 [of "s * c" "T * c" T] by simp
  then show "floorAward s T c = s * c div T"
    using assms sc by (simp add: floorAward_def dround_exact dquot_exact)
  show "cellRemainder s T c = s * c mod T" using assms(6) sc by (simp add: cellRemainder_def Let_def dround_exact)
qed

lemma foldl_awards:
  "distinct (map fst xs) \<Longrightarrow>
    foldl (\<lambda>a cell. a(fst cell := a (fst cell) + f cell)) aw xs i =
      (case map_of xs i of None \<Rightarrow> aw i | Some c \<Rightarrow> aw i + f (i, c))" for aw :: awards
proof (induction xs arbitrary: aw)
  case (Cons x xs)
  have "map_of xs (fst x) = None" using Cons.prems by (simp add: map_of_eq_None_iff)
  with Cons show ?case by (cases x) (auto split: option.splits)
qed simp

lemma find_map_of: "find (\<lambda>c. fst c = i) xs = map_option (Pair i) (map_of xs i)"
  by (induction xs) auto

lemma map_of_decrement:
  "map_of (map (\<lambda>c. if fst c = i then (fst c, snd c - 1) else c) xs) j =
    (if j = i then map_option (\<lambda>n. n - 1) (map_of xs j) else map_of xs j)" for xs :: activeCells
  by (induction xs) auto

lemma distribute_exact:
  assumes "distinct (map fst rs)" "\<And>r. r \<in> set rs \<Longrightarrow> \<exists>n > 0. map_of active (fst r) = Some n"
    and "0 \<le> remaining" "remaining \<le> int (length rs)" "remaining < 2 ^ 53"
  shows "\<exists>active'. distribute rs (aw, active, remaining) =
    (\<lambda>i. aw i + (if i \<in> fst ` set (take (nat remaining) rs) then 1 else 0), active', 0)"
  using assms
proof (induction rs arbitrary: aw active remaining)
  case (Cons r rs)
  show ?case
  proof (cases "remaining = 0")
    case False
    obtain n where n: "0 < n" "map_of active (fst r) = Some n" using Cons.prems(2) [of r] by auto
    define active1 where "active1 = map (\<lambda>c. if fst c = fst r then (fst c, snd c - 1) else c) active"
    have sub: "dsub remaining 1 = remaining - 1" using False Cons.prems(3,5) by (simp add: dsub_exact)
    have "fst r \<notin> fst ` set rs" using Cons.prems(1) by simp
    then have other: "fst q \<noteq> fst r" if "q \<in> set rs" for q using that by (metis imageI)
    have "\<exists>m > 0. map_of active1 (fst q) = Some m" if q: "q \<in> set rs" for q
      using Cons.prems(2) [of q] q other [OF q] by (simp add: active1_def map_of_decrement)
    then have "\<exists>active'. distribute rs (aw(fst r := aw (fst r) + 1), active1, remaining - 1) =
        (\<lambda>i. (aw(fst r := aw (fst r) + 1)) i + (if i \<in> fst ` set (take (nat (remaining - 1)) rs) then 1 else 0), active', 0)"
      using Cons.prems False by (intro Cons.IH) simp_all
    then obtain active' where IH: "distribute rs (aw(fst r := aw (fst r) + 1), active1, remaining - 1) =
        (\<lambda>i. (aw(fst r := aw (fst r) + 1)) i + (if i \<in> fst ` set (take (nat (remaining - 1)) rs) then 1 else 0), active', 0)"
      by blast
    have "nat remaining = Suc (nat (remaining - 1))" using False Cons.prems(3) by simp
    then have "take (nat remaining) (r # rs) = r # take (nat (remaining - 1)) rs" by simp
    moreover have "fst r \<notin> fst ` set (take (nat (remaining - 1)) rs)"
      using other by (force dest: in_set_takeD)
    ultimately show ?thesis
      using IH n False sub by (auto simp: find_map_of active1_def fun_eq_iff)
  qed simp
qed simp

lemma remainderOrder_le:
  "remainderOrder x y \<le> 0 \<longleftrightarrow> snd y < snd x \<or> (snd y = snd x \<and> utf8 (fst x) \<le> utf8 (fst y))"
  by (auto simp: remainderOrder_def thenBy_def cellOrder_def)

lemma sorted_remainders: "sorted_wrt (\<lambda>x y. remainderOrder x y \<le> 0) (sortBy remainderOrder xs)"
  by (rule sorted_wrt_sortBy) (auto simp: remainderOrder_le)

lemma largest_taken:
  assumes "x \<in> set (take k (sortBy remainderOrder xs))" "y \<in> set xs" "y \<notin> set (take k (sortBy remainderOrder xs))"
  shows "remainderOrder x y \<le> 0"
proof -
  let ?s = "sortBy remainderOrder xs"
  have "y \<in> set ?s" using assms(2) by simp
  then have "y \<in> set (drop k ?s)" using assms(3) by (metis Un_iff append_take_drop_id set_append)
  moreover have "sorted_wrt (\<lambda>x y. remainderOrder x y \<le> 0) (take k ?s @ drop k ?s)" using sorted_remainders by simp
  ultimately show ?thesis using assms(1) unfolding sorted_wrt_append by blast
qed

text \<open>
  \<open>quotaFloor\<close> and \<open>quotaRemainder\<close> are the two parts of a cell's exact quota. A pass over
  distinct cells awards the floors and one more seat to the first cells in remainder order.
\<close>

definition totalCapacity :: "activeCells \<Rightarrow> int" where
  "totalCapacity active = sum_list (map snd active)"

definition quotaFloor :: "int \<Rightarrow> int \<Rightarrow> int \<Rightarrow> int" where
  "quotaFloor s T c = s * c div T"

definition exactCells :: "int \<Rightarrow> activeCells \<Rightarrow> bool" where
  "exactCells s active \<longleftrightarrow> distinct (map fst active) \<and> (\<forall>cell \<in> set active. 0 < snd cell \<and> s * snd cell < 2 ^ 53) \<and>
     totalCapacity active < 2 ^ 53 \<and> 0 < s \<and> s \<le> totalCapacity active"

definition remainderList :: "int \<Rightarrow> activeCells \<Rightarrow> (jsstring \<times> int) list" where
  "remainderList s active =
     sortBy remainderOrder (map (\<lambda>cell. (fst cell, s * snd cell mod totalCapacity active)) active)"

definition leftOver :: "int \<Rightarrow> activeCells \<Rightarrow> int" where
  "leftOver s active = s - sum_list (map (\<lambda>cell. quotaFloor s (totalCapacity active) (snd cell)) active)"

lemma exactCells_total: "exactCells s active \<Longrightarrow> 0 < totalCapacity active \<and> capacitySum active = totalCapacity active"
  using foldl_dadd_exact [of 0 active snd]
  by (auto simp: exactCells_def capacitySum_def totalCapacity_def intro: less_imp_le)

lemma leftOver_remainders:
  assumes "exactCells s active"
  shows "leftOver s active * totalCapacity active = sum_list (map (\<lambda>cell. s * snd cell mod totalCapacity active) active)"
proof -
  let ?T = "totalCapacity active"
  have "s * ?T = sum_list (map (\<lambda>cell. s * snd cell) active)"
    by (simp add: totalCapacity_def sum_list_const_mult)
  also have "\<dots> = sum_list (map (\<lambda>cell. ?T * quotaFloor s ?T (snd cell) + s * snd cell mod ?T) active)"
    by (simp add: quotaFloor_def)
  also have "\<dots> = ?T * sum_list (map (\<lambda>cell. quotaFloor s ?T (snd cell)) active) + sum_list (map (\<lambda>cell. s * snd cell mod ?T) active)"
    by (simp add: sum_list_addf sum_list_const_mult)
  finally show ?thesis by (simp add: leftOver_def algebra_simps)
qed

lemma leftOver_bounds:
  assumes "exactCells s active"
  shows "0 \<le> leftOver s active" "leftOver s active \<le> int (length active)" "leftOver s active \<le> s"
proof -
  let ?T = "totalCapacity active"
  have T: "0 < ?T" using exactCells_total [OF assms] by simp
  have "0 \<le> sum_list (map (\<lambda>cell. s * snd cell mod ?T) active)" using T by (auto intro!: sum_list_nonneg)
  then show "0 \<le> leftOver s active"
    using T by (simp flip: leftOver_remainders [OF assms] add: zero_le_mult_iff)
  have "sum_list (map (\<lambda>cell. s * snd cell mod ?T) active) \<le> sum_list (map (\<lambda>cell. ?T) active)"
    using T by (intro sum_list_mono) (simp add: less_imp_le)
  then have "leftOver s active * ?T \<le> int (length active) * ?T"
    by (simp add: leftOver_remainders [OF assms] sum_list_triv)
  with T show "leftOver s active \<le> int (length active)" by simp
  have "0 \<le> sum_list (map (\<lambda>cell. quotaFloor s ?T (snd cell)) active)"
    using T assms by (fastforce intro!: sum_list_nonneg mult_nonneg_nonneg simp: quotaFloor_def exactCells_def pos_imp_zdiv_nonneg_iff)
  then show "leftOver s active \<le> s" by (simp add: leftOver_def)
qed

definition finalAward :: "int \<Rightarrow> activeCells \<Rightarrow> jsstring \<times> int \<Rightarrow> int" where
  "finalAward s active cell = quotaFloor s (totalCapacity active) (snd cell) +
     (if fst cell \<in> fst ` set (take (nat (leftOver s active)) (remainderList s active)) then 1 else 0)"

lemma leftOver_below:
  assumes "exactCells s active" "0 < leftOver s active" "cell \<in> set active"
  shows "quotaFloor s (totalCapacity active) (snd cell) < snd cell"
proof -
  let ?T = "totalCapacity active"
  have T: "0 < ?T" using exactCells_total [OF assms(1)] by simp
  have "s \<noteq> ?T"
  proof
    assume "s = ?T"
    with T have "leftOver s active = ?T - totalCapacity active"
      by (simp add: leftOver_def quotaFloor_def) (simp add: totalCapacity_def)
    with assms(2) show False by simp
  qed
  with assms have "s * snd cell < ?T * snd cell" by (auto simp: exactCells_def intro: mult_strict_right_mono)
  moreover have "s * snd cell div ?T * ?T \<le> s * snd cell" using T by (simp add: minus_mod_eq_div_mult [symmetric])
  ultimately have "s * snd cell div ?T * ?T < snd cell * ?T" by (simp add: mult.commute)
  with T show ?thesis by (simp add: quotaFloor_def)
qed

lemma hamiltonPass_exact:
  assumes "exactCells s active"
  shows "\<exists>aw' active'. hamiltonPass (\<lambda>_. 0, active, s) = (aw', active', 0) \<and>
    (\<forall>cell \<in> set active. aw' (fst cell) = finalAward s active cell)"
proof -
  let ?T = "totalCapacity active" and ?R = "leftOver s active"
  let ?f = "\<lambda>cell. quotaFloor s ?T (snd cell)" and ?rs = "remainderList s active"
  note T = exactCells_total [OF assms] and R = leftOver_bounds [OF assms]
  have ex: "floorAward s ?T (snd cell) = ?f cell \<and> cellRemainder s ?T (snd cell) = s * snd cell mod ?T"
    if "cell \<in> set active" for cell
    using floorAward_exact [of s ?T "snd cell"] that assms T by (auto simp: exactCells_def quotaFloor_def)
  have dist: "distinct (map fst active)" using assms by (simp add: exactCells_def)
  define aw1 where "aw1 = foldl (\<lambda>a cell. a(fst cell := a (fst cell) + floorAward s ?T (snd cell))) (\<lambda>_. 0) active"
  define active1 where "active1 = map (\<lambda>cell. (fst cell, snd cell - floorAward s ?T (snd cell))) active"
  have floors: "foldl (\<lambda>n cell. dadd n (floorAward s ?T (snd cell))) 0 active = s - ?R"
  proof -
    have "map (\<lambda>cell. floorAward s ?T (snd cell)) active = map ?f active" using ex by simp
    then have sum: "sum_list (map (\<lambda>cell. floorAward s ?T (snd cell)) active) = s - ?R" by (simp only: leftOver_def)
    moreover have "0 \<le> floorAward s ?T (snd cell)" if "cell \<in> set active" for cell
      using ex [OF that] that assms T by (auto simp: quotaFloor_def exactCells_def pos_imp_zdiv_nonneg_iff)
    ultimately show ?thesis
      using R assms by (subst foldl_dadd_exact) (auto simp: exactCells_def)
  qed
  have rems: "sortBy remainderOrder (map (\<lambda>cell. (fst cell, cellRemainder s ?T (snd cell))) active) = ?rs"
    unfolding remainderList_def using ex by (intro arg_cong [where f = "sortBy remainderOrder"]) simp
  have sub: "dsub s (s - ?R) = ?R" using R assms T by (simp add: dsub_exact exactCells_def)
  have m1: "map_of active1 (fst cell) = Some (snd cell - ?f cell)" if "cell \<in> set active" for cell
  proof (rule map_of_is_SomeI)
    show "distinct (map fst active1)" using dist by (simp add: active1_def comp_def)
    show "(fst cell, snd cell - ?f cell) \<in> set active1" using that ex [OF that] by (force simp: active1_def)
  qed
  have "\<exists>active'. distribute ?rs (aw1, active1, ?R) =
      (\<lambda>i. aw1 i + (if i \<in> fst ` set (take (nat ?R) ?rs) then 1 else 0), active', 0)"
  proof (cases "?R = 0")
    case True
    then show ?thesis by (cases ?rs) auto
  next
    case False
    show ?thesis
    proof (rule distribute_exact)
      show "distinct (map fst ?rs)" using dist by (simp add: remainderList_def comp_def)
      show "\<exists>n > 0. map_of active1 (fst r) = Some n" if "r \<in> set ?rs" for r
        using that m1 leftOver_below [OF assms] R(1) False by (auto simp: remainderList_def)
    qed (use R assms T in \<open>auto simp: remainderList_def exactCells_def leftOver_def\<close>)
  qed
  then obtain active' where d: "distribute ?rs (aw1, active1, ?R) =
      (\<lambda>i. aw1 i + (if i \<in> fst ` set (take (nat ?R) ?rs) then 1 else 0), active', 0)" by blast
  have "aw1 (fst cell) = ?f cell" if "cell \<in> set active" for cell
  proof -
    have "map_of active (fst cell) = Some (snd cell)" using map_of_is_SomeI [OF dist] that by simp
    then show ?thesis using ex [OF that] unfolding aw1_def foldl_awards [OF dist] by simp
  qed
  then show ?thesis
    using d T by (simp add: hamiltonPass_def Let_def floors rems sub finalAward_def flip: aw1_def active1_def)
qed

lemma hamiltonLoop_exact:
  assumes "exactCells s active"
  shows "\<exists>aw. hamiltonLoop (nat s) (\<lambda>_. 0, active, s) = Some (Inr aw) \<and>
    (\<forall>cell \<in> set active. aw (fst cell) = finalAward s active cell)"
proof -
  obtain aw' active' where p: "hamiltonPass (\<lambda>_. 0, active, s) = (aw', active', 0)"
      "\<forall>cell \<in> set active. aw' (fst cell) = finalAward s active cell"
    using hamiltonPass_exact [OF assms] by blast
  have "0 < s" using assms by (simp add: exactCells_def)
  then obtain k where "nat s = Suc k" by (cases "nat s") auto
  with p \<open>0 < s\<close> show ?thesis by (simp add: hamiltonLoop.simps)
qed

text \<open>The awards add up to the seats.\<close>

lemma finalAward_sum:
  assumes "exactCells s active"
  shows "sum_list (map (finalAward s active) active) = s"
proof -
  let ?E = "fst ` set (take (nat (leftOver s active)) (remainderList s active))"
  have dist: "distinct (map fst active)" using assms by (simp add: exactCells_def)
  have ids: "mset (map fst (remainderList s active)) = mset (map fst active)"
    by (simp add: remainderList_def multiset.map_comp comp_def)
  then have "distinct (map fst (remainderList s active))" using dist mset_eq_imp_distinct_iff by blast
  then have "card (set (take (nat (leftOver s active)) (map fst (remainderList s active)))) =
      length (take (nat (leftOver s active)) (map fst (remainderList s active)))"
    by (intro distinct_card distinct_take)
  then have "card ?E = length (take (nat (leftOver s active)) (map fst (remainderList s active)))"
    by (simp only: take_map set_map)
  then have card: "int (card ?E) = leftOver s active"
    using leftOver_bounds [OF assms] by (simp add: remainderList_def)
  have "set (map fst (remainderList s active)) = set (map fst active)" by (metis ids set_mset_mset)
  then have sub: "?E \<subseteq> set (map fst active)" by (auto dest!: in_set_takeD)
  have "sum_list (map (\<lambda>cell. if fst cell \<in> ?E then 1 else 0) active) = int (card (set (map fst active) \<inter> ?E))"
  proof -
    have "sum_list (map (\<lambda>cell. if fst cell \<in> ?E then 1 else 0) active) = sum_list (map (\<lambda>i. if i \<in> ?E then 1 else 0 :: int) (map fst active))"
      by (simp add: comp_def)
    also have "\<dots> = (\<Sum>i \<in> set (map fst active). if i \<in> ?E then 1 else 0)" using dist by (rule sum_list_distinct_conv_sum_set)
    also have "\<dots> = int (card (set (map fst active) \<inter> ?E))" by (simp add: sum.If_cases)
    finally show ?thesis .
  qed
  moreover have "set (map fst active) \<inter> ?E = ?E" using sub by blast
  ultimately have ones: "sum_list (map (\<lambda>cell. if fst cell \<in> ?E then 1 else 0) active) = leftOver s active"
    using card by simp
  have "finalAward s active = (\<lambda>cell. quotaFloor s (totalCapacity active) (snd cell) + (if fst cell \<in> ?E then 1 else 0))"
    by (rule ext) (simp add: finalAward_def)
  then have "sum_list (map (finalAward s active) active) =
      sum_list (map (\<lambda>cell. quotaFloor s (totalCapacity active) (snd cell)) active) + leftOver s active"
    by (simp only: sum_list_addf ones)
  then show ?thesis by (simp add: leftOver_def)
qed

lemma finalAward_bounds:
  assumes "exactCells s active" "cell \<in> set active"
  shows "finalAward s active cell \<le> snd cell"
proof (cases "fst cell \<in> fst ` set (take (nat (leftOver s active)) (remainderList s active))")
  case True
  then have "0 < leftOver s active" by (cases "nat (leftOver s active)") auto
  with leftOver_below [OF assms(1) _ assms(2)] True show ?thesis by (simp add: finalAward_def)
next
  case False
  have "s * snd cell \<le> totalCapacity active * snd cell" using assms by (intro mult_right_mono) (auto simp: exactCells_def)
  then have "s * snd cell div totalCapacity active \<le> snd cell"
    using exactCells_total [OF assms(1)] zdiv_mono1 [of "s * snd cell" "totalCapacity active * snd cell" "totalCapacity active"] by simp
  with False show ?thesis by (simp add: finalAward_def quotaFloor_def)
qed

lemma finalAward_largest:
  assumes "exactCells s active" "x \<in> set active" "y \<in> set active"
    and "finalAward s active x = quotaFloor s (totalCapacity active) (snd x) + 1"
    and "finalAward s active y = quotaFloor s (totalCapacity active) (snd y)"
  shows "s * snd y mod totalCapacity active < s * snd x mod totalCapacity active \<or>
    (s * snd y mod totalCapacity active = s * snd x mod totalCapacity active \<and> utf8 (fst x) \<le> utf8 (fst y))"
proof -
  let ?g = "\<lambda>cell. (fst cell, s * snd cell mod totalCapacity active)"
  let ?t = "take (nat (leftOver s active)) (remainderList s active)"
  have inj: "c = d" if "c \<in> set active" "d \<in> set active" "fst c = fst d" for c d
    using assms(1) that by (auto simp: exactCells_def distinct_map inj_on_def)
  have "fst x \<in> fst ` set ?t" using assms(4) by (simp add: finalAward_def split: if_splits)
  then obtain r where r: "r \<in> set ?t" "fst r = fst x" by auto
  then obtain c where "c \<in> set active" "r = ?g c" by (auto simp: remainderList_def dest!: in_set_takeD)
  with r inj [of c x] assms(2) have x: "?g x \<in> set ?t" by auto
  have "fst y \<notin> fst ` set ?t" using assms(5) by (simp add: finalAward_def split: if_splits)
  then have "?g y \<notin> set ?t" by (metis fst_conv imageI)
  with x assms(3) have "remainderOrder (?g x) (?g y) \<le> 0"
    unfolding remainderList_def by (intro largest_taken) auto
  then show ?thesis by (auto simp: remainderOrder_le)
qed


section \<open>The whole function\<close>

definition inputCells :: "CapacityCellV1 list \<Rightarrow> activeCells" where
  "inputCells cells = map (\<lambda>cell. (cellId cell, numInt (capacity cell))) cells"

definition orderedCells :: "CapacityCellV1 list \<Rightarrow> activeCells" where
  "orderedCells cells = inputCells (sortBy (\<lambda>left right. cellOrder (cellId left) (cellId right)) cells)"

lemma orderedCells_mset: "mset (orderedCells cells) = mset (inputCells cells)"
  by (simp add: orderedCells_def inputCells_def)

lemma totalCapacity_ordered: "totalCapacity (orderedCells cells) = totalCapacity (inputCells cells)"
  by (metis mset_map orderedCells_mset sum_mset_sum_list totalCapacity_def)

lemma capacityHamilton_unfold:
  assumes "isEpochMs requested" "distinct (map cellId cells)" "\<forall>cell \<in> set cells. isPositive (capacity cell)"
    and "\<not> capacitySum (orderedCells cells) < numInt requested"
  shows "capacityHamilton cells requested =
    map_option (\<lambda>r. bindR r (\<lambda>aw. Inr (map (\<lambda>cell.
       \<lparr>awardCellId = fst cell, awarded = aw (fst cell), awardCapacity = snd cell\<rparr>) (orderedCells cells))))
     (hamiltonLoop (nat (numInt requested)) (\<lambda>_. 0, orderedCells cells, numInt requested))"
proof -
  have "length (remdups (map cellId (sortBy (\<lambda>left right. cellOrder (cellId left) (cellId right)) cells))) =
      length (sortBy (\<lambda>left right. cellOrder (cellId left) (cellId right)) cells)"
    using assms(2) by (simp add: distinct_remdups_id)
  moreover have "\<not> list_ex (\<lambda>cell. \<not> isPositive (capacity cell))
      (sortBy (\<lambda>left right. cellOrder (cellId left) (cellId right)) cells)"
    using assms(3) by (simp add: list_ex_iff)
  ultimately show ?thesis
    using assms(1,4) unfolding capacityHamilton_def Let_def orderedCells_def inputCells_def by simp
qed

lemma inputCells_exact:
  assumes "distinct (map cellId cells)" "\<forall>cell \<in> set cells. isPositive (capacity cell)"
    and "totalCapacity (inputCells cells) < 2 ^ 53" "0 < s" "s \<le> totalCapacity (inputCells cells)"
    and "\<forall>cell \<in> set (inputCells cells). s * snd cell < 2 ^ 53"
  shows "exactCells s (orderedCells cells)"
proof -
  have sets: "set (orderedCells cells) = set (inputCells cells)" by (metis orderedCells_mset set_mset_mset)
  have "mset (map fst (orderedCells cells)) = mset (map cellId cells)"
    by (simp add: orderedCells_mset) (simp add: inputCells_def multiset.map_comp comp_def)
  then have "distinct (map fst (orderedCells cells))" using assms(1) mset_eq_imp_distinct_iff by blast
  moreover have "0 < snd cell" if "cell \<in> set (inputCells cells)" for cell
    using that assms(2) by (auto simp: inputCells_def isPositive_def numInt_def split: jsnum.splits)
  ultimately show ?thesis
    using assms(3-6) by (simp add: exactCells_def sets totalCapacity_ordered)
qed

text \<open>
  The specification: the seats are allocated exactly, by quotas rounded down or up, never above a
  capacity, and a cell that is rounded up comes before a cell that is rounded down in the order of
  remainders.
\<close>

definition awardTotal :: "CapacityAwardV1 list \<Rightarrow> int" where
  "awardTotal ys = sum_list (map awardCapacity ys)"

definition awardQuota :: "int \<Rightarrow> CapacityAwardV1 list \<Rightarrow> CapacityAwardV1 \<Rightarrow> int" where
  "awardQuota s ys y = s * awardCapacity y div awardTotal ys"

definition awardRemainder :: "int \<Rightarrow> CapacityAwardV1 list \<Rightarrow> CapacityAwardV1 \<Rightarrow> int" where
  "awardRemainder s ys y = s * awardCapacity y mod awardTotal ys"

definition hamiltonAllocation :: "int \<Rightarrow> CapacityAwardV1 list \<Rightarrow> bool" where
  "hamiltonAllocation s ys \<longleftrightarrow>
     sum_list (map awarded ys) = s \<and>
     (\<forall>y \<in> set ys. (awarded y = awardQuota s ys y \<or> awarded y = awardQuota s ys y + 1) \<and> awarded y \<le> awardCapacity y) \<and>
     (\<forall>y \<in> set ys. \<forall>z \<in> set ys. awarded y = awardQuota s ys y + 1 \<and> awarded z = awardQuota s ys z \<longrightarrow>
        awardRemainder s ys z < awardRemainder s ys y \<or>
        (awardRemainder s ys z = awardRemainder s ys y \<and> utf8 (awardCellId y) \<le> utf8 (awardCellId z)))"

definition awardList :: "awards \<Rightarrow> activeCells \<Rightarrow> CapacityAwardV1 list" where
  "awardList aw active = map (\<lambda>cell. \<lparr>awardCellId = fst cell, awarded = aw (fst cell), awardCapacity = snd cell\<rparr>) active"

lemma awardTotal_awardList: "awardTotal (awardList aw active) = totalCapacity active"
  by (simp add: awardTotal_def awardList_def totalCapacity_def comp_def)

lemma finalAward_allocation:
  assumes "exactCells s active" "\<forall>cell \<in> set active. aw (fst cell) = finalAward s active cell"
  shows "hamiltonAllocation s (awardList aw active)"
proof -
  let ?T = "totalCapacity active"
  have "map awarded (awardList aw active) = map (finalAward s active) active"
    using assms(2) by (simp add: awardList_def)
  then have sum: "sum_list (map awarded (awardList aw active)) = s" by (simp only: finalAward_sum [OF assms(1)])
  have either: "finalAward s active cell = s * snd cell div ?T \<or> finalAward s active cell = s * snd cell div ?T + 1" for cell
    by (simp add: finalAward_def quotaFloor_def)
  show ?thesis
    unfolding hamiltonAllocation_def awardQuota_def awardRemainder_def awardTotal_awardList
    using sum assms(2) either finalAward_bounds [OF assms(1)] finalAward_largest [OF assms(1)]
    by (auto simp: awardList_def quotaFloor_def)
qed

lemma no_seats_allocation:
  assumes "\<forall>cell \<in> set active. 0 < snd cell"
  shows "hamiltonAllocation 0 (awardList (\<lambda>_. 0) active)"
  using assms by (auto simp: hamiltonAllocation_def awardQuota_def awardList_def comp_def intro: less_imp_le)

lemma capacityHamilton_allocation:
  assumes "isEpochMs requested" "distinct (map cellId cells)" "\<forall>cell \<in> set cells. isPositive (capacity cell)"
    and "totalCapacity (inputCells cells) < 2 ^ 53" "numInt requested \<le> totalCapacity (inputCells cells)"
    and "\<forall>cell \<in> set (inputCells cells). numInt requested * snd cell < 2 ^ 53"
  shows "\<exists>ys. capacityHamilton cells requested = Some (Inr ys) \<and>
    map (\<lambda>y. (awardCellId y, awardCapacity y)) ys = orderedCells cells \<and> hamiltonAllocation (numInt requested) ys"
proof -
  let ?s = "numInt requested" and ?o = "orderedCells cells"
  have pos: "0 < snd cell" if "cell \<in> set ?o" for cell
    using that assms(3) by (auto simp: orderedCells_def inputCells_def isPositive_def numInt_def split: jsnum.splits)
  then have "capacitySum ?o = totalCapacity ?o"
    using foldl_dadd_exact [of 0 ?o snd] assms(4)
    by (simp add: capacitySum_def totalCapacity_ordered [symmetric] less_imp_le) (simp add: totalCapacity_def)
  then have "\<not> capacitySum ?o < ?s" using assms(5) by (simp add: totalCapacity_ordered)
  note unfolded = capacityHamilton_unfold [OF assms(1-3) this, folded awardList_def]
  have ids: "map (\<lambda>y. (awardCellId y, awardCapacity y)) (awardList aw ?o) = ?o" for aw
    by (simp add: awardList_def comp_def)
  show ?thesis
  proof (cases "?s = 0")
    case True
    then show ?thesis using unfolded ids no_seats_allocation [of ?o] pos by (simp add: hamiltonLoop.simps)
  next
    case False
    then have "0 < ?s" using isEpochMs_numInt [OF assms(1)] by linarith
    then have ex: "exactCells ?s ?o" by (rule inputCells_exact [OF assms(2-4) _ assms(5,6)])
    then obtain aw where aw: "hamiltonLoop (nat ?s) (\<lambda>_. 0, ?o, ?s) = Some (Inr aw)"
        "\<forall>cell \<in> set ?o. aw (fst cell) = finalAward ?s ?o cell"
      using hamiltonLoop_exact by blast
    then have "capacityHamilton cells requested = Some (Inr (awardList aw ?o))" unfolding unfolded by simp
    with ids finalAward_allocation [OF ex aw(2)] show ?thesis by blast
  qed
qed

end
