(* ===== verification/StudySampling.thy ===== *)
theory StudySampling
  imports StudyRational Hash Clock
begin

text \<open>
  The sampling half of the market-reference study: the table of bounds of
  \<^verbatim>\<open>src/study/market-reference/bounds.ts\<close>, the rank and bootstrap digests of
  \<^verbatim>\<open>algorithms.ts\<close>, and the lane-stratified bootstrap of \<^verbatim>\<open>analysis.ts\<close>.
  SHA-256 is the field \<open>sha256_hex\<close> of the environment, so a digest is its hexadecimal
  text; \<open>unhex\<close> reads it back where the code works on the bytes.

  What is shown: an index into a pool is unbiased, in that every index has the same number of
  preimages among the 64-bit words; the loop over counters ends; and a bootstrap interval is the
  exact type-7 interval of its ten thousand replicates, each within the range of the observed values.
\<close>

section \<open>Bounds\<close>

datatype StudyBoundIdV1 =
    TargetClusters | LaneTargets | ControlTargets | CandidateFrameMembers | FrameDispositionOrStratumCells
  | SelectedClusterEntryBytes | CompleteStudyManifestBytes | DatasetFreezeBundleBytes | StudyJsonDepth
  | StudyJsonNodesTotal | StudyKeysPerObject | StudyGenericArrayItems | StudyStringBytes
  | StudyIdentifierBytes | ContractSourceEntitlementIds | ReasonDefinitions | MetricDefinitions
  | SensitivityDefinitions | ReferencesPerCluster | ReferencesTotal | AnnotationsPerCluster
  | RevisionsReferencedPerCluster | StrataDimensions | CollectionSessions | CollectionCalendarSpanMs
  | LiquidityHistorySessions | MinimumValidLiquiditySessions | TimelyObservationMs | CorrectionLagMs
  | BootstrapReplicates | HolmSlots

datatype StudyBoundAtomicityV1 = AtomicStudyRun | AtomicMetric

datatype StudyBoundViolationV1 =
  BoundExceeded | InputInvalid | LiquidityUnknown | TimelinessThresholdNotMet | CorrectionAfterCutoff

datatype StudyBoundEvaluationV1 =
    Accepted StudyBoundIdV1 StudyBoundAtomicityV1
  | Rejected StudyBoundIdV1 StudyBoundAtomicityV1 StudyBoundViolationV1

datatype observed = ObservedNumber jsnum | ObservedArray "jsnum list"

fun MAXIMUM_LIMITS :: "StudyBoundIdV1 \<Rightarrow> int option" where
  "MAXIMUM_LIMITS CandidateFrameMembers = Some 8192"
| "MAXIMUM_LIMITS FrameDispositionOrStratumCells = Some 2048"
| "MAXIMUM_LIMITS SelectedClusterEntryBytes = Some 65536"
| "MAXIMUM_LIMITS CompleteStudyManifestBytes = Some 33554432"
| "MAXIMUM_LIMITS DatasetFreezeBundleBytes = Some 67108864"
| "MAXIMUM_LIMITS StudyJsonDepth = Some 12"
| "MAXIMUM_LIMITS StudyJsonNodesTotal = Some 500000"
| "MAXIMUM_LIMITS StudyKeysPerObject = Some 64"
| "MAXIMUM_LIMITS StudyGenericArrayItems = Some 256"
| "MAXIMUM_LIMITS StudyStringBytes = Some 4096"
| "MAXIMUM_LIMITS StudyIdentifierBytes = Some 512"
| "MAXIMUM_LIMITS ContractSourceEntitlementIds = Some 64"
| "MAXIMUM_LIMITS ReasonDefinitions = Some 64"
| "MAXIMUM_LIMITS MetricDefinitions = Some 32"
| "MAXIMUM_LIMITS SensitivityDefinitions = Some 32"
| "MAXIMUM_LIMITS ReferencesPerCluster = Some 64"
| "MAXIMUM_LIMITS ReferencesTotal = Some 12800"
| "MAXIMUM_LIMITS AnnotationsPerCluster = Some 64"
| "MAXIMUM_LIMITS RevisionsReferencedPerCluster = Some 32"
| "MAXIMUM_LIMITS StrataDimensions = Some 8"
| "MAXIMUM_LIMITS CollectionCalendarSpanMs = Some 10368000000"
| "MAXIMUM_LIMITS _ = None"

fun EXACT_COUNTS :: "StudyBoundIdV1 \<Rightarrow> int option" where
  "EXACT_COUNTS TargetClusters = Some 180"
| "EXACT_COUNTS CollectionSessions = Some 65"
| "EXACT_COUNTS LiquidityHistorySessions = Some 20"
| "EXACT_COUNTS BootstrapReplicates = Some 10000"
| "EXACT_COUNTS HolmSlots = Some 24"
| "EXACT_COUNTS _ = None"

definition boundResult :: "StudyBoundIdV1 \<Rightarrow> bool \<Rightarrow> StudyBoundViolationV1 \<Rightarrow> StudyBoundEvaluationV1" where
  "boundResult boundId accepted violation =
     (let atomicity = if boundId \<in> {MinimumValidLiquiditySessions, TimelyObservationMs, CorrectionLagMs}
                      then AtomicMetric else AtomicStudyRun
      in if accepted then Accepted boundId atomicity else Rejected boundId atomicity violation)"

text \<open>\<open>isNonnegativeSafeInteger\<close>: a Number that is a safe integer and not below zero (so \<open>-0\<close> counts as zero).\<close>

definition isNonnegativeSafeInteger :: "jsnum \<Rightarrow> bool" where
  "isNonnegativeSafeInteger n = (case n of NInt i \<Rightarrow> isSafeInteger i \<and> 0 \<le> i | NNegZero \<Rightarrow> True | NOther \<Rightarrow> False)"

definition evaluateStudyBound :: "StudyBoundIdV1 \<Rightarrow> observed \<Rightarrow> StudyBoundEvaluationV1" where
  "evaluateStudyBound boundId observed =
     (if boundId = LaneTargets \<or> boundId = ControlTargets then
        (case observed of
           ObservedNumber _ \<Rightarrow> boundResult boundId False InputInvalid
         | ObservedArray values \<Rightarrow>
             if list_ex (\<lambda>v. \<not> isNonnegativeSafeInteger v) values then boundResult boundId False InputInvalid
             else let exact = if boundId = LaneTargets then [120, 40, 20] else [5, 5, 5, 5]
               in boundResult boundId (map numInt values = exact) InputInvalid)
      else case observed of
        ObservedArray _ \<Rightarrow> boundResult boundId False InputInvalid
      | ObservedNumber value \<Rightarrow>
          if \<not> isNonnegativeSafeInteger value then boundResult boundId False InputInvalid
          else let v = numInt value in
          if boundId = TargetClusters \<and> (v < 100 \<or> 200 < v) then boundResult boundId False BoundExceeded
          else case EXACT_COUNTS boundId of
            Some exactCount \<Rightarrow> boundResult boundId (v = exactCount) InputInvalid
          | None \<Rightarrow>
              if boundId = MinimumValidLiquiditySessions then boundResult boundId (15 \<le> v \<and> v \<le> 20) LiquidityUnknown
              else if boundId = TimelyObservationMs then boundResult boundId (v \<le> 900000) TimelinessThresholdNotMet
              else if boundId = CorrectionLagMs then boundResult boundId (v \<le> 604800000) CorrectionAfterCutoff
              else case MAXIMUM_LIMITS boundId of
                None \<Rightarrow> boundResult boundId False InputInvalid
              | Some maximum \<Rightarrow> boundResult boundId (v \<le> maximum) BoundExceeded)"

fun accepted :: "StudyBoundEvaluationV1 \<Rightarrow> bool" where
  "accepted (Accepted _ _) = True"
| "accepted (Rejected _ _ _) = False"


section \<open>Digests\<close>

text \<open>
  Node encodes a string under \<open>ascii\<close> by the low byte of each code unit, and decodes hexadecimal
  text pairwise; it is only used here after a check of the whole text.
\<close>

definition asciiBytes :: "jsstring \<Rightarrow> 8 word list" where
  "asciiBytes s = map ucast s"

definition hexValue :: "16 word \<Rightarrow> nat" where
  "hexValue c = (if is_digit c then unat c - 48 else unat c - 87)"

fun unhex :: "jsstring \<Rightarrow> 8 word list" where
  "unhex (a # b # s) = of_nat (16 * hexValue a + hexValue b) # unhex s"
| "unhex _ = []"

definition readBigUInt64BE :: "jsstring \<Rightarrow> int" where
  "readBigUInt64BE hex = int (foldl (\<lambda>n c. 16 * n + hexValue c) 0 (take 16 hex))"

definition separatedBytes :: "jsstring \<Rightarrow> 8 word list list \<Rightarrow> 8 word list" where
  "separatedBytes label parts = asciiBytes label @ concat (map (\<lambda>part. 0 # part) parts)"

definition separatedHash :: "externals \<Rightarrow> jsstring \<Rightarrow> 8 word list list \<Rightarrow> jsstring" where
  "separatedHash X label parts = sha256_hex X (separatedBytes label parts)"

definition uint64be :: "int \<Rightarrow> 8 word list result" where
  "uint64be value =
     (if value < 0 \<or> 0xffffffffffffffff < value then Inl (studyError ''study.input-invalid'')
      else Inr (map (\<lambda>i. ucast (drop_bit (56 - 8 * i) (of_int value :: 64 word))) [0..<8]))"

definition deriveStudyRankDigest :: "externals \<Rightarrow> jsstring \<Rightarrow> jsstring \<Rightarrow> jsstring result" where
  "deriveStudyRankDigest X rankSeedHex clusterCandidateId =
     (if \<not> hash64 rankSeedHex then Inl (studyError ''study.rank-invalid'')
      else Inr (separatedHash X (js ''peas/event-study-rank/v1'') [unhex rankSeedHex, utf8 clusterCandidateId]))"

definition deriveBootstrapSeed :: "externals \<Rightarrow> jsstring \<Rightarrow> jsstring \<Rightarrow> jsstring result" where
  "deriveBootstrapSeed X rankSeedHex studyDesignId =
     (if \<not> hash64 rankSeedHex then Inl (studyError ''study.input-invalid'')
      else Inr (separatedHash X (js ''peas/study-bootstrap-seed/v1'') [unhex rankSeedHex, asciiBytes studyDesignId]))"

record BootstrapWordInput =
  bootstrapSeedHex :: jsstring
  metricId :: jsstring
  replicateIndex :: jsnum
  laneOrdinal :: nat
  drawIndex :: jsnum
  counter :: int

definition deriveBootstrapWord :: "externals \<Rightarrow> BootstrapWordInput \<Rightarrow> (jsstring \<times> int) result" where
  "deriveBootstrapWord X input =
     (if \<not> hash64 (bootstrapSeedHex input) \<or> \<not> isNonnegativeSafeInteger (replicateIndex input) \<or>
         \<not> isNonnegativeSafeInteger (drawIndex input)
      then Inl (studyError ''study.input-invalid'')
      else bindR (uint64be (numInt (replicateIndex input))) (\<lambda>r.
           bindR (uint64be (numInt (drawIndex input))) (\<lambda>d.
           bindR (uint64be (counter input)) (\<lambda>c.
           let digest = sha256_hex X (asciiBytes (js ''peas/study-bootstrap-word/v1'') @ [0] @
                 unhex (bootstrapSeedHex input) @ [0] @ asciiBytes (metricId input) @ r @
                 [of_nat (laneOrdinal input)] @ d @ c)
           in Inr (digest, readBigUInt64BE digest)))))"

definition bootstrapPoolIndex :: "int \<Rightarrow> jsnum \<Rightarrow> int option result" where
  "bootstrapPoolIndex w poolSize =
     (if \<not> (case poolSize of NInt n \<Rightarrow> isSafeInteger n \<and> 1 \<le> n | _ \<Rightarrow> False)
      then Inl (studyError ''study.input-invalid'')
      else let size = numInt poolSize; limit = (2 ^ 64 sdiv size) * size
        in Inr (if w \<ge> limit then None else Some (w smod size)))"


section \<open>The bootstrap\<close>

datatype StudyLaneV1 = LaneStandard | LaneSpecialized | LaneProspectiveControl

record BootstrapMetricRowV1 =
  studyClusterId :: jsstring
  rowLane :: StudyLaneV1
  rowValue :: "StudyRationalV1 option"

datatype BootstrapIntervalV1 =
    IntervalUnavailable
  | IntervalAvailable (replicates: "StudyRationalV1 list") (intervalLower: StudyRationalV1)
      (intervalMedian: StudyRationalV1) (intervalUpper: StudyRationalV1)

record BootstrapInput =
  rankSeedHex :: jsstring
  studyDesignId :: jsstring
  inputMetricId :: jsstring
  inputRows :: "BootstrapMetricRowV1 list"
  replicateCount :: "jsnum option"

definition bootstrapPools :: "BootstrapMetricRowV1 list \<Rightarrow> BootstrapMetricRowV1 list list" where
  "bootstrapPools rows =
     map (\<lambda>lane. sortBy (\<lambda>left right. orderOf (utf8 (studyClusterId left)) (utf8 (studyClusterId right)))
         (filter (\<lambda>row. rowLane row = lane \<and> rowValue row \<noteq> None) rows))
       [LaneStandard, LaneSpecialized, LaneProspectiveControl]"

lemma deriveBootstrapWord_counter:
  "deriveBootstrapWord X input = Inr dw \<Longrightarrow> 0 \<le> counter input \<and> counter input \<le> 0xffffffffffffffff"
  by (auto simp: deriveBootstrapWord_def uint64be_def result_simps split: if_splits)

function drawPoolIndex :: "externals \<Rightarrow> BootstrapWordInput \<Rightarrow> nat \<Rightarrow> int result" where
  "drawPoolIndex X input poolLength =
     bindR (deriveBootstrapWord X input) (\<lambda>dw.
     bindR (bootstrapPoolIndex (snd dw) (NInt (int poolLength))) (\<lambda>selectedIndex.
     case selectedIndex of
       Some index \<Rightarrow> Inr index
     | None \<Rightarrow>
         if counter input = 0xffffffffffffffff then Inl (studyError ''study.input-invalid'')
         else drawPoolIndex X (input\<lparr>counter := counter input + 1\<rparr>) poolLength))"
  by pat_completeness auto
termination
  by (relation "measure (\<lambda>(X, input, n). nat (0xffffffffffffffff - counter input))")
    (auto dest: deriveBootstrapWord_counter)

declare drawPoolIndex.simps [simp del]

definition drawLane :: "externals \<Rightarrow> jsstring \<Rightarrow> jsstring \<Rightarrow> nat \<Rightarrow> nat \<times> BootstrapMetricRowV1 list \<Rightarrow> StudyRationalV1 list result" where
  "drawLane X seed metric rep lanePool =
     mapR (\<lambda>draw. bindR (drawPoolIndex X
         \<lparr>bootstrapSeedHex = seed, metricId = metric, replicateIndex = NInt (int rep),
          laneOrdinal = fst lanePool, drawIndex = NInt (int draw), counter = 0\<rparr> (length (snd lanePool)))
       (\<lambda>index. Inr (the (rowValue (snd lanePool ! nat index))))) [0..<length (snd lanePool)]"

definition bootstrapReplicate :: "externals \<Rightarrow> jsstring \<Rightarrow> jsstring \<Rightarrow> BootstrapMetricRowV1 list list \<Rightarrow> nat \<Rightarrow> StudyRationalV1 result" where
  "bootstrapReplicate X seed metric pools rep =
     bindR (mapR (drawLane X seed metric rep) (zip [0..<length pools] pools)) (\<lambda>samples.
       exactMedian (concat samples))"

definition sortedReplicates :: "StudyRationalV1 list \<Rightarrow> StudyRationalV1 list" where
  "sortedReplicates values =
     map fst (sortBy (thenBy (\<lambda>left right. compareRational (fst left) (fst right)) (\<lambda>left right. int (snd left) - int (snd right)))
       (zip values [0..<length values]))"

definition laneStratifiedBootstrap :: "externals \<Rightarrow> BootstrapInput \<Rightarrow> BootstrapIntervalV1 result" where
  "laneStratifiedBootstrap X input =
     (let count = (case replicateCount input of None \<Rightarrow> NInt 10000 | Some c \<Rightarrow> c);
          rows = inputRows input
      in if \<not> accepted (evaluateStudyBound BootstrapReplicates (ObservedNumber count))
         then Inl (studyError ''study.input-invalid'')
         else if length rows \<noteq> 180 \<or> length (remdups (map studyClusterId rows)) \<noteq> 180
         then Inl (studyError ''study.input-invalid'')
         else if list_ex (\<lambda>row. case rowValue row of None \<Rightarrow> False | Some v \<Rightarrow> denominator v \<le> 0) rows
         then Inl (studyError ''study.input-invalid'')
         else let pools = bootstrapPools rows in
         if list_all (\<lambda>pool. pool = []) pools then Inr IntervalUnavailable
         else bindR (deriveBootstrapSeed X (rankSeedHex input) (studyDesignId input)) (\<lambda>seed.
              bindR (mapR (bootstrapReplicate X seed (inputMetricId input) pools) [0..<nat (numInt count)]) (\<lambda>values.
              let ordered = sortedReplicates values in
              bindR (bindR (rational 1 40) (type7Quantile ordered)) (\<lambda>lower.
              bindR (exactMedian ordered) (\<lambda>mid.
              bindR (bindR (rational 39 40) (type7Quantile ordered)) (\<lambda>upper.
              Inr (IntervalAvailable values lower mid upper)))))))"


section \<open>Unbiased indices\<close>

lemma bootstrapPoolIndex_Inr:
  assumes "isSafeInteger n" "1 \<le> n" "0 \<le> w"
  shows "bootstrapPoolIndex w (NInt n) =
    Inr (if (2 ^ 64 div n) * n \<le> w then None else Some (w mod n))"
  using assms by (simp add: bootstrapPoolIndex_def numInt_def signed_divide_int_def signed_modulo_int_def sgn_if Let_def)

lemma poolIndex_preimage:
  assumes "isSafeInteger n" "1 \<le> n" "0 \<le> i" "i < n"
  shows "{w. 0 \<le> w \<and> w < 2 ^ 64 \<and> bootstrapPoolIndex w (NInt n) = Inr (Some i)} =
    (\<lambda>k. k * n + i) ` {0..<2 ^ 64 div n}" (is "?L = ?R")
proof (intro set_eqI iffI)
  fix w
  assume "w \<in> ?L"
  then have w: "0 \<le> w" "w < (2 ^ 64 div n) * n" "w mod n = i"
    using bootstrapPoolIndex_Inr [OF assms(1,2), of w] by (auto split: if_splits)
  then have "w = (w div n) * n + i" using div_mult_mod_eq [of w n] by simp
  moreover have "w div n < 2 ^ 64 div n"
  proof (rule ccontr)
    assume "\<not> w div n < 2 ^ 64 div n"
    then have "(2 ^ 64 div n) * n \<le> (w div n) * n" using assms(2) by (intro mult_right_mono) simp_all
    also have "\<dots> \<le> w" using assms(2) by (simp add: minus_mod_eq_div_mult [symmetric])
    finally show False using w(2) by simp
  qed
  moreover have "0 \<le> w div n" using w(1) assms(2) by (simp add: pos_imp_zdiv_nonneg_iff)
  ultimately show "w \<in> ?R" by (intro image_eqI [of _ _ "w div n"]) simp_all
next
  fix w
  assume "w \<in> ?R"
  then obtain k where eq: "w = k * n + i" and dom: "k \<in> {0..<2 ^ 64 div n}" by (rule imageE)
  note k = eq conjunct1 [OF dom [unfolded atLeastLessThan_iff]] conjunct2 [OF dom [unfolded atLeastLessThan_iff]]
  have "(k + 1) * n \<le> (2 ^ 64 div n) * n" by (intro mult_right_mono) (use k assms(2) in simp_all)
  then have below: "w < (2 ^ 64 div n) * n" using k(1) assms(4) by (simp add: algebra_simps)
  have "(2 ^ 64 div n) * n \<le> 2 ^ 64" using assms(2) by (simp add: minus_mod_eq_div_mult [symmetric])
  moreover have "0 \<le> w" "w mod n = i" using k assms by simp_all
  ultimately show "w \<in> ?L" using below bootstrapPoolIndex_Inr [OF assms(1,2), of w] by simp
qed

lemma poolIndex_uniform:
  assumes "isSafeInteger n" "1 \<le> n" "0 \<le> i" "i < n"
  shows "card {w. 0 \<le> w \<and> w < 2 ^ 64 \<and> bootstrapPoolIndex w (NInt n) = Inr (Some i)} = nat (2 ^ 64 div n)"
proof -
  have "inj_on (\<lambda>k. k * n + i) {0..<2 ^ 64 div n}" using assms(2) by (auto simp: inj_on_def)
  then show ?thesis unfolding poolIndex_preimage [OF assms] by (simp add: card_image)
qed

lemma poolIndex_rejected:
  assumes "isSafeInteger n" "1 \<le> n"
  shows "card {w. 0 \<le> w \<and> w < 2 ^ 64 \<and> bootstrapPoolIndex w (NInt n) = Inr None} = nat (2 ^ 64 mod n)"
proof -
  have "{w. 0 \<le> w \<and> w < 2 ^ 64 \<and> bootstrapPoolIndex w (NInt n) = Inr None} = {(2 ^ 64 div n) * n..<2 ^ 64}"
  proof -
    have "0 \<le> (2 ^ 64 div n) * n" using assms(2) by (simp add: pos_imp_zdiv_nonneg_iff)
    then show ?thesis using bootstrapPoolIndex_Inr [OF assms] by (auto split: if_splits)
  qed
  moreover have "(2::int) ^ 64 - (2 ^ 64 div n) * n = 2 ^ 64 mod n" by (simp add: minus_div_mult_eq_mod)
  ultimately show ?thesis by simp
qed


section \<open>Replicates and interval\<close>

lemma drawPoolIndex_range: "drawPoolIndex X input n = Inr i \<Longrightarrow> 0 \<le> i \<and> i < int n"
proof (induction X input n rule: drawPoolIndex.induct)
  case (1 X input n)
  from 1(2) obtain dw sel where dw: "deriveBootstrapWord X input = Inr dw"
    and sel: "bootstrapPoolIndex (snd dw) (NInt (int n)) = Inr sel"
    and cont: "(case sel of Some index \<Rightarrow> Inr index | None \<Rightarrow>
         if counter input = 0xffffffffffffffff then Inl (studyError ''study.input-invalid'')
         else drawPoolIndex X (input\<lparr>counter := counter input + 1\<rparr>) n) = Inr i"
    by (subst (asm) drawPoolIndex.simps) (auto elim!: bindRE)
  show ?case
  proof (cases sel)
    case None
    with cont 1(1) [OF dw sel None] show ?thesis by (auto split: if_splits)
  next
    case (Some j)
    have "0 \<le> snd dw"
      using dw by (auto simp: deriveBootstrapWord_def readBigUInt64BE_def result_simps Let_def split: if_splits)
    moreover have n: "isSafeInteger (int n)" "1 \<le> int n" using sel by (auto simp: bootstrapPoolIndex_def split: if_splits)
    ultimately have "sel = (if (2 ^ 64 div int n) * int n \<le> snd dw then None else Some (snd dw mod int n))"
      using bootstrapPoolIndex_Inr [OF n] sel by simp
    with Some cont n show ?thesis by (auto split: if_splits)
  qed
qed

definition observedValues :: "BootstrapMetricRowV1 list \<Rightarrow> StudyRationalV1 set" where
  "observedValues rows = {v. \<exists>row \<in> set rows. rowValue row = Some v}"

lemma drawLane_values:
  assumes "drawLane X seed metric rep lp = Inr vs" "\<forall>row \<in> set (snd lp). rowValue row \<noteq> None"
  shows "length vs = length (snd lp) \<and> set vs \<subseteq> observedValues (snd lp)"
proof -
  have "list_all2 (\<lambda>draw v. \<exists>i. 0 \<le> i \<and> i < int (length (snd lp)) \<and> v = the (rowValue (snd lp ! nat i)))
      [0..<length (snd lp)] vs"
    using assms(1) unfolding drawLane_def mapR_eq_Inr
    by (rule list_all2_mono) (auto elim!: bindRE dest: drawPoolIndex_range)
  then have len: "length vs = length (snd lp)"
    and vals: "\<And>v. v \<in> set vs \<Longrightarrow> \<exists>i. 0 \<le> i \<and> i < int (length (snd lp)) \<and> v = the (rowValue (snd lp ! nat i))"
    by (auto simp: list_all2_conv_all_nth in_set_conv_nth)
  have "v \<in> observedValues (snd lp)" if v: "v \<in> set vs" for v
  proof -
    obtain i where i: "0 \<le> i" "i < int (length (snd lp))" "v = the (rowValue (snd lp ! nat i))" using vals [OF v] by blast
    then have "snd lp ! nat i \<in> set (snd lp)" by simp
    with i(3) assms(2) show ?thesis unfolding observedValues_def by force
  qed
  with len show ?thesis by blast
qed

lemma bootstrapReplicate_sample:
  assumes "bootstrapReplicate X seed metric pools rep = Inr q" "\<forall>pool \<in> set pools. \<forall>row \<in> set pool. rowValue row \<noteq> None"
  shows "\<exists>sample. exactMedian sample = Inr q \<and> length sample = sum_list (map length pools) \<and>
    set sample \<subseteq> (\<Union>pool \<in> set pools. observedValues pool)"
proof -
  obtain samples where m: "mapR (drawLane X seed metric rep) (zip [0..<length pools] pools) = Inr samples"
      and q: "exactMedian (concat samples) = Inr q"
    using assms(1) by (auto simp: bootstrapReplicate_def elim!: bindRE)
  have "list_all2 (\<lambda>pool vs. length vs = length pool \<and> set vs \<subseteq> observedValues pool) pools samples"
  proof (rule list_all2_all_nthI)
    show len: "length pools = length samples" using m by (auto simp: mapR_eq_Inr dest: list_all2_lengthD)
    fix k
    assume k: "k < length pools"
    have "drawLane X seed metric rep (zip [0..<length pools] pools ! k) = Inr (samples ! k)"
      using m k by (auto simp: mapR_eq_Inr dest: list_all2_nthD)
    moreover have "\<forall>row \<in> set (pools ! k). rowValue row \<noteq> None" using assms(2) nth_mem [OF k] by blast
    ultimately show "length (samples ! k) = length (pools ! k) \<and> set (samples ! k) \<subseteq> observedValues (pools ! k)"
      using drawLane_values [of X seed metric rep "(k, pools ! k)"] k by simp
  qed
  then have "length (concat samples) = sum_list (map length pools) \<and>
      set (concat samples) \<subseteq> (\<Union>pool \<in> set pools. observedValues pool)"
    by (induction rule: list_all2_induct) auto
  with q show ?thesis by blast
qed

lemma median_between:
  assumes "xs \<noteq> []" "\<And>x. x \<in> set xs \<Longrightarrow> lo \<le> x \<and> x \<le> hi"
  shows "lo \<le> median xs" "median xs \<le> hi"
proof -
  have nth: "lo \<le> sort xs ! i \<and> sort xs ! i \<le> hi" if "i < length xs" for i
    using assms(2) that nth_mem [of i "sort xs"] by simp
  have "length xs div 2 < length xs" "length xs div 2 - 1 < length xs" using assms(1) by (auto intro: less_imp_diff_less)
  with nth have "lo \<le> sort xs ! (length xs div 2) \<and> sort xs ! (length xs div 2) \<le> hi"
      "lo \<le> sort xs ! (length xs div 2 - 1) \<and> sort xs ! (length xs div 2 - 1) \<le> hi" by blast+
  then show "lo \<le> median xs" "median xs \<le> hi" by (auto simp: median_def Let_def)
qed

lemma sortedReplicates_sort:
  assumes "list_all positiveDen vs"
  shows "map ratOf (sortedReplicates vs) = sort (map ratOf vs)" "set (sortedReplicates vs) = set vs"
proof -
  let ?cmp = "thenBy (\<lambda>left right. compareRational (fst left) (fst right)) (\<lambda>left right. int (snd left) - int (snd right))"
    and ?z = "zip vs [0..<length vs]"
  have pos: "positiveDen (fst x)" if "x \<in> set ?z" for x
    using that assms set_zip_leftD [of "fst x" "snd x"] by (simp add: list_all_iff)
  have "sorted (map (ratOf \<circ> fst) (sortBy ?cmp ?z))"
    by (rule sorted_map_sortBy) (auto simp: thenBy_def compareRational_order pos split: if_splits)
  moreover have "mset (map fst (sortBy ?cmp ?z)) = mset (map fst ?z)" by (simp only: mset_map mset_sortBy)
  then have m: "mset (sortedReplicates vs) = mset vs" by (simp add: sortedReplicates_def)
  moreover have "mset (map ratOf (sortedReplicates vs)) = mset (map ratOf vs)" by (simp only: mset_map m)
  ultimately show "map ratOf (sortedReplicates vs) = sort (map ratOf vs)"
    by (intro properties_for_sort [symmetric]) (simp_all only: sortedReplicates_def map_map)
  show "set (sortedReplicates vs) = set vs" using m by (metis set_mset_mset)
qed

text \<open>The values of the pools are the observed ones, and the rows that pass the checks have positive denominators.\<close>

lemma bootstrapPools_rows:
  "pool \<in> set (bootstrapPools rows) \<Longrightarrow> set pool \<subseteq> set rows \<and> (\<forall>row \<in> set pool. rowValue row \<noteq> None)"
  by (auto simp: bootstrapPools_def)

lemma bootstrapReplicate_range:
  assumes "bootstrapReplicate X seed metric (bootstrapPools rows) rep = Inr q"
    and "\<And>v. v \<in> observedValues rows \<Longrightarrow> positiveDen v \<and> lo \<le> ratOf v \<and> ratOf v \<le> hi"
  shows "positiveDen q \<and> lo \<le> ratOf q \<and> ratOf q \<le> hi"
proof -
  obtain sample where s: "exactMedian sample = Inr q"
      and sub: "set sample \<subseteq> (\<Union>pool \<in> set (bootstrapPools rows). observedValues pool)"
    using bootstrapReplicate_sample [OF assms(1)] bootstrapPools_rows by blast
  have vals: "positiveDen v \<and> lo \<le> ratOf v \<and> ratOf v \<le> hi" if "v \<in> set sample" for v
    using that sub bootstrapPools_rows by (intro assms(2)) (fastforce simp: observedValues_def)
  have ne: "sample \<noteq> []" using s by (auto simp: exactMedian_def)
  obtain q' where "exactMedian sample = Inr q'" "positiveDen q'" "ratOf q' = median (map ratOf sample)"
    using exactMedian_exact [OF ne] vals by (auto simp: list_all_iff)
  with s median_between [of "map ratOf sample" lo hi] ne vals show ?thesis by auto
qed

lemma bootstrap_available:
  assumes "laneStratifiedBootstrap X input = Inr (IntervalAvailable vs lower mid upper)"
  shows "length vs = 10000" "\<forall>v \<in> observedValues (inputRows input). positiveDen v"
    "\<exists>seed. list_all2 (\<lambda>rep v. bootstrapReplicate X seed (inputMetricId input) (bootstrapPools (inputRows input)) rep = Inr v)
       [0..<10000] vs"
    "bindR (rational 1 40) (type7Quantile (sortedReplicates vs)) = Inr lower"
    "exactMedian (sortedReplicates vs) = Inr mid"
    "bindR (rational 39 40) (type7Quantile (sortedReplicates vs)) = Inr upper"
proof -
  define count where "count = (case replicateCount input of None \<Rightarrow> NInt 10000 | Some c \<Rightarrow> c)"
  have count: "accepted (evaluateStudyBound BootstrapReplicates (ObservedNumber count))"
    using assms by (auto simp: laneStratifiedBootstrap_def Let_def count_def split: if_splits)
  have n: "nat (numInt count) = 10000"
    using count by (auto simp: evaluateStudyBound_def boundResult_def Let_def split: if_splits)
  have checked: "\<not> list_ex (\<lambda>row. case rowValue row of None \<Rightarrow> False | Some v \<Rightarrow> denominator v \<le> 0) (inputRows input)"
    using assms by (auto simp: laneStratifiedBootstrap_def Let_def split: if_splits)
  show "\<forall>v \<in> observedValues (inputRows input). positiveDen v"
  proof
    fix v
    assume "v \<in> observedValues (inputRows input)"
    then obtain row where "row \<in> set (inputRows input)" "rowValue row = Some v" by (auto simp: observedValues_def)
    with checked show "positiveDen v" by (force simp: list_ex_iff positiveDen_def)
  qed
  from assms obtain seed where
      m: "mapR (bootstrapReplicate X seed (inputMetricId input) (bootstrapPools (inputRows input))) [0..<10000] = Inr vs"
    and rest: "bindR (rational 1 40) (type7Quantile (sortedReplicates vs)) = Inr lower"
      "exactMedian (sortedReplicates vs) = Inr mid"
      "bindR (rational 39 40) (type7Quantile (sortedReplicates vs)) = Inr upper"
    unfolding laneStratifiedBootstrap_def Let_def count_def [symmetric] n
    by (auto simp: bindR_eq_Inr simp del: upt.simps split: if_splits)
  from m show "\<exists>seed. list_all2 (\<lambda>rep v. bootstrapReplicate X seed (inputMetricId input)
      (bootstrapPools (inputRows input)) rep = Inr v) [0..<10000] vs"
    unfolding mapR_eq_Inr by blast
  from m have "length [0..<10000] = length vs" unfolding mapR_eq_Inr by (rule list_all2_lengthD)
  then show "length vs = 10000" by (simp del: upt.simps)
  from rest show "bindR (rational 1 40) (type7Quantile (sortedReplicates vs)) = Inr lower"
      "exactMedian (sortedReplicates vs) = Inr mid"
      "bindR (rational 39 40) (type7Quantile (sortedReplicates vs)) = Inr upper" by blast+
qed

lemma bootstrap_interval:
  assumes "laneStratifiedBootstrap X input = Inr (IntervalAvailable vs lower mid upper)"
  shows "length vs = 10000"
    "\<forall>v \<in> set vs. positiveDen v"
    "ratOf lower = quantile7 (sort (map ratOf vs)) (1 / 40)"
    "ratOf mid = median (map ratOf vs)"
    "ratOf upper = quantile7 (sort (map ratOf vs)) (39 / 40)"
    "ratOf lower \<le> ratOf mid \<and> ratOf mid \<le> ratOf upper"
proof -
  note av = bootstrap_available [OF assms]
  show len: "length vs = 10000" by (rule av(1))
  obtain seed where l2: "list_all2 (\<lambda>rep v. bootstrapReplicate X seed (inputMetricId input) (bootstrapPools (inputRows input)) rep = Inr v)
       [0..<10000] vs" using av(3) by blast
  show pos: "\<forall>v \<in> set vs. positiveDen v"
  proof
    fix v
    assume "v \<in> set vs"
    then obtain rep where r: "bootstrapReplicate X seed (inputMetricId input) (bootstrapPools (inputRows input)) rep = Inr v"
      using l2 by (auto simp: list_all2_conv_all_nth in_set_conv_nth simp del: upt.simps)
    let ?R = "ratOf ` observedValues (inputRows input)"
    have "finite (observedValues (inputRows input))"
      by (rule finite_subset [of _ "(\<lambda>row. the (rowValue row)) ` set (inputRows input)"]) (force simp: observedValues_def)+
    then have "finite ?R" by simp
    then show "positiveDen v"
      using bootstrapReplicate_range [OF r, of "Min ?R" "Max ?R"] av(2) by auto
  qed
  let ?o = "sortedReplicates vs"
  have o: "?o \<noteq> []" "list_all positiveDen ?o" "map ratOf ?o = sort (map ratOf vs)"
    using sortedReplicates_sort [of vs] pos len by (auto simp: list_all_iff simp flip: set_empty)
  have q: "\<exists>p. rational n 40 = Inr p \<and> positiveDen p \<and> ratOf p = of_int n / 40" for n
    using rational_exact [of 40 n] by (auto simp: reduced_def)
  have quant: "ratOf r = quantile7 (sort (map ratOf vs)) (of_int n / 40)"
    if "bindR (rational n 40) (type7Quantile ?o) = Inr r" "0 \<le> n" "n \<le> 40" for n r
  proof -
    obtain p where p: "rational n 40 = Inr p" "positiveDen p" "ratOf p = of_int n / 40" using q by blast
    then have "0 \<le> ratOf p" "ratOf p \<le> 1" using that by simp_all
    with type7Quantile_exact [OF o(1,2) _ p(2)] o(3) p that(1) show ?thesis by auto
  qed
  show l: "ratOf lower = quantile7 (sort (map ratOf vs)) (1 / 40)" using quant [OF av(4)] by simp
  show u: "ratOf upper = quantile7 (sort (map ratOf vs)) (39 / 40)" using quant [OF av(6)] by simp
  have med: "median (sort (map ratOf vs)) = median (map ratOf vs)" by (simp add: median_def Let_def sort_key_id_if_sorted)
  show m: "ratOf mid = median (map ratOf vs)" using exactMedian_exact [OF o(1,2)] av(5) o(3) med by auto
  have ne: "sort (map ratOf vs) \<noteq> []" using o by (metis Nil_is_map_conv)
  have "median (map ratOf vs) = quantile7 (sort (map ratOf vs)) (1 / 2)" using quantile7_half [OF ne] med by simp
  with l u m quantile7_mono [OF ne, of "1 / 40" "1 / 2"] quantile7_mono [OF ne, of "1 / 2" "39 / 40"]
  show "ratOf lower \<le> ratOf mid \<and> ratOf mid \<le> ratOf upper" by simp
qed

lemma bootstrap_between:
  assumes "laneStratifiedBootstrap X input = Inr (IntervalAvailable vs lower mid upper)" "v \<in> set vs"
  shows "\<exists>a \<in> observedValues (inputRows input). \<exists>b \<in> observedValues (inputRows input).
    ratOf a \<le> ratOf v \<and> ratOf v \<le> ratOf b"
proof -
  let ?O = "observedValues (inputRows input)"
  note av = bootstrap_available [OF assms(1)]
  obtain seed rep where r: "bootstrapReplicate X seed (inputMetricId input) (bootstrapPools (inputRows input)) rep = Inr v"
    using av(3) assms(2) by (auto simp: list_all2_conv_all_nth in_set_conv_nth simp del: upt.simps)
  have fin: "finite (ratOf ` ?O)"
  proof -
    have "?O \<subseteq> (\<lambda>row. the (rowValue row)) ` set (inputRows input)" by (force simp: observedValues_def)
    then show ?thesis by (meson finite_imageI finite_set finite_subset)
  qed
  obtain sample where s: "exactMedian sample = Inr v"
      and sub: "set sample \<subseteq> (\<Union>pool \<in> set (bootstrapPools (inputRows input)). observedValues pool)"
    using bootstrapReplicate_sample [OF r] bootstrapPools_rows by blast
  have "sample \<noteq> []" using s by (auto simp: exactMedian_def)
  with sub bootstrapPools_rows have "?O \<noteq> {}" by (fastforce simp: observedValues_def neq_Nil_conv)
  then have "Min (ratOf ` ?O) \<in> ratOf ` ?O" "Max (ratOf ` ?O) \<in> ratOf ` ?O" using fin by auto
  moreover have "Min (ratOf ` ?O) \<le> ratOf v \<and> ratOf v \<le> Max (ratOf ` ?O)"
    using bootstrapReplicate_range [OF r, of "Min (ratOf ` ?O)" "Max (ratOf ` ?O)"] av(2) fin by auto
  ultimately show ?thesis by (auto simp: image_iff)
qed

end
