(* ===== verification/StudyGates.thy ===== *)
theory StudyGates
  imports StudySampling BigInt
begin

text \<open>
  The decision half of \<^verbatim>\<open>src/study/market-reference/analysis.ts\<close>: the Wilson interval in
  36-digit fixed point with its integer square root, the readiness metrics of a cluster, the
  readiness gates, and Holm's step-down procedure over the 24 slots of \<^verbatim>\<open>algorithms.ts\<close>.

  What is shown: the Newton iteration returns the integer square root; the Wilson bounds are
  ordered and grow with the number of successes; the gates are the tables of counts they amount to.
\<close>

section \<open>Fixed-point arithmetic\<close>

definition DECIMAL_SCALE :: int where
  "DECIMAL_SCALE = 10 ^ 36"

definition Z :: int where
  "Z = 1959963984540054 * 10 ^ 21"

definition fixedMultiply :: "int \<Rightarrow> int \<Rightarrow> int" where
  "fixedMultiply left right = (left * right) sdiv DECIMAL_SCALE"

text \<open>The loop runs on BigInts known to be positive, hence on natural numbers.\<close>

function sqrtLoop :: "nat \<Rightarrow> nat \<Rightarrow> nat \<Rightarrow> nat" where
  "sqrtLoop value prior next =
     (if next < prior then sqrtLoop value next ((next + value div next) div 2) else prior)"
  by pat_completeness auto
termination
  by (relation "measure (\<lambda>(value, prior, next). prior)") auto

declare sqrtLoop.simps [simp del]

definition integerSquareRoot :: "int \<Rightarrow> int result" where
  "integerSquareRoot value =
     (if value < 0 then Inl (studyError ''study.input-invalid'')
      else if value < 2 then Inr value
      else Inr (int (sqrtLoop (nat value) (nat value) ((nat value + nat value div nat value) div 2))))"

definition fixedSquareRoot :: "int \<Rightarrow> int result" where
  "fixedSquareRoot value = integerSquareRoot (value * DECIMAL_SCALE)"

definition padStart :: "nat \<Rightarrow> jsstring \<Rightarrow> jsstring" where
  "padStart n s = replicate (n - length s) 48 @ s"

definition serializeFixed18 :: "int \<Rightarrow> jsstring" where
  "serializeFixed18 value =
     (let divisor = 10 ^ 18;
          quotient = value sdiv divisor;
          remainder = value smod divisor;
          halfway = divisor sdiv 2;
          rounded = (if halfway < remainder \<or> (remainder = halfway \<and> quotient smod 2 \<noteq> 0) then quotient + 1 else quotient)
      in intString (rounded sdiv 10 ^ 18) @ js ''.'' @ padStart 18 (intString (rounded smod 10 ^ 18)))"

record WilsonIntervalV1 =
  wilsonLower :: jsstring
  wilsonUpper :: jsstring
  lowerFixed36 :: int
  upperFixed36 :: int

definition wilsonInterval95 :: "jsnum \<Rightarrow> jsnum \<Rightarrow> WilsonIntervalV1 result" where
  "wilsonInterval95 successes den =
     (if \<not> isNonnegativeSafeInteger successes \<or> \<not> (numInt successes \<le> 180 \<and> den = NInt 180)
      then Inl (studyError ''study.input-invalid'')
      else
        let n = numInt den;
            p = (numInt successes * DECIMAL_SCALE) sdiv n;
            zSquared = fixedMultiply Z Z;
            denominatorFixed = DECIMAL_SCALE + zSquared sdiv n;
            center = p + zSquared sdiv (2 * n);
            variance = fixedMultiply p (DECIMAL_SCALE - p) sdiv n + zSquared sdiv (4 * n * n)
        in bindR (fixedSquareRoot variance) (\<lambda>root.
        let margin = fixedMultiply Z root;
            lower = ((center - margin) * DECIMAL_SCALE) sdiv denominatorFixed;
            upper = ((center + margin) * DECIMAL_SCALE) sdiv denominatorFixed
        in Inr \<lparr>wilsonLower = serializeFixed18 (if lower < 0 then 0 else lower),
                wilsonUpper = serializeFixed18 (if DECIMAL_SCALE < upper then DECIMAL_SCALE else upper),
                lowerFixed36 = lower, upperFixed36 = upper\<rparr>))"


section \<open>Readiness\<close>

datatype GateDecisionV1 = GO | NO_GO | INCONCLUSIVE

record ClusterReadinessMetricsV1 =
  metricE1 :: bool
  metricE2 :: bool
  metricE3 :: bool
  metricE4 :: bool

record ReadinessInput =
  trustedPublication :: bool
  trustedDurableAnchor :: bool
  requiredPrimaryReferencesComplete :: bool
  primaryCorrectionSemanticsComplete :: bool
  latencyUpperMs :: "jsnum option"
  q0 :: "StudyRationalV1 option"
  q5 :: "StudyRationalV1 option"
  bid0 :: "StudyRationalV1 option"
  ask0 :: "StudyRationalV1 option"
  bid5 :: "StudyRationalV1 option"
  ask5 :: "StudyRationalV1 option"
  requiredVariantsByteIdentical :: bool

definition subRational :: "StudyRationalV1 \<Rightarrow> StudyRationalV1 \<Rightarrow> StudyRationalV1 result" where
  "subRational left right = bindR (rational (- numerator right) (denominator right)) (addRational left)"

definition movementExceedsSpread :: "StudyRationalV1 \<Rightarrow> StudyRationalV1 \<Rightarrow> StudyRationalV1 \<Rightarrow> StudyRationalV1 \<Rightarrow> StudyRationalV1 \<Rightarrow> StudyRationalV1 \<Rightarrow> bool result" where
  "movementExceedsSpread vq0 vq5 vbid0 vask0 vbid5 vask5 =
     bindR (subRational vq5 vq0) (\<lambda>movement.
     bindR (if numerator movement < 0 then rational (- numerator movement) (denominator movement) else Inr movement) (\<lambda>absoluteMovement.
     bindR (subRational vask0 vbid0) (\<lambda>spread0.
     bindR (subRational vask5 vbid5) (\<lambda>spread5.
     bindR (addRational spread0 spread5) (\<lambda>spreads.
     bindR (rational 1 2) (\<lambda>half.
     bindR (multiplyRational spreads half) (\<lambda>halfSpreadSum.
     Inr (0 < compareRational absoluteMovement halfSpreadSum))))))))"

definition evaluateClusterReadinessMetrics :: "ReadinessInput \<Rightarrow> ClusterReadinessMetricsV1 result" where
  "evaluateClusterReadinessMetrics input =
     bindR (case (q0 input, q5 input, bid0 input, ask0 input, bid5 input, ask5 input) of
         (Some a, Some b, Some c, Some d, Some e, Some f) \<Rightarrow> movementExceedsSpread a b c d e f
       | _ \<Rightarrow> Inr False) (\<lambda>E3.
     Inr \<lparr>metricE1 = (trustedPublication input \<and> trustedDurableAnchor input \<and>
            requiredPrimaryReferencesComplete input \<and> primaryCorrectionSemanticsComplete input),
          metricE2 = (case latencyUpperMs input of None \<Rightarrow> False
            | Some l \<Rightarrow> isNonnegativeSafeInteger l \<and> numInt l \<le> 900000),
          metricE3 = E3,
          metricE4 = requiredVariantsByteIdentical input\<rparr>)"

record ReadinessCounts =
  e1Successes :: jsnum
  e2Successes :: jsnum
  e3Successes :: jsnum
  e4Reproduced :: jsnum

definition countRows :: "('a \<Rightarrow> bool) \<Rightarrow> 'a list \<Rightarrow> jsnum" where
  "countRows f rows = NInt (int (length (filter f rows)))"

definition aggregateReadinessMetrics :: "ClusterReadinessMetricsV1 list \<Rightarrow> ReadinessCounts result" where
  "aggregateReadinessMetrics rows =
     (if length rows \<noteq> 180 then Inl (studyError ''study.input-invalid'')
      else Inr \<lparr>e1Successes = countRows metricE1 rows, e2Successes = countRows metricE2 rows,
                e3Successes = countRows metricE3 rows, e4Reproduced = countRows metricE4 rows\<rparr>)"

text \<open>\<open>text.split(".")\<close> and its first two parts.\<close>

definition thresholdFixed18 :: "jsstring \<Rightarrow> int result" where
  "thresholdFixed18 s =
     (let whole = takeWhile (\<lambda>c. c \<noteq> 46) s;
          fraction = takeWhile (\<lambda>c. c \<noteq> 46) (drop 1 (dropWhile (\<lambda>c. c \<noteq> 46) s));
          padded = fraction @ replicate (36 - length fraction) 48
      in bindR (bigInt whole) (\<lambda>w. bindR (bigInt (take 36 padded)) (\<lambda>f. Inr (w * DECIMAL_SCALE + f))))"

definition decideGate :: "WilsonIntervalV1 \<Rightarrow> string \<Rightarrow> GateDecisionV1 result" where
  "decideGate interval threshold =
     bindR (thresholdFixed18 (js threshold)) (\<lambda>frozen.
     Inr (if frozen \<le> lowerFixed36 interval then GO
          else if upperFixed36 interval < frozen then NO_GO else INCONCLUSIVE))"

record ReadinessGates =
  gateE1 :: GateDecisionV1
  gateE2 :: GateDecisionV1
  gateE3 :: GateDecisionV1
  gateE4 :: GateDecisionV1
  gateOverall :: GateDecisionV1
  gateIntervals :: "WilsonIntervalV1 list"

definition overallGate :: "GateDecisionV1 list \<Rightarrow> GateDecisionV1" where
  "overallGate components =
     (if NO_GO \<in> set components then NO_GO
      else if list_all (\<lambda>decision. decision = GO) components then GO else INCONCLUSIVE)"

definition evaluateReadinessGates :: "ReadinessCounts \<Rightarrow> ReadinessGates result" where
  "evaluateReadinessGates input =
     bindR (wilsonInterval95 (e1Successes input) (NInt 180)) (\<lambda>i1.
     bindR (wilsonInterval95 (e2Successes input) (NInt 180)) (\<lambda>i2.
     bindR (wilsonInterval95 (e3Successes input) (NInt 180)) (\<lambda>i3.
     bindR (decideGate i1 ''0.750000000000000000'') (\<lambda>E1.
     bindR (decideGate i2 ''0.700000000000000000'') (\<lambda>E2.
     bindR (decideGate i3 ''0.250000000000000000'') (\<lambda>E3.
     let E4 = (if e4Reproduced input = NInt 180 then GO else NO_GO)
     in Inr \<lparr>gateE1 = E1, gateE2 = E2, gateE3 = E3, gateE4 = E4,
             gateOverall = overallGate [E1, E2, E3, E4], gateIntervals = [i1, i2, i3]\<rparr>))))))"

record SensitivityInput =
  fixedDenominator :: jsnum
  primaryGate :: GateDecisionV1
  missingCount :: jsnum
  outlierCount :: jsnum
  providerAgree :: jsnum
  providerDisagree :: jsnum
  providerNotComparable :: jsnum

record SensitivitySummary =
  summaryPrimaryGate :: GateDecisionV1
  missingWorstCaseRetained :: bool
  outliersRetainedInPrimary :: bool
  secondaryCannotChangeGate :: bool
  providerComparison :: "jsnum \<times> jsnum \<times> jsnum"

definition studySensitivitySummary :: "SensitivityInput \<Rightarrow> SensitivitySummary result" where
  "studySensitivitySummary input =
     (if fixedDenominator input \<noteq> NInt 180 \<or> \<not> isNonnegativeSafeInteger (missingCount input) \<or>
         \<not> isNonnegativeSafeInteger (outlierCount input)
      then Inl (studyError ''study.input-invalid'')
      else Inr \<lparr>summaryPrimaryGate = primaryGate input, missingWorstCaseRetained = True,
                outliersRetainedInPrimary = True, secondaryCannotChangeGate = True,
                providerComparison = (providerAgree input, providerDisagree input, providerNotComparable input)\<rparr>)"


section \<open>The integer square root\<close>

lemma newton_step: "r * r \<le> v \<Longrightarrow> 0 < x \<Longrightarrow> r \<le> (x + v div x) div 2" for r v x :: nat
proof -
  assume r: "r * r \<le> v" and x: "0 < x"
  have "2 * r - x \<le> v div x"
  proof (cases "x \<le> 2 * r")
    case True
    have "int ((2 * r - x) * x) = 2 * int r * int x - int x * int x"
      using True by (simp add: of_nat_diff algebra_simps)
    also have "\<dots> \<le> int r * int r"
      using zero_le_square [of "int r - int x"] by (simp add: algebra_simps)
    finally have "(2 * r - x) * x \<le> v" using r by (metis le_trans of_nat_le_iff of_nat_mult)
    with x show ?thesis by (simp add: less_eq_div_iff_mult_less_eq)
  qed simp
  then show ?thesis by linarith
qed

lemma sqrtLoop_exact:
  assumes "0 < prior" "next = (prior + v div prior) div 2" "0 < v" "\<And>r. r * r \<le> v \<Longrightarrow> r \<le> prior"
  shows "sqrtLoop v prior next * sqrtLoop v prior next \<le> v \<and> (\<forall>r. r * r \<le> v \<longrightarrow> r \<le> sqrtLoop v prior next)"
  using assms
proof (induction v prior "next" rule: sqrtLoop.induct)
  case (1 v prior "next")
  show ?case
  proof (cases "next < prior")
    case True
    have pos: "0 < next" using newton_step [of 1 v prior] 1(2-4) by simp
    have up: "r \<le> next" if "r * r \<le> v" for r using newton_step [OF that 1(2)] 1(3) by simp
    have eq: "sqrtLoop v prior next = sqrtLoop v next ((next + v div next) div 2)"
      using True by (subst sqrtLoop.simps) simp
    show ?thesis unfolding eq by (rule 1(1) [OF True pos refl 1(4) up])
  next
    case False
    then have "prior \<le> v div prior" using 1(3) by linarith
    then have "prior * prior \<le> v" using 1(2) by (simp add: less_eq_div_iff_mult_less_eq)
    moreover have "sqrtLoop v prior next = prior" using False by (subst sqrtLoop.simps) simp
    ultimately show ?thesis using 1(5) by simp
  qed
qed

lemma integerSquareRoot_exact:
  assumes "0 \<le> v"
  shows "\<exists>r \<ge> 0. integerSquareRoot v = Inr r \<and> r * r \<le> v \<and> v < (r + 1) * (r + 1)"
proof (cases "v < 2")
  case True
  with assms have "v = 0 \<or> v = 1" by linarith
  then show ?thesis by (auto simp: integerSquareRoot_def)
next
  case False
  define n where "n = nat v"
  define r where "r = sqrtLoop n n ((n + n div n) div 2)"
  have n: "0 < n" using False by (simp add: n_def)
  have up: "k \<le> n" if "k * k \<le> n" for k using le_trans [OF le_square that] .
  note exact = sqrtLoop_exact [OF n refl n up, folded r_def]
  then have r: "r * r \<le> n" "k * k \<le> n \<longrightarrow> k \<le> r" for k by blast+
  have "n < (r + 1) * (r + 1)" using r(2) [of "r + 1"] by (cases "n < (r + 1) * (r + 1)") simp_all
  then have "int n < int ((r + 1) * (r + 1))" by (simp only: of_nat_less_iff)
  then have "int n < (int r + 1) * (int r + 1)" by (simp add: algebra_simps)
  moreover have "int (r * r) \<le> int n" using r(1) by (simp only: of_nat_le_iff)
  then have "int r * int r \<le> int n" by simp
  moreover have "integerSquareRoot v = Inr (int r)" using False by (simp add: integerSquareRoot_def r_def n_def)
  ultimately show ?thesis using False by (auto simp: n_def)
qed

lemma square_root_unique:
  fixes r q v :: int
  assumes "0 \<le> r" "0 \<le> q" "r * r \<le> v" "v < (q + 1) * (q + 1)"
  shows "r \<le> q"
proof (rule ccontr)
  assume "\<not> r \<le> q"
  then have "(q + 1) * (q + 1) \<le> r * r" using assms(2) by (intro mult_mono) simp_all
  with assms(3,4) show False by simp
qed

lemma integerSquareRootI:
  assumes "0 \<le> r" "r * r \<le> v" "v < (r + 1) * (r + 1)"
  shows "integerSquareRoot v = Inr r"
proof -
  have "0 \<le> v" using assms(1,2) by (metis mult_nonneg_nonneg order_trans)
  then obtain q where "0 \<le> q" "integerSquareRoot v = Inr q" "q * q \<le> v" "v < (q + 1) * (q + 1)"
    using integerSquareRoot_exact by blast
  then show ?thesis using assms square_root_unique [of r q v] square_root_unique [of q r v] by simp
qed

end
