(* ===== verification/WilsonLaws.thy ===== *)
theory WilsonLaws
  imports StudyGates
begin

text \<open>
  The Wilson interval of \<^verbatim>\<open>StudyGates.thy\<close> in closed form: for a number of successes between
  0 and 180 the interval exists, is ordered, and both ends grow with the number of successes. The
  last step compares the truncated square roots of two neighbouring counts (\<open>root_gap\<close>).
  From monotonicity and a few evaluations follow the counts at which each gate changes its decision.
\<close>

section \<open>Truncating division\<close>

lemma sdiv_nonneg: "0 \<le> a \<Longrightarrow> 0 < b \<Longrightarrow> a sdiv b = a div b" for a b :: int
  by (simp add: signed_divide_int_def sgn_if)

lemma sdiv_mono:
  fixes a b d :: int
  assumes "a \<le> b" "0 < d"
  shows "a sdiv d \<le> b sdiv d"
proof -
  have neg: "x sdiv d = - (- x div d)" if "x < 0" for x using that assms(2) by (simp add: signed_divide_int_def sgn_if)
  consider "0 \<le> a" | "a < 0" "b < 0" | "a < 0" "0 \<le> b" by linarith
  then show ?thesis
  proof cases
    case 1
    with assms show ?thesis by (simp add: sdiv_nonneg zdiv_mono1)
  next
    case 2
    with assms show ?thesis by (simp add: neg zdiv_mono1)
  next
    case 3
    then have "0 \<le> - a div d" "0 \<le> b div d" using assms(2) by (simp_all add: pos_imp_zdiv_nonneg_iff)
    with 3 assms(2) show ?thesis by (simp add: neg sdiv_nonneg)
  qed
qed

lemma le_div_iff: "0 < d \<Longrightarrow> a \<le> b div d \<longleftrightarrow> a * d \<le> b" for a b d :: int
proof
  assume d: "0 < d" and le: "a \<le> b div d"
  have "a * d \<le> b div d * d" using d le by (intro mult_right_mono) simp_all
  also have "\<dots> \<le> b" using d by (simp add: minus_mod_eq_div_mult [symmetric])
  finally show "a * d \<le> b" .
next
  assume d: "0 < d" and le: "a * d \<le> b"
  from zdiv_mono1 [OF le d] d show "a \<le> b div d" by simp
qed

lemma div_gap:
  fixes a b d X :: int
  assumes "0 < d" "a \<le> b + X"
  shows "a div d \<le> b div d + (X div d + 1)"
proof -
  have "(b mod d + X mod d) div d \<le> (2 * d - 1) div d"
    using pos_mod_bound [OF assms(1), of b] pos_mod_bound [OF assms(1), of X] by (intro zdiv_mono1 assms) simp
  also have "\<dots> = 1" using assms(1) by (intro int_div_pos_eq [of _ _ _ "d - 1"]) simp_all
  finally have "(b + X) div d \<le> b div d + X div d + 1" unfolding div_add1_eq [of b X d] by simp
  moreover have "a div d \<le> (b + X) div d" using assms by (intro zdiv_mono1)
  ultimately show ?thesis by simp
qed


section \<open>Closed form\<close>

definition wilsonP :: "int \<Rightarrow> int" where
  "wilsonP s = s * 10 ^ 36 div 180"

definition wilsonVariance :: "int \<Rightarrow> int" where
  "wilsonVariance s = wilsonP s * (10 ^ 36 - wilsonP s) div 10 ^ 36 div 180 + 29640885962146026505570450022500"

definition wilsonRoot :: "int \<Rightarrow> int" where
  "wilsonRoot s = projr (integerSquareRoot (wilsonVariance s * 10 ^ 36))"

definition wilsonMargin :: "int \<Rightarrow> int" where
  "wilsonMargin s = Z * wilsonRoot s div 10 ^ 36"

definition wilsonCenter :: "int \<Rightarrow> int" where
  "wilsonCenter s = wilsonP s + 10670718946372569542005362008100000"

definition wilsonLowerFixed :: "int \<Rightarrow> int" where
  "wilsonLowerFixed s = ((wilsonCenter s - wilsonMargin s) * 10 ^ 36) sdiv 1021341437892745139084010724016200000"

definition wilsonUpperFixed :: "int \<Rightarrow> int" where
  "wilsonUpperFixed s = ((wilsonCenter s + wilsonMargin s) * 10 ^ 36) sdiv 1021341437892745139084010724016200000"

lemma zSquared: "fixedMultiply Z Z = 3841458820694125035121930322916000000"
  by (simp add: fixedMultiply_def Z_def DECIMAL_SCALE_def sdiv_nonneg)

lemma wilsonP_range:
  assumes "0 \<le> s" "s \<le> 180"
  shows "0 \<le> wilsonP s" "wilsonP s \<le> 10 ^ 36"
proof -
  show "0 \<le> wilsonP s" using assms(1) by (simp add: wilsonP_def pos_imp_zdiv_nonneg_iff)
  have "wilsonP s \<le> 180 * 10 ^ 36 div 180" unfolding wilsonP_def using assms(2) by (intro zdiv_mono1 mult_right_mono) simp_all
  then show "wilsonP s \<le> 10 ^ 36" by simp
qed

lemma wilsonVariance_pos: "0 \<le> s \<Longrightarrow> s \<le> 180 \<Longrightarrow> 29640885962146026505570450022500 \<le> wilsonVariance s"
  using wilsonP_range [of s] by (simp add: wilsonVariance_def pos_imp_zdiv_nonneg_iff)

lemma wilsonRoot_exact:
  assumes "0 \<le> s" "s \<le> 180"
  shows "integerSquareRoot (wilsonVariance s * 10 ^ 36) = Inr (wilsonRoot s)" "0 \<le> wilsonRoot s"
    "wilsonRoot s * wilsonRoot s \<le> wilsonVariance s * 10 ^ 36"
    "wilsonVariance s * 10 ^ 36 < (wilsonRoot s + 1) * (wilsonRoot s + 1)"
proof -
  have "0 \<le> wilsonVariance s * 10 ^ 36" using wilsonVariance_pos [OF assms] by simp
  from integerSquareRoot_exact [OF this] obtain r where "integerSquareRoot (wilsonVariance s * 10 ^ 36) = Inr r" "0 \<le> r"
    "r * r \<le> wilsonVariance s * 10 ^ 36" "wilsonVariance s * 10 ^ 36 < (r + 1) * (r + 1)" by blast
  then show "integerSquareRoot (wilsonVariance s * 10 ^ 36) = Inr (wilsonRoot s)" "0 \<le> wilsonRoot s"
    "wilsonRoot s * wilsonRoot s \<le> wilsonVariance s * 10 ^ 36"
    "wilsonVariance s * 10 ^ 36 < (wilsonRoot s + 1) * (wilsonRoot s + 1)"
    by (simp_all add: wilsonRoot_def)
qed

lemma wilson_closed_form:
  assumes "isNonnegativeSafeInteger n" "numInt n \<le> 180"
  shows "\<exists>w. wilsonInterval95 n (NInt 180) = Inr w \<and> lowerFixed36 w = wilsonLowerFixed (numInt n) \<and>
    upperFixed36 w = wilsonUpperFixed (numInt n)"
proof -
  let ?s = "numInt n"
  have s: "0 \<le> ?s" "?s \<le> 180" using assms by (auto simp: isNonnegativeSafeInteger_def numInt_def split: jsnum.splits)
  note p = wilsonP_range [OF s]
  have P: "(?s * DECIMAL_SCALE) sdiv 180 = wilsonP ?s" using s by (simp add: wilsonP_def DECIMAL_SCALE_def sdiv_nonneg)
  have V: "fixedMultiply (wilsonP ?s) (DECIMAL_SCALE - wilsonP ?s) sdiv 180 + 29640885962146026505570450022500 = wilsonVariance ?s"
    using p by (simp add: fixedMultiply_def DECIMAL_SCALE_def wilsonVariance_def sdiv_nonneg pos_imp_zdiv_nonneg_iff)
  have "0 \<le> Z * wilsonRoot ?s" using wilsonRoot_exact(2) [OF s] by (simp add: Z_def)
  then have M: "fixedMultiply Z (wilsonRoot ?s) = wilsonMargin ?s"
    by (simp add: fixedMultiply_def DECIMAL_SCALE_def wilsonMargin_def sdiv_nonneg)
  have cs: "fixedMultiply Z Z sdiv 180 = 21341437892745139084010724016200000"
      "fixedMultiply Z Z sdiv (2 * 180) = 10670718946372569542005362008100000"
      "fixedMultiply Z Z sdiv (4 * 180 * 180) = 29640885962146026505570450022500"
    by (simp_all add: zSquared sdiv_nonneg)
  have root: "fixedSquareRoot (wilsonVariance ?s) = Inr (wilsonRoot ?s)"
    using wilsonRoot_exact(1) [OF s] by (simp add: fixedSquareRoot_def DECIMAL_SCALE_def)
  have num: "numInt (NInt 180) = 180" by (simp add: numInt_def)
  show ?thesis
    using assms unfolding wilsonInterval95_def Let_def num cs P V root bindR_simps M
    by (simp add: wilsonLowerFixed_def wilsonUpperFixed_def wilsonCenter_def DECIMAL_SCALE_def)
qed


section \<open>Neighbouring counts\<close>

lemma root_gap:
  fixes a b x y K E :: int
  assumes "0 \<le> E" "y \<le> x + E" "a * a \<le> y" "x < (b + 1) * (b + 1)" "0 \<le> a" "0 \<le> b" "K \<le> a" "K \<le> b" "0 \<le> K"
  shows "(a - b - 1) * (2 * K) \<le> E"
proof (cases "a - b - 1 \<le> 0")
  case True
  then have "(a - b - 1) * (2 * K) \<le> 0" using assms(9) by (intro mult_nonpos_nonneg) simp_all
  then show ?thesis using assms(1) by (rule order_trans)
next
  case False
  have "(a - b - 1) * (a + b) = a * a - b * b - a - b" by (simp add: algebra_simps)
  also have "\<dots> \<le> E" using assms(2-4) False by (simp add: algebra_simps)
  finally have "(a - b - 1) * (a + b) \<le> E" .
  moreover have "(a - b - 1) * (2 * K) \<le> (a - b - 1) * (a + b)"
    using False assms(7,8) by (intro mult_left_mono) simp_all
  ultimately show ?thesis by simp
qed

lemma wilsonRoot_lower: "0 \<le> s \<Longrightarrow> s \<le> 180 \<Longrightarrow> 5444344401500150000000000000000000 \<le> wilsonRoot s"
proof -
  assume s: "0 \<le> s" "s \<le> 180"
  have "29640885962146026505570450022500 * 10 ^ 36 \<le> wilsonVariance s * 10 ^ 36"
    using wilsonVariance_pos [OF s] by (intro mult_right_mono) simp_all
  moreover have "(5444344401500150000000000000000000 :: int) * 5444344401500150000000000000000000 \<le> 29640885962146026505570450022500 * 10 ^ 36"
    by simp
  ultimately have le: "(5444344401500150000000000000000000 :: int) * 5444344401500150000000000000000000 \<le> wilsonVariance s * 10 ^ 36"
    by linarith
  show ?thesis by (rule square_root_unique [OF _ wilsonRoot_exact(2) [OF s] le wilsonRoot_exact(4) [OF s]]) simp
qed

lemma wilsonP_step:
  assumes "0 \<le> s" "s < 180"
  shows "wilsonP s + 5555555555555555555555555555555555 \<le> wilsonP (s + 1)"
    "wilsonP (s + 1) \<le> wilsonP s + 5555555555555555555555555555555556"
    "wilsonP s \<le> 10 ^ 36 - 5555555555555555555555555555555555"
  using assms by (simp_all add: wilsonP_def)

lemma wilsonVariance_step:
  assumes "0 \<le> s" "s < 180"
  shows "\<bar>wilsonVariance (s + 1) - wilsonVariance s\<bar> \<le> 30692729766803840877914951989027"
proof -
  let ?p = "wilsonP s" and ?q = "wilsonP (s + 1)" and ?D = "10 ^ 36 :: int"
  let ?X = "5555555555555555555555555555555556 * (10 ^ 36 - 5555555555555555555555555555555555) :: int"
  note st = wilsonP_step [OF assms] and p = wilsonP_range(1) [of s] wilsonP_range [of "s + 1"]
  have "\<bar>(?q - ?p) * (?D - ?p - ?q)\<bar> \<le> ?X"
    unfolding abs_mult using st p assms by (intro mult_mono) simp_all
  moreover have "?q * (?D - ?q) - ?p * (?D - ?p) = (?q - ?p) * (?D - ?p - ?q)" by (simp add: algebra_simps)
  ultimately have g: "?q * (?D - ?q) \<le> ?p * (?D - ?p) + ?X" "?p * (?D - ?p) \<le> ?q * (?D - ?q) + ?X" by linarith+
  have "?q * (?D - ?q) div ?D div 180 \<le> ?p * (?D - ?p) div ?D div 180 + 30692729766803840877914951989027"
    using div_gap [OF _ div_gap [OF _ g(1)], of 180 ?D] by simp
  moreover have "?p * (?D - ?p) div ?D div 180 \<le> ?q * (?D - ?q) div ?D div 180 + 30692729766803840877914951989027"
    using div_gap [OF _ div_gap [OF _ g(2)], of 180 ?D] by simp
  ultimately show ?thesis unfolding wilsonVariance_def abs_le_iff by (intro conjI) linarith+
qed

lemma margin_gap:
  assumes "(a - b - 1) * (2 * 5444344401500150000000000000000000) \<le> 30692729766803840877914951989027 * 10 ^ 36"
  shows "Z * a div 10 ^ 36 \<le> Z * b div 10 ^ 36 + 5555555555555555555555555555555555"
proof -
  have "a \<le> b + 2818771876219538905152057372775618" using assms by simp
  then have "Z * a \<le> Z * b + Z * 2818771876219538905152057372775618"
    by (simp add: Z_def)
  then have "Z * a div 10 ^ 36 \<le> Z * b div 10 ^ 36 + (Z * 2818771876219538905152057372775618 div 10 ^ 36 + 1)"
    by (intro div_gap) simp_all
  then show ?thesis by (simp add: Z_def)
qed

lemma wilsonMargin_step:
  assumes "0 \<le> s" "s < 180"
  shows "\<bar>wilsonMargin (s + 1) - wilsonMargin s\<bar> \<le> 5555555555555555555555555555555555"
proof -
  let ?E = "30692729766803840877914951989027 * 10 ^ 36 :: int"
  have s: "0 \<le> s" "s \<le> 180" "0 \<le> s + 1" "s + 1 \<le> 180" using assms by simp_all
  note r = wilsonRoot_exact [OF s(1,2)] and r' = wilsonRoot_exact [OF s(3,4)]
  note K = wilsonRoot_lower [OF s(1,2)] wilsonRoot_lower [OF s(3,4)]
  have v: "wilsonVariance (s + 1) * 10 ^ 36 \<le> wilsonVariance s * 10 ^ 36 + ?E"
      "wilsonVariance s * 10 ^ 36 \<le> wilsonVariance (s + 1) * 10 ^ 36 + ?E"
    using wilsonVariance_step [OF assms] by simp_all
  have "(wilsonRoot (s + 1) - wilsonRoot s - 1) * (2 * 5444344401500150000000000000000000) \<le> ?E"
    by (rule root_gap [OF _ v(1) r'(3) r(4)]) (use r(2) r'(2) K in simp_all)
  moreover have "(wilsonRoot s - wilsonRoot (s + 1) - 1) * (2 * 5444344401500150000000000000000000) \<le> ?E"
    by (rule root_gap [OF _ v(2) r(3) r'(4)]) (use r(2) r'(2) K in simp_all)
  ultimately show ?thesis
    using margin_gap [of "wilsonRoot (s + 1)" "wilsonRoot s"] margin_gap [of "wilsonRoot s" "wilsonRoot (s + 1)"]
    by (simp add: wilsonMargin_def)
qed

lemma wilson_step:
  assumes "0 \<le> s" "s < 180"
  shows "wilsonLowerFixed s \<le> wilsonLowerFixed (s + 1)" "wilsonUpperFixed s \<le> wilsonUpperFixed (s + 1)"
  unfolding wilsonLowerFixed_def wilsonUpperFixed_def wilsonCenter_def
  using wilsonMargin_step [OF assms] wilsonP_step(1) [OF assms]
  by (intro sdiv_mono mult_right_mono; simp)+

lemma wilson_mono:
  assumes "0 \<le> s" "s \<le> t" "t \<le> 180"
  shows "wilsonLowerFixed s \<le> wilsonLowerFixed t \<and> wilsonUpperFixed s \<le> wilsonUpperFixed t"
  using assms(2,3)
proof (induction t rule: int_ge_induct)
  case (step t)
  then show ?case using wilson_step [of t] assms(1) by force
qed simp

lemma wilson_ordered: "0 \<le> s \<Longrightarrow> s \<le> 180 \<Longrightarrow> wilsonLowerFixed s \<le> wilsonUpperFixed s"
proof -
  assume s: "0 \<le> s" "s \<le> 180"
  have "0 \<le> wilsonMargin s" using wilsonRoot_exact(2) [OF s] by (simp add: wilsonMargin_def Z_def pos_imp_zdiv_nonneg_iff)
  then show ?thesis unfolding wilsonLowerFixed_def wilsonUpperFixed_def by (intro sdiv_mono mult_right_mono) simp_all
qed


section \<open>Where the decisions change\<close>

text \<open>
  The variance up to a few units, as a polynomial in the number of successes, so that a threshold is
  decided by comparing rounded square roots and products.
\<close>

lemma wilsonP_bounds: "180 * wilsonP s \<le> s * 10 ^ 36" "s * 10 ^ 36 < 180 * wilsonP s + 180"
proof -
  have eq: "s * 10 ^ 36 = 180 * wilsonP s + s * 10 ^ 36 mod 180" unfolding wilsonP_def by (rule mult_div_mod_eq [symmetric])
  moreover have "0 \<le> s * 10 ^ 36 mod 180" "s * 10 ^ 36 mod 180 < 180" by simp_all
  ultimately show "180 * wilsonP s \<le> s * 10 ^ 36" "s * 10 ^ 36 < 180 * wilsonP s + 180" by linarith+
qed

lemma wilsonProduct_bounds:
  assumes "0 \<le> s" "s \<le> 180"
  shows "\<bar>32400 * (wilsonP s * (10 ^ 36 - wilsonP s)) - s * (180 - s) * (10 ^ 36 * 10 ^ 36)\<bar> \<le> 64800 * 10 ^ 36"
proof -
  define e where "e = s * 10 ^ 36 - 180 * wilsonP s"
  have e: "0 \<le> e" "e \<le> 180" using wilsonP_bounds [of s] by (simp_all add: e_def)
  have p: "180 * wilsonP s = s * 10 ^ 36 - e" by (simp add: e_def)
  have "32400 * (wilsonP s * (10 ^ 36 - wilsonP s)) = (180 * wilsonP s) * (180 * 10 ^ 36 - 180 * wilsonP s)"
    by (simp add: algebra_simps)
  also have "\<dots> = s * (180 - s) * (10 ^ 36 * 10 ^ 36) + (e * (2 * s - 180)) * 10 ^ 36 - e * e"
    unfolding p by (simp add: algebra_simps)
  finally have eq: "32400 * (wilsonP s * (10 ^ 36 - wilsonP s)) - s * (180 - s) * (10 ^ 36 * 10 ^ 36) =
      (e * (2 * s - 180)) * 10 ^ 36 - e * e" by linarith
  define y where "y = e * (2 * s - 180)"
  define z where "z = e * e"
  have "\<bar>y\<bar> \<le> 180 * 180" unfolding y_def abs_mult using e assms by (intro mult_mono) simp_all
  moreover have "0 \<le> z" "z \<le> 180 * 180" using e mult_mono [of e 180 e 180] by (simp_all add: z_def)
  ultimately show ?thesis unfolding eq y_def [symmetric] z_def [symmetric] by simp
qed

lemma wilsonVariance_bounds:
  assumes "0 \<le> s" "s \<le> 180"
  shows "wilsonVariance s \<le> s * (180 - s) * 171467764060356652949245541839 + 29640885962146026505570450022501"
    "s * (180 - s) * 171467764060356652949245541838 + 29640885962146026505570450022498 \<le> wilsonVariance s"
proof -
  define A where "A = wilsonP s * (10 ^ 36 - wilsonP s)"
  define x where "x = s * (180 - s)"
  have x: "0 \<le> x" using assms by (simp add: x_def)
  have A: "32400 * A \<le> x * (10 ^ 36 * 10 ^ 36) + 64800 * 10 ^ 36" "x * (10 ^ 36 * 10 ^ 36) - 64800 * 10 ^ 36 \<le> 32400 * A"
    using wilsonProduct_bounds [OF assms] unfolding A_def x_def by linarith+
  have w: "A div 10 ^ 36 div 180 = A div (180 * 10 ^ 36)"
    by (subst zdiv_zmult2_eq [symmetric]) (simp_all add: mult.commute)
  have d: "(0 :: int) < 180 * 10 ^ 36" by simp
  have q: "A div (180 * 10 ^ 36) * (180 * 10 ^ 36) \<le> A" "A < A div (180 * 10 ^ 36) * (180 * 10 ^ 36) + 180 * 10 ^ 36"
    using div_mult_mod_eq [of A "180 * 10 ^ 36"] pos_mod_bound [OF d, of A] pos_mod_sign [OF d, of A] by linarith+
  have v: "wilsonVariance s = A div (180 * 10 ^ 36) + 29640885962146026505570450022500"
    unfolding wilsonVariance_def A_def [symmetric] w ..
  show "wilsonVariance s \<le> s * (180 - s) * 171467764060356652949245541839 + 29640885962146026505570450022501"
    using A(1) q(1) x unfolding v x_def [symmetric] by simp
  show "s * (180 - s) * 171467764060356652949245541838 + 29640885962146026505570450022498 \<le> wilsonVariance s"
    using A(2) q(2) x unfolding v x_def [symmetric] by simp
qed

lemma wilsonMargin_upper:
  assumes "0 \<le> s" "s \<le> 180" "0 \<le> r" "Z * (r * 2 ^ 106) \<le> m * 2 ^ 106 * 10 ^ 36"
    and "(s * (180 - s) * 171467764060356652949245541839 + 29640885962146026505570450022501) * 10 ^ 36 < (r * 2 ^ 106) * (r * 2 ^ 106)"
  shows "wilsonMargin s \<le> m * 2 ^ 106"
proof -
  have "wilsonVariance s * 10 ^ 36 \<le> (s * (180 - s) * 171467764060356652949245541839 + 29640885962146026505570450022501) * 10 ^ 36"
    using wilsonVariance_bounds(1) [OF assms(1,2)] by (intro mult_right_mono) simp_all
  with assms(5) have "wilsonVariance s * 10 ^ 36 < (r * 2 ^ 106 - 1 + 1) * (r * 2 ^ 106 - 1 + 1)" by simp
  moreover have "r \<noteq> 0"
  proof
    assume "r = 0"
    with assms(5) have "(s * (180 - s) * 171467764060356652949245541839 + 29640885962146026505570450022501) * 10 ^ 36 < 0"
      by (simp only: mult_zero_left)
    moreover have "0 \<le> (s * (180 - s) * 171467764060356652949245541839 + 29640885962146026505570450022501) * 10 ^ 36"
      using assms(1,2) by (intro mult_nonneg_nonneg add_nonneg_nonneg) simp_all
    ultimately show False by (metis not_less)
  qed
  then have "0 \<le> r * 2 ^ 106 - 1" using assms(3) by simp
  ultimately have "wilsonRoot s \<le> r * 2 ^ 106 - 1"
    using square_root_unique [OF wilsonRoot_exact(2) [OF assms(1,2)] _ wilsonRoot_exact(3) [OF assms(1,2)]] by blast
  then have "Z * wilsonRoot s \<le> Z * (r * 2 ^ 106)" by (intro mult_left_mono) (simp_all add: Z_def)
  with assms(4) have "Z * wilsonRoot s \<le> m * 2 ^ 106 * 10 ^ 36" by linarith
  then show ?thesis unfolding wilsonMargin_def using zdiv_mono1 [of "Z * wilsonRoot s" "m * 2 ^ 106 * 10 ^ 36" "10 ^ 36"] by simp
qed

lemma wilsonMargin_lower:
  assumes "0 \<le> s" "s \<le> 180" "0 \<le> r" "m * 2 ^ 106 * 10 ^ 36 \<le> Z * (r * 2 ^ 106)"
    and "(r * 2 ^ 106) * (r * 2 ^ 106) \<le> (s * (180 - s) * 171467764060356652949245541838 + 29640885962146026505570450022498) * 10 ^ 36"
  shows "m * 2 ^ 106 \<le> wilsonMargin s"
proof -
  have "(s * (180 - s) * 171467764060356652949245541838 + 29640885962146026505570450022498) * 10 ^ 36 \<le> wilsonVariance s * 10 ^ 36"
    using wilsonVariance_bounds(2) [OF assms(1,2)] by (intro mult_right_mono) simp_all
  with assms(5) have "(r * 2 ^ 106) * (r * 2 ^ 106) \<le> wilsonVariance s * 10 ^ 36" by simp
  moreover have "0 \<le> r * 2 ^ 106" using assms(3) by simp
  ultimately have "r * 2 ^ 106 \<le> wilsonRoot s"
    using square_root_unique [OF _ wilsonRoot_exact(2) [OF assms(1,2)] _ wilsonRoot_exact(4) [OF assms(1,2)]] by blast
  then have "Z * (r * 2 ^ 106) \<le> Z * wilsonRoot s" by (intro mult_left_mono) (simp_all add: Z_def)
  with assms(4) have "m * 2 ^ 106 * 10 ^ 36 \<le> Z * wilsonRoot s" by linarith
  then show ?thesis unfolding wilsonMargin_def using zdiv_mono1 [of "m * 2 ^ 106 * 10 ^ 36" "Z * wilsonRoot s" "10 ^ 36"] by simp
qed

lemma sdiv_threshold:
  fixes t d X :: int
  assumes "0 < t" "0 < d"
  shows "t * 10 ^ 34 \<le> (X * 10 ^ 36) sdiv d \<longleftrightarrow> t * d \<le> 100 * X"
proof (cases "0 \<le> X")
  case True
  then have "(X * 10 ^ 36) sdiv d = X * 10 ^ 36 div d" using assms(2) by (simp add: sdiv_nonneg)
  moreover have "t * 10 ^ 34 \<le> X * 10 ^ 36 div d \<longleftrightarrow> t * 10 ^ 34 * d \<le> X * 10 ^ 36"
    using assms(2) by (rule le_div_iff)
  ultimately show ?thesis by (simp add: mult.commute)
next
  case False
  then have "(X * 10 ^ 36) sdiv d \<le> 0 sdiv d" using assms(2) by (intro sdiv_mono) simp_all
  then have "(X * 10 ^ 36) sdiv d \<le> 0" by (simp add: signed_divide_int_def)
  moreover have "0 < t * d" using assms by simp
  ultimately show ?thesis using assms(1) False by simp
qed

lemma wilson_lower_ge:
  assumes "0 < t" "wilsonMargin s \<le> M"
    and "180 * (t * 1021341437892745139084010724016200000) \<le> 100 * (s * 10 ^ 36 - 180 + 180 * 10670718946372569542005362008100000 - 180 * M)"
  shows "t * 10 ^ 34 \<le> wilsonLowerFixed s"
  unfolding wilsonLowerFixed_def wilsonCenter_def
  using assms wilsonP_bounds [of s] by (subst sdiv_threshold) simp_all

lemma wilson_lower_less:
  assumes "0 < t" "M \<le> wilsonMargin s"
    and "100 * (s * 10 ^ 36 + 180 * 10670718946372569542005362008100000 - 180 * M) < 180 * (t * 1021341437892745139084010724016200000)"
  shows "wilsonLowerFixed s < t * 10 ^ 34"
  unfolding wilsonLowerFixed_def wilsonCenter_def not_le [symmetric]
  using assms wilsonP_bounds [of s] by (subst sdiv_threshold) simp_all

lemma wilson_upper_ge:
  assumes "0 < t" "M \<le> wilsonMargin s"
    and "180 * (t * 1021341437892745139084010724016200000) \<le> 100 * (s * 10 ^ 36 - 180 + 180 * 10670718946372569542005362008100000 + 180 * M)"
  shows "t * 10 ^ 34 \<le> wilsonUpperFixed s"
  unfolding wilsonUpperFixed_def wilsonCenter_def
  using assms wilsonP_bounds [of s] by (subst sdiv_threshold) simp_all

lemma wilson_upper_less:
  assumes "0 < t" "wilsonMargin s \<le> M"
    and "100 * (s * 10 ^ 36 + 180 * 10670718946372569542005362008100000 + 180 * M) < 180 * (t * 1021341437892745139084010724016200000)"
  shows "wilsonUpperFixed s < t * 10 ^ 34"
  unfolding wilsonUpperFixed_def wilsonCenter_def not_le [symmetric]
  using assms wilsonP_bounds [of s] by (subst sdiv_threshold) simp_all

lemma wilson_thresholds:
  "wilsonLowerFixed 146 < 75 * 10 ^ 34"
  "75 * 10 ^ 34 \<le> wilsonLowerFixed 147"
  "wilsonUpperFixed 123 < 75 * 10 ^ 34"
  "75 * 10 ^ 34 \<le> wilsonUpperFixed 124"
  "wilsonLowerFixed 138 < 70 * 10 ^ 34"
  "70 * 10 ^ 34 \<le> wilsonLowerFixed 139"
  "wilsonUpperFixed 113 < 70 * 10 ^ 34"
  "70 * 10 ^ 34 \<le> wilsonUpperFixed 114"
  "wilsonLowerFixed 56 < 25 * 10 ^ 34"
  "25 * 10 ^ 34 \<le> wilsonLowerFixed 57"
  "wilsonUpperFixed 33 < 25 * 10 ^ 34"
  "25 * 10 ^ 34 \<le> wilsonUpperFixed 34"
proof -
  show "wilsonLowerFixed 146 < 75 * 10 ^ 34" by (rule wilson_lower_less [OF _ wilsonMargin_lower [of _ 365 715]]) (simp_all add: Z_def)
  show "75 * 10 ^ 34 \<le> wilsonLowerFixed 147" by (rule wilson_lower_ge [OF _ wilsonMargin_upper [of _ 362 710]]) (simp_all add: Z_def)
  show "wilsonUpperFixed 123 < 75 * 10 ^ 34" by (rule wilson_upper_less [OF _ wilsonMargin_upper [of _ 433 849]]) (simp_all add: Z_def)
  show "75 * 10 ^ 34 \<le> wilsonUpperFixed 124" by (rule wilson_upper_ge [OF _ wilsonMargin_lower [of _ 430 842]]) (simp_all add: Z_def)
  show "wilsonLowerFixed 138 < 70 * 10 ^ 34" by (rule wilson_lower_less [OF _ wilsonMargin_lower [of _ 394 772]]) (simp_all add: Z_def)
  show "70 * 10 ^ 34 \<le> wilsonLowerFixed 139" by (rule wilson_lower_ge [OF _ wilsonMargin_upper [of _ 392 769]]) (simp_all add: Z_def)
  show "wilsonUpperFixed 113 < 70 * 10 ^ 34" by (rule wilson_upper_less [OF _ wilsonMargin_upper [of _ 450 882]]) (simp_all add: Z_def)
  show "70 * 10 ^ 34 \<le> wilsonUpperFixed 114" by (rule wilson_upper_ge [OF _ wilsonMargin_lower [of _ 447 876]]) (simp_all add: Z_def)
  show "wilsonLowerFixed 56 < 25 * 10 ^ 34" by (rule wilson_lower_less [OF _ wilsonMargin_lower [of _ 430 842]]) (simp_all add: Z_def)
  show "25 * 10 ^ 34 \<le> wilsonLowerFixed 57" by (rule wilson_lower_ge [OF _ wilsonMargin_upper [of _ 433 849]]) (simp_all add: Z_def)
  show "wilsonUpperFixed 33 < 25 * 10 ^ 34" by (rule wilson_upper_less [OF _ wilsonMargin_upper [of _ 362 710]]) (simp_all add: Z_def)
  show "25 * 10 ^ 34 \<le> wilsonUpperFixed 34" by (rule wilson_upper_ge [OF _ wilsonMargin_lower [of _ 365 715]]) (simp_all add: Z_def)
qed

text \<open>A monotone function crosses a threshold once.\<close>

lemma wilson_crossing:
  assumes "0 \<le> s" "s \<le> 180" "1 \<le> k" "k \<le> 180"
  shows "wilsonLowerFixed (k - 1) < th \<Longrightarrow> th \<le> wilsonLowerFixed k \<Longrightarrow> th \<le> wilsonLowerFixed s \<longleftrightarrow> k \<le> s"
    "wilsonUpperFixed (k - 1) < th \<Longrightarrow> th \<le> wilsonUpperFixed k \<Longrightarrow> wilsonUpperFixed s < th \<longleftrightarrow> s < k"
proof -
  have "k \<le> s \<longrightarrow> wilsonLowerFixed k \<le> wilsonLowerFixed s \<and> wilsonUpperFixed k \<le> wilsonUpperFixed s"
    using wilson_mono [of k s] assms by simp
  moreover have "s < k \<longrightarrow> wilsonLowerFixed s \<le> wilsonLowerFixed (k - 1) \<and> wilsonUpperFixed s \<le> wilsonUpperFixed (k - 1)"
    using wilson_mono [of s "k - 1"] assms by simp
  ultimately show "wilsonLowerFixed (k - 1) < th \<Longrightarrow> th \<le> wilsonLowerFixed k \<Longrightarrow> th \<le> wilsonLowerFixed s \<longleftrightarrow> k \<le> s"
    "wilsonUpperFixed (k - 1) < th \<Longrightarrow> th \<le> wilsonUpperFixed k \<Longrightarrow> wilsonUpperFixed s < th \<longleftrightarrow> s < k"
    by linarith+
qed

lemma thresholdFixed18_digits:
  assumes "list_all is_digit f" "f \<noteq> []"
  shows "thresholdFixed18 (48 # 46 # f) = Inr (int (parse_nat (take 36 (f @ replicate (36 - length f) 48))))"
proof -
  have nodot: "c \<noteq> 46" if "c \<in> set f" for c using that assms(1) by (auto simp: list_all_iff is_digit_def)
  then have tw: "takeWhile (\<lambda>c. c \<noteq> 46) f = f" by (simp add: takeWhile_eq_all_conv)
  have "bigInt [48] = Inr 0" using bigInt_dec [of 0] by (simp add: dec_0 js_simps)
  moreover have "list_all is_digit (take 36 (f @ replicate (36 - length f) 48))"
    using assms(1) by (auto simp: list_all_iff is_digit_def dest!: in_set_takeD)
  then have "bigInt (take 36 (f @ replicate (36 - length f) 48)) =
      Inr (int (parse_nat (take 36 (f @ replicate (36 - length f) 48))))"
    using assms(2) by (intro bigInt_digits) simp_all
  ultimately show ?thesis by (simp add: thresholdFixed18_def Let_def tw)
qed

lemma parse_nat_zeros: "parse_nat (s @ replicate n 48) = parse_nat s * 10 ^ n"
proof (induction n)
  case (Suc n)
  have "s @ replicate (Suc n) 48 = (s @ replicate n 48) @ [48]" by (simp add: replicate_append_same)
  then show ?case using Suc unfolding parse_nat_snoc by (simp only: parse_nat_snoc) (simp add: digit_val_def)
qed simp

lemma two_digit_threshold:
  assumes "is_digit a" "is_digit b"
  shows "thresholdFixed18 (48 # 46 # a # b # replicate 16 48) = Inr (int (10 * digit_val a + digit_val b) * 10 ^ 34)"
proof -
  have "thresholdFixed18 (48 # 46 # a # b # replicate 16 48) =
      Inr (int (parse_nat ([a, b] @ replicate 34 48)))"
    using assms replicate_add [of 16 18 "48 :: 16 word"]
    by (subst thresholdFixed18_digits) (auto simp: list_all_iff is_digit_def)
  then show ?thesis unfolding parse_nat_zeros by (simp add: parse_nat_def nat_of_digits_def)
qed

lemma thresholds:
  "thresholdFixed18 (js ''0.750000000000000000'') = Inr (75 * 10 ^ 34)"
  "thresholdFixed18 (js ''0.700000000000000000'') = Inr (70 * 10 ^ 34)"
  "thresholdFixed18 (js ''0.250000000000000000'') = Inr (25 * 10 ^ 34)"
proof -
  have lit: "js ''0.750000000000000000'' = 48 # 46 # 55 # 53 # replicate 16 48"
      "js ''0.700000000000000000'' = 48 # 46 # 55 # 48 # replicate 16 48"
      "js ''0.250000000000000000'' = 48 # 46 # 50 # 53 # replicate 16 48"
    by (simp_all add: js_simps numeral_eq_Suc)
  have dig: "is_digit 55" "is_digit 53" "is_digit 50" "is_digit 48"
      "digit_val 55 = 7" "digit_val 53 = 5" "digit_val 50 = 2" "digit_val 48 = 0"
    by (simp_all add: is_digit_def digit_val_def)
  show "thresholdFixed18 (js ''0.750000000000000000'') = Inr (75 * 10 ^ 34)"
      "thresholdFixed18 (js ''0.700000000000000000'') = Inr (70 * 10 ^ 34)"
      "thresholdFixed18 (js ''0.250000000000000000'') = Inr (25 * 10 ^ 34)"
    unfolding lit two_digit_threshold [OF dig(1,2)] two_digit_threshold [OF dig(1,4)] two_digit_threshold [OF dig(3,2)] dig
    by simp_all
qed


section \<open>The gates as tables of counts\<close>

definition countGate :: "int \<Rightarrow> int \<Rightarrow> int \<Rightarrow> GateDecisionV1" where
  "countGate noGoBelow goFrom s = (if goFrom \<le> s then GO else if s < noGoBelow then NO_GO else INCONCLUSIVE)"

definition validCount :: "jsnum \<Rightarrow> bool" where
  "validCount n \<longleftrightarrow> isNonnegativeSafeInteger n \<and> numInt n \<le> 180"

lemma validCount_range: "validCount n \<Longrightarrow> 0 \<le> numInt n \<and> numInt n \<le> 180"
  by (auto simp: validCount_def isNonnegativeSafeInteger_def numInt_def split: jsnum.splits)

lemma wilson_invalid: "\<not> validCount n \<Longrightarrow> wilsonInterval95 n (NInt 180) = Inl (studyError ''study.input-invalid'')"
  by (auto simp: wilsonInterval95_def validCount_def)

lemma decideGate_table:
  assumes "validCount n" "wilsonInterval95 n (NInt 180) = Inr w"
  shows "decideGate w ''0.750000000000000000'' = Inr (countGate 124 147 (numInt n))"
    "decideGate w ''0.700000000000000000'' = Inr (countGate 114 139 (numInt n))"
    "decideGate w ''0.250000000000000000'' = Inr (countGate 34 57 (numInt n))"
proof -
  have w: "lowerFixed36 w = wilsonLowerFixed (numInt n)" "upperFixed36 w = wilsonUpperFixed (numInt n)"
    using wilson_closed_form [of n] assms by (auto simp: validCount_def)
  note cross = wilson_crossing [OF conjunct1 [OF validCount_range [OF assms(1)]] conjunct2 [OF validCount_range [OF assms(1)]]]
  have E1: "75 * 10 ^ 34 \<le> wilsonLowerFixed (numInt n) \<longleftrightarrow> 147 \<le> numInt n"
      "wilsonUpperFixed (numInt n) < 75 * 10 ^ 34 \<longleftrightarrow> numInt n < 124"
    using cross(1) [of 147 "75 * 10 ^ 34"] cross(2) [of 124 "75 * 10 ^ 34"] wilson_thresholds by simp_all
  have E2: "70 * 10 ^ 34 \<le> wilsonLowerFixed (numInt n) \<longleftrightarrow> 139 \<le> numInt n"
      "wilsonUpperFixed (numInt n) < 70 * 10 ^ 34 \<longleftrightarrow> numInt n < 114"
    using cross(1) [of 139 "70 * 10 ^ 34"] cross(2) [of 114 "70 * 10 ^ 34"] wilson_thresholds by simp_all
  have E3: "25 * 10 ^ 34 \<le> wilsonLowerFixed (numInt n) \<longleftrightarrow> 57 \<le> numInt n"
      "wilsonUpperFixed (numInt n) < 25 * 10 ^ 34 \<longleftrightarrow> numInt n < 34"
    using cross(1) [of 57 "25 * 10 ^ 34"] cross(2) [of 34 "25 * 10 ^ 34"] wilson_thresholds by simp_all
  show "decideGate w ''0.750000000000000000'' = Inr (countGate 124 147 (numInt n))"
    unfolding decideGate_def thresholds bindR_simps w E1 countGate_def ..
  show "decideGate w ''0.700000000000000000'' = Inr (countGate 114 139 (numInt n))"
    unfolding decideGate_def thresholds bindR_simps w E2 countGate_def ..
  show "decideGate w ''0.250000000000000000'' = Inr (countGate 34 57 (numInt n))"
    unfolding decideGate_def thresholds bindR_simps w E3 countGate_def ..
qed

lemma readinessGates_valid:
  assumes "validCount (e1Successes c)" "validCount (e2Successes c)" "validCount (e3Successes c)"
  shows "\<exists>g. evaluateReadinessGates c = Inr g \<and>
     gateE1 g = countGate 124 147 (numInt (e1Successes c)) \<and>
     gateE2 g = countGate 114 139 (numInt (e2Successes c)) \<and>
     gateE3 g = countGate 34 57 (numInt (e3Successes c)) \<and>
     gateE4 g = (if e4Reproduced c = NInt 180 then GO else NO_GO) \<and>
     gateOverall g = overallGate [gateE1 g, gateE2 g, gateE3 g, gateE4 g]"
proof -
  obtain w1 w2 w3 where w: "wilsonInterval95 (e1Successes c) (NInt 180) = Inr w1"
      "wilsonInterval95 (e2Successes c) (NInt 180) = Inr w2" "wilsonInterval95 (e3Successes c) (NInt 180) = Inr w3"
    using wilson_closed_form assms unfolding validCount_def by meson
  show ?thesis
    unfolding evaluateReadinessGates_def w bindR_simps decideGate_table(1) [OF assms(1) w(1)]
      decideGate_table(2) [OF assms(2) w(2)] decideGate_table(3) [OF assms(3) w(3)] Let_def
    by simp
qed

lemma readinessGates_invalid:
  assumes "\<not> (validCount (e1Successes c) \<and> validCount (e2Successes c) \<and> validCount (e3Successes c))"
  shows "evaluateReadinessGates c = Inl (studyError ''study.input-invalid'')"
proof -
  have total: "wilsonInterval95 n (NInt 180) = Inl (studyError ''study.input-invalid'') \<or>
      (\<exists>w. wilsonInterval95 n (NInt 180) = Inr w)" for n
    using wilson_invalid [of n] wilson_closed_form [of n] by (auto simp: validCount_def)
  have "wilsonInterval95 n (NInt 180) = Inr w \<Longrightarrow> validCount n" for n w using wilson_invalid [of n] by (cases "validCount n") auto
  with assms total [of "e1Successes c"] total [of "e2Successes c"] total [of "e3Successes c"]
  show ?thesis by (auto simp: evaluateReadinessGates_def)
qed

end
