(* ===== verification/Holm.thy ===== *)
theory Holm
  imports StudySampling
begin

text \<open>
  Holm's step-down procedure over the 24 fixed slots: \<open>HOLM_SLOT_IDS\<close> and
  \<open>validateHolmFamilySlots\<close> of \<^verbatim>\<open>src/study/market-reference/algorithms.ts\<close> and
  \<open>evaluateHolm24\<close> of \<^verbatim>\<open>analysis.ts\<close>. A missing p-value counts as one.

  What is shown: the loop over the sorted p-values computes the running maximum of the scaled
  p-values, capped at one, and rejects exactly a prefix of them (\<open>holmLoop_exact\<close>); rejection
  is the same as an adjusted p-value of at most one twentieth.
\<close>

definition HOLM_SLOT_IDS :: "string list" where
  "HOLM_SLOT_IDS =
    [''holm.movement.prior-close.pre-market'',
     ''holm.movement.prior-close.regular'',
     ''holm.movement.prior-close.post-market'',
     ''holm.movement.prior-close.other'',
     ''holm.movement.release-gap.pre-market'',
     ''holm.movement.release-gap.regular'',
     ''holm.movement.release-gap.post-market'',
     ''holm.movement.release-gap.other'',
     ''holm.movement.residual-1m.pre-market'',
     ''holm.movement.residual-1m.regular'',
     ''holm.movement.residual-1m.post-market'',
     ''holm.movement.residual-1m.other'',
     ''holm.movement.residual-5m.pre-market'',
     ''holm.movement.residual-5m.regular'',
     ''holm.movement.residual-5m.post-market'',
     ''holm.movement.residual-5m.other'',
     ''holm.movement.residual-30m.pre-market'',
     ''holm.movement.residual-30m.regular'',
     ''holm.movement.residual-30m.post-market'',
     ''holm.movement.residual-30m.other'',
     ''holm.quote-trade.T0'',
     ''holm.quote-trade.T1'',
     ''holm.quote-trade.T5'',
     ''holm.quote-trade.T30'']"

definition holmSlots :: "jsstring list" where
  "holmSlots = map js HOLM_SLOT_IDS"

definition validateHolmFamilySlots :: "jsstring list \<Rightarrow> unit result" where
  "validateHolmFamilySlots slotIds =
     (if \<not> accepted (evaluateStudyBound HolmSlots (ObservedNumber (NInt (int (length slotIds))))) \<or>
         list_ex (\<lambda>i. slotIds ! i \<noteq> holmSlots ! i) [0..<length slotIds]
      then Inl (studyError ''study.input-invalid'') else Inr ())"

record HolmInputV1 =
  slotId :: jsstring
  inputP :: "StudyRationalV1 option"

record HolmResultV1 =
  resultSlotId :: jsstring
  rawP :: StudyRationalV1
  adjustedP :: StudyRationalV1
  rejected :: bool

definition checkHolmP :: "HolmInputV1 \<Rightarrow> unit result" where
  "checkHolmP input =
     (case inputP input of
        None \<Rightarrow> Inr ()
      | Some p \<Rightarrow>
          bindR (rational 0 1) (\<lambda>zero. bindR (rational 1 1) (\<lambda>one.
          if compareRational p zero < 0 \<or> 0 < compareRational p one
          then Inl (studyError ''study.input-invalid'') else Inr ())))"

fun holmLoop :: "nat \<Rightarrow> bool \<Rightarrow> StudyRationalV1 \<Rightarrow> (jsstring \<times> StudyRationalV1) list \<Rightarrow> HolmResultV1 list result" where
  "holmLoop index canReject runningAdjusted [] = Inr []"
| "holmLoop index canReject runningAdjusted (row # rows) =
     (let remaining = 24 - int index in
      bindR (rational 1 (20 * remaining)) (\<lambda>critical.
      let rejected' = (canReject \<and> compareRational (snd row) critical \<le> 0) in
      bindR (bindR (rational remaining 1) (multiplyRational (snd row))) (\<lambda>scaled.
      bindR (rational 1 1) (\<lambda>one.
      let capped = (if 0 < compareRational scaled one then one else scaled);
          adjusted = (if 0 < compareRational capped runningAdjusted then capped else runningAdjusted) in
      bindR (holmLoop (index + 1) (if rejected' then canReject else False) adjusted rows) (\<lambda>rest.
      Inr (\<lparr>resultSlotId = fst row, rawP = snd row, adjustedP = adjusted, rejected = rejected'\<rparr> # rest))))))"

definition holmOrder :: "jsstring \<times> StudyRationalV1 \<Rightarrow> jsstring \<times> StudyRationalV1 \<Rightarrow> int" where
  "holmOrder = thenBy (\<lambda>left right. compareRational (snd left) (snd right))
     (\<lambda>left right. orderOf (utf8 (fst left)) (utf8 (fst right)))"

definition resultById :: "HolmResultV1 list \<Rightarrow> jsstring \<Rightarrow> HolmResultV1 option" where
  "resultById results slot = find (\<lambda>r. resultSlotId r = slot) (rev results)"

definition evaluateHolm24 :: "HolmInputV1 list \<Rightarrow> HolmResultV1 list result" where
  "evaluateHolm24 inputs =
     bindR (validateHolmFamilySlots (map slotId inputs)) (\<lambda>_.
     bindR (mapR checkHolmP inputs) (\<lambda>_.
     bindR (mapR (\<lambda>input. case inputP input of
         Some p \<Rightarrow> Inr (slotId input, p)
       | None \<Rightarrow> bindR (rational 1 1) (\<lambda>one. Inr (slotId input, one))) inputs) (\<lambda>rows.
     bindR (rational 0 1) (\<lambda>zero.
     bindR (holmLoop 0 True zero (sortBy holmOrder rows)) (\<lambda>results.
     Inr (map (\<lambda>slot. the (resultById results slot)) holmSlots))))))"


section \<open>The loop\<close>

definition unitRational :: "StudyRationalV1 \<Rightarrow> bool" where
  "unitRational p \<longleftrightarrow> positiveDen p \<and> 0 \<le> ratOf p \<and> ratOf p \<le> 1"

definition scaledP :: "nat \<Rightarrow> StudyRationalV1 \<Rightarrow> rat" where
  "scaledP i p = min 1 (of_nat (24 - i) * ratOf p)"

text \<open>The adjusted value and the decision of the entry at each index, from the definition of the procedure.\<close>

fun holmSpec :: "nat \<Rightarrow> bool \<Rightarrow> rat \<Rightarrow> StudyRationalV1 list \<Rightarrow> (rat \<times> bool) list" where
  "holmSpec i ok m [] = []"
| "holmSpec i ok m (p # ps) =
     (let ok' = (ok \<and> ratOf p \<le> 1 / (20 * of_nat (24 - i))); m' = max m (scaledP i p)
      in (m', ok') # holmSpec (Suc i) ok' m' ps)"

lemma holmLoop_exact:
  assumes "i + length rows \<le> 24" "\<forall>row \<in> set rows. unitRational (snd row)" "positiveDen m" "ratOf m \<le> 1"
  shows "\<exists>rs. holmLoop i ok m rows = Inr rs \<and> map resultSlotId rs = map fst rows \<and> map rawP rs = map snd rows \<and>
    (\<forall>r \<in> set rs. positiveDen (adjustedP r)) \<and>
    map (\<lambda>r. (ratOf (adjustedP r), rejected r)) rs = holmSpec i ok (ratOf m) (map snd rows)"
  using assms
proof (induction rows arbitrary: i ok m)
  case (Cons row rows)
  let ?p = "snd row"
  have p: "positiveDen ?p" "0 \<le> ratOf ?p" "ratOf ?p \<le> 1" using Cons.prems(2) by (simp_all add: unitRational_def)
  have i: "24 - int i \<noteq> 0" "20 * (24 - int i) \<noteq> 0" using Cons.prems(1) by simp_all
  have d: "(of_int (24 - int i) :: rat) = of_nat (24 - i)" using Cons.prems(1) by (simp add: of_nat_diff)
  have d20: "(of_int (20 * (24 - int i)) :: rat) = 20 * of_nat (24 - i)" unfolding of_int_mult d by simp
  obtain crit where crit: "rational 1 (20 * (24 - int i)) = Inr crit" "positiveDen crit" "ratOf crit = 1 / (20 * of_nat (24 - i))"
    using rational_exact [OF i(2), of 1] unfolding d20 of_int_1 reduced_def by blast
  obtain k where k: "rational (24 - int i) 1 = Inr k" "positiveDen k" "ratOf k = of_nat (24 - i)"
    using rational_exact [of 1 "24 - int i"] unfolding d of_int_1 reduced_def by auto
  obtain sc where sc: "multiplyRational ?p k = Inr sc" "positiveDen sc" "ratOf sc = ratOf ?p * of_nat (24 - i)"
    using multiplyRational_exact [OF p(1) k(2)] k(3) by (auto simp: reduced_def)
  obtain one where one: "rational 1 1 = Inr one" "positiveDen one" "ratOf one = 1"
    using rational_exact [of 1 1] by (auto simp: reduced_def)
  define capped where "capped = (if 0 < compareRational sc one then one else sc)"
  have "ratOf capped = min 1 (ratOf sc)"
    using one(2,3) by (auto simp: capped_def compareRational_order sc(2) min_def)
  then have capped: "positiveDen capped" "ratOf capped = scaledP i ?p"
    using sc(2) one(2) unfolding scaledP_def sc(3) by (simp_all only: capped_def mult.commute) simp
  define adj where "adj = (if 0 < compareRational capped m then capped else m)"
  have adj: "positiveDen adj" "ratOf adj = max (ratOf m) (scaledP i ?p)"
    using capped Cons.prems(3) by (auto simp: adj_def compareRational_order)
  define rej where "rej = (ok \<and> compareRational ?p crit \<le> 0)"
  have rej: "rej = (ok \<and> ratOf ?p \<le> 1 / (20 * of_nat (24 - i)))"
    using p(1) crit by (simp add: rej_def compareRational_order)
  have "ratOf adj \<le> 1" using adj(2) Cons.prems(4) by (simp add: scaledP_def)
  then have "\<exists>rs. holmLoop (Suc i) rej adj rows = Inr rs \<and> map resultSlotId rs = map fst rows \<and> map rawP rs = map snd rows \<and>
    (\<forall>r \<in> set rs. positiveDen (adjustedP r)) \<and>
    map (\<lambda>r. (ratOf (adjustedP r), rejected r)) rs = holmSpec (Suc i) rej (ratOf adj) (map snd rows)"
    using Cons.prems(1,2) adj(1) by (intro Cons.IH) simp_all
  then obtain rs where IH: "holmLoop (Suc i) rej adj rows = Inr rs" "map resultSlotId rs = map fst rows"
      "map rawP rs = map snd rows" "\<forall>r \<in> set rs. positiveDen (adjustedP r)"
      "map (\<lambda>r. (ratOf (adjustedP r), rejected r)) rs = holmSpec (Suc i) rej (ratOf adj) (map snd rows)"
    by blast
  have "(if rej then ok else False) = rej" by (auto simp: rej_def)
  then have "holmLoop i ok m (row # rows) =
      Inr (\<lparr>resultSlotId = fst row, rawP = ?p, adjustedP = adj, rejected = rej\<rparr> # rs)"
    unfolding holmLoop.simps Let_def crit(1) k(1) bindR_simps sc(1) one(1)
      rej_def [symmetric] capped_def [symmetric] adj_def [symmetric]
    using IH(1) by simp
  with IH adj rej show ?case by (auto simp: Let_def)
qed simp

lemma length_holmSpec [simp]: "length (holmSpec i ok m ps) = length ps"
  by (induction ps arbitrary: i ok m) (simp_all add: Let_def)

text \<open>Rejection is an adjusted value of at most one twentieth.\<close>

lemma scaledP_critical: "i < 24 \<Longrightarrow> scaledP i p \<le> 1 / 20 \<longleftrightarrow> ratOf p \<le> 1 / (20 * of_nat (24 - i))"
proof -
  assume "i < 24"
  define k :: rat where "k = of_nat (24 - i)"
  have "0 < k" using \<open>i < 24\<close> by (simp add: k_def)
  have "min 1 (k * ratOf p) \<le> 1 / 20 \<longleftrightarrow> k * ratOf p \<le> 1 / 20" by (auto simp: min_def)
  also have "\<dots> \<longleftrightarrow> ratOf p \<le> 1 / (20 * k)" using \<open>0 < k\<close> by (simp add: field_simps)
  finally show ?thesis unfolding scaledP_def k_def .
qed

lemma holmSpec_rejected:
  assumes "i + length ps \<le> 24" "(ok \<longleftrightarrow> m \<le> 1 / 20)" "x \<in> set (holmSpec i ok m ps)"
  shows "snd x \<longleftrightarrow> fst x \<le> 1 / 20"
  using assms
proof (induction ps arbitrary: i ok m)
  case (Cons p ps)
  have "i < 24" using Cons.prems(1) by simp
  note crit = scaledP_critical [OF this, of p]
  from Cons.prems(3) consider "x = (max m (scaledP i p), ok \<and> ratOf p \<le> 1 / (20 * of_nat (24 - i)))"
    | "x \<in> set (holmSpec (Suc i) (ok \<and> ratOf p \<le> 1 / (20 * of_nat (24 - i))) (max m (scaledP i p)) ps)"
    by (auto simp: Let_def)
  then show ?case
  proof cases
    case 1
    show ?thesis unfolding 1 fst_conv snd_conv max.bounded_iff crit using Cons.prems(2) by blast
  next
    case 2
    then show ?thesis using Cons.prems crit by (intro Cons.IH) auto
  qed
qed simp

text \<open>Adjusted values grow along the sorted p-values, and bound the raw ones from above.\<close>

lemma holmSpec_mono:
  assumes "x \<in> set (holmSpec i ok m ps)"
  shows "m \<le> fst x"
  using assms by (induction ps arbitrary: i ok m) (fastforce simp: Let_def)+

lemma holmSpec_sorted: "sorted (map fst (holmSpec i ok m ps))"
  by (induction ps arbitrary: i ok m) (auto simp: Let_def dest: holmSpec_mono)

lemma holmSpec_bounds:
  assumes "i + length ps \<le> 24" "\<forall>p \<in> set ps. 0 \<le> ratOf p \<and> ratOf p \<le> 1" "m \<le> 1"
  shows "list_all2 (\<lambda>p x. ratOf p \<le> fst x \<and> fst x \<le> 1) ps (holmSpec i ok m ps)"
  using assms
proof (induction ps arbitrary: i ok m)
  case (Cons p ps)
  have "1 \<le> (of_nat (24 - i) :: rat)" using Cons.prems(1) by (simp add: of_nat_diff)
  then have "1 * ratOf p \<le> of_nat (24 - i) * ratOf p" using Cons.prems(2) by (intro mult_right_mono) auto
  then have "ratOf p \<le> scaledP i p" using Cons.prems(2) by (simp add: scaledP_def)
  moreover have "scaledP i p \<le> 1" by (simp add: scaledP_def)
  ultimately show ?case using Cons by (auto simp: Let_def)
qed simp


section \<open>The whole procedure\<close>

definition holmInputOk :: "HolmInputV1 \<Rightarrow> bool" where
  "holmInputOk input = (case inputP input of None \<Rightarrow> True | Some p \<Rightarrow> 0 \<le> ratOf p \<and> ratOf p \<le> 1)"

definition inputDenOk :: "HolmInputV1 \<Rightarrow> bool" where
  "inputDenOk input = (case inputP input of None \<Rightarrow> True | Some p \<Rightarrow> positiveDen p)"

definition inputValue :: "HolmInputV1 \<Rightarrow> rat" where
  "inputValue input = (case inputP input of None \<Rightarrow> 1 | Some p \<Rightarrow> ratOf p)"

lemma length_holmSlots [simp]: "length holmSlots = 24"
  by (simp add: holmSlots_def HOLM_SLOT_IDS_def)

lemma distinct_holmSlots: "distinct holmSlots"
proof -
  have "distinct HOLM_SLOT_IDS" by code_simp
  then show ?thesis by (simp add: holmSlots_def distinct_map inj_on_def)
qed

lemma validateHolmFamilySlots_exact: "validateHolmFamilySlots ids = Inr () \<longleftrightarrow> ids = holmSlots"
proof -
  have "accepted (evaluateStudyBound HolmSlots (ObservedNumber (NInt (int n)))) \<longleftrightarrow> n = 24" for n
    by (auto simp: evaluateStudyBound_def boundResult_def isNonnegativeSafeInteger_def isSafeInteger_def
        MAX_SAFE_INTEGER_def numInt_def Let_def)
  then have bound: "accepted (evaluateStudyBound HolmSlots (ObservedNumber (NInt (int (length ids))))) \<longleftrightarrow>
      length ids = length holmSlots" by simp
  have "list_ex (\<lambda>i. ids ! i \<noteq> holmSlots ! i) [0..<length ids] \<longleftrightarrow> (\<exists>i < length ids. ids ! i \<noteq> holmSlots ! i)"
    unfolding list_ex_iff set_upt by (metis atLeastLessThan_iff le0)
  then show ?thesis
    unfolding validateHolmFamilySlots_def bound by (simp only: list_eq_iff_nth_eq [of ids holmSlots]) simp
qed

lemma unit_rationals:
  "\<exists>q. rational 0 1 = Inr q \<and> positiveDen q \<and> ratOf q = 0" "\<exists>q. rational 1 1 = Inr q \<and> positiveDen q \<and> ratOf q = 1"
  using rational_exact [of 1 0] rational_exact [of 1 1] by (auto simp: reduced_def)

lemma checkHolmP_exact: "inputDenOk input \<Longrightarrow> checkHolmP input = Inr () \<longleftrightarrow> holmInputOk input"
  using unit_rationals
  by (auto simp: checkHolmP_def holmInputOk_def inputDenOk_def compareRational_order not_less split: option.splits)

lemma mapR_unit: "(\<exists>us. mapR f xs = Inr us) \<longleftrightarrow> (\<forall>x \<in> set xs. f x = Inr ())" for f :: "'a \<Rightarrow> unit result"
  by (induction xs) (auto simp: result_simps)

lemma holmRows_exact:
  assumes "\<forall>input \<in> set inputs. inputDenOk input \<and> holmInputOk input"
  shows "\<exists>rows. mapR (\<lambda>input. case inputP input of
         Some p \<Rightarrow> Inr (slotId input, p)
       | None \<Rightarrow> bindR (rational 1 1) (\<lambda>one. Inr (slotId input, one))) inputs = Inr rows \<and>
    map fst rows = map slotId inputs \<and> map (ratOf \<circ> snd) rows = map inputValue inputs \<and>
    (\<forall>row \<in> set rows. unitRational (snd row))"
  using assms
proof (induction inputs)
  case (Cons input inputs)
  obtain one where "rational 1 1 = Inr one" "positiveDen one" "ratOf one = 1" using unit_rationals(2) by blast
  with Cons show ?case
    by (cases "inputP input") (auto simp: inputDenOk_def holmInputOk_def unitRational_def inputValue_def)
qed simp

lemma holmOrder_sorted:
  assumes "\<forall>row \<in> set rows. positiveDen (snd row)"
  shows "sorted (map (ratOf \<circ> snd) (sortBy holmOrder rows))"
  using assms
  by (intro sorted_map_sortBy) (auto simp: holmOrder_def thenBy_def compareRational_order split: if_splits)

lemma resultById_unique:
  assumes "distinct (map resultSlotId results)" "r \<in> set results"
  shows "resultById results (resultSlotId r) = Some r"
proof -
  have "\<exists>r'. find (\<lambda>q. resultSlotId q = resultSlotId r) (rev results) = Some r'"
    using assms(2) by (cases "find (\<lambda>q. resultSlotId q = resultSlotId r) (rev results)") (auto simp: find_None_iff)
  then obtain r' where r': "find (\<lambda>q. resultSlotId q = resultSlotId r) (rev results) = Some r'" by blast
  then have "r' \<in> set results" "resultSlotId r' = resultSlotId r" by (auto simp: find_Some_iff) (metis length_rev nth_mem set_rev)
  with assms have "r' = r" by (auto simp: distinct_map inj_on_def)
  with r' show ?thesis by (simp add: resultById_def)
qed

lemma canonical_results:
  assumes "distinct (map resultSlotId results)" "mset (map resultSlotId results) = mset slots"
  shows "map resultSlotId (map (\<lambda>slot. the (resultById results slot)) slots) = slots"
    "mset (map (\<lambda>slot. the (resultById results slot)) slots) = mset results"
proof -
  have sets: "set slots = resultSlotId ` set results" using assms(2) by (metis set_map set_mset_mset)
  show "map resultSlotId (map (\<lambda>slot. the (resultById results slot)) slots) = slots"
    using resultById_unique [OF assms(1)] sets by (auto intro!: map_idI)
  have "mset (map (\<lambda>slot. the (resultById results slot)) slots) =
      mset (map (\<lambda>slot. the (resultById results slot)) (map resultSlotId results))"
    unfolding mset_map using assms(2) by (simp add: mset_map)
  also have "map (\<lambda>slot. the (resultById results slot)) (map resultSlotId results) = results"
    using resultById_unique [OF assms(1)] by (auto intro!: map_idI)
  finally show "mset (map (\<lambda>slot. the (resultById results slot)) slots) = mset results" .
qed

lemma evaluateHolm24_exact:
  assumes "map slotId inputs = holmSlots" "\<forall>input \<in> set inputs. inputDenOk input \<and> holmInputOk input"
  shows "\<exists>rs ordered. evaluateHolm24 inputs = Inr rs \<and> map resultSlotId rs = holmSlots \<and> mset ordered = mset rs \<and>
    mset (map (\<lambda>r. (resultSlotId r, ratOf (rawP r))) rs) = mset (map (\<lambda>i. (slotId i, inputValue i)) inputs) \<and>
    sorted (map (ratOf \<circ> rawP) ordered) \<and> (\<forall>r \<in> set rs. unitRational (rawP r) \<and> positiveDen (adjustedP r)) \<and>
    map (\<lambda>r. (ratOf (adjustedP r), rejected r)) ordered = holmSpec 0 True 0 (map rawP ordered)"
proof -
  obtain rows where rows: "mapR (\<lambda>input. case inputP input of Some p \<Rightarrow> Inr (slotId input, p)
       | None \<Rightarrow> bindR (rational 1 1) (\<lambda>one. Inr (slotId input, one))) inputs = Inr rows"
      "map fst rows = map slotId inputs" "map (ratOf \<circ> snd) rows = map inputValue inputs"
      "\<forall>row \<in> set rows. unitRational (snd row)"
    using holmRows_exact [OF assms(2)] by blast
  obtain zero where zero: "rational 0 1 = Inr zero" "positiveDen zero" "ratOf zero = 0" using unit_rationals(1) by blast
  let ?sorted = "sortBy holmOrder rows"
  have "length inputs = 24" using arg_cong [OF assms(1), of length] by simp
  then have len: "length rows = 24" using arg_cong [OF rows(2), of length] by simp
  then have "0 + length ?sorted \<le> 24" "\<forall>row \<in> set ?sorted. unitRational (snd row)" "ratOf zero \<le> 1"
    using rows(4) zero(3) by simp_all
  from holmLoop_exact [OF this(1,2) zero(2) this(3), of True] zero(3) obtain results where
    res: "holmLoop 0 True zero ?sorted = Inr results" "map resultSlotId results = map fst ?sorted"
      "map rawP results = map snd ?sorted" "\<forall>r \<in> set results. positiveDen (adjustedP r)"
      "map (\<lambda>r. (ratOf (adjustedP r), rejected r)) results = holmSpec 0 True 0 (map snd ?sorted)" by auto
  have slots: "mset (map resultSlotId results) = mset holmSlots"
    unfolding res(2) mset_map mset_sortBy using rows(2) assms(1) by (metis mset_map)
  then have dist: "distinct (map resultSlotId results)" using distinct_holmSlots mset_eq_imp_distinct_iff by blast
  define rs where "rs = map (\<lambda>slot. the (resultById results slot)) holmSlots"
  note can = canonical_results [OF dist slots, folded rs_def]
  obtain us where us: "mapR checkHolmP inputs = Inr us" using mapR_unit [of checkHolmP inputs] checkHolmP_exact assms(2) by auto
  have "evaluateHolm24 inputs = Inr rs"
    using validateHolmFamilySlots_exact [of "map slotId inputs"] assms(1) us rows(1) zero(1) res(1)
    by (simp add: evaluateHolm24_def rs_def)
  moreover have "mset (map (\<lambda>r. (resultSlotId r, ratOf (rawP r))) rs) = mset (map (\<lambda>i. (slotId i, inputValue i)) inputs)"
  proof -
    have eq: "map (\<lambda>r. (resultSlotId r, ratOf (rawP r))) results = map (\<lambda>row. (fst row, ratOf (snd row))) ?sorted"
      using res(2,3) by (simp add: list_eq_iff_nth_eq)
    have "mset (map (\<lambda>r. (resultSlotId r, ratOf (rawP r))) rs) = mset (map (\<lambda>r. (resultSlotId r, ratOf (rawP r))) results)"
      unfolding mset_map can(2) ..
    also have "\<dots> = mset (map (\<lambda>row. (fst row, ratOf (snd row))) rows)"
      unfolding eq mset_map mset_sortBy ..
    also have "map (\<lambda>row. (fst row, ratOf (snd row))) rows = map (\<lambda>i. (slotId i, inputValue i)) inputs"
      using rows(2,3) by (simp add: list_eq_iff_nth_eq)
    finally show ?thesis .
  qed
  moreover have "sorted (map (ratOf \<circ> rawP) results)"
    using holmOrder_sorted [of rows] rows(4) unfolding map_map [symmetric] res(3) by (simp add: unitRational_def)
  moreover have "set rs = set results" using arg_cong [OF can(2), of set_mset] by simp
  then have "\<forall>r \<in> set rs. unitRational (rawP r) \<and> positiveDen (adjustedP r)"
    using res(4) arg_cong [OF res(3), of set] rows(4) by force
  moreover have "map (\<lambda>r. (ratOf (adjustedP r), rejected r)) results = holmSpec 0 True 0 (map rawP results)"
    using res(3,5) by simp
  ultimately show ?thesis using can by (intro exI [of _ rs] exI [of _ results]) simp
qed

text \<open>What the specification says about every single result.\<close>

lemma evaluateHolm24_decisions:
  assumes "map slotId inputs = holmSlots" "\<forall>input \<in> set inputs. inputDenOk input \<and> holmInputOk input"
  shows "\<exists>rs ordered. evaluateHolm24 inputs = Inr rs \<and> map resultSlotId rs = holmSlots \<and>
    mset (map (\<lambda>r. (resultSlotId r, ratOf (rawP r))) rs) = mset (map (\<lambda>i. (slotId i, inputValue i)) inputs) \<and>
    mset ordered = mset rs \<and> sorted (map (ratOf \<circ> rawP) ordered) \<and>
    map (\<lambda>r. (ratOf (adjustedP r), rejected r)) ordered = holmSpec 0 True 0 (map rawP ordered) \<and>
    (\<forall>r \<in> set rs. ratOf (rawP r) \<le> ratOf (adjustedP r) \<and> ratOf (adjustedP r) \<le> 1 \<and>
       (rejected r \<longleftrightarrow> ratOf (adjustedP r) \<le> 1 / 20))"
proof -
  obtain rs os where rs: "evaluateHolm24 inputs = Inr rs" "map resultSlotId rs = holmSlots" "mset os = mset rs"
      "mset (map (\<lambda>r. (resultSlotId r, ratOf (rawP r))) rs) = mset (map (\<lambda>i. (slotId i, inputValue i)) inputs)"
      "sorted (map (ratOf \<circ> rawP) os)" "\<forall>r \<in> set rs. unitRational (rawP r) \<and> positiveDen (adjustedP r)"
      "map (\<lambda>r. (ratOf (adjustedP r), rejected r)) os = holmSpec 0 True 0 (map rawP os)"
    using evaluateHolm24_exact [OF assms] by blast
  have len: "length os = 24" using arg_cong [OF rs(2), of length] arg_cong [OF rs(3), of size] by simp
  have sets: "set os = set rs" using arg_cong [OF rs(3), of set_mset] by simp
  have "ratOf (rawP r) \<le> ratOf (adjustedP r) \<and> ratOf (adjustedP r) \<le> 1 \<and> (rejected r \<longleftrightarrow> ratOf (adjustedP r) \<le> 1 / 20)"
    if "r \<in> set rs" for r
  proof -
    obtain i where i: "i < length os" "r = os ! i" using \<open>r \<in> set rs\<close> sets by (metis in_set_conv_nth)
    have nth: "holmSpec 0 True 0 (map rawP os) ! i = (ratOf (adjustedP r), rejected r)"
      using i unfolding rs(7) [symmetric] by simp
    have "list_all2 (\<lambda>p x. ratOf p \<le> fst x \<and> fst x \<le> 1) (map rawP os) (holmSpec 0 True 0 (map rawP os))"
      using rs(6) sets len by (intro holmSpec_bounds) (auto simp: unitRational_def)
    then have "ratOf (rawP r) \<le> ratOf (adjustedP r) \<and> ratOf (adjustedP r) \<le> 1"
      using list_all2_nthD [of _ "map rawP os" _ i] i nth by fastforce
    moreover have "(ratOf (adjustedP r), rejected r) \<in> set (holmSpec 0 True 0 (map rawP os))"
      using nth i nth_mem [of i "holmSpec 0 True 0 (map rawP os)"] by simp
    then have "rejected r \<longleftrightarrow> ratOf (adjustedP r) \<le> 1 / 20"
      using holmSpec_rejected [of 0 "map rawP os" True 0] len by fastforce
    ultimately show ?thesis by blast
  qed
  with rs show ?thesis by blast
qed

end
