(* ===== verification/ScenarioStudy.thy ===== *)
theory ScenarioStudy
  imports Hamilton WilsonLaws Holm Scenario
begin

text \<open>
  Concrete inputs of the study: three cells that share four seats, a frozen set of 180 clusters
  with a single measured value, and a Holm family with one small p-value.
\<close>

section \<open>Cells\<close>

definition sampleCells :: "CapacityCellV1 list" where
  "sampleCells = [\<lparr>cellId = js ''b'', capacity = NInt 3\<rparr>, \<lparr>cellId = js ''a'', capacity = NInt 5\<rparr>, \<lparr>cellId = js ''c'', capacity = NInt 2\<rparr>]"

lemma sampleCells_ok:
  "isEpochMs (NInt 4)" "distinct (map cellId sampleCells)" "\<forall>cell \<in> set sampleCells. isPositive (capacity cell)"
  "totalCapacity (inputCells sampleCells) < 2 ^ 53" "numInt (NInt 4) \<le> totalCapacity (inputCells sampleCells)"
  "\<forall>cell \<in> set (inputCells sampleCells). numInt (NInt 4) * snd cell < 2 ^ 53"
  by (simp_all add: sampleCells_def inputCells_def totalCapacity_def isEpochMs_def isPositive_def isSafeInteger_def
      MAX_SAFE_INTEGER_def numInt_def)


section \<open>A bootstrap with one observation\<close>

lemma hexValue_bound: "is_hex c \<Longrightarrow> hexValue c < 16"
proof -
  assume "is_hex c"
  then have "(48 \<le> unat c \<and> unat c \<le> 57) \<or> (97 \<le> unat c \<and> unat c \<le> 102)"
    by (auto simp: is_hex_def is_digit_def word_le_nat_alt)
  then show ?thesis by (auto simp: hexValue_def is_digit_def word_le_nat_alt)
qed

lemma foldl_hex_bound:
  "list_all is_hex s \<Longrightarrow> foldl (\<lambda>n c. 16 * n + hexValue c) a s < (a + 1) * 16 ^ length s"
proof (induction s arbitrary: a)
  case (Cons c s)
  have "foldl (\<lambda>n c. 16 * n + hexValue c) (16 * a + hexValue c) s < (16 * a + hexValue c + 1) * 16 ^ length s"
    using Cons by simp
  also have "\<dots> \<le> ((a + 1) * 16) * 16 ^ length s"
    using hexValue_bound [of c] Cons.prems by (intro mult_right_mono) simp_all
  finally show ?case by (simp add: algebra_simps)
qed simp

lemma readBigUInt64BE_range: "hash64 s \<Longrightarrow> 0 \<le> readBigUInt64BE s \<and> readBigUInt64BE s < 2 ^ 64"
proof -
  assume h: "hash64 s"
  then have "list_all is_hex (take 16 s)" by (auto simp: hash64_def list_all_iff dest: in_set_takeD)
  from foldl_hex_bound [OF this, of 0] h have "foldl (\<lambda>n c. 16 * n + hexValue c) 0 (take 16 s) < 16 ^ 16"
    by (simp add: hash64_def)
  then have "int (foldl (\<lambda>n c. 16 * n + hexValue c) 0 (take 16 s)) < int (16 ^ 16)" by (simp only: of_nat_less_iff)
  then show ?thesis by (simp add: readBigUInt64BE_def)
qed

lemma single_draw:
  assumes "\<And>bs. hash64 (sha256_hex X bs)" "hash64 seed" "rep < 10000"
  shows "drawPoolIndex X \<lparr>bootstrapSeedHex = seed, metricId = metric, replicateIndex = NInt (int rep),
    laneOrdinal = l, drawIndex = NInt 0, counter = 0\<rparr> 1 = Inr 0"
proof -
  have "isNonnegativeSafeInteger (NInt (int rep))" "isNonnegativeSafeInteger (NInt 0)"
    using assms(3) by (simp_all add: isNonnegativeSafeInteger_def isSafeInteger_def MAX_SAFE_INTEGER_def)
  then obtain d where d: "deriveBootstrapWord X \<lparr>bootstrapSeedHex = seed, metricId = metric, replicateIndex = NInt (int rep),
      laneOrdinal = l, drawIndex = NInt 0, counter = 0\<rparr> = Inr (d, readBigUInt64BE d)" "hash64 d"
    using assms by (simp add: deriveBootstrapWord_def uint64be_def numInt_def Let_def)
  have "bootstrapPoolIndex (readBigUInt64BE d) (NInt (int 1)) = Inr (Some 0)"
    using readBigUInt64BE_range [OF d(2)] bootstrapPoolIndex_Inr [of 1 "readBigUInt64BE d"]
    by (simp add: isSafeInteger_def MAX_SAFE_INTEGER_def)
  with d(1) show ?thesis by (subst drawPoolIndex.simps) simp
qed

definition oneHalf :: StudyRationalV1 where
  "oneHalf = \<lparr>numerator = 1, denominator = 2\<rparr>"

definition sampleRow :: "nat \<Rightarrow> BootstrapMetricRowV1" where
  "sampleRow i = \<lparr>studyClusterId = dec i, rowLane = LaneStandard, rowValue = (if i = 0 then Some oneHalf else None)\<rparr>"

definition sampleBootstrap :: BootstrapInput where
  "sampleBootstrap = \<lparr>rankSeedHex = zeroDigest, studyDesignId = js ''d'', inputMetricId = js ''releaseGapMovement'',
     inputRows = map sampleRow [0..<180], replicateCount = None\<rparr>"

lemma sample_pools: "bootstrapPools (inputRows sampleBootstrap) = [[sampleRow 0], [], []]"
proof -
  have upt: "[0..<180] = 0 # [1..<180]" by (simp add: upt_conv_Cons)
  have "filter (\<lambda>row. rowLane row = lane \<and> rowValue row \<noteq> None) (map sampleRow [1..<180]) = []" for lane
    by (auto simp: filter_empty_conv sampleRow_def)
  then show ?thesis
    unfolding bootstrapPools_def sampleBootstrap_def by (simp add: upt del: upt.simps) (simp add: sampleRow_def)
qed

lemma sample_replicate:
  assumes "\<And>bs. hash64 (sha256_hex X bs)" "hash64 seed" "rep < 10000"
  shows "bootstrapReplicate X seed metric [[sampleRow 0], [], []] rep = Inr oneHalf"
proof -
  have "drawLane X seed metric rep (0, [sampleRow 0]) = Inr [oneHalf]"
    using single_draw [OF assms, of metric 0] by (simp add: drawLane_def sampleRow_def)
  moreover have "drawLane X seed metric rep (l, []) = Inr []" for l by (simp add: drawLane_def)
  ultimately show ?thesis by (simp add: bootstrapReplicate_def exactMedian_def upt_rec)
qed

lemma sample_bootstrap:
  assumes "\<And>bs. hash64 (sha256_hex X bs)"
  shows "\<exists>vs l m u. laneStratifiedBootstrap X sampleBootstrap = Inr (IntervalAvailable vs l m u)"
proof -
  define vs where "vs = replicate 10000 oneHalf"
  let ?seed = "separatedHash X (js ''peas/study-bootstrap-seed/v1'') [unhex zeroDigest, asciiBytes (js ''d'')]"
  have seed: "hash64 ?seed" using assms by (simp add: separatedHash_def)
  have reps: "mapR (bootstrapReplicate X ?seed (inputMetricId sampleBootstrap) [[sampleRow 0], [], []]) [0..<10000] = Inr vs"
  proof -
    have "mapR (bootstrapReplicate X ?seed (inputMetricId sampleBootstrap) [[sampleRow 0], [], []]) [0..<10000] =
        Inr (map (\<lambda>_. oneHalf) [0..<10000])"
      using sample_replicate [OF assms seed] by (intro mapR_Inr) simp
    then show ?thesis by (simp add: vs_def map_replicate_const del: upt.simps)
  qed
  have ne: "sortedReplicates vs \<noteq> []"
    using sortedReplicates_sort(2) [of vs] by (auto simp: vs_def oneHalf_def positiveDen_def list_all_iff simp flip: set_empty)
  have pos: "list_all positiveDen (sortedReplicates vs)" "sorted (map ratOf (sortedReplicates vs))"
    using sortedReplicates_sort [of vs] by (auto simp: vs_def oneHalf_def positiveDen_def list_all_iff)
  have q: "\<exists>r. bindR (rational n 40) (type7Quantile (sortedReplicates vs)) = Inr r" if "0 \<le> n" "n \<le> 40" for n
  proof -
    obtain p where p: "rational n 40 = Inr p" "positiveDen p" "ratOf p = of_int n / 40"
      using rational_exact [of 40 n] by (auto simp: reduced_def)
    then show ?thesis using type7Quantile_exact [OF ne pos p(2)] that by auto
  qed
  obtain l u m where lum: "bindR (rational 1 40) (type7Quantile (sortedReplicates vs)) = Inr l"
      "bindR (rational 39 40) (type7Quantile (sortedReplicates vs)) = Inr u" "exactMedian (sortedReplicates vs) = Inr m"
    using q [of 1] q [of 39] exactMedian_exact [OF ne pos(1)] by auto
  have ids: "map studyClusterId (inputRows sampleBootstrap) = map dec [0..<180]"
    by (simp add: sampleBootstrap_def sampleRow_def comp_def del: upt.simps)
  have "distinct (map dec [0..<180])" by (simp add: distinct_map inj_on_def del: upt.simps)
  then have len: "length (inputRows sampleBootstrap) = 180" "length (remdups (map studyClusterId (inputRows sampleBootstrap))) = 180"
    unfolding ids by (simp_all add: sampleBootstrap_def distinct_remdups_id del: upt.simps)
  have dens: "\<not> list_ex (\<lambda>row. case rowValue row of None \<Rightarrow> False | Some v \<Rightarrow> denominator v \<le> 0) (inputRows sampleBootstrap)"
    by (auto simp: list_ex_iff sampleBootstrap_def sampleRow_def oneHalf_def split: if_splits)
  have count: "accepted (evaluateStudyBound BootstrapReplicates (ObservedNumber (NInt 10000)))" by code_simp
  have "laneStratifiedBootstrap X sampleBootstrap = Inr (IntervalAvailable vs l m u)"
    unfolding laneStratifiedBootstrap_def Let_def sample_pools
    using len dens count reps lum hash64_zeroDigest by (simp add: sampleBootstrap_def deriveBootstrapSeed_def numInt_def del: upt.simps)
  then show ?thesis by blast
qed


section \<open>A Holm family\<close>

definition sampleHolm :: "HolmInputV1 list" where
  "sampleHolm = map (\<lambda>slot. \<lparr>slotId = slot, inputP = (if slot = js ''holm.quote-trade.T0'' then Some \<lparr>numerator = 1, denominator = 1000\<rparr> else None)\<rparr>) holmSlots"

lemma sampleHolm_ok: "map slotId sampleHolm = holmSlots" "\<forall>input \<in> set sampleHolm. inputDenOk input \<and> holmInputOk input"
  by (auto simp: sampleHolm_def comp_def inputDenOk_def holmInputOk_def positiveDen_def ratOf_def)

end
