(* ===== verification/StudyProperties.thy ===== *)
theory StudyProperties
  imports ScenarioStudy
begin

text \<open>
  Properties of the market-reference study: seat allocation, unbiased sampling, the bootstrap
  interval, the readiness gates and Holm's procedure.
\<close>

section \<open>Seat allocation\<close>

text \<open>
  C36. \<open>capacityHamilton\<close> allocates by largest remainders. For cells with distinct identifiers
  and positive safe capacities, at most as many seats as the total capacity, and a total and
  products below \<open>2 ^ 53\<close>, it returns one award per cell in byte order of the identifiers; the
  awards add up to the requested seats; each is the cell's proportional quota rounded down or one
  more, and at most the capacity; and a cell rounded up has a larger remainder than a cell rounded
  down, or an equal one and an identifier not greater in byte order.
\<close>

theorem hamilton_exact:
  assumes "isEpochMs requested" "distinct (map cellId cells)" "\<forall>cell \<in> set cells. isPositive (capacity cell)"
    and "totalCapacity (inputCells cells) < 2 ^ 53" "numInt requested \<le> totalCapacity (inputCells cells)"
    and "\<forall>cell \<in> set (inputCells cells). numInt requested * snd cell < 2 ^ 53"
  shows "\<exists>ys. capacityHamilton cells requested = Some (Inr ys) \<and>
    map (\<lambda>y. (awardCellId y, awardCapacity y)) ys = orderedCells cells \<and> hamiltonAllocation (numInt requested) ys"
  by (rule capacityHamilton_allocation [OF assms])

theorem hamilton_exact_witness:
  "\<exists>ys. capacityHamilton sampleCells (NInt 4) = Some (Inr ys) \<and>
    map (\<lambda>y. (awardCellId y, awardCapacity y)) ys = orderedCells sampleCells \<and> hamiltonAllocation 4 ys"
  using hamilton_exact [OF sampleCells_ok] by (simp add: numInt_def)

text \<open>
  \<open>capacityHamilton\<close> returns on every input: with the requested seats as fuel the loop never
  runs out, whatever the capacities and however the Numbers are rounded.
\<close>

theorem hamilton_returns: "\<exists>r. capacityHamilton cells requested = Some r"
  using capacityHamilton_returns [of cells requested] by blast


section \<open>Sampling\<close>

text \<open>
  C37. The index into a bootstrap pool is unbiased. For a pool of \<open>n\<close> rows every index from 0 to
  \<open>n - 1\<close> is selected by exactly \<open>2 ^ 64 div n\<close> of the 64-bit words, and the words that are
  rejected are the \<open>2 ^ 64 mod n\<close> remaining ones.
\<close>

theorem pool_index_unbiased:
  assumes "isSafeInteger n" "1 \<le> n" "0 \<le> i" "i < n"
  shows "card {w. 0 \<le> w \<and> w < 2 ^ 64 \<and> bootstrapPoolIndex w (NInt n) = Inr (Some i)} = nat (2 ^ 64 div n) \<and>
    card {w. 0 \<le> w \<and> w < 2 ^ 64 \<and> bootstrapPoolIndex w (NInt n) = Inr None} = nat (2 ^ 64 mod n)"
  using poolIndex_uniform [OF assms] poolIndex_rejected [OF assms(1,2)] by blast

theorem pool_index_unbiased_witness:
  "card {w. 0 \<le> w \<and> w < 2 ^ 64 \<and> bootstrapPoolIndex w (NInt 3) = Inr (Some 2)} = 6148914691236517205 \<and>
   card {w. 0 \<le> w \<and> w < 2 ^ 64 \<and> bootstrapPoolIndex w (NInt 3) = Inr None} = 1"
  using pool_index_unbiased [of 3 2] by (simp add: isSafeInteger_def MAX_SAFE_INTEGER_def)

text \<open>
  C38. An available bootstrap interval rests on exactly ten thousand replicates, each between two
  observed values; its ends are the exact type-7 quantiles of the replicates at 1/40 and 39/40, its
  middle is their exact median, and they are ordered.
\<close>

theorem bootstrap_interval_exact:
  assumes "laneStratifiedBootstrap X input = Inr (IntervalAvailable vs lower mid upper)"
  shows "length vs = 10000 \<and>
    (\<forall>v \<in> set vs. \<exists>a \<in> observedValues (inputRows input). \<exists>b \<in> observedValues (inputRows input).
       ratOf a \<le> ratOf v \<and> ratOf v \<le> ratOf b) \<and>
    ratOf lower = quantile7 (sort (map ratOf vs)) (1 / 40) \<and> ratOf mid = median (map ratOf vs) \<and>
    ratOf upper = quantile7 (sort (map ratOf vs)) (39 / 40) \<and>
    ratOf lower \<le> ratOf mid \<and> ratOf mid \<le> ratOf upper"
  using bootstrap_interval [OF assms] bootstrap_between [OF assms] by blast

theorem bootstrap_interval_exact_witness:
  "\<exists>vs lower mid upper. laneStratifiedBootstrap testRealm sampleBootstrap = Inr (IntervalAvailable vs lower mid upper) \<and>
    length vs = 10000 \<and> ratOf lower \<le> ratOf mid \<and> ratOf mid \<le> ratOf upper"
proof -
  obtain vs l m u where "laneStratifiedBootstrap testRealm sampleBootstrap = Inr (IntervalAvailable vs l m u)"
    using sample_bootstrap [of testRealm] node_env.digest_hash64 [OF testRealm_env] by blast
  then show ?thesis using bootstrap_interval_exact by blast
qed


section \<open>Decisions\<close>

text \<open>
  C39. The readiness gates are tables of counts. For counts between 0 and 180 the gate E1 is GO from
  147 successes on and NO GO below 124, E2 from 139 on and below 114, E3 from 57 on and below 34,
  E4 is GO only if all 180 clusters were reproduced, and the overall gate is NO GO if one of them
  is, GO if all are, and inconclusive otherwise. Any other count is refused.
\<close>

theorem readiness_gates_table:
  "if validCount (e1Successes c) \<and> validCount (e2Successes c) \<and> validCount (e3Successes c)
   then \<exists>g. evaluateReadinessGates c = Inr g \<and>
     gateE1 g = countGate 124 147 (numInt (e1Successes c)) \<and>
     gateE2 g = countGate 114 139 (numInt (e2Successes c)) \<and>
     gateE3 g = countGate 34 57 (numInt (e3Successes c)) \<and>
     gateE4 g = (if e4Reproduced c = NInt 180 then GO else NO_GO) \<and>
     gateOverall g = overallGate [gateE1 g, gateE2 g, gateE3 g, gateE4 g]
   else evaluateReadinessGates c = Inl (studyError ''study.input-invalid'')"
  using readinessGates_valid [of c] readinessGates_invalid [of c] by simp

text \<open>
  C40. Holm's procedure over the 24 slots. For a family with the slots in canonical order and
  p-values between 0 and 1 it returns one result per slot with the raw value of the input (one if
  it is missing); along the sorted raw values the adjusted values and rejections are those of the
  step-down procedure; an adjusted value lies between the raw value and one, and a slot is rejected
  exactly if its adjusted value is at most one twentieth.
\<close>

theorem holm_exact:
  assumes "map slotId inputs = holmSlots" "\<forall>input \<in> set inputs. inputDenOk input \<and> holmInputOk input"
  shows "\<exists>rs ordered. evaluateHolm24 inputs = Inr rs \<and> map resultSlotId rs = holmSlots \<and>
    mset (map (\<lambda>r. (resultSlotId r, ratOf (rawP r))) rs) = mset (map (\<lambda>i. (slotId i, inputValue i)) inputs) \<and>
    mset ordered = mset rs \<and> sorted (map (ratOf \<circ> rawP) ordered) \<and>
    map (\<lambda>r. (ratOf (adjustedP r), rejected r)) ordered = holmSpec 0 True 0 (map rawP ordered) \<and>
    (\<forall>r \<in> set rs. ratOf (rawP r) \<le> ratOf (adjustedP r) \<and> ratOf (adjustedP r) \<le> 1 \<and>
       (rejected r \<longleftrightarrow> ratOf (adjustedP r) \<le> 1 / 20))"
  using evaluateHolm24_decisions [OF assms] by blast

theorem holm_exact_witness:
  "\<exists>rs. evaluateHolm24 sampleHolm = Inr rs \<and> map resultSlotId rs = holmSlots \<and>
    (\<forall>r \<in> set rs. rejected r \<longleftrightarrow> ratOf (adjustedP r) \<le> 1 / 20)"
  using holm_exact [OF sampleHolm_ok] by blast

end
