(* ===== verification/RetentionTypes.thy ===== *)
theory RetentionTypes
  imports Hash Quota JsSort JsCollections
begin

text \<open>
  The records of artifact retention (\<^verbatim>\<open>contracts.ts\<close>), their identities
  (\<^verbatim>\<open>identity.ts\<close>), both under \<^verbatim>\<open>src/adapters/market-acquisition/retention/\<close>, and
  the two retention policies (\<^verbatim>\<open>private-artifact-policy.ts\<close>).

  A record type of the source without its identifier is the base of the record type with it. The
  Numbers of these records are integers: every check on the way in, and the canonical encoder that
  derives the identifiers, refuse the others.
\<close>

section \<open>Records\<close>

datatype RetentionProviderLane = LaneAlpaca | LaneFmp

fun laneName :: "RetentionProviderLane \<Rightarrow> jsstring" where
  "laneName LaneAlpaca = js ''alpaca''"
| "laneName LaneFmp = js ''fmp''"

datatype RetentionStopReason =
    MaximumRetention | AccountClosure | OwnerRevocation | ProviderGuidance | ClassificationLoss
  | SubscriptionTermination | AttestationExpired

fun stopReasonName :: "RetentionStopReason \<Rightarrow> string" where
  "stopReasonName MaximumRetention = ''maximum-retention''"
| "stopReasonName AccountClosure = ''account-closure''"
| "stopReasonName OwnerRevocation = ''owner-revocation''"
| "stopReasonName ProviderGuidance = ''provider-guidance''"
| "stopReasonName ClassificationLoss = ''classification-loss''"
| "stopReasonName SubscriptionTermination = ''subscription-termination''"
| "stopReasonName AttestationExpired = ''attestation-expired''"

record OwnershipInput =
  ownPolicyId :: jsstring
  ownLane :: RetentionProviderLane
  ownProviderId :: jsstring
  ownDatasetId :: jsstring
  ownFeedId :: jsstring
  ownEndpointChannelId :: jsstring
  ownArtifactObservationId :: jsstring
  ownArtifactDigest :: jsstring
  ownArtifactSizeBytes :: int
  ownDerivedIds :: "jsstring list"
  ownTrustedCaptureMs :: int
  ownExpiresAtMs :: int

record RetentionOwnership = OwnershipInput +
  ownershipId :: jsstring

record StopInput =
  stopPolicyId :: jsstring
  stopLane :: RetentionProviderLane
  stopProviderId :: jsstring
  stopEffectiveAtMs :: int
  stopDeadlineMs :: int
  stopReason :: RetentionStopReason

record RetentionStopEvent = StopInput +
  stopEventId :: jsstring

record PlanBody =
  planPolicyId :: jsstring
  planLane :: RetentionProviderLane
  planProviderId :: jsstring
  planDatasetIds :: "jsstring list"
  planFeedIds :: "jsstring list"
  planEndpointChannelIds :: "jsstring list"
  planArtifactObservationIds :: "jsstring list"
  planArtifactDigests :: "jsstring list"
  planDerivedIds :: "jsstring list"
  planStopEventId :: jsstring
  planEffectiveAtMs :: int
  planDeadlineMs :: int
  planPredecessorReceiptId :: "jsstring option"

record PlanWithoutHash = PlanBody +
  planId :: jsstring

record RetentionErasurePlan = PlanWithoutHash +
  planHash :: jsstring

datatype AttemptOutcome = AttemptStarted | AttemptErased | AttemptAlreadyAbsent | AttemptFailed

fun outcomeName :: "AttemptOutcome \<Rightarrow> string" where
  "outcomeName AttemptStarted = ''started''"
| "outcomeName AttemptErased = ''erased''"
| "outcomeName AttemptAlreadyAbsent = ''already-absent''"
| "outcomeName AttemptFailed = ''failed''"

record AttemptBody =
  attemptPlanId :: jsstring
  attemptArtifactDigest :: jsstring
  attemptOrdinal :: int
  attemptStartedAtMs :: int
  attemptOutcome :: AttemptOutcome

record RetentionErasureAttempt = AttemptBody +
  attemptId :: jsstring

record TombstoneBody =
  tombPlanId :: jsstring
  tombArtifactDigest :: jsstring
  tombRecordedAtMs :: int

record RetentionTombstone = TombstoneBody +
  tombstoneId :: jsstring

text \<open>The outcome of a receipt is always \<open>"verified-erased"\<close>, the only value of its type.\<close>

record ReceiptBody =
  receiptPlanId :: jsstring
  receiptPlanHash :: jsstring
  receiptArtifactDigests :: "jsstring list"
  receiptArtifactObservationIds :: "jsstring list"
  receiptPriorSizeBytes :: int
  receiptAttemptCount :: int
  receiptCompletedAtMs :: int

record RetentionReceipt = ReceiptBody +
  receiptId :: jsstring

record CheckpointBody =
  checkPlanId :: jsstring
  checkReceiptId :: jsstring
  checkSequence :: int
  checkCompletedAtMs :: int

record RetentionCheckpoint = CheckpointBody +
  checkpointId :: jsstring

record RevalidationBody =
  revalPlanId :: jsstring
  revalSequence :: int
  revalPredecessorReceiptId :: jsstring
  revalReceipt :: RetentionReceipt
  revalRecordedAtMs :: int

record RetentionReceiptRevalidation = RevalidationBody +
  revalidationId :: jsstring

record ErasureResult =
  erasureArtifactDigest :: jsstring
  erasedContent :: int
  erasedStaging :: int
  erasedSnapshot :: int
  erasedQuarantine :: int
  alreadyAbsent :: bool


section \<open>Records as JSON\<close>

definition strings_json :: "jsstring list \<Rightarrow> json" where
  "strings_json xs = JArr (map JStr xs)"

definition ownership_fields :: "'a OwnershipInput_scheme \<Rightarrow> (jsstring \<times> json) list" where
  "ownership_fields v =
     field ''policyId'' (JStr (ownPolicyId v)) @
     field ''providerLane'' (JStr (laneName (ownLane v))) @
     field ''providerId'' (JStr (ownProviderId v)) @
     field ''datasetId'' (JStr (ownDatasetId v)) @
     field ''feedId'' (JStr (ownFeedId v)) @
     field ''endpointChannelId'' (JStr (ownEndpointChannelId v)) @
     field ''artifactObservationId'' (JStr (ownArtifactObservationId v)) @
     field ''artifactDigest'' (JStr (ownArtifactDigest v)) @
     field ''artifactSizeBytes'' (jint (ownArtifactSizeBytes v)) @
     field ''derivedIds'' (strings_json (ownDerivedIds v)) @
     field ''trustedCaptureMs'' (jint (ownTrustedCaptureMs v)) @
     field ''expiresAtMs'' (jint (ownExpiresAtMs v))"

definition ownership_json :: "RetentionOwnership \<Rightarrow> json" where
  "ownership_json v = JObj (field ''ownershipId'' (JStr (ownershipId v)) @ ownership_fields v)"

definition stop_fields :: "'a StopInput_scheme \<Rightarrow> (jsstring \<times> json) list" where
  "stop_fields v =
     field ''policyId'' (JStr (stopPolicyId v)) @
     field ''providerLane'' (JStr (laneName (stopLane v))) @
     field ''providerId'' (JStr (stopProviderId v)) @
     field ''effectiveAtMs'' (jint (stopEffectiveAtMs v)) @
     field ''deadlineMs'' (jint (stopDeadlineMs v)) @
     field ''reason'' (JStr (js (stopReasonName (stopReason v))))"

definition stop_json :: "RetentionStopEvent \<Rightarrow> json" where
  "stop_json v = JObj (field ''stopEventId'' (JStr (stopEventId v)) @ stop_fields v)"

definition plan_fields :: "'a PlanBody_scheme \<Rightarrow> (jsstring \<times> json) list" where
  "plan_fields v =
     field ''policyId'' (JStr (planPolicyId v)) @
     field ''providerLane'' (JStr (laneName (planLane v))) @
     field ''providerId'' (JStr (planProviderId v)) @
     field ''datasetIds'' (strings_json (planDatasetIds v)) @
     field ''feedIds'' (strings_json (planFeedIds v)) @
     field ''endpointChannelIds'' (strings_json (planEndpointChannelIds v)) @
     field ''artifactObservationIds'' (strings_json (planArtifactObservationIds v)) @
     field ''artifactDigests'' (strings_json (planArtifactDigests v)) @
     field ''derivedIds'' (strings_json (planDerivedIds v)) @
     field ''stopEventId'' (JStr (planStopEventId v)) @
     field ''effectiveAtMs'' (jint (planEffectiveAtMs v)) @
     field ''deadlineMs'' (jint (planDeadlineMs v)) @
     field ''predecessorReceiptId'' (jnull JStr (planPredecessorReceiptId v))"

definition planWithoutHash_json :: "'a PlanWithoutHash_scheme \<Rightarrow> json" where
  "planWithoutHash_json v = JObj (plan_fields v @ field ''planId'' (JStr (planId v)))"

definition plan_json :: "RetentionErasurePlan \<Rightarrow> json" where
  "plan_json v = JObj (plan_fields v @ field ''planId'' (JStr (planId v)) @ field ''planHash'' (JStr (planHash v)))"

definition attempt_fields :: "'a AttemptBody_scheme \<Rightarrow> (jsstring \<times> json) list" where
  "attempt_fields v =
     field ''planId'' (JStr (attemptPlanId v)) @
     field ''artifactDigest'' (JStr (attemptArtifactDigest v)) @
     field ''attemptOrdinal'' (jint (attemptOrdinal v)) @
     field ''startedAtMs'' (jint (attemptStartedAtMs v)) @
     field ''outcome'' (JStr (js (outcomeName (attemptOutcome v))))"

definition attempt_json :: "RetentionErasureAttempt \<Rightarrow> json" where
  "attempt_json v = JObj (field ''attemptId'' (JStr (attemptId v)) @ attempt_fields v)"

definition tombstone_fields :: "'a TombstoneBody_scheme \<Rightarrow> (jsstring \<times> json) list" where
  "tombstone_fields v =
     field ''planId'' (JStr (tombPlanId v)) @
     field ''artifactDigest'' (JStr (tombArtifactDigest v)) @
     field ''recordedAtMs'' (jint (tombRecordedAtMs v))"

definition tombstone_json :: "RetentionTombstone \<Rightarrow> json" where
  "tombstone_json v = JObj (field ''tombstoneId'' (JStr (tombstoneId v)) @ tombstone_fields v)"

definition receipt_fields :: "'a ReceiptBody_scheme \<Rightarrow> (jsstring \<times> json) list" where
  "receipt_fields v =
     field ''planId'' (JStr (receiptPlanId v)) @
     field ''planHash'' (JStr (receiptPlanHash v)) @
     field ''artifactDigests'' (strings_json (receiptArtifactDigests v)) @
     field ''artifactObservationIds'' (strings_json (receiptArtifactObservationIds v)) @
     field ''priorSizeBytes'' (jint (receiptPriorSizeBytes v)) @
     field ''attemptCount'' (jint (receiptAttemptCount v)) @
     field ''outcome'' (JStr (js ''verified-erased'')) @
     field ''completedAtMs'' (jint (receiptCompletedAtMs v))"

definition receipt_json :: "RetentionReceipt \<Rightarrow> json" where
  "receipt_json v = JObj (field ''receiptId'' (JStr (receiptId v)) @ receipt_fields v)"

definition checkpoint_fields :: "'a CheckpointBody_scheme \<Rightarrow> (jsstring \<times> json) list" where
  "checkpoint_fields v =
     field ''planId'' (JStr (checkPlanId v)) @
     field ''receiptId'' (JStr (checkReceiptId v)) @
     field ''sequence'' (jint (checkSequence v)) @
     field ''completedAtMs'' (jint (checkCompletedAtMs v))"

definition retentionCheckpoint_json :: "RetentionCheckpoint \<Rightarrow> json" where
  "retentionCheckpoint_json v = JObj (field ''checkpointId'' (JStr (checkpointId v)) @ checkpoint_fields v)"

definition revalidation_fields :: "'a RevalidationBody_scheme \<Rightarrow> (jsstring \<times> json) list" where
  "revalidation_fields v =
     field ''planId'' (JStr (revalPlanId v)) @
     field ''sequence'' (jint (revalSequence v)) @
     field ''predecessorReceiptId'' (JStr (revalPredecessorReceiptId v)) @
     field ''receipt'' (receipt_json (revalReceipt v)) @
     field ''recordedAtMs'' (jint (revalRecordedAtMs v))"

definition revalidation_json :: "RetentionReceiptRevalidation \<Rightarrow> json" where
  "revalidation_json v = JObj (field ''revalidationId'' (JStr (revalidationId v)) @ revalidation_fields v)"


section \<open>Identities\<close>

definition prefixed :: "externals \<Rightarrow> string \<Rightarrow> string \<Rightarrow> json \<Rightarrow> jsstring result" where
  "prefixed X prefix domain value = bindR (canonicalHash X (js domain) value) (\<lambda>h. Inr (js prefix @ h))"

definition deriveRetentionOwnershipId :: "externals \<Rightarrow> 'a OwnershipInput_scheme \<Rightarrow> jsstring result" where
  "deriveRetentionOwnershipId X value =
     prefixed X ''row1_'' ''peas/market-acquisition-retention-ownership/v1'' (JObj (ownership_fields value))"

definition deriveRetentionStopEventId :: "externals \<Rightarrow> 'a StopInput_scheme \<Rightarrow> jsstring result" where
  "deriveRetentionStopEventId X value =
     prefixed X ''rst1_'' ''peas/market-acquisition-retention-stop/v1'' (JObj (stop_fields value))"

definition deriveRetentionPlanId :: "externals \<Rightarrow> 'a PlanBody_scheme \<Rightarrow> jsstring result" where
  "deriveRetentionPlanId X value =
     prefixed X ''rpl1_'' ''peas/market-acquisition-retention-plan/v1'' (JObj (plan_fields value))"

definition deriveRetentionPlanHash :: "externals \<Rightarrow> 'a PlanWithoutHash_scheme \<Rightarrow> jsstring result" where
  "deriveRetentionPlanHash X value =
     canonicalHash X (js ''peas/market-acquisition-retention-plan-record/v1'') (planWithoutHash_json value)"

definition deriveRetentionAttemptId :: "externals \<Rightarrow> 'a AttemptBody_scheme \<Rightarrow> jsstring result" where
  "deriveRetentionAttemptId X value =
     prefixed X ''rea1_'' ''peas/market-acquisition-retention-attempt/v1'' (JObj (attempt_fields value))"

definition deriveRetentionTombstoneId :: "externals \<Rightarrow> 'a TombstoneBody_scheme \<Rightarrow> jsstring result" where
  "deriveRetentionTombstoneId X value =
     prefixed X ''rtm1_'' ''peas/market-acquisition-retention-tombstone/v1'' (JObj (tombstone_fields value))"

definition deriveRetentionReceiptId :: "externals \<Rightarrow> 'a ReceiptBody_scheme \<Rightarrow> jsstring result" where
  "deriveRetentionReceiptId X value =
     prefixed X ''rrc1_'' ''peas/market-acquisition-retention-receipt/v1'' (JObj (receipt_fields value))"

definition deriveRetentionReceiptRevalidationId :: "externals \<Rightarrow> 'a RevalidationBody_scheme \<Rightarrow> jsstring result" where
  "deriveRetentionReceiptRevalidationId X value =
     prefixed X ''rrv1_'' ''peas/market-acquisition-retention-revalidation/v1'' (JObj (revalidation_fields value))"

definition deriveRetentionCheckpointId :: "externals \<Rightarrow> 'a CheckpointBody_scheme \<Rightarrow> jsstring result" where
  "deriveRetentionCheckpointId X value =
     prefixed X ''rck1_'' ''peas/market-acquisition-retention-checkpoint/v1'' (JObj (checkpoint_fields value))"


section \<open>Policies\<close>

record PrivateArtifactPolicy =
  policyId :: jsstring
  policyLane :: RetentionProviderLane
  maximumRetentionMs :: int
  stopGraceMs :: int
  policyEnabled :: bool

definition UTC_DAY_MS :: int where "UTC_DAY_MS = 86400000"
definition ALPACA_MAX_RETENTION_DAYS :: int where "ALPACA_MAX_RETENTION_DAYS = 3650"
definition ALPACA_STOP_GRACE_DAYS :: int where "ALPACA_STOP_GRACE_DAYS = 30"
definition ALPACA_RETENTION_POLICY_ID :: jsstring where
  "ALPACA_RETENTION_POLICY_ID = js ''p1-10-alpaca-private-retention-v1''"
definition FMP_RETENTION_POLICY_ID :: jsstring where
  "FMP_RETENTION_POLICY_ID = js ''p1-10-fmp-private-retention-disabled-v1''"

definition ALPACA_PRIVATE_ARTIFACT_POLICY :: PrivateArtifactPolicy where
  "ALPACA_PRIVATE_ARTIFACT_POLICY = \<lparr>policyId = ALPACA_RETENTION_POLICY_ID, policyLane = LaneAlpaca,
     maximumRetentionMs = ALPACA_MAX_RETENTION_DAYS * UTC_DAY_MS,
     stopGraceMs = ALPACA_STOP_GRACE_DAYS * UTC_DAY_MS, policyEnabled = True\<rparr>"

definition FMP_PRIVATE_ARTIFACT_POLICY :: PrivateArtifactPolicy where
  "FMP_PRIVATE_ARTIFACT_POLICY = \<lparr>policyId = FMP_RETENTION_POLICY_ID, policyLane = LaneFmp,
     maximumRetentionMs = ALPACA_MAX_RETENTION_DAYS * UTC_DAY_MS, stopGraceMs = 0, policyEnabled = False\<rparr>"

definition safeTime :: "int \<Rightarrow> bool" where
  "safeTime v \<longleftrightarrow> isSafeInteger v \<and> 0 \<le> v"

definition retentionExpiryMs :: "PrivateArtifactPolicy \<Rightarrow> int \<Rightarrow> int option \<Rightarrow> int result" where
  "retentionExpiryMs policy trustedCaptureMs earlierProviderDeadlineMs =
     (if \<not> safeTime trustedCaptureMs then Inl (RangeError ''Trusted capture time is invalid'')
      else if \<not> pred_option safeTime earlierProviderDeadlineMs then Inl (RangeError ''Provider deadline is invalid'')
      else let maximum = dadd trustedCaptureMs (maximumRetentionMs policy) in
      if \<not> isSafeInteger maximum then Inl (RangeError ''Retention expiry exceeds safe time'')
      else Inr (case earlierProviderDeadlineMs of None \<Rightarrow> maximum | Some d \<Rightarrow> min maximum d))"

definition retentionStopDeadlineMs :: "PrivateArtifactPolicy \<Rightarrow> int \<Rightarrow> int option \<Rightarrow> int result" where
  "retentionStopDeadlineMs policy effectiveStopMs earlierProviderDeadlineMs =
     (if \<not> safeTime effectiveStopMs then Inl (RangeError ''Effective stop time is invalid'')
      else let graceDeadline = dadd effectiveStopMs (stopGraceMs policy) in
      if \<not> isSafeInteger graceDeadline then Inl (RangeError ''Stop deadline exceeds safe time'')
      else Inr (case earlierProviderDeadlineMs of None \<Rightarrow> graceDeadline | Some d \<Rightarrow> min graceDeadline d))"

end
