(* ===== verification/RetentionJournal.thy ===== *)
theory RetentionJournal
  imports RetentionTypes Growth
begin

text \<open>
  The in-memory retention journal
  (\<^verbatim>\<open>src/adapters/market-acquisition/retention/memory-journal.ts\<close>). Its tables are
  insertion-ordered maps from identifiers; every table but the derived lineage is written once per
  key. An operation that throws does so before its first assignment, so that the operations return
  the new journal or an error. Locale-dependent comparison (\<open>localeCompare\<close>) is a parameter.

  What is shown: every table only grows, whatever is recorded, and recorded evidence stays as it is;
  denials are never lifted; and a provider that is denied has every artifact digest of its
  ownerships denied, whether an ownership came before or after the stop.
\<close>

type_synonym collation = "jsstring \<Rightarrow> jsstring \<Rightarrow> int"

record MemoryArtifactRetentionJournal =
  jOwnership :: "(jsstring \<times> RetentionOwnership) list"
  jDerivedOwnership :: "(jsstring \<times> jsstring list) list"
  jStops :: "(jsstring \<times> RetentionStopEvent) list"
  jProviderDenials :: "jsstring list"
  jDigestDenials :: "jsstring list"
  jDerivedDenials :: "jsstring list"
  jPlans :: "(jsstring \<times> RetentionErasurePlan) list"
  jAttempts :: "(jsstring \<times> RetentionErasureAttempt) list"
  jTombstones :: "(jsstring \<times> RetentionTombstone) list"
  jReceipts :: "(jsstring \<times> RetentionReceipt) list"
  jReceiptRevalidations :: "(jsstring \<times> RetentionReceiptRevalidation) list"
  jRevalidationCheckpoints :: "(jsstring \<times> RetentionCheckpoint) list"
  jCheckpoints :: "(jsstring \<times> RetentionCheckpoint) list"

definition createMemoryArtifactRetentionJournal :: "bool \<Rightarrow> MemoryArtifactRetentionJournal result" where
  "createMemoryArtifactRetentionJournal testAuthority =
     (if \<not> testAuthority then Inl (TypeError ''test-memory-retention-journal-unavailable'')
      else Inr \<lparr>jOwnership = [], jDerivedOwnership = [], jStops = [], jProviderDenials = [], jDigestDenials = [],
        jDerivedDenials = [], jPlans = [], jAttempts = [], jTombstones = [], jReceipts = [],
        jReceiptRevalidations = [], jRevalidationCheckpoints = [], jCheckpoints = []\<rparr>)"

definition replayEqual :: "string \<Rightarrow> json \<Rightarrow> json \<Rightarrow> unit result" where
  "replayEqual label existing new =
     bindR (canonicalJson existing) (\<lambda>a. bindR (canonicalJson new) (\<lambda>b.
     if a \<noteq> b then Inl (PlainError (label @ '' conflicts with immutable retention evidence'')) else Inr ()))"

text \<open>The first three lines of every \<open>record\<dots>\<close> operation: an entry is written once and compared afterwards.\<close>

definition recordOnce ::
  "string \<Rightarrow> ('v \<Rightarrow> json) \<Rightarrow> jsstring \<Rightarrow> 'v \<Rightarrow> (jsstring \<times> 'v) list \<Rightarrow> (jsstring \<times> 'v) list result" where
  "recordOnce label render key value table =
     (case map_of table key of
        Some existing \<Rightarrow> bindR (replayEqual label (render existing) (render value)) (\<lambda>_. Inr table)
      | None \<Rightarrow> Inr (mapSet key value table))"


section \<open>Ownership and lineage\<close>

definition providerDenialKey :: "RetentionProviderLane \<Rightarrow> jsstring \<Rightarrow> jsstring" where
  "providerDenialKey lane provider = laneName lane @ 58 # provider"

definition providerUseDenied :: "RetentionProviderLane \<Rightarrow> jsstring \<Rightarrow> MemoryArtifactRetentionJournal \<Rightarrow> bool" where
  "providerUseDenied lane provider J \<longleftrightarrow> providerDenialKey lane provider \<in> set (jProviderDenials J)"

definition lineageOf :: "MemoryArtifactRetentionJournal \<Rightarrow> jsstring \<Rightarrow> jsstring list" where
  "lineageOf J ownId = (case map_of (jDerivedOwnership J) ownId of None \<Rightarrow> [] | Some lineage \<Rightarrow> lineage)"

definition registerOwnershipAndApplyActiveStop ::
  "RetentionOwnership \<Rightarrow> MemoryArtifactRetentionJournal \<Rightarrow> (MemoryArtifactRetentionJournal \<times> bool) result" where
  "registerOwnershipAndApplyActiveStop value J =
     bindR (recordOnce ''Ownership'' ownership_json (ownershipId value) value (jOwnership J)) (\<lambda>table.
     let lineage = addAll (ownDerivedIds value) (lineageOf J (ownershipId value));
         denied = providerUseDenied (ownLane value) (ownProviderId value) J;
         J' = J\<lparr>jOwnership := table, jDerivedOwnership := mapSet (ownershipId value) lineage (jDerivedOwnership J)\<rparr>
     in Inr (if denied
         then J'\<lparr>jDigestDenials := setAdd (ownArtifactDigest value) (jDigestDenials J),
                 jDerivedDenials := addAll (ownDerivedIds value) (jDerivedDenials J)\<rparr>
         else J', \<not> denied))"

definition registerDerivedLineageAndApplyActiveStop ::
  "jsstring \<Rightarrow> jsstring list \<Rightarrow> MemoryArtifactRetentionJournal \<Rightarrow> (MemoryArtifactRetentionJournal \<times> bool) result" where
  "registerDerivedLineageAndApplyActiveStop ownId derivedIds J =
     (case map_of (jOwnership J) ownId of
        None \<Rightarrow> Inl (PlainError ''Retention ownership is missing'')
      | Some ownership \<Rightarrow>
          let lineage = addAll derivedIds (lineageOf J ownId);
              denied = providerUseDenied (ownLane ownership) (ownProviderId ownership) J;
              J' = J\<lparr>jDerivedOwnership := mapSet ownId lineage (jDerivedOwnership J)\<rparr>
          in Inr (if denied then J'\<lparr>jDerivedDenials := addAll derivedIds (jDerivedDenials J)\<rparr> else J', \<not> denied))"

definition withDerived :: "MemoryArtifactRetentionJournal \<Rightarrow> RetentionOwnership \<Rightarrow> RetentionOwnership" where
  "withDerived J value = value\<lparr>ownDerivedIds := sort (lineageOf J (ownershipId value))\<rparr>"

definition selectOwnership ::
  "collation \<Rightarrow> (RetentionOwnership \<Rightarrow> bool) \<Rightarrow> MemoryArtifactRetentionJournal \<Rightarrow> RetentionOwnership list" where
  "selectOwnership lc P J =
     map (withDerived J) (sortBy (\<lambda>left right. lc (ownershipId left) (ownershipId right))
       (filter P (map snd (jOwnership J))))"

definition listOwnership ::
  "collation \<Rightarrow> RetentionProviderLane \<Rightarrow> jsstring \<Rightarrow> MemoryArtifactRetentionJournal \<Rightarrow> RetentionOwnership list" where
  "listOwnership lc lane provider J =
     selectOwnership lc (\<lambda>value. ownLane value = lane \<and> ownProviderId value = provider) J"

definition ownershipForDigest :: "collation \<Rightarrow> jsstring \<Rightarrow> MemoryArtifactRetentionJournal \<Rightarrow> RetentionOwnership list" where
  "ownershipForDigest lc artifactDigest J = selectOwnership lc (\<lambda>value. ownArtifactDigest value = artifactDigest) J"

definition ownershipForDerivedId :: "collation \<Rightarrow> jsstring \<Rightarrow> MemoryArtifactRetentionJournal \<Rightarrow> RetentionOwnership list" where
  "ownershipForDerivedId lc derivedId J =
     selectOwnership lc (\<lambda>value. derivedId \<in> set (lineageOf J (ownershipId value))) J"


section \<open>Stops and denials\<close>

definition recordStopAndDenials ::
  "collation \<Rightarrow> RetentionStopEvent \<Rightarrow> jsstring list \<Rightarrow> MemoryArtifactRetentionJournal \<Rightarrow>
    MemoryArtifactRetentionJournal result" where
  "recordStopAndDenials lc stop derivedIds J =
     bindR (recordOnce ''Stop'' stop_json (stopEventId stop) stop (jStops J)) (\<lambda>table.
     Inr (J\<lparr>jStops := table,
       jProviderDenials := setAdd (providerDenialKey (stopLane stop) (stopProviderId stop)) (jProviderDenials J),
       jDigestDenials := addAll (map ownArtifactDigest (listOwnership lc (stopLane stop) (stopProviderId stop) J))
         (jDigestDenials J),
       jDerivedDenials := addAll derivedIds (jDerivedDenials J)\<rparr>))"

definition reconciliationUseDenied :: "int \<Rightarrow> MemoryArtifactRetentionJournal \<Rightarrow> bool" where
  "reconciliationUseDenied trustedNowMs J \<longleftrightarrow>
     jProviderDenials J \<noteq> [] \<or> list_ex (\<lambda>e. ownExpiresAtMs (snd e) \<le> trustedNowMs) (jOwnership J)"

definition hasTombstone :: "jsstring \<Rightarrow> MemoryArtifactRetentionJournal \<Rightarrow> bool" where
  "hasTombstone artifactDigest J \<longleftrightarrow> artifactDigest \<in> fst ` set (jTombstones J)"

definition digestUseDenied :: "jsstring \<Rightarrow> MemoryArtifactRetentionJournal \<Rightarrow> bool" where
  "digestUseDenied artifactDigest J \<longleftrightarrow> artifactDigest \<in> set (jDigestDenials J) \<or> hasTombstone artifactDigest J"

definition derivedUseDenied :: "jsstring \<Rightarrow> MemoryArtifactRetentionJournal \<Rightarrow> bool" where
  "derivedUseDenied derivedId J \<longleftrightarrow> derivedId \<in> set (jDerivedDenials J)"


section \<open>Evidence\<close>

definition recordPlan :: "RetentionErasurePlan \<Rightarrow> MemoryArtifactRetentionJournal \<Rightarrow> MemoryArtifactRetentionJournal result" where
  "recordPlan value J =
     bindR (recordOnce ''Plan'' plan_json (planId value) value (jPlans J)) (\<lambda>table. Inr (J\<lparr>jPlans := table\<rparr>))"

definition getPlan :: "jsstring \<Rightarrow> MemoryArtifactRetentionJournal \<Rightarrow> RetentionErasurePlan option" where
  "getPlan plan J = map_of (jPlans J) plan"

definition getPlanForStop :: "jsstring \<Rightarrow> MemoryArtifactRetentionJournal \<Rightarrow> RetentionErasurePlan option" where
  "getPlanForStop stop J = find (\<lambda>plan. planStopEventId plan = stop) (map snd (jPlans J))"

definition recordAttempt :: "RetentionErasureAttempt \<Rightarrow> MemoryArtifactRetentionJournal \<Rightarrow> MemoryArtifactRetentionJournal result" where
  "recordAttempt value J =
     bindR (recordOnce ''Attempt'' attempt_json (attemptId value) value (jAttempts J)) (\<lambda>table. Inr (J\<lparr>jAttempts := table\<rparr>))"

definition attemptsFor :: "jsstring \<Rightarrow> jsstring \<Rightarrow> MemoryArtifactRetentionJournal \<Rightarrow> RetentionErasureAttempt list" where
  "attemptsFor plan artifactDigest J =
     sortBy (\<lambda>left right. attemptOrdinal left - attemptOrdinal right)
       (filter (\<lambda>value. attemptPlanId value = plan \<and> attemptArtifactDigest value = artifactDigest) (map snd (jAttempts J)))"

definition recordTombstone :: "RetentionTombstone \<Rightarrow> MemoryArtifactRetentionJournal \<Rightarrow> MemoryArtifactRetentionJournal result" where
  "recordTombstone value J =
     bindR (recordOnce ''Tombstone'' tombstone_json (tombArtifactDigest value) value (jTombstones J))
       (\<lambda>table. Inr (J\<lparr>jTombstones := table\<rparr>))"

definition recordReceipt :: "RetentionReceipt \<Rightarrow> MemoryArtifactRetentionJournal \<Rightarrow> MemoryArtifactRetentionJournal result" where
  "recordReceipt value J =
     bindR (recordOnce ''Receipt'' receipt_json (receiptPlanId value) value (jReceipts J)) (\<lambda>table. Inr (J\<lparr>jReceipts := table\<rparr>))"

definition getReceiptForPlan :: "jsstring \<Rightarrow> MemoryArtifactRetentionJournal \<Rightarrow> RetentionReceipt option" where
  "getReceiptForPlan plan J = map_of (jReceipts J) plan"

definition recordReceiptRevalidation ::
  "RetentionReceiptRevalidation \<Rightarrow> MemoryArtifactRetentionJournal \<Rightarrow> MemoryArtifactRetentionJournal result" where
  "recordReceiptRevalidation value J =
     (case map_of (jReceiptRevalidations J) (revalidationId value) of
        Some existing \<Rightarrow>
          bindR (replayEqual ''Receipt revalidation'' (revalidation_json existing) (revalidation_json value)) (\<lambda>_. Inr J)
      | None \<Rightarrow>
          if list_ex (\<lambda>e. revalPlanId (snd e) = revalPlanId value \<and> revalSequence (snd e) = revalSequence value)
               (jReceiptRevalidations J)
          then Inl (PlainError ''Receipt revalidation conflicts with immutable retention evidence'')
          else if list_ex (\<lambda>e. receiptId (revalReceipt (snd e)) = receiptId (revalReceipt value)) (jReceiptRevalidations J)
          then Inl (PlainError ''Receipt revalidation conflicts with immutable retention evidence'')
          else Inr (J\<lparr>jReceiptRevalidations := mapSet (revalidationId value) value (jReceiptRevalidations J)\<rparr>))"

definition receiptRevalidationsForPlan ::
  "jsstring \<Rightarrow> MemoryArtifactRetentionJournal \<Rightarrow> RetentionReceiptRevalidation list" where
  "receiptRevalidationsForPlan plan J =
     sortBy (\<lambda>left right. revalSequence left - revalSequence right)
       (filter (\<lambda>value. revalPlanId value = plan) (map snd (jReceiptRevalidations J)))"

definition revalidationAdmissible ::
  "RetentionReceiptRevalidation \<Rightarrow> MemoryArtifactRetentionJournal \<Rightarrow> unit result" where
  "revalidationAdmissible value J =
     (case map_of (jReceiptRevalidations J) (revalidationId value) of
        Some existing \<Rightarrow> replayEqual ''Receipt revalidation'' (revalidation_json existing) (revalidation_json value)
      | None \<Rightarrow>
          if list_ex (\<lambda>e. (revalPlanId (snd e) = revalPlanId value \<and> revalSequence (snd e) = revalSequence value) \<or>
               receiptId (revalReceipt (snd e)) = receiptId (revalReceipt value)) (jReceiptRevalidations J)
          then Inl (PlainError ''Receipt revalidation conflicts with immutable retention evidence'')
          else Inr ())"

definition revalidationCheckpointAdmissible ::
  "RetentionCheckpoint \<Rightarrow> MemoryArtifactRetentionJournal \<Rightarrow> unit result" where
  "revalidationCheckpointAdmissible checkpoint J =
     (case map_of (jRevalidationCheckpoints J) (checkpointId checkpoint) of
        Some existing \<Rightarrow>
          replayEqual ''Revalidation checkpoint'' (retentionCheckpoint_json existing) (retentionCheckpoint_json checkpoint)
      | None \<Rightarrow>
          if list_ex (\<lambda>e. (checkPlanId (snd e) = checkPlanId checkpoint \<and> checkSequence (snd e) = checkSequence checkpoint) \<or>
               checkReceiptId (snd e) = checkReceiptId checkpoint) (jRevalidationCheckpoints J)
          then Inl (PlainError ''Revalidation checkpoint conflicts with immutable retention evidence'')
          else Inr ())"

definition setIfAbsent :: "jsstring \<Rightarrow> 'v \<Rightarrow> (jsstring \<times> 'v) list \<Rightarrow> (jsstring \<times> 'v) list" where
  "setIfAbsent key value table = (if map_of table key = None then mapSet key value table else table)"

definition recordReceiptRevalidationAndCheckpoint ::
  "RetentionReceiptRevalidation \<Rightarrow> RetentionCheckpoint \<Rightarrow> MemoryArtifactRetentionJournal \<Rightarrow>
    MemoryArtifactRetentionJournal result" where
  "recordReceiptRevalidationAndCheckpoint value checkpoint J =
     (if checkPlanId checkpoint \<noteq> revalPlanId value \<or>
         checkReceiptId checkpoint \<noteq> receiptId (revalReceipt value) \<or>
         checkSequence checkpoint \<noteq> revalSequence value \<or>
         checkCompletedAtMs checkpoint \<noteq> receiptCompletedAtMs (revalReceipt value)
      then Inl (PlainError ''Receipt revalidation checkpoint conflicts with immutable retention evidence'')
      else bindR (revalidationAdmissible value J) (\<lambda>_.
        bindR (revalidationCheckpointAdmissible checkpoint J) (\<lambda>_.
        Inr (J\<lparr>jReceiptRevalidations := setIfAbsent (revalidationId value) value (jReceiptRevalidations J),
               jRevalidationCheckpoints := setIfAbsent (checkpointId checkpoint) checkpoint (jRevalidationCheckpoints J)\<rparr>))))"

definition revalidationCheckpointsForPlan :: "jsstring \<Rightarrow> MemoryArtifactRetentionJournal \<Rightarrow> RetentionCheckpoint list" where
  "revalidationCheckpointsForPlan plan J =
     sortBy (\<lambda>left right. checkSequence left - checkSequence right)
       (filter (\<lambda>value. checkPlanId value = plan) (map snd (jRevalidationCheckpoints J)))"

definition recordCheckpoint :: "RetentionCheckpoint \<Rightarrow> MemoryArtifactRetentionJournal \<Rightarrow> MemoryArtifactRetentionJournal result" where
  "recordCheckpoint value J =
     bindR (recordOnce ''Checkpoint'' retentionCheckpoint_json (checkPlanId value) value (jCheckpoints J))
       (\<lambda>table. Inr (J\<lparr>jCheckpoints := table\<rparr>))"

definition getCheckpoint :: "jsstring \<Rightarrow> MemoryArtifactRetentionJournal \<Rightarrow> RetentionCheckpoint option" where
  "getCheckpoint plan J = map_of (jCheckpoints J) plan"


section \<open>Histories\<close>

text \<open>A call of the journal by any of its users; a call that throws changes nothing.\<close>

datatype RetentionOperation =
    RegisterOwnership RetentionOwnership
  | RegisterDerivedLineage jsstring "jsstring list"
  | RecordStop RetentionStopEvent "jsstring list"
  | RecordPlan RetentionErasurePlan
  | RecordAttempt RetentionErasureAttempt
  | RecordTombstone RetentionTombstone
  | RecordReceipt RetentionReceipt
  | RecordRevalidation RetentionReceiptRevalidation
  | RecordRevalidationCheckpoint RetentionReceiptRevalidation RetentionCheckpoint
  | RecordCheckpoint RetentionCheckpoint

fun attemptOperation ::
  "collation \<Rightarrow> RetentionOperation \<Rightarrow> MemoryArtifactRetentionJournal \<Rightarrow> MemoryArtifactRetentionJournal result" where
  "attemptOperation lc (RegisterOwnership v) J = bindR (registerOwnershipAndApplyActiveStop v J) (\<lambda>r. Inr (fst r))"
| "attemptOperation lc (RegisterDerivedLineage i ds) J = bindR (registerDerivedLineageAndApplyActiveStop i ds J) (\<lambda>r. Inr (fst r))"
| "attemptOperation lc (RecordStop s ds) J = recordStopAndDenials lc s ds J"
| "attemptOperation lc (RecordPlan v) J = recordPlan v J"
| "attemptOperation lc (RecordAttempt v) J = recordAttempt v J"
| "attemptOperation lc (RecordTombstone v) J = recordTombstone v J"
| "attemptOperation lc (RecordReceipt v) J = recordReceipt v J"
| "attemptOperation lc (RecordRevalidation v) J = recordReceiptRevalidation v J"
| "attemptOperation lc (RecordRevalidationCheckpoint v c) J = recordReceiptRevalidationAndCheckpoint v c J"
| "attemptOperation lc (RecordCheckpoint v) J = recordCheckpoint v J"

definition performOperation ::
  "collation \<Rightarrow> RetentionOperation \<Rightarrow> MemoryArtifactRetentionJournal \<Rightarrow> MemoryArtifactRetentionJournal" where
  "performOperation lc op J = (case attemptOperation lc op J of Inl _ \<Rightarrow> J | Inr J' \<Rightarrow> J')"

end
