(* ===== verification/RetentionLaws.thy ===== *)
theory RetentionLaws
  imports RetentionJournal
begin

text \<open>
  Laws of the retention journal. \<open>retentionGrows\<close> relates a journal to a later one;
  \<open>denialsClosed\<close> is its invariant. Every table provides the contract \<open>append_only\<close>, so
  that evidence once recorded is the same in every later state.
\<close>

section \<open>Tables are written once\<close>

lemma recordOnce_cases:
  assumes "recordOnce label render key value table = Inr table'"
  shows "(map_of table key = None \<and> table' = table @ [(key, value)]) \<or>
    (\<exists>existing. map_of table key = Some existing \<and> table' = table \<and> canon (render existing) = canon (render value))"
  using assms
  by (auto simp: recordOnce_def replayEqual_def result_simps bindR_if mapSet_new map_of_eq_None_iff split: option.splits)

lemma recordOnce_prefix: "recordOnce label render key value table = Inr table' \<Longrightarrow> prefix table table'"
  by (drule recordOnce_cases) auto

lemma recordOnce_present: "recordOnce label render key value table = Inr table' \<Longrightarrow> key \<in> fst ` set table'"
  by (drule recordOnce_cases) (force dest: map_of_SomeD)

lemma setIfAbsent_prefix [simp]: "prefix table (setIfAbsent key value table)"
  by (auto simp: setIfAbsent_def mapSet_new map_of_eq_None_iff)

lemma lineage_mapSet:
  "lineageOf (J\<lparr>jDerivedOwnership := mapSet i l (jDerivedOwnership J)\<rparr>) k = (if k = i then l else lineageOf J k)"
  by (simp add: lineageOf_def map_of_mapSet)


section \<open>Growth\<close>

definition retentionGrows :: "MemoryArtifactRetentionJournal \<Rightarrow> MemoryArtifactRetentionJournal \<Rightarrow> bool" where
  "retentionGrows J J' \<longleftrightarrow>
     prefix (jOwnership J) (jOwnership J') \<and> prefix (jStops J) (jStops J') \<and> prefix (jPlans J) (jPlans J') \<and>
     prefix (jAttempts J) (jAttempts J') \<and> prefix (jTombstones J) (jTombstones J') \<and> prefix (jReceipts J) (jReceipts J') \<and>
     prefix (jReceiptRevalidations J) (jReceiptRevalidations J') \<and>
     prefix (jRevalidationCheckpoints J) (jRevalidationCheckpoints J') \<and> prefix (jCheckpoints J) (jCheckpoints J') \<and>
     set (jProviderDenials J) \<subseteq> set (jProviderDenials J') \<and> set (jDigestDenials J) \<subseteq> set (jDigestDenials J') \<and>
     set (jDerivedDenials J) \<subseteq> set (jDerivedDenials J') \<and> (\<forall>i. set (lineageOf J i) \<subseteq> set (lineageOf J' i))"

lemma retentionGrows_refl [simp]: "retentionGrows J J"
  by (simp add: retentionGrows_def)

lemma retentionGrows_trans: "retentionGrows J J' \<Longrightarrow> retentionGrows J' J'' \<Longrightarrow> retentionGrows J J''"
  unfolding retentionGrows_def by (auto intro: prefix_order.trans) blast

lemma registerOwnership_grows:
  assumes "registerOwnershipAndApplyActiveStop v J = Inr (J', ok)"
  shows "retentionGrows J J'"
proof -
  obtain t where "recordOnce ''Ownership'' ownership_json (ownershipId v) v (jOwnership J) = Inr t"
    using assms by (auto simp: registerOwnershipAndApplyActiveStop_def result_simps)
  with recordOnce_prefix [OF this] assms show ?thesis
    by (auto simp: registerOwnershipAndApplyActiveStop_def retentionGrows_def Let_def lineageOf_def map_of_mapSet
        split: if_splits option.splits)
qed

lemma registerDerived_grows:
  assumes "registerDerivedLineageAndApplyActiveStop i ds J = Inr (J', ok)"
  shows "retentionGrows J J'"
  using assms
  by (auto simp: registerDerivedLineageAndApplyActiveStop_def retentionGrows_def Let_def lineageOf_def map_of_mapSet
      split: if_splits option.splits)

lemma recordStop_grows: "recordStopAndDenials lc s ds J = Inr J' \<Longrightarrow> retentionGrows J J'"
  by (auto simp: recordStopAndDenials_def retentionGrows_def result_simps lineageOf_def dest: recordOnce_prefix)

lemma evidence_grows:
  "recordPlan p J = Inr J' \<Longrightarrow> retentionGrows J J'"
  "recordAttempt a J = Inr J' \<Longrightarrow> retentionGrows J J'"
  "recordTombstone t J = Inr J' \<Longrightarrow> retentionGrows J J'"
  "recordReceipt r J = Inr J' \<Longrightarrow> retentionGrows J J'"
  "recordCheckpoint c J = Inr J' \<Longrightarrow> retentionGrows J J'"
  by (auto simp: recordPlan_def recordAttempt_def recordTombstone_def recordReceipt_def recordCheckpoint_def
      retentionGrows_def result_simps lineageOf_def dest: recordOnce_prefix)

lemma revalidation_grows:
  "recordReceiptRevalidation v J = Inr J' \<Longrightarrow> retentionGrows J J'"
  "recordReceiptRevalidationAndCheckpoint v c J = Inr J' \<Longrightarrow> retentionGrows J J'"
  by (auto simp: recordReceiptRevalidation_def recordReceiptRevalidationAndCheckpoint_def retentionGrows_def
      result_simps lineageOf_def mapSet_new map_of_eq_None_iff split: if_splits option.splits)

lemma attemptOperation_grows: "attemptOperation lc op J = Inr J' \<Longrightarrow> retentionGrows J J'"
  by (cases op) (auto simp: result_simps intro: registerOwnership_grows registerDerived_grows recordStop_grows
      evidence_grows revalidation_grows)

lemma performOperation_grows: "retentionGrows J (performOperation lc op J)"
  by (auto simp: performOperation_def attemptOperation_grows split: sum.splits)

lemma history_grows_retention: "retentionGrows J (fold (performOperation lc) ops J)"
  by (induction ops arbitrary: J) (auto intro: retentionGrows_trans performOperation_grows)

lemma denied_later:
  assumes "retentionGrows J J'"
  shows "providerUseDenied lane p J \<Longrightarrow> providerUseDenied lane p J'" "digestUseDenied d J \<Longrightarrow> digestUseDenied d J'"
    "derivedUseDenied i J \<Longrightarrow> derivedUseDenied i J'" "hasTombstone d J \<Longrightarrow> hasTombstone d J'"
proof -
  have tombs: "set (jTombstones J) \<subseteq> set (jTombstones J')" using assms by (simp add: retentionGrows_def set_mono_prefix)
  then show "hasTombstone d J \<Longrightarrow> hasTombstone d J'" unfolding hasTombstone_def by blast
  with assms show "digestUseDenied d J \<Longrightarrow> digestUseDenied d J'" unfolding digestUseDenied_def retentionGrows_def by blast
qed (insert assms, auto simp: retentionGrows_def providerUseDenied_def derivedUseDenied_def)

interpretation retainedPlans: append_only "performOperation lc" jPlans "\<lambda>_. True" for lc
  using performOperation_grows by unfold_locales (auto simp: retentionGrows_def)

interpretation retainedReceipts: append_only "performOperation lc" jReceipts "\<lambda>_. True" for lc
  using performOperation_grows by unfold_locales (auto simp: retentionGrows_def)

interpretation retainedTombstones: append_only "performOperation lc" jTombstones "\<lambda>_. True" for lc
  using performOperation_grows by unfold_locales (auto simp: retentionGrows_def)


section \<open>Denials are closed\<close>

definition denialsClosed :: "MemoryArtifactRetentionJournal \<Rightarrow> bool" where
  "denialsClosed J \<longleftrightarrow> (\<forall>e \<in> set (jOwnership J).
     providerUseDenied (ownLane (snd e)) (ownProviderId (snd e)) J \<longrightarrow> ownArtifactDigest (snd e) \<in> set (jDigestDenials J))"

lemma providerDenialKey_inj: "providerDenialKey lane p = providerDenialKey lane' p' \<longleftrightarrow> lane = lane' \<and> p = p'"
  by (cases lane; cases lane') (auto simp: providerDenialKey_def js_def)

lemma set_selectOwnership: "set (selectOwnership lc P J) = withDerived J ` {v \<in> snd ` set (jOwnership J). P v}"
  by (auto simp: selectOwnership_def)

lemma withDerived_fields [simp]:
  "ownLane (withDerived J v) = ownLane v" "ownProviderId (withDerived J v) = ownProviderId v"
  "ownArtifactDigest (withDerived J v) = ownArtifactDigest v" "ownershipId (withDerived J v) = ownershipId v"
  "ownExpiresAtMs (withDerived J v) = ownExpiresAtMs v"
  by (simp_all add: withDerived_def)

lemma registerOwnership_closed:
  assumes "registerOwnershipAndApplyActiveStop v J = Inr (J', ok)" "denialsClosed J"
  shows "denialsClosed J'"
proof -
  obtain t where t: "recordOnce ''Ownership'' ownership_json (ownershipId v) v (jOwnership J) = Inr t"
    using assms(1) by (auto simp: registerOwnershipAndApplyActiveStop_def result_simps)
  have sub: "set t \<subseteq> insert (ownershipId v, v) (set (jOwnership J))" using recordOnce_cases [OF t] by auto
  have J': "jOwnership J' = t" "jProviderDenials J' = jProviderDenials J"
    "set (jDigestDenials J') = set (jDigestDenials J) \<union>
       (if providerUseDenied (ownLane v) (ownProviderId v) J then {ownArtifactDigest v} else {})"
    using assms(1) t by (auto simp: registerOwnershipAndApplyActiveStop_def Let_def split: if_splits)
  show ?thesis unfolding denialsClosed_def
  proof
    fix e assume "e \<in> set (jOwnership J')"
    with sub J'(1) have "e \<in> set (jOwnership J) \<or> snd e = v" by auto
    with assms(2) show "providerUseDenied (ownLane (snd e)) (ownProviderId (snd e)) J' \<longrightarrow>
        ownArtifactDigest (snd e) \<in> set (jDigestDenials J')"
      unfolding denialsClosed_def J'(3) by (auto simp: providerUseDenied_def J'(2))
  qed
qed

lemma set_listOwnership_digests:
  "ownArtifactDigest ` set (listOwnership lc lane p J) =
     {ownArtifactDigest v |v. v \<in> snd ` set (jOwnership J) \<and> ownLane v = lane \<and> ownProviderId v = p}"
  unfolding listOwnership_def set_selectOwnership by (auto simp: image_iff) (metis snd_conv withDerived_fields(3))+

lemma recordStop_closed:
  assumes "recordStopAndDenials lc s ds J = Inr J'" "denialsClosed J"
  shows "denialsClosed J'"
proof -
  have J': "jOwnership J' = jOwnership J"
    "set (jProviderDenials J') = insert (providerDenialKey (stopLane s) (stopProviderId s)) (set (jProviderDenials J))"
    "set (jDigestDenials J') = ownArtifactDigest ` set (listOwnership lc (stopLane s) (stopProviderId s) J) \<union> set (jDigestDenials J)"
    using assms(1) by (auto simp: recordStopAndDenials_def result_simps)
  show ?thesis
    using assms(2) unfolding denialsClosed_def providerUseDenied_def J' set_listOwnership_digests
    by (auto simp: providerDenialKey_inj)
qed

lemma other_closed:
  assumes "attemptOperation lc op J = Inr J'" "denialsClosed J"
    and "\<And>v. op \<noteq> RegisterOwnership v" "\<And>s ds. op \<noteq> RecordStop s ds"
  shows "denialsClosed J'"
proof -
  have "jOwnership J' = jOwnership J \<and> jProviderDenials J' = jProviderDenials J \<and> jDigestDenials J' = jDigestDenials J"
    using assms(1,3,4)
    by (cases op) (auto simp: result_simps registerDerivedLineageAndApplyActiveStop_def recordPlan_def recordAttempt_def
        recordTombstone_def recordReceipt_def recordReceiptRevalidation_def recordReceiptRevalidationAndCheckpoint_def
        recordCheckpoint_def Let_def split: option.splits if_splits)
  with assms(2) show ?thesis by (simp add: denialsClosed_def providerUseDenied_def)
qed

lemma performOperation_closed: "denialsClosed J \<Longrightarrow> denialsClosed (performOperation lc op J)"
proof (cases "attemptOperation lc op J")
  case (Inr J')
  assume closed: "denialsClosed J"
  show ?thesis
  proof (cases op)
    case (RegisterOwnership v)
    with Inr closed show ?thesis
      by (auto simp: performOperation_def result_simps intro: registerOwnership_closed)
  next
    case (RecordStop s ds)
    with Inr closed show ?thesis by (auto simp: performOperation_def intro: recordStop_closed)
  qed (insert Inr closed other_closed [OF Inr closed], auto simp: performOperation_def)
qed (simp add: performOperation_def)

lemma history_closed: "denialsClosed J \<Longrightarrow> denialsClosed (fold (performOperation lc) ops J)"
  by (induction ops arbitrary: J) (auto intro: performOperation_closed)

lemma new_journal_closed: "createMemoryArtifactRetentionJournal authority = Inr J \<Longrightarrow> denialsClosed J"
  by (auto simp: createMemoryArtifactRetentionJournal_def denialsClosed_def bindR_if)

end
