(* ===== verification/RetentionController.thy ===== *)
theory RetentionController
  imports RetentionLaws PageIdentity
begin

text \<open>
  The retention controller (\<^verbatim>\<open>src/adapters/market-acquisition/retention/controller.ts\<close>): use of
  retained artifacts, registration of ownership and lineage, and the enforcement of a stop, which
  denies a provider, erases every copy of its artifacts and returns a receipt.

  The operations are asynchronous. An action is a function on the journal, the coordinator shared by
  the tasks, and a world outside; the world answers the calls of the artifact boundary, the clock
  and the fault boundary. At every \<open>await\<close> the world also says which steps other tasks take
  before the controller goes on: any calls of the journal, leases and stops. A throw keeps what was
  written before it. Stop handlers and idle waiters are code of other tasks and are part of these
  steps; the serialisation of stops (\<open>stopTail\<close>) is one more \<open>await\<close>.

  \<open>#enforceStop\<close> calls itself when an ownership was registered while it erased; the loop
  \<open>settleStop\<close> is therefore \<open>partial_function (option)\<close>, with \<open>None\<close> for a call that never
  returns because other tasks keep registering.
\<close>

section \<open>Actions\<close>

record RetentionCoordinator =
  admissionClosed :: bool
  pendingStops :: int
  activeOperations :: int

record 'w RetentionState =
  rsJournal :: MemoryArtifactRetentionJournal
  rsCoordinator :: RetentionCoordinator
  rsWorld :: 'w

definition enterStop :: "RetentionCoordinator \<Rightarrow> RetentionCoordinator" where
  "enterStop C = C\<lparr>pendingStops := pendingStops C + 1, admissionClosed := True\<rparr>"

definition leaveStop :: "RetentionCoordinator \<Rightarrow> RetentionCoordinator" where
  "leaveStop C = C\<lparr>pendingStops := pendingStops C - 1,
     admissionClosed := (if pendingStops C - 1 = 0 then False else admissionClosed C)\<rparr>"

definition beginOperation :: "RetentionCoordinator \<Rightarrow> RetentionCoordinator" where
  "beginOperation C = C\<lparr>activeOperations := activeOperations C + 1\<rparr>"

definition releaseOperation :: "RetentionCoordinator \<Rightarrow> RetentionCoordinator" where
  "releaseOperation C = C\<lparr>activeOperations := activeOperations C - 1\<rparr>"

datatype OtherStep = OtherJournal RetentionOperation | OtherBegin | OtherRelease | OtherEnterStop | OtherLeaveStop

fun otherStep :: "collation \<Rightarrow> OtherStep \<Rightarrow> 'w RetentionState \<Rightarrow> 'w RetentionState" where
  "otherStep lc (OtherJournal op) s = s\<lparr>rsJournal := performOperation lc op (rsJournal s)\<rparr>"
| "otherStep lc OtherBegin s = s\<lparr>rsCoordinator := beginOperation (rsCoordinator s)\<rparr>"
| "otherStep lc OtherRelease s = s\<lparr>rsCoordinator := releaseOperation (rsCoordinator s)\<rparr>"
| "otherStep lc OtherEnterStop s = s\<lparr>rsCoordinator := enterStop (rsCoordinator s)\<rparr>"
| "otherStep lc OtherLeaveStop s = s\<lparr>rsCoordinator := leaveStop (rsCoordinator s)\<rparr>"

record 'w RetentionBoundary =
  localeCompare :: collation
  clockNow :: "'w \<Rightarrow> int \<times> 'w"
  settleActiveReadersAndWriters :: "'w \<Rightarrow> bool result \<times> 'w"
  eraseDigestCopies :: "jsstring \<Rightarrow> 'w \<Rightarrow> ErasureResult result \<times> 'w"
  verifyDigestCopiesAbsent :: "jsstring \<Rightarrow> 'w \<Rightarrow> bool result \<times> 'w"
  faultBoundary :: "jsstring \<Rightarrow> 'w \<Rightarrow> unit result \<times> 'w"
  awaitIdle :: "int \<Rightarrow> 'w \<Rightarrow> bool \<times> 'w"
  otherTasks :: "'w \<Rightarrow> OtherStep list \<times> 'w"

type_synonym ('w, 'a) action = "'w RetentionState \<Rightarrow> 'w RetentionState \<times> 'a result"

definition returnA :: "'a \<Rightarrow> ('w, 'a) action" where "returnA x s = (s, Inr x)"
definition throwA :: "error \<Rightarrow> ('w, 'a) action" where "throwA e s = (s, Inl e)"
definition liftA :: "'a result \<Rightarrow> ('w, 'a) action" where "liftA r s = (s, r)"

definition bindA :: "('w, 'a) action \<Rightarrow> ('a \<Rightarrow> ('w, 'b) action) \<Rightarrow> ('w, 'b) action" where
  "bindA m f s = (case m s of (s', Inl e) \<Rightarrow> (s', Inl e) | (s', Inr x) \<Rightarrow> f x s')"

definition catchA :: "('w, 'a) action \<Rightarrow> (error \<Rightarrow> ('w, 'a) action) \<Rightarrow> ('w, 'a) action" where
  "catchA m f s = (case m s of (s', Inl e) \<Rightarrow> f e s' | (s', Inr x) \<Rightarrow> (s', Inr x))"

definition finallyA :: "('w, 'a) action \<Rightarrow> ('w RetentionState \<Rightarrow> 'w RetentionState) \<Rightarrow> ('w, 'a) action" where
  "finallyA m f s = (case m s of (s', r) \<Rightarrow> (f s', r))"

fun forA :: "('x \<Rightarrow> ('w, unit) action) \<Rightarrow> 'x list \<Rightarrow> ('w, unit) action" where
  "forA f [] = returnA ()"
| "forA f (x # xs) = bindA (f x) (\<lambda>_. forA f xs)"

definition readA :: "(MemoryArtifactRetentionJournal \<Rightarrow> 'a) \<Rightarrow> ('w, 'a) action" where
  "readA f s = (s, Inr (f (rsJournal s)))"

definition writeA :: "(MemoryArtifactRetentionJournal \<Rightarrow> MemoryArtifactRetentionJournal result) \<Rightarrow> ('w, unit) action" where
  "writeA f s = (case f (rsJournal s) of Inl e \<Rightarrow> (s, Inl e) | Inr J \<Rightarrow> (s\<lparr>rsJournal := J\<rparr>, Inr ()))"

definition registerA ::
  "(MemoryArtifactRetentionJournal \<Rightarrow> (MemoryArtifactRetentionJournal \<times> bool) result) \<Rightarrow> ('w, bool) action" where
  "registerA f s = (case f (rsJournal s) of Inl e \<Rightarrow> (s, Inl e) | Inr (J, b) \<Rightarrow> (s\<lparr>rsJournal := J\<rparr>, Inr b))"

definition yieldA :: "'w RetentionBoundary \<Rightarrow> 'w RetentionState \<Rightarrow> 'w RetentionState" where
  "yieldA B s = (case otherTasks B (rsWorld s) of (steps, w) \<Rightarrow> fold (otherStep (localeCompare B)) steps (s\<lparr>rsWorld := w\<rparr>))"

definition awaitA :: "'w RetentionBoundary \<Rightarrow> ('w \<Rightarrow> 'a result \<times> 'w) \<Rightarrow> ('w, 'a) action" where
  "awaitA B f s = (case f (rsWorld s) of (r, w) \<Rightarrow> (yieldA B (s\<lparr>rsWorld := w\<rparr>), r))"

definition faultA :: "'w RetentionBoundary \<Rightarrow> jsstring \<Rightarrow> ('w, unit) action" where
  "faultA B checkpoint = awaitA B (faultBoundary B checkpoint)"

text \<open>An error carries its reason and stage; the hash of the details that goes with it is left out.\<close>

definition safeAcquisitionError :: "string \<Rightarrow> string \<Rightarrow> error" where
  "safeAcquisitionError reason stage = CodedError reason stage"

definition failA :: "string \<Rightarrow> string \<Rightarrow> ('w, 'a) action" where
  "failA reason stage = throwA (safeAcquisitionError reason stage)"

definition trustedNow :: "'w RetentionBoundary \<Rightarrow> ('w, int) action" where
  "trustedNow B s = (case clockNow B (rsWorld s) of (t, w) \<Rightarrow>
     (s\<lparr>rsWorld := w\<rparr>, if safeTime t then Inr t else Inl (RangeError ''Trusted retention time is invalid'')))"


section \<open>Checks\<close>

definition retentionId :: "jsstring \<Rightarrow> bool" where
  "retentionId s \<longleftrightarrow>
     (let w = take (length s - 65) s in
      66 \<le> length s \<and> hash64 (drop (length s - 64) s) \<and> s ! (length s - 65) = 95 \<and>
      is_az (hd w) \<and> list_all (\<lambda>c. is_az c \<or> is_digit c) (tl w))"

definition retentionPolicyId :: "jsstring \<Rightarrow> bool" where
  "retentionPolicyId s \<longleftrightarrow> 1 \<le> length s \<and> length s \<le> 128 \<and> (is_az (hd s) \<or> is_digit (hd s)) \<and>
     list_all (\<lambda>c. is_az c \<or> is_digit c \<or> c = 45) (tl s)"

definition sortedUnique :: "jsstring list \<Rightarrow> jsstring list result" where
  "sortedUnique values =
     (let sorted' = sortBy (\<lambda>left right. orderOf (utf8 left) (utf8 right)) values in
      if list_ex (\<lambda>i. sorted' ! (i - 1) = sorted' ! i) [1..<length sorted']
      then Inl (TypeError ''Retention identifier sets must be unique'') else Inr sorted')"

definition sortedSet :: "collation \<Rightarrow> jsstring list \<Rightarrow> jsstring list" where
  "sortedSet lc values = sortBy lc (addAll values [])"

definition assertSafeTime :: "int \<Rightarrow> unit result" where
  "assertSafeTime value = assertR (safeTime value) (RangeError ''time is invalid'')"

definition assertId :: "jsstring \<Rightarrow> unit result" where
  "assertId value = assertR (retentionId value) (TypeError ''identifier is invalid'')"

definition assertArtifactDigest :: "jsstring \<Rightarrow> unit result" where
  "assertArtifactDigest value = assertR (hash64 value) ZodError"

definition policyFor :: "RetentionProviderLane \<Rightarrow> PrivateArtifactPolicy" where
  "policyFor lane = (if lane = LaneAlpaca then ALPACA_PRIVATE_ARTIFACT_POLICY else FMP_PRIVATE_ARTIFACT_POLICY)"

definition validateOwnership :: "bool \<Rightarrow> OwnershipInput \<Rightarrow> unit result" where
  "validateOwnership testAuthority value =
     (if ownPolicyId value \<noteq> ALPACA_RETENTION_POLICY_ID \<and> ownPolicyId value \<noteq> FMP_RETENTION_POLICY_ID
      then Inl (safeAcquisitionError ''retention-policy-invalid'' ''retention-plan'')
      else if ownLane value = LaneFmp \<and> ownPolicyId value \<noteq> FMP_RETENTION_POLICY_ID
      then Inl (safeAcquisitionError ''retention-policy-invalid'' ''retention-plan'')
      else if ownLane value = LaneAlpaca \<and> ownPolicyId value \<noteq> ALPACA_RETENTION_POLICY_ID
      then Inl (safeAcquisitionError ''retention-policy-invalid'' ''retention-plan'')
      else bindR (mapR assertId [ownProviderId value, ownDatasetId value, ownFeedId value, ownEndpointChannelId value]) (\<lambda>_.
      if \<not> hash64 (ownArtifactObservationId value) \<and> \<not> (testAuthority \<and> retentionId (ownArtifactObservationId value))
      then Inl (TypeError ''Observation is invalid'')
      else bindR (assertArtifactDigest (ownArtifactDigest value)) (\<lambda>_.
      bindR (mapR assertId (ownDerivedIds value)) (\<lambda>_.
      bindR (sortedUnique (ownDerivedIds value)) (\<lambda>_.
      bindR (assertSafeTime (ownTrustedCaptureMs value)) (\<lambda>_.
      bindR (assertSafeTime (ownExpiresAtMs value)) (\<lambda>_.
      if \<not> isSafeInteger (ownArtifactSizeBytes value) \<or> ownArtifactSizeBytes value < 0 \<or>
         ownExpiresAtMs value < ownTrustedCaptureMs value
      then Inl (RangeError ''Retention ownership bounds are invalid'')
      else let maximumExpiry = dadd (ownTrustedCaptureMs value) (maximumRetentionMs (policyFor (ownLane value))) in
      if \<not> isSafeInteger maximumExpiry \<or> maximumExpiry < ownExpiresAtMs value
      then Inl (safeAcquisitionError ''retention-policy-invalid'' ''retention-plan'')
      else Inr ())))))))"

definition validateStop :: "StopInput \<Rightarrow> unit result" where
  "validateStop value =
     (if \<not> retentionPolicyId (stopPolicyId value) then Inl (TypeError ''Retention policy is invalid'')
      else bindR (assertId (stopProviderId value)) (\<lambda>_.
      bindR (assertSafeTime (stopEffectiveAtMs value)) (\<lambda>_.
      bindR (assertSafeTime (stopDeadlineMs value)) (\<lambda>_.
      if stopDeadlineMs value < stopEffectiveAtMs value
      then Inl (safeAcquisitionError ''retention-policy-invalid'' ''retention-stop'')
      else let policy = policyFor (stopLane value) in
      if stopPolicyId value \<noteq> policyId policy \<or>
         dadd (stopEffectiveAtMs value) (stopGraceMs policy) < stopDeadlineMs value
      then Inl (safeAcquisitionError ''retention-policy-invalid'' ''retention-stop'')
      else Inr ()))))"

definition assertDeadline :: "'w RetentionBoundary \<Rightarrow> int \<Rightarrow> ('w, unit) action" where
  "assertDeadline B deadlineMs =
     bindA (trustedNow B) (\<lambda>now.
     if deadlineMs < now then failA ''retention-deadline-breached'' ''retention-erase'' else returnA ())"


section \<open>Use of artifacts\<close>

definition assertArtifactUseAllowedNow :: "'w RetentionBoundary \<Rightarrow> jsstring \<Rightarrow> ('w, unit) action" where
  "assertArtifactUseAllowedNow B artifactDigest =
     bindA (liftA (assertArtifactDigest artifactDigest)) (\<lambda>_.
     bindA (trustedNow B) (\<lambda>now.
     bindA (readA (ownershipForDigest (localeCompare B) artifactDigest)) (\<lambda>ownership.
     bindA (readA (digestUseDenied artifactDigest)) (\<lambda>denied.
     if ownership = [] \<or> denied \<or> list_ex (\<lambda>value. ownExpiresAtMs value \<le> now) ownership
     then failA ''retention-stop-required'' ''artifact-verify'' else returnA ()))))"

definition assertDerivedUseAllowedNow :: "'w RetentionBoundary \<Rightarrow> jsstring \<Rightarrow> ('w, unit) action" where
  "assertDerivedUseAllowedNow B derivedId =
     bindA (liftA (assertId derivedId)) (\<lambda>_.
     bindA (trustedNow B) (\<lambda>now.
     bindA (readA (ownershipForDerivedId (localeCompare B) derivedId)) (\<lambda>ownership.
     bindA (readA (derivedUseDenied derivedId)) (\<lambda>denied.
     if ownership = [] \<or> denied \<or> list_ex (\<lambda>value. ownExpiresAtMs value \<le> now) ownership
     then failA ''retention-stop-required'' ''normalization'' else returnA ()))))"

definition admissionA :: "string \<Rightarrow> ('w, unit) action" where
  "admissionA stage s = (if admissionClosed (rsCoordinator s) then failA ''retention-stop-required'' stage s else returnA () s)"

definition assertArtifactUseAllowed :: "'w RetentionBoundary \<Rightarrow> jsstring \<Rightarrow> ('w, unit) action" where
  "assertArtifactUseAllowed B artifactDigest =
     bindA (admissionA ''artifact-verify'') (\<lambda>_. assertArtifactUseAllowedNow B artifactDigest)"

definition assertDerivedUseAllowed :: "'w RetentionBoundary \<Rightarrow> jsstring \<Rightarrow> ('w, unit) action" where
  "assertDerivedUseAllowed B derivedId =
     bindA (admissionA ''normalization'') (\<lambda>_. assertDerivedUseAllowedNow B derivedId)"

text \<open>A lease is the pair of sets it was opened for; \<open>assertAllowed\<close> checks them again.\<close>

definition assertAllowed :: "'w RetentionBoundary \<Rightarrow> jsstring list \<Rightarrow> jsstring list \<Rightarrow> ('w, unit) action" where
  "assertAllowed B digests derived =
     bindA (admissionA ''artifact-verify'') (\<lambda>_.
     bindA (if digests = [] \<and> derived = []
            then bindA (trustedNow B) (\<lambda>now. bindA (readA (reconciliationUseDenied now)) (\<lambda>denied.
              if denied then failA ''retention-stop-required'' ''artifact-verify'' else returnA ()))
            else returnA ()) (\<lambda>_.
     bindA (forA (assertArtifactUseAllowedNow B) digests) (\<lambda>_.
     forA (assertDerivedUseAllowedNow B) derived)))"

definition beginUse :: "'w RetentionBoundary \<Rightarrow> jsstring list \<Rightarrow> jsstring list \<Rightarrow> ('w, jsstring list \<times> jsstring list) action" where
  "beginUse B artifactDigests derivedIds =
     (let digests = sortedSet (localeCompare B) artifactDigests; derived = sortedSet (localeCompare B) derivedIds in
      bindA (assertAllowed B digests derived) (\<lambda>_ s.
        (s\<lparr>rsCoordinator := beginOperation (rsCoordinator s)\<rparr>, Inr (digests, derived))))"

definition releaseUse :: "'w RetentionState \<Rightarrow> 'w RetentionState" where
  "releaseUse s = s\<lparr>rsCoordinator := releaseOperation (rsCoordinator s)\<rparr>"

definition ownershipRecord :: "OwnershipInput \<Rightarrow> jsstring \<Rightarrow> RetentionOwnership" where
  "ownershipRecord input i = OwnershipInput.extend input \<lparr>ownershipId = i\<rparr>"

definition registerOwnershipInternal ::
  "'w RetentionBoundary \<Rightarrow> externals \<Rightarrow> bool \<Rightarrow> OwnershipInput \<Rightarrow> ('w, RetentionOwnership) action" where
  "registerOwnershipInternal B X testAuthority input =
     bindA (liftA (validateOwnership testAuthority input)) (\<lambda>_.
     bindA (liftA (sortedUnique (ownDerivedIds input))) (\<lambda>derived.
     bindA (liftA (deriveRetentionOwnershipId X (input\<lparr>ownDerivedIds := derived\<rparr>))) (\<lambda>i.
     let value = ownershipRecord (input\<lparr>ownDerivedIds := derived\<rparr>) i in
     bindA (registerA (registerOwnershipAndApplyActiveStop value)) (\<lambda>allowed.
     if \<not> allowed then failA ''retention-stop-required'' ''retention-stop'' else returnA value))))"

definition registerOwnership ::
  "'w RetentionBoundary \<Rightarrow> externals \<Rightarrow> bool \<Rightarrow> OwnershipInput \<Rightarrow> ('w, RetentionOwnership) action" where
  "registerOwnership B X testAuthority input =
     (if \<not> testAuthority then throwA (TypeError ''retention-owned-mutation-required'')
      else registerOwnershipInternal B X testAuthority input)"

text \<open>Undoing a commit whose use is no longer allowed: erase, and insist on the proof of absence.\<close>

definition rollbackCommit :: "'w RetentionBoundary \<Rightarrow> jsstring \<Rightarrow> ('w, unit) action" where
  "rollbackCommit B artifactDigest =
     catchA (bindA (awaitA B (eraseDigestCopies B artifactDigest)) (\<lambda>_.
       bindA (awaitA B (verifyDigestCopiesAbsent B artifactDigest)) (\<lambda>absent.
       if absent then returnA () else throwA (PlainError ''retention-commit-rollback-unprovable''))))
     (\<lambda>_. failA ''retention-erasure-unprovable'' ''retention-erase'')"

definition commitArtifact ::
  "'w RetentionBoundary \<Rightarrow> externals \<Rightarrow> bool \<Rightarrow> OwnershipInput \<Rightarrow> ('w \<Rightarrow> 'a result \<times> 'w) \<Rightarrow> ('w, 'a) action" where
  "commitArtifact B X testAuthority input commit =
     bindA (liftA (validateOwnership testAuthority input)) (\<lambda>_.
     bindA (beginUse B [] []) (\<lambda>(digests, derived).
     finallyA
       (bindA (registerOwnershipInternal B X testAuthority input) (\<lambda>_.
        bindA (awaitA B commit) (\<lambda>artifact.
        catchA (bindA (assertAllowed B digests derived) (\<lambda>_.
          bindA (assertArtifactUseAllowedNow B (ownArtifactDigest input)) (\<lambda>_. returnA artifact)))
          (\<lambda>e. bindA (rollbackCommit B (ownArtifactDigest input)) (\<lambda>_. throwA e)))))
       releaseUse))"

definition registerDerivedLineageInternal ::
  "'w RetentionBoundary \<Rightarrow> jsstring list \<Rightarrow> jsstring list \<Rightarrow> ('w, unit) action" where
  "registerDerivedLineageInternal B artifactDigests derivedIds =
     (let digests = sortedSet (localeCompare B) artifactDigests in
      bindA (liftA (sortedUnique derivedIds)) (\<lambda>derived.
      if digests = [] \<or> derived = [] then failA ''retention-policy-invalid'' ''normalization''
      else bindA (beginUse B digests []) (\<lambda>(leaseDigests, leaseDerived).
      finallyA
        (bindA (forA (\<lambda>artifactDigest.
           bindA (readA (ownershipForDigest (localeCompare B) artifactDigest)) (\<lambda>ownership.
           if ownership = [] then failA ''retention-stop-required'' ''normalization''
           else forA (\<lambda>value. bindA (registerA (registerDerivedLineageAndApplyActiveStop (ownershipId value) derived)) (\<lambda>allowed.
             if \<not> allowed then failA ''retention-stop-required'' ''normalization'' else returnA ())) ownership)) digests) (\<lambda>_.
         bindA (assertAllowed B leaseDigests leaseDerived) (\<lambda>_.
         forA (assertDerivedUseAllowedNow B) derived)))
        releaseUse)))"


section \<open>Plans, receipts and checkpoints\<close>

definition buildPlan ::
  "externals \<Rightarrow> collation \<Rightarrow> StopInput \<Rightarrow> jsstring \<Rightarrow> RetentionOwnership list \<Rightarrow> RetentionErasurePlan result" where
  "buildPlan X lc input stopId ownership =
     (let planBody = \<lparr>planPolicyId = stopPolicyId input, planLane = stopLane input, planProviderId = stopProviderId input,
            planDatasetIds = sortedSet lc (map ownDatasetId ownership),
            planFeedIds = sortedSet lc (map ownFeedId ownership),
            planEndpointChannelIds = sortedSet lc (map ownEndpointChannelId ownership),
            planArtifactObservationIds = sortedSet lc (map ownArtifactObservationId ownership),
            planArtifactDigests = sortedSet lc (map ownArtifactDigest ownership),
            planDerivedIds = sortedSet lc (concat (map ownDerivedIds ownership)),
            planStopEventId = stopId, planEffectiveAtMs = stopEffectiveAtMs input,
            planDeadlineMs = stopDeadlineMs input, planPredecessorReceiptId = None\<rparr> in
      bindR (deriveRetentionPlanId X planBody) (\<lambda>i.
      let planWithoutHash = PlanBody.extend planBody \<lparr>planId = i\<rparr> in
      bindR (deriveRetentionPlanHash X planWithoutHash) (\<lambda>h.
      Inr (PlanWithoutHash.extend planWithoutHash \<lparr>planHash = h\<rparr>))))"

definition recomputeRetentionPlanHash :: "externals \<Rightarrow> RetentionErasurePlan \<Rightarrow> jsstring result" where
  "recomputeRetentionPlanHash X plan =
     canonicalHash X (js ''peas/market-acquisition-retention-plan-record/v1'') (planWithoutHash_json plan)"

definition sameStrings :: "jsstring list \<Rightarrow> jsstring list \<Rightarrow> bool result" where
  "sameStrings a b =
     bindR (canonicalJson (strings_json a)) (\<lambda>left. bindR (canonicalJson (strings_json b)) (\<lambda>right. Inr (left = right)))"

definition attemptKey :: "RetentionErasureAttempt \<Rightarrow> jsstring" where
  "attemptKey attempt = attemptArtifactDigest attempt @ 58 # intString (attemptOrdinal attempt)"

definition planAttempts :: "RetentionErasurePlan \<Rightarrow> MemoryArtifactRetentionJournal \<Rightarrow> RetentionErasureAttempt list" where
  "planAttempts plan J = concat (map (\<lambda>artifactDigest. attemptsFor (planId plan) artifactDigest J) (planArtifactDigests plan))"

definition physicalAttemptCount :: "RetentionErasurePlan \<Rightarrow> MemoryArtifactRetentionJournal \<Rightarrow> int" where
  "physicalAttemptCount plan J =
     int (length (addAll (map attemptKey (filter (\<lambda>attempt. attemptOutcome attempt \<noteq> AttemptStarted) (planAttempts plan J))) []))"

definition hasIncompletePhysicalAttempt :: "RetentionErasurePlan \<Rightarrow> MemoryArtifactRetentionJournal \<Rightarrow> bool" where
  "hasIncompletePhysicalAttempt plan J =
     list_ex (\<lambda>artifactDigest.
       let attempts = attemptsFor (planId plan) artifactDigest J in
       list_ex (\<lambda>started. attemptOutcome started = AttemptStarted \<and>
         \<not> list_ex (\<lambda>outcome. attemptOrdinal outcome = attemptOrdinal started \<and> attemptOutcome outcome \<noteq> AttemptStarted) attempts)
       attempts) (planArtifactDigests plan)"

text \<open>A disjunction of checks is evaluated from the left, up to the first that holds or throws.\<close>

fun rejectIf :: "string \<Rightarrow> (unit \<Rightarrow> bool result) list \<Rightarrow> unit result" where
  "rejectIf stage [] = Inr ()"
| "rejectIf stage (c # cs) =
     bindR (c ()) (\<lambda>bad. if bad then Inl (safeAcquisitionError ''retention-erasure-unprovable'' stage) else rejectIf stage cs)"

definition check :: "bool \<Rightarrow> unit \<Rightarrow> bool result" where "check b u = Inr b"

definition differs :: "jsstring list \<Rightarrow> jsstring list \<Rightarrow> unit \<Rightarrow> bool result" where
  "differs a b u = bindR (sameStrings a b) (\<lambda>same. Inr (\<not> same))"

definition idDiffers :: "jsstring result \<Rightarrow> jsstring \<Rightarrow> unit \<Rightarrow> bool result" where
  "idDiffers derived stored u = bindR derived (\<lambda>i. Inr (stored \<noteq> i))"

fun scanRevalidations ::
  "externals \<Rightarrow> RetentionErasurePlan \<Rightarrow> RetentionReceipt \<Rightarrow> int \<Rightarrow> RetentionReceipt \<Rightarrow>
    (RetentionReceiptRevalidation \<times> RetentionCheckpoint) list \<Rightarrow> RetentionReceipt result" where
  "scanRevalidations X plan baseReceipt index latest [] = Inr latest"
| "scanRevalidations X plan baseReceipt index latest ((value, checkpoint) # rest) =
     bindR (rejectIf ''retention-verify''
       [check (revalPlanId value \<noteq> planId plan), check (revalSequence value \<noteq> index + 1),
        check (revalPredecessorReceiptId value \<noteq> receiptId latest),
        check (revalRecordedAtMs value \<noteq> receiptCompletedAtMs (revalReceipt value)),
        check (receiptPlanId (revalReceipt value) \<noteq> planId plan), check (receiptPlanHash (revalReceipt value) \<noteq> planHash plan),
        differs (receiptArtifactDigests (revalReceipt value)) (planArtifactDigests plan),
        differs (receiptArtifactObservationIds (revalReceipt value)) (planArtifactObservationIds plan),
        check (receiptPriorSizeBytes (revalReceipt value) \<noteq> receiptPriorSizeBytes baseReceipt),
        check (receiptAttemptCount (revalReceipt value) \<le> receiptAttemptCount latest),
        check (receiptCompletedAtMs (revalReceipt value) < receiptCompletedAtMs latest),
        idDiffers (deriveRetentionReceiptId X (revalReceipt value)) (receiptId (revalReceipt value)),
        idDiffers (deriveRetentionReceiptRevalidationId X value) (revalidationId value)]) (\<lambda>_.
     bindR (rejectIf ''checkpoint''
       [check (checkPlanId checkpoint \<noteq> planId plan), check (checkReceiptId checkpoint \<noteq> receiptId (revalReceipt value)),
        check (checkSequence checkpoint \<noteq> revalSequence value),
        check (checkCompletedAtMs checkpoint \<noteq> receiptCompletedAtMs (revalReceipt value)),
        idDiffers (deriveRetentionCheckpointId X checkpoint) (checkpointId checkpoint)]) (\<lambda>_.
     scanRevalidations X plan baseReceipt (index + 1) (revalReceipt value) rest))"

definition latestReceipt ::
  "externals \<Rightarrow> RetentionErasurePlan \<Rightarrow> RetentionReceipt option \<Rightarrow> MemoryArtifactRetentionJournal \<Rightarrow> RetentionReceipt option result" where
  "latestReceipt X plan baseReceipt J =
     (let revalidations = receiptRevalidationsForPlan (planId plan) J in
      case baseReceipt of
        None \<Rightarrow>
          if revalidations \<noteq> [] then Inl (safeAcquisitionError ''retention-erasure-unprovable'' ''retention-verify'')
          else Inr None
      | Some base \<Rightarrow>
          bindR (rejectIf ''retention-verify''
            [check (receiptPlanId base \<noteq> planId plan), check (receiptPlanHash base \<noteq> planHash plan),
             differs (receiptArtifactDigests base) (planArtifactDigests plan),
             differs (receiptArtifactObservationIds base) (planArtifactObservationIds plan),
             check (\<not> safeTime (receiptPriorSizeBytes base)), check (\<not> safeTime (receiptAttemptCount base)),
             check (\<not> safeTime (receiptCompletedAtMs base)),
             idDiffers (deriveRetentionReceiptId X base) (receiptId base)]) (\<lambda>_.
          let checkpoints = revalidationCheckpointsForPlan (planId plan) J in
          if length checkpoints \<noteq> length revalidations
          then Inl (safeAcquisitionError ''retention-erasure-unprovable'' ''checkpoint'')
          else bindR (scanRevalidations X plan base 0 base (zip revalidations checkpoints)) (\<lambda>r. Inr (Some r))))"

definition checkpointRecord :: "externals \<Rightarrow> jsstring \<Rightarrow> jsstring \<Rightarrow> int \<Rightarrow> int \<Rightarrow> RetentionCheckpoint result" where
  "checkpointRecord X plan receipt sequence completedAtMs =
     (let body = \<lparr>checkPlanId = plan, checkReceiptId = receipt, checkSequence = sequence, checkCompletedAtMs = completedAtMs\<rparr> in
      bindR (deriveRetentionCheckpointId X body) (\<lambda>i. Inr (CheckpointBody.extend body \<lparr>checkpointId = i\<rparr>)))"

definition ensureCheckpoint ::
  "'w RetentionBoundary \<Rightarrow> externals \<Rightarrow> RetentionErasurePlan \<Rightarrow> RetentionReceipt \<Rightarrow> ('w, unit) action" where
  "ensureCheckpoint B X plan receipt =
     bindA (readA (getCheckpoint (planId plan))) (\<lambda>existing.
     case existing of
       Some c \<Rightarrow>
         if checkReceiptId c \<noteq> receiptId receipt then failA ''retention-erasure-unprovable'' ''checkpoint'' else returnA ()
     | None \<Rightarrow>
         bindA (liftA (checkpointRecord X (planId plan) (receiptId receipt) 0 (receiptCompletedAtMs receipt))) (\<lambda>checkpoint.
         bindA (writeA (recordCheckpoint checkpoint)) (\<lambda>_.
         bindA (readA (getCheckpoint (planId plan))) (\<lambda>reread.
         if map_option checkpointId reread \<noteq> Some (checkpointId checkpoint)
         then failA ''retention-erasure-unprovable'' ''checkpoint''
         else faultA B (js ''retention-checkpoint-committed-reread'')))))"

definition verifyDigestErased :: "'w RetentionBoundary \<Rightarrow> jsstring \<Rightarrow> ('w, unit) action" where
  "verifyDigestErased B artifactDigest =
     bindA (readA (\<lambda>J. digestUseDenied artifactDigest J \<and> hasTombstone artifactDigest J)) (\<lambda>recorded.
     if \<not> recorded then failA ''retention-erasure-unprovable'' ''retention-verify''
     else bindA (awaitA B (verifyDigestCopiesAbsent B artifactDigest)) (\<lambda>absent.
       if \<not> absent then failA ''retention-erasure-unprovable'' ''retention-verify'' else returnA ()))"

definition verifyPlanErased :: "'w RetentionBoundary \<Rightarrow> RetentionErasurePlan \<Rightarrow> ('w, unit) action" where
  "verifyPlanErased B plan =
     bindA (readA (providerUseDenied (planLane plan) (planProviderId plan))) (\<lambda>denied.
     if \<not> denied then failA ''retention-erasure-unprovable'' ''retention-verify''
     else bindA (forA (verifyDigestErased B) (planArtifactDigests plan)) (\<lambda>_.
       forA (\<lambda>derivedId. bindA (readA (derivedUseDenied derivedId)) (\<lambda>denied.
         if \<not> denied then failA ''retention-erasure-unprovable'' ''retention-verify'' else returnA ())) (planDerivedIds plan)))"


section \<open>Erasure of one digest\<close>

definition attemptRecord ::
  "externals \<Rightarrow> jsstring \<Rightarrow> jsstring \<Rightarrow> int \<Rightarrow> int \<Rightarrow> AttemptOutcome \<Rightarrow> RetentionErasureAttempt result" where
  "attemptRecord X plan artifactDigest ordinal startedAtMs outcome =
     (let body = \<lparr>attemptPlanId = plan, attemptArtifactDigest = artifactDigest, attemptOrdinal = ordinal,
            attemptStartedAtMs = startedAtMs, attemptOutcome = outcome\<rparr> in
      bindR (deriveRetentionAttemptId X body) (\<lambda>i. Inr (AttemptBody.extend body \<lparr>attemptId = i\<rparr>)))"

definition recordAttemptA ::
  "externals \<Rightarrow> jsstring \<Rightarrow> jsstring \<Rightarrow> int \<Rightarrow> int \<Rightarrow> AttemptOutcome \<Rightarrow> ('w, unit) action" where
  "recordAttemptA X plan artifactDigest ordinal startedAtMs outcome =
     bindA (liftA (attemptRecord X plan artifactDigest ordinal startedAtMs outcome)) (\<lambda>attempt. writeA (recordAttempt attempt))"

definition latestOrdinal :: "RetentionErasureAttempt list \<Rightarrow> int" where
  "latestOrdinal attempts = foldl (\<lambda>maximum value. max maximum (attemptOrdinal value)) (- 1) attempts"

definition latestRows :: "RetentionErasureAttempt list \<Rightarrow> RetentionErasureAttempt list" where
  "latestRows attempts = filter (\<lambda>value. attemptOrdinal value = latestOrdinal attempts) attempts"

definition pendingStarted :: "RetentionErasureAttempt list \<Rightarrow> RetentionErasureAttempt option" where
  "pendingStarted attempts =
     (if list_ex (\<lambda>value. attemptOutcome value \<noteq> AttemptStarted) (latestRows attempts) then None
      else find (\<lambda>value. attemptOutcome value = AttemptStarted) (latestRows attempts))"

definition completedAttempt :: "RetentionErasureAttempt list \<Rightarrow> bool" where
  "completedAttempt attempts =
     list_ex (\<lambda>value. attemptOutcome value = AttemptErased \<or> attemptOutcome value = AttemptAlreadyAbsent) (latestRows attempts)"

definition faultName :: "string \<Rightarrow> jsstring \<Rightarrow> jsstring" where
  "faultName label artifactDigest = js label @ 58 # artifactDigest"

definition physicalErasure ::
  "'w RetentionBoundary \<Rightarrow> externals \<Rightarrow> jsstring \<Rightarrow> jsstring \<Rightarrow> RetentionErasureAttempt list \<Rightarrow> ('w, unit) action" where
  "physicalErasure B X plan artifactDigest priorAttempts =
     bindA (case pendingStarted priorAttempts of
         Some pending \<Rightarrow> returnA (latestOrdinal priorAttempts, attemptStartedAtMs pending)
       | None \<Rightarrow>
           bindA (trustedNow B) (\<lambda>startedAtMs.
           bindA (recordAttemptA X plan artifactDigest (latestOrdinal priorAttempts + 1) startedAtMs AttemptStarted) (\<lambda>_.
           bindA (faultA B (faultName ''retention-erasure-attempt-started'' artifactDigest)) (\<lambda>_.
           returnA (latestOrdinal priorAttempts + 1, startedAtMs))))) (\<lambda>(ordinal, startedAtMs).
     bindA (catchA (awaitA B (eraseDigestCopies B artifactDigest)) (\<lambda>_.
         bindA (recordAttemptA X plan artifactDigest ordinal startedAtMs AttemptFailed) (\<lambda>_.
         failA ''retention-erasure-failed'' ''retention-erase''))) (\<lambda>erasure.
     bindA (recordAttemptA X plan artifactDigest ordinal startedAtMs
         (if alreadyAbsent erasure then AttemptAlreadyAbsent else AttemptErased)) (\<lambda>_.
     faultA B (faultName ''retention-physical-erasure-complete'' artifactDigest))))"

definition recordTombstoneA ::
  "'w RetentionBoundary \<Rightarrow> externals \<Rightarrow> jsstring \<Rightarrow> jsstring \<Rightarrow> ('w, unit) action" where
  "recordTombstoneA B X plan artifactDigest =
     bindA (readA (hasTombstone artifactDigest)) (\<lambda>present.
     if present then returnA ()
     else bindA (trustedNow B) (\<lambda>now.
       let body = \<lparr>tombPlanId = plan, tombArtifactDigest = artifactDigest, tombRecordedAtMs = now\<rparr> in
       bindA (liftA (deriveRetentionTombstoneId X body)) (\<lambda>i.
       bindA (writeA (recordTombstone (TombstoneBody.extend body \<lparr>tombstoneId = i\<rparr>))) (\<lambda>_.
       faultA B (faultName ''retention-tombstone-committed'' artifactDigest)))))"

definition eraseDigest ::
  "'w RetentionBoundary \<Rightarrow> externals \<Rightarrow> int \<Rightarrow> RetentionErasurePlan \<Rightarrow> jsstring \<Rightarrow> ('w, unit) action" where
  "eraseDigest B X deadlineMs plan artifactDigest =
     bindA (assertDeadline B deadlineMs) (\<lambda>_.
     bindA (readA (attemptsFor (planId plan) artifactDigest)) (\<lambda>priorAttempts.
     bindA (readA (hasTombstone artifactDigest)) (\<lambda>tombstoned.
     bindA (if pendingStarted priorAttempts = None \<and> tombstoned
            then awaitA B (verifyDigestCopiesAbsent B artifactDigest) else returnA False) (\<lambda>finished.
     if finished then returnA ()
     else bindA (if completedAttempt priorAttempts
                 then awaitA B (verifyDigestCopiesAbsent B artifactDigest) else returnA False) (\<lambda>completedAndAbsent.
       bindA (if completedAndAbsent then returnA () else physicalErasure B X (planId plan) artifactDigest priorAttempts) (\<lambda>_.
       recordTombstoneA B X (planId plan) artifactDigest))))))"


section \<open>Enforcement of a stop\<close>

definition receiptRecord :: "externals \<Rightarrow> ReceiptBody \<Rightarrow> RetentionReceipt result" where
  "receiptRecord X body = bindR (deriveRetentionReceiptId X body) (\<lambda>i. Inr (ReceiptBody.extend body \<lparr>receiptId = i\<rparr>))"

definition priorSizeBytes :: "RetentionOwnership list \<Rightarrow> int result" where
  "priorSizeBytes ownership =
     foldR (\<lambda>e sum. let total' = dadd sum (ownArtifactSizeBytes (snd e)) in
         if isSafeInteger total' then Inr total' else Inl (RangeError ''Retention byte total is unsafe''))
       (fold (\<lambda>value. mapSet (ownArtifactDigest value) value) ownership []) 0"

definition issueReceipt ::
  "'w RetentionBoundary \<Rightarrow> externals \<Rightarrow> RetentionErasurePlan \<Rightarrow> RetentionOwnership list \<Rightarrow> ('w, RetentionReceipt) action" where
  "issueReceipt B X plan ownership =
     bindA (liftA (priorSizeBytes ownership)) (\<lambda>size'.
     bindA (readA (\<lambda>J. int (length (addAll (map attemptKey (planAttempts plan J)) [])))) (\<lambda>attemptCount.
     bindA (trustedNow B) (\<lambda>completedAtMs.
     bindA (liftA (receiptRecord X \<lparr>receiptPlanId = planId plan, receiptPlanHash = planHash plan,
         receiptArtifactDigests = planArtifactDigests plan, receiptArtifactObservationIds = planArtifactObservationIds plan,
         receiptPriorSizeBytes = size', receiptAttemptCount = attemptCount, receiptCompletedAtMs = completedAtMs\<rparr>)) (\<lambda>receipt.
     bindA (writeA (recordReceipt receipt)) (\<lambda>_.
     bindA (readA (getReceiptForPlan (planId plan))) (\<lambda>reread.
     if map_option receiptId reread \<noteq> Some (receiptId receipt)
     then failA ''retention-erasure-unprovable'' ''retention-verify''
     else bindA (faultA B (js ''retention-receipt-committed-reread'')) (\<lambda>_.
       bindA (ensureCheckpoint B X plan receipt) (\<lambda>_. returnA receipt))))))))"

definition revalidateReceipt ::
  "'w RetentionBoundary \<Rightarrow> externals \<Rightarrow> RetentionErasurePlan \<Rightarrow> RetentionReceipt option \<Rightarrow> RetentionReceipt \<Rightarrow>
    ('w, RetentionReceipt) action" where
  "revalidateReceipt B X plan baseReceipt priorReceipt =
     (case baseReceipt of
        None \<Rightarrow> failA ''retention-erasure-unprovable'' ''retention-verify''
      | Some base \<Rightarrow>
          bindA (ensureCheckpoint B X plan base) (\<lambda>_.
          bindA (readA (physicalAttemptCount plan)) (\<lambda>attemptCount.
          if attemptCount < receiptAttemptCount priorReceipt then failA ''retention-erasure-unprovable'' ''retention-verify''
          else if attemptCount = receiptAttemptCount priorReceipt then returnA priorReceipt
          else bindA (trustedNow B) (\<lambda>completedAtMs.
            bindA (liftA (receiptRecord X \<lparr>receiptPlanId = receiptPlanId priorReceipt,
                receiptPlanHash = receiptPlanHash priorReceipt, receiptArtifactDigests = receiptArtifactDigests priorReceipt,
                receiptArtifactObservationIds = receiptArtifactObservationIds priorReceipt,
                receiptPriorSizeBytes = receiptPriorSizeBytes priorReceipt, receiptAttemptCount = attemptCount,
                receiptCompletedAtMs = completedAtMs\<rparr>)) (\<lambda>receipt.
            bindA (readA (receiptRevalidationsForPlan (planId plan))) (\<lambda>revalidations.
            let body = \<lparr>revalPlanId = planId plan, revalSequence = int (length revalidations) + 1,
                  revalPredecessorReceiptId = receiptId priorReceipt, revalReceipt = receipt,
                  revalRecordedAtMs = completedAtMs\<rparr> in
            bindA (liftA (deriveRetentionReceiptRevalidationId X body)) (\<lambda>i.
            bindA (liftA (checkpointRecord X (planId plan) (receiptId receipt) (revalSequence body) completedAtMs)) (\<lambda>checkpoint.
            bindA (writeA (recordReceiptRevalidationAndCheckpoint (RevalidationBody.extend body \<lparr>revalidationId = i\<rparr>) checkpoint)) (\<lambda>_.
            bindA (\<lambda>s. liftA (latestReceipt X plan baseReceipt (rsJournal s)) s) (\<lambda>reread.
            bindA (readA (revalidationCheckpointsForPlan (planId plan))) (\<lambda>checkpoints.
            if map_option receiptId reread \<noteq> Some (receiptId receipt)
            then failA ''retention-erasure-unprovable'' ''retention-verify''
            else if checkpoints = [] \<or> checkpointId (last checkpoints) \<noteq> checkpointId checkpoint \<or>
              checkReceiptId (last checkpoints) \<noteq> receiptId (the reread)
            then failA ''retention-erasure-unprovable'' ''checkpoint''
            else bindA (faultA B (js ''retention-revalidation-committed-reread'')) (\<lambda>_. returnA (the reread)))))))))))))"

text \<open>A receipt that still holds is returned again; any failure of its checks leads to repair.\<close>

definition reuseReceipt ::
  "'w RetentionBoundary \<Rightarrow> externals \<Rightarrow> RetentionErasurePlan \<Rightarrow> RetentionReceipt option \<Rightarrow> RetentionReceipt \<Rightarrow>
    ('w, RetentionReceipt option) action" where
  "reuseReceipt B X plan baseReceipt priorReceipt =
     catchA (bindA (verifyPlanErased B plan) (\<lambda>_.
       case baseReceipt of
         None \<Rightarrow> failA ''retention-erasure-unprovable'' ''retention-verify''
       | Some base \<Rightarrow>
           bindA (ensureCheckpoint B X plan base) (\<lambda>_.
           bindA (readA (\<lambda>J. receiptAttemptCount priorReceipt = physicalAttemptCount plan J \<and> \<not> hasIncompletePhysicalAttempt plan J)) (\<lambda>complete.
           returnA (if complete then Some priorReceipt else None)))))
     (\<lambda>_. returnA None)"

datatype PassResult = Settled RetentionReceipt | OwnershipChanged

definition erasePlan ::
  "'w RetentionBoundary \<Rightarrow> externals \<Rightarrow> StopInput \<Rightarrow> RetentionErasurePlan \<Rightarrow> RetentionOwnership list \<Rightarrow>
    RetentionReceipt option \<Rightarrow> RetentionReceipt option \<Rightarrow> ('w, PassResult) action" where
  "erasePlan B X input plan ownership baseReceipt priorReceipt =
     bindA (assertDeadline B (stopDeadlineMs input)) (\<lambda>_.
     bindA (awaitA B (settleActiveReadersAndWriters B)) (\<lambda>settled.
     if \<not> settled then failA ''retention-erasure-unprovable'' ''retention-erase''
     else bindA (faultA B (js ''retention-resources-settled'')) (\<lambda>_.
     bindA (forA (eraseDigest B X (stopDeadlineMs input) plan) (planArtifactDigests plan)) (\<lambda>_.
     bindA (verifyPlanErased B plan) (\<lambda>_.
     bindA (readA (listOwnership (localeCompare B) (stopLane input) (stopProviderId input))) (\<lambda>latestOwnership.
     bindA (liftA (sameStrings (map ownershipId latestOwnership) (map ownershipId ownership))) (\<lambda>same.
     if \<not> same then returnA OwnershipChanged
     else bindA (faultA B (js ''retention-erasure-verified'')) (\<lambda>_.
       bindA (case priorReceipt of
           Some prior \<Rightarrow> revalidateReceipt B X plan baseReceipt prior
         | None \<Rightarrow> issueReceipt B X plan ownership) (\<lambda>receipt.
       returnA (Settled receipt))))))))))"

definition enforcePass ::
  "'w RetentionBoundary \<Rightarrow> externals \<Rightarrow> StopInput \<Rightarrow> jsstring \<Rightarrow> ('w, PassResult) action" where
  "enforcePass B X input stopId =
     bindA (faultA B (js ''retention-stop-denials-committed'')) (\<lambda>_.
     bindA (readA (listOwnership (localeCompare B) (stopLane input) (stopProviderId input))) (\<lambda>ownership.
     bindA (liftA (buildPlan X (localeCompare B) input stopId ownership)) (\<lambda>plan.
     bindA (writeA (recordPlan plan)) (\<lambda>_.
     bindA (readA (getPlan (planId plan))) (\<lambda>reloadedPlan.
     bindA (liftA (case reloadedPlan of
         None \<Rightarrow> Inr False
       | Some p \<Rightarrow> bindR (recomputeRetentionPlanHash X p) (\<lambda>h. Inr (h = planHash plan)))) (\<lambda>intact.
     if \<not> intact then failA ''retention-erasure-unprovable'' ''retention-plan''
     else bindA (faultA B (js ''retention-plan-committed'')) (\<lambda>_.
     bindA (readA (getReceiptForPlan (planId plan))) (\<lambda>baseReceipt.
     bindA (\<lambda>s. liftA (latestReceipt X plan baseReceipt (rsJournal s)) s) (\<lambda>priorReceipt.
     bindA (case priorReceipt of
         None \<Rightarrow> returnA None
       | Some prior \<Rightarrow>
           bindA (awaitA B (settleActiveReadersAndWriters B)) (\<lambda>settled.
           if \<not> settled then failA ''retention-erasure-unprovable'' ''retention-verify''
           else reuseReceipt B X plan baseReceipt prior)) (\<lambda>reused.
     case reused of
       Some receipt \<Rightarrow> returnA (Settled receipt)
     | None \<Rightarrow> erasePlan B X input plan ownership baseReceipt priorReceipt))))))))))"

partial_function (option) settleStop ::
  "'w RetentionBoundary \<Rightarrow> externals \<Rightarrow> StopInput \<Rightarrow> jsstring \<Rightarrow> 'w RetentionState \<Rightarrow>
    ('w RetentionState \<times> RetentionReceipt result) option" where
  "settleStop B X input stopId s =
     (case enforcePass B X input stopId s of
        (s', Inl e) \<Rightarrow> Some (s', Inl e)
      | (s', Inr (Settled receipt)) \<Rightarrow> Some (s', Inr receipt)
      | (s', Inr OwnershipChanged) \<Rightarrow> settleStop B X input stopId s')"

definition settlement_json :: "jsstring \<Rightarrow> jsstring list \<Rightarrow> json" where
  "settlement_json baseStopEventId ownershipIds =
     JObj (field ''baseStopEventId'' (JStr baseStopEventId) @ field ''ownershipIds'' (strings_json ownershipIds))"

definition deriveStopEventId ::
  "externals \<Rightarrow> collation \<Rightarrow> StopInput \<Rightarrow> RetentionOwnership list \<Rightarrow> MemoryArtifactRetentionJournal \<Rightarrow> jsstring result" where
  "deriveStopEventId X lc input initialOwnership J =
     bindR (deriveRetentionStopEventId X input) (\<lambda>baseStopEventId.
     let basePlan = getPlanForStop baseStopEventId J;
         baseScope = (case basePlan of None \<Rightarrow> [] | Some plan \<Rightarrow> planArtifactObservationIds plan);
         currentScope = sortedSet lc (map ownArtifactObservationId initialOwnership) in
     bindR (sameStrings baseScope currentScope) (\<lambda>sameScope.
     if basePlan = None \<or> sameScope then Inr baseStopEventId
     else prefixed X ''rst1_'' ''peas/market-acquisition-retention-stop-settlement/v1''
       (settlement_json baseStopEventId (sort (map ownershipId initialOwnership)))))"

definition awaitOperations :: "'w RetentionBoundary \<Rightarrow> int \<Rightarrow> ('w, unit) action" where
  "awaitOperations B deadlineMs s =
     (if activeOperations (rsCoordinator s) \<le> 0 then returnA () s
      else bindA (trustedNow B) (\<lambda>now.
        let remaining = deadlineMs - now in
        bindA (if remaining < 1 then assertDeadline B deadlineMs else returnA ()) (\<lambda>_.
        bindA (awaitA B (\<lambda>w. case awaitIdle B (min remaining 30000) w of (idle, w') \<Rightarrow> (Inr idle, w'))) (\<lambda>settled.
        if \<not> settled then failA ''retention-erasure-unprovable'' ''retention-erase'' else returnA ()))) s)"

definition enforceStop ::
  "'w RetentionBoundary \<Rightarrow> externals \<Rightarrow> StopInput \<Rightarrow> 'w RetentionState \<Rightarrow> ('w RetentionState \<times> RetentionReceipt result) option" where
  "enforceStop B X input s =
     (let initialOwnership = listOwnership (localeCompare B) (stopLane input) (stopProviderId input) (rsJournal s) in
      case bindR (validateStop input) (\<lambda>_. deriveStopEventId X (localeCompare B) input initialOwnership (rsJournal s)) of
        Inl e \<Rightarrow> Some (s, Inl e)
      | Inr stopId \<Rightarrow>
          let entered = yieldA B (yieldA B (s\<lparr>rsCoordinator := enterStop (rsCoordinator s)\<rparr>));
              leave = (\<lambda>t. t\<lparr>rsCoordinator := leaveStop (rsCoordinator t)\<rparr>) in
          case bindA (awaitOperations B (stopDeadlineMs input)) (\<lambda>_. writeA (recordStopAndDenials (localeCompare B)
              (StopInput.extend input \<lparr>stopEventId = stopId\<rparr>)
              (sortedSet (localeCompare B) (concat (map ownDerivedIds initialOwnership))))) entered of
            (s', Inl e) \<Rightarrow> Some (leave s', Inl e)
          | (s', Inr _) \<Rightarrow> map_option (\<lambda>(t, r). (leave t, r)) (settleStop B X input stopId s'))"

end
