(* ===== verification/ControllerRuns.thy ===== *)
theory ControllerRuns
  imports RetentionController
begin

text \<open>
  Runs of the retention controller. \<open>controller_runs\<close> is the contract of a relation between states
  that a run can only follow: it is reflexive and transitive, and it holds across every step the
  controller can take, a call of the artifact boundary, what other tasks do at an \<open>await\<close>, a lease and
  a record in the journal. Inside the locale every action of the enforcement of a stop follows the
  relation (\<open>runsA\<close>), whether it succeeds or throws. The rules \<open>safe_rules\<close> go through the
  combinators of actions.
\<close>

named_theorems safe_rules \<open>actions whose runs follow the relation\<close>

inductive worldStep :: "'w RetentionBoundary \<Rightarrow> 'w \<Rightarrow> 'w \<Rightarrow> bool" for B where
  stepClock: "worldStep B w (snd (clockNow B w))"
| stepSettle: "worldStep B w (snd (settleActiveReadersAndWriters B w))"
| stepErase: "worldStep B w (snd (eraseDigestCopies B d w))"
| stepVerify: "worldStep B w (snd (verifyDigestCopiesAbsent B d w))"
| stepFault: "worldStep B w (snd (faultBoundary B c w))"
| stepIdle: "worldStep B w (snd (awaitIdle B n w))"
| stepOthers: "worldStep B w (snd (otherTasks B w))"

fun registersOwnership :: "RetentionOperation \<Rightarrow> bool" where
  "registersOwnership (RegisterOwnership v) = True"
| "registersOwnership _ = False"

definition runsA :: "('w RetentionState \<Rightarrow> 'w RetentionState \<Rightarrow> bool) \<Rightarrow> ('w, 'a) action \<Rightarrow> bool" where
  "runsA R m \<longleftrightarrow> (\<forall>s. R s (fst (m s)))"

lemma runsA_run: "runsA R m \<Longrightarrow> m s = (t, r) \<Longrightarrow> R s t"
  by (metis fst_conv runsA_def)

locale controller_runs =
  fixes B :: "'w RetentionBoundary" and R :: "'w RetentionState \<Rightarrow> 'w RetentionState \<Rightarrow> bool"
  assumes run_refl: "R s s"
    and run_trans: "R s t \<Longrightarrow> R t u \<Longrightarrow> R s u"
    and run_world: "worldStep B (rsWorld s) w \<Longrightarrow> R s (s\<lparr>rsWorld := w\<rparr>)"
    and run_others: "R s (yieldA B s)"
    and run_coordinator: "R s (s\<lparr>rsCoordinator := C\<rparr>)"
    and run_record: "attemptOperation (localeCompare B) op (rsJournal s) = Inr J \<Longrightarrow> \<not> registersOwnership op \<Longrightarrow>
      R s (s\<lparr>rsJournal := J\<rparr>)"
begin

lemma runs_basic [safe_rules]:
  "runsA R (returnA x)" "runsA R (throwA e)" "runsA R (liftA r)" "runsA R (readA f)" "runsA R (failA a b)"
  "runsA R (admissionA c)" "runsA R (\<lambda>s. liftA (g (rsJournal s)) s)"
  by (simp_all add: runsA_def run_refl returnA_def throwA_def liftA_def readA_def failA_def admissionA_def)

lemma runs_bind [safe_rules]: "runsA R m \<Longrightarrow> (\<And>x. runsA R (f x)) \<Longrightarrow> runsA R (bindA m f)"
  unfolding runsA_def bindA_def by (auto split: prod.splits sum.splits) (metis fst_conv run_trans)+

lemma runs_catch [safe_rules]: "runsA R m \<Longrightarrow> (\<And>e. runsA R (f e)) \<Longrightarrow> runsA R (catchA m f)"
  unfolding runsA_def catchA_def by (auto split: prod.splits sum.splits) (metis fst_conv run_trans)+

lemma runs_finally [safe_rules]: "runsA R m \<Longrightarrow> runsA R (finallyA m releaseUse)"
  unfolding runsA_def finallyA_def releaseUse_def by (auto split: prod.splits) (metis fst_conv run_coordinator run_trans)

lemma runs_for [safe_rules]: "(\<And>x. runsA R (f x)) \<Longrightarrow> runsA R (forA f xs)"
  by (induction xs) (auto intro!: safe_rules)

lemma runs_if [safe_rules]: "runsA R m \<Longrightarrow> runsA R n \<Longrightarrow> runsA R (if c then m else n)"
  by simp

lemma runs_cases [safe_rules]:
  "runsA R m \<Longrightarrow> (\<And>x. runsA R (f x)) \<Longrightarrow> runsA R (case q of None \<Rightarrow> m | Some x \<Rightarrow> f x)"
  "(\<And>x y. runsA R (g x y)) \<Longrightarrow> runsA R (case p of (x, y) \<Rightarrow> g x y)"
  by (auto split: option.splits prod.splits)

lemma runs_write:
  "\<not> registersOwnership op \<Longrightarrow> (\<And>J. f J = attemptOperation (localeCompare B) op J) \<Longrightarrow> runsA R (writeA f)"
  by (auto simp: runsA_def writeA_def run_refl run_record split: sum.splits)

lemma runs_records [safe_rules]:
  "runsA R (writeA (recordPlan p))" "runsA R (writeA (recordAttempt a))" "runsA R (writeA (recordTombstone t))"
  "runsA R (writeA (recordReceipt r))" "runsA R (writeA (recordCheckpoint c))"
  "runsA R (writeA (recordReceiptRevalidationAndCheckpoint v c))"
  "runsA R (writeA (recordStopAndDenials (localeCompare B) st ds))"
  by (rule runs_write [of "RecordPlan p"] runs_write [of "RecordAttempt a"] runs_write [of "RecordTombstone t"]
      runs_write [of "RecordReceipt r"] runs_write [of "RecordCheckpoint c"]
      runs_write [of "RecordRevalidationCheckpoint v c"] runs_write [of "RecordStop st ds"]; simp)+

lemma runs_await:
  assumes "\<And>w. worldStep B w (snd (f w))"
  shows "runsA R (awaitA B f)"
  unfolding runsA_def
proof
  fix s
  have "R s (s\<lparr>rsWorld := snd (f (rsWorld s))\<rparr>)" by (rule run_world) (rule assms)
  then show "R s (fst (awaitA B f s))"
    using run_others [of "s\<lparr>rsWorld := snd (f (rsWorld s))\<rparr>"] by (auto simp: awaitA_def split: prod.splits intro: run_trans)
qed

lemma runs_awaits [safe_rules]:
  "runsA R (awaitA B (settleActiveReadersAndWriters B))" "runsA R (awaitA B (eraseDigestCopies B d))"
  "runsA R (awaitA B (verifyDigestCopiesAbsent B d))" "runsA R (faultA B c)"
  "runsA R (awaitA B (\<lambda>w. case awaitIdle B n w of (idle, w') \<Rightarrow> (Inr idle, w')))"
proof -
  show "runsA R (awaitA B (\<lambda>w. case awaitIdle B n w of (idle, w') \<Rightarrow> (Inr idle, w')))"
  proof (rule runs_await)
    fix w
    show "worldStep B w (snd (case awaitIdle B n w of (idle, w') \<Rightarrow> (Inr idle, w')))"
      using stepIdle [of B w n] by (cases "awaitIdle B n w") simp
  qed
qed (auto simp: faultA_def intro!: runs_await stepSettle stepErase stepVerify stepFault)

lemma runs_now [safe_rules]: "runsA R (trustedNow B)"
  unfolding runsA_def
proof
  fix s
  have "R s (s\<lparr>rsWorld := snd (clockNow B (rsWorld s))\<rparr>)" by (rule run_world) (rule stepClock)
  then show "R s (fst (trustedNow B s))" by (cases "clockNow B (rsWorld s)") (simp add: trustedNow_def)
qed

lemma runs_checks [safe_rules]:
  "runsA R (assertDeadline B n)" "runsA R (ensureCheckpoint B X plan r)" "runsA R (verifyDigestErased B d)"
  "runsA R (recordAttemptA X p d n t oc)" "runsA R (recordTombstoneA B X p d)"
  by (simp_all only: assertDeadline_def ensureCheckpoint_def verifyDigestErased_def recordAttemptA_def recordTombstoneA_def Let_def)
    (intro safe_rules)+

lemma runs_erasure [safe_rules]:
  "runsA R (verifyPlanErased B plan)" "runsA R (physicalErasure B X p d as)"
  unfolding verifyPlanErased_def physicalErasure_def Let_def by (intro safe_rules)+

lemma runs_eraseDigest [safe_rules]: "runsA R (eraseDigest B X n plan d)"
  unfolding eraseDigest_def by (intro safe_rules)

lemma runs_receipts [safe_rules]:
  "runsA R (issueReceipt B X plan os)" "runsA R (revalidateReceipt B X plan b r)" "runsA R (reuseReceipt B X plan b r)"
  unfolding issueReceipt_def revalidateReceipt_def reuseReceipt_def Let_def by (intro safe_rules)+

lemma runs_pass [safe_rules]:
  "runsA R (erasePlan B X input plan os b p)" "runsA R (enforcePass B X input i)"
proof -
  show erase: "runsA R (erasePlan B X input plan os b p)" for plan os b p
    unfolding erasePlan_def by (intro safe_rules)
  show "runsA R (enforcePass B X input i)"
    unfolding enforcePass_def by (intro safe_rules erase)
qed

lemma runs_awaitOperations [safe_rules]: "runsA R (awaitOperations B n)"
proof -
  let ?m = "bindA (trustedNow B) (\<lambda>now. let remaining = n - now in
        bindA (if remaining < 1 then assertDeadline B n else returnA ()) (\<lambda>_.
        bindA (awaitA B (\<lambda>w. case awaitIdle B (min remaining 30000) w of (idle, w') \<Rightarrow> (Inr idle, w'))) (\<lambda>settled.
        if \<not> settled then failA ''retention-erasure-unprovable'' ''retention-erase'' else returnA ())))"
  have "runsA R ?m" unfolding Let_def by (intro safe_rules)
  then show ?thesis by (simp add: runsA_def awaitOperations_def returnA_def run_refl)
qed

end

end
