(* ===== verification/ControllerLaws.thy ===== *)
theory ControllerLaws
  imports ControllerRuns
begin

text \<open>
  Laws of the retention controller. \<open>later B s t\<close> says that \<open>t\<close> can follow \<open>s\<close>: the
  journal has only grown and the world went through calls of the boundary. It is one relation that
  runs follow (\<open>controller_runs\<close>).

  What is shown: an action that succeeds has done what it is for. The verification of a plan finds
  the provider and every derived identifier denied, every digest denied and with a tombstone, and the
  artifact boundary confirms the absence of its copies.
\<close>

section \<open>Later states\<close>

definition later :: "'w RetentionBoundary \<Rightarrow> 'w RetentionState \<Rightarrow> 'w RetentionState \<Rightarrow> bool" where
  "later B s t \<longleftrightarrow> retentionGrows (rsJournal s) (rsJournal t) \<and> (worldStep B)\<^sup>*\<^sup>* (rsWorld s) (rsWorld t)"

lemma later_refl [simp]: "later B s s"
  by (simp add: later_def)

lemma later_trans: "later B s t \<Longrightarrow> later B t u \<Longrightarrow> later B s u"
  by (auto simp: later_def intro: retentionGrows_trans rtranclp_trans)

lemma later_world: "worldStep B (rsWorld s) w \<Longrightarrow> later B s (s\<lparr>rsWorld := w\<rparr>)"
  by (simp add: later_def)

lemma later_coordinator [simp]:
  "later B s (t\<lparr>rsCoordinator := C\<rparr>) = later B s t" "later B (s\<lparr>rsCoordinator := C\<rparr>) t = later B s t"
  by (simp_all add: later_def)

lemma otherStep_fields:
  "retentionGrows (rsJournal s) (rsJournal (otherStep lc st s)) \<and> rsWorld (otherStep lc st s) = rsWorld s"
  by (cases st) (simp_all add: performOperation_grows)

lemma otherSteps_fields:
  "retentionGrows (rsJournal s) (rsJournal (fold (otherStep lc) sts s)) \<and> rsWorld (fold (otherStep lc) sts s) = rsWorld s"
proof (induction sts arbitrary: s)
  case (Cons a sts)
  then show ?case using otherStep_fields [of s lc a] Cons [of "otherStep lc a s"] by (auto intro: retentionGrows_trans)
qed simp

lemma yieldA_later: "later B s (yieldA B s)"
  using otherSteps_fields [of "s\<lparr>rsWorld := snd (otherTasks B (rsWorld s))\<rparr>" "localeCompare B" "fst (otherTasks B (rsWorld s))"]
  by (auto simp: yieldA_def later_def stepOthers split: prod.splits)
    (metis r_into_rtranclp snd_conv stepOthers)

abbreviation safeA :: "'w RetentionBoundary \<Rightarrow> ('w, 'a) action \<Rightarrow> bool" where
  "safeA B \<equiv> runsA (later B)"

lemma attempted_grows: "attemptOperation lc op J = Inr J' \<Longrightarrow> retentionGrows J J'"
  using performOperation_grows [of J lc op] by (simp add: performOperation_def)

interpretation laterRuns: controller_runs B "later B" for B
  by unfold_locales (auto simp: later_def yieldA_later [unfolded later_def] attempted_grows
      intro: retentionGrows_trans rtranclp_trans)

lemmas safeA_run = runsA_run [where R = "later B" for B]


section \<open>Successful actions\<close>

lemma bindA_ok: "bindA m f s = (u, Inr y) \<Longrightarrow> (\<And>t x. m s = (t, Inr x) \<Longrightarrow> f x t = (u, Inr y) \<Longrightarrow> P) \<Longrightarrow> P"
  by (auto simp: bindA_def split: prod.splits sum.splits)

lemma basic_ok:
  "returnA x s = (u, Inr y) \<longleftrightarrow> u = s \<and> y = x" "throwA e s = (u, Inr y) \<longleftrightarrow> False" "failA a b s = (u, Inr y) \<longleftrightarrow> False"
  "readA f s = (u, Inr z) \<longleftrightarrow> u = s \<and> z = f (rsJournal s)" "liftA r s = (u, Inr y) \<longleftrightarrow> u = s \<and> r = Inr y"
  by (auto simp: returnA_def throwA_def failA_def readA_def liftA_def)

lemma writeA_ok: "writeA f s = (u, Inr y) \<longleftrightarrow> (\<exists>J. f (rsJournal s) = Inr J \<and> u = s\<lparr>rsJournal := J\<rparr>)"
  by (auto simp: writeA_def split: sum.splits)

lemma forA_ok:
  assumes "forA f xs s = (u, Inr y)" "\<And>x. safeA B (f x)" "x \<in> set xs"
  shows "\<exists>a b. later B s a \<and> f x a = (b, Inr ()) \<and> later B b u"
  using assms(1,3)
proof (induction xs arbitrary: s)
  case (Cons z zs)
  then obtain t where t: "f z s = (t, Inr ())" "forA f zs t = (u, Inr y)" by (auto elim: bindA_ok)
  have st: "later B s t" by (rule safeA_run [OF assms(2) t(1)])
  have tu: "later B t u" by (rule safeA_run [OF laterRuns.runs_for [OF assms(2)] t(2)])
  show ?case
  proof (cases "x = z")
    case True
    with t(1) tu show ?thesis using later_refl by blast
  next
    case False
    with Cons t(2) show ?thesis using later_trans [OF st] by fastforce
  qed
qed simp

definition confirmedAbsent :: "'w RetentionBoundary \<Rightarrow> jsstring \<Rightarrow> 'w RetentionState \<Rightarrow> 'w RetentionState \<Rightarrow> bool" where
  "confirmedAbsent B d s u \<longleftrightarrow> (\<exists>a w. later B s a \<and> digestUseDenied d (rsJournal a) \<and> hasTombstone d (rsJournal a) \<and>
     verifyDigestCopiesAbsent B d (rsWorld a) = (Inr True, w) \<and> later B (a\<lparr>rsWorld := w\<rparr>) u)"

lemma confirmedAbsent_mono: "later B s s' \<Longrightarrow> confirmedAbsent B d s' u \<Longrightarrow> later B u u' \<Longrightarrow> confirmedAbsent B d s u'"
  unfolding confirmedAbsent_def by (meson later_trans)

lemma confirmedAbsent_recorded:
  assumes "confirmedAbsent B d s u"
  shows "digestUseDenied d (rsJournal u)" "hasTombstone d (rsJournal u)"
  using assms by (auto simp: confirmedAbsent_def later_def intro: denied_later(2,4))

lemma verifyDigestErased_ok: "verifyDigestErased B d s = (u, Inr y) \<Longrightarrow> confirmedAbsent B d s u"
  unfolding verifyDigestErased_def confirmedAbsent_def
proof (elim bindA_ok, goal_cases)
  case (1 t recorded)
  then have rec: "t = s" "digestUseDenied d (rsJournal s)" "hasTombstone d (rsJournal s)"
    and rest: "bindA (awaitA B (verifyDigestCopiesAbsent B d)) (\<lambda>absent.
       if \<not> absent then failA ''retention-erasure-unprovable'' ''retention-verify'' else returnA ()) s = (u, Inr y)"
    by (auto simp: basic_ok split: if_splits)
  from rest have aw: "awaitA B (verifyDigestCopiesAbsent B d) s = (u, Inr True)"
    by (elim bindA_ok) (auto simp: basic_ok split: if_splits)
  obtain w where "verifyDigestCopiesAbsent B d (rsWorld s) = (Inr True, w)" "u = yieldA B (s\<lparr>rsWorld := w\<rparr>)"
    using aw by (auto simp: awaitA_def split: prod.splits)
  with rec show ?case using yieldA_later later_refl by blast
qed

definition planErased :: "'w RetentionBoundary \<Rightarrow> RetentionErasurePlan \<Rightarrow> 'w RetentionState \<Rightarrow> 'w RetentionState \<Rightarrow> bool" where
  "planErased B plan s u \<longleftrightarrow> providerUseDenied (planLane plan) (planProviderId plan) (rsJournal u) \<and>
     (\<forall>d \<in> set (planArtifactDigests plan). confirmedAbsent B d s u) \<and>
     (\<forall>i \<in> set (planDerivedIds plan). derivedUseDenied i (rsJournal u))"

lemma planErased_mono: "later B s s' \<Longrightarrow> planErased B plan s' u \<Longrightarrow> later B u u' \<Longrightarrow> planErased B plan s u'"
  unfolding planErased_def by (meson confirmedAbsent_mono denied_later later_def)

lemma verifyPlanErased_ok:
  assumes "verifyPlanErased B plan s = (u, Inr y)"
  shows "planErased B plan s u"
proof -
  let ?check = "\<lambda>derivedId. bindA (readA (derivedUseDenied derivedId)) (\<lambda>denied.
         if \<not> denied then failA ''retention-erasure-unprovable'' ''retention-verify'' else returnA ())"
  obtain t where denied: "providerUseDenied (planLane plan) (planProviderId plan) (rsJournal s)"
    and digests: "forA (verifyDigestErased B) (planArtifactDigests plan) s = (t, Inr ())"
    and derived: "forA ?check (planDerivedIds plan) t = (u, Inr y)"
    using assms unfolding verifyPlanErased_def by (elim bindA_ok) (auto simp: basic_ok elim: bindA_ok split: if_splits)
  have safe: "safeA B (?check i)" for i by (intro safe_rules)
  have st: "later B s t" by (rule safeA_run [OF laterRuns.runs_for digests]) (rule safe_rules)
  have tu: "later B t u" by (rule safeA_run [OF laterRuns.runs_for derived]) (rule safe)
  have "confirmedAbsent B d s u" if d: "d \<in> set (planArtifactDigests plan)" for d
  proof -
    obtain a b where ab: "later B s a" "verifyDigestErased B d a = (b, Inr ())" "later B b t"
      using forA_ok [OF digests laterRuns.runs_checks(3) d] by blast
    show ?thesis by (rule confirmedAbsent_mono [OF ab(1) verifyDigestErased_ok [OF ab(2)] later_trans [OF ab(3) tu]])
  qed
  moreover have "derivedUseDenied i (rsJournal u)" if i: "i \<in> set (planDerivedIds plan)" for i
  proof -
    obtain a b where ab: "?check i a = (b, Inr ())" "later B b u" using forA_ok [OF derived safe i] by blast
    then have "b = a" "derivedUseDenied i (rsJournal a)" by (auto simp: basic_ok elim!: bindA_ok split: if_splits)
    with ab(2) show ?thesis by (auto simp: later_def intro: denied_later(3))
  qed
  moreover have "later B s u" by (rule later_trans [OF st tu])
  ultimately show ?thesis using denied by (auto simp: planErased_def later_def intro: denied_later(1))
qed

end
