(* ===== verification/StopLaws.thy ===== *)
theory StopLaws
  imports ControllerLaws
begin

text \<open>
  What a receipt of \<open>enforceStop\<close> proves, step by step: the checks of a receipt
  (\<open>receiptCovers\<close>), the three ways a pass ends with one, and the loop over passes.
\<close>

section \<open>Receipts\<close>

lemma sameStrings_True:
  assumes "sameStrings a b = Inr True"
  shows "a = b"
proof -
  have "valid_json (strings_json a)" "valid_json (strings_json b)" "canon (strings_json a) = canon (strings_json b)"
    using assms unfolding sameStrings_def by (auto simp only: bindR_eq_Inr canonicalJson_Inr sum.inject)
  then have "norm (strings_json a) = norm (strings_json b)" by (simp only: canon_inj)
  then have "map JStr a = map JStr b" by (simp add: strings_json_def comp_def)
  then show ?thesis by (simp add: inj_map_eq_map inj_def)
qed

definition receiptCovers :: "RetentionErasurePlan \<Rightarrow> RetentionReceipt \<Rightarrow> bool" where
  "receiptCovers plan r \<longleftrightarrow> receiptPlanId r = planId plan \<and> receiptPlanHash r = planHash plan \<and>
     receiptArtifactDigests r = planArtifactDigests plan \<and>
     receiptArtifactObservationIds r = planArtifactObservationIds plan"

lemma rejectIf_ok: "rejectIf stage cs = Inr u \<longleftrightarrow> (\<forall>c \<in> set cs. c () = Inr False)"
  by (induction cs) (auto simp: result_simps split: if_splits)

declare rejectIf.simps [simp del]

lemma checks_ok:
  "check b u = Inr False \<longleftrightarrow> \<not> b" "differs x y u = Inr False \<longleftrightarrow> sameStrings x y = Inr True"
  "idDiffers q i u = Inr False \<longleftrightarrow> q = Inr i"
  by (auto simp: check_def differs_def idDiffers_def result_simps)

lemma scanRevalidations_ok:
  "scanRevalidations X plan base i latest rs = Inr r \<Longrightarrow> receiptCovers plan latest \<Longrightarrow> receiptCovers plan r"
proof (induction X plan base i latest rs rule: scanRevalidations.induct)
  case (2 X plan base index latest v checkpoint rest)
  from 2(2) have scope: "receiptCovers plan (revalReceipt v)"
    by (auto simp: result_simps rejectIf_ok checks_ok receiptCovers_def dest: sameStrings_True)
  show ?case using 2(2) unfolding scanRevalidations.simps(2) by (elim bindRE) (erule (2) 2(1) [OF _ _ _ scope])
qed simp

lemma latestReceipt_ok:
  assumes "latestReceipt X plan b J = Inr (Some r)"
  shows "b \<noteq> None" "receiptCovers plan r"
proof -
  obtain base where b: "b = Some base"
    using assms by (cases b) (auto simp: latestReceipt_def Let_def split: if_splits)
  then show "b \<noteq> None" by simp
  from assms b have "receiptCovers plan base"
    by (auto simp: latestReceipt_def Let_def result_simps rejectIf_ok checks_ok receiptCovers_def bindR_if dest: sameStrings_True)
  moreover obtain rs where "scanRevalidations X plan base 0 base rs = Inr r"
    using assms b by (auto simp: latestReceipt_def Let_def result_simps bindR_if)
  ultimately show "receiptCovers plan r" by (rule scanRevalidations_ok [rotated])
qed

definition settledIn :: "RetentionErasurePlan \<Rightarrow> MemoryArtifactRetentionJournal \<Rightarrow> bool" where
  "settledIn plan J \<longleftrightarrow> getReceiptForPlan (planId plan) J \<noteq> None \<and> getCheckpoint (planId plan) J \<noteq> None"

lemma later_kept:
  assumes "later B s t"
  shows "getReceiptForPlan p (rsJournal s) \<noteq> None \<Longrightarrow> getReceiptForPlan p (rsJournal t) \<noteq> None"
    "getCheckpoint p (rsJournal s) \<noteq> None \<Longrightarrow> getCheckpoint p (rsJournal t) \<noteq> None"
  using assms by (auto simp: later_def retentionGrows_def getReceiptForPlan_def getCheckpoint_def prefix_def map_add_Some_iff)

lemma fault_kept:
  assumes "faultA B c s = (t, r)"
  shows "getReceiptForPlan p (rsJournal s) = Some x \<Longrightarrow> \<exists>x. getReceiptForPlan p (rsJournal t) = Some x"
    "getCheckpoint p (rsJournal s) = Some y \<Longrightarrow> \<exists>y. getCheckpoint p (rsJournal t) = Some y"
  using later_kept [OF safeA_run [OF laterRuns.runs_awaits(4) assms]] by auto

lemma ensureCheckpoint_ok:
  "ensureCheckpoint B X plan r s = (u, Inr y) \<Longrightarrow> \<exists>c. getCheckpoint (planId plan) (rsJournal u) = Some c"
  unfolding ensureCheckpoint_def
  by (elim bindA_ok) (auto simp: basic_ok elim!: bindA_ok dest: fault_kept(2) split: if_splits option.splits)

lemma issueReceipt_ok:
  assumes "issueReceipt B X plan os s = (u, Inr r)"
  shows "receiptCovers plan r" "settledIn plan (rsJournal u)"
proof -
  obtain n c t receipt t' t'' where
    r: "receiptRecord X \<lparr>receiptPlanId = planId plan, receiptPlanHash = planHash plan,
         receiptArtifactDigests = planArtifactDigests plan, receiptArtifactObservationIds = planArtifactObservationIds plan,
         receiptPriorSizeBytes = n, receiptAttemptCount = c, receiptCompletedAtMs = t\<rparr> = Inr receipt"
    and reread: "map_option receiptId (getReceiptForPlan (planId plan) (rsJournal t')) = Some (receiptId receipt)"
    and fault: "faultA B (js ''retention-receipt-committed-reread'') t' = (t'', Inr ())"
    and ensure: "ensureCheckpoint B X plan receipt t'' = (u, Inr ())" and "r = receipt"
    using assms unfolding issueReceipt_def
    by (elim bindA_ok) (auto simp: basic_ok elim!: bindA_ok split: if_splits, metis)
  from r have "receiptCovers plan receipt"
    by (auto simp: receiptRecord_def result_simps receiptCovers_def ReceiptBody.defs)
  with \<open>r = receipt\<close> show "receiptCovers plan r" by simp
  have "getReceiptForPlan (planId plan) (rsJournal t'') \<noteq> None"
    using later_kept(1) [OF safeA_run [OF laterRuns.runs_awaits(4) fault]] reread by auto
  then have "getReceiptForPlan (planId plan) (rsJournal u) \<noteq> None"
    using later_kept(1) [OF safeA_run [OF laterRuns.runs_checks(2) ensure]] by auto
  with ensureCheckpoint_ok [OF ensure] show "settledIn plan (rsJournal u)" by (auto simp: settledIn_def)
qed

lemma revalidateReceipt_ok:
  assumes "revalidateReceipt B X plan b prior s = (u, Inr r)" "receiptCovers plan prior"
    and "getReceiptForPlan (planId plan) (rsJournal s) \<noteq> None"
  shows "receiptCovers plan r" "settledIn plan (rsJournal u)"
proof -
  from assms(1) obtain base where b: "b = Some base"
    by (cases b) (auto simp: revalidateReceipt_def basic_ok)
  show "receiptCovers plan r"
    using assms(1,2) unfolding revalidateReceipt_def Let_def b option.case
    by (elim bindA_ok)
      (auto simp: basic_ok elim!: bindA_ok split: if_splits, erule latestReceipt_ok(2))
  have "\<exists>t. ensureCheckpoint B X plan base s = (t, Inr ()) \<and> later B t u"
    using assms(1) unfolding revalidateReceipt_def b option.case Let_def
    by (rule bindA_ok) (intro exI conjI, simp, erule safeA_run [rotated], intro safe_rules)
  then obtain t where t: "ensureCheckpoint B X plan base s = (t, Inr ())" "later B t u" by blast
  have "getReceiptForPlan (planId plan) (rsJournal u) \<noteq> None"
    using later_kept(1) [OF later_trans [OF safeA_run [OF laterRuns.runs_checks(2) t(1)] t(2)]] assms(3) by blast
  moreover have "getCheckpoint (planId plan) (rsJournal u) \<noteq> None"
    using later_kept(2) [OF t(2)] ensureCheckpoint_ok [OF t(1)] by blast
  ultimately show "settledIn plan (rsJournal u)" by (simp add: settledIn_def)
qed

lemma reuseReceipt_ok:
  assumes "reuseReceipt B X plan b prior s = (u, Inr (Some r))"
    and "getReceiptForPlan (planId plan) (rsJournal s) \<noteq> None"
  shows "r = prior" "planErased B plan s u" "settledIn plan (rsJournal u)"
proof -
  obtain t base where erased: "verifyPlanErased B plan s = (t, Inr ())"
    and ensure: "ensureCheckpoint B X plan base t = (u, Inr ())" and "r = prior"
    using assms(1) unfolding reuseReceipt_def catchA_def
    by (auto simp: basic_ok elim!: bindA_ok split: prod.splits sum.splits option.splits if_splits)
  then show "r = prior" by simp
  have st: "later B s t" by (rule safeA_run [OF laterRuns.runs_erasure(1) erased])
  have tu: "later B t u" by (rule safeA_run [OF laterRuns.runs_checks(2) ensure])
  show "planErased B plan s u"
    by (rule planErased_mono [OF later_refl verifyPlanErased_ok [OF erased] tu])
  show "settledIn plan (rsJournal u)"
    using later_kept(1) [OF later_trans [OF st tu] assms(2)] ensureCheckpoint_ok [OF ensure] by (auto simp: settledIn_def)
qed


section \<open>Passes\<close>

definition provenBy :: "'w RetentionBoundary \<Rightarrow> RetentionErasurePlan \<Rightarrow> RetentionReceipt \<Rightarrow>
    'w RetentionState \<Rightarrow> 'w RetentionState \<Rightarrow> bool" where
  "provenBy B plan r s u \<longleftrightarrow> receiptCovers plan r \<and> planErased B plan s u \<and> settledIn plan (rsJournal u)"

lemma provenBy_mono: "later B s s' \<Longrightarrow> provenBy B plan r s' u \<Longrightarrow> provenBy B plan r s u"
  unfolding provenBy_def using planErased_mono later_refl by blast

lemma erasePlan_ok:
  assumes "erasePlan B X input plan os b p s = (u, Inr (Settled r))"
    and "\<And>prior. p = Some prior \<Longrightarrow> receiptCovers plan prior \<and> getReceiptForPlan (planId plan) (rsJournal s) \<noteq> None"
  shows "provenBy B plan r s u"
proof -
  define finish where "finish = (case p of Some prior \<Rightarrow> revalidateReceipt B X plan b prior | None \<Rightarrow> issueReceipt B X plan os)"
  have safe: "safeA B finish" unfolding finish_def by (intro safe_rules)
  obtain a1 a2 a3 a t t' where
    run: "assertDeadline B (stopDeadlineMs input) s = (a1, Inr ())"
      "awaitA B (settleActiveReadersAndWriters B) a1 = (a2, Inr True)"
      "faultA B (js ''retention-resources-settled'') a2 = (a3, Inr ())"
      "forA (eraseDigest B X (stopDeadlineMs input) plan) (planArtifactDigests plan) a3 = (a, Inr ())"
    and erased: "verifyPlanErased B plan a = (t, Inr ())"
    and fault: "faultA B (js ''retention-erasure-verified'') t = (t', Inr ())"
    and last: "finish t' = (u, Inr r)"
    using assms(1) unfolding erasePlan_def finish_def [symmetric]
    by (elim bindA_ok) (auto simp: basic_ok elim!: bindA_ok split: if_splits)
  have sa: "later B s a"
    using safeA_run [OF laterRuns.runs_checks(1) run(1)] safeA_run [OF laterRuns.runs_awaits(1) run(2)] safeA_run [OF laterRuns.runs_awaits(4) run(3)]
      safeA_run [OF laterRuns.runs_for [OF laterRuns.runs_eraseDigest] run(4)] by (meson later_trans)
  have at: "later B a t" by (rule safeA_run [OF laterRuns.runs_erasure(1) erased])
  have tt: "later B t t'" by (rule safeA_run [OF laterRuns.runs_awaits(4) fault])
  have tu: "later B t' u" by (rule safeA_run [OF safe last])
  have erasedU: "planErased B plan s u"
    by (rule planErased_mono [OF sa verifyPlanErased_ok [OF erased] later_trans [OF tt tu]])
  have "receiptCovers plan r \<and> settledIn plan (rsJournal u)"
  proof (cases p)
    case None
    with last show ?thesis using issueReceipt_ok [of B X plan os t' u r] by (simp add: finish_def)
  next
    case (Some prior)
    with assms(2) have "receiptCovers plan prior" "getReceiptForPlan (planId plan) (rsJournal t') \<noteq> None"
      using later_kept(1) [OF later_trans [OF sa later_trans [OF at tt]]] by blast+
    with last Some show ?thesis using revalidateReceipt_ok [of B X plan b prior t' u r] by (simp add: finish_def)
  qed
  with erasedU show ?thesis by (simp add: provenBy_def)
qed

text \<open>The plan of a pass covers the ownerships of the provider at the time it was drawn up.\<close>

definition planFor :: "StopInput \<Rightarrow> RetentionErasurePlan \<Rightarrow> MemoryArtifactRetentionJournal \<Rightarrow> bool" where
  "planFor input plan J \<longleftrightarrow> planLane plan = stopLane input \<and> planProviderId plan = stopProviderId input \<and>
     (\<forall>v \<in> snd ` set (jOwnership J). ownLane v = stopLane input \<and> ownProviderId v = stopProviderId input \<longrightarrow>
        ownArtifactDigest v \<in> set (planArtifactDigests plan) \<and>
        set (lineageOf J (ownershipId v)) \<subseteq> set (planDerivedIds plan))"

lemma set_sortedSet [simp]: "set (sortedSet lc xs) = set xs"
  by (simp add: sortedSet_def)

lemma buildPlan_ok:
  assumes "buildPlan X lc input i (listOwnership lc (stopLane input) (stopProviderId input) J) = Inr plan"
  shows "planFor input plan J"
proof -
  let ?os = "listOwnership lc (stopLane input) (stopProviderId input) J"
  have fields: "planLane plan = stopLane input" "planProviderId plan = stopProviderId input"
    "set (planArtifactDigests plan) = ownArtifactDigest ` set ?os"
    "set (planDerivedIds plan) = (\<Union>v \<in> set ?os. set (ownDerivedIds v))"
    using assms by (auto simp: buildPlan_def Let_def result_simps PlanBody.defs PlanWithoutHash.defs)
  show ?thesis unfolding planFor_def
  proof (intro conjI ballI impI fields(1,2))
    fix v assume "v \<in> snd ` set (jOwnership J)" "ownLane v = stopLane input \<and> ownProviderId v = stopProviderId input"
    then have os: "withDerived J v \<in> set ?os" by (simp add: listOwnership_def set_selectOwnership)
    then show "ownArtifactDigest v \<in> set (planArtifactDigests plan)"
      unfolding fields(3) by (metis imageI withDerived_fields(3))
    have "set (ownDerivedIds (withDerived J v)) = set (lineageOf J (ownershipId v))" by (simp add: withDerived_def)
    with os show "set (lineageOf J (ownershipId v)) \<subseteq> set (planDerivedIds plan)" unfolding fields(4) by blast
  qed
qed

lemma planFor_later:
  assumes "planFor input plan J'" "retentionGrows J J'"
  shows "planFor input plan J"
proof -
  have "snd ` set (jOwnership J) \<subseteq> snd ` set (jOwnership J')" "set (lineageOf J i) \<subseteq> set (lineageOf J' i)" for i
    using assms(2) by (auto simp: retentionGrows_def dest!: set_mono_prefix)
  with assms(1) show ?thesis unfolding planFor_def by blast
qed

lemma enforcePass_ok:
  assumes "enforcePass B X input i s = (u, Inr (Settled r))"
  shows "\<exists>plan. planFor input plan (rsJournal s) \<and> provenBy B plan r s u"
proof -
  define reuse where "reuse plan base d = (case d of
         None \<Rightarrow> returnA None
       | Some prior \<Rightarrow>
           bindA (awaitA B (settleActiveReadersAndWriters B)) (\<lambda>settled.
           if \<not> settled then failA ''retention-erasure-unprovable'' ''retention-verify''
           else reuseReceipt B X plan base prior))" for plan base d
  define finish where "finish plan os base d reused = (case reused of
       Some receipt \<Rightarrow> returnA (Settled receipt) | None \<Rightarrow> erasePlan B X input plan os base d)" for plan os base d reused
  have safe: "safeA B (reuse plan base d)" for plan base d unfolding reuse_def by (intro safe_rules)
  obtain a plan b c d os e reused where
    fault: "faultA B (js ''retention-stop-denials-committed'') s = (a, Inr ())"
    and plan: "buildPlan X (localeCompare B) input i
        (listOwnership (localeCompare B) (stopLane input) (stopProviderId input) (rsJournal a)) = Inr plan"
    and stored: "writeA (recordPlan plan) a = (b, Inr ())"
    and fault2: "faultA B (js ''retention-plan-committed'') b = (c, Inr ())"
    and last: "latestReceipt X plan (getReceiptForPlan (planId plan) (rsJournal c)) (rsJournal c) = Inr d"
    and reused: "reuse plan (getReceiptForPlan (planId plan) (rsJournal c)) d c = (e, Inr reused)"
    and finish: "finish plan os (getReceiptForPlan (planId plan) (rsJournal c)) d reused e = (u, Inr (Settled r))"
    using assms unfolding enforcePass_def reuse_def [symmetric] finish_def [symmetric]
    by (elim bindA_ok) (auto simp: basic_ok elim!: bindA_ok split: if_splits)
  have sc: "later B s c"
    using safeA_run [OF laterRuns.runs_awaits(4) fault] safeA_run [OF laterRuns.runs_records(1) stored] safeA_run [OF laterRuns.runs_awaits(4) fault2]
    by (meson later_trans)
  have ce: "later B c e" by (rule safeA_run [OF safe reused])
  have planFor: "planFor input plan (rsJournal s)"
    by (rule planFor_later [OF buildPlan_ok [OF plan]]) (use safeA_run [OF laterRuns.runs_awaits(4) fault] in \<open>simp add: later_def\<close>)
  have held: "receiptCovers plan prior \<and> getReceiptForPlan (planId plan) (rsJournal c) \<noteq> None" if "d = Some prior" for prior
    using latestReceipt_ok [of X plan _ "rsJournal c" prior] last that by blast
  have "provenBy B plan r s u"
  proof (cases reused)
    case None
    have "provenBy B plan r e u"
    proof (rule erasePlan_ok)
      show "erasePlan B X input plan os (getReceiptForPlan (planId plan) (rsJournal c)) d e = (u, Inr (Settled r))"
        using finish None by (simp add: finish_def)
      show "receiptCovers plan prior \<and> getReceiptForPlan (planId plan) (rsJournal e) \<noteq> None" if "d = Some prior" for prior
        using held [OF that] later_kept(1) [OF ce] by blast
    qed
    then show ?thesis by (rule provenBy_mono [OF later_trans [OF sc ce]])
  next
    case (Some receipt)
    with finish have fin: "receipt = r" "u = e" by (auto simp: finish_def basic_ok)
    from reused Some obtain prior e1 where d: "d = Some prior"
      and e1: "awaitA B (settleActiveReadersAndWriters B) c = (e1, Inr True)"
      and re: "reuseReceipt B X plan (getReceiptForPlan (planId plan) (rsJournal c)) prior e1 = (e, Inr (Some receipt))"
      unfolding reuse_def by (cases d) (auto simp: basic_ok elim!: bindA_ok split: if_splits)
    have c1: "later B c e1" by (rule safeA_run [OF laterRuns.runs_awaits(1) e1])
    have kept: "getReceiptForPlan (planId plan) (rsJournal e1) \<noteq> None" using held [OF d] later_kept(1) [OF c1] by blast
    have "provenBy B plan r e1 u"
      using reuseReceipt_ok [OF re kept] held [OF d] fin by (simp add: provenBy_def)
    then show ?thesis by (rule provenBy_mono [OF later_trans [OF sc c1]])
  qed
  with planFor show ?thesis by blast
qed

lemma settleStop_ok:
  fixes B :: "'w RetentionBoundary"
  assumes "settleStop B X input i s = Some (u, Inr r)"
  shows "\<exists>plan. planFor input plan (rsJournal s) \<and> provenBy B plan r s u"
proof -
  let ?P = "\<lambda>(B :: 'w RetentionBoundary) (X :: externals) (input :: StopInput) (i :: jsstring) s (z :: 'w RetentionState \<times> RetentionReceipt result). \<forall>r. snd z = Inr r \<longrightarrow>
    (\<exists>plan. planFor input plan (rsJournal s) \<and> provenBy B plan r s (fst z))"
  have step: "?P B X input i s z"
    if IH: "\<And>B X input i s z. f B X input i s = Some z \<Longrightarrow> ?P B X input i s z"
      and body: "(case enforcePass B X input i s of (s', Inl e) \<Rightarrow> Some (s', Inl e)
        | (s', Inr (Settled receipt)) \<Rightarrow> Some (s', Inr receipt)
        | (s', Inr OwnershipChanged) \<Rightarrow> f B X input i s') = Some z" for f B X input i s z
  proof (intro allI impI)
    fix r assume z: "snd z = Inr r"
    obtain t q where pass: "enforcePass B X input i s = (t, q)" by fastforce
    show "\<exists>plan. planFor input plan (rsJournal s) \<and> provenBy B plan r s (fst z)"
    proof (cases "q = Inr OwnershipChanged")
      case True
      with body pass have "f B X input i t = Some z" by simp
      from IH [OF this] z obtain plan where
        plan: "planFor input plan (rsJournal t)" "provenBy B plan r t (fst z)" by blast
      have st: "later B s t" by (rule safeA_run [OF laterRuns.runs_pass(2) pass])
      with plan show ?thesis using planFor_later provenBy_mono unfolding later_def by blast
    next
      case False
      with body z pass have "q = Inr (Settled r)" "fst z = t"
        by (auto split: sum.splits PassResult.splits)
      with enforcePass_ok pass show ?thesis by blast
    qed
  qed
  note induct = settleStop.raw_induct [where P = ?P, OF _ assms]
  have "?P B X input i s (u, Inr r)" by (rule induct) (rule step)
  then show ?thesis by simp
qed

theorem enforceStop_proof:
  assumes "enforceStop B X input s = Some (u, Inr r)"
  shows "\<exists>plan t. later B s t \<and> planFor input plan (rsJournal s) \<and> provenBy B plan r t u"
proof -
  define entered where "entered = yieldA B (yieldA B (s\<lparr>rsCoordinator := enterStop (rsCoordinator s)\<rparr>))"
  have se: "later B s entered"
    using yieldA_later [of B "s\<lparr>rsCoordinator := enterStop (rsCoordinator s)\<rparr>"] yieldA_later unfolding entered_def
    by (metis later_coordinator(2) later_trans)
  define openStop where "openStop i = bindA (awaitOperations B (stopDeadlineMs input)) (\<lambda>_. writeA (recordStopAndDenials (localeCompare B)
      (StopInput.extend input \<lparr>stopEventId = i\<rparr>) (sortedSet (localeCompare B)
         (concat (map ownDerivedIds (listOwnership (localeCompare B) (stopLane input) (stopProviderId input) (rsJournal s)))))))" for i
  have safe: "safeA B (openStop i)" for i unfolding openStop_def by (intro safe_rules)
  obtain i t u' where opened: "openStop i entered = (t, Inr ())" and run: "settleStop B X input i t = Some (u', Inr r)"
    and u: "u = u'\<lparr>rsCoordinator := leaveStop (rsCoordinator u')\<rparr>"
    using assms unfolding enforceStop_def Let_def entered_def [symmetric] openStop_def [symmetric]
    by (auto split: sum.splits prod.splits)
  have st: "later B s t" by (rule later_trans [OF se safeA_run [OF safe opened]])
  from settleStop_ok [OF run] obtain plan where plan: "planFor input plan (rsJournal t)" "provenBy B plan r t u'" by blast
  have "provenBy B plan r t u" using plan(2)
    unfolding provenBy_def planErased_def confirmedAbsent_def u by simp
  with st plan(1) show ?thesis using planFor_later unfolding later_def by blast
qed

end
