(* ===== verification/ScenarioRetention.thy ===== *)
theory ScenarioRetention
  imports StopLaws
begin

text \<open>
  A stop of a provider with one retained artifact: the coordinator is idle, the boundary erases and
  confirms, the clock stands before the deadline. The digest function is injective, so that the
  identifiers of different records differ.
\<close>

definition sampleRealm :: externals where
  "sampleRealm = cleanRealm (map ucast)"

lemma well_formed_digest [simp]: "well_formed (digest sampleRealm d v)"
proof (rule well_formed_units)
  fix u assume "u \<in> set (digest sampleRealm d v)"
  then obtain b :: "8 word" where "u = ucast b" by (auto simp: digest_def sampleRealm_def cleanRealm_def)
  moreover have "unat b < 2 ^ LENGTH(8)" by (rule unsigned_less)
  ultimately have "unat u < 256" by (simp add: unsigned_ucast_eq take_bit_eq_mod)
  then show "\<not> is_high u \<and> \<not> is_low u" by (auto simp: high_bounds low_bounds)
qed

lemma digest_length: "length (digest sampleRealm d v) = 16 + byteLength d + jbytes v"
  by (simp add: digest_def sampleRealm_def cleanRealm_def canonPreimage_def preimage_def frame_def
      length_lengthPrefix byteLength_def jbytes_exact)

definition sampleProvider :: jsstring where
  "sampleProvider = js (''p_'' @ replicate 64 (CHR ''1''))"

lemma sampleProvider_ok [simp]: "retentionId sampleProvider"
  by code_simp

definition sampleStop :: StopInput where
  "sampleStop = \<lparr>stopPolicyId = ALPACA_RETENTION_POLICY_ID, stopLane = LaneAlpaca, stopProviderId = sampleProvider,
     stopEffectiveAtMs = 5, stopDeadlineMs = 20, stopReason = OwnerRevocation\<rparr>"

definition sampleDigest :: jsstring where
  "sampleDigest = js ''digest''"

definition sampleOwnership :: RetentionOwnership where
  "sampleOwnership = \<lparr>ownPolicyId = ALPACA_RETENTION_POLICY_ID, ownLane = LaneAlpaca, ownProviderId = sampleProvider,
     ownDatasetId = js ''dataset'', ownFeedId = js ''feed'', ownEndpointChannelId = js ''channel'',
     ownArtifactObservationId = js ''observation'', ownArtifactDigest = sampleDigest, ownArtifactSizeBytes = 100,
     ownDerivedIds = [js ''derived''], ownTrustedCaptureMs = 1, ownExpiresAtMs = 1000, ownershipId = js ''ownership''\<rparr>"

definition sampleJournal :: MemoryArtifactRetentionJournal where
  "sampleJournal = \<lparr>jOwnership = [(js ''ownership'', sampleOwnership)],
     jDerivedOwnership = [(js ''ownership'', [js ''derived''])], jStops = [], jProviderDenials = [], jDigestDenials = [],
     jDerivedDenials = [], jPlans = [], jAttempts = [], jTombstones = [], jReceipts = [],
     jReceiptRevalidations = [], jRevalidationCheckpoints = [], jCheckpoints = []\<rparr>"

definition sampleState :: "unit RetentionState" where
  "sampleState = \<lparr>rsJournal = sampleJournal,
     rsCoordinator = \<lparr>admissionClosed = False, pendingStops = 0, activeOperations = 0\<rparr>, rsWorld = ()\<rparr>"

definition sampleErasure :: "jsstring \<Rightarrow> ErasureResult" where
  "sampleErasure d = \<lparr>erasureArtifactDigest = d, erasedContent = 1, erasedStaging = 0, erasedSnapshot = 0,
     erasedQuarantine = 0, alreadyAbsent = False\<rparr>"

definition sampleBoundary :: "unit RetentionBoundary" where
  "sampleBoundary = \<lparr>localeCompare = orderOf, clockNow = (\<lambda>w. (10, w)), settleActiveReadersAndWriters = (\<lambda>w. (Inr True, w)),
     eraseDigestCopies = (\<lambda>d w. (Inr (sampleErasure d), w)), verifyDigestCopiesAbsent = (\<lambda>d w. (Inr True, w)),
     faultBoundary = (\<lambda>c w. (Inr (), w)), awaitIdle = (\<lambda>n w. (True, w)), otherTasks = (\<lambda>w. ([], w))\<rparr>"

text \<open>The journal at the start of the run, and after the stop was recorded.\<close>

definition sampleNew :: MemoryArtifactRetentionJournal where
  "sampleNew = \<lparr>jOwnership = [], jDerivedOwnership = [], jStops = [], jProviderDenials = [], jDigestDenials = [],
     jDerivedDenials = [], jPlans = [], jAttempts = [], jTombstones = [], jReceipts = [],
     jReceiptRevalidations = [], jRevalidationCheckpoints = [], jCheckpoints = []\<rparr>"

lemma sample_created: "createMemoryArtifactRetentionJournal True = Inr sampleNew"
  by (simp add: createMemoryArtifactRetentionJournal_def sampleNew_def)

lemma sample_registered: "performOperation lc (RegisterOwnership sampleOwnership) sampleNew = sampleJournal"
  by (simp add: performOperation_def registerOwnershipAndApplyActiveStop_def recordOnce_def sampleNew_def sampleJournal_def
      mapSet_def lineageOf_def providerUseDenied_def addAll_def setAdd_def sampleOwnership_def)

section \<open>The run\<close>

lemma scalar_wf: "well_formed s \<Longrightarrow> scalar s"
  by (rule well_formed_scalar)

lemmas json_fields = ownership_fields_def stop_fields_def plan_fields_def attempt_fields_def tombstone_fields_def
  receipt_fields_def checkpoint_fields_def planWithoutHash_json_def strings_json_def field_def

lemma sample_now: "trustedNow sampleBoundary s = (s, Inr 10)"
  by (simp add: trustedNow_def sampleBoundary_def safeTime_def isSafeInteger_def MAX_SAFE_INTEGER_def)

lemma sample_await: "awaitA sampleBoundary f s = (s\<lparr>rsWorld := snd (f (rsWorld s))\<rparr>, fst (f (rsWorld s)))"
  by (simp add: awaitA_def yieldA_def sampleBoundary_def split: prod.splits)

lemma sample_fault: "faultA sampleBoundary c s = (s, Inr ())"
  by (simp add: faultA_def sample_await) (simp add: sampleBoundary_def)

lemma sample_calls:
  "awaitA sampleBoundary (settleActiveReadersAndWriters sampleBoundary) s = (s, Inr True)"
  "awaitA sampleBoundary (verifyDigestCopiesAbsent sampleBoundary d) s = (s, Inr True)"
  "awaitA sampleBoundary (eraseDigestCopies sampleBoundary d) s = (s, Inr (sampleErasure d))"
  by (simp_all add: sample_await) (simp_all add: sampleBoundary_def)


definition sampleStopId :: jsstring where
  "sampleStopId = js ''rst1_'' @ digest sampleRealm (js ''peas/market-acquisition-retention-stop/v1'') (JObj (stop_fields sampleStop))"

lemma sampleProvider_scalar [simp]: "scalar sampleProvider"
  by (simp add: sampleProvider_def)

lemma safe_ints: "isSafeInteger 0" "isSafeInteger 1" "isSafeInteger 5" "isSafeInteger 10" "isSafeInteger 20" "isSafeInteger 100"
  by (simp_all add: isSafeInteger_def MAX_SAFE_INTEGER_def)

lemma prefixed_wf [simp]: "well_formed (js p @ digest sampleRealm d v)"
  by (simp add: well_formed_append well_formed_js)

lemma scalar_prefixed [simp]: "scalar (js p @ digest sampleRealm d v)"
  by (rule scalar_wf) simp

lemma scalar_digest [simp]: "scalar (digest sampleRealm d v)"
  by (rule scalar_wf) simp

lemma prefixed_Inr: "valid_json v \<Longrightarrow> prefixed X p d v = Inr (js p @ digest X (js d) v)"
  by (simp add: prefixed_def)

lemma sample_stop_valid: "valid_json (JObj (stop_fields sampleStop))"
  by (simp add: json_fields sampleStop_def ALPACA_RETENTION_POLICY_ID_def safe_ints)

lemma sample_listed: "listOwnership orderOf LaneAlpaca sampleProvider J = [sampleOwnership]"
  if "jOwnership J = jOwnership sampleJournal" "jDerivedOwnership J = jDerivedOwnership sampleJournal"
  using that by (simp add: listOwnership_def selectOwnership_def sampleJournal_def sampleOwnership_def withDerived_def lineageOf_def)

lemma sample_validStop: "validateStop sampleStop = Inr ()"
  by (simp add: validateStop_def sampleStop_def assertId_def assertSafeTime_def safeTime_def safe_ints policyFor_def
      ALPACA_PRIVATE_ARTIFACT_POLICY_def ALPACA_STOP_GRACE_DAYS_def UTC_DAY_MS_def dadd_exact) code_simp

lemma sample_stopId: "deriveStopEventId sampleRealm orderOf sampleStop [sampleOwnership] sampleJournal = Inr sampleStopId"
  by (simp add: deriveStopEventId_def deriveRetentionStopEventId_def prefixed_Inr [OF sample_stop_valid] sampleStopId_def getPlanForStop_def
      sameStrings_def strings_json_def sortedSet_def addAll_def setAdd_def sampleOwnership_def)
     (simp add: sampleJournal_def)


definition samplePlanBody :: PlanBody where
  "samplePlanBody = \<lparr>planPolicyId = ALPACA_RETENTION_POLICY_ID, planLane = LaneAlpaca, planProviderId = sampleProvider,
     planDatasetIds = [js ''dataset''], planFeedIds = [js ''feed''], planEndpointChannelIds = [js ''channel''],
     planArtifactObservationIds = [js ''observation''], planArtifactDigests = [sampleDigest],
     planDerivedIds = [js ''derived''], planStopEventId = sampleStopId, planEffectiveAtMs = 5, planDeadlineMs = 20,
     planPredecessorReceiptId = None\<rparr>"

lemma sampleStopId_scalar [simp]: "scalar sampleStopId" "scalar sampleDigest"
  by (simp_all add: sampleStopId_def sampleDigest_def)

lemma sample_plan_valid: "valid_json (JObj (plan_fields samplePlanBody))"
  by (simp add: json_fields samplePlanBody_def ALPACA_RETENTION_POLICY_ID_def safe_ints)

lemma sample_sorted [simp]: "sortedSet orderOf [x] = [x]"
  by (simp add: sortedSet_def addAll_def setAdd_def)

lemma sample_planBody:
  "\<lparr>planPolicyId = stopPolicyId sampleStop, planLane = stopLane sampleStop, planProviderId = stopProviderId sampleStop,
     planDatasetIds = sortedSet orderOf (map ownDatasetId [sampleOwnership]),
     planFeedIds = sortedSet orderOf (map ownFeedId [sampleOwnership]),
     planEndpointChannelIds = sortedSet orderOf (map ownEndpointChannelId [sampleOwnership]),
     planArtifactObservationIds = sortedSet orderOf (map ownArtifactObservationId [sampleOwnership]),
     planArtifactDigests = sortedSet orderOf (map ownArtifactDigest [sampleOwnership]),
     planDerivedIds = sortedSet orderOf (concat (map ownDerivedIds [sampleOwnership])),
     planStopEventId = sampleStopId, planEffectiveAtMs = stopEffectiveAtMs sampleStop,
     planDeadlineMs = stopDeadlineMs sampleStop, planPredecessorReceiptId = None\<rparr> = samplePlanBody"
  by (simp add: samplePlanBody_def sampleStop_def sampleOwnership_def)

lemma sample_plan_hashed:
  "valid_json (planWithoutHash_json (PlanBody.extend samplePlanBody \<lparr>planId = js p @ digest sampleRealm d v\<rparr>))"
  by (simp add: json_fields samplePlanBody_def PlanBody.defs ALPACA_RETENTION_POLICY_ID_def safe_ints)

text \<open>What the rest of the run needs to know of the plan.\<close>

definition samplePlanOk :: "RetentionErasurePlan \<Rightarrow> bool" where
  "samplePlanOk plan \<longleftrightarrow> scalar (planId plan) \<and> scalar (planHash plan) \<and> planLane plan = LaneAlpaca \<and>
     planProviderId plan = sampleProvider \<and> planArtifactDigests plan = [sampleDigest] \<and>
     planArtifactObservationIds plan = [js ''observation''] \<and> planDerivedIds plan = [js ''derived''] \<and>
     recomputeRetentionPlanHash sampleRealm plan = Inr (planHash plan)"

lemma sample_buildPlan:
  obtains plan where "buildPlan sampleRealm orderOf sampleStop sampleStopId [sampleOwnership] = Inr plan" "samplePlanOk plan"
proof -
  define body where "body = PlanBody.extend samplePlanBody \<lparr>planId = js ''rpl1_'' @ digest sampleRealm
       (js ''peas/market-acquisition-retention-plan/v1'') (JObj (plan_fields samplePlanBody))\<rparr>"
  define h where "h = digest sampleRealm (js ''peas/market-acquisition-retention-plan-record/v1'') (planWithoutHash_json body)"
  let ?plan = "PlanWithoutHash.extend body \<lparr>planHash = h\<rparr>"
  have valid: "valid_json (planWithoutHash_json body)" unfolding body_def by (rule sample_plan_hashed)
  have same: "planWithoutHash_json ?plan = planWithoutHash_json body"
    by (simp add: planWithoutHash_json_def plan_fields_def PlanWithoutHash.defs)
  have "buildPlan sampleRealm orderOf sampleStop sampleStopId [sampleOwnership] = Inr ?plan"
    unfolding buildPlan_def sample_planBody Let_def deriveRetentionPlanId_def prefixed_Inr [OF sample_plan_valid] bindR_simps
      deriveRetentionPlanHash_def body_def [symmetric] canonicalHash_valid [OF valid] h_def ..
  moreover have "samplePlanOk ?plan"
    unfolding samplePlanOk_def recomputeRetentionPlanHash_def same canonicalHash_valid [OF valid] h_def [symmetric]
    by (simp add: PlanWithoutHash.defs body_def PlanBody.defs samplePlanBody_def h_def)
  ultimately show ?thesis by (rule that)
qed

lemma sample_attempt:
  assumes "scalar p"
  obtains a where "attemptRecord sampleRealm p sampleDigest 0 10 outcome = Inr a"
    "attemptPlanId a = p" "attemptArtifactDigest a = sampleDigest" "attemptOrdinal a = 0" "attemptOutcome a = outcome"
    "length (attemptId a) = 21 + byteLength (js ''peas/market-acquisition-retention-attempt/v1'') +
       jbytes (JObj (attempt_fields \<lparr>attemptPlanId = p, attemptArtifactDigest = sampleDigest, attemptOrdinal = 0,
         attemptStartedAtMs = 10, attemptOutcome = outcome\<rparr>))"
proof -
  let ?body = "\<lparr>attemptPlanId = p, attemptArtifactDigest = sampleDigest, attemptOrdinal = 0, attemptStartedAtMs = 10,
    attemptOutcome = outcome\<rparr>"
  have valid: "valid_json (JObj (attempt_fields ?body))"
    using assms by (cases outcome) (simp_all add: json_fields safe_ints)
  show ?thesis
    by (rule that [of "AttemptBody.extend ?body \<lparr>attemptId = js ''rea1_'' @ digest sampleRealm
        (js ''peas/market-acquisition-retention-attempt/v1'') (JObj (attempt_fields ?body))\<rparr>"])
      (simp_all only: attemptRecord_def Let_def deriveRetentionAttemptId_def prefixed_Inr [OF valid] bindR_simps,
       simp_all add: AttemptBody.defs digest_length)
qed

lemma attempts_differ:
  "jbytes (JObj (attempt_fields \<lparr>attemptPlanId = p, attemptArtifactDigest = d, attemptOrdinal = 0,
     attemptStartedAtMs = 10, attemptOutcome = AttemptStarted\<rparr>)) \<noteq>
   jbytes (JObj (attempt_fields \<lparr>attemptPlanId = p, attemptArtifactDigest = d, attemptOrdinal = 0,
     attemptStartedAtMs = 10, attemptOutcome = AttemptErased\<rparr>))"
proof -
  have "byteLength (jsonQuote (js ''started'')) \<noteq> byteLength (jsonQuote (js ''erased''))" by code_simp
  then show ?thesis by (simp add: attempt_fields_def field_def)
qed

lemma sample_tombstone:
  assumes "scalar p" "jTombstones (rsJournal s) = []"
  obtains t where "recordTombstoneA sampleBoundary sampleRealm p sampleDigest s =
    (s\<lparr>rsJournal := (rsJournal s)\<lparr>jTombstones := [(sampleDigest, t)]\<rparr>\<rparr>, Inr ())"
proof -
  let ?body = "\<lparr>tombPlanId = p, tombArtifactDigest = sampleDigest, tombRecordedAtMs = 10\<rparr>"
  have valid: "valid_json (JObj (tombstone_fields ?body))"
    using assms(1) by (simp add: json_fields safe_ints)
  show ?thesis
    by (rule that [of "TombstoneBody.extend ?body \<lparr>tombstoneId = js ''rtm1_'' @ digest sampleRealm
        (js ''peas/market-acquisition-retention-tombstone/v1'') (JObj (tombstone_fields ?body))\<rparr>"])
      (simp add: recordTombstoneA_def bindA_def readA_def hasTombstone_def assms(2) sample_now Let_def liftA_def
        deriveRetentionTombstoneId_def prefixed_Inr [OF valid] writeA_def recordTombstone_def recordOnce_def
        TombstoneBody.defs mapSet_def sample_fault)
qed

lemma sample_recordAttempt:
  assumes "attemptRecord X p d n t outcome = Inr a" "map_of (jAttempts (rsJournal s)) (attemptId a) = None"
  shows "recordAttemptA X p d n t outcome s =
    (s\<lparr>rsJournal := (rsJournal s)\<lparr>jAttempts := jAttempts (rsJournal s) @ [(attemptId a, a)]\<rparr>\<rparr>, Inr ())"
proof -
  have "mapSet (attemptId a) a (jAttempts (rsJournal s)) = jAttempts (rsJournal s) @ [(attemptId a, a)]"
    by (rule mapSet_new) (use assms(2) in \<open>simp add: map_of_eq_None_iff\<close>)
  with assms show ?thesis by (simp add: recordAttemptA_def bindA_def liftA_def writeA_def recordAttempt_def recordOnce_def)
qed

lemma sample_erase:
  assumes "samplePlanOk plan" "jAttempts (rsJournal s) = []" "jTombstones (rsJournal s) = []"
  obtains A t where "length A = 2" "eraseDigest sampleBoundary sampleRealm 20 plan sampleDigest s =
    (s\<lparr>rsJournal := (rsJournal s)\<lparr>jAttempts := A, jTombstones := [(sampleDigest, t)]\<rparr>\<rparr>, Inr ())"
proof -
  have p: "scalar (planId plan)" using assms(1) by (simp add: samplePlanOk_def)
  obtain a where a: "attemptRecord sampleRealm (planId plan) sampleDigest 0 10 AttemptStarted = Inr a"
      "length (attemptId a) = 21 + byteLength (js ''peas/market-acquisition-retention-attempt/v1'') +
       jbytes (JObj (attempt_fields \<lparr>attemptPlanId = planId plan, attemptArtifactDigest = sampleDigest, attemptOrdinal = 0,
         attemptStartedAtMs = 10, attemptOutcome = AttemptStarted\<rparr>))"
    using sample_attempt [OF p] by blast
  obtain b where b: "attemptRecord sampleRealm (planId plan) sampleDigest 0 10 AttemptErased = Inr b"
      "length (attemptId b) = 21 + byteLength (js ''peas/market-acquisition-retention-attempt/v1'') +
       jbytes (JObj (attempt_fields \<lparr>attemptPlanId = planId plan, attemptArtifactDigest = sampleDigest, attemptOrdinal = 0,
         attemptStartedAtMs = 10, attemptOutcome = AttemptErased\<rparr>))"
    using sample_attempt [OF p] by blast
  have ab: "attemptId b \<noteq> attemptId a"
  proof
    assume "attemptId b = attemptId a"
    then have "length (attemptId a) = length (attemptId b)" by (simp only:)
    then show False unfolding a(2) b(2) add_left_cancel by (rule notE [OF attempts_differ])
  qed
  define S where "S = s\<lparr>rsJournal := (rsJournal s)\<lparr>jAttempts := [(attemptId a, a)]\<rparr>\<rparr>"
  define T where "T = s\<lparr>rsJournal := (rsJournal s)\<lparr>jAttempts := [(attemptId a, a), (attemptId b, b)]\<rparr>\<rparr>"
  have started: "recordAttemptA sampleRealm (planId plan) sampleDigest 0 10 AttemptStarted s = (S, Inr ())"
    using sample_recordAttempt [OF a(1), of s] by (simp add: assms(2) S_def)
  have erased: "recordAttemptA sampleRealm (planId plan) sampleDigest 0 10 AttemptErased S = (T, Inr ())"
    using sample_recordAttempt [OF b(1), of S] ab by (simp add: T_def S_def)
  have none: "pendingStarted [] = None" "latestOrdinal [] = - 1" "completedAttempt [] = False"
    by (simp_all add: pendingStarted_def completedAttempt_def latestRows_def latestOrdinal_def)
  have copies: "alreadyAbsent (sampleErasure sampleDigest) = False" by (simp add: sampleErasure_def)
  have physical: "physicalErasure sampleBoundary sampleRealm (planId plan) sampleDigest [] s = (T, Inr ())"
    by (simp add: physicalErasure_def none bindA_def sample_now started sample_fault returnA_def catchA_def sample_calls(3)
        copies erased)
  obtain t where t: "recordTombstoneA sampleBoundary sampleRealm (planId plan) sampleDigest T =
    (T\<lparr>rsJournal := (rsJournal T)\<lparr>jTombstones := [(sampleDigest, t)]\<rparr>\<rparr>, Inr ())"
    by (rule sample_tombstone [OF p, of T]) (simp_all add: assms(3) T_def)
  have fresh: "attemptsFor (planId plan) sampleDigest (rsJournal s) = []" "hasTombstone sampleDigest (rsJournal s) = False"
    by (simp_all add: attemptsFor_def hasTombstone_def assms(2,3))
  have "eraseDigest sampleBoundary sampleRealm 20 plan sampleDigest s =
      (T\<lparr>rsJournal := (rsJournal T)\<lparr>jTombstones := [(sampleDigest, t)]\<rparr>\<rparr>, Inr ())"
    by (simp add: eraseDigest_def bindA_def assertDeadline_def sample_now returnA_def readA_def fresh none physical t)
  then show ?thesis by (intro that [of "[(attemptId a, a), (attemptId b, b)]" t]) (simp_all add: T_def)
qed

definition sampleDenied :: "MemoryArtifactRetentionJournal \<Rightarrow> bool" where
  "sampleDenied J \<longleftrightarrow> jOwnership J = jOwnership sampleJournal \<and> jDerivedOwnership J = jDerivedOwnership sampleJournal \<and>
     jProviderDenials J = [providerDenialKey LaneAlpaca sampleProvider] \<and> jDerivedDenials J = [js ''derived''] \<and>
     jReceipts J = [] \<and> jReceiptRevalidations J = [] \<and> jCheckpoints J = []"

lemma sample_verified:
  assumes "samplePlanOk plan" "sampleDenied (rsJournal s)" "jTombstones (rsJournal s) = [(sampleDigest, t)]"
  shows "verifyPlanErased sampleBoundary plan s = (s, Inr ())"
  using assms
  by (simp add: verifyPlanErased_def samplePlanOk_def bindA_def readA_def providerUseDenied_def sampleDenied_def returnA_def
      verifyDigestErased_def digestUseDenied_def hasTombstone_def sample_calls derivedUseDenied_def)

lemma sample_checkpointed:
  assumes "scalar p" "scalar q" "planId plan = p" "receiptId r = q" "receiptCompletedAtMs r = 10" "jCheckpoints (rsJournal s) = []"
  shows "\<exists>u. ensureCheckpoint sampleBoundary sampleRealm plan r s = (u, Inr ())"
proof -
  have valid: "valid_json (JObj (checkpoint_fields \<lparr>checkPlanId = p, checkReceiptId = q, checkSequence = 0, checkCompletedAtMs = 10\<rparr>))"
    using assms(1,2) by (simp add: json_fields safe_ints)
  show ?thesis
    by (simp add: ensureCheckpoint_def bindA_def readA_def getCheckpoint_def assms(3-6) liftA_def checkpointRecord_def Let_def
        deriveRetentionCheckpointId_def prefixed_Inr [OF valid] writeA_def recordCheckpoint_def recordOnce_def mapSet_def
        CheckpointBody.defs sample_fault)
qed

lemma length_addAll: "length (addAll xs ys) \<le> length xs + length ys"
proof (induction xs arbitrary: ys)
  case (Cons x xs)
  have "length (setAdd x ys) \<le> Suc (length ys)" by (simp add: setAdd_def)
  with Cons [of "setAdd x ys"] show ?case by (simp add: addAll_def)
qed (simp add: addAll_def)

lemma sample_issued:
  assumes "samplePlanOk plan" "sampleDenied (rsJournal s)" "length (jAttempts (rsJournal s)) = 2"
  shows "\<exists>u r. issueReceipt sampleBoundary sampleRealm plan [sampleOwnership] s = (u, Inr r)"
proof -
  define n where "n = int (length (addAll (map attemptKey (planAttempts plan (rsJournal s))) []))"
  have "length (planAttempts plan (rsJournal s)) \<le> 2"
    using assms(1,3) length_filter_le [of _ "map snd (jAttempts (rsJournal s))"]
    by (simp add: planAttempts_def samplePlanOk_def attemptsFor_def)
  then have "n \<le> 2" using length_addAll [of "map attemptKey (planAttempts plan (rsJournal s))" "[]"] by (simp add: n_def)
  then have n: "isSafeInteger n" by (simp add: n_def isSafeInteger_def MAX_SAFE_INTEGER_def)
  let ?body = "\<lparr>receiptPlanId = planId plan, receiptPlanHash = planHash plan, receiptArtifactDigests = planArtifactDigests plan,
     receiptArtifactObservationIds = planArtifactObservationIds plan, receiptPriorSizeBytes = 100, receiptAttemptCount = n,
     receiptCompletedAtMs = 10\<rparr>"
  have valid: "valid_json (JObj (receipt_fields ?body))"
    using assms(1) n by (simp add: json_fields safe_ints samplePlanOk_def)
  let ?r = "ReceiptBody.extend ?body \<lparr>receiptId = js ''rrc1_'' @ digest sampleRealm
      (js ''peas/market-acquisition-retention-receipt/v1'') (JObj (receipt_fields ?body))\<rparr>"
  have receipt: "receiptRecord sampleRealm ?body = Inr ?r"
    by (simp only: receiptRecord_def deriveRetentionReceiptId_def prefixed_Inr [OF valid] bindR_simps)
  have size: "priorSizeBytes [sampleOwnership] = Inr 100"
    by (simp add: priorSizeBytes_def mapSet_def sampleOwnership_def dadd_exact safe_ints)
  let ?s = "s\<lparr>rsJournal := (rsJournal s)\<lparr>jReceipts := [(planId plan, ?r)]\<rparr>\<rparr>"
  obtain u where u: "ensureCheckpoint sampleBoundary sampleRealm plan ?r ?s = (u, Inr ())"
    using sample_checkpointed [of "planId plan" "receiptId ?r" plan ?r ?s] assms(1,2)
    by (auto simp: samplePlanOk_def sampleDenied_def ReceiptBody.defs)
  have fields: "receiptPlanId ?r = planId plan" by (simp add: ReceiptBody.defs)
  have "issueReceipt sampleBoundary sampleRealm plan [sampleOwnership] s = (u, Inr ?r)"
    using assms(2) unfolding issueReceipt_def n_def [symmetric]
    by (simp add: bindA_def liftA_def size readA_def sample_now n_def [symmetric] receipt writeA_def recordReceipt_def
        recordOnce_def fields sampleDenied_def mapSet_def getReceiptForPlan_def sample_fault u returnA_def)
  then show ?thesis by blast
qed

lemma sample_pass:
  assumes "sampleDenied (rsJournal s)" "jPlans (rsJournal s) = []" "jAttempts (rsJournal s) = []" "jTombstones (rsJournal s) = []"
  shows "\<exists>u r. enforcePass sampleBoundary sampleRealm sampleStop sampleStopId s = (u, Inr (Settled r))"
proof -
  obtain plan where plan: "buildPlan sampleRealm orderOf sampleStop sampleStopId [sampleOwnership] = Inr plan" "samplePlanOk plan"
    by (rule sample_buildPlan)
  define S where "S = s\<lparr>rsJournal := (rsJournal s)\<lparr>jPlans := [(planId plan, plan)]\<rparr>\<rparr>"
  obtain A t where A: "length A = 2" "eraseDigest sampleBoundary sampleRealm 20 plan sampleDigest S =
      (S\<lparr>rsJournal := (rsJournal S)\<lparr>jAttempts := A, jTombstones := [(sampleDigest, t)]\<rparr>\<rparr>, Inr ())"
    by (rule sample_erase [OF plan(2), of S]) (simp_all add: assms S_def)
  define T where "T = S\<lparr>rsJournal := (rsJournal S)\<lparr>jAttempts := A, jTombstones := [(sampleDigest, t)]\<rparr>\<rparr>"
  have erased: "eraseDigest sampleBoundary sampleRealm 20 plan sampleDigest S = (T, Inr ())" using A(2) by (simp add: T_def)
  have denied: "sampleDenied (rsJournal T)" using assms(1) by (simp add: sampleDenied_def T_def S_def)
  have verified: "verifyPlanErased sampleBoundary plan T = (T, Inr ())"
    by (rule sample_verified [OF plan(2) denied, of t]) (simp add: T_def)
  obtain u r where issued: "issueReceipt sampleBoundary sampleRealm plan [sampleOwnership] T = (u, Inr r)"
    using sample_issued [OF plan(2) denied] A(1) by (auto simp: T_def)
  have listed: "listOwnership orderOf LaneAlpaca sampleProvider (rsJournal s) = [sampleOwnership]"
    "listOwnership orderOf LaneAlpaca sampleProvider (rsJournal T) = [sampleOwnership]"
    using assms(1) denied by (simp_all only: sampleDenied_def sample_listed)
  have same: "sameStrings [ownershipId sampleOwnership] [ownershipId sampleOwnership] = Inr True"
    by (simp add: sameStrings_def strings_json_def sampleOwnership_def)
  have stop: "stopLane sampleStop = LaneAlpaca" "stopProviderId sampleStop = sampleProvider" "stopDeadlineMs sampleStop = 20"
    by (simp_all add: sampleStop_def)
  have lc: "localeCompare sampleBoundary = orderOf" by (simp add: sampleBoundary_def)
  have erase: "erasePlan sampleBoundary sampleRealm sampleStop plan [sampleOwnership] None None S = (u, Inr (Settled r))"
    using plan(2) listed(2)
    by (simp add: erasePlan_def bindA_def stop assertDeadline_def sample_now returnA_def sample_calls sample_fault samplePlanOk_def
        erased verified readA_def lc liftA_def same issued)
  have recorded: "writeA (recordPlan plan) s = (S, Inr ())"
    using assms(2) by (simp add: writeA_def recordPlan_def recordOnce_def mapSet_def S_def)
  have read: "getPlan (planId plan) (rsJournal S) = Some plan" "getReceiptForPlan (planId plan) (rsJournal S) = None"
    "latestReceipt sampleRealm plan None (rsJournal S) = Inr None"
    using assms(1) by (simp_all add: getPlan_def getReceiptForPlan_def latestReceipt_def receiptRevalidationsForPlan_def
        S_def sampleDenied_def)
  have intact: "recomputeRetentionPlanHash sampleRealm plan = Inr (planHash plan)" using plan(2) by (simp add: samplePlanOk_def)
  have "enforcePass sampleBoundary sampleRealm sampleStop sampleStopId s = (u, Inr (Settled r))"
    by (simp add: enforcePass_def bindA_def sample_fault readA_def stop lc listed(1) liftA_def plan(1) recorded read intact
        returnA_def erase)
  then show ?thesis by blast
qed

definition sampleStopEvent :: RetentionStopEvent where
  "sampleStopEvent = StopInput.extend sampleStop \<lparr>stopEventId = sampleStopId\<rparr>"

definition sampleStopped :: MemoryArtifactRetentionJournal where
  "sampleStopped = sampleJournal\<lparr>jStops := [(sampleStopId, sampleStopEvent)],
     jProviderDenials := [providerDenialKey LaneAlpaca sampleProvider], jDigestDenials := [sampleDigest],
     jDerivedDenials := [js ''derived'']\<rparr>"

lemma sample_event: "stopLane sampleStopEvent = LaneAlpaca" "stopProviderId sampleStopEvent = sampleProvider"
    "stopEventId sampleStopEvent = sampleStopId"
  by (simp_all add: sampleStopEvent_def StopInput.defs sampleStop_def)

lemma sample_recorded: "recordStopAndDenials orderOf sampleStopEvent [js ''derived''] sampleJournal = Inr sampleStopped"
  by (simp add: recordStopAndDenials_def recordOnce_def sample_event sample_listed sampleStopped_def)
    (simp add: sampleJournal_def setAdd_def addAll_def mapSet_def sampleOwnership_def)

lemma sample_performed: "performOperation orderOf (RecordStop sampleStopEvent [js ''derived'']) sampleJournal = sampleStopped"
  by (simp add: performOperation_def sample_recorded)

lemma sample_denied: "digestUseDenied sampleDigest sampleStopped"
  by (simp add: digestUseDenied_def sampleStopped_def)

lemma sample_owned: "jOwnership sampleStopped = [(js ''ownership'', sampleOwnership)]" "ownLane sampleOwnership = stopLane sampleStopEvent"
    "ownProviderId sampleOwnership = stopProviderId sampleStopEvent" "ownArtifactDigest sampleOwnership = sampleDigest"
  by (simp_all add: sampleStopped_def sampleJournal_def sample_event sampleOwnership_def)

lemma sample_enforced: "\<exists>u r. enforceStop sampleBoundary sampleRealm sampleStop sampleState = Some (u, Inr r)"
proof -
  have stop: "stopLane sampleStop = LaneAlpaca" "stopProviderId sampleStop = sampleProvider" by (simp_all add: sampleStop_def)
  have lc: "localeCompare sampleBoundary = orderOf" by (simp add: sampleBoundary_def)
  have listed: "listOwnership orderOf LaneAlpaca sampleProvider sampleJournal = [sampleOwnership]" by (rule sample_listed) simp_all
  have yield: "yieldA sampleBoundary s = s" for s by (simp add: yieldA_def sampleBoundary_def)
  define s where "s = \<lparr>rsJournal = sampleStopped, rsCoordinator = enterStop \<lparr>admissionClosed = False, pendingStops = 0, activeOperations = 0\<rparr>, rsWorld = ()\<rparr>"
  have J: "sampleDenied sampleStopped" "jPlans sampleStopped = []" "jAttempts sampleStopped = []" "jTombstones sampleStopped = []"
    by (simp_all add: sampleDenied_def sampleStopped_def) (simp_all add: sampleJournal_def)
  obtain u r where "enforcePass sampleBoundary sampleRealm sampleStop sampleStopId s = (u, Inr (Settled r))"
    using sample_pass [of s] J by (auto simp: s_def)
  then have settled: "settleStop sampleBoundary sampleRealm sampleStop sampleStopId s = Some (u, Inr r)"
    by (simp add: settleStop.simps)
  have "sortedSet orderOf (concat (map ownDerivedIds [sampleOwnership])) = [js ''derived'']" by (simp add: sampleOwnership_def)
  then show ?thesis
    using settled sample_recorded
    by (simp add: enforceStop_def Let_def lc stop sampleState_def listed sample_validStop sample_stopId yield
        awaitOperations_def enterStop_def bindA_def returnA_def writeA_def s_def sampleStopEvent_def)
qed

end
