(* ===== verification/StopReturns.thy ===== *)
theory StopReturns
  imports StopLaws
begin

text \<open>
  The enforcement of a stop starts again when an ownership was registered while it erased. As long as
  no other task registers one, the table of ownerships stays as it is in every run
  (\<open>sameOwnership\<close>, one more relation that runs follow), so that the first pass settles and the
  call returns.
\<close>

definition noRegistration :: "'w RetentionBoundary \<Rightarrow> bool" where
  "noRegistration B \<longleftrightarrow> (\<forall>w v. OtherJournal (RegisterOwnership v) \<notin> set (fst (otherTasks B w)))"

definition sameOwnership :: "'w RetentionBoundary \<Rightarrow> 'w RetentionState \<Rightarrow> 'w RetentionState \<Rightarrow> bool" where
  "sameOwnership B s t \<longleftrightarrow> (noRegistration B \<longrightarrow> jOwnership (rsJournal t) = jOwnership (rsJournal s))"

lemma registersOwnership_iff: "registersOwnership op \<longleftrightarrow> (\<exists>v. op = RegisterOwnership v)"
  by (cases op) simp_all

lemma attempted_ownership:
  assumes "attemptOperation lc op J = Inr J'" "\<not> registersOwnership op"
  shows "jOwnership J' = jOwnership J"
  using assms
  by (cases op) (auto simp: result_simps registerDerivedLineageAndApplyActiveStop_def recordStopAndDenials_def recordPlan_def
      recordAttempt_def recordTombstone_def recordReceipt_def recordReceiptRevalidation_def
      recordReceiptRevalidationAndCheckpoint_def recordCheckpoint_def Let_def split: option.splits if_splits)

lemma otherStep_ownership:
  assumes "\<And>v. st \<noteq> OtherJournal (RegisterOwnership v)"
  shows "jOwnership (rsJournal (otherStep lc st s)) = jOwnership (rsJournal s)"
proof (cases st)
  case (OtherJournal op)
  with assms have "\<not> registersOwnership op" by (simp add: registersOwnership_iff)
  then show ?thesis by (auto simp: OtherJournal performOperation_def attempted_ownership split: sum.splits)
qed simp_all

lemma otherSteps_ownership:
  assumes "\<And>v. OtherJournal (RegisterOwnership v) \<notin> set sts"
  shows "jOwnership (rsJournal (fold (otherStep lc) sts s)) = jOwnership (rsJournal s)"
  using assms
proof (induction sts arbitrary: s)
  case (Cons st sts)
  then have "jOwnership (rsJournal (otherStep lc st s)) = jOwnership (rsJournal s)"
    by (intro otherStep_ownership) auto
  with Cons show ?case by simp
qed simp

interpretation ownershipRuns: controller_runs B "sameOwnership B" for B
proof (unfold_locales, goal_cases)
  case (4 s)
  show ?case unfolding sameOwnership_def yieldA_def noRegistration_def
  proof
    assume "\<forall>w v. OtherJournal (RegisterOwnership v) \<notin> set (fst (otherTasks B w))"
    then show "jOwnership (rsJournal (case otherTasks B (rsWorld s) of (steps, w) \<Rightarrow>
        fold (otherStep (localeCompare B)) steps (s\<lparr>rsWorld := w\<rparr>))) = jOwnership (rsJournal s)"
      by (cases "otherTasks B (rsWorld s)") (metis (no_types, lifting) RetentionState.select_convs(1) RetentionState.surjective
          RetentionState.update_convs(3) case_prod_conv fst_conv otherSteps_ownership)
  qed
qed (auto simp: sameOwnership_def attempted_ownership)

lemma listed_ids: "map ownershipId (listOwnership lc lane p J) = map ownershipId
    (sortBy (\<lambda>left right. lc (ownershipId left) (ownershipId right))
      (filter (\<lambda>value. ownLane value = lane \<and> ownProviderId value = p) (map snd (jOwnership J))))"
  by (simp add: listOwnership_def selectOwnership_def comp_def)

lemma sameStrings_self: "sameStrings a a \<noteq> Inr False"
  by (auto simp: sameStrings_def result_simps)

lemma erasePlan_unchanged:
  assumes "noRegistration B"
    and "map ownershipId os = map ownershipId (listOwnership (localeCompare B) (stopLane input) (stopProviderId input) (rsJournal s))"
  shows "erasePlan B X input plan os b p s \<noteq> (u, Inr OwnershipChanged)"
proof
  assume run: "erasePlan B X input plan os b p s = (u, Inr OwnershipChanged)"
  let ?listed = "listOwnership (localeCompare B) (stopLane input) (stopProviderId input)"
  obtain s1 s2 s3 s4 s5 where
    steps: "assertDeadline B (stopDeadlineMs input) s = (s1, Inr ())"
      "awaitA B (settleActiveReadersAndWriters B) s1 = (s2, Inr True)"
      "faultA B (js ''retention-resources-settled'') s2 = (s3, Inr ())"
      "forA (eraseDigest B X (stopDeadlineMs input) plan) (planArtifactDigests plan) s3 = (s4, Inr ())"
      "verifyPlanErased B plan s4 = (s5, Inr ())"
    and changed: "sameStrings (map ownershipId (?listed (rsJournal s5))) (map ownershipId os) = Inr False"
    using run unfolding erasePlan_def
    by (elim bindA_ok) (auto simp: basic_ok elim!: bindA_ok split: if_splits)
  have "sameOwnership B s s5"
    using runsA_run [OF ownershipRuns.runs_checks(1) steps(1)] runsA_run [OF ownershipRuns.runs_awaits(1) steps(2)]
      runsA_run [OF ownershipRuns.runs_awaits(4) steps(3)]
      runsA_run [OF ownershipRuns.runs_for [OF ownershipRuns.runs_eraseDigest] steps(4)]
      runsA_run [OF ownershipRuns.runs_erasure(1) steps(5)] by (meson ownershipRuns.run_trans)
  with assms have "map ownershipId (?listed (rsJournal s5)) = map ownershipId os"
    by (simp add: sameOwnership_def listed_ids)
  with changed sameStrings_self show False by simp
qed

lemma enforcePass_settles:
  assumes "noRegistration B"
  shows "enforcePass B X input i s \<noteq> (u, Inr OwnershipChanged)"
proof
  assume run: "enforcePass B X input i s = (u, Inr OwnershipChanged)"
  define reuse where "reuse plan base d = (case d of
         None \<Rightarrow> returnA None
       | Some prior \<Rightarrow>
           bindA (awaitA B (settleActiveReadersAndWriters B)) (\<lambda>settled.
           if \<not> settled then failA ''retention-erasure-unprovable'' ''retention-verify''
           else reuseReceipt B X plan base prior))" for plan base d
  define finish where "finish plan os base d reused = (case reused of
       Some receipt \<Rightarrow> returnA (Settled receipt) | None \<Rightarrow> erasePlan B X input plan os base d)" for plan os base d reused
  have safe: "runsA (sameOwnership B) (reuse plan base d)" for plan base d unfolding reuse_def by (intro safe_rules)
  let ?listed = "listOwnership (localeCompare B) (stopLane input) (stopProviderId input)"
  obtain a plan b c base d e reused where
    steps: "writeA (recordPlan plan) a = (b, Inr ())" "faultA B (js ''retention-plan-committed'') b = (c, Inr ())"
      "reuse plan base d c = (e, Inr reused)"
    and finish: "finish plan (?listed (rsJournal a)) base d reused e = (u, Inr OwnershipChanged)"
    using run unfolding enforcePass_def reuse_def [symmetric] finish_def [symmetric]
    by (elim bindA_ok) (auto simp: basic_ok elim!: bindA_ok split: if_splits)
  have "sameOwnership B a e"
    using runsA_run [OF ownershipRuns.runs_records(1) steps(1)] runsA_run [OF ownershipRuns.runs_awaits(4) steps(2)]
      runsA_run [OF safe steps(3)] by (meson ownershipRuns.run_trans)
  with assms have ids: "map ownershipId (?listed (rsJournal a)) = map ownershipId (?listed (rsJournal e))"
    by (simp add: sameOwnership_def listed_ids)
  from finish have "erasePlan B X input plan (?listed (rsJournal a)) base d e = (u, Inr OwnershipChanged)"
    by (auto simp: finish_def basic_ok split: option.splits)
  with erasePlan_unchanged [OF assms ids] show False by blast
qed

lemma settleStop_returns:
  assumes "noRegistration B"
  shows "\<exists>u r. settleStop B X input i s = Some (u, r)"
  using enforcePass_settles [OF assms]
  by (subst settleStop.simps) (auto split: prod.splits sum.splits PassResult.splits)

lemma enforceStop_settles:
  assumes "noRegistration B"
  shows "\<exists>u r. enforceStop B X input s = Some (u, r)"
  using settleStop_returns [OF assms]
  by (fastforce simp: enforceStop_def Let_def split: sum.splits prod.splits)

end
