(* ===== verification/RetentionInvariants.thy ===== *)
theory RetentionInvariants
  imports StopLaws
begin

text \<open>
  What a permitted use of an artifact shows of the journal, and the invariant of the revalidations:
  no plan has two with the same sequence number, and no receipt is recorded twice.
\<close>

section \<open>Permitted uses\<close>

lemma trustedNow_journal: "trustedNow B s = (t, r) \<Longrightarrow> rsJournal t = rsJournal s"
  by (auto simp: trustedNow_def split: prod.splits)

lemma allowedNow_ok:
  "assertArtifactUseAllowedNow B d s = (u, Inr y) \<Longrightarrow> \<not> digestUseDenied d (rsJournal s)"
  "assertDerivedUseAllowedNow B i s = (u, Inr y) \<Longrightarrow> \<not> derivedUseDenied i (rsJournal s)"
  unfolding assertArtifactUseAllowedNow_def assertDerivedUseAllowedNow_def
  by (auto simp: basic_ok elim!: bindA_ok dest: trustedNow_journal split: if_splits)

lemma safeA_allowedNow [safe_rules]:
  "safeA B (assertArtifactUseAllowedNow B d)" "safeA B (assertDerivedUseAllowedNow B i)"
  unfolding assertArtifactUseAllowedNow_def assertDerivedUseAllowedNow_def by (intro safe_rules)+

lemma for_refutes:
  assumes "forA f xs s = (u, Inr y)" "\<And>x. safeA B (f x)" "x \<in> set xs"
    and "\<And>s u. f x s = (u, Inr ()) \<Longrightarrow> \<not> P (rsJournal s)" "\<And>J J'. retentionGrows J J' \<Longrightarrow> P J \<Longrightarrow> P J'"
  shows "\<not> P (rsJournal s)"
proof -
  obtain a b where "later B s a" "f x a = (b, Inr ())" using forA_ok [OF assms(1,2,3)] by blast
  with assms(4,5) show ?thesis unfolding later_def by blast
qed

lemma for_allowed_ok:
  "forA (assertArtifactUseAllowedNow B) ds s = (u, Inr y) \<Longrightarrow> d \<in> set ds \<Longrightarrow> \<not> digestUseDenied d (rsJournal s)"
  "forA (assertDerivedUseAllowedNow B) is s = (u, Inr y) \<Longrightarrow> i \<in> set is \<Longrightarrow> \<not> derivedUseDenied i (rsJournal s)"
  by (erule for_refutes [OF _ safeA_allowedNow(1)], assumption, erule allowedNow_ok, erule (1) denied_later)
    (erule for_refutes [OF _ safeA_allowedNow(2)], assumption, erule allowedNow_ok, erule (1) denied_later)

lemma assertAllowed_ok:
  assumes "assertAllowed B ds is s = (u, Inr y)"
  shows "d \<in> set ds \<Longrightarrow> \<not> digestUseDenied d (rsJournal s)" "i \<in> set is \<Longrightarrow> \<not> derivedUseDenied i (rsJournal s)"
    "ds = [] \<Longrightarrow> is = [] \<Longrightarrow> jProviderDenials (rsJournal s) = []"
proof -
  define reconcile where "reconcile = (if ds = [] \<and> is = []
            then bindA (trustedNow B) (\<lambda>now. bindA (readA (reconciliationUseDenied now)) (\<lambda>denied.
              if denied then failA ''retention-stop-required'' ''artifact-verify'' else returnA ()))
            else returnA ())"
  have safe: "safeA B reconcile" unfolding reconcile_def by (intro safe_rules)
  obtain t t' where rec: "reconcile s = (t, Inr ())"
    and digests: "forA (assertArtifactUseAllowedNow B) ds t = (t', Inr ())"
    and derived: "forA (assertDerivedUseAllowedNow B) is t' = (u, Inr y)"
    using assms unfolding assertAllowed_def reconcile_def [symmetric]
    by (auto simp: admissionA_def basic_ok elim!: bindA_ok split: if_splits)
  have st: "later B s t" by (rule safeA_run [OF safe rec])
  have tt: "later B t t'" by (rule safeA_run [OF laterRuns.runs_for [OF safeA_allowedNow(1)] digests])
  show "d \<in> set ds \<Longrightarrow> \<not> digestUseDenied d (rsJournal s)"
    using for_allowed_ok(1) [OF digests] st denied_later(2) unfolding later_def by blast
  show "i \<in> set is \<Longrightarrow> \<not> derivedUseDenied i (rsJournal s)"
    using for_allowed_ok(2) [OF derived] later_trans [OF st tt] denied_later(3) unfolding later_def by blast
  show "jProviderDenials (rsJournal s) = []" if "ds = []" "is = []"
    using rec that unfolding reconcile_def
    by (auto simp: basic_ok reconciliationUseDenied_def elim!: bindA_ok dest: trustedNow_journal split: if_splits)
qed

lemma beginUse_ok:
  assumes "beginUse B ds is s = (u, Inr y)"
  shows "d \<in> set ds \<Longrightarrow> \<not> digestUseDenied d (rsJournal s)" "i \<in> set is \<Longrightarrow> \<not> derivedUseDenied i (rsJournal s)"
    "ds = [] \<Longrightarrow> is = [] \<Longrightarrow> jProviderDenials (rsJournal s) = []"
proof -
  obtain t where t: "assertAllowed B (sortedSet (localeCompare B) ds) (sortedSet (localeCompare B) is) s = (t, Inr ())"
    using assms by (auto simp: beginUse_def Let_def elim: bindA_ok)
  show "d \<in> set ds \<Longrightarrow> \<not> digestUseDenied d (rsJournal s)" using assertAllowed_ok(1) [OF t] by simp
  show "i \<in> set is \<Longrightarrow> \<not> derivedUseDenied i (rsJournal s)" using assertAllowed_ok(2) [OF t] by simp
  show "jProviderDenials (rsJournal s) = []" if "ds = []" "is = []"
  proof (rule assertAllowed_ok(3) [OF t])
    show "sortedSet (localeCompare B) ds = []" "sortedSet (localeCompare B) is = []"
      using that by (simp_all add: sortedSet_def addAll_def)
  qed
qed

lemma commitArtifact_ok: "commitArtifact B X auth input commit s = (u, Inr y) \<Longrightarrow> jProviderDenials (rsJournal s) = []"
  unfolding commitArtifact_def by (auto simp: basic_ok elim!: bindA_ok dest: beginUse_ok(3))

lemma assertArtifactUseAllowed_ok: "assertArtifactUseAllowed B d s = (u, Inr y) \<Longrightarrow> \<not> digestUseDenied d (rsJournal s)"
  unfolding assertArtifactUseAllowed_def
  by (auto simp: admissionA_def basic_ok elim!: bindA_ok dest: allowedNow_ok(1) split: if_splits)

lemma refused: "(\<And>u y. m s = (u, Inr y) \<Longrightarrow> False) \<Longrightarrow> isl (snd (m s))"
  by (cases "m s") (auto simp: isl_def split: sum.splits intro: sum.exhaust)


section \<open>Evidence\<close>

lemma map_of_prefix: "prefix m m' \<Longrightarrow> map_of m k = Some x \<Longrightarrow> map_of m' k = Some x"
  by (auto simp: prefix_def map_add_Some_iff)

lemma evidence_kept:
  assumes "retentionGrows J J'"
  shows "getPlan p J = Some a \<Longrightarrow> getPlan p J' = Some a"
    "getReceiptForPlan p J = Some b \<Longrightarrow> getReceiptForPlan p J' = Some b"
    "getCheckpoint p J = Some c \<Longrightarrow> getCheckpoint p J' = Some c"
    "set (attemptsFor p d J) \<subseteq> set (attemptsFor p d J')"
  using assms
  by (auto simp: retentionGrows_def getPlan_def getReceiptForPlan_def getCheckpoint_def attemptsFor_def
      intro: map_of_prefix dest: set_mono_prefix)


section \<open>Revalidations\<close>

definition revalidationsDistinct :: "MemoryArtifactRetentionJournal \<Rightarrow> bool" where
  "revalidationsDistinct J \<longleftrightarrow>
     distinct (map (\<lambda>e. (revalPlanId (snd e), revalSequence (snd e))) (jReceiptRevalidations J)) \<and>
     distinct (map (\<lambda>e. receiptId (revalReceipt (snd e))) (jReceiptRevalidations J))"

lemma revalidations_cases:
  assumes "attemptOperation lc op J = Inr J'"
  shows "jReceiptRevalidations J' = jReceiptRevalidations J \<or>
    (\<exists>k v. jReceiptRevalidations J' = jReceiptRevalidations J @ [(k, v)] \<and>
       (\<forall>e \<in> set (jReceiptRevalidations J). \<not> (revalPlanId (snd e) = revalPlanId v \<and> revalSequence (snd e) = revalSequence v) \<and>
          receiptId (revalReceipt (snd e)) \<noteq> receiptId (revalReceipt v)))"
proof (cases op)
  case (RecordRevalidation v)
  with assms show ?thesis
    by (auto simp: recordReceiptRevalidation_def result_simps list_ex_iff mapSet_new map_of_eq_None_iff split: option.splits if_splits)
next
  case (RecordRevalidationCheckpoint v c)
  with assms have admissible: "revalidationAdmissible v J = Inr ()"
    and J': "jReceiptRevalidations J' = setIfAbsent (revalidationId v) v (jReceiptRevalidations J)"
    by (auto simp: recordReceiptRevalidationAndCheckpoint_def result_simps split: if_splits)
  show ?thesis
  proof (cases "map_of (jReceiptRevalidations J) (revalidationId v)")
    case None
    with admissible show ?thesis unfolding J'
      by (auto simp: revalidationAdmissible_def list_ex_iff setIfAbsent_def mapSet_new map_of_eq_None_iff split: if_splits)
  qed (simp add: J' setIfAbsent_def)
qed (insert assms, auto simp: result_simps registerOwnershipAndApplyActiveStop_def registerDerivedLineageAndApplyActiveStop_def
    recordStopAndDenials_def recordPlan_def recordAttempt_def recordTombstone_def recordReceipt_def recordCheckpoint_def Let_def
    split: option.splits if_splits)

lemma performOperation_distinct: "revalidationsDistinct J \<Longrightarrow> revalidationsDistinct (performOperation lc op J)"
proof (cases "attemptOperation lc op J")
  case (Inr J')
  assume "revalidationsDistinct J"
  with revalidations_cases [OF Inr] show ?thesis
    unfolding revalidationsDistinct_def performOperation_def by (fastforce simp: Inr)
qed (simp add: performOperation_def)

lemma history_distinct: "revalidationsDistinct J \<Longrightarrow> revalidationsDistinct (fold (performOperation lc) ops J)"
  by (induction ops arbitrary: J) (auto intro: performOperation_distinct)

lemma new_journal_distinct: "createMemoryArtifactRetentionJournal authority = Inr J \<Longrightarrow> revalidationsDistinct J"
  by (auto simp: createMemoryArtifactRetentionJournal_def revalidationsDistinct_def bindR_if)

lemma plan_revalidations_distinct:
  assumes "revalidationsDistinct J"
  shows "distinct (map revalSequence (receiptRevalidationsForPlan p J))"
proof -
  let ?of = "filter (\<lambda>value. revalPlanId value = p) (map snd (jReceiptRevalidations J))"
  have "distinct (map (\<lambda>value. (revalPlanId value, revalSequence value)) ?of)"
    using assms unfolding revalidationsDistinct_def
    by (auto simp: distinct_map inj_on_def comp_def intro!: distinct_filter)
  then have "distinct (map revalSequence ?of)" by (auto simp: distinct_map inj_on_def)
  then show ?thesis
    by (simp add: receiptRevalidationsForPlan_def)
qed

end
