(* ===== verification/RetentionProperties.thy ===== *)
theory RetentionProperties
  imports ScenarioRetention StopReturns RetentionInvariants
begin

text \<open>
  The properties of acquisition retention: what a receipt proves, that a stop ends every use, that
  evidence is permanent, and that the enforcement of a stop returns. \<open>ScenarioRetention\<close> holds the
  run on which the witnesses rest.
\<close>

section \<open>Receipts\<close>

text \<open>
  C32. A receipt is proof of erasure. If \<open>enforceStop\<close> returns a receipt, whatever other tasks did at
  its awaits, the provider is denied; every ownership of the provider that was registered when the
  call began has its digest on the receipt and its derived identifiers denied; and every digest on the
  receipt is denied, has a tombstone, and was confirmed absent by the artifact boundary at a moment of
  the call at which the denial and the tombstone were already recorded. The receipt and its checkpoint
  are in the journal.
\<close>

theorem receipt_is_proof:
  assumes "enforceStop B X input s = Some (u, Inr r)"
  shows "providerUseDenied (stopLane input) (stopProviderId input) (rsJournal u) \<and>
    (\<forall>v \<in> snd ` set (jOwnership (rsJournal s)). ownLane v = stopLane input \<and> ownProviderId v = stopProviderId input \<longrightarrow>
       ownArtifactDigest v \<in> set (receiptArtifactDigests r) \<and>
       (\<forall>i \<in> set (lineageOf (rsJournal s) (ownershipId v)). derivedUseDenied i (rsJournal u))) \<and>
    (\<forall>d \<in> set (receiptArtifactDigests r). digestUseDenied d (rsJournal u) \<and> hasTombstone d (rsJournal u) \<and>
       confirmedAbsent B d s u) \<and>
    getReceiptForPlan (receiptPlanId r) (rsJournal u) \<noteq> None \<and> getCheckpoint (receiptPlanId r) (rsJournal u) \<noteq> None"
proof -
  obtain plan t where st: "later B s t" and plan: "planFor input plan (rsJournal s)" and proven: "provenBy B plan r t u"
    using enforceStop_proof [OF assms] by blast
  from provenBy_mono [OF st proven] have erased: "planErased B plan s u"
    and r: "receiptArtifactDigests r = planArtifactDigests plan" "receiptPlanId r = planId plan"
    and settled: "settledIn plan (rsJournal u)" by (simp_all add: provenBy_def receiptCovers_def)
  have absent: "confirmedAbsent B d s u" if "d \<in> set (receiptArtifactDigests r)" for d
    using erased that by (simp add: planErased_def r)
  have covered: "ownArtifactDigest v \<in> set (receiptArtifactDigests r) \<and>
       (\<forall>i \<in> set (lineageOf (rsJournal s) (ownershipId v)). derivedUseDenied i (rsJournal u))"
    if "v \<in> snd ` set (jOwnership (rsJournal s))" "ownLane v = stopLane input \<and> ownProviderId v = stopProviderId input" for v
  proof -
    from plan that have "ownArtifactDigest v \<in> set (planArtifactDigests plan)"
      "set (lineageOf (rsJournal s) (ownershipId v)) \<subseteq> set (planDerivedIds plan)" unfolding planFor_def by blast+
    with erased show ?thesis unfolding planErased_def r by blast
  qed
  show ?thesis
  proof (intro conjI ballI impI)
    show "providerUseDenied (stopLane input) (stopProviderId input) (rsJournal u)"
      using erased plan by (simp add: planErased_def planFor_def)
    show "getReceiptForPlan (receiptPlanId r) (rsJournal u) \<noteq> None" "getCheckpoint (receiptPlanId r) (rsJournal u) \<noteq> None"
      using settled by (simp_all add: settledIn_def r)
  qed (use covered absent confirmedAbsent_recorded [OF absent] in blast)+
qed

theorem receipt_is_proof_witness:
  "\<exists>u r. enforceStop sampleBoundary sampleRealm sampleStop sampleState = Some (u, Inr r) \<and>
     sampleDigest \<in> set (receiptArtifactDigests r) \<and> hasTombstone sampleDigest (rsJournal u)"
proof -
  obtain u r where run: "enforceStop sampleBoundary sampleRealm sampleStop sampleState = Some (u, Inr r)"
    using sample_enforced by blast
  have "sampleOwnership \<in> snd ` set (jOwnership (rsJournal sampleState))"
    by (simp add: sampleState_def sampleJournal_def)
  moreover have "ownLane sampleOwnership = stopLane sampleStop \<and> ownProviderId sampleOwnership = stopProviderId sampleStop"
    by (simp add: sampleOwnership_def sampleStop_def)
  ultimately have "sampleDigest \<in> set (receiptArtifactDigests r)"
    using receipt_is_proof [OF run] by (metis RetentionTypes.OwnershipInput.select_convs(8) sampleOwnership_def)
  with receipt_is_proof [OF run] run show ?thesis by blast
qed




section \<open>Uses and evidence\<close>

text \<open>
  C33. A stop ends every use of the artifacts of its provider. After a stop was recorded in a journal
  with any history, and whatever is recorded afterwards, an artifact of an ownership of the provider
  can not be used, also if the ownership was registered after the stop: the check of its digest and
  every lease that includes its digest, or one of the derived identifiers of the stop, is refused. No
  new artifact can be committed, and no lease for reconciliation is given.
\<close>

theorem stop_blocks_use:
  assumes "createMemoryArtifactRetentionJournal authority = Inr J0"
    and "recordStopAndDenials (localeCompare B) stop ds (fold (performOperation (localeCompare B)) before J0) = Inr J"
    and "rsJournal s = fold (performOperation (localeCompare B)) after J"
    and "v \<in> snd ` set (jOwnership (rsJournal s))" "ownLane v = stopLane stop" "ownProviderId v = stopProviderId stop"
  shows "isl (snd (assertArtifactUseAllowed B (ownArtifactDigest v) s)) \<and>
    (\<forall>digests derived. ownArtifactDigest v \<in> set digests \<or> set derived \<inter> set ds \<noteq> {} \<longrightarrow> isl (snd (beginUse B digests derived s))) \<and>
    isl (snd (beginUse B [] [] s)) \<and> isl (snd (commitArtifact B X testAuthority input commit s))"
proof -
  have "denialsClosed (fold (performOperation (localeCompare B)) before J0)"
    by (rule history_closed [OF new_journal_closed [OF assms(1)]])
  then have closed: "denialsClosed (rsJournal s)"
    unfolding assms(3) by (rule history_closed [OF recordStop_closed [OF assms(2)]])
  have later: "retentionGrows J (rsJournal s)" unfolding assms(3) by (rule history_grows_retention)
  have J: "providerUseDenied (stopLane stop) (stopProviderId stop) J" "i \<in> set ds \<Longrightarrow> derivedUseDenied i J" for i
    using assms(2) by (auto simp: recordStopAndDenials_def result_simps providerUseDenied_def derivedUseDenied_def)
  have provider: "providerUseDenied (stopLane stop) (stopProviderId stop) (rsJournal s)" by (rule denied_later(1) [OF later J(1)])
  have digest: "digestUseDenied (ownArtifactDigest v) (rsJournal s)"
    using closed assms(4-6) provider unfolding denialsClosed_def digestUseDenied_def by auto
  have derived: "derivedUseDenied i (rsJournal s)" if "i \<in> set ds" for i by (rule denied_later(3) [OF later J(2) [OF that]])
  have denied: "jProviderDenials (rsJournal s) \<noteq> []" using provider by (auto simp: providerUseDenied_def)
  show ?thesis
  proof (intro conjI allI impI)
    show "isl (snd (assertArtifactUseAllowed B (ownArtifactDigest v) s))"
      by (rule refused, drule assertArtifactUseAllowed_ok) (simp add: digest)
    show "isl (snd (beginUse B [] [] s))" by (rule refused, drule beginUse_ok(3)) (simp_all add: denied)
    show "isl (snd (commitArtifact B X testAuthority input commit s))"
      by (rule refused, drule commitArtifact_ok) (simp add: denied)
    fix digests derived'
    assume "ownArtifactDigest v \<in> set digests \<or> set derived' \<inter> set ds \<noteq> {}"
    then consider "ownArtifactDigest v \<in> set digests" | i where "i \<in> set derived'" "i \<in> set ds" by blast
    then show "isl (snd (beginUse B digests derived' s))"
      by cases (rule refused; use digest derived in \<open>auto dest: beginUse_ok(1,2)\<close>)+
  qed
qed

theorem stop_blocks_use_witness:
  "isl (snd (assertArtifactUseAllowed sampleBoundary sampleDigest (sampleState\<lparr>rsJournal := sampleStopped\<rparr>))) \<and>
   isl (snd (beginUse sampleBoundary [] [] (sampleState\<lparr>rsJournal := sampleStopped\<rparr>)))"
proof -
  have lc: "localeCompare sampleBoundary = orderOf" by (simp add: sampleBoundary_def)
  have "sampleOwnership \<in> snd ` set (jOwnership sampleStopped)" "ownLane sampleOwnership = stopLane sampleStopEvent"
    "ownProviderId sampleOwnership = stopProviderId sampleStopEvent" "ownArtifactDigest sampleOwnership = sampleDigest"
    by (simp_all add: sample_owned)
  then show ?thesis
    using stop_blocks_use [where B = sampleBoundary and before = "[RegisterOwnership sampleOwnership]" and after = "[]" and J = sampleStopped
        and stop = sampleStopEvent and ds = "[js ''derived'']" and v = sampleOwnership and s = "sampleState\<lparr>rsJournal := sampleStopped\<rparr>"
        and X = sampleRealm and testAuthority = True and input = "OwnershipInput.truncate sampleOwnership"
        and commit = "\<lambda>w. (Inr (), w)", OF sample_created] sample_registered sample_recorded by (simp add: lc)
qed

text \<open>
  C34. Evidence is permanent. In every journal that any history of calls leads to, and for every
  further history: plans, receipts and checkpoints are the same afterwards, attempts, tombstones and
  denials are still there, a denied provider has all its digests denied, and the revalidations of a
  plan have different sequence numbers.
\<close>

theorem retention_evidence_permanent:
  assumes "createMemoryArtifactRetentionJournal authority = Inr J0"
    and "J = fold (performOperation lc) before J0" "J' = fold (performOperation lc) after J"
  shows "denialsClosed J \<and> distinct (map revalSequence (receiptRevalidationsForPlan p J)) \<and>
    (\<forall>plan. getPlan p J = Some plan \<longrightarrow> getPlan p J' = Some plan) \<and>
    (\<forall>receipt. getReceiptForPlan p J = Some receipt \<longrightarrow> getReceiptForPlan p J' = Some receipt) \<and>
    (\<forall>checkpoint. getCheckpoint p J = Some checkpoint \<longrightarrow> getCheckpoint p J' = Some checkpoint) \<and>
    set (attemptsFor p d J) \<subseteq> set (attemptsFor p d J') \<and> (hasTombstone d J \<longrightarrow> hasTombstone d J') \<and>
    (providerUseDenied lane q J \<longrightarrow> providerUseDenied lane q J') \<and> (digestUseDenied d J \<longrightarrow> digestUseDenied d J') \<and>
    (derivedUseDenied i J \<longrightarrow> derivedUseDenied i J')"
proof -
  have grows: "retentionGrows J J'" unfolding assms(3) by (rule history_grows_retention)
  have "denialsClosed J" unfolding assms(2) by (rule history_closed [OF new_journal_closed [OF assms(1)]])
  moreover have "distinct (map revalSequence (receiptRevalidationsForPlan p J))"
    unfolding assms(2) by (rule plan_revalidations_distinct [OF history_distinct [OF new_journal_distinct [OF assms(1)]]])
  ultimately show ?thesis using evidence_kept [OF grows] denied_later [OF grows] by simp
qed

theorem retention_evidence_permanent_witness:
  "denialsClosed sampleStopped \<and> digestUseDenied sampleDigest (performOperation orderOf (RegisterOwnership sampleOwnership) sampleStopped)"
  using retention_evidence_permanent [where before = "[RegisterOwnership sampleOwnership, RecordStop sampleStopEvent [js ''derived'']]"
      and after = "[RegisterOwnership sampleOwnership]" and d = sampleDigest and lc = orderOf, OF sample_created refl refl]
    sample_registered sample_performed sample_denied by simp

end
