(* ===== verification/Spec2Isabelle.thy ===== *)
theory Spec2Isabelle
  imports Inert KernelProperties ProcessingProperties AcquisitionProperties StudyProperties RetentionProperties
begin

text \<open>
  \<^bold>\<open>Verification of the PEAS engine: the event kernel, market acquisition, retention and the study statistics.\<close>

  The engine captures provider records as immutable events in a hash-chained log, and runs
  deterministic reducers over the log. A run is registered with a manifest; a processor feeds it the
  log event by event; every step is one atomic commit of a cursor, an aggregate checkpoint and
  immutable outputs into a processing store. The same processor over a captured copy of the log must
  reproduce the run. Beside this kernel, market acquisition fetches pages from a market data provider
  under a rolling quota, with bounded retries, driven by a state machine whose steps are recorded in a
  hash-chained journal; a retention controller erases the artifacts of a provider whose licence ends and
  keeps the evidence of it. A study over the acquired references allocates its sample to strata, estimates
  movements by a bootstrap, and decides by fixed gates and a multiple-testing procedure.

  \<^bold>\<open>Theories and sources\<close> (paths under \<^verbatim>\<open>src/src/\<close>).

  \<^item> \<open>Prelude\<close>: errors as values (\<open>error + 'a\<close>, \<open>bindR\<close>, \<open>foldR\<close>), UTF-16 strings, decimal
    numerals, association lists.
  \<^item> \<open>JsString\<close>, \<open>Json\<close>, \<open>JsHeap\<close>, \<open>JsonParse\<close>: \<^verbatim>\<open>core/json.ts\<close>. Strings are lists of 16-bit
    words; \<open>JsHeap\<close> has JavaScript values as references into a heap of property descriptors, so that
    proxies, accessors, symbols, sparse arrays, cycles and sharing are visible to the limit check and
    the encoder; \<open>Json\<close> is the tree the rest of the program works on; \<open>JsonParse\<close> is
    \<open>JSON.parse\<close>, with number rounding. \<open>Inert\<close> describes inert data by the shape of the objects alone
    and shows that the property reads of the source accept exactly that.
  \<^item> \<open>Schema\<close>, \<open>NodeEnv\<close>: the zod schemas the sources declare, as data, with the documented
    behaviour of the parser as the assumptions of the locale \<open>node_env\<close>. SHA-256 and zod are
    parameters, collected in the record \<open>externals\<close>; \<open>Sha256\<close> gives an executable SHA-256 and
    interprets the locale.
  \<^item> \<open>Hash\<close> (\<^verbatim>\<open>core/hash.ts\<close>), \<open>Clock\<close> (\<^verbatim>\<open>core/clock.ts\<close>), \<open>BigInt\<close> (decimal \<open>BigInt\<close> parsing),
    \<open>Event\<close> (\<^verbatim>\<open>core/event.ts\<close>), \<open>EventLog\<close> (\<^verbatim>\<open>adapters/memory/event-log.ts\<close> and
    \<^verbatim>\<open>captured-event-log.ts\<close>; the locale \<open>event_log\<close> is the read contract of both).
  \<^item> \<open>Registration\<close>, \<open>Commit\<close>, \<open>Processor\<close>: \<^verbatim>\<open>core/processor.ts\<close>; \<open>ProcessingStore\<close>:
    \<^verbatim>\<open>adapters/memory/processing-store.ts\<close>. State is passed explicitly; a throw after a mutation keeps
    the mutation, as in the source.
  \<^item> \<open>Sizes\<close>, \<open>CommitLaws\<close>, \<open>OutputLaws\<close>, \<open>TransitionLaws\<close>, \<open>VerifyLaws\<close>, \<open>StoreLaws\<close>,
    \<open>StoreRefinement\<close>, \<open>Deployment\<close>, \<open>ProcessorLaws\<close>, \<open>Production\<close>, \<open>Replay\<close>, \<open>ReplayLaws\<close>: the laws of these
    components. \<open>represents\<close> is the abstraction of the store (a list of commits per run);
    \<open>reachable\<close> is the step relation of a whole deployment; the locale \<open>processing\<close> joins an event
    log to the processor; \<open>reproduces\<close> is the simulation between a live run and its replay.
  \<^item> \<open>Quota\<close>, \<open>Retry\<close>, \<open>PageIdentity\<close>, \<open>AcquisitionTypes\<close>, \<open>Acquisition\<close>, \<open>Journal\<close>:
    \<^verbatim>\<open>quota.ts\<close>, \<^verbatim>\<open>retry.ts\<close>, the page and continuation identities of \<^verbatim>\<open>journal.ts\<close>,
    \<^verbatim>\<open>state-machine.ts\<close>, \<^verbatim>\<open>journal.ts\<close> and \<^verbatim>\<open>memory-journal.ts\<close> under
    \<^verbatim>\<open>adapters/market-acquisition/\<close>; \<open>AcquisitionLaws\<close> and \<open>JournalLaws\<close> hold their laws, and
    \<open>AppendOnly\<close> shows that the event log and the journal are append-only stores.
  \<^item> \<open>OwnedState\<close>: the production state of an acquisition, the class \<open>OwnedProductionAcquisitionState\<close> of
    \<^verbatim>\<open>alpaca/adapter.ts\<close> and its table of transitions in \<^verbatim>\<open>credentials.ts\<close>. Calls wait for the write
    of their transition and may overlap; a list of \<open>OwnedStep\<close>s is an interleaving.
  \<^item> \<open>RetentionTypes\<close>, \<open>RetentionJournal\<close>, \<open>RetentionController\<close>: \<^verbatim>\<open>contracts.ts\<close> and
    \<^verbatim>\<open>identity.ts\<close>, \<^verbatim>\<open>memory-journal.ts\<close> and \<^verbatim>\<open>controller.ts\<close> under
    \<^verbatim>\<open>adapters/market-acquisition/retention/\<close>, with the policies of
    \<^verbatim>\<open>private-artifact-policy.ts\<close>. \<open>RetentionLaws\<close> and \<open>RetentionInvariants\<close> hold the laws of
    the journal and of permitted uses; \<open>ControllerRuns\<close> is the contract of a relation that every run
    of the controller follows, with two instances, \<open>later\<close> in \<open>ControllerLaws\<close> and
    \<open>sameOwnership\<close> in \<open>StopReturns\<close>; \<open>StopLaws\<close> shows what a receipt proves.
  \<^item> \<open>JsCollections\<close> (insertion-ordered maps and sets), \<open>Growth\<close> (the contract \<open>append_only\<close>, which
    the event log, the acquisition journal and the tables of the retention journal provide).
  \<^item> \<open>JsSort\<close> (sorting with a JavaScript comparator), \<open>StudyRational\<close>, \<open>StudySampling\<close>, \<open>Hamilton\<close>,
    \<open>StudyGates\<close>, \<open>Holm\<close>: \<^verbatim>\<open>analysis.ts\<close>, \<^verbatim>\<open>algorithms.ts\<close> and \<^verbatim>\<open>bounds.ts\<close> under
    \<^verbatim>\<open>study/market-reference/\<close>. \<open>ratOf\<close> maps the pairs of \<open>BigInt\<close>s of the source to rational
    numbers; \<open>quantile7\<close>, \<open>median\<close>, \<open>hamiltonAllocation\<close> and \<open>holmSpec\<close> are the reference
    definitions, and \<open>WilsonLaws\<close> shows that the fixed-point Wilson bounds are monotone in the count.
  \<^item> \<open>Scenario\<close>, \<open>ScenarioRun\<close>, \<open>ScenarioAcquisition\<close>, \<open>ScenarioRetention\<close>,
    \<open>ScenarioStudy\<close>: concrete inputs at which the hypotheses of the properties hold.
    \<open>KernelProperties\<close>, \<open>ProcessingProperties\<close>, \<open>AcquisitionProperties\<close>,
    \<open>RetentionProperties\<close>, \<open>StudyProperties\<close> and this theory state the properties C1 to C40.

  \<^bold>\<open>What is shown.\<close> The limit check and the encoder accept exactly the inert data whose tree is valid
  and return the counters and the canonical text of the tree, on every heap (C1, C2); canonical
  text is parsed back up to key order (C3), and hashing is injective as far as
  SHA-256 is (C5). Boundary checks are characterised exactly (C4, C6, C7, C12, C13, C29).
  The logs keep their chain and only grow (C8 to C11). Commits are atomic and refine the
  history of the run (C14, C15); in every reachable deployment each run has processed a prefix
  of the log, only live runs dispatch, and delivery is deduplicated (C16 to C18). Processing makes
  progress, ends, does not depend on the page size, and is reproduced by a replay of the captured log
  on an empty store (C19 to C21). The quota and retry rules are exact
  (C22, C23); an acquisition stays within its budgets and rate and ends (C24 to C26); calls of
  the production state that overlap are put in one order (C28); the journal is
  append-only and tamper evident (C30, C31). C27 states a place where the code departs from its
  contract. A retention receipt is proof of erasure, a stop ends every use of a provider's artifacts,
  evidence is permanent, and the enforcement of a stop returns (C32 to C35). In the study, seats
  are allocated by largest remainders (C36); sampling is unbiased (C37); the bootstrap interval, the
  gates and the rejections are exactly the ones the statistics define (C38 to C40). The
  injectivity of canonical text, idempotence of registering and processing, the round trips of registrations and captured logs, the finality of terminal states, the
  earliest moment a quota wait names, and the monotonicity of the clock are proved beside them.

  \<^bold>\<open>Termination and fuel.\<close> The JSON walk and the parser recurse on fuel that is proved sufficient for
  every input; the page loops of the processor are \<open>partial_function (option)\<close> and C20 shows that
  they return. The acquisition bound of 630 events is 13 for each of at most 48 attempts plus the six
  states before the first dispatch. The enforcement of a stop repeats a pass when an ownership was
  registered meanwhile; this loop is also \<open>partial_function (option)\<close>, and C35 shows that it returns
  when other tasks register none. The allocation loop has the requested seats as fuel: every pass
  over positive capacities hands out at least one seat, so that it never runs out
  (\<open>hamilton_returns\<close>). The loops of the greatest common divisor, the integer square root and the
  rejection sampling are total functions; the last one ends because its counter is a 64-bit number.

  \<^bold>\<open>Modelling choices.\<close> JavaScript numbers are safe integers, minus zero or a single value for all other
  numbers, which every check of the program refuses; sums that may leave the safe range are rounded as
  binary64 does. Error values carry the class and a short message. Freezing and defensive copies are
  the identity on immutable values; where a copy goes through JSON its effect on key order is kept.
  The retention controller is asynchronous: an action is a function of the journal, the coordinator
  and a world that answers the calls of the artifact boundary and the clock, and at every \<open>await\<close> the
  world also says which steps other tasks take before the controller goes on. Locale-dependent string
  comparison is a parameter.

  \<^bold>\<open>Not modelled.\<close> The SQLite adapters (their behaviour is that of the database); the artifact store and
  its leases (file system); credentials except the table of transitions, the Alpaca wire adapter and redaction; of retention the
  SQLite journal, the leases of \<^verbatim>\<open>artifact-access.ts\<close>, the vault on the file system and the
  checks of object identity in the composition; the observation ledger; provider normalisers and recorded fixtures; market-reference selection and
  the validation of study manifests, which rests on those records; domain reducers, which are
  parameters of the processor here; the research engine. Of the memory journal the ledger side is left
  out because it belongs to the observation ledger. Of \<^verbatim>\<open>core/json.ts\<close>, \<open>deepFreezeJson\<close> has no
  counterpart in a model without mutation.
\<close>

section \<open>JSON\<close>

text \<open>
  C1. The limit check of \<^verbatim>\<open>src/core/json.ts\<close> on an arbitrary JavaScript value succeeds if and
  only if the value is inert data representing some JSON tree that is valid and within the
  limits, and then returns exactly the number of nodes, the depth and the canonical byte length of
  that tree. Inert data is described by the shape of the objects, without the code that reads them.
\<close>

theorem assertJsonWithinLimits_exact:
  assumes "wf_heap h"
  shows "assertJsonWithinLimits h v L = Inr m \<longleftrightarrow>
    assertJsonLimits L \<and> (\<exists>t. inert h v t \<and> within_limits L t \<and>
      m = \<lparr>m_nodes = int (jnodes t), m_maxDepth = int (jdepth t),
           m_canonicalBytes = int (byteLength (canon t))\<rparr>)"
  unfolding assertJsonWithinLimits_iff [OF assms] checkJson_Inr metrics_def jbytes_exact
  using repr_valid_iff [OF assms within_limits_valid] by blast

text \<open>Two objects and an array between them: \<open>{"b":"x","a":[7,{}]}\<close>, and one with a foreign prototype.\<close>

definition sampleHeap :: heap where
  "sampleHeap a =
     (if a = 0 then \<lparr>isProxy = False, isArray = False, getPrototype = ProtoObject,
        props = [(PStr (js ''b''), DataDesc (VStr (js ''x'')) True), (PStr (js ''a''), DataDesc (VRef 1) True)]\<rparr>
      else if a = 1 then \<lparr>isProxy = False, isArray = True, getPrototype = ProtoOther,
        props = [(PStr (dec 0), DataDesc (VNum (NInt 7)) True), (PStr (dec 1), DataDesc (VRef 2) True),
          (PStr (js ''length''), DataDesc (VNum (NInt 2)) False)]\<rparr>
      else \<lparr>isProxy = False, isArray = False, getPrototype = (if a = 2 then ProtoNull else ProtoOther), props = []\<rparr>)"

definition sampleTree :: json where
  "sampleTree = JObj [(js ''a'', JArr [JNum (NInt 7), JObj []]), (js ''b'', JStr (js ''x''))]"

lemma sampleHeap_wf: "wf_heap sampleHeap"
  using dec_inj [of 0 1] index_key(2) [of 0] index_key(2) [of 1]
  by (auto simp: wf_heap_def sampleHeap_def js_simps)

lemma sample_inert: "inert sampleHeap (VRef 0) sampleTree"
  unfolding sampleTree_def
proof (rule inert_obj [where es = "[(js ''a'', VRef 1), (js ''b'', VStr (js ''x''))]"])
  show "plainObject (sampleHeap 0) [(js ''a'', VRef 1), (js ''b'', VStr (js ''x''))]"
    by (auto simp: plainObject_def sampleHeap_def js_simps)
  have "inert sampleHeap (VRef 2) (JObj [])"
    by (rule inert_obj [where es = "[]"]) (simp_all add: plainObject_def sampleHeap_def)
  moreover have "plainArray (sampleHeap 1) [VNum (NInt 7), VRef 2]"
    by (auto simp: plainArray_def sampleHeap_def isSafeInteger_def MAX_SAFE_INTEGER_def lessThan_Suc numeral_2_eq_2)
  ultimately have "inert sampleHeap (VRef 1) (JArr [JNum (NInt 7), JObj []])"
    by (intro inert_arr [where vs = "[VNum (NInt 7), VRef 2]"]) (simp_all add: inert_num)
  then show "list_all2 (\<lambda>e kt. fst e = fst kt \<and> inert sampleHeap (snd e) (snd kt))
      [(js ''a'', VRef 1), (js ''b'', VStr (js ''x''))] [(js ''a'', JArr [JNum (NInt 7), JObj []]), (js ''b'', JStr (js ''x''))]"
    by (simp add: inert_str)
qed

theorem assertJsonWithinLimits_exact_witness:
  "assertJsonWithinLimits sampleHeap (VRef 0) EVENT_PAYLOAD_LIMITS =
     Inr \<lparr>m_nodes = 5, m_maxDepth = 3, m_canonicalBytes = 20\<rparr>"
proof -
  have "within_limits EVENT_PAYLOAD_LIMITS sampleTree" by code_simp
  moreover have "byteLength (canon sampleTree) = 20" "jnodes sampleTree = 5" "jdepth sampleTree = 3" by code_simp+
  ultimately show ?thesis
    using assertJsonWithinLimits_exact [OF sampleHeap_wf, of "VRef 0" EVENT_PAYLOAD_LIMITS
        "\<lparr>m_nodes = 5, m_maxDepth = 3, m_canonicalBytes = 20\<rparr>"] sample_inert event_limits_ok(1)
    by fastforce
qed

text \<open>
  C2. Canonical encoding of an arbitrary JavaScript value succeeds if and only if the value is
  inert data representing a valid JSON tree whose nesting depth the call stack can hold, and the
  result is then the canonical text of that tree. A proxy, an accessor, a symbol, a hidden or missing
  property, an object with a foreign prototype, or a cycle anywhere below the root is refused.
\<close>

theorem encode_exact:
  assumes "wf_heap h"
  shows "encode h stack v = Inr s \<longleftrightarrow> (\<exists>t. inert h v t \<and> valid_json t \<and> jdepth t \<le> stack \<and> s = canon t)"
  unfolding encode_iff [OF assms] using repr_valid_iff [OF assms] by blast

theorem encode_exact_witness:
  "encode sampleHeap 3 (VRef 0) = Inr (js ''{\"a\":[7,{}],\"b\":\"x\"}'') \<and> \<not> (\<exists>s. encode sampleHeap 3 (VRef 3) = Inr s)"
proof
  have "valid_json sampleTree \<and> jdepth sampleTree \<le> 3 \<and> canon sampleTree = js ''{\"a\":[7,{}],\"b\":\"x\"}''" by code_simp
  then show "encode sampleHeap 3 (VRef 0) = Inr (js ''{\"a\":[7,{}],\"b\":\"x\"}'')"
    using encode_exact [OF sampleHeap_wf, of 3 "VRef 0"] sample_inert by metis
  have "\<not> inert sampleHeap (VRef 3) t" for t
    by (auto elim!: inert_refE simp: plainArray_def plainObject_def sampleHeap_def)
  then show "\<not> (\<exists>s. encode sampleHeap 3 (VRef 3) = Inr s)" using encode_exact [OF sampleHeap_wf, of 3 "VRef 3"] by metis
qed

text \<open>
  C3. Parsing the canonical text of a valid value gives the value back, up to the order of object keys.
\<close>

theorem parse_canonical: "valid_json v \<Longrightarrow> bindR (canonicalJson v) jsonParse = Inr (Json.norm v)"
  by (simp add: jsonParse_canon)

theorem parse_canonical_witness:
  "bindR (canonicalJson (JArr [JNull, JStr (js ''x'')])) jsonParse = Inr (JArr [JNull, JStr (js ''x'')])"
  using parse_canonical [of "JArr [JNull, JStr (js ''x'')]"] by simp

end
